(* ===== verification/Prelude.thy ===== *)
theory Prelude
  imports Main
begin

text \<open>
  Shared vocabulary of the development: JavaScript values as the workflow package sees
  them, optional fields with the \<open>undefined\<close>/\<open>null\<close> distinction, thrown errors as values of a
  sum type, and decimal rendering of numbers (the \<open>String(n)\<close> that template literals use).

  JavaScript numbers: except in formulas, which compute with the doubles of \<open>Js_Number\<close>, every
  number the modelled code computes with is an integer (versions, counters, cents, schema versions) that stays far below \<open>2^53\<close>, where
  double-precision arithmetic is exact, so they are modelled as \<open>int\<close>.  A string is a
  HOL string; the workflow code treats strings as opaque except where a theory says
  otherwise (\<open>Event_Ref\<close> works on UTF-16 code units).
\<close>

named_theorems wf_simps \<open>the guard combinators a concrete run of a reducer unfolds\<close>

section \<open>Errors as values\<close>

text \<open>
  \<open>HttpError\<close> (\<open>apps/api/src/http-utils.ts\<close>) carries the response status beside the message,
  \<open>CircuitOpenError\<close> (\<open>packages/queue/src/circuit-breaker.ts\<close>) the key of the breaker.
\<close>

datatype js_error = Error string | HttpError int string | CircuitOpenError string

fun err_message :: "js_error \<Rightarrow> string" where
  "err_message (Error m) = m"
| "err_message (HttpError _ m) = m"
| "err_message (CircuitOpenError key) = ''circuit open for '' @ key"

type_synonym 'a result = "js_error + 'a"

text \<open>
  \<open>if (!allowed.includes(state)) throw new Error(...)\<close>: the guard shape that every
  reducer shares; and sequencing of a guard with the value returned after it.
\<close>

definition assert_in :: "'s list \<Rightarrow> 's \<Rightarrow> string \<Rightarrow> unit result" where
  "assert_in allowed s msg = (if s \<in> set allowed then Inr () else Inl (Error msg))"

definition then_return :: "unit result \<Rightarrow> 'a \<Rightarrow> 'a result" where
  "then_return m x = (case m of Inl e \<Rightarrow> Inl e | Inr _ \<Rightarrow> Inr x)"

definition is_ok :: "'a result \<Rightarrow> bool" where
  "is_ok r = (case r of Inl _ \<Rightarrow> False | Inr _ \<Rightarrow> True)"

lemmas [wf_simps] = assert_in_def then_return_def

lemma assert_in_Inr [simp]: "assert_in allowed s msg = Inr u \<longleftrightarrow> s \<in> set allowed"
  by (simp add: assert_in_def)

lemma assert_in_Inl [simp]:
  "assert_in allowed s msg = Inl e \<longleftrightarrow> s \<notin> set allowed \<and> e = Error msg"
  by (auto simp: assert_in_def)

lemma then_return_Inr [simp]: "then_return m x = Inr y \<longleftrightarrow> m = Inr () \<and> y = x"
  by (auto simp: then_return_def split: sum.splits)

lemma then_return_Inl [simp]: "then_return m x = Inl e \<longleftrightarrow> m = Inl e"
  by (auto simp: then_return_def split: sum.splits)

lemma is_ok_Inl [simp]: "\<not> is_ok (Inl e)"
  by (simp add: is_ok_def)

lemma is_ok_Inr [simp]: "is_ok (Inr x)"
  by (simp add: is_ok_def)

lemma is_ok_iff: "is_ok r \<longleftrightarrow> (\<exists>x. r = Inr x)"
  by (cases r) auto

lemma not_is_ok_iff: "\<not> is_ok r \<longleftrightarrow> (\<exists>e. r = Inl e)"
  by (cases r) auto

lemma is_ok_then_return [simp]: "is_ok (then_return (assert_in allowed s msg) x) \<longleftrightarrow> s \<in> set allowed"
  by (simp add: is_ok_iff)

section \<open>Loops that may throw\<close>

text \<open>The results of a loop whose body may throw: the first throw, or all the values.\<close>

fun all_results :: "'a result list \<Rightarrow> 'a list result" where
  "all_results [] = Inr []"
| "all_results (r # rs) =
     (case r of Inl e \<Rightarrow> Inl e
      | Inr x \<Rightarrow> (case all_results rs of Inl e \<Rightarrow> Inl e | Inr xs \<Rightarrow> Inr (x # xs)))"

definition map_result :: "('a \<Rightarrow> 'b) \<Rightarrow> 'a result \<Rightarrow> 'b result" where
  "map_result f r = (case r of Inl e \<Rightarrow> Inl e | Inr x \<Rightarrow> Inr (f x))"

lemma all_results_map_Inr [simp]: "all_results (map (\<lambda>x. Inr (f x)) xs) = Inr (map f xs)"
  by (induction xs) auto

lemma all_results_Inr: "all_results rs = Inr xs \<longleftrightarrow> rs = map Inr xs"
proof
  show "all_results rs = Inr xs \<Longrightarrow> rs = map Inr xs"
    by (induction rs arbitrary: xs) (auto split: sum.splits)
  show "rs = map Inr xs \<Longrightarrow> all_results rs = Inr xs"
    using all_results_map_Inr [of id xs] by simp
qed

lemma is_ok_all_results: "is_ok (all_results rs) \<longleftrightarrow> (\<forall>r \<in> set rs. is_ok r)"
  by (induction rs) (auto split: sum.splits simp: is_ok_def)

lemma is_ok_map_result [simp]: "is_ok (map_result f r) \<longleftrightarrow> is_ok r"
  by (cases r) (simp_all add: map_result_def)

lemma map_result_Inr [simp]: "map_result f (Inr x) = Inr (f x)"
  by (simp add: map_result_def)

section \<open>Strings\<close>

text \<open>\<open>String.prototype.trim\<close>: blanks, line ends and the no-break space.\<close>

definition is_space :: "char \<Rightarrow> bool" where
  "is_space c \<longleftrightarrow> of_char c \<in> {9, 10, 11, 12, 13, 32, 160 :: nat}"

definition trim :: "string \<Rightarrow> string" where
  "trim s = rev (dropWhile is_space (rev (dropWhile is_space s)))"

text \<open>\<open>Array.prototype.join\<close>\<close>

fun join :: "string \<Rightarrow> string list \<Rightarrow> string" where
  "join sep [] = []"
| "join sep [x] = x"
| "join sep (x # xs) = x @ sep @ join sep xs"

text \<open>\<open>toLowerCase\<close> on ASCII, and \<open>haystack.includes(needle)\<close>.\<close>

definition to_lower :: "string \<Rightarrow> string" where
  "to_lower = map (\<lambda>c. if c \<in> set ''ABCDEFGHIJKLMNOPQRSTUVWXYZ''
     then char_of (of_char c + (32 :: nat)) else c)"

fun contains :: "string \<Rightarrow> string \<Rightarrow> bool" where
  "contains needle [] = (needle = [])"
| "contains needle (c # cs) = (take (length needle) (c # cs) = needle \<or> contains needle cs)"

section \<open>Optional fields\<close>

text \<open>
  A field declared \<open>f?: T | null\<close> is absent, \<open>null\<close> or a value.
  \<open>coalesce a b\<close> is \<open>a ?? b\<close>.
\<close>

datatype 'a field = Undefined | Null | Val 'a

fun coalesce :: "'a field \<Rightarrow> 'a field \<Rightarrow> 'a field" where
  "coalesce (Val x) d = Val x"
| "coalesce _ d = d"

fun value_or :: "'a field \<Rightarrow> 'a \<Rightarrow> 'a" where
  "value_or (Val x) d = x"
| "value_or _ d = d"

fun present :: "'a field \<Rightarrow> bool" where
  "present (Val _) = True"
| "present _ = False"

lemma present_iff: "present f \<longleftrightarrow> (\<exists>x. f = Val x)"
  by (cases f) auto

lemma present_coalesce [simp]: "present (coalesce a b) \<longleftrightarrow> present a \<or> present b"
  by (cases a) auto

lemma coalesce_Null_eq_Val [simp]: "coalesce a Null = Val x \<longleftrightarrow> a = Val x"
  by (cases a) auto

lemma coalesce_Val_not_absent [simp]:
  "coalesce a (Val y) \<noteq> Null" "coalesce a (Val y) \<noteq> Undefined"
  by (cases a; simp)+

lemma coalesce_assoc: "coalesce (coalesce a b) c = coalesce a (coalesce b c)"
  by (cases a) auto

lemma not_present_cases: "\<not> present f \<longleftrightarrow> f = Null \<or> f = Undefined"
  by (cases f) auto

section \<open>JavaScript values\<close>

text \<open>
  The values that cross a JSON boundary.  An object is the association list of its own
  properties, in insertion order, with distinct keys (\<open>js_wf\<close>).
\<close>

datatype js =
    JUndef
  | JNull
  | JBool bool
  | JNum int
  | JStr string
  | JArr "js list"
  | JObj "(string \<times> js) list"

definition js_get :: "(string \<times> js) list \<Rightarrow> string \<Rightarrow> js" where
  "js_get kvs k = (case map_of kvs k of None \<Rightarrow> JUndef | Some v \<Rightarrow> v)"

fun js_wf :: "js \<Rightarrow> bool" where
  "js_wf (JArr xs) = (\<forall>x \<in> set xs. js_wf x)"
| "js_wf (JObj kvs) = (distinct (map fst kvs) \<and> (\<forall>p \<in> set kvs. js_wf (snd p)))"
| "js_wf _ = True"

fun field_js :: "('a \<Rightarrow> js) \<Rightarrow> 'a field \<Rightarrow> js" where
  "field_js f Undefined = JUndef"
| "field_js f Null = JNull"
| "field_js f (Val x) = f x"

lemma js_wf_field_js: "(\<And>x. js_wf (f x)) \<Longrightarrow> js_wf (field_js f v)"
  by (cases v) auto

lemma js_wf_field_simps [simp]:
  "js_wf (field_js JStr v)" "js_wf (field_js JNum w)" "js_wf (field_js JBool b)"
  by (rule js_wf_field_js, simp)+

lemma js_get_in: "js_get kvs k = JUndef \<or> (k, js_get kvs k) \<in> set kvs"
  by (auto simp: js_get_def dest: map_of_SomeD split: option.splits)

lemma js_get_notin: "k \<notin> fst ` set kvs \<Longrightarrow> js_get kvs k = JUndef"
  by (auto simp: js_get_def map_of_eq_None_iff [symmetric] split: option.splits)

lemma js_wf_js_get: "js_wf (JObj kvs) \<Longrightarrow> js_wf (js_get kvs k)"
  using js_get_in [of kvs k] by auto

section \<open>Decimal numbers\<close>

text \<open>\<open>String(n)\<close> for an integer, and the reading of a digit string.\<close>

definition digit_char :: "nat \<Rightarrow> char" where
  "digit_char d = char_of (48 + d)"

definition digit_value :: "char \<Rightarrow> nat" where
  "digit_value c = of_char c - 48"

definition is_digit :: "char \<Rightarrow> bool" where
  "is_digit c \<longleftrightarrow> 48 \<le> (of_char c :: nat) \<and> (of_char c :: nat) \<le> 57"

definition hex_digit :: "nat \<Rightarrow> char" where
  "hex_digit d = (if d < 10 then char_of (48 + d) else char_of (87 + d))"

fun show_nat :: "nat \<Rightarrow> string" where
  "show_nat n = (if n < 10 then [digit_char n] else show_nat (n div 10) @ [digit_char (n mod 10)])"

declare show_nat.simps [simp del]

definition show_int :: "int \<Rightarrow> string" where
  "show_int i = (if i < 0 then CHR ''-'' # show_nat (nat (- i)) else show_nat (nat i))"

definition read_nat :: "string \<Rightarrow> nat" where
  "read_nat s = fold (\<lambda>c acc. 10 * acc + digit_value c) s 0"

lemma digit_value_digit_char [simp]: "d < 10 \<Longrightarrow> digit_value (digit_char d) = d"
  by (simp add: digit_value_def digit_char_def)

lemma is_digit_digit_char [simp]: "d < 10 \<Longrightarrow> is_digit (digit_char d)"
  by (simp add: is_digit_def digit_char_def)

lemma show_nat_nonempty [simp]: "show_nat n \<noteq> []"
  by (subst show_nat.simps) simp

lemma show_nat_digits: "\<forall>c \<in> set (show_nat n). is_digit c"
proof (induction n rule: show_nat.induct)
  case (1 n)
  then show ?case by (subst show_nat.simps) auto
qed

lemma read_nat_show_nat [simp]: "read_nat (show_nat n) = n"
proof (induction n rule: show_nat.induct)
  case (1 n)
  show ?case
  proof (cases "n < 10")
    case True
    then show ?thesis by (subst show_nat.simps) (simp add: read_nat_def)
  next
    case False
    with 1 have "read_nat (show_nat (n div 10)) = n div 10" by simp
    with False show ?thesis by (subst show_nat.simps) (simp add: read_nat_def)
  qed
qed

lemma show_nat_inject [simp]: "show_nat m = show_nat n \<longleftrightarrow> m = n"
  by (metis read_nat_show_nat)

lemma minus_notin_show_nat: "CHR ''-'' \<notin> set (show_nat n)"
proof
  assume "CHR ''-'' \<in> set (show_nat n)"
  with show_nat_digits [of n] have "is_digit (CHR ''-'')" by blast
  then show False by (simp add: is_digit_def)
qed

lemma show_int_inject [simp]: "show_int i = show_int j \<longleftrightarrow> i = j"
proof
  assume eq: "show_int i = show_int j"
  have neg: "show_nat m \<noteq> CHR ''-'' # ys" for m ys
    using minus_notin_show_nat [of m] by (metis list.set_intros(1))
  show "i = j"
    using eq neg neg [symmetric] by (auto simp: show_int_def split: if_splits)
qed simp

lemma show_int_nonneg: "0 \<le> i \<Longrightarrow> show_int i = show_nat (nat i)"
  by (simp add: show_int_def)

end
