(* ===== verification/Workflow_Core.thy ===== *)
theory Workflow_Core
  imports Prelude
begin

text \<open>
  The shape every deterministic workflow shares (\<open>packages/workflows/src/index.ts\<close> and
  \<open>registry.ts\<close>): the snapshot a reducer consumes, the \<open>next_events\<close> entries, and the
  workflow descriptor.  Over that shape: runs of a reducer, reachable snapshots, and the
  interface locales whose laws every registered workflow of the package satisfies; each
  workflow theory interprets them on its own definition.
\<close>

section \<open>Snapshots, offered events, descriptors\<close>

text \<open>
  \<open>Snapshot extends { state: State; state_version: number }\<close>: each workflow extends this
  record with its own optional fields.
\<close>

record 'st workflow_snapshot =
  state :: 'st
  state_version :: int

record next_event =
  ne_type :: string
  label :: string
  disabled_reason :: "string field"

definition offer :: "string \<Rightarrow> string \<Rightarrow> next_event" where
  "offer t l = \<lparr>ne_type = t, label = l, disabled_reason = Undefined\<rparr>"

record ('st, 'ev, 'sn) workflow_definition =
  wf_name :: string
  schemaVersion :: int
  initialState :: 'st
  terminalStates :: "'st list"
  allStates :: "'st list"
  allEventTypes :: "string list"
  reduce :: "'sn \<Rightarrow> 'ev \<Rightarrow> 'sn result"
  nextEvents :: "'st \<Rightarrow> next_event list"
  isHumanEvent :: "string \<Rightarrow> bool"
  sideEffectTypes :: "string list"

lemma ne_type_offer [simp]: "ne_type (offer t l) = t"
  by (simp add: offer_def)

section \<open>Runs and reachable snapshots\<close>

text \<open>A sequence of events through a reducer: it stops at the first event that throws.\<close>

fun run_events :: "('sn \<Rightarrow> 'ev \<Rightarrow> 'sn result) \<Rightarrow> 'sn \<Rightarrow> 'ev list \<Rightarrow> 'sn result" where
  "run_events r s [] = Inr s"
| "run_events r s (e # es) = (case r s e of Inl err \<Rightarrow> Inl err | Inr s' \<Rightarrow> run_events r s' es)"

inductive reachable :: "('sn \<Rightarrow> 'ev \<Rightarrow> 'sn result) \<Rightarrow> 'sn \<Rightarrow> 'sn \<Rightarrow> bool"
  for r s0 where
  reachable_start: "reachable r s0 s0"
| reachable_step: "reachable r s0 s \<Longrightarrow> r s e = Inr s' \<Longrightarrow> reachable r s0 s'"

lemma run_events_Cons_Inr:
  "run_events r s (e # es) = Inr t \<longleftrightarrow> (\<exists>s'. r s e = Inr s' \<and> run_events r s' es = Inr t)"
  by (auto split: sum.splits)

lemma run_events_append:
  "run_events r s (es @ fs) =
     (case run_events r s es of Inl err \<Rightarrow> Inl err | Inr s' \<Rightarrow> run_events r s' fs)"
  by (induction es arbitrary: s) (auto split: sum.splits)

lemma run_events_snoc_Inr:
  "run_events r s (es @ [e]) = Inr t \<longleftrightarrow> (\<exists>s'. run_events r s es = Inr s' \<and> r s' e = Inr t)"
  by (auto simp: run_events_append split: sum.splits)

lemma reachable_iff_run: "reachable r s0 s \<longleftrightarrow> (\<exists>es. run_events r s0 es = Inr s)"
proof
  assume "reachable r s0 s"
  then show "\<exists>es. run_events r s0 es = Inr s"
  proof (induction rule: reachable.induct)
    case reachable_start
    have "run_events r s0 [] = Inr s0" by simp
    then show ?case by blast
  next
    case (reachable_step s e s')
    then show ?case by (metis run_events_snoc_Inr)
  qed
next
  assume "\<exists>es. run_events r s0 es = Inr s"
  then obtain es where "run_events r s0 es = Inr s" ..
  then show "reachable r s0 s"
    by (induction es arbitrary: s rule: rev_induct)
      (auto simp: run_events_snoc_Inr intro: reachable.intros)
qed

lemma run_events_reachable: "run_events r s0 es = Inr s \<Longrightarrow> reachable r s0 s"
  by (auto simp: reachable_iff_run)

text \<open>Invariants along a run, with the event in sight, and over reachable snapshots.\<close>

lemma run_events_invariant:
  assumes "run_events r s es = Inr t" and "P s"
    and "\<And>s e s'. P s \<Longrightarrow> e \<in> set es \<Longrightarrow> r s e = Inr s' \<Longrightarrow> P s'"
  shows "P t"
  using assms
proof (induction es arbitrary: s)
  case Nil
  then show ?case by simp
next
  case (Cons e es)
  from Cons.prems(1) obtain s' where s': "r s e = Inr s'" "run_events r s' es = Inr t"
    by (auto split: sum.splits)
  have "P s'" by (rule Cons.prems(3) [OF Cons.prems(2) _ s'(1)]) simp
  then show ?case
    using s'(2) Cons.prems(3) by (intro Cons.IH [of s']) auto
qed

lemma reachable_invariant:
  assumes "reachable r s0 s" and "P s0"
    and "\<And>s e s'. P s \<Longrightarrow> r s e = Inr s' \<Longrightarrow> P s'"
  shows "P s"
  using assms by (induction rule: reachable.induct) auto

text \<open>A potential that every accepted event lowers bounds the length of a run.\<close>

lemma run_events_potential:
  assumes "\<And>s e s'. r s e = Inr s' \<Longrightarrow> (f s' :: nat) < f s"
    and "run_events r s es = Inr t"
  shows "length es + f t \<le> f s"
  using assms(2)
proof (induction es arbitrary: s)
  case Nil
  then show ?case by simp
next
  case (Cons e es)
  then obtain s' where "r s e = Inr s'" "run_events r s' es = Inr t"
    by (auto split: sum.splits)
  with Cons.IH [of s'] assms(1) [of s e s'] show ?case by simp
qed

text \<open>
  The \<open>state_version\<close> each event of a run is logged under: the version before it.
\<close>

fun versions_before ::
  "(('st, 'x) workflow_snapshot_scheme \<Rightarrow> 'ev \<Rightarrow> ('st, 'x) workflow_snapshot_scheme result) \<Rightarrow>
   ('st, 'x) workflow_snapshot_scheme \<Rightarrow> 'ev list \<Rightarrow> int list" where
  "versions_before r s [] = []"
| "versions_before r s (e # es) = state_version s #
     (case r s e of Inl _ \<Rightarrow> [] | Inr s' \<Rightarrow> versions_before r s' es)"

text \<open>The snapshots a run passes through, each after one event.\<close>

fun run_states :: "('sn \<Rightarrow> 'ev \<Rightarrow> 'sn result) \<Rightarrow> 'sn \<Rightarrow> 'ev list \<Rightarrow> 'sn list" where
  "run_states r s [] = []"
| "run_states r s (e # es) = (case r s e of Inl _ \<Rightarrow> [] | Inr s' \<Rightarrow> s' # run_states r s' es)"

lemma length_run_states: "run_events r s es = Inr t \<Longrightarrow> length (run_states r s es) = length es"
  by (induction es arbitrary: s) (auto split: sum.splits)

lemma last_run_states: "run_events r s es = Inr t \<Longrightarrow> last (s # run_states r s es) = t"
  by (induction es arbitrary: s) (fastforce split: sum.splits)+

lemma versions_before_snoc:
  "run_events r s es = Inr u \<Longrightarrow> versions_before r s (es @ [e]) = versions_before r s es @ [state_version u]"
  by (induction es arbitrary: s) (auto split: sum.splits)

lemma run_states_snoc:
  "run_events r s es = Inr u \<Longrightarrow> r u e = Inr t \<Longrightarrow> run_states r s (es @ [e]) = run_states r s es @ [t]"
  by (induction es arbitrary: s) (auto split: sum.splits)

section \<open>The workflow contract\<close>

text \<open>
  The laws the package's tooling relies on.  \<open>version_step\<close> is what makes
  \<open>(entity_id, workflow_name, state_version)\<close> a key of the event log; \<open>terminal_final\<close> is
  the documented meaning of \<open>terminalStates\<close>; \<open>offers_legal\<close> says that no button the UI
  renders from \<open>next_events\<close> can be refused by the reducer for its state.
\<close>

locale versioned_workflow =
  fixes wd :: "('st, 'ev, ('st, 'x) workflow_snapshot_scheme) workflow_definition"
  assumes version_step: "reduce wd s e = Inr s' \<Longrightarrow> state_version s' = state_version s + 1"
begin

lemma run_version:
  "run_events (reduce wd) s es = Inr t \<Longrightarrow> state_version t = state_version s + int (length es)"
proof (induction es arbitrary: s)
  case Nil
  then show ?case by simp
next
  case (Cons e es)
  then show ?case by (auto split: sum.splits dest: version_step)
qed

lemma versions_before_eq:
  "run_events (reduce wd) s es = Inr t \<Longrightarrow>
   versions_before (reduce wd) s es = map (\<lambda>i. state_version s + int i) [0..<length es]"
proof (induction es arbitrary: s)
  case Nil
  then show ?case by simp
next
  case (Cons e es)
  then obtain s' where s': "reduce wd s e = Inr s'" "run_events (reduce wd) s' es = Inr t"
    by (auto split: sum.splits)
  from Cons.IH [OF s'(2)] version_step [OF s'(1)] show ?case
    by (simp add: s'(1) upt_conv_Cons map_Suc_upt [symmetric] del: upt_Suc)
qed

lemma versions_before_sorted:
  "run_events (reduce wd) s es = Inr t \<Longrightarrow> sorted (versions_before (reduce wd) s es)"
  by (simp add: versions_before_eq sorted_wrt_map sorted_wrt_iff_nth_less)

lemma versions_before_distinct:
  "run_events (reduce wd) s es = Inr t \<Longrightarrow> distinct (versions_before (reduce wd) s es)"
  by (simp add: versions_before_eq distinct_map inj_on_def)

end

locale workflow = versioned_workflow wd
  for wd :: "('st, 'ev, ('st, 'x) workflow_snapshot_scheme) workflow_definition" +
  fixes event_type :: "'ev \<Rightarrow> string"
  assumes state_closed: "reduce wd s e = Inr s' \<Longrightarrow> state s' \<in> set (allStates wd)"
    and initial_declared: "initialState wd \<in> set (allStates wd)"
    and terminal_declared: "set (terminalStates wd) \<subseteq> set (allStates wd)"
    and event_declared: "event_type e \<in> set (allEventTypes wd)"
    and event_inhabited: "t \<in> set (allEventTypes wd) \<Longrightarrow> \<exists>e. event_type e = t"
    and terminal_final: "state s \<in> set (terminalStates wd) \<Longrightarrow> \<not> is_ok (reduce wd s e)"
    and offers_human: "n \<in> set (nextEvents wd st) \<Longrightarrow> isHumanEvent wd (ne_type n)"
    and human_declared: "isHumanEvent wd t \<Longrightarrow> t \<in> set (allEventTypes wd)"
    and offers_legal: "event_type e \<in> ne_type ` set (nextEvents wd (state s)) \<Longrightarrow>
      is_ok (reduce wd s e)"
begin

lemma run_state_closed:
  assumes "run_events (reduce wd) s es = Inr t" and "state s \<in> set (allStates wd)"
  shows "state t \<in> set (allStates wd)"
  using assms by (rule run_events_invariant) (rule state_closed)

lemma terminal_run:
  assumes "run_events (reduce wd) s es = Inr t" and "state s \<in> set (terminalStates wd)"
  shows "es = [] \<and> t = s"
proof (cases es)
  case Nil
  with assms(1) show ?thesis by simp
next
  case (Cons e es')
  with assms(1) have "is_ok (reduce wd s e)" by (auto simp: is_ok_iff split: sum.splits)
  with terminal_final [OF assms(2)] show ?thesis by simp
qed

lemma terminal_ends_run:
  assumes "run_events (reduce wd) s (es @ fs) = Inr t"
    and "run_events (reduce wd) s es = Inr u" and "state u \<in> set (terminalStates wd)"
  shows "fs = []"
proof -
  from assms(1,2) have "run_events (reduce wd) u fs = Inr t"
    by (simp add: run_events_append)
  with assms(3) show ?thesis using terminal_run by blast
qed

lemma terminal_offers_nothing:
  assumes "st \<in> set (terminalStates wd)"
  shows "nextEvents wd st = []"
proof (rule ccontr)
  assume "nextEvents wd st \<noteq> []"
  then obtain n where n: "n \<in> set (nextEvents wd st)" using list.set_sel(1) by blast
  obtain e where e: "event_type e = ne_type n"
    using event_inhabited [OF human_declared [OF offers_human [OF n]]] by blast
  have "is_ok (reduce wd (undefined\<lparr>state := st\<rparr>) e)"
    using n e by (intro offers_legal) (auto intro!: rev_image_eqI)
  moreover have "\<not> is_ok (reduce wd (undefined\<lparr>state := st\<rparr>) e)"
    using assms by (intro terminal_final) simp
  ultimately show False by blast
qed

end

text \<open>Workflows in which every non-terminal state accepts some event.\<close>

locale live_workflow = workflow +
  assumes progress: "state s \<in> set (allStates wd) \<Longrightarrow> state s \<notin> set (terminalStates wd) \<Longrightarrow>
    \<exists>e. is_ok (reduce wd s e)"
begin

lemma stuck_iff_terminal:
  assumes "state s \<in> set (allStates wd)"
  shows "(\<forall>e. \<not> is_ok (reduce wd s e)) \<longleftrightarrow> state s \<in> set (terminalStates wd)"
  using progress [OF assms] terminal_final by blast

end

section \<open>Transition tables\<close>

text \<open>
  The abstract specification of a workflow is the table its documentation prints:
  \<open>(from, EVENT, to)\<close>.  Everything about states alone is decided on the table by
  computation and carried over to the reducer by the refinement laws of
  \<open>table_workflow\<close>: an accepted event follows an edge (\<open>sound\<close>), and an event with an edge
  from the current state is accepted (\<open>enabled\<close>).
\<close>

type_synonym 'st edge = "'st \<times> string \<times> 'st"

definition has_edge :: "'st edge list \<Rightarrow> 'st \<Rightarrow> string \<Rightarrow> bool" where
  "has_edge edges a t = list_ex (\<lambda>(a', t', b). a' = a \<and> t' = t) edges"

definition table_ok ::
  "('st, 'ev, 'sn) workflow_definition \<Rightarrow> 'st edge list \<Rightarrow> bool" where
  "table_ok wd edges \<longleftrightarrow>
     list_all (\<lambda>(a, t, b). a \<notin> set (terminalStates wd) \<and> t \<in> set (allEventTypes wd)) edges \<and>
     list_all (\<lambda>st. list_all (\<lambda>n. isHumanEvent wd (ne_type n) \<and> has_edge edges st (ne_type n))
       (nextEvents wd st)) (allStates wd)"

definition table_live :: "('st, 'ev, 'sn) workflow_definition \<Rightarrow> 'st edge list \<Rightarrow> bool" where
  "table_live wd edges \<longleftrightarrow>
     list_all (\<lambda>st. st \<in> set (terminalStates wd) \<or> list_ex (\<lambda>(a, t, b). a = st) edges)
       (allStates wd)"

definition table_deterministic :: "'st edge list \<Rightarrow> bool" where
  "table_deterministic edges \<longleftrightarrow> distinct (map (\<lambda>(a, t, b). (a, t)) edges)"

definition table_ranked :: "('st \<Rightarrow> nat) \<Rightarrow> 'st edge list \<Rightarrow> bool" where
  "table_ranked rank edges \<longleftrightarrow> list_all (\<lambda>(a, t, b). rank b < rank a) edges"

definition successors :: "'st edge list \<Rightarrow> 'st list \<Rightarrow> 'st list" where
  "successors edges sts =
     sts @ map (\<lambda>(a, t, b). b) (filter (\<lambda>(a, t, b). a \<in> set sts \<and> b \<notin> set sts) edges)"

fun reach_within :: "'st edge list \<Rightarrow> nat \<Rightarrow> 'st list \<Rightarrow> 'st list" where
  "reach_within edges 0 sts = sts"
| "reach_within edges (Suc n) sts = reach_within edges n (remdups (successors edges sts))"

lemma has_edge_iff: "has_edge edges a t \<longleftrightarrow> (\<exists>b. (a, t, b) \<in> set edges)"
  by (auto simp: has_edge_def list_ex_iff)

lemma table_deterministicD:
  "table_deterministic edges \<Longrightarrow> (a, t, b) \<in> set edges \<Longrightarrow> (a, t, c) \<in> set edges \<Longrightarrow> b = c"
  by (auto simp: table_deterministic_def distinct_map inj_on_def)

lemma set_successors:
  "set (successors edges sts) = set sts \<union> {b. \<exists>a t. a \<in> set sts \<and> (a, t, b) \<in> set edges}"
proof (rule set_eqI)
  show "b \<in> set (successors edges sts) \<longleftrightarrow>
      b \<in> set sts \<union> {b. \<exists>a t. a \<in> set sts \<and> (a, t, b) \<in> set edges}" for b
    by (cases "b \<in> set sts") (force simp: successors_def image_iff)+
qed

locale table_workflow =
  fixes wd :: "('st, 'ev, ('st, 'x) workflow_snapshot_scheme) workflow_definition"
    and event_type :: "'ev \<Rightarrow> string"
    and edges :: "'st edge list"
  assumes sound: "reduce wd s e = Inr s' \<Longrightarrow>
      state_version s' = state_version s + 1 \<and> (state s, event_type e, state s') \<in> set edges"
    and enabled: "(state s, event_type e, b) \<in> set edges \<Longrightarrow> is_ok (reduce wd s e)"
    and all_states: "st \<in> set (allStates wd)"
    and declared: "event_type e \<in> set (allEventTypes wd)"
    and inhabited: "t \<in> set (allEventTypes wd) \<Longrightarrow> \<exists>e. event_type e = t"
    and human: "isHumanEvent wd t \<Longrightarrow> t \<in> set (allEventTypes wd)"
    and table: "table_ok wd edges"
begin

lemma accepts_iff: "is_ok (reduce wd s e) \<longleftrightarrow> has_edge edges (state s) (event_type e)"
  using sound enabled by (auto simp: is_ok_iff has_edge_iff)

lemma no_edge_from_terminal: "(a, t, b) \<in> set edges \<Longrightarrow> a \<notin> set (terminalStates wd)"
  using table by (auto simp: table_ok_def list_all_iff)

lemma offer_has_edge: "n \<in> set (nextEvents wd st) \<Longrightarrow> has_edge edges st (ne_type n)"
  using table all_states [of st] by (auto simp: table_ok_def list_all_iff)

end

sublocale table_workflow \<subseteq> workflow wd event_type
proof
  show "state_version s' = state_version s + 1" if "reduce wd s e = Inr s'" for s e s'
    using sound [OF that] by blast
  show "\<not> is_ok (reduce wd s e)" if "state s \<in> set (terminalStates wd)" for s e
    using that no_edge_from_terminal by (auto simp: accepts_iff has_edge_iff)
  show "isHumanEvent wd (ne_type n)" if "n \<in> set (nextEvents wd st)" for n st
    using that table all_states [of st] by (auto simp: table_ok_def list_all_iff)
  show "is_ok (reduce wd s e)" if "event_type e \<in> ne_type ` set (nextEvents wd (state s))" for s e
    using that offer_has_edge by (auto simp: accepts_iff)
qed (auto intro: all_states declared inhabited human)

context table_workflow
begin

lemma edge_event: "(a, t, b) \<in> set edges \<Longrightarrow> \<exists>e. event_type e = t"
  using table inhabited by (auto simp: table_ok_def list_all_iff)

lemma edge_step:
  assumes "table_deterministic edges" and "(state s, t, b) \<in> set edges"
  shows "\<exists>e s'. event_type e = t \<and> reduce wd s e = Inr s' \<and> state s' = b"
proof -
  obtain e where e: "event_type e = t" using edge_event [OF assms(2)] ..
  with assms(2) have "is_ok (reduce wd s e)" by (intro enabled) simp
  then obtain s' where s': "reduce wd s e = Inr s'" by (auto simp: is_ok_iff)
  with sound [OF s'] e assms show ?thesis by (blast dest: table_deterministicD)
qed

lemma live_if_table_live: "table_live wd edges \<Longrightarrow> live_workflow wd event_type"
proof
  fix s :: "('st, 'x) workflow_snapshot_scheme"
  assume "table_live wd edges" "state s \<notin> set (terminalStates wd)"
  then obtain t b where edge: "(state s, t, b) \<in> set edges"
    using all_states [of "state s"] by (auto simp: table_live_def list_all_iff list_ex_iff)
  obtain e where "event_type e = t" using edge_event [OF edge] ..
  with edge show "\<exists>e. is_ok (reduce wd s e)" by (blast intro: enabled)
qed

lemma bounded_if_table_ranked:
  "table_ranked rank edges \<Longrightarrow> reduce wd s e = Inr s' \<Longrightarrow> rank (state s') < rank (state s)"
  using sound [of s e s'] by (fastforce simp: table_ranked_def list_all_iff)

lemma run_length_ranked:
  assumes "table_ranked rank edges" and "run_events (reduce wd) s es = Inr t"
  shows "length es + rank (state t) \<le> rank (state s)"
  using bounded_if_table_ranked [OF assms(1)] assms(2)
  by (rule run_events_potential [where f = "\<lambda>s. rank (state s)"])

text \<open>Every state the table reaches from a snapshot's state is reached by a run.\<close>

lemma successors_run:
  assumes "table_deterministic edges" and "b \<in> set (successors edges sts)"
    and "\<And>a. a \<in> set sts \<Longrightarrow> \<exists>es t. run_events (reduce wd) s es = Inr t \<and> state t = a"
  shows "\<exists>es t. run_events (reduce wd) s es = Inr t \<and> state t = b"
proof (cases "b \<in> set sts")
  case True
  then show ?thesis by (rule assms(3))
next
  case False
  with assms(2) obtain a t where a: "a \<in> set sts" and edge: "(a, t, b) \<in> set edges"
    by (auto simp: set_successors)
  from assms(3) [OF a] obtain es u where u: "run_events (reduce wd) s es = Inr u" "state u = a"
    by blast
  from edge_step [OF assms(1), of u t b] edge u(2) obtain e v
    where "reduce wd u e = Inr v" "state v = b" by blast
  with u(1) have "run_events (reduce wd) s (es @ [e]) = Inr v" by (simp add: run_events_snoc_Inr)
  with \<open>state v = b\<close> show ?thesis by blast
qed

lemma reach_within_run:
  assumes "table_deterministic edges" and "b \<in> set (reach_within edges n sts)"
    and "\<And>a. a \<in> set sts \<Longrightarrow> \<exists>es t. run_events (reduce wd) s es = Inr t \<and> state t = a"
  shows "\<exists>es t. run_events (reduce wd) s es = Inr t \<and> state t = b"
  using assms(2,3)
proof (induction n arbitrary: sts)
  case 0
  then show ?case by simp
next
  case (Suc n)
  show ?case
  proof (rule Suc.IH)
    show "b \<in> set (reach_within edges n (remdups (successors edges sts)))"
      using Suc.prems(1) by simp
    show "\<exists>es t. run_events (reduce wd) s es = Inr t \<and> state t = a"
      if "a \<in> set (remdups (successors edges sts))" for a
      using that Suc.prems(2) by (intro successors_run [OF assms(1), of a sts]) auto
  qed
qed

lemma table_reachable:
  assumes "table_deterministic edges" and "b \<in> set (reach_within edges n [state s])"
  shows "\<exists>es t. run_events (reduce wd) s es = Inr t \<and> state t = b"
proof (rule reach_within_run [OF assms])
  fix a
  assume "a \<in> set [state s]"
  then have "run_events (reduce wd) s [] = Inr s \<and> state s = a" by simp
  then show "\<exists>es t. run_events (reduce wd) s es = Inr t \<and> state t = a" by blast
qed

text \<open>
  Conversely, a set of states that contains the current one and that no edge leaves
  contains every state a run reaches.
\<close>

lemma run_stays_in:
  assumes "list_all (\<lambda>(a, t, b). a \<in> S \<longrightarrow> b \<in> S) edges" and "state s \<in> S"
    and "run_events (reduce wd) s es = Inr t"
  shows "state t \<in> S"
  using assms(3,2)
  by (rule run_events_invariant) (use assms(1) sound in \<open>fastforce simp: list_all_iff\<close>)

end

end
