(* ===== verification/Registry.thy ===== *)
theory Registry
  imports Workflow_Core
begin

text \<open>
  The workflow registry (\<open>packages/workflows/src/registry.ts\<close>): a \<open>Map\<close> from
  \<open>name@schemaVersion\<close> to descriptors, in insertion order.  The module-level \<open>REGISTRY\<close> is
  passed explicitly.  The interface the replay tooling uses is the locale
  \<open>versioned_registry\<close>, interpreted on the code's operations at the end.
\<close>

section \<open>Operations\<close>

type_synonym ('st, 'ev, 'sn) registry = "(string \<times> ('st, 'ev, 'sn) workflow_definition) list"

definition registryKey :: "string \<Rightarrow> int \<Rightarrow> string" where
  "registryKey name version = name @ ''@'' @ show_int version"

definition registerWorkflow ::
  "('st, 'ev, 'sn) workflow_definition \<Rightarrow> ('st, 'ev, 'sn) registry \<Rightarrow>
   ('st, 'ev, 'sn) workflow_definition \<times> ('st, 'ev, 'sn) registry" where
  "registerWorkflow defn reg =
     (let key = registryKey (wf_name defn) (schemaVersion defn)
      in if key \<in> set (map fst reg) then (defn, reg) else (defn, reg @ [(key, defn)]))"

text \<open>One iteration of the scan for the highest registered version of a name.\<close>

definition latest_step ::
  "string \<Rightarrow> ('st, 'ev, 'sn) workflow_definition option \<Rightarrow> ('st, 'ev, 'sn) workflow_definition \<Rightarrow>
   ('st, 'ev, 'sn) workflow_definition option" where
  "latest_step name latest defn =
     (if wf_name defn \<noteq> name then latest
      else case latest of
        None \<Rightarrow> Some defn
      | Some l \<Rightarrow> if schemaVersion defn > schemaVersion l then Some defn else latest)"

fun getWorkflow ::
  "('st, 'ev, 'sn) registry \<Rightarrow> string \<Rightarrow> int option \<Rightarrow> ('st, 'ev, 'sn) workflow_definition option" where
  "getWorkflow reg name (Some version) = map_of reg (registryKey name version)"
| "getWorkflow reg name None = foldl (latest_step name) None (map snd reg)"

definition getReducerByName ::
  "('st, 'ev, 'sn) registry \<Rightarrow> string \<Rightarrow> int \<Rightarrow> ('sn \<Rightarrow> 'ev \<Rightarrow> 'sn result) result" where
  "getReducerByName reg name version =
     (case getWorkflow reg name (Some version) of
        None \<Rightarrow> Inl (Error (''no reducer registered for '' @ name @ ''@'' @ show_int version))
      | Some defn \<Rightarrow> Inr (reduce defn))"

definition listWorkflows ::
  "('st, 'ev, 'sn) registry \<Rightarrow> ('st, 'ev, 'sn) workflow_definition list" where
  "listWorkflows reg = map snd reg"

definition resetWorkflowRegistryForTests :: "('st, 'ev, 'sn) registry \<Rightarrow> ('st, 'ev, 'sn) registry" where
  "resetWorkflowRegistryForTests reg = []"

section \<open>Keys are unambiguous\<close>

lemma at_notin_show_nat: "CHR ''@'' \<notin> set (show_nat n)"
proof
  assume "CHR ''@'' \<in> set (show_nat n)"
  with show_nat_digits [of n] have "is_digit (CHR ''@'')" by blast
  then show False by (simp add: is_digit_def)
qed

lemma at_notin_show_int: "CHR ''@'' \<notin> set (show_int i)"
  using at_notin_show_nat by (auto simp: show_int_def)

lemma split_at_last:
  assumes "xs @ c # ys = us @ c # vs" and "c \<notin> set ys" and "c \<notin> set vs"
  shows "xs = us \<and> ys = vs"
  using assms by (auto simp: append_eq_append_conv2 Cons_eq_append_conv append_eq_Cons_conv)

lemma registryKey_inject [simp]:
  "registryKey n v = registryKey n' v' \<longleftrightarrow> n = n' \<and> v = v'"
  using split_at_last [OF _ at_notin_show_int at_notin_show_int, of n v n' v']
  by (auto simp: registryKey_def)

section \<open>The registry invariant\<close>

definition registry_wf :: "('st, 'ev, 'sn) registry \<Rightarrow> bool" where
  "registry_wf reg \<longleftrightarrow> distinct (map fst reg) \<and>
     (\<forall>(k, d) \<in> set reg. k = registryKey (wf_name d) (schemaVersion d))"

lemma registry_wf_empty: "registry_wf []"
  by (simp add: registry_wf_def)

lemma registry_wf_register: "registry_wf reg \<Longrightarrow> registry_wf (snd (registerWorkflow d reg))"
  by (auto simp: registry_wf_def registerWorkflow_def Let_def)

lemma getWorkflow_exact:
  assumes "registry_wf reg"
  shows "getWorkflow reg name (Some v) = Some d \<longleftrightarrow>
    d \<in> set (listWorkflows reg) \<and> wf_name d = name \<and> schemaVersion d = v"
proof
  assume "getWorkflow reg name (Some v) = Some d"
  then have "(registryKey name v, d) \<in> set reg" by (simp add: map_of_SomeD)
  with assms show "d \<in> set (listWorkflows reg) \<and> wf_name d = name \<and> schemaVersion d = v"
    by (force simp: registry_wf_def listWorkflows_def)
next
  assume d: "d \<in> set (listWorkflows reg) \<and> wf_name d = name \<and> schemaVersion d = v"
  then obtain k where "(k, d) \<in> set reg" by (auto simp: listWorkflows_def)
  with d assms have "(registryKey name v, d) \<in> set reg" by (auto simp: registry_wf_def)
  with assms show "getWorkflow reg name (Some v) = Some d"
    by (simp add: registry_wf_def map_of_is_SomeI)
qed

section \<open>The scan finds the highest version\<close>

definition is_latest ::
  "string \<Rightarrow> ('st, 'ev, 'sn) workflow_definition list \<Rightarrow>
   ('st, 'ev, 'sn) workflow_definition option \<Rightarrow> bool" where
  "is_latest name ds r \<longleftrightarrow>
     (case r of
        None \<Rightarrow> \<forall>d \<in> set ds. wf_name d \<noteq> name
      | Some l \<Rightarrow> l \<in> set ds \<and> wf_name l = name \<and>
          (\<forall>d \<in> set ds. wf_name d = name \<longrightarrow> schemaVersion d \<le> schemaVersion l))"

lemma latest_step_is_latest:
  "is_latest name ds r \<Longrightarrow> is_latest name (ds @ [d]) (latest_step name r d)"
  by (fastforce simp: is_latest_def latest_step_def split: option.splits)

lemma foldl_latest: "is_latest name ds (foldl (latest_step name) None ds)"
proof (induction ds rule: rev_induct)
  case Nil
  then show ?case by (simp add: is_latest_def)
next
  case (snoc d ds)
  then show ?case by (simp add: latest_step_is_latest)
qed

lemma getWorkflow_is_latest: "is_latest name (listWorkflows reg) (getWorkflow reg name None)"
  by (simp add: listWorkflows_def foldl_latest)

lemma listWorkflows_register:
  "set (listWorkflows (snd (registerWorkflow d reg))) \<subseteq> insert d (set (listWorkflows reg))"
  by (auto simp: listWorkflows_def registerWorkflow_def Let_def)

lemma register_fresh:
  assumes "registry_wf reg" and "getWorkflow reg (wf_name d) (Some (schemaVersion d)) = None"
  shows "snd (registerWorkflow d reg) = reg @ [(registryKey (wf_name d) (schemaVersion d), d)]"
  using assms by (simp add: registerWorkflow_def map_of_eq_None_iff)

lemma register_duplicate:
  assumes "getWorkflow reg (wf_name d) (Some (schemaVersion d)) = Some d'"
  shows "snd (registerWorkflow d reg) = reg"
  using assms by (force simp: registerWorkflow_def Let_def dest!: map_of_SomeD)

section \<open>The interface\<close>

text \<open>
  What clients of the registry rely on: exact lookup is a finite map over
  \<open>(name, version)\<close> in which the first registration of a key wins, and the unversioned
  lookup is the maximum over a name's versions.
\<close>

locale versioned_registry =
  fixes empty_reg :: "'r"
    and register :: "'d \<Rightarrow> 'r \<Rightarrow> 'r"
    and get :: "'r \<Rightarrow> string \<Rightarrow> int \<Rightarrow> 'd option"
    and latest :: "'r \<Rightarrow> string \<Rightarrow> 'd option"
    and name_of :: "'d \<Rightarrow> string"
    and version_of :: "'d \<Rightarrow> int"
    and invar :: "'r \<Rightarrow> bool"
  assumes invar_empty: "invar empty_reg"
    and invar_register: "invar r \<Longrightarrow> invar (register d r)"
    and get_empty: "get empty_reg n v = None"
    and get_register: "invar r \<Longrightarrow> get (register d r) n v =
      (if n = name_of d \<and> v = version_of d \<and> get r n v = None then Some d else get r n v)"
    and get_matches: "invar r \<Longrightarrow> get r n v = Some d \<Longrightarrow> name_of d = n \<and> version_of d = v"
    and latest_in: "invar r \<Longrightarrow> latest r n = Some d \<Longrightarrow> get r n (version_of d) = Some d"
    and latest_max: "invar r \<Longrightarrow> latest r n = Some d \<Longrightarrow> get r n v = Some d' \<Longrightarrow> v \<le> version_of d"
    and latest_None: "invar r \<Longrightarrow> latest r n = None \<Longrightarrow> get r n v = None"
begin

lemma get_registered: "invar r \<Longrightarrow> get r (name_of d) (version_of d) = None \<Longrightarrow>
  get (register d r) (name_of d) (version_of d) = Some d"
  by (simp add: get_register)

lemma get_stable: "invar r \<Longrightarrow> get r n v = Some d \<Longrightarrow> get (register d' r) n v = Some d"
  by (simp add: get_register)

lemma latest_eqI:
  assumes "invar r" and "get r n (version_of d) = Some d"
    and "\<And>v d'. get r n v = Some d' \<Longrightarrow> v \<le> version_of d"
  shows "latest r n = Some d"
proof (cases "latest r n")
  case None
  with assms(1,2) show ?thesis using latest_None by fastforce
next
  case (Some l)
  with assms have "version_of l \<le> version_of d" "version_of d \<le> version_of l"
    using latest_in latest_max by blast+
  with Some assms(1,2) latest_in [OF assms(1) Some] show ?thesis by simp
qed

text \<open>Registering a version above every registered one makes it the current reducer.\<close>

lemma latest_upgrade:
  assumes "invar r" and "\<And>v d'. get r (name_of d) v = Some d' \<Longrightarrow> v < version_of d"
  shows "latest (register d r) (name_of d) = Some d"
proof (rule latest_eqI)
  have none: "get r (name_of d) (version_of d) = None"
    using assms(2) by (cases "get r (name_of d) (version_of d)") auto
  show "invar (register d r)" by (rule invar_register [OF assms(1)])
  show "get (register d r) (name_of d) (version_of d) = Some d"
    by (rule get_registered [OF assms(1) none])
  show "v \<le> version_of d" if "get (register d r) (name_of d) v = Some d'" for v d'
    using that assms(2) by (auto simp: get_register [OF assms(1)] split: if_splits)
      (meson less_imp_le)+
qed

text \<open>A workflow of another name never changes which reducer is current.\<close>

lemma latest_other:
  assumes "invar r" and "n \<noteq> name_of d"
  shows "latest (register d r) n = latest r n"
proof (cases "latest r n")
  case None
  have "get (register d r) n v = None" for v
    using assms latest_None [OF assms(1) None] by (simp add: get_register)
  then show ?thesis
    using None latest_in [OF invar_register [OF assms(1)]]
    by (cases "latest (register d r) n") (simp, metis option.distinct(1))
next
  case (Some l)
  then show ?thesis
    using assms latest_in latest_max
    by (auto intro!: latest_eqI invar_register simp: get_register)
qed

end

lemma getWorkflow_register:
  assumes "registry_wf reg"
  shows "getWorkflow (snd (registerWorkflow d reg)) n (Some v) =
    (if n = wf_name d \<and> v = schemaVersion d \<and> getWorkflow reg n (Some v) = None
     then Some d else getWorkflow reg n (Some v))"
proof (cases "getWorkflow reg (wf_name d) (Some (schemaVersion d))")
  case None
  then show ?thesis
    by (auto simp: register_fresh [OF assms None] map_add_def split: option.splits)
next
  case (Some d')
  then show ?thesis by (auto simp: register_duplicate [OF Some])
qed

lemma getWorkflow_latest_in:
  assumes "registry_wf reg" and "getWorkflow reg n None = Some d"
  shows "getWorkflow reg n (Some (schemaVersion d)) = Some d"
  using assms getWorkflow_is_latest [of n reg] getWorkflow_exact [OF assms(1)]
  by (simp add: is_latest_def del: getWorkflow.simps)

interpretation workflow_registry: versioned_registry
  "[]" "\<lambda>d r. snd (registerWorkflow d r)" "\<lambda>r n v. getWorkflow r n (Some v)"
  "\<lambda>r n. getWorkflow r n None" wf_name schemaVersion registry_wf
proof
  fix r :: "('st, 'ev, 'sn) registry" and n v d d'
  assume wf: "registry_wf r"
  show "getWorkflow (snd (registerWorkflow d r)) n (Some v) =
    (if n = wf_name d \<and> v = schemaVersion d \<and> getWorkflow r n (Some v) = None
     then Some d else getWorkflow r n (Some v))"
    by (rule getWorkflow_register [OF wf])
  show "wf_name d = n \<and> schemaVersion d = v" if "getWorkflow r n (Some v) = Some d"
    using that getWorkflow_exact [OF wf] by blast
  show "getWorkflow r n (Some (schemaVersion d)) = Some d" if "getWorkflow r n None = Some d"
    by (rule getWorkflow_latest_in [OF wf that])
  show "v \<le> schemaVersion d"
    if "getWorkflow r n None = Some d" "getWorkflow r n (Some v) = Some d'"
    using that getWorkflow_is_latest [of n r] getWorkflow_exact [OF wf, of n v d']
    by (auto simp: is_latest_def simp del: getWorkflow.simps)
  show "getWorkflow r n (Some v) = None" if "getWorkflow r n None = None"
    using that getWorkflow_is_latest [of n r] getWorkflow_exact [OF wf, of n v]
    by (cases "getWorkflow r n (Some v)") (auto simp: is_latest_def simp del: getWorkflow.simps)
qed (auto intro: registry_wf_empty registry_wf_register)

end
