(* ===== verification/Js_Equality.thy ===== *)
theory Js_Equality
  imports Prelude
begin

text \<open>
  \<open>snapshotsEqual\<close> of \<open>packages/workflows/src/replay.ts\<close>, the semantic equality the replay
  harness compares snapshots with, and its specification: two values are equal exactly
  when they denote the same value once \<open>null\<close> and missing are identified.  Also
  \<open>JSON.stringify\<close>, which the harness uses for its divergence reports.  A member access reads own keys only: the keys
  are taken not to be names of members of \<open>Object.prototype\<close> (\<open>toString\<close>, \<open>constructor\<close>, ...), which no snapshot has.
\<close>

section \<open>JSON.stringify\<close>

definition escape_char :: "char \<Rightarrow> string" where
  "escape_char c =
     (let n = of_char c :: nat in
      if n = 34 then [CHR 0x5C, CHR 0x22]
      else if n = 92 then [CHR 0x5C, CHR 0x5C]
      else if n = 8 then [CHR 0x5C, CHR ''b'']
      else if n = 12 then [CHR 0x5C, CHR ''f'']
      else if n = 10 then [CHR 0x5C, CHR ''n'']
      else if n = 13 then [CHR 0x5C, CHR ''r'']
      else if n = 9 then [CHR 0x5C, CHR ''t'']
      else if n < 32 then [CHR 0x5C, CHR ''u'', CHR ''0'', CHR ''0'', hex_digit (n div 16), hex_digit (n mod 16)]
      else [c])"

definition quote :: "string \<Rightarrow> string" where
  "quote s = [CHR 0x22] @ concat (map escape_char s) @ [CHR 0x22]"

text \<open>
  Properties whose value is \<open>undefined\<close> are dropped from objects; inside arrays
  \<open>undefined\<close> becomes \<open>null\<close>.  A top-level \<open>undefined\<close> (never the case for a snapshot)
  is rendered by the template literal as \<open>undefined\<close>.
\<close>

fun json_stringify :: "js \<Rightarrow> string" where
  "json_stringify JUndef = ''undefined''"
| "json_stringify JNull = ''null''"
| "json_stringify (JBool b) = (if b then ''true'' else ''false'')"
| "json_stringify (JNum n) = show_int n"
| "json_stringify (JStr s) = quote s"
| "json_stringify (JArr xs) =
     ''['' @ join '','' (map (\<lambda>x. if x = JUndef then ''null'' else json_stringify x) xs) @ '']''"
| "json_stringify (JObj kvs) =
     [CHR 0x7B] @
     join '','' (map (\<lambda>p. quote (fst p) @ '':'' @ json_stringify (snd p))
       (filter (\<lambda>p. snd p \<noteq> JUndef) kvs)) @
     [CHR 0x7D]"

section \<open>snapshotsEqual\<close>

text \<open>
  \<open>a === b\<close> on primitives.  On arrays and objects \<open>===\<close> is identity of references; the
  model gives the recursive answer there, which \<open>snapshotsEqual_refl\<close> shows is the same
  answer for a value compared with itself.
\<close>

fun strict_equal :: "js \<Rightarrow> js \<Rightarrow> bool" where
  "strict_equal (JArr _) _ = False"
| "strict_equal (JObj _) _ = False"
| "strict_equal a b = (a = b)"

fun nullish :: "js \<Rightarrow> bool" where
  "nullish JUndef = True"
| "nullish JNull = True"
| "nullish _ = False"

fun js_typeof :: "js \<Rightarrow> string" where
  "js_typeof JUndef = ''undefined''"
| "js_typeof JNull = ''object''"
| "js_typeof (JBool _) = ''boolean''"
| "js_typeof (JNum _) = ''number''"
| "js_typeof (JStr _) = ''string''"
| "js_typeof (JArr _) = ''object''"
| "js_typeof (JObj _) = ''object''"

fun js_is_array :: "js \<Rightarrow> bool" where
  "js_is_array (JArr _) = True"
| "js_is_array _ = False"

fun js_elements :: "js \<Rightarrow> js list" where
  "js_elements (JArr xs) = xs"
| "js_elements _ = []"

fun js_entries :: "js \<Rightarrow> (string \<times> js) list" where
  "js_entries (JObj kvs) = kvs"
| "js_entries _ = []"

lemma size_js_get: "size (js_get kvs k) < size (JObj kvs)"
  by (induction kvs) (auto simp: js_get_def split: option.splits)

lemma size_js_get_entries: "js_typeof a = ''object'' \<Longrightarrow> \<not> js_is_array a \<Longrightarrow> a \<noteq> JNull \<Longrightarrow>
  size (js_get (js_entries a) k) < size a"
  by (cases a) (simp_all add: size_js_get [simplified])

lemma size_js_elements: "x \<in> set (js_elements a) \<Longrightarrow> size x < size a"
  by (cases a) (auto simp: less_Suc_eq_le intro!: size_list_estimation')

function snapshotsEqual :: "js \<Rightarrow> js \<Rightarrow> bool" where
  "snapshotsEqual a b =
     (if strict_equal a b then True
      else if a = JNull \<or> b = JNull then nullish a \<and> nullish b
      else if js_typeof a \<noteq> js_typeof b then False
      else if js_typeof a \<noteq> ''object'' then False
      else if js_is_array a \<or> js_is_array b then
        (if \<not> js_is_array a \<or> \<not> js_is_array b \<or>
            length (js_elements a) \<noteq> length (js_elements b) then False
         else list_all (\<lambda>(x, y). snapshotsEqual x y) (zip (js_elements a) (js_elements b)))
      else
        list_all
          (\<lambda>k. let av = js_get (js_entries a) k; bv = js_get (js_entries b) k in
             if av = JUndef \<and> bv = JNull then True
             else if av = JNull \<and> bv = JUndef then True
             else snapshotsEqual av bv)
          (remdups (map fst (js_entries a) @ map fst (js_entries b))))"
  by pat_completeness auto
termination
proof (relation "measure (\<lambda>(a, b). size a + size b)", goal_cases)
  case (2 a b z x y)
  then have "x \<in> set (js_elements a)" "y \<in> set (js_elements b)"
    by (auto dest: set_zip_leftD set_zip_rightD)
  then show ?case by (auto dest!: size_js_elements)
next
  case (3 a b k av bv)
  then show ?case
    by (auto intro!: add_less_mono size_js_get_entries)
qed auto

declare snapshotsEqual.simps [simp del]

section \<open>What it decides\<close>

text \<open>
  The value a JavaScript value stands for once \<open>undefined\<close>, \<open>null\<close> and missing
  properties are one: an object denotes the map of its non-null properties.
\<close>

datatype denot =
    DNull
  | DBool bool
  | DNum int
  | DStr string
  | DArr "denot list"
  | DObj "string \<Rightarrow> denot option"

definition drop_null :: "denot \<Rightarrow> denot option" where
  "drop_null d = (if d = DNull then None else Some d)"

fun denote :: "js \<Rightarrow> denot" where
  "denote JUndef = DNull"
| "denote JNull = DNull"
| "denote (JBool b) = DBool b"
| "denote (JNum n) = DNum n"
| "denote (JStr s) = DStr s"
| "denote (JArr xs) = DArr (map denote xs)"
| "denote (JObj kvs) =
     DObj (\<lambda>k. Option.bind (map_of (map (\<lambda>p. (fst p, denote (snd p))) kvs) k) drop_null)"

lemma drop_null_inject [simp]: "drop_null a = drop_null b \<longleftrightarrow> a = b"
  by (simp add: drop_null_def)

lemma drop_null_None [simp]: "drop_null a = None \<longleftrightarrow> a = DNull"
  by (simp add: drop_null_def)

lemma drop_null_DNull [simp]: "drop_null DNull = None"
  by (simp add: drop_null_def)

lemma map_of_denote:
  "map_of (map (\<lambda>p. (fst p, denote (snd p))) kvs) k = map_option denote (map_of kvs k)"
  by (induction kvs) auto

lemma denote_JObj: "denote (JObj kvs) = DObj (\<lambda>k. drop_null (denote (js_get kvs k)))"
  by (auto simp: map_of_denote js_get_def fun_eq_iff split: option.splits)

lemma nullish_iff: "nullish a \<longleftrightarrow> denote a = DNull"
  by (cases a) auto

lemma strict_equal_denote: "strict_equal a b \<Longrightarrow> denote a = denote b"
  by (cases a) auto

lemma denote_JObj_eq_iff:
  "denote (JObj x) = denote (JObj y) \<longleftrightarrow>
   (\<forall>k \<in> set (map fst x @ map fst y). denote (js_get x k) = denote (js_get y k))"
proof -
  have "denote (js_get x k) = denote (js_get y k)" if "k \<notin> set (map fst x @ map fst y)" for k
    using that by (simp add: js_get_notin)
  then show ?thesis by (auto simp del: denote.simps simp: denote_JObj fun_eq_iff)
qed

lemma list_all_zip_map_eq:
  "length xs = length ys \<Longrightarrow> (\<And>x y. (x, y) \<in> set (zip xs ys) \<Longrightarrow> P x y \<longleftrightarrow> f x = f y) \<Longrightarrow>
   list_all (\<lambda>(x, y). P x y) (zip xs ys) \<longleftrightarrow> map f xs = map f ys"
  by (induction xs ys rule: list_induct2) auto

lemma snapshotsEqual_iff_denote: "snapshotsEqual a b \<longleftrightarrow> denote a = denote b"
proof (induction a b rule: snapshotsEqual.induct)
  case (1 a b)
  consider (strict) "strict_equal a b" | (null) "\<not> strict_equal a b" "a = JNull \<or> b = JNull"
    | (arrays) xs ys where "a = JArr xs" "b = JArr ys"
    | (objects) x y where "a = JObj x" "b = JObj y"
    | (other) "\<not> strict_equal a b" "a \<noteq> JNull" "b \<noteq> JNull"
        "js_typeof a \<noteq> js_typeof b \<or> js_typeof a \<noteq> ''object'' \<or> js_is_array a \<noteq> js_is_array b"
    by (cases a; cases b) auto
  then show ?case
  proof cases
    case strict
    then show ?thesis by (simp add: snapshotsEqual.simps [of a b] strict_equal_denote)
  next
    case null
    then show ?thesis
      by (auto simp: snapshotsEqual.simps [of JNull b] snapshotsEqual.simps [of a JNull] nullish_iff)
  next
    case arrays
    then have "snapshotsEqual x y \<longleftrightarrow> denote x = denote y"
      if "length xs = length ys" "(x, y) \<in> set (zip xs ys)" for x y
      using 1(1) [of "(x, y)" x y] that by simp
    then have "length xs = length ys \<Longrightarrow>
        list_all (\<lambda>(x, y). snapshotsEqual x y) (zip xs ys) \<longleftrightarrow> map denote xs = map denote ys"
      by (intro list_all_zip_map_eq) auto
    with arrays show ?thesis
      by (auto simp: snapshotsEqual.simps [of "JArr xs" "JArr ys"] dest: map_eq_imp_length_eq)
  next
    case objects
    let ?K = "set (map fst x @ map fst y)"
    from objects have IH: "snapshotsEqual (js_get x k) (js_get y k) \<longleftrightarrow>
        denote (js_get x k) = denote (js_get y k)"
      if "k \<in> ?K" "\<not> (js_get x k = JUndef \<and> js_get y k = JNull)"
        "\<not> (js_get x k = JNull \<and> js_get y k = JUndef)" for k
      using 1(2) [of k "js_get x k" "js_get y k"] that by simp
    have "(let av = js_get x k; bv = js_get y k in
        if av = JUndef \<and> bv = JNull then True else if av = JNull \<and> bv = JUndef then True
        else snapshotsEqual av bv) \<longleftrightarrow> denote (js_get x k) = denote (js_get y k)"
      if "k \<in> ?K" for k
      using IH [OF that] by (auto simp: Let_def)
    then have "snapshotsEqual (JObj x) (JObj y) \<longleftrightarrow>
        (\<forall>k \<in> ?K. denote (js_get x k) = denote (js_get y k))"
      by (simp add: snapshotsEqual.simps [of "JObj x" "JObj y"] list_all_iff)
    with objects show ?thesis by (simp only: denote_JObj_eq_iff)
  next
    case other
    then show ?thesis
      by (cases a; cases b) (auto simp: snapshotsEqual.simps)
  qed
qed

lemma snapshotsEqual_refl [simp]: "snapshotsEqual a a"
  by (simp add: snapshotsEqual_iff_denote)

lemma snapshotsEqual_sym: "snapshotsEqual a b \<longleftrightarrow> snapshotsEqual b a"
  by (auto simp: snapshotsEqual_iff_denote)

lemma snapshotsEqual_trans: "snapshotsEqual a b \<Longrightarrow> snapshotsEqual b c \<Longrightarrow> snapshotsEqual a c"
  by (simp add: snapshotsEqual_iff_denote)

lemma snapshotsEqual_field:
  "snapshotsEqual (JObj x) (JObj y) \<Longrightarrow> snapshotsEqual (js_get x k) (js_get y k)"
  by (auto simp: snapshotsEqual_iff_denote denote_JObj fun_eq_iff simp del: denote.simps)

end
