(* ===== verification/Replay.thy ===== *)
theory Replay
  imports Registry Js_Equality
begin

text \<open>
  The replay harness (\<open>packages/workflows/src/replay.ts\<close>, \<open>applyEventLog\<close>), the event-log
  writer for fixtures (\<open>test-replay.ts\<close>, \<open>applyEventSequence\<close>), and the
  \<open>workflow_event_log\<close> table between them.  Snapshots and events are typed; the two
  parameters \<open>type_of\<close> and \<open>to_js\<close> are \<open>event.type\<close> and the object a snapshot is at the JSON
  boundary (each workflow theory defines them).
\<close>

section \<open>Log entries and results\<close>

record 'ev log_entry =
  workflow_name :: string
  schema_version :: int
  entity_id :: string
  entry_state_version :: int
  event_payload :: 'ev
  snapshot_after :: js

datatype replay_reason =
    Schema_version_mismatch | Snapshot_divergence | Illegal_transition | Unknown_workflow | Gap

record replay_issue =
  issue_state_version :: int
  issue_event_type :: string
  reason :: replay_reason
  detail :: string

record 'sn replay_result =
  replay_ok :: bool
  finalSnapshot :: "'sn option"
  issues :: "replay_issue list"

type_synonym ('st, 'ev, 'x) snapshot_def =
  "('st, 'ev, ('st, 'x) workflow_snapshot_scheme) workflow_definition"

type_synonym ('st, 'ev, 'x) snapshot_registry =
  "('st, 'ev, ('st, 'x) workflow_snapshot_scheme) registry"

section \<open>applyEventLog\<close>

definition entry_issue :: "('ev \<Rightarrow> string) \<Rightarrow> 'ev log_entry \<Rightarrow> replay_reason \<Rightarrow> string \<Rightarrow> replay_issue" where
  "entry_issue type_of entry r d =
     \<lparr>issue_state_version = entry_state_version entry,
      issue_event_type = type_of (event_payload entry), reason = r, detail = d\<rparr>"

definition replay_failure :: "replay_issue list \<Rightarrow> 'sn replay_result" where
  "replay_failure iss = \<lparr>replay_ok = False, finalSnapshot = None, issues = iss\<rparr>"

text \<open>The loop over the log, from its local variables \<open>issues\<close>, \<open>snapshot\<close>, \<open>expectedVersion\<close>.\<close>

fun replay_loop ::
  "('ev \<Rightarrow> string) \<Rightarrow> (('st, 'x) workflow_snapshot_scheme \<Rightarrow> js) \<Rightarrow> ('st, 'ev, 'x) snapshot_def \<Rightarrow>
   replay_issue list \<Rightarrow> ('st, 'x) workflow_snapshot_scheme \<Rightarrow> int \<Rightarrow> 'ev log_entry list \<Rightarrow>
   ('st, 'x) workflow_snapshot_scheme replay_result" where
  "replay_loop type_of to_js defn iss snapshot expectedVersion [] =
     \<lparr>replay_ok = (length iss = 0), finalSnapshot = Some snapshot, issues = iss\<rparr>"
| "replay_loop type_of to_js defn iss snapshot expectedVersion (entry # log) =
     (if schema_version entry \<noteq> schemaVersion defn then
        replay_failure (iss @ [entry_issue type_of entry Schema_version_mismatch
          (''entry schema='' @ show_int (schema_version entry) @
           '' reducer schema='' @ show_int (schemaVersion defn))])
      else if entry_state_version entry \<noteq> expectedVersion then
        replay_failure (iss @ [entry_issue type_of entry Gap
          (''expected state_version='' @ show_int expectedVersion @
           '' got '' @ show_int (entry_state_version entry))])
      else (case reduce defn snapshot (event_payload entry) of
        Inl err \<Rightarrow>
          replay_failure (iss @ [entry_issue type_of entry Illegal_transition (err_message err)])
      | Inr next_snapshot \<Rightarrow>
          if \<not> snapshotsEqual (to_js next_snapshot) (snapshot_after entry) then
            replay_failure (iss @ [entry_issue type_of entry Snapshot_divergence
              (''reducer='' @ json_stringify (to_js next_snapshot) @
               '' persisted='' @ json_stringify (snapshot_after entry))])
          else replay_loop type_of to_js defn iss next_snapshot (state_version next_snapshot) log))"

fun applyEventLog ::
  "('ev \<Rightarrow> string) \<Rightarrow> (('st, 'x) workflow_snapshot_scheme \<Rightarrow> js) \<Rightarrow> ('st, 'ev, 'x) snapshot_registry \<Rightarrow>
   ('st, 'x) workflow_snapshot_scheme \<Rightarrow> 'ev log_entry list \<Rightarrow>
   ('st, 'x) workflow_snapshot_scheme replay_result" where
  "applyEventLog type_of to_js reg initial [] =
     \<lparr>replay_ok = True, finalSnapshot = Some initial, issues = []\<rparr>"
| "applyEventLog type_of to_js reg initial (entry # log) =
     (case getWorkflow reg (workflow_name entry) None of
        None \<Rightarrow> replay_failure [entry_issue type_of entry Unknown_workflow
          (''no workflow registered as '' @ quote (workflow_name entry))]
      | Some defn \<Rightarrow>
          replay_loop type_of to_js defn [] initial (state_version initial) (entry # log))"

section \<open>applyEventSequence\<close>

record 'ev sequence_args =
  sq_workflowName :: string
  sq_schemaVersion :: "int option"
  sq_entityId :: string
  sq_entityType :: string
  sq_companyId :: string
  sq_events :: "'ev list"
  sq_actorUserId :: "string field"
  sq_appliedAt :: "string field"

text \<open>
  One executed \<open>insert into workflow_event_log (...)\<close> statement, by its bound values in
  placeholder order; \<open>log_insert\<close> has the columns that every writer of the table binds,
  \<open>sequence_insert\<close> adds the one \<open>applyEventSequence\<close> binds besides (its statement ends in
  \<open>on conflict (entity_id, workflow_name, state_version) do nothing\<close>).  The two \<open>jsonb\<close>
  values are the objects \<open>JSON.stringify\<close> is applied to.
\<close>

record 'ev log_insert =
  li_company_id :: string
  li_workflow_name :: string
  li_schema_version :: int
  li_entity_type :: string
  li_entity_id :: string
  li_state_version :: int
  li_event_type :: string
  li_event_payload :: 'ev
  li_snapshot_after :: js
  li_actor_user_id :: "string field"

record 'ev sequence_insert = "'ev log_insert" +
  si_applied_at :: "string field"

record 'sn sequence_step =
  stateVersionBefore :: int
  step_eventType :: string
  snapshotAfter :: 'sn

text \<open>
  The loop: the statements sent to the executor so far stay sent when a later event throws,
  so they are returned beside the outcome.
\<close>

fun sequence_loop ::
  "('ev \<Rightarrow> string) \<Rightarrow> (('st, 'x) workflow_snapshot_scheme \<Rightarrow> js) \<Rightarrow> ('st, 'ev, 'x) snapshot_def \<Rightarrow>
   'ev sequence_args \<Rightarrow> ('st, 'x) workflow_snapshot_scheme \<Rightarrow> 'ev list \<Rightarrow>
   (('st, 'x) workflow_snapshot_scheme \<times> ('st, 'x) workflow_snapshot_scheme sequence_step list) result
   \<times> 'ev sequence_insert list" where
  "sequence_loop type_of to_js defn args snapshot [] = (Inr (snapshot, []), [])"
| "sequence_loop type_of to_js defn args snapshot (event # events) =
     (case reduce defn snapshot event of
        Inl err \<Rightarrow> (Inl err, [])
      | Inr nextSnapshot \<Rightarrow>
          (let stmt = \<lparr>li_company_id = sq_companyId args, li_workflow_name = wf_name defn,
                 li_schema_version = schemaVersion defn, li_entity_type = sq_entityType args,
                 li_entity_id = sq_entityId args, li_state_version = state_version snapshot,
                 li_event_type = type_of event, li_event_payload = event,
                 li_snapshot_after = to_js nextSnapshot,
                 li_actor_user_id = coalesce (sq_actorUserId args) Null,
                 si_applied_at = coalesce (sq_appliedAt args) Null\<rparr>;
               step = \<lparr>stateVersionBefore = state_version snapshot, step_eventType = type_of event,
                 snapshotAfter = nextSnapshot\<rparr>;
               (outcome, stmts) = sequence_loop type_of to_js defn args nextSnapshot events
           in (map_sum (\<lambda>err. err) (\<lambda>(final, steps). (final, step # steps)) outcome, stmt # stmts)))"

definition applyEventSequence ::
  "('ev \<Rightarrow> string) \<Rightarrow> (('st, 'x) workflow_snapshot_scheme \<Rightarrow> js) \<Rightarrow> ('st, 'ev, 'x) snapshot_registry \<Rightarrow>
   'ev sequence_args \<Rightarrow> ('st, 'x) workflow_snapshot_scheme \<Rightarrow>
   (('st, 'x) workflow_snapshot_scheme \<times> ('st, 'x) workflow_snapshot_scheme sequence_step list) result
   \<times> 'ev sequence_insert list" where
  "applyEventSequence type_of to_js reg args initial =
     (case getWorkflow reg (sq_workflowName args) (sq_schemaVersion args) of
        None \<Rightarrow> (Inl (Error (''applyEventSequence: no workflow registered for '' @ sq_workflowName args @
          (case sq_schemaVersion args of None \<Rightarrow> [] | Some v \<Rightarrow> ''@'' @ show_int v))), [])
      | Some defn \<Rightarrow> sequence_loop type_of to_js defn args initial (sq_events args))"

section \<open>The event-log table\<close>

text \<open>
  The rows an insert leaves behind.  The table's unique key is
  \<open>(entity_id, workflow_name, state_version)\<close> (constraint
  \<open>workflow_event_log_entity_workflow_version_key\<close>); the statement above is
  \<open>do nothing\<close> on a conflict, the human path's is an error.
\<close>

type_synonym ('ev, 'r) log_table = "('ev, 'r) log_insert_scheme list"

definition row_key :: "('ev, 'r) log_insert_scheme \<Rightarrow> string \<times> string \<times> int" where
  "row_key row = (li_entity_id row, li_workflow_name row, li_state_version row)"

definition insert_do_nothing :: "('ev, 'r) log_insert_scheme \<Rightarrow> ('ev, 'r) log_table \<Rightarrow> ('ev, 'r) log_table" where
  "insert_do_nothing row table = (if row_key row \<in> row_key ` set table then table else table @ [row])"

definition insert_or_throw :: "('ev, 'r) log_insert_scheme \<Rightarrow> ('ev, 'r) log_table \<Rightarrow> ('ev, 'r) log_table result" where
  "insert_or_throw row table =
     (if row_key row \<in> row_key ` set table
      then Inl (Error ''duplicate key value violates unique constraint'') else Inr (table @ [row]))"

fun execute :: "('ev, 'r) log_insert_scheme list \<Rightarrow> ('ev, 'r) log_table \<Rightarrow> ('ev, 'r) log_table" where
  "execute [] table = table"
| "execute (row # rows) table = execute rows (insert_do_nothing row table)"

text \<open>What a reader of the table hands to the replay harness: an entity's rows in version order.\<close>

definition row_entry :: "('ev, 'r) log_insert_scheme \<Rightarrow> 'ev log_entry" where
  "row_entry row = \<lparr>workflow_name = li_workflow_name row, schema_version = li_schema_version row,
     entity_id = li_entity_id row, entry_state_version = li_state_version row,
     event_payload = li_event_payload row, snapshot_after = li_snapshot_after row\<rparr>"

definition entity_rows :: "string \<Rightarrow> string \<Rightarrow> ('ev, 'r) log_table \<Rightarrow> ('ev, 'r) log_table" where
  "entity_rows name eid table =
     filter (\<lambda>row. li_workflow_name row = name \<and> li_entity_id row = eid) table"

definition entity_log :: "string \<Rightarrow> string \<Rightarrow> ('ev, 'r) log_table \<Rightarrow> 'ev log_entry list" where
  "entity_log name eid table = map row_entry (sort_key li_state_version (entity_rows name eid table))"

text \<open>
  The rows of a table that record the run of \<open>d\<close> from \<open>s\<close> to \<open>t\<close>: each under the version before
  its event, each with the snapshot after it.
\<close>

definition records_run ::
  "(('st, 'x) workflow_snapshot_scheme \<Rightarrow> js) \<Rightarrow> ('st, 'ev, 'x) snapshot_def \<Rightarrow>
   ('st, 'x) workflow_snapshot_scheme \<Rightarrow> ('ev, 'r) log_table \<Rightarrow>
   ('st, 'x) workflow_snapshot_scheme \<Rightarrow> bool" where
  "records_run to_js d s rows t \<longleftrightarrow>
     (let es = map li_event_payload rows in
      run_events (reduce d) s es = Inr t \<and>
      (\<forall>row \<in> set rows. li_workflow_name row = wf_name d \<and> li_schema_version row = schemaVersion d) \<and>
      map li_state_version rows = versions_before (reduce d) s es \<and>
      map li_snapshot_after rows = map to_js (run_states (reduce d) s es))"

lemma records_run_Nil [simp]: "records_run to_js d s [] t \<longleftrightarrow> t = s"
  by (auto simp: records_run_def)

lemma records_run_snoc:
  assumes "records_run to_js d s rows u" and "reduce d u (li_event_payload row) = Inr t"
    and "li_workflow_name row = wf_name d" and "li_schema_version row = schemaVersion d"
    and "li_state_version row = state_version u" and "li_snapshot_after row = to_js t"
  shows "records_run to_js d s (rows @ [row]) t"
  using assms
  by (auto simp: records_run_def Let_def run_events_snoc_Inr versions_before_snoc run_states_snoc)

section \<open>What the harness accepts\<close>

lemma replay_loop_accepts:
  "replay_ok (replay_loop type_of to_js d [] s (state_version s) log) \<longleftrightarrow>
     (let es = map event_payload log in
      (\<exists>t. run_events (reduce d) s es = Inr t) \<and>
      (\<forall>entry \<in> set log. schema_version entry = schemaVersion d) \<and>
      map entry_state_version log = versions_before (reduce d) s es \<and>
      list_all2 (\<lambda>s' entry. snapshotsEqual (to_js s') (snapshot_after entry))
        (run_states (reduce d) s es) log)"
proof (induction log arbitrary: s)
  case Nil
  then show ?case by simp
next
  case (Cons entry log)
  show ?case
  proof (cases "reduce d s (event_payload entry)")
    case (Inl err)
    then show ?thesis by (simp add: replay_failure_def)
  next
    case (Inr s')
    then show ?thesis using Cons.IH [of s'] by (auto simp: replay_failure_def Let_def)
  qed
qed

lemma replay_loop_final:
  "replay_ok (replay_loop type_of to_js d [] s v log) \<Longrightarrow>
   run_events (reduce d) s (map event_payload log) = Inr t \<Longrightarrow>
   replay_loop type_of to_js d [] s v log = \<lparr>replay_ok = True, finalSnapshot = Some t, issues = []\<rparr>"
proof (induction log arbitrary: s v)
  case Nil
  then show ?case by simp
next
  case (Cons entry log)
  then show ?case
    by (cases "reduce d s (event_payload entry)")
      (auto simp: replay_failure_def split: if_splits)
qed

lemma applyEventLog_nonempty:
  "log \<noteq> [] \<Longrightarrow> getWorkflow reg (workflow_name (hd log)) None = Some d \<Longrightarrow>
   applyEventLog type_of to_js reg initial log =
   replay_loop type_of to_js d [] initial (state_version initial) log"
  by (cases log) (simp_all del: getWorkflow.simps)

text \<open>Every rejection names exactly one issue and returns no snapshot.\<close>

lemma replay_loop_shape:
  "(replay_ok r \<and> issues r = [] \<and> finalSnapshot r \<noteq> None) \<or>
   (\<not> replay_ok r \<and> length (issues r) = 1 \<and> finalSnapshot r = None)"
  if "r = replay_loop type_of to_js d [] s v log"
  using that
proof (induction log arbitrary: s v)
  case Nil
  then show ?case by simp
next
  case (Cons entry log)
  then show ?case
    by (auto simp: replay_failure_def split: sum.splits if_splits)
qed

section \<open>What the writer writes\<close>

lemma sequence_loop_written:
  assumes "sequence_loop type_of to_js d args s es = (outcome, stmts)"
  shows "\<forall>row \<in> set stmts. li_workflow_name row = wf_name d \<and>
      li_schema_version row = schemaVersion d \<and> li_entity_id row = sq_entityId args"
    and "outcome = Inr (t, steps) \<Longrightarrow> run_events (reduce d) s es = Inr t \<and>
      map li_event_payload stmts = es \<and>
      map li_state_version stmts = versions_before (reduce d) s es \<and>
      map li_snapshot_after stmts = map to_js (run_states (reduce d) s es) \<and>
      map snapshotAfter steps = run_states (reduce d) s es \<and>
      map stateVersionBefore steps = versions_before (reduce d) s es"
  using assms
proof (induction es arbitrary: s outcome stmts steps)
  case Nil
  {
    case 1
    then show ?case by simp
  next
    case 2
    then show ?case by simp
  }
next
  case (Cons e es)
  {
    case 1
    show ?case
    proof (cases "reduce d s e")
      case (Inl err)
      with 1 show ?thesis by simp
    next
      case (Inr s')
      obtain o' ss' where rest: "sequence_loop type_of to_js d args s' es = (o', ss')"
        by (cases "sequence_loop type_of to_js d args s' es")
      with Cons.IH(1) [OF rest] 1 Inr show ?thesis by (auto simp: Let_def)
    qed
  next
    case 2
    then obtain s' where s': "reduce d s e = Inr s'"
      by (cases "reduce d s e") auto
    obtain o' ss' where rest: "sequence_loop type_of to_js d args s' es = (o', ss')"
      by (cases "sequence_loop type_of to_js d args s' es")
    with 2 s' obtain steps' where "o' = Inr (t, steps')"
      by (cases o') (auto simp: Let_def)
    with Cons.IH(2) [OF _ rest] 2 s' rest show ?case by (auto simp: Let_def)
  }
qed

lemma execute_fresh:
  assumes "distinct (map row_key rows)" and "row_key ` set rows \<inter> row_key ` set table = {}"
  shows "execute rows table = table @ rows"
  using assms
proof (induction rows arbitrary: table)
  case Nil
  then show ?case by simp
next
  case (Cons row rows)
  then show ?case by (auto simp: insert_do_nothing_def)
qed

text \<open>The table never holds two rows of one transition, whatever is executed.\<close>

lemma execute_keys_distinct: "distinct (map row_key table) \<Longrightarrow> distinct (map row_key (execute rows table))"
  by (induction rows arbitrary: table) (auto simp: insert_do_nothing_def)

lemma execute_extends: "\<exists>new. execute rows table = table @ new"
  by (induction rows arbitrary: table) (auto simp: insert_do_nothing_def, metis append_assoc)

text \<open>Executing statements that were executed before changes nothing: a retry is idempotent.\<close>

lemma execute_present: "row_key ` set rows \<subseteq> row_key ` set table \<Longrightarrow> execute rows table = table"
  by (induction rows arbitrary: table) (auto simp: insert_do_nothing_def)

lemma execute_keys: "row_key ` set (execute rows table) = row_key ` set table \<union> row_key ` set rows"
proof (induction rows arbitrary: table)
  case Nil
  then show ?case by simp
next
  case (Cons row rows)
  show ?case by (auto simp: Cons.IH insert_do_nothing_def)
qed

lemma execute_idempotent: "execute rows (execute rows table) = execute rows table"
  by (rule execute_present) (simp add: execute_keys)

context versioned_workflow
begin

lemma records_run_keys:
  assumes "records_run to_js wd s rows t"
  shows "map li_state_version rows = map (\<lambda>i. state_version s + int i) [0..<length rows]"
    and "state_version t = state_version s + int (length rows)"
  using assms versions_before_eq run_version by (auto simp: records_run_def Let_def)

lemma records_run_sorted:
  assumes "records_run to_js wd s rows t"
  shows "sort_key li_state_version rows = rows"
proof (rule sort_key_id_if_sorted)
  show "sorted (map li_state_version rows)"
    using assms versions_before_sorted by (auto simp: records_run_def Let_def)
qed

lemma records_run_distinct:
  assumes "records_run to_js wd s rows t"
  shows "distinct (map row_key rows)"
proof -
  have "distinct (map li_state_version rows)"
    using assms versions_before_distinct by (auto simp: records_run_def Let_def)
  then show ?thesis by (auto simp: row_key_def distinct_map inj_on_def)
qed

text \<open>The version of a transition that is not recorded yet is not a key of the recorded ones.\<close>

lemma records_run_next_fresh:
  assumes "records_run to_js wd s (entity_rows (wf_name wd) eid table) t"
  shows "(eid, wf_name wd, state_version t) \<notin> row_key ` set table"
proof
  let ?rows = "entity_rows (wf_name wd) eid table"
  assume "(eid, wf_name wd, state_version t) \<in> row_key ` set table"
  then have "state_version t \<in> set (map li_state_version ?rows)"
    by (force simp: row_key_def entity_rows_def)
  with records_run_keys [OF assms] show False by auto
qed

lemma records_run_replays:
  assumes rows: "records_run to_js wd s (entity_rows (wf_name wd) eid table) t"
    and latest: "getWorkflow reg (wf_name wd) None = Some wd"
  shows "applyEventLog type_of to_js reg s (entity_log (wf_name wd) eid table) =
    \<lparr>replay_ok = True, finalSnapshot = Some t, issues = []\<rparr>"
proof -
  let ?rows = "entity_rows (wf_name wd) eid table"
  let ?log = "map row_entry ?rows"
  let ?es = "map li_event_payload ?rows"
  have log: "entity_log (wf_name wd) eid table = ?log"
    by (simp add: entity_log_def records_run_sorted [OF rows])
  have payloads: "map event_payload ?log = ?es"
    by (simp add: row_entry_def comp_def)
  from rows have run: "run_events (reduce wd) s ?es = Inr t"
    and versions: "map li_state_version ?rows = versions_before (reduce wd) s ?es"
    and snaps: "map li_snapshot_after ?rows = map to_js (run_states (reduce wd) s ?es)"
    by (simp_all add: records_run_def Let_def)
  have accepted: "replay_ok (replay_loop type_of to_js wd [] s (state_version s) ?log)"
    unfolding replay_loop_accepts Let_def payloads
  proof (intro conjI ballI)
    show "\<exists>t. run_events (reduce wd) s ?es = Inr t" using run by blast
    show "schema_version entry = schemaVersion wd" if "entry \<in> set ?log" for entry
      using that rows by (auto simp: records_run_def Let_def row_entry_def)
    show "map entry_state_version ?log = versions_before (reduce wd) s ?es"
      using versions by (simp add: row_entry_def comp_def)
    have "list_all2 (=) (map to_js (run_states (reduce wd) s ?es)) (map li_snapshot_after ?rows)"
      using snaps by (simp add: list_all2_eq [symmetric])
    then have "list_all2 (\<lambda>s' row. to_js s' = li_snapshot_after row)
        (run_states (reduce wd) s ?es) ?rows"
      by (simp add: list.rel_map)
    then show "list_all2 (\<lambda>s' entry. snapshotsEqual (to_js s') (snapshot_after entry))
        (run_states (reduce wd) s ?es) ?log"
      unfolding list.rel_map by (rule list_all2_mono) (simp add: row_entry_def)
  qed
  show ?thesis
  proof (cases "?rows = []")
    case True
    with run log show ?thesis by simp
  next
    case False
    then have nonempty: "?log \<noteq> []" by simp
    have "workflow_name (hd ?log) = wf_name wd"
      using False by (cases ?rows) (auto simp: row_entry_def entity_rows_def filter_eq_Cons_iff)
    with latest have "getWorkflow reg (workflow_name (hd ?log)) None = Some wd" by (simp only:)
    note applyEventLog_nonempty [OF nonempty this, of type_of to_js s]
    with replay_loop_final [OF accepted] run payloads show ?thesis by (simp only: log)
  qed
qed

lemma sequence_records_run:
  assumes seq: "sequence_loop type_of to_js wd args s (sq_events args) = (Inr (t, steps), stmts)"
    and fresh: "entity_rows (wf_name wd) (sq_entityId args) table = []"
  shows "records_run to_js wd s (entity_rows (wf_name wd) (sq_entityId args) (execute stmts table)) t"
proof -
  note written = sequence_loop_written(1) [OF seq] sequence_loop_written(2) [OF seq refl]
  then have rows: "records_run to_js wd s stmts t"
    by (simp add: records_run_def Let_def)
  have "row_key ` set stmts \<inter> row_key ` set table = {}"
    using fresh written(1) by (auto simp: row_key_def entity_rows_def filter_empty_conv)
  with records_run_distinct [OF rows] have "execute stmts table = table @ stmts"
    by (rule execute_fresh)
  moreover have "entity_rows (wf_name wd) (sq_entityId args) stmts = stmts"
    using written(1) by (simp add: entity_rows_def)
  ultimately show ?thesis using fresh rows by (simp add: entity_rows_def)
qed

end

end
