(* ===== verification/Event_Log_Insert.thy ===== *)
theory Event_Log_Insert
  imports Replay
begin

text \<open>
  The one builder of the \<open>workflow_event_log\<close> insert
  (\<open>packages/workflows/src/event-log-insert.ts\<close>) and its two callers: \<open>recordWorkflowEvent\<close>
  (\<open>apps/api/src/mutation-tx.ts\<close>, a conflict is thrown as a 409) and \<open>appendWorkflowEvent\<close>
  (\<open>packages/queue/src/index.ts\<close>, a conflict is skipped).  The statement is modelled twice:
  as the text and the list of bound values the builder returns, and as the typed row those
  values make in the table; \<open>statement_row\<close> relates the two.
\<close>

section \<open>The statement\<close>

record 'ev insert_args =
  ia_companyId :: string
  ia_workflowName :: string
  ia_schemaVersion :: int
  ia_entityType :: string
  ia_entityId :: string
  ia_stateVersion :: int
  ia_eventType :: string
  ia_eventPayload :: 'ev
  ia_snapshotAfter :: js
  ia_actorUserId :: "string field"
  ia_requestId :: "string field"
  ia_sentryTrace :: "string field"
  ia_sentryBaggage :: "string field"
  ia_captureSessionId :: "string field"

datatype on_conflict = Throw | Do_nothing

definition WORKFLOW_EVENT_LOG_COLUMNS :: "string list" where
  "WORKFLOW_EVENT_LOG_COLUMNS = [
     ''company_id'', ''workflow_name'', ''schema_version'', ''entity_type'', ''entity_id'',
     ''state_version'', ''event_type'', ''event_payload'', ''snapshot_after'',
     ''actor_user_id'', ''request_id'', ''sentry_trace'', ''sentry_baggage'',
     ''capture_session_id'']"

definition newline :: string where
  "newline = [CHR 0x0A]"

definition insert_text :: "on_conflict \<Rightarrow> string" where
  "insert_text oc = newline @
     ''    insert into workflow_event_log ('' @ newline @
     ''      '' @ join '', '' WORKFLOW_EVENT_LOG_COLUMNS @ newline @
     ''    )'' @ newline @
     ''    values ($1, $2, $3, $4, $5, $6, $7, $8::jsonb, $9::jsonb, $10, $11, $12, $13, $14)'' @
     (case oc of
        Do_nothing \<Rightarrow> newline @ ''    on conflict (entity_id, workflow_name, state_version) do nothing''
      | Throw \<Rightarrow> '''') @ newline @ ''  ''"

definition insert_values :: "('ev \<Rightarrow> js) \<Rightarrow> 'ev insert_args \<Rightarrow> js list" where
  "insert_values ev_js a = [
     JStr (ia_companyId a),
     JStr (ia_workflowName a),
     JNum (ia_schemaVersion a),
     JStr (ia_entityType a),
     JStr (ia_entityId a),
     JNum (ia_stateVersion a),
     JStr (ia_eventType a),
     JStr (json_stringify (ev_js (ia_eventPayload a))),
     JStr (json_stringify (ia_snapshotAfter a)),
     field_js JStr (coalesce (ia_actorUserId a) Null),
     field_js JStr (coalesce (ia_requestId a) Null),
     field_js JStr (coalesce (ia_sentryTrace a) Null),
     field_js JStr (coalesce (ia_sentryBaggage a) Null),
     field_js JStr (coalesce (ia_captureSessionId a) Null)]"

definition buildWorkflowEventLogInsert ::
  "('ev \<Rightarrow> js) \<Rightarrow> 'ev insert_args \<Rightarrow> on_conflict \<Rightarrow> string \<times> js list" where
  "buildWorkflowEventLogInsert ev_js args oc = (insert_text oc, insert_values ev_js args)"

section \<open>The row it makes\<close>

record 'ev traced_insert = "'ev log_insert" +
  ti_request_id :: "string field"
  ti_sentry_trace :: "string field"
  ti_sentry_baggage :: "string field"
  ti_capture_session_id :: "string field"

definition event_log_row :: "'ev insert_args \<Rightarrow> 'ev traced_insert" where
  "event_log_row a = \<lparr>
     li_company_id = ia_companyId a,
     li_workflow_name = ia_workflowName a,
     li_schema_version = ia_schemaVersion a,
     li_entity_type = ia_entityType a,
     li_entity_id = ia_entityId a,
     li_state_version = ia_stateVersion a,
     li_event_type = ia_eventType a,
     li_event_payload = ia_eventPayload a,
     li_snapshot_after = ia_snapshotAfter a,
     li_actor_user_id = coalesce (ia_actorUserId a) Null,
     ti_request_id = coalesce (ia_requestId a) Null,
     ti_sentry_trace = coalesce (ia_sentryTrace a) Null,
     ti_sentry_baggage = coalesce (ia_sentryBaggage a) Null,
     ti_capture_session_id = coalesce (ia_captureSessionId a) Null\<rparr>"

text \<open>The values a row shows in a given column, in the wire form of the binding.\<close>

definition column_value :: "('ev \<Rightarrow> js) \<Rightarrow> 'ev traced_insert \<Rightarrow> string \<Rightarrow> js option" where
  "column_value ev_js row = map_of [
     (''entity_id'', JStr (li_entity_id row)),
     (''workflow_name'', JStr (li_workflow_name row)),
     (''state_version'', JNum (li_state_version row)),
     (''company_id'', JStr (li_company_id row)),
     (''schema_version'', JNum (li_schema_version row)),
     (''entity_type'', JStr (li_entity_type row)),
     (''event_type'', JStr (li_event_type row)),
     (''event_payload'', JStr (json_stringify (ev_js (li_event_payload row)))),
     (''snapshot_after'', JStr (json_stringify (li_snapshot_after row))),
     (''actor_user_id'', field_js JStr (li_actor_user_id row)),
     (''request_id'', field_js JStr (ti_request_id row)),
     (''sentry_trace'', field_js JStr (ti_sentry_trace row)),
     (''sentry_baggage'', field_js JStr (ti_sentry_baggage row)),
     (''capture_session_id'', field_js JStr (ti_capture_session_id row))]"

text \<open>The placeholder of the \<open>i\<close>-th column, with the cast of the two \<open>jsonb\<close> columns.\<close>

definition placeholder :: "nat \<Rightarrow> string \<Rightarrow> string" where
  "placeholder i col = CHR ''$'' # show_nat i @
     (if col \<in> {''event_payload'', ''snapshot_after''} then ''::jsonb'' else '''')"

lemma show_nat_small [simp]:
  "show_nat 1 = ''1''" "show_nat (Suc 0) = ''1''" "show_nat 2 = ''2''" "show_nat 3 = ''3''"
  "show_nat 4 = ''4''" "show_nat 5 = ''5''" "show_nat 6 = ''6''" "show_nat 7 = ''7''"
  "show_nat 8 = ''8''" "show_nat 9 = ''9''" "show_nat 10 = ''10''" "show_nat 11 = ''11''"
  "show_nat 12 = ''12''" "show_nat 13 = ''13''" "show_nat 14 = ''14''"
  by code_simp+

lemma placeholder_numbers: "[Suc 0..<15] = [Suc 0, 2, 3, 4, 5, 6, 7, 8, 9, 10, 11, 12, 13, 14 :: nat]"
  by code_simp

lemma placeholders_text:
  "insert_text oc = newline @ ''    insert into workflow_event_log ('' @ newline @ ''      '' @
     join '', '' WORKFLOW_EVENT_LOG_COLUMNS @ newline @ ''    )'' @ newline @ ''    values ('' @
     join '', '' (map2 placeholder [1..<15] WORKFLOW_EVENT_LOG_COLUMNS) @ '')'' @
     (case oc of
        Do_nothing \<Rightarrow> newline @ ''    on conflict (entity_id, workflow_name, state_version) do nothing''
      | Throw \<Rightarrow> '''') @ newline @ ''  ''"
  by (simp add: insert_text_def WORKFLOW_EVENT_LOG_COLUMNS_def placeholder_def placeholder_numbers)

lemma statement_row:
  "map Some (insert_values ev_js a) =
   map (column_value ev_js (event_log_row a)) WORKFLOW_EVENT_LOG_COLUMNS"
  by (simp add: insert_values_def WORKFLOW_EVENT_LOG_COLUMNS_def column_value_def event_log_row_def)

text \<open>
  The insert statement is aligned whichever conflict clause it has: its
  value list has one placeholder per column in column order, the two \<open>jsonb\<close> columns and only
  they are cast, and the value bound to each placeholder is the row's value for that column; the
  two writers' statements differ in the conflict clause alone.
\<close>

lemma event_log_statement_aligned:
  "let (text, values) = buildWorkflowEventLogInsert ev_js a oc in
   text = newline @ ''    insert into workflow_event_log ('' @ newline @ ''      '' @
     join '', '' WORKFLOW_EVENT_LOG_COLUMNS @ newline @ ''    )'' @ newline @ ''    values ('' @
     join '', '' (map2 placeholder [1..<15] WORKFLOW_EVENT_LOG_COLUMNS) @ '')'' @
     (case oc of
        Do_nothing \<Rightarrow> newline @ ''    on conflict (entity_id, workflow_name, state_version) do nothing''
      | Throw \<Rightarrow> '''') @ newline @ ''  '' \<and>
   map Some values = map (column_value ev_js (event_log_row a)) WORKFLOW_EVENT_LOG_COLUMNS \<and>
   values = snd (buildWorkflowEventLogInsert ev_js a Throw)"
  using placeholders_text [of oc] statement_row [of ev_js a]
  by (simp only: buildWorkflowEventLogInsert_def Let_def prod.case snd_conv simp_thms)

section \<open>The two writers\<close>

text \<open>
  Executing the statement against the table; the only failure modelled is the unique
  violation of \<open>workflow_event_log_entity_workflow_version_key\<close>.
\<close>

definition run_insert ::
  "on_conflict \<Rightarrow> 'ev insert_args \<Rightarrow> 'ev traced_insert list \<Rightarrow> 'ev traced_insert list result" where
  "run_insert oc args table =
     (case oc of
        Throw \<Rightarrow> insert_or_throw (event_log_row args) table
      | Do_nothing \<Rightarrow> Inr (insert_do_nothing (event_log_row args) table))"

record trace_context =
  sentry_trace :: "string field"
  sentry_baggage :: "string field"
  request_id :: "string field"
  capture_session_id :: "string field"

record 'ev event_args =
  ea_companyId :: string
  ea_workflowName :: string
  ea_schemaVersion :: int
  ea_entityType :: string
  ea_entityId :: string
  ea_stateVersion :: int
  ea_eventType :: string
  ea_eventPayload :: 'ev
  ea_snapshotAfter :: js
  ea_actorUserId :: "string field"

definition traced_args :: "'ev event_args \<Rightarrow> trace_context \<Rightarrow> 'ev insert_args" where
  "traced_args a tc = \<lparr>
     ia_companyId = ea_companyId a,
     ia_workflowName = ea_workflowName a,
     ia_schemaVersion = ea_schemaVersion a,
     ia_entityType = ea_entityType a,
     ia_entityId = ea_entityId a,
     ia_stateVersion = ea_stateVersion a,
     ia_eventType = ea_eventType a,
     ia_eventPayload = ea_eventPayload a,
     ia_snapshotAfter = ea_snapshotAfter a,
     ia_actorUserId = coalesce (ea_actorUserId a) Null,
     ia_requestId = coalesce (request_id tc) Null,
     ia_sentryTrace = coalesce (sentry_trace tc) Null,
     ia_sentryBaggage = coalesce (sentry_baggage tc) Null,
     ia_captureSessionId = coalesce (capture_session_id tc) Null\<rparr>"

text \<open>The em dash of the message, in UTF-8.\<close>

definition em_dash :: string where
  "em_dash = [CHR 0xE2, CHR 0x80, CHR 0x94]"

definition already_recorded :: "'ev event_args \<Rightarrow> js_error" where
  "already_recorded a = HttpError 409
     (''workflow event already recorded for '' @ ea_workflowName a @ '' at state_version '' @
      show_int (ea_stateVersion a) @ '' '' @ em_dash @ '' reload and retry'')"

text \<open>\<open>tc\<close> is the ambient request context and the current Sentry trace headers.\<close>

definition recordWorkflowEvent ::
  "trace_context \<Rightarrow> 'ev event_args \<Rightarrow> 'ev traced_insert list \<Rightarrow> 'ev traced_insert list result" where
  "recordWorkflowEvent tc args table =
     (case run_insert Throw (traced_args args tc) table of
        Inl _ \<Rightarrow> Inl (already_recorded args)
      | Inr table' \<Rightarrow> Inr table')"

text \<open>\<open>trace\<close> is the optional context taken off the claimed outbox row.\<close>

definition no_trace :: trace_context where
  "no_trace = \<lparr>sentry_trace = Null, sentry_baggage = Null, request_id = Null,
     capture_session_id = Null\<rparr>"

definition appendWorkflowEvent ::
  "trace_context option \<Rightarrow> 'ev event_args \<Rightarrow> 'ev traced_insert list \<Rightarrow>
   'ev traced_insert list result" where
  "appendWorkflowEvent trace args table =
     run_insert Do_nothing
       (traced_args args (case trace of None \<Rightarrow> no_trace | Some tc \<Rightarrow> tc)) table"

lemma row_key_traced [simp]:
  "row_key (event_log_row (traced_args a tc)) = (ea_entityId a, ea_workflowName a, ea_stateVersion a)"
  by (simp add: row_key_def event_log_row_def traced_args_def)

lemma traced_row_simps [simp]:
  "li_workflow_name (event_log_row (traced_args a tc)) = ea_workflowName a"
  "li_schema_version (event_log_row (traced_args a tc)) = ea_schemaVersion a"
  "li_entity_id (event_log_row (traced_args a tc)) = ea_entityId a"
  "li_state_version (event_log_row (traced_args a tc)) = ea_stateVersion a"
  "li_event_payload (event_log_row (traced_args a tc)) = ea_eventPayload a"
  "li_snapshot_after (event_log_row (traced_args a tc)) = ea_snapshotAfter a"
  by (simp_all add: event_log_row_def traced_args_def)

lemma recordWorkflowEvent_fresh:
  assumes "(ea_entityId a, ea_workflowName a, ea_stateVersion a) \<notin> row_key ` set table"
  shows "recordWorkflowEvent tc a table = Inr (table @ [event_log_row (traced_args a tc)])"
  using assms by (simp add: recordWorkflowEvent_def run_insert_def insert_or_throw_def)

lemma recordWorkflowEvent_Inr:
  "recordWorkflowEvent tc a table = Inr table' \<longleftrightarrow>
   (ea_entityId a, ea_workflowName a, ea_stateVersion a) \<notin> row_key ` set table \<and>
   table' = table @ [event_log_row (traced_args a tc)]"
  by (auto simp: recordWorkflowEvent_def run_insert_def insert_or_throw_def split: if_splits)

lemma appendWorkflowEvent_fresh:
  assumes "(ea_entityId a, ea_workflowName a, ea_stateVersion a) \<notin> row_key ` set table"
  shows "appendWorkflowEvent tr a table =
    Inr (table @ [event_log_row (traced_args a (case tr of None \<Rightarrow> no_trace | Some tc \<Rightarrow> tc))])"
  using assms by (simp add: appendWorkflowEvent_def run_insert_def insert_do_nothing_def)

text \<open>
  C30: A transition is logged once.  Recording the same transition again (same
  entity, workflow and version, whatever payload) is refused with status 409 on the API path and
  changes nothing on the worker path, in either order of the two writers; and no sequence of
  writes ever puts two rows with one key into the table.
\<close>

theorem event_log_double_write:
  assumes "recordWorkflowEvent tc a table = Inr table1 \<or> appendWorkflowEvent tr a table = Inr table1"
    and "ea_entityId b = ea_entityId a" and "ea_workflowName b = ea_workflowName a"
    and "ea_stateVersion b = ea_stateVersion a"
  shows "recordWorkflowEvent tc' b table1 = Inl (already_recorded b) \<and>
    appendWorkflowEvent tr' b table1 = Inr table1 \<and>
    (distinct (map row_key table) \<longrightarrow> distinct (map row_key table1))"
proof -
  have present: "(ea_entityId a, ea_workflowName a, ea_stateVersion a) \<in> row_key ` set table1"
    using assms(1) by (auto simp: recordWorkflowEvent_Inr appendWorkflowEvent_def run_insert_def
        insert_do_nothing_def split: if_splits)
  have "table1 = table \<or> (\<exists>row. table1 = table @ [row] \<and> row_key row \<notin> row_key ` set table)"
    using assms(1) by (auto simp: recordWorkflowEvent_Inr appendWorkflowEvent_def run_insert_def
        insert_do_nothing_def split: if_splits)
  then have "distinct (map row_key table) \<longrightarrow> distinct (map row_key table1)"
    by auto
  with present assms(2-4) show ?thesis
    by (simp add: recordWorkflowEvent_def appendWorkflowEvent_def run_insert_def
        insert_or_throw_def insert_do_nothing_def)
qed

definition example_event_args :: "string event_args" where
  "example_event_args = \<lparr>ea_companyId = ''c'', ea_workflowName = ''rental'', ea_schemaVersion = 1,
     ea_entityType = ''rental'', ea_entityId = ''r-1'', ea_stateVersion = 1,
     ea_eventType = ''RETURN'', ea_eventPayload = ''RETURN'', ea_snapshotAfter = JObj [],
     ea_actorUserId = Null\<rparr>"

theorem event_log_double_write_witness:
  "\<exists>table. recordWorkflowEvent no_trace example_event_args [] = Inr table \<and>
     length table = 1 \<and>
     recordWorkflowEvent no_trace (example_event_args\<lparr>ea_eventType := ''CLOSE''\<rparr>) table =
       Inl (already_recorded example_event_args) \<and>
     appendWorkflowEvent None example_event_args table = Inr table"
proof -
  obtain table where table: "recordWorkflowEvent no_trace example_event_args [] = Inr table"
    and "length table = 1"
    by (simp add: recordWorkflowEvent_fresh)
  have "already_recorded (example_event_args\<lparr>ea_eventType := ''CLOSE''\<rparr>) =
      already_recorded example_event_args"
    by (simp add: already_recorded_def)
  with event_log_double_write [of no_trace example_event_args "[]" table None
      "example_event_args\<lparr>ea_eventType := ''CLOSE''\<rparr>" no_trace None]
    event_log_double_write [of no_trace example_event_args "[]" table None example_event_args
      no_trace None] table \<open>length table = 1\<close>
  show ?thesis by simp
qed

end
