(* ===== verification/Dispatch.thy ===== *)
theory Dispatch
  imports Event_Log_Insert
begin

text \<open>
  The generic dispatch primitive (\<open>apps/api/src/workflow-dispatch.ts\<close>) and the transaction it
  runs in (\<open>withMutationTx\<close> of \<open>apps/api/src/mutation-tx.ts\<close>).  The database is a record that
  extends \<open>log_db\<close>, the \<open>workflow_event_log\<close> table; the caller's callbacks are functions of
  it.  What every route relies on is stated once, in the locale \<open>workflow_store\<close>: the laws of a
  route's load and persist callbacks give optimistic concurrency and a log that replays.
\<close>

section \<open>Transactions\<close>

text \<open>
  \<open>begin\<close>, the callback, \<open>commit\<close>; a throw rolls the database back and is thrown on.
  Transactions on one entity are serialised by the callback's row lock (\<open>for update\<close>), so
  concurrent requests are sequences of transactions.
\<close>

definition withMutationTx :: "('db \<Rightarrow> ('a \<times> 'db) result) \<Rightarrow> 'db \<Rightarrow> 'a result \<times> 'db" where
  "withMutationTx fn db = (case fn db of Inl err \<Rightarrow> (Inl err, db) | Inr (r, db') \<Rightarrow> (Inr r, db'))"

section \<open>The primitive\<close>

record 'ev log_db =
  event_log :: "'ev traced_insert list"

datatype ('row, 'sn) dispatch_result =
    Ok 'row 'sn
  | Not_found
  | Version_conflict 'row 'sn
  | Illegal_transition 'row 'sn string

record ('st, 'ev, 'x, 'row, 'db) dispatch_options =
  dp_definition :: "('st, 'ev, 'x) snapshot_def"
  dp_companyId :: string
  dp_entityType :: string
  dp_entityId :: string
  dp_expectedStateVersion :: int
  dp_actorUserId :: "string field"
  loadSnapshot :: "'db \<Rightarrow> ('row \<times> ('st, 'x) workflow_snapshot_scheme) option"
  buildEvent :: "('st, 'x) workflow_snapshot_scheme \<Rightarrow> 'ev"
  persist :: "'db \<Rightarrow> ('st, 'x) workflow_snapshot_scheme \<Rightarrow> 'row \<Rightarrow> ('row \<times> 'db) result"
  sideEffects :: "('db \<Rightarrow> ('st, 'x) workflow_snapshot_scheme \<Rightarrow> 'row \<Rightarrow> 'ev \<Rightarrow> 'db result) option"

definition dispatch_args ::
  "('ev \<Rightarrow> string) \<Rightarrow> (('st, 'x) workflow_snapshot_scheme \<Rightarrow> js) \<Rightarrow>
   ('st, 'ev, 'x, 'row, 'db) dispatch_options \<Rightarrow> 'ev \<Rightarrow> ('st, 'x) workflow_snapshot_scheme \<Rightarrow>
   'ev event_args" where
  "dispatch_args type_of to_js opts event next_snap = \<lparr>
     ea_companyId = dp_companyId opts,
     ea_workflowName = wf_name (dp_definition opts),
     ea_schemaVersion = schemaVersion (dp_definition opts),
     ea_entityType = dp_entityType opts,
     ea_entityId = dp_entityId opts,
     ea_stateVersion = dp_expectedStateVersion opts,
     ea_eventType = type_of event,
     ea_eventPayload = event,
     ea_snapshotAfter = to_js next_snap,
     ea_actorUserId = coalesce (dp_actorUserId opts) Null\<rparr>"

definition dispatchWorkflowEvent ::
  "('ev \<Rightarrow> string) \<Rightarrow> (('st, 'x) workflow_snapshot_scheme \<Rightarrow> js) \<Rightarrow> trace_context \<Rightarrow>
   ('st, 'ev, 'x, 'row, ('ev, 'd) log_db_scheme) dispatch_options \<Rightarrow> ('ev, 'd) log_db_scheme \<Rightarrow>
   (('row, ('st, 'x) workflow_snapshot_scheme) dispatch_result \<times> ('ev, 'd) log_db_scheme) result" where
  "dispatchWorkflowEvent type_of to_js tc opts db =
     (case loadSnapshot opts db of
        None \<Rightarrow> Inr (Not_found, db)
      | Some (row, snapshot) \<Rightarrow>
          if state_version snapshot \<noteq> dp_expectedStateVersion opts
          then Inr (Version_conflict row snapshot, db)
          else (let event = buildEvent opts snapshot
                in case reduce (dp_definition opts) snapshot event of
                  Inl err \<Rightarrow> Inr (Illegal_transition row snapshot (err_message err), db)
                | Inr next_snap \<Rightarrow>
                    (case persist opts db next_snap row of
                       Inl err \<Rightarrow> Inl err
                     | Inr (updated, db1) \<Rightarrow>
                         (case recordWorkflowEvent tc (dispatch_args type_of to_js opts event next_snap)
                             (event_log db1) of
                            Inl err \<Rightarrow> Inl err
                          | Inr log \<Rightarrow>
                              (let db2 = db1\<lparr>event_log := log\<rparr>
                               in case sideEffects opts of
                                 None \<Rightarrow> Inr (Ok updated next_snap, db2)
                               | Some eff \<Rightarrow>
                                   (case eff db2 next_snap updated event of
                                      Inl err \<Rightarrow> Inl err
                                    | Inr db3 \<Rightarrow> Inr (Ok updated next_snap, db3)))))))"

record ('st, 'sn) snapshot_envelope =
  env_state :: 'st
  env_state_version :: int
  env_context :: 'sn
  env_next_events :: "next_event list"

text \<open>\<open>nextEvents\<close> is optional in the parameter's type; every registered definition has one.\<close>

definition toWorkflowSnapshot ::
  "('st \<Rightarrow> next_event list) option \<Rightarrow> ('st, 'x) workflow_snapshot_scheme \<Rightarrow>
   ('st, ('st, 'x) workflow_snapshot_scheme) snapshot_envelope" where
  "toWorkflowSnapshot next_of snap = \<lparr>env_state = state snap, env_state_version = state_version snap,
     env_context = snap,
     env_next_events = (case next_of of None \<Rightarrow> [] | Some f \<Rightarrow> f (state snap))\<rparr>"

section \<open>Requests in sequence\<close>

fun is_win :: "('row, 'sn) dispatch_result result \<Rightarrow> bool" where
  "is_win (Inr (Ok _ _)) = True"
| "is_win _ = False"

fun serve_all ::
  "('opts \<Rightarrow> 'db \<Rightarrow> ('a \<times> 'db) result) \<Rightarrow> 'opts list \<Rightarrow> 'db \<Rightarrow> 'a result list \<times> 'db" where
  "serve_all dispatch [] db = ([], db)"
| "serve_all dispatch (opts # rest) db =
     (let (r, db1) = withMutationTx (dispatch opts) db;
          (rs, db2) = serve_all dispatch rest db1
      in (r # rs, db2))"

text \<open>
  A request comes with its own trace context.  \<open>wins_at\<close> counts the requests that expected
  version \<open>v\<close> and were applied.
\<close>

definition wins_at ::
  "int \<Rightarrow> (trace_context \<times> ('st, 'ev, 'x, 'row, 'db) dispatch_options) list \<Rightarrow>
   ('row, 'sn) dispatch_result result list \<Rightarrow> nat" where
  "wins_at v reqs rs =
     length (filter (\<lambda>((tc, opts), r). dp_expectedStateVersion opts = v \<and> is_win r) (zip reqs rs))"

lemma wins_at_Nil [simp]: "wins_at v [] rs = 0"
  by (simp add: wins_at_def)

lemma wins_at_Cons [simp]:
  "wins_at v ((tc, opts) # reqs) (r # rs) =
   (if dp_expectedStateVersion opts = v \<and> is_win r then 1 else 0) + wins_at v reqs rs"
  by (simp add: wins_at_def)

section \<open>What a route provides\<close>

text \<open>
  \<open>load\<close> reads the entity's row and shapes it to a snapshot; \<open>store\<close> is the single update of
  the transition, given the clock reading it stamps the row with.  \<open>normal\<close> are the snapshots a row can hold (a nullable column has no
  \<open>undefined\<close>).  The laws: a snapshot that was loaded is one a row can hold, the reducer keeps
  it so, what was stored is what is loaded next, and neither touches the event log.
\<close>

locale workflow_store = versioned_workflow wd
  for wd :: "('st, 'ev, ('st, 'x) workflow_snapshot_scheme) workflow_definition" +
  fixes load :: "('ev, 'd) log_db_scheme \<Rightarrow> ('row \<times> ('st, 'x) workflow_snapshot_scheme) option"
    and store :: "'c \<Rightarrow> ('ev, 'd) log_db_scheme \<Rightarrow> ('st, 'x) workflow_snapshot_scheme \<Rightarrow> 'row \<Rightarrow>
      ('row \<times> ('ev, 'd) log_db_scheme) result"
    and normal :: "('st, 'x) workflow_snapshot_scheme \<Rightarrow> bool"
  assumes load_normal: "load db = Some (row, s) \<Longrightarrow> normal s"
    and reduce_normal: "normal s \<Longrightarrow> reduce wd s e = Inr s' \<Longrightarrow> normal s'"
    and load_stored: "load db = Some (row, s) \<Longrightarrow> normal s' \<Longrightarrow> store c db s' row = Inr (row', db') \<Longrightarrow>
      load db' = Some (row', s')"
    and store_log: "store c db s' row = Inr (row', db') \<Longrightarrow> event_log db' = event_log db"
    and load_log: "load (db\<lparr>event_log := log\<rparr>) = load db"
begin

text \<open>Side effects of a request leave the entity's row and the event log alone.\<close>

definition framed ::
  "(('ev, 'd) log_db_scheme \<Rightarrow> ('st, 'x) workflow_snapshot_scheme \<Rightarrow> 'row \<Rightarrow> 'ev \<Rightarrow>
    ('ev, 'd) log_db_scheme result) option \<Rightarrow> bool" where
  "framed eff \<longleftrightarrow> (case eff of None \<Rightarrow> True | Some f \<Rightarrow>
     (\<forall>db s row e db'. f db s row e = Inr db' \<longrightarrow>
        load db' = load db \<and> event_log db' = event_log db))"

definition serves ::
  "string \<Rightarrow> ('st, 'ev, 'x, 'row, ('ev, 'd) log_db_scheme) dispatch_options \<Rightarrow> bool" where
  "serves eid opts \<longleftrightarrow> dp_definition opts = wd \<and> dp_entityId opts = eid \<and>
     loadSnapshot opts = load \<and> (\<exists>c. persist opts = store c) \<and> framed (sideEffects opts)"

lemma dispatch_Ok:
  assumes "serves eid opts"
    and "dispatchWorkflowEvent type_of to_js tc opts db = Inr (Ok row' s', db')"
  obtains row s where "load db = Some (row, s)" and "state_version s = dp_expectedStateVersion opts"
    and "reduce wd s (buildEvent opts s) = Inr s'" and "load db' = Some (row', s')"
    and "event_log db' = event_log db @
      [event_log_row (traced_args (dispatch_args type_of to_js opts (buildEvent opts s) s') tc)]"
proof -
  from assms(2) obtain row s where load: "loadSnapshot opts db = Some (row, s)"
    and version: "state_version s = dp_expectedStateVersion opts"
    by (auto simp: dispatchWorkflowEvent_def split: option.splits if_splits)
  from assms(2) obtain db1 log where
      reduce: "reduce (dp_definition opts) s (buildEvent opts s) = Inr s'"
      and stored: "persist opts db s' row = Inr (row', db1)"
      and log: "recordWorkflowEvent tc (dispatch_args type_of to_js opts (buildEvent opts s) s')
        (event_log db1) = Inr log"
      and rest: "(case sideEffects opts of None \<Rightarrow> db' = db1\<lparr>event_log := log\<rparr>
        | Some eff \<Rightarrow> eff (db1\<lparr>event_log := log\<rparr>) s' row' (buildEvent opts s) = Inr db')"
    by (auto simp: dispatchWorkflowEvent_def load version Let_def split: sum.splits option.splits)
  let ?db2 = "db1\<lparr>event_log := log\<rparr>"
  note opts = assms(1) [unfolded serves_def]
  then obtain c where c: "persist opts = store c" by blast
  have framed: "load db' = load ?db2 \<and> event_log db' = event_log ?db2"
    using rest opts by (cases "sideEffects opts") (auto simp: framed_def)
  have loaded: "load db = Some (row, s)" using load opts by simp
  have red: "reduce wd s (buildEvent opts s) = Inr s'" using reduce opts by simp
  have st: "store c db s' row = Inr (row', db1)" using stored c by simp
  have "load db1 = Some (row', s')"
    using load_stored [OF loaded reduce_normal [OF load_normal [OF loaded] red] st] .
  then have "load db' = Some (row', s')" using framed by (simp add: load_log)
  moreover have "event_log db' = event_log db @
      [event_log_row (traced_args (dispatch_args type_of to_js opts (buildEvent opts s) s') tc)]"
    using framed log store_log [OF st] by (simp add: recordWorkflowEvent_Inr)
  ultimately show ?thesis using that loaded version red by blast
qed

lemma dispatch_other:
  assumes "dispatchWorkflowEvent type_of to_js tc opts db = Inr (r, db')" and "\<not> is_win (Inr r)"
  shows "db' = db"
  using assms by (auto simp: dispatchWorkflowEvent_def Let_def
      split: option.splits if_splits sum.splits)

text \<open>One transaction: the database is unchanged, or the request won.\<close>

lemma transaction_cases:
  assumes "serves eid opts"
    and "withMutationTx (dispatchWorkflowEvent type_of to_js tc opts) db = (r, db')"
  obtains (unchanged) "db' = db" and "\<not> is_win r"
  | (won) row s row' s' where "r = Inr (Ok row' s')"
      and "dispatchWorkflowEvent type_of to_js tc opts db = Inr (Ok row' s', db')"
      and "load db = Some (row, s)" and "load db' = Some (row', s')"
      and "state_version s = dp_expectedStateVersion opts"
      and "state_version s' = state_version s + 1"
proof (cases "dispatchWorkflowEvent type_of to_js tc opts db")
  case (Inl err)
  with assms(2) unchanged show ?thesis by (auto simp: withMutationTx_def)
next
  case (Inr p)
  obtain d db1 where p: "p = (d, db1)" by (cases p)
  with Inr assms(2) have r: "r = Inr d" "db' = db1" by (auto simp: withMutationTx_def)
  show ?thesis
  proof (cases "is_win (Inr d)")
    case False
    with dispatch_other [of type_of to_js tc opts db d db1] Inr p r unchanged show ?thesis by simp
  next
    case True
    then obtain row' s' where d: "d = Ok row' s'" by (cases d) auto
    with Inr p r have "dispatchWorkflowEvent type_of to_js tc opts db = Inr (Ok row' s', db')" by simp
    with dispatch_Ok [OF assms(1) this] version_step won r d show ?thesis by metis
  qed
qed

text \<open>The version of an entity never goes back.\<close>

lemma serve_all_past:
  assumes "serve_all (\<lambda>(tc, opts). dispatchWorkflowEvent type_of to_js tc opts) reqs db = (rs, db')"
    and "\<forall>(tc, opts) \<in> set reqs. serves eid opts"
    and "load db = Some (row, s)" and "v < state_version s"
  shows "wins_at v reqs rs = 0"
  using assms
proof (induction reqs arbitrary: rs db db' row s)
  case Nil
  then show ?case by simp
next
  case (Cons req reqs)
  obtain tc opts where req: "req = (tc, opts)" by (cases req)
  obtain r db1 where tx: "withMutationTx (dispatchWorkflowEvent type_of to_js tc opts) db = (r, db1)"
    by fastforce
  obtain rs' db2 where rest: "serve_all (\<lambda>(tc, opts). dispatchWorkflowEvent type_of to_js tc opts) reqs db1 = (rs', db2)"
    by fastforce
  have rs: "rs = r # rs'" using Cons.prems(1) tx rest req by simp
  have served: "serves eid opts" using Cons.prems(2) req by simp
  from served tx show ?case
  proof (cases rule: transaction_cases)
    case unchanged
    then show ?thesis using Cons.IH [of db1 rs' db2 row s] rest rs req Cons.prems(2-) by simp
  next
    case (won row0 s0 row' s')
    then show ?thesis using Cons.IH [of db1 rs' db2 row' s'] rest rs req Cons.prems(2-) by simp
  qed
qed

lemma serve_all_at_most_one:
  assumes "serve_all (\<lambda>(tc, opts). dispatchWorkflowEvent type_of to_js tc opts) reqs db = (rs, db')"
    and "\<forall>(tc, opts) \<in> set reqs. serves eid opts"
  shows "wins_at v reqs rs \<le> 1"
  using assms
proof (induction reqs arbitrary: rs db db')
  case Nil
  then show ?case by simp
next
  case (Cons req reqs)
  obtain tc opts where req: "req = (tc, opts)" by (cases req)
  obtain r db1 where tx: "withMutationTx (dispatchWorkflowEvent type_of to_js tc opts) db = (r, db1)"
    by fastforce
  obtain rs' db2 where rest: "serve_all (\<lambda>(tc, opts). dispatchWorkflowEvent type_of to_js tc opts) reqs db1 = (rs', db2)"
    by fastforce
  have rs: "rs = r # rs'" using Cons.prems(1) tx rest req by simp
  have served: "serves eid opts" "\<forall>(tc, opts) \<in> set reqs. serves eid opts" using Cons.prems(2) req by simp_all
  from served(1) tx show ?case
  proof (cases rule: transaction_cases)
    case unchanged
    then show ?thesis using Cons.IH [OF rest served(2)] rs req by simp
  next
    case (won row s row' s')
    show ?thesis
    proof (cases "dp_expectedStateVersion opts = v")
      case True
      with won have "v < state_version s'" by simp
      with serve_all_past [OF rest served(2) won(4)] show ?thesis by (simp add: rs req)
    next
      case False
      then show ?thesis using Cons.IH [OF rest served(2)] by (simp add: rs req)
    qed
  qed
qed

section \<open>The log replays to the row\<close>

text \<open>
  The invariant of a workflow entity: the log rows of the entity record a run from the
  snapshot \<open>s0\<close> it was created with to the snapshot its row holds now.
\<close>

definition logged ::
  "string \<Rightarrow> (('st, 'x) workflow_snapshot_scheme \<Rightarrow> js) \<Rightarrow> ('st, 'x) workflow_snapshot_scheme \<Rightarrow>
   ('ev, 'd) log_db_scheme \<Rightarrow> bool" where
  "logged eid to_js s0 db \<longleftrightarrow> (\<forall>row s. load db = Some (row, s) \<longrightarrow>
     records_run to_js wd s0 (entity_rows (wf_name wd) eid (event_log db)) s)"

lemma logged_fresh_key:
  assumes "logged eid to_js s0 db" and "load db = Some (row, s)"
  shows "(eid, wf_name wd, state_version s) \<notin> row_key ` set (event_log db)"
  by (rule records_run_next_fresh [of to_js s0]) (use assms in \<open>simp add: logged_def\<close>)

lemma logged_append:
  assumes "logged eid to_js s0 db" and "load db = Some (row, s)" and "reduce wd s e = Inr s'"
    and "load db' = Some (row', s')" and "event_log db' = event_log db @ [r]"
    and "li_workflow_name r = wf_name wd" and "li_entity_id r = eid"
    and "li_schema_version r = schemaVersion wd" and "li_state_version r = state_version s"
    and "li_event_payload r = e" and "li_snapshot_after r = to_js s'"
  shows "logged eid to_js s0 db'"
proof -
  have "records_run to_js wd s0 (entity_rows (wf_name wd) eid (event_log db)) s"
    using assms(1,2) by (simp add: logged_def)
  then have "records_run to_js wd s0 (entity_rows (wf_name wd) eid (event_log db) @ [r]) s'"
    using assms by (intro records_run_snoc) simp_all
  then show ?thesis using assms by (simp add: logged_def entity_rows_def)
qed

lemma logged_dispatch:
  assumes "logged eid to_js s0 db" and "serves eid opts"
    and "withMutationTx (dispatchWorkflowEvent type_of to_js tc opts) db = (r, db')"
  shows "logged eid to_js s0 db'"
  using assms(2,3)
proof (cases rule: transaction_cases)
  case unchanged
  with assms(1) show ?thesis by simp
next
  case (won row s row' s')
  from assms(2) won(2) show ?thesis
  proof (rule dispatch_Ok)
    fix row s
    assume loaded: "load db = Some (row, s)" and version: "state_version s = dp_expectedStateVersion opts"
      and red: "reduce wd s (buildEvent opts s) = Inr s'" and loaded': "load db' = Some (row', s')"
      and log: "event_log db' = event_log db @
        [event_log_row (traced_args (dispatch_args type_of to_js opts (buildEvent opts s) s') tc)]"
    show ?thesis
      using assms(2) version
      by (intro logged_append [OF assms(1) loaded red loaded' log])
        (simp_all add: serves_def dispatch_args_def)
  qed
qed

lemma logged_serve_all:
  assumes "logged eid to_js s0 db" and "\<forall>(tc, opts) \<in> set reqs. serves eid opts"
    and "serve_all (\<lambda>(tc, opts). dispatchWorkflowEvent type_of to_js tc opts) reqs db = (rs, db')"
  shows "logged eid to_js s0 db'"
  using assms
proof (induction reqs arbitrary: db db' rs)
  case Nil
  then show ?case by simp
next
  case (Cons req reqs)
  obtain tc opts where req: "req = (tc, opts)" by (cases req)
  obtain r db1 where tx: "withMutationTx (dispatchWorkflowEvent type_of to_js tc opts) db = (r, db1)"
    by fastforce
  obtain rs' db2 where rest: "serve_all (\<lambda>(tc, opts). dispatchWorkflowEvent type_of to_js tc opts) reqs db1 = (rs', db2)"
    by fastforce
  have "logged eid to_js s0 db1"
    using Cons.prems req by (intro logged_dispatch [OF _ _ tx]) simp_all
  then have "logged eid to_js s0 db2" using Cons.IH [OF _ _ rest] Cons.prems(2) req by simp
  then show ?case using Cons.prems(3) tx rest req by simp
qed

text \<open>
  With the invariant the 409 of the event log is never reached: a dispatch throws only what
  the route's own callbacks throw.
\<close>

lemma dispatch_throws_callback_only:
  assumes "logged eid to_js s0 db" and "serves eid opts"
    and "dispatchWorkflowEvent type_of to_js tc opts db = Inl err"
  shows "(\<exists>c s' row. store c db s' row = Inl err) \<or>
    (\<exists>f db' s' row e. sideEffects opts = Some f \<and> f db' s' row e = Inl err)"
proof -
  from assms(2) obtain c where c: "persist opts = store c" by (auto simp: serves_def)
  note opts = assms(2) [unfolded serves_def] c
  from assms(3) obtain row s where load: "load db = Some (row, s)"
    and version: "state_version s = dp_expectedStateVersion opts"
    using opts by (auto simp: dispatchWorkflowEvent_def split: option.splits if_splits)
  obtain s' where red: "reduce wd s (buildEvent opts s) = Inr s'"
    using assms(3) opts load version
    by (cases "reduce wd s (buildEvent opts s)") (simp_all add: dispatchWorkflowEvent_def)
  show ?thesis
  proof (cases "store c db s' row")
    case (Inl e)
    with assms(3) opts load version red show ?thesis
      by (auto simp: dispatchWorkflowEvent_def)
  next
    case (Inr p)
    obtain row' db1 where p: "p = (row', db1)" by (cases p)
    let ?args = "dispatch_args type_of to_js opts (buildEvent opts s) s'"
    have "(ea_entityId ?args, ea_workflowName ?args, ea_stateVersion ?args) \<notin>
        row_key ` set (event_log db1)"
      using logged_fresh_key [OF assms(1) load] opts version store_log [of c db s' row row' db1] Inr p
      by (simp add: dispatch_args_def)
    then have "recordWorkflowEvent tc ?args (event_log db1) =
        Inr (event_log db1 @ [event_log_row (traced_args ?args tc)])"
      by (rule recordWorkflowEvent_fresh)
    with assms(3) opts load version red Inr p show ?thesis
      by (auto simp: dispatchWorkflowEvent_def Let_def split: option.splits sum.splits)
  qed
qed

lemma logged_replays:
  assumes "logged eid to_js s0 db" and "load db = Some (row, s)"
    and "getWorkflow reg (wf_name wd) None = Some wd"
  shows "applyEventLog type_of to_js reg s0 (entity_log (wf_name wd) eid (event_log db)) =
    \<lparr>replay_ok = True, finalSnapshot = Some s, issues = []\<rparr>"
  using assms(1,2) by (intro records_run_replays [OF _ assms(3)]) (simp add: logged_def)

end

end
