(* ===== verification/Rental_Billing.thy ===== *)
theory Rental_Billing
  imports Workflow_Core Js_Equality
begin

text \<open>
  The rental billing workflow (\<open>packages/workflows/src/rental-billing.ts\<close>): its states, events and snapshot,
  the reducer, the offered events and the descriptor, and its refinement of the transition table
  that makes it an instance of the workflow contract.  Also the row mapper \<open>rentalBillingRowToSnapshot\<close>,
  the consistency of the posting stamps, and what a live QuickBooks push admits.
\<close>

section \<open>States, events, snapshot\<close>

datatype rental_billing_state = Generated | Approved | Posting | Posted | Failed | Voided

fun rental_billing_state_name :: "rental_billing_state \<Rightarrow> string" where
  "rental_billing_state_name Generated = ''generated''"
| "rental_billing_state_name Approved = ''approved''"
| "rental_billing_state_name Posting = ''posting''"
| "rental_billing_state_name Posted = ''posted''"
| "rental_billing_state_name Failed = ''failed''"
| "rental_billing_state_name Voided = ''voided''"

definition rental_billing_all_states :: "rental_billing_state list" where
  "rental_billing_all_states = [Generated, Approved, Posting, Posted, Failed, Voided]"

definition rental_billing_terminal_states :: "rental_billing_state list" where
  "rental_billing_terminal_states = [Posted, Voided]"

definition rental_billing_event_types :: "string list" where
  "rental_billing_event_types = [
     ''APPROVE'',
     ''POST_REQUESTED'',
     ''POST_SUCCEEDED'',
     ''POST_FAILED'',
     ''RETRY_POST'',
     ''CANCEL_POST'',
     ''VOID'']"

text \<open>
  Constructor arguments, in order:
  \<^item> \<open>APPROVE\<close>: \<open>approved_at\<close>, \<open>approved_by\<close>
  \<^item> \<open>POST_SUCCEEDED\<close>: \<open>posted_at\<close>, \<open>qbo_invoice_id\<close>
  \<^item> \<open>POST_FAILED\<close>: \<open>failed_at\<close>, \<open>error\<close>
  \<^item> \<open>CANCEL_POST\<close>: \<open>failed_at\<close>, \<open>error\<close>
\<close>

datatype rental_billing_event =
    APPROVE string string
  | POST_REQUESTED
  | POST_SUCCEEDED string string
  | POST_FAILED string string
  | RETRY_POST
  | CANCEL_POST string string
  | VOID

fun rental_billing_event_type :: "rental_billing_event \<Rightarrow> string" where
  "rental_billing_event_type (APPROVE _ _) = ''APPROVE''"
| "rental_billing_event_type POST_REQUESTED = ''POST_REQUESTED''"
| "rental_billing_event_type (POST_SUCCEEDED _ _) = ''POST_SUCCEEDED''"
| "rental_billing_event_type (POST_FAILED _ _) = ''POST_FAILED''"
| "rental_billing_event_type RETRY_POST = ''RETRY_POST''"
| "rental_billing_event_type (CANCEL_POST _ _) = ''CANCEL_POST''"
| "rental_billing_event_type VOID = ''VOID''"

record rental_billing_snapshot = "rental_billing_state workflow_snapshot" +
  approved_at :: "string field"
  approved_by :: "string field"
  posted_at :: "string field"
  failed_at :: "string field"
  error :: "string field"
  qbo_invoice_id :: "string field"

text \<open>The objects these values are at the JSON boundary.\<close>

definition rental_billing_snapshot_js :: "rental_billing_snapshot \<Rightarrow> js" where
  "rental_billing_snapshot_js snap = JObj [
     (''state'', JStr (rental_billing_state_name (state snap))),
     (''state_version'', JNum (state_version snap)),
     (''approved_at'', field_js JStr (approved_at snap)),
     (''approved_by'', field_js JStr (approved_by snap)),
     (''posted_at'', field_js JStr (posted_at snap)),
     (''failed_at'', field_js JStr (failed_at snap)),
     (''error'', field_js JStr (error snap)),
     (''qbo_invoice_id'', field_js JStr (qbo_invoice_id snap))]"

fun rental_billing_event_js :: "rental_billing_event \<Rightarrow> js" where
  "rental_billing_event_js (APPROVE ev_approved_at ev_approved_by) = JObj [
       (''type'', JStr ''APPROVE''),
       (''approved_at'', JStr ev_approved_at),
       (''approved_by'', JStr ev_approved_by)]"
| "rental_billing_event_js POST_REQUESTED = JObj [
       (''type'', JStr ''POST_REQUESTED'')]"
| "rental_billing_event_js (POST_SUCCEEDED ev_posted_at ev_qbo_invoice_id) = JObj [
       (''type'', JStr ''POST_SUCCEEDED''),
       (''posted_at'', JStr ev_posted_at),
       (''qbo_invoice_id'', JStr ev_qbo_invoice_id)]"
| "rental_billing_event_js (POST_FAILED ev_failed_at ev_error) = JObj [
       (''type'', JStr ''POST_FAILED''),
       (''failed_at'', JStr ev_failed_at),
       (''error'', JStr ev_error)]"
| "rental_billing_event_js RETRY_POST = JObj [
       (''type'', JStr ''RETRY_POST'')]"
| "rental_billing_event_js (CANCEL_POST ev_failed_at ev_error) = JObj [
       (''type'', JStr ''CANCEL_POST''),
       (''failed_at'', JStr ev_failed_at),
       (''error'', JStr ev_error)]"
| "rental_billing_event_js VOID = JObj [
       (''type'', JStr ''VOID'')]"

section \<open>The reducer\<close>

definition assertRentalBillingTransition ::
  "rental_billing_state \<Rightarrow> rental_billing_state list \<Rightarrow> string \<Rightarrow> unit result" where
  "assertRentalBillingTransition st allowed eventType = assert_in allowed st
     (''event '' @ eventType @ '' is not allowed from rental billing state '' @ rental_billing_state_name st)"

fun transitionRentalBillingWorkflow ::
  "rental_billing_snapshot \<Rightarrow> rental_billing_event \<Rightarrow> rental_billing_snapshot result" where
  "transitionRentalBillingWorkflow snap (APPROVE ev_approved_at ev_approved_by) =
     then_return (assertRentalBillingTransition (state snap) [Generated] ''APPROVE'')
      (snap\<lparr>state := Approved,
        state_version := state_version snap + 1,
        approved_at := Val ev_approved_at,
        approved_by := Val ev_approved_by,
        error := Null,
        failed_at := Null\<rparr>)"
| "transitionRentalBillingWorkflow snap POST_REQUESTED =
     then_return (assertRentalBillingTransition (state snap) [Approved, Failed] ''POST_REQUESTED'')
      (snap\<lparr>state := Posting,
        state_version := state_version snap + 1,
        error := Null,
        failed_at := Null\<rparr>)"
| "transitionRentalBillingWorkflow snap (POST_SUCCEEDED ev_posted_at ev_qbo_invoice_id) =
     then_return (assertRentalBillingTransition (state snap) [Posting] ''POST_SUCCEEDED'')
      (snap\<lparr>state := Posted,
        state_version := state_version snap + 1,
        posted_at := Val ev_posted_at,
        qbo_invoice_id := Val ev_qbo_invoice_id,
        error := Null,
        failed_at := Null\<rparr>)"
| "transitionRentalBillingWorkflow snap (POST_FAILED ev_failed_at ev_error) =
     then_return (assertRentalBillingTransition (state snap) [Posting] ''POST_FAILED'')
      (snap\<lparr>state := Failed,
        state_version := state_version snap + 1,
        failed_at := Val ev_failed_at,
        error := Val ev_error\<rparr>)"
| "transitionRentalBillingWorkflow snap RETRY_POST =
     then_return (assertRentalBillingTransition (state snap) [Failed] ''RETRY_POST'')
      (snap\<lparr>state := Approved,
        state_version := state_version snap + 1,
        error := Null,
        failed_at := Null\<rparr>)"
| "transitionRentalBillingWorkflow snap (CANCEL_POST ev_failed_at ev_error) =
     then_return (assertRentalBillingTransition (state snap) [Posting] ''CANCEL_POST'')
      (snap\<lparr>state := Failed,
        state_version := state_version snap + 1,
        failed_at := Val ev_failed_at,
        error := Val ev_error\<rparr>)"
| "transitionRentalBillingWorkflow snap VOID =
     then_return (assertRentalBillingTransition (state snap) [Generated, Approved, Failed] ''VOID'')
      (snap\<lparr>state := Voided,
        state_version := state_version snap + 1\<rparr>)"

section \<open>Offered events and the descriptor\<close>

fun nextRentalBillingEvents :: "rental_billing_state \<Rightarrow> next_event list" where
  "nextRentalBillingEvents Generated = [
       offer ''APPROVE'' ''Approve billing run'',
       offer ''VOID'' ''Void'']"
| "nextRentalBillingEvents Approved = [
       offer ''POST_REQUESTED'' ''Post invoice to QuickBooks'',
       offer ''VOID'' ''Void'']"
| "nextRentalBillingEvents Posting = [
       offer ''CANCEL_POST'' ''Cancel stuck QuickBooks post'']"
| "nextRentalBillingEvents Posted = []"
| "nextRentalBillingEvents Failed = [
       offer ''RETRY_POST'' ''Retry QuickBooks post'',
       offer ''VOID'' ''Void'']"
| "nextRentalBillingEvents Voided = []"

definition isHumanRentalBillingEvent :: "string \<Rightarrow> bool" where
  "isHumanRentalBillingEvent eventType \<longleftrightarrow>
     eventType = ''APPROVE'' \<or>
     eventType = ''POST_REQUESTED'' \<or>
     eventType = ''RETRY_POST'' \<or>
     eventType = ''CANCEL_POST'' \<or>
     eventType = ''VOID''"

definition rentalBillingWorkflow ::
  "(rental_billing_state, rental_billing_event, rental_billing_snapshot) workflow_definition" where
  "rentalBillingWorkflow = \<lparr>
     wf_name = ''rental_billing_run'',
     schemaVersion = 1,
     initialState = Generated,
     terminalStates = rental_billing_terminal_states,
     allStates = rental_billing_all_states,
     allEventTypes = rental_billing_event_types,
     reduce = transitionRentalBillingWorkflow,
     nextEvents = nextRentalBillingEvents,
     isHumanEvent = isHumanRentalBillingEvent,
     sideEffectTypes = [''post_qbo_invoice'']\<rparr>"

section \<open>Refinement of the transition table\<close>

definition rental_billing_edges :: "rental_billing_state edge list" where
  "rental_billing_edges = [
     (Generated, ''APPROVE'', Approved),
     (Approved, ''POST_REQUESTED'', Posting),
     (Failed, ''POST_REQUESTED'', Posting),
     (Posting, ''POST_SUCCEEDED'', Posted),
     (Posting, ''POST_FAILED'', Failed),
     (Failed, ''RETRY_POST'', Approved),
     (Posting, ''CANCEL_POST'', Failed),
     (Generated, ''VOID'', Voided),
     (Approved, ''VOID'', Voided),
     (Failed, ''VOID'', Voided)]"

lemmas rental_billing_defs = rentalBillingWorkflow_def assertRentalBillingTransition_def
  rental_billing_all_states_def rental_billing_terminal_states_def rental_billing_event_types_def
  isHumanRentalBillingEvent_def rental_billing_edges_def

interpretation rental_billing_wf: table_workflow rentalBillingWorkflow rental_billing_event_type rental_billing_edges
proof
  show "state_version s' = state_version s + 1 \<and>
      (state s, rental_billing_event_type e, state s') \<in> set rental_billing_edges"
    if "reduce rentalBillingWorkflow s e = Inr s'" for s e s'
    using that by (cases e) (auto simp: rental_billing_defs)
  show "is_ok (reduce rentalBillingWorkflow s e)"
    if "(state s, rental_billing_event_type e, b) \<in> set rental_billing_edges" for s e b
    using that by (cases e) (auto simp: rental_billing_defs)
  show "st \<in> set (allStates rentalBillingWorkflow)" for st
    by (cases st) (simp_all add: rental_billing_defs)
  show "rental_billing_event_type e \<in> set (allEventTypes rentalBillingWorkflow)" for e
    by (cases e) (simp_all add: rental_billing_defs)
  show "\<exists>e. rental_billing_event_type e = t" if "t \<in> set (allEventTypes rentalBillingWorkflow)" for t
    using that by (auto simp: rental_billing_defs intro: rental_billing_event_type.simps)
qed (auto simp: rental_billing_defs table_ok_def has_edge_def)

interpretation rental_billing_live: live_workflow rentalBillingWorkflow rental_billing_event_type
  by (rule rental_billing_wf.live_if_table_live) (simp add: table_live_def rental_billing_defs)

section \<open>Persisted rows\<close>

text \<open>
  \<open>rentalBillingRowToSnapshot\<close>.  The cast \<open>row.status as RentalBillingWorkflowState\<close> has no
  check at run time (nor has the column a CHECK constraint); every write of the column stores
  the name of a declared state, and \<open>None\<close> stands for a row that no write of the program
  produces.
\<close>

record rental_billing_row =
  row_status :: string
  row_state_version :: int
  row_approved_at :: "string field"
  row_approved_by :: "string field"
  row_posted_at :: "string field"
  row_failed_at :: "string field"
  row_error :: "string field"
  row_qbo_invoice_id :: "string field"

definition rental_billing_state_of_name :: "string \<Rightarrow> rental_billing_state option" where
  "rental_billing_state_of_name n =
     find (\<lambda>st. rental_billing_state_name st = n) rental_billing_all_states"

definition rentalBillingRowToSnapshot ::
  "'a rental_billing_row_scheme \<Rightarrow> rental_billing_snapshot option" where
  "rentalBillingRowToSnapshot row =
     map_option (\<lambda>st. \<lparr>state = st,
       state_version = row_state_version row,
       approved_at = coalesce (row_approved_at row) Null,
       approved_by = coalesce (row_approved_by row) Null,
       posted_at = coalesce (row_posted_at row) Null,
       failed_at = coalesce (row_failed_at row) Null,
       error = coalesce (row_error row) Null,
       qbo_invoice_id = coalesce (row_qbo_invoice_id row) Null\<rparr>)
     (rental_billing_state_of_name (row_status row))"

text \<open>The columns a snapshot is written back to.\<close>

definition rental_billing_row_of :: "rental_billing_snapshot \<Rightarrow> rental_billing_row" where
  "rental_billing_row_of s = \<lparr>row_status = rental_billing_state_name (state s),
     row_state_version = state_version s, row_approved_at = approved_at s,
     row_approved_by = approved_by s, row_posted_at = posted_at s, row_failed_at = failed_at s,
     row_error = error s, row_qbo_invoice_id = qbo_invoice_id s\<rparr>"

lemma rental_billing_state_of_name_name [simp]:
  "rental_billing_state_of_name (rental_billing_state_name st) = Some st"
  by (cases st) (simp_all add: rental_billing_state_of_name_def rental_billing_all_states_def)

lemma rental_billing_row_denote:
  "rentalBillingRowToSnapshot (rental_billing_row_of s) = Some t \<Longrightarrow>
   snapshotsEqual (rental_billing_snapshot_js t) (rental_billing_snapshot_js s)"
proof -
  have null: "denote (field_js JStr (coalesce f Null)) = denote (field_js JStr f)" for f
    by (cases f) auto
  assume "rentalBillingRowToSnapshot (rental_billing_row_of s) = Some t"
  then show ?thesis
    by (auto simp: rentalBillingRowToSnapshot_def rental_billing_row_of_def
        rental_billing_snapshot_js_def snapshotsEqual_iff_denote null)
qed

section \<open>Billing runs never disagree with their stamps\<close>

fun_cases rental_billing_step: "transitionRentalBillingWorkflow s e = Inr s'"

definition rental_billing_fresh :: "rental_billing_snapshot \<Rightarrow> bool" where
  "rental_billing_fresh s \<longleftrightarrow> state s = Generated \<and> \<not> present (posted_at s) \<and>
     \<not> present (failed_at s) \<and> \<not> present (error s) \<and> \<not> present (qbo_invoice_id s)"

definition rental_billing_inv :: "rental_billing_snapshot \<Rightarrow> bool" where
  "rental_billing_inv s \<longleftrightarrow>
     (present (qbo_invoice_id s) \<longleftrightarrow> state s = Posted) \<and>
     (present (posted_at s) \<longleftrightarrow> state s = Posted) \<and>
     (present (error s) \<longleftrightarrow> present (failed_at s)) \<and>
     (state s = Failed \<longrightarrow> present (error s)) \<and>
     (present (error s) \<longrightarrow> state s \<in> {Failed, Voided}) \<and>
     (state s \<in> {Approved, Posting, Posted, Failed} \<longrightarrow>
        present (approved_at s) \<and> present (approved_by s))"

lemma rental_billing_inv_step:
  "rental_billing_inv s \<Longrightarrow> transitionRentalBillingWorkflow s e = Inr s' \<Longrightarrow> rental_billing_inv s'"
  by (cases e) (auto simp: rental_billing_inv_def rental_billing_defs)

text \<open>
  In every snapshot a billing run can reach from a freshly generated one,
  the QuickBooks invoice id and \<open>posted_at\<close> are set exactly in state \<open>posted\<close>, an error and
  its timestamp go together, are set in \<open>failed\<close> and survive only into \<open>voided\<close>, and every
  state past approval carries who approved it and when.
\<close>

lemma rental_billing_consistent:
  assumes "rental_billing_fresh s0" and "reachable transitionRentalBillingWorkflow s0 s"
  shows "rental_billing_inv s"
  using assms(2)
proof (rule reachable_invariant)
  show "rental_billing_inv s0"
    using assms(1) by (simp add: rental_billing_fresh_def rental_billing_inv_def)
qed (rule rental_billing_inv_step)

definition rental_billing_example :: rental_billing_snapshot where
  "rental_billing_example = \<lparr>state = Generated, state_version = 1, approved_at = Null,
     approved_by = Null, posted_at = Null, failed_at = Null, error = Null, qbo_invoice_id = Null\<rparr>"

definition rental_billing_example_run :: "rental_billing_event list" where
  "rental_billing_example_run = [APPROVE ''t1'' ''ann'', POST_REQUESTED, POST_FAILED ''t2'' ''qbo down'',
     RETRY_POST, POST_REQUESTED, POST_SUCCEEDED ''t3'' ''inv-9'']"

lemma rental_billing_example_run_ok:
  "run_events transitionRentalBillingWorkflow rental_billing_example rental_billing_example_run =
   Inr \<lparr>state = Posted, state_version = 7, approved_at = Val ''t1'', approved_by = Val ''ann'',
     posted_at = Val ''t3'', failed_at = Null, error = Null, qbo_invoice_id = Val ''inv-9''\<rparr>"
  by (simp add: rental_billing_example_def rental_billing_example_run_def
      assertRentalBillingTransition_def wf_simps)

text \<open>
  C28: The reducer accepts \<open>POST_SUCCEEDED\<close> at most once, and then nothing more: the run is left
  posted with the invoice of that one event, whatever failures, retries and cancellations came before.  Of how often
  the worker pushes it says nothing: a retry pushes again.
\<close>

theorem rental_billing_success_ends_run:
  assumes "run_events transitionRentalBillingWorkflow s (es @ POST_SUCCEEDED at inv_id # fs) = Inr t"
  shows "fs = [] \<and> (\<forall>e \<in> set es. rental_billing_event_type e \<noteq> ''POST_SUCCEEDED'') \<and>
    state t = Posted \<and> qbo_invoice_id t = Val inv_id \<and> posted_at t = Val at"
proof -
  have last: "fs = []" if run: "run_events transitionRentalBillingWorkflow s
      (es @ POST_SUCCEEDED at inv_id # fs) = Inr t" for es at inv_id fs
  proof -
    have "run_events transitionRentalBillingWorkflow s ((es @ [POST_SUCCEEDED at inv_id]) @ fs) = Inr t"
      using run by simp
    then obtain u where u: "run_events transitionRentalBillingWorkflow s
        (es @ [POST_SUCCEEDED at inv_id]) = Inr u"
      by (auto simp only: run_events_append split: sum.splits)
    then have "state u \<in> set (terminalStates rentalBillingWorkflow)"
      by (auto simp: run_events_snoc_Inr rental_billing_defs)
    with rental_billing_wf.terminal_ends_run [of s "es @ [POST_SUCCEEDED at inv_id]" fs t u] u run
    show ?thesis by (simp add: rentalBillingWorkflow_def)
  qed
  moreover have "rental_billing_event_type e \<noteq> ''POST_SUCCEEDED''" if "e \<in> set es" for e
  proof
    assume "rental_billing_event_type e = ''POST_SUCCEEDED''"
    then obtain at' inv' where "e = POST_SUCCEEDED at' inv'" by (cases e) auto
    with \<open>e \<in> set es\<close> obtain xs ys where "es = xs @ POST_SUCCEEDED at' inv' # ys"
      by (auto simp: in_set_conv_decomp)
    with assms last [of xs at' inv' "ys @ POST_SUCCEEDED at inv_id # fs"] show False by simp
  qed
  moreover have "state t = Posted \<and> qbo_invoice_id t = Val inv_id \<and> posted_at t = Val at"
    using assms last [OF assms] by (auto simp: run_events_snoc_Inr rental_billing_defs)
  ultimately show ?thesis using assms by blast
qed

theorem rental_billing_success_ends_run_witness:
  "\<exists>es fs t. rental_billing_example_run = es @ POST_SUCCEEDED ''t3'' ''inv-9'' # fs \<and> qbo_invoice_id t = Val ''inv-9'' \<and>
     run_events transitionRentalBillingWorkflow rental_billing_example rental_billing_example_run = Inr t \<and>
     fs = [] \<and> (\<forall>e \<in> set es. rental_billing_event_type e \<noteq> ''POST_SUCCEEDED'')"
proof -
  let ?es = "[APPROVE ''t1'' ''ann'', POST_REQUESTED, POST_FAILED ''t2'' ''qbo down'',
     RETRY_POST, POST_REQUESTED]"
  have run: "run_events transitionRentalBillingWorkflow rental_billing_example
      (?es @ POST_SUCCEEDED ''t3'' ''inv-9'' # []) = Inr \<lparr>state = Posted, state_version = 7,
       approved_at = Val ''t1'', approved_by = Val ''ann'', posted_at = Val ''t3'',
       failed_at = Null, error = Null, qbo_invoice_id = Val ''inv-9''\<rparr>"
    using rental_billing_example_run_ok by (simp add: rental_billing_example_run_def)
  from rental_billing_success_ends_run [OF run] run show ?thesis
    unfolding rental_billing_example_run_def by force
qed

text \<open>
  While a push is live (state \<open>posting\<close>) the only events accepted are the
  worker's two outcomes and the operator's \<open>CANCEL_POST\<close>; in particular a live push cannot be
  voided.  After a cancel, a late success from the worker is refused, and the run is in
  \<open>failed\<close>, from where it can be retried or voided.
\<close>

lemma rental_billing_live_push:
  assumes "state s = Posting"
  shows "(is_ok (transitionRentalBillingWorkflow s e) \<longleftrightarrow>
      (\<exists>a b. e = POST_SUCCEEDED a b \<or> e = POST_FAILED a b \<or> e = CANCEL_POST a b)) \<and>
    (\<exists>s'. transitionRentalBillingWorkflow s (CANCEL_POST at reason) = Inr s' \<and>
      state s' = Failed \<and> error s' = Val reason \<and>
      \<not> is_ok (transitionRentalBillingWorkflow s' (POST_SUCCEEDED late_at inv_id)) \<and>
      is_ok (transitionRentalBillingWorkflow s' RETRY_POST) \<and>
      is_ok (transitionRentalBillingWorkflow s' VOID))"
proof -
  have "is_ok (transitionRentalBillingWorkflow s e) \<longleftrightarrow>
      (\<exists>a b. e = POST_SUCCEEDED a b \<or> e = POST_FAILED a b \<or> e = CANCEL_POST a b)"
    using assms by (cases e) (auto simp: rental_billing_defs)
  then show ?thesis using assms by (simp add: rental_billing_defs)
qed

end
