(* ===== verification/Billing_Route.thy ===== *)
theory Billing_Route
  imports Dispatch Rental_Billing
begin

text \<open>
  The rental billing route (\<open>apps/api/src/routes/rental-billing-state.ts\<close>, the exemplar of
  \<open>workflow-dispatch.ts\<close>): its table, the load and update callbacks, the mutation ledger
  (\<open>recordMutationLedger\<close>, \<open>recordSyncEvent\<close>, \<open>recordMutationOutbox\<close> of
  \<open>apps/api/src/mutation-tx.ts\<close>) and the replies.  It provides the interface \<open>workflow_store\<close>.

  Time: \<open>iso_now\<close> is \<open>new Date().toISOString()\<close> in the handler, \<open>db_now\<close> the database's
  \<open>now()\<close>, in seconds.  Row level security and the audit table that \<open>recordSyncEvent\<close> also
  writes (best effort, errors swallowed) are left out.
\<close>

section \<open>Tables\<close>

record clock =
  iso_now :: string
  db_now :: int

text \<open>A row of \<open>rental_billing_runs\<close>: the transition columns and the others.\<close>

record billing_run_row = rental_billing_row +
  br_id :: string
  br_company_id :: string
  br_contract_id :: string
  br_project_id :: string
  br_customer_id :: "string field"
  br_period_start :: string
  br_period_end :: string
  br_subtotal :: string
  br_workflow_engine :: string
  br_workflow_run_id :: "string field"
  br_version :: int
  br_deleted_at :: "string field"
  br_created_at :: int
  br_updated_at :: int

record outbox_row =
  ob_company_id :: string
  ob_device_id :: string
  ob_actor_user_id :: "string field"
  ob_entity_type :: string
  ob_entity_id :: string
  ob_mutation_type :: string
  ob_payload :: js
  ob_idempotency_key :: string
  ob_status :: string
  ob_attempt_count :: int
  ob_next_attempt_at :: int
  ob_error :: "string field"
  ob_applied_at :: "int field"
  ob_created_at :: int
  ob_trace :: trace_context

record sync_event_row =
  sy_company_id :: string
  sy_integration_connection_id :: "string field"
  sy_direction :: string
  sy_entity_type :: string
  sy_entity_id :: string
  sy_payload :: js
  sy_status :: string
  sy_trace :: trace_context
  sy_error :: "string field"

text \<open>Rows of \<open>rental_billing_runs\<close> by primary key, and the lines of each run.\<close>

record billing_db = "rental_billing_event log_db" +
  runs :: "string \<Rightarrow> billing_run_row option"
  run_lines :: "string \<Rightarrow> js list"
  outbox :: "outbox_row list"
  sync_events :: "sync_event_row list"

section \<open>The mutation ledger\<close>

definition recordSyncEvent ::
  "trace_context \<Rightarrow> string \<Rightarrow> string \<Rightarrow> string \<Rightarrow> js \<Rightarrow> string field \<Rightarrow> string option \<Rightarrow> string field \<Rightarrow>
   sync_event_row list \<Rightarrow> sync_event_row list" where
  "recordSyncEvent tc companyId entityType entityId payload connectionId status err table =
     table @ [\<lparr>sy_company_id = companyId, sy_integration_connection_id = connectionId,
       sy_direction = ''local'', sy_entity_type = entityType, sy_entity_id = entityId,
       sy_payload = payload,
       sy_status = (case status of None \<Rightarrow> ''pending'' | Some st \<Rightarrow> st),
       sy_trace = tc, sy_error = coalesce err Null\<rparr>]"

text \<open>
  \<open>insert into mutation_outbox ... on conflict (company_id, idempotency_key) do update\<close>: a
  conflicting row is reset to \<open>pending\<close> with the new payload and its attempt counter raised.
\<close>

definition outbox_conflict :: "string \<Rightarrow> string \<Rightarrow> outbox_row \<Rightarrow> bool" where
  "outbox_conflict companyId key row \<longleftrightarrow> ob_company_id row = companyId \<and> ob_idempotency_key row = key"

definition recordMutationOutbox ::
  "trace_context \<Rightarrow> int \<Rightarrow> string \<Rightarrow> string \<Rightarrow> string \<Rightarrow> string \<Rightarrow> js \<Rightarrow> string \<Rightarrow> string \<Rightarrow>
   string field \<Rightarrow> outbox_row list \<Rightarrow> outbox_row list" where
  "recordMutationOutbox tc now companyId entityType entityId mutationType payload key deviceId actor table =
     (if list_ex (outbox_conflict companyId key) table
      then map (\<lambda>row. if outbox_conflict companyId key row
          then row\<lparr>ob_payload := payload, ob_status := ''pending'',
            ob_attempt_count := ob_attempt_count row + 1, ob_next_attempt_at := now,
            ob_trace := tc\<rparr>
          else row) table
      else table @ [\<lparr>ob_company_id = companyId, ob_device_id = deviceId, ob_actor_user_id = actor,
        ob_entity_type = entityType, ob_entity_id = entityId, ob_mutation_type = mutationType,
        ob_payload = payload, ob_idempotency_key = key, ob_status = ''pending'',
        ob_attempt_count = 0, ob_next_attempt_at = now, ob_error = Null, ob_applied_at = Null,
        ob_created_at = now, ob_trace = tc\<rparr>])"

record ledger_args =
  la_companyId :: string
  la_entityType :: string
  la_entityId :: string
  la_action :: string
  la_row :: "js option"
  la_syncPayload :: "js option"
  la_outboxPayload :: "js option"
  la_mutationType :: "string option"
  la_idempotencyKey :: "string option"
  la_integrationConnectionId :: "string field"
  la_deviceId :: "string option"
  la_actorUserId :: "string field"
  la_syncStatus :: "string option"
  la_syncError :: "string field"

fun or_else :: "'a option \<Rightarrow> 'a \<Rightarrow> 'a" where
  "or_else (Some x) _ = x"
| "or_else None d = d"

definition recordMutationLedger :: "trace_context \<Rightarrow> int \<Rightarrow> ledger_args \<Rightarrow> billing_db \<Rightarrow> billing_db" where
  "recordMutationLedger tc now args db =
     (let syncPayload = or_else (la_syncPayload args)
            (JObj ((''action'', JStr (la_action args)) #
               (case la_row args of None \<Rightarrow> [] | Some row \<Rightarrow> [(la_entityType args, row)])));
          outboxPayload = or_else (la_outboxPayload args) (or_else (la_row args) syncPayload);
          mutationType = or_else (la_mutationType args) (la_action args);
          idempotencyKey = or_else (la_idempotencyKey args)
            (la_entityType args @ '':'' @ la_action args @ '':'' @ la_entityId args)
      in db\<lparr>
        sync_events := recordSyncEvent tc (la_companyId args) (la_entityType args) (la_entityId args)
          syncPayload (coalesce (la_integrationConnectionId args) Null) (la_syncStatus args)
          (la_syncError args) (sync_events db),
        outbox := recordMutationOutbox tc now (la_companyId args) (la_entityType args)
          (la_entityId args) mutationType outboxPayload idempotencyKey
          (or_else (la_deviceId args) ''server'') (coalesce (la_actorUserId args) Null) (outbox db)\<rparr>)"

section \<open>The event request\<close>

record billing_request =
  rq_companyId :: string
  rq_runId :: string
  rq_eventType :: string
  rq_stateVersion :: int
  rq_userId :: string
  rq_clock :: clock
  rq_trace :: trace_context

definition buildReducerEvent :: "string \<Rightarrow> string \<Rightarrow> string \<Rightarrow> rental_billing_event" where
  "buildReducerEvent eventType actorUserId nowIso =
     (if eventType = ''APPROVE'' then APPROVE nowIso actorUserId
      else if eventType = ''POST_REQUESTED'' then POST_REQUESTED
      else if eventType = ''RETRY_POST'' then RETRY_POST
      else if eventType = ''CANCEL_POST'' then CANCEL_POST nowIso (''Push canceled by '' @ actorUserId)
      else VOID)"

definition load_run ::
  "string \<Rightarrow> string \<Rightarrow> billing_db \<Rightarrow> (billing_run_row \<times> rental_billing_snapshot) option" where
  "load_run companyId runId db =
     (case runs db runId of
        None \<Rightarrow> None
      | Some row \<Rightarrow>
          if br_company_id row = companyId \<and> \<not> present (br_deleted_at row)
          then map_option (\<lambda>s. (row, s)) (rentalBillingRowToSnapshot row) else None)"

text \<open>The update's \<open>set\<close> clause.\<close>

definition set_columns :: "clock \<Rightarrow> rental_billing_snapshot \<Rightarrow> billing_run_row \<Rightarrow> billing_run_row" where
  "set_columns now s row = row\<lparr>
     row_status := rental_billing_state_name (state s),
     row_state_version := state_version s,
     row_approved_at := coalesce (approved_at s) Null,
     row_approved_by := coalesce (approved_by s) Null,
     row_posted_at := coalesce (posted_at s) Null,
     row_failed_at := coalesce (failed_at s) Null,
     row_error := coalesce (error s) Null,
     row_qbo_invoice_id := coalesce (qbo_invoice_id s) Null,
     br_version := br_version row + 1,
     br_updated_at := db_now now\<rparr>"

definition update_run ::
  "string \<Rightarrow> string \<Rightarrow> clock \<Rightarrow> billing_db \<Rightarrow> rental_billing_snapshot \<Rightarrow> billing_run_row \<Rightarrow>
   (billing_run_row \<times> billing_db) result" where
  "update_run companyId runId now db s prev =
     (case runs db runId of
        Some row \<Rightarrow>
          if br_company_id row = companyId
          then (let updated = set_columns now s row
                in Inr (updated, db\<lparr>runs := (runs db)(runId \<mapsto> updated)\<rparr>))
          else Inl (HttpError 500 ''rental billing run update returned no row'')
      | None \<Rightarrow> Inl (HttpError 500 ''rental billing run update returned no row''))"

definition run_row_js :: "billing_run_row \<Rightarrow> js" where
  "run_row_js row = JObj [
     (''id'', JStr (br_id row)),
     (''company_id'', JStr (br_company_id row)),
     (''contract_id'', JStr (br_contract_id row)),
     (''project_id'', JStr (br_project_id row)),
     (''customer_id'', field_js JStr (br_customer_id row)),
     (''period_start'', JStr (br_period_start row)),
     (''period_end'', JStr (br_period_end row)),
     (''status'', JStr (row_status row)),
     (''state_version'', JNum (row_state_version row)),
     (''subtotal'', JStr (br_subtotal row)),
     (''qbo_invoice_id'', field_js JStr (row_qbo_invoice_id row)),
     (''approved_at'', field_js JStr (row_approved_at row)),
     (''approved_by'', field_js JStr (row_approved_by row)),
     (''posted_at'', field_js JStr (row_posted_at row)),
     (''failed_at'', field_js JStr (row_failed_at row)),
     (''error'', field_js JStr (row_error row)),
     (''workflow_engine'', JStr (br_workflow_engine row)),
     (''workflow_run_id'', field_js JStr (br_workflow_run_id row)),
     (''version'', JNum (br_version row)),
     (''deleted_at'', field_js JStr (br_deleted_at row)),
     (''created_at'', JNum (br_created_at row)),
     (''updated_at'', JNum (br_updated_at row))]"

definition invoice_payload :: "billing_run_row \<Rightarrow> js list \<Rightarrow> js" where
  "invoice_payload row lines = JObj [
     (''billing_run_id'', JStr (br_id row)),
     (''contract_id'', JStr (br_contract_id row)),
     (''project_id'', JStr (br_project_id row)),
     (''customer_id'', field_js JStr (br_customer_id row)),
     (''period_start'', JStr (br_period_start row)),
     (''period_end'', JStr (br_period_end row)),
     (''subtotal'', JStr (br_subtotal row)),
     (''lines'', JArr lines)]"

definition billing_ledger :: "billing_request \<Rightarrow> billing_run_row \<Rightarrow> ledger_args" where
  "billing_ledger rq row = \<lparr>la_companyId = rq_companyId rq, la_entityType = ''rental_billing_run'',
     la_entityId = br_id row, la_action = ''event:'' @ to_lower (rq_eventType rq),
     la_row = Some (run_row_js row), la_syncPayload = None, la_outboxPayload = None,
     la_mutationType = None,
     la_idempotencyKey = Some (''rental_billing_run:event:'' @ br_id row @ '':'' @
       show_int (row_state_version row)),
     la_integrationConnectionId = Undefined, la_deviceId = None, la_actorUserId = Undefined,
     la_syncStatus = None, la_syncError = Undefined\<rparr>"

definition post_ledger :: "billing_request \<Rightarrow> billing_run_row \<Rightarrow> js list \<Rightarrow> ledger_args" where
  "post_ledger rq row lines = \<lparr>la_companyId = rq_companyId rq,
     la_entityType = ''rental_billing_run'', la_entityId = br_id row,
     la_action = ''post_qbo_invoice'', la_row = Some (run_row_js row), la_syncPayload = None,
     la_outboxPayload = Some (invoice_payload row lines),
     la_mutationType = Some ''post_qbo_invoice'',
     la_idempotencyKey = Some (''rental_billing_run:post:'' @ br_id row),
     la_integrationConnectionId = Undefined, la_deviceId = None, la_actorUserId = Undefined,
     la_syncStatus = None, la_syncError = Undefined\<rparr>"

text \<open>
  The \<open>sideEffects\<close> callback.  The handler captured \<open>lines\<close> in \<open>persist\<close>, from the same
  transaction, so they are the run's lines.
\<close>

definition billing_side_effects ::
  "billing_request \<Rightarrow> billing_db \<Rightarrow> rental_billing_snapshot \<Rightarrow> billing_run_row \<Rightarrow>
   rental_billing_event \<Rightarrow> billing_db result" where
  "billing_side_effects rq db next_snap updated event =
     (let now = db_now (rq_clock rq);
          db1 = recordMutationLedger (rq_trace rq) now (billing_ledger rq updated) db
      in Inr (if rq_eventType rq = ''POST_REQUESTED''
        then recordMutationLedger (rq_trace rq) now
          (post_ledger rq updated (run_lines db1 (rq_runId rq))) db1
        else db1))"

definition billing_options ::
  "billing_request \<Rightarrow> (rental_billing_state, rental_billing_event, _, billing_run_row, billing_db)
   dispatch_options" where
  "billing_options rq = \<lparr>
     dp_definition = rentalBillingWorkflow,
     dp_companyId = rq_companyId rq,
     dp_entityType = ''rental_billing_run'',
     dp_entityId = rq_runId rq,
     dp_expectedStateVersion = rq_stateVersion rq,
     dp_actorUserId = Val (rq_userId rq),
     loadSnapshot = load_run (rq_companyId rq) (rq_runId rq),
     buildEvent = (\<lambda>_. buildReducerEvent (rq_eventType rq) (rq_userId rq) (iso_now (rq_clock rq))),
     persist = update_run (rq_companyId rq) (rq_runId rq) (rq_clock rq),
     sideEffects = Some (billing_side_effects rq)\<rparr>"

section \<open>The replies\<close>

datatype billing_reply =
    Error_reply int string
  | Conflict_reply int string billing_run_row
  | Snapshot_reply int billing_run_row "js list"

definition dispatch_billing ::
  "billing_request \<Rightarrow> billing_db \<Rightarrow>
   ((billing_run_row, rental_billing_snapshot) dispatch_result \<times> billing_db) result" where
  "dispatch_billing rq =
     dispatchWorkflowEvent rental_billing_event_type rental_billing_snapshot_js (rq_trace rq)
       (billing_options rq)"

definition reply_of ::
  "billing_request \<Rightarrow> billing_db \<Rightarrow> (billing_run_row, rental_billing_snapshot) dispatch_result result \<Rightarrow>
   billing_reply" where
  "reply_of rq db r = (case r of
     Inl err \<Rightarrow> Error_reply 500 (err_message err)
   | Inr Not_found \<Rightarrow> Error_reply 404 ''rental billing run not found''
   | Inr (Version_conflict row s) \<Rightarrow>
       Conflict_reply 409 (''state_version mismatch '' @ em_dash @ '' reload and retry'') row
   | Inr (Illegal_transition row s message) \<Rightarrow> Conflict_reply 409 message row
   | Inr (Ok row s) \<Rightarrow> Snapshot_reply 200 row (run_lines db (rq_runId rq)))"

text \<open>
  \<open>POST /api/rental-billing-runs/:id/events\<close> after the role check and the parse of the body;
  the audit and metrics calls after an applied event are left out.
\<close>

definition handle_billing_event :: "billing_request \<Rightarrow> billing_db \<Rightarrow> billing_reply \<times> billing_db" where
  "handle_billing_event rq db =
     (let (r, db') = withMutationTx (dispatch_billing rq) db in (reply_of rq db' r, db'))"

section \<open>The route provides the interface\<close>

text \<open>What nullable columns can hold.\<close>

definition not_undefined :: "'a field \<Rightarrow> bool" where
  "not_undefined f \<longleftrightarrow> f \<noteq> Undefined"

definition rental_billing_normal :: "rental_billing_snapshot \<Rightarrow> bool" where
  "rental_billing_normal s \<longleftrightarrow> not_undefined (approved_at s) \<and> not_undefined (approved_by s) \<and>
     not_undefined (posted_at s) \<and> not_undefined (failed_at s) \<and> not_undefined (error s) \<and>
     not_undefined (qbo_invoice_id s)"

lemma not_undefined_simps [simp]:
  "not_undefined Null" "not_undefined (Val x)" "not_undefined (coalesce f Null)"
  by (cases f; simp add: not_undefined_def)+

lemma coalesce_normal [simp]: "not_undefined f \<Longrightarrow> coalesce f Null = f"
  by (cases f) (simp_all add: not_undefined_def)

lemma load_run_Some:
  "load_run companyId runId db = Some (row, s) \<longleftrightarrow>
   runs db runId = Some row \<and> br_company_id row = companyId \<and> \<not> present (br_deleted_at row) \<and>
   rentalBillingRowToSnapshot row = Some s"
  by (auto simp: load_run_def split: option.splits if_splits)

lemma row_of_set_columns [simp]:
  "br_company_id (set_columns now s row) = br_company_id row"
  "br_deleted_at (set_columns now s row) = br_deleted_at row"
  "br_id (set_columns now s row) = br_id row"
  by (simp_all add: set_columns_def)

lemma rentalBillingRowToSnapshot_set_columns:
  "rental_billing_normal s \<Longrightarrow> rentalBillingRowToSnapshot (set_columns now s row) = Some s"
  by (simp add: rentalBillingRowToSnapshot_def set_columns_def rental_billing_normal_def)

lemma rental_billing_normal_step:
  "rental_billing_normal s \<Longrightarrow> transitionRentalBillingWorkflow s e = Inr s' \<Longrightarrow> rental_billing_normal s'"
  by (cases e) (auto simp: rental_billing_normal_def rental_billing_defs)

lemma update_run_loaded:
  assumes "load_run companyId runId db = Some (row, s)" and "rental_billing_normal s'"
  shows "update_run companyId runId now db s' prev =
      Inr (set_columns now s' row, db\<lparr>runs := (runs db)(runId \<mapsto> set_columns now s' row)\<rparr>)"
    and "load_run companyId runId (db\<lparr>runs := (runs db)(runId \<mapsto> set_columns now s' row)\<rparr>) =
      Some (set_columns now s' row, s')"
  using assms by (auto simp: load_run_Some update_run_def Let_def rentalBillingRowToSnapshot_set_columns)

interpretation billing_store: workflow_store rentalBillingWorkflow
  "load_run companyId runId" "update_run companyId runId" rental_billing_normal
  for companyId runId
proof
  fix db :: billing_db and row row' s s' e now db' log
  show "rental_billing_normal s" if "load_run companyId runId db = Some (row, s)"
    using that by (auto simp: load_run_Some rentalBillingRowToSnapshot_def rental_billing_normal_def)
  show "rental_billing_normal s'"
    if "rental_billing_normal s" "reduce rentalBillingWorkflow s e = Inr s'"
    using that rental_billing_normal_step by (simp add: rentalBillingWorkflow_def)
  show "load_run companyId runId db' = Some (row', s')"
    if "load_run companyId runId db = Some (row, s)" "rental_billing_normal s'"
      "update_run companyId runId now db s' row = Inr (row', db')"
    using that update_run_loaded by auto
  show "event_log db' = event_log db" if "update_run companyId runId now db s' row = Inr (row', db')"
    using that by (auto simp: update_run_def Let_def split: option.splits if_splits)
  show "load_run companyId runId (db\<lparr>event_log := log\<rparr>) = load_run companyId runId db"
    by (simp add: load_run_def)
qed

lemma recordMutationLedger_frame [simp]:
  "runs (recordMutationLedger tc now args db) = runs db"
  "event_log (recordMutationLedger tc now args db) = event_log db"
  "run_lines (recordMutationLedger tc now args db) = run_lines db"
  by (simp_all add: recordMutationLedger_def Let_def)

lemma billing_serves:
  assumes "rq_companyId rq = companyId" and "rq_runId rq = runId"
  shows "billing_store.serves companyId runId runId (billing_options rq)"
  using assms by (auto simp: billing_store.serves_def billing_store.framed_def billing_options_def
      billing_side_effects_def load_run_def Let_def)

end
