(* ===== verification/Billing_Worker.thy ===== *)
theory Billing_Worker
  imports Billing_Route
begin

text \<open>
  The QuickBooks push of rental billing runs (\<open>packages/queue/src/pushers/rental-billing-invoice.ts\<close>):
  the claim of outbox rows, the per-row transaction with its recovery path, and
  \<open>applyWorkerEmittedEvent\<close>, which routes the outcome through the reducer of \<open>Rental_Billing\<close>.

  The push function is a parameter: it is given the claimed row and the state \<open>'q\<close> of QuickBooks
  and returns the invoice id or throws, with the new state.  Outbox rows are identified by their
  unique key \<open>(company_id, idempotency_key)\<close> where the code uses the generated \<open>id\<close>.  A database
  statement does not fail in this model, so the only exceptions of a row's transaction are the
  push's and the reducer's.  Strings are cut at 1000 characters as \<open>slice(0, 1000)\<close> does for ASCII.
\<close>

section \<open>Applying an outcome\<close>

datatype push_outcome = Succeeded string | Push_failed string

definition outcome_event :: "string \<Rightarrow> push_outcome \<Rightarrow> rental_billing_event" where
  "outcome_event nowIso outcome = (case outcome of
     Succeeded inv_id \<Rightarrow> POST_SUCCEEDED nowIso inv_id
   | Push_failed err \<Rightarrow> POST_FAILED nowIso (take 1000 err))"

definition worker_event_args ::
  "string \<Rightarrow> string \<Rightarrow> int \<Rightarrow> rental_billing_event \<Rightarrow> rental_billing_snapshot \<Rightarrow>
   rental_billing_event event_args" where
  "worker_event_args companyId runId beforeVersion event next_snap = \<lparr>
     ea_companyId = companyId,
     ea_workflowName = wf_name rentalBillingWorkflow,
     ea_schemaVersion = schemaVersion rentalBillingWorkflow,
     ea_entityType = ''rental_billing_run'',
     ea_entityId = runId,
     ea_stateVersion = beforeVersion,
     ea_eventType = rental_billing_event_type event,
     ea_eventPayload = event,
     ea_snapshotAfter = rental_billing_snapshot_js next_snap,
     ea_actorUserId = Undefined\<rparr>"

definition applyWorkerEmittedEvent ::
  "string \<Rightarrow> string \<Rightarrow> push_outcome \<Rightarrow> trace_context option \<Rightarrow> clock \<Rightarrow> billing_db \<Rightarrow>
   (billing_run_row option \<times> billing_db) result" where
  "applyWorkerEmittedEvent companyId runId outcome trace now db =
     (case load_run companyId runId db of
        None \<Rightarrow> Inr (None, db)
      | Some (current, snapshot) \<Rightarrow>
          if row_status current \<noteq> ''posting'' then Inr (Some current, db)
          else (let beforeVersion = row_state_version current;
                    event = outcome_event (iso_now now) outcome
                in case transitionRentalBillingWorkflow snapshot event of
                  Inl err \<Rightarrow> Inl err
                | Inr nextSnapshot \<Rightarrow>
                    (case update_run companyId runId now db nextSnapshot current of
                       Inl err \<Rightarrow> Inr (None, db)
                     | Inr (row, db1) \<Rightarrow>
                         (case appendWorkflowEvent trace
                             (worker_event_args companyId runId beforeVersion event nextSnapshot)
                             (event_log db1) of
                            Inl err \<Rightarrow> Inl err
                          | Inr log \<Rightarrow> Inr (Some row, db1\<lparr>event_log := log\<rparr>)))))"

definition recordInvoicePushSyncEvent ::
  "string \<Rightarrow> string \<Rightarrow> js \<Rightarrow> billing_db \<Rightarrow> billing_db" where
  "recordInvoicePushSyncEvent companyId runId payload db = db\<lparr>sync_events := sync_events db @
     [\<lparr>sy_company_id = companyId, sy_integration_connection_id = Null, sy_direction = ''outbound'',
       sy_entity_type = ''rental_billing_run'', sy_entity_id = runId, sy_payload = payload,
       sy_status = ''applied'', sy_trace = no_trace, sy_error = Null\<rparr>]\<rparr>"

section \<open>Outbox rows\<close>

definition update_outbox_row ::
  "outbox_row \<Rightarrow> (outbox_row \<Rightarrow> outbox_row) \<Rightarrow> billing_db \<Rightarrow> billing_db" where
  "update_outbox_row claimed f db = db\<lparr>outbox := map (\<lambda>row.
     if outbox_conflict (ob_company_id claimed) (ob_idempotency_key claimed) row then f row else row)
     (outbox db)\<rparr>"

definition mark_applied :: "int \<Rightarrow> outbox_row \<Rightarrow> billing_db \<Rightarrow> billing_db" where
  "mark_applied now claimed = update_outbox_row claimed (\<lambda>row.
     row\<lparr>ob_status := ''applied'', ob_applied_at := Val now, ob_error := Null\<rparr>)"

definition mark_not_found :: "int \<Rightarrow> outbox_row \<Rightarrow> billing_db \<Rightarrow> billing_db" where
  "mark_not_found now claimed = update_outbox_row claimed (\<lambda>row.
     row\<lparr>ob_status := ''failed'', ob_error := Val ''rental_billing_run not found'',
         ob_applied_at := Val now\<rparr>)"

definition markOutboxRowFailedFresh :: "outbox_row \<Rightarrow> string \<Rightarrow> billing_db \<Rightarrow> billing_db" where
  "markOutboxRowFailedFresh claimed errorMessage = update_outbox_row claimed (\<lambda>row.
     row\<lparr>ob_status := ''failed'', ob_error := Val (take 1000 errorMessage)\<rparr>)"

text \<open>
  The claim: due rows of the lane, oldest first, at most \<open>limit\<close>; they are leased for five
  minutes.  \<open>for update skip locked\<close> only matters between concurrent workers.
\<close>

definition claimable :: "string \<Rightarrow> int \<Rightarrow> outbox_row \<Rightarrow> bool" where
  "claimable companyId now row \<longleftrightarrow> ob_company_id row = companyId \<and>
     ob_entity_type row = ''rental_billing_run'' \<and> ob_mutation_type row = ''post_qbo_invoice'' \<and>
     ((ob_status row = ''pending'' \<and> ob_next_attempt_at row \<le> now) \<or>
      (ob_status row = ''processing'' \<and> ob_next_attempt_at row \<le> now))"

definition lease :: "int \<Rightarrow> outbox_row \<Rightarrow> outbox_row" where
  "lease now row = row\<lparr>ob_status := ''processing'', ob_attempt_count := ob_attempt_count row + 1,
     ob_next_attempt_at := now + 300, ob_error := Null\<rparr>"

definition claim_rows :: "string \<Rightarrow> int \<Rightarrow> nat \<Rightarrow> billing_db \<Rightarrow> outbox_row list \<times> billing_db" where
  "claim_rows companyId now limit db =
     (let picked = take limit (sort_key ob_next_attempt_at (sort_key ob_created_at
            (filter (claimable companyId now) (outbox db))))
      in (map (lease now) picked,
          db\<lparr>outbox := map (\<lambda>row. if row \<in> set picked then lease now row else row) (outbox db)\<rparr>))"

section \<open>One claimed row\<close>

datatype row_result = Row_posted | Row_failed | Row_skipped

text \<open>
  \<open>ob_payload\<close> and the trace of the claimed row are what the push is given.  \<open>truthy\<close> is the
  test of \<open>existingRow.qbo_invoice_id && ...\<close>: the empty string is falsy.
\<close>

fun truthy :: "string field \<Rightarrow> bool" where
  "truthy (Val s) = (s \<noteq> [])"
| "truthy _ = False"

type_synonym 'q push_fn = "outbox_row \<Rightarrow> 'q \<Rightarrow> string result \<times> 'q"

definition push_succeeded_payload :: "string \<Rightarrow> (string \<times> js) list \<Rightarrow> js" where
  "push_succeeded_payload external_id extra = JObj ([(''action'', JStr ''post_succeeded''),
     (''provider'', JStr ''qbo''), (''external_id'', JStr external_id)] @ extra)"

text \<open>The transaction of one row, up to its commit or throw.\<close>

definition row_tx ::
  "'q push_fn \<Rightarrow> clock \<Rightarrow> outbox_row \<Rightarrow> billing_db \<Rightarrow> 'q \<Rightarrow>
   (row_result \<times> billing_db) result \<times> 'q" where
  "row_tx push now claimed db q =
     (let companyId = ob_company_id claimed; runId = ob_entity_id claimed; trace = Some (ob_trace claimed)
      in case runs db runId of
        None \<Rightarrow> (Inr (Row_failed, mark_not_found (db_now now) claimed db), q)
      | Some existing \<Rightarrow>
          if br_company_id existing \<noteq> companyId \<or> present (br_deleted_at existing)
          then (Inr (Row_failed, mark_not_found (db_now now) claimed db), q)
          else if truthy (row_qbo_invoice_id existing) \<and> row_status existing = ''posting''
          then (let inv_id = value_or (row_qbo_invoice_id existing) ''''
                in (case applyWorkerEmittedEvent companyId runId (Succeeded inv_id) trace now db of
                      Inl err \<Rightarrow> Inl err
                    | Inr (_, db1) \<Rightarrow> Inr (Row_skipped, mark_applied (db_now now) claimed
                        (recordInvoicePushSyncEvent companyId runId (push_succeeded_payload inv_id
                          [(''idempotent_replay'', JBool True)]) db1)), q))
          else (case push claimed q of
              (Inl err, q') \<Rightarrow> (Inl err, q')
            | (Inr inv_id, q') \<Rightarrow>
                (case applyWorkerEmittedEvent companyId runId (Succeeded inv_id) trace now db of
                   Inl err \<Rightarrow> Inl err
                 | Inr (updated, db1) \<Rightarrow> Inr (Row_posted, mark_applied (db_now now) claimed
                     (recordInvoicePushSyncEvent companyId runId (push_succeeded_payload inv_id
                       [(''state_version'', case updated of None \<Rightarrow> JNull
                         | Some row \<Rightarrow> JNum (row_state_version row))]) db1)), q')))"

text \<open>The recovery after a throw: \<open>POST_FAILED\<close> in a transaction of its own, then the outbox row.\<close>

definition row_recovery :: "clock \<Rightarrow> outbox_row \<Rightarrow> string \<Rightarrow> billing_db \<Rightarrow> billing_db" where
  "row_recovery now claimed message db =
     (let companyId = ob_company_id claimed; runId = ob_entity_id claimed;
          db1 = (case applyWorkerEmittedEvent companyId runId (Push_failed message)
                    (Some (ob_trace claimed)) now db of
              Inl _ \<Rightarrow> db
            | Inr (_, db1) \<Rightarrow> recordInvoicePushSyncEvent companyId runId
                (JObj [(''action'', JStr ''post_failed''), (''provider'', JStr ''qbo''),
                  (''error'', JStr message)]) db1)
      in markOutboxRowFailedFresh claimed message db1)"

definition process_row ::
  "'q push_fn \<Rightarrow> clock \<Rightarrow> outbox_row \<Rightarrow> billing_db \<times> 'q \<Rightarrow> row_result \<times> billing_db \<times> 'q" where
  "process_row push now claimed w =
     (let (db, q) = w in
      case row_tx push now claimed db q of
        (Inr (r, db'), q') \<Rightarrow> (r, db', q')
      | (Inl err, q') \<Rightarrow> (Row_failed, row_recovery now claimed (err_message err) db, q'))"

fun process_rows ::
  "'q push_fn \<Rightarrow> clock \<Rightarrow> outbox_row list \<Rightarrow> billing_db \<times> 'q \<Rightarrow> row_result list \<times> billing_db \<times> 'q" where
  "process_rows push now [] w = ([], w)"
| "process_rows push now (claimed # rest) w =
     (let (r, w1) = process_row push now claimed w;
          (rs, w2) = process_rows push now rest w1
      in (r # rs, w2))"

record push_summary =
  processed :: nat
  posted :: nat
  failed :: nat
  skipped :: nat

definition count_result :: "row_result \<Rightarrow> row_result list \<Rightarrow> nat" where
  "count_result r rs = length (filter (\<lambda>x. x = r) rs)"

definition processRentalBillingInvoicePush ::
  "string \<Rightarrow> 'q push_fn \<Rightarrow> nat \<Rightarrow> clock \<Rightarrow> billing_db \<times> 'q \<Rightarrow> push_summary \<times> billing_db \<times> 'q" where
  "processRentalBillingInvoicePush companyId push limit now w =
     (let (claimed, db1) = claim_rows companyId (db_now now) limit (fst w);
          (rs, w') = process_rows push now claimed (db1, snd w)
      in (\<lparr>processed = length claimed, posted = count_result Row_posted rs,
           failed = count_result Row_failed rs, skipped = count_result Row_skipped rs\<rparr>, w'))"

section \<open>What a row's processing does to the run\<close>

lemma outbox_frame [simp]:
  "runs (update_outbox_row c f db) = runs db"
  "event_log (update_outbox_row c f db) = event_log db"
  "runs (mark_applied n c db) = runs db"
  "event_log (mark_applied n c db) = event_log db"
  "runs (mark_not_found n c db) = runs db"
  "event_log (mark_not_found n c db) = event_log db"
  "runs (markOutboxRowFailedFresh c m db) = runs db"
  "event_log (markOutboxRowFailedFresh c m db) = event_log db"
  "runs (recordInvoicePushSyncEvent co ru p db) = runs db"
  "event_log (recordInvoicePushSyncEvent co ru p db) = event_log db"
  by (simp_all add: update_outbox_row_def mark_applied_def mark_not_found_def
      markOutboxRowFailedFresh_def recordInvoicePushSyncEvent_def)

lemma load_run_frame:
  "runs db = runs db' \<Longrightarrow> load_run companyId runId db = load_run companyId runId db'"
  by (simp add: load_run_def)

lemma load_run_state:
  assumes "load_run companyId runId db = Some (row, s)"
  shows "row_status row = rental_billing_state_name (state s)"
    and "row_state_version row = state_version s" and "rental_billing_normal s"
    and "value_or (row_qbo_invoice_id row) d = value_or (qbo_invoice_id s) d"
    and "present (row_qbo_invoice_id row) \<longleftrightarrow> present (qbo_invoice_id s)"
proof -
  have conv: "rentalBillingRowToSnapshot row = Some s"
    using assms by (simp add: load_run_Some)
  then have "find (\<lambda>st. rental_billing_state_name st = row_status row) rental_billing_all_states =
      Some (state s)"
    by (auto simp: rentalBillingRowToSnapshot_def rental_billing_state_of_name_def)
  then show "row_status row = rental_billing_state_name (state s)"
    by (auto simp: find_Some_iff)
  show "row_state_version row = state_version s" "rental_billing_normal s"
      "present (row_qbo_invoice_id row) \<longleftrightarrow> present (qbo_invoice_id s)"
    using conv by (auto simp: rentalBillingRowToSnapshot_def rental_billing_normal_def)
  show "value_or (row_qbo_invoice_id row) d = value_or (qbo_invoice_id s) d"
    using conv by (cases "row_qbo_invoice_id row") (auto simp: rentalBillingRowToSnapshot_def)
qed

lemma status_posting_iff:
  "rental_billing_state_name st = ''posting'' \<longleftrightarrow> st = Posting"
  by (cases st) simp_all

text \<open>The snapshot an outcome leads to from \<open>posting\<close>.\<close>

definition outcome_snapshot ::
  "string \<Rightarrow> push_outcome \<Rightarrow> rental_billing_snapshot \<Rightarrow> rental_billing_snapshot" where
  "outcome_snapshot nowIso outcome s = (case outcome of
     Succeeded inv_id \<Rightarrow> s\<lparr>state := Posted, state_version := state_version s + 1,
       posted_at := Val nowIso, qbo_invoice_id := Val inv_id, error := Null, failed_at := Null\<rparr>
   | Push_failed err \<Rightarrow> s\<lparr>state := Failed, state_version := state_version s + 1,
       failed_at := Val nowIso, error := Val (take 1000 err)\<rparr>)"

lemma outcome_transition:
  "state s = Posting \<Longrightarrow>
   transitionRentalBillingWorkflow s (outcome_event nowIso outcome) = Inr (outcome_snapshot nowIso outcome s)"
  by (cases outcome) (simp_all add: outcome_event_def outcome_snapshot_def rental_billing_defs)

lemma outcome_snapshot_normal:
  "rental_billing_normal s \<Longrightarrow> rental_billing_normal (outcome_snapshot nowIso outcome s)"
  by (cases outcome) (simp_all add: outcome_snapshot_def rental_billing_normal_def)

lemma apply_not_posting:
  assumes "load_run companyId runId db = Some (row, s)" and "state s \<noteq> Posting"
  shows "applyWorkerEmittedEvent companyId runId outcome trace now db = Inr (Some row, db)"
  using assms load_run_state(1) [OF assms(1)]
  by (simp add: applyWorkerEmittedEvent_def status_posting_iff)

lemma apply_posting:
  assumes loaded: "load_run companyId runId db = Some (row, s)" and "state s = Posting"
    and fresh: "(runId, wf_name rentalBillingWorkflow, state_version s) \<notin> row_key ` set (event_log db)"
    and s'_def: "s' = outcome_snapshot (iso_now now) outcome s"
  obtains db' r where
    "applyWorkerEmittedEvent companyId runId outcome trace now db =
      Inr (Some (set_columns now s' row), db')"
    and "load_run companyId runId db' = Some (set_columns now s' row, s')"
    and "event_log db' = event_log db @ [r]"
    and "li_workflow_name r = wf_name rentalBillingWorkflow" and "li_entity_id r = runId"
    and "li_schema_version r = schemaVersion rentalBillingWorkflow"
    and "li_state_version r = state_version s"
    and "li_event_payload r = outcome_event (iso_now now) outcome"
    and "li_snapshot_after r = rental_billing_snapshot_js s'"
    and "\<And>other. other \<noteq> runId \<Longrightarrow> runs db' other = runs db other"
proof -
  let ?args = "worker_event_args companyId runId (state_version s)
    (outcome_event (iso_now now) outcome) s'"
  let ?db1 = "db\<lparr>runs := (runs db)(runId \<mapsto> set_columns now s' row)\<rparr>"
  let ?row = "event_log_row (traced_args ?args
    (case trace of None \<Rightarrow> no_trace | Some tc \<Rightarrow> tc))"
  have normal: "rental_billing_normal s'"
    unfolding s'_def by (rule outcome_snapshot_normal [OF load_run_state(3) [OF loaded]])
  have append: "appendWorkflowEvent trace ?args (event_log ?db1) = Inr (event_log db @ [?row])"
    using fresh by (subst appendWorkflowEvent_fresh) (simp_all add: worker_event_args_def)
  have applied: "applyWorkerEmittedEvent companyId runId outcome trace now db =
      Inr (Some (set_columns now s' row), ?db1\<lparr>event_log := event_log db @ [?row]\<rparr>)"
    using assms(2) load_run_state(1,2) [OF loaded] append
    by (simp add: applyWorkerEmittedEvent_def loaded outcome_transition s'_def [symmetric]
        update_run_loaded(1) [OF loaded normal] Let_def)
  show ?thesis
  proof (rule that [OF applied])
    show "load_run companyId runId (?db1\<lparr>event_log := event_log db @ [?row]\<rparr>) =
        Some (set_columns now s' row, s')"
      using update_run_loaded(2) [OF loaded normal] by (simp add: load_run_def)
      show "li_workflow_name ?row = wf_name rentalBillingWorkflow"
      by (simp add: worker_event_args_def)
  qed (simp_all add: worker_event_args_def)
qed

end
