(* ===== verification/Billing_Pipeline.thy ===== *)
theory Billing_Pipeline
  imports Billing_Worker
begin

text \<open>
  The two halves of rental billing together: human requests (\<open>Billing_Route\<close>) and the worker's
  processing of claimed outbox rows (\<open>Billing_Worker\<close>), in any order.  An action is one
  transaction of either side, and the invariant of \<open>Dispatch\<close>, that a run's event log records
  how its row came about, holds through all of them.
\<close>

section \<open>Actions\<close>

datatype 'q billing_action =
    Human billing_request
  | Worker "'q push_fn" clock outbox_row

fun billing_step :: "'q billing_action \<Rightarrow> billing_db \<times> 'q \<Rightarrow> billing_db \<times> 'q" where
  "billing_step (Human rq) (db, q) = (snd (handle_billing_event rq db), q)"
| "billing_step (Worker push now claimed) w = snd (process_row push now claimed w)"

fun billing_run :: "'q billing_action list \<Rightarrow> billing_db \<times> 'q \<Rightarrow> billing_db \<times> 'q" where
  "billing_run [] w = w"
| "billing_run (a # actions) w = billing_run actions (billing_step a w)"

text \<open>
  The run of one tenant under scrutiny.  An action about another run leaves it alone; an action
  about this run must be its own tenant's (the request context and the claim's \<open>company_id\<close>
  filter see to that).
\<close>

fun billing_action_ok :: "string \<Rightarrow> string \<Rightarrow> 'q billing_action \<Rightarrow> bool" where
  "billing_action_ok companyId runId (Human rq) \<longleftrightarrow> (rq_runId rq = runId \<and> rq_companyId rq = companyId)"
| "billing_action_ok companyId runId (Worker push now claimed) \<longleftrightarrow>
     (ob_entity_id claimed = runId \<and> ob_company_id claimed = companyId)"

abbreviation billing_logged ::
  "string \<Rightarrow> string \<Rightarrow> rental_billing_snapshot \<Rightarrow> billing_db \<Rightarrow> bool" where
  "billing_logged companyId runId s0 db \<equiv>
     billing_store.logged companyId runId runId rental_billing_snapshot_js s0 db"

section \<open>The log through the worker\<close>

lemma billing_logged_frame:
  assumes "runs db' = runs db" and "event_log db' = event_log db"
  shows "billing_logged companyId runId s0 db' \<longleftrightarrow> billing_logged companyId runId s0 db"
  using assms load_run_frame [of db' db] by (simp add: billing_store.logged_def)

lemma billing_logged_outbox [simp]:
  "billing_logged companyId runId s0 (mark_applied n c db) \<longleftrightarrow> billing_logged companyId runId s0 db"
  "billing_logged companyId runId s0 (mark_not_found n c db) \<longleftrightarrow> billing_logged companyId runId s0 db"
  "billing_logged companyId runId s0 (markOutboxRowFailedFresh c m db) \<longleftrightarrow>
     billing_logged companyId runId s0 db"
  "billing_logged companyId runId s0 (recordInvoicePushSyncEvent co ru pl db) \<longleftrightarrow>
     billing_logged companyId runId s0 db"
  by (rule billing_logged_frame; simp)+

lemma apply_logged:
  assumes "billing_logged companyId runId s0 db"
  obtains row db' where
    "applyWorkerEmittedEvent companyId runId outcome trace now db = Inr (row, db')"
    and "billing_logged companyId runId s0 db'"
proof (cases "load_run companyId runId db")
  case None
  with that assms show ?thesis by (simp add: applyWorkerEmittedEvent_def)
next
  case (Some p)
  obtain row s where loaded: "load_run companyId runId db = Some (row, s)"
    using Some by (cases p) simp
  show ?thesis
  proof (cases "state s = Posting")
    case False
    with apply_not_posting [OF loaded] that assms show ?thesis by blast
  next
    case True
    note fresh = billing_store.logged_fresh_key [OF assms loaded]
    from loaded True fresh refl show ?thesis
    proof (rule apply_posting [where outcome = outcome and trace = trace and now = now])
      fix db' r
      let ?s' = "outcome_snapshot (iso_now now) outcome s"
      assume applied: "applyWorkerEmittedEvent companyId runId outcome trace now db =
          Inr (Some (set_columns now ?s' row), db')"
        and loaded': "load_run companyId runId db' = Some (set_columns now ?s' row, ?s')"
        and log: "event_log db' = event_log db @ [r]"
        and r: "li_workflow_name r = wf_name rentalBillingWorkflow" "li_entity_id r = runId"
          "li_schema_version r = schemaVersion rentalBillingWorkflow"
          "li_state_version r = state_version s"
          "li_event_payload r = outcome_event (iso_now now) outcome"
          "li_snapshot_after r = rental_billing_snapshot_js ?s'"
      have "reduce rentalBillingWorkflow s (outcome_event (iso_now now) outcome) = Inr ?s'"
        using outcome_transition [OF True] by (simp add: rentalBillingWorkflow_def)
      from billing_store.logged_append [OF assms loaded this loaded' log r]
      show ?thesis by (rule that [OF applied])
    qed
  qed
qed

lemma row_recovery_logged:
  assumes "billing_logged companyId runId s0 db" and "ob_entity_id claimed = runId"
    and "ob_company_id claimed = companyId"
  shows "billing_logged companyId runId s0 (row_recovery now claimed message db)"
proof -
  obtain row db1 where "applyWorkerEmittedEvent companyId runId (Push_failed message)
      (Some (ob_trace claimed)) now db = Inr (row, db1)"
    and "billing_logged companyId runId s0 db1"
    using apply_logged [OF assms(1)] .
  with assms(2,3) show ?thesis by (simp add: row_recovery_def Let_def)
qed

lemma row_tx_logged:
  assumes "billing_logged companyId runId s0 db" and "ob_entity_id claimed = runId"
    and "ob_company_id claimed = companyId"
    and "row_tx push now claimed db q = (Inr (r, db'), q')"
  shows "billing_logged companyId runId s0 db'"
proof -
  have applied: "billing_logged (ob_company_id claimed) (ob_entity_id claimed) s0 db2"
    if "applyWorkerEmittedEvent (ob_company_id claimed) (ob_entity_id claimed) outcome trace now db =
      Inr (row, db2)" for outcome trace row db2
    using apply_logged [OF assms(1), of outcome trace now] that assms(2,3) by auto
  show ?thesis
    using assms
    by (auto simp: row_tx_def Let_def dest: applied
        split: option.splits if_splits sum.splits prod.splits)
qed

lemma process_row_logged:
  assumes "billing_logged companyId runId s0 db" and "ob_entity_id claimed = runId"
    and "ob_company_id claimed = companyId"
    and "process_row push now claimed (db, q) = (r, db', q')"
  shows "billing_logged companyId runId s0 db'"
proof (cases "row_tx push now claimed db q")
  case (Pair res q1)
  show ?thesis
  proof (cases res)
    case (Inl err)
    with row_recovery_logged [OF assms(1-3)] assms(4) Pair show ?thesis
      by (auto simp: process_row_def)
  next
    case (Inr p)
    with Pair assms(4) have "row_tx push now claimed db q = (Inr (r, db'), q')"
      by (cases p) (simp add: process_row_def)
    from row_tx_logged [OF assms(1-3) this] show ?thesis .
  qed
qed

lemma handle_logged:
  assumes "billing_logged companyId runId s0 db" and "rq_companyId rq = companyId"
    and "rq_runId rq = runId"
  shows "billing_logged companyId runId s0 (snd (handle_billing_event rq db))"
proof -
  obtain r db' where tx: "withMutationTx (dispatch_billing rq) db = (r, db')" by fastforce
  from billing_store.logged_dispatch [OF assms(1) billing_serves [OF assms(2,3)]
      tx [unfolded dispatch_billing_def]]
  show ?thesis by (simp add: handle_billing_event_def tx)
qed

lemma billing_step_logged:
  assumes "billing_logged companyId runId s0 db" and "billing_action_ok companyId runId a"
    and "billing_step a (db, q) = (db', q')"
  shows "billing_logged companyId runId s0 db'"
proof (cases a)
  case (Human rq)
  with assms handle_logged show ?thesis by auto
next
  case (Worker push now claimed)
  then show ?thesis
    using assms process_row_logged [OF assms(1), of claimed push now q]
    by (cases "process_row push now claimed (db, q)") auto
qed

lemma billing_run_logged:
  assumes "billing_logged companyId runId s0 db" and "list_all (billing_action_ok companyId runId) actions"
    and "billing_run actions (db, q) = (db', q')"
  shows "billing_logged companyId runId s0 db'"
  using assms
proof (induction actions arbitrary: db q)
  case Nil
  then show ?case by simp
next
  case (Cons a actions)
  obtain db1 q1 where step: "billing_step a (db, q) = (db1, q1)" by fastforce
  with Cons.prems billing_step_logged [OF Cons.prems(1) _ step] show ?case
    by (intro Cons.IH [of db1 q1]) simp_all
qed

section \<open>Consequences for a run created fresh\<close>

definition created_run :: "string \<Rightarrow> string \<Rightarrow> rental_billing_snapshot \<Rightarrow> billing_db \<Rightarrow> bool" where
  "created_run companyId runId s0 db \<longleftrightarrow> rental_billing_fresh s0 \<and>
     (\<exists>row. load_run companyId runId db = Some (row, s0)) \<and>
     entity_rows (wf_name rentalBillingWorkflow) runId (event_log db) = []"

lemma created_run_logged: "created_run companyId runId s0 db \<Longrightarrow> billing_logged companyId runId s0 db"
  by (auto simp: created_run_def billing_store.logged_def)

lemma reduce_rental_billing: "reduce rentalBillingWorkflow = transitionRentalBillingWorkflow"
  by (simp add: rentalBillingWorkflow_def)

lemma logged_reachable:
  assumes "billing_logged companyId runId s0 db" and "load_run companyId runId db = Some (row, s)"
  shows "reachable transitionRentalBillingWorkflow s0 s"
  using assms by (auto simp: billing_store.logged_def records_run_def Let_def
      reduce_rental_billing intro: run_events_reachable)

lemma logged_inv:
  assumes "billing_logged companyId runId s0 db" and "rental_billing_fresh s0"
    and "load_run companyId runId db = Some (row, s)"
  shows "rental_billing_inv s"
  using logged_reachable [OF assms(1,3)]
proof (rule reachable_invariant)
  show "rental_billing_inv s0"
    using assms(2) by (simp add: rental_billing_fresh_def rental_billing_inv_def)
qed (rule rental_billing_inv_step)

section \<open>A run to look at\<close>

definition example_row :: billing_run_row where
  "example_row = \<lparr>row_status = ''generated'', row_state_version = 1, row_approved_at = Null,
     row_approved_by = Null, row_posted_at = Null, row_failed_at = Null, row_error = Null,
     row_qbo_invoice_id = Null, br_id = ''run-1'', br_company_id = ''co-1'',
     br_contract_id = ''k-1'', br_project_id = ''p-1'', br_customer_id = Val ''cust-1'',
     br_period_start = ''2026-01-01'', br_period_end = ''2026-01-31'', br_subtotal = ''120.00'',
     br_workflow_engine = ''postgres'', br_workflow_run_id = Null, br_version = 1,
     br_deleted_at = Null, br_created_at = 0, br_updated_at = 0\<rparr>"

definition example_db :: billing_db where
  "example_db = \<lparr>event_log = [], runs = [''run-1'' \<mapsto> example_row], run_lines = (\<lambda>_. []),
     outbox = [], sync_events = []\<rparr>"

definition example_request :: "string \<Rightarrow> int \<Rightarrow> billing_request" where
  "example_request eventType version = \<lparr>rq_companyId = ''co-1'', rq_runId = ''run-1'',
     rq_eventType = eventType, rq_stateVersion = version, rq_userId = ''ann'',
     rq_clock = \<lparr>iso_now = ''2026-02-01T00:00:00.000Z'', db_now = 100\<rparr>, rq_trace = no_trace\<rparr>"

definition example_clock :: clock where
  "example_clock = \<lparr>iso_now = ''2026-02-01T01:00:00.000Z'', db_now = 200\<rparr>"

text \<open>A QuickBooks that remembers which runs it was asked to invoice.\<close>

definition example_push :: "string list push_fn" where
  "example_push claimed invoiced = (Inr (''inv-'' @ ob_entity_id claimed), ob_entity_id claimed # invoiced)"

lemmas billing_eval = handle_billing_event_def withMutationTx_def dispatch_billing_def
  dispatchWorkflowEvent_def billing_options_def load_run_def example_request_def
  rentalBillingRowToSnapshot_def rental_billing_state_of_name_def rental_billing_all_states_def
  buildReducerEvent_def update_run_def set_columns_def dispatch_args_def
  recordWorkflowEvent_def run_insert_def insert_or_throw_def row_key_def event_log_row_def
  traced_args_def billing_side_effects_def recordMutationLedger_def recordSyncEvent_def
  recordMutationOutbox_def billing_ledger_def post_ledger_def outbox_conflict_def
  reduce_rental_billing

lemma example_created:
  "created_run ''co-1'' ''run-1'' \<lparr>state = Generated, state_version = 1, approved_at = Null,
     approved_by = Null, posted_at = Null, failed_at = Null, error = Null, qbo_invoice_id = Null\<rparr>
   example_db"
  by (simp add: created_run_def rental_billing_fresh_def example_db_def example_row_def load_run_def
      rentalBillingRowToSnapshot_def rental_billing_state_of_name_def rental_billing_all_states_def
      entity_rows_def)

text \<open>Requested, cancelled while the push is still queued, and voided.\<close>

definition example_void_run :: "string list billing_action list" where
  "example_void_run = [Human (example_request ''APPROVE'' 1), Human (example_request ''POST_REQUESTED'' 2),
     Human (example_request ''CANCEL_POST'' 3), Human (example_request ''VOID'' 4)]"

lemma example_posting_ok:
  "\<exists>db row s. billing_run [Human (example_request ''APPROVE'' 1),
       Human (example_request ''POST_REQUESTED'' 2)] (example_db, []) = (db, []) \<and>
     load_run ''co-1'' ''run-1'' db = Some (row, s) \<and> state s = Posting \<and>
     qbo_invoice_id s = Null \<and> length (event_log db) = 2 \<and> 
     (\<exists>claimed. filter (claimable ''co-1'' 200) (outbox db) = [claimed] \<and>
       ob_entity_id claimed = ''run-1'' \<and> ob_company_id claimed = ''co-1'')"
  by (simp add: example_db_def example_row_def billing_eval wf_simps
      assertRentalBillingTransition_def Let_def reply_of_def claimable_def to_lower_def)

lemma example_void_run_ok:
  "\<exists>db row s claimed. billing_run example_void_run (example_db, []) = (db, []) \<and>
     load_run ''co-1'' ''run-1'' db = Some (row, s) \<and> state s = Voided \<and>
     filter (claimable ''co-1'' 200) (outbox db) = [claimed] \<and> ob_entity_id claimed = ''run-1'' \<and>
     ob_company_id claimed = ''co-1''"
  by (simp add: example_void_run_def example_db_def example_row_def billing_eval wf_simps
      assertRentalBillingTransition_def Let_def reply_of_def claimable_def to_lower_def)

section \<open>One winner per version\<close>

fun handle_all :: "billing_request list \<Rightarrow> billing_db \<Rightarrow> billing_reply list \<times> billing_db" where
  "handle_all [] db = ([], db)"
| "handle_all (rq # rqs) db =
     (let (r, db1) = handle_billing_event rq db; (rs, db2) = handle_all rqs db1 in (r # rs, db2))"

fun is_applied :: "billing_reply \<Rightarrow> bool" where
  "is_applied (Snapshot_reply status row lines) = (status = 200)"
| "is_applied _ = False"

definition applied_at :: "int \<Rightarrow> billing_request list \<Rightarrow> billing_reply list \<Rightarrow> nat" where
  "applied_at v rqs rs =
     length (filter (\<lambda>(rq, r). rq_stateVersion rq = v \<and> is_applied r) (zip rqs rs))"

lemma is_applied_reply: "is_applied (reply_of rq db r) \<longleftrightarrow> is_win r"
  by (auto simp: reply_of_def split: sum.splits dispatch_result.splits)

text \<open>The requests as the dispatcher sees them.\<close>

definition dispatched :: "billing_request \<Rightarrow> trace_context \<times>
    (rental_billing_state, rental_billing_event, _, billing_run_row, billing_db) dispatch_options" where
  "dispatched rq = (rq_trace rq, billing_options rq)"

lemma dispatch_dispatched [simp]:
  "(case dispatched rq of (tc, opts) \<Rightarrow> dispatchWorkflowEvent rental_billing_event_type
     rental_billing_snapshot_js tc opts) = dispatch_billing rq"
  by (simp add: dispatched_def dispatch_billing_def)

lemma wins_at_dispatched [simp]:
  "wins_at v (dispatched rq # reqs) (r # rs) =
   (if rq_stateVersion rq = v \<and> is_win r then 1 else 0) + wins_at v reqs rs"
  by (simp add: dispatched_def billing_options_def)

lemma handle_all_serves:
  "\<exists>results. serve_all (\<lambda>(tc, opts). dispatchWorkflowEvent rental_billing_event_type
       rental_billing_snapshot_js tc opts) (map dispatched rqs) db = (results, snd (handle_all rqs db)) \<and>
     applied_at v rqs (fst (handle_all rqs db)) = wins_at v (map dispatched rqs) results"
proof (induction rqs arbitrary: db)
  case Nil
  then show ?case by (simp add: applied_at_def)
next
  case (Cons rq rqs)
  obtain r db1 where tx: "withMutationTx (dispatch_billing rq) db = (r, db1)" by fastforce
  from Cons.IH [of db1] obtain results where results:
    "serve_all (\<lambda>(tc, opts). dispatchWorkflowEvent rental_billing_event_type
       rental_billing_snapshot_js tc opts) (map dispatched rqs) db1 = (results, snd (handle_all rqs db1))"
    "applied_at v rqs (fst (handle_all rqs db1)) = wins_at v (map dispatched rqs) results"
    by blast
  have "handle_billing_event rq db = (reply_of rq db1 r, db1)"
    by (simp add: handle_billing_event_def tx)
  then have "handle_all (rq # rqs) db =
      (reply_of rq db1 r # fst (handle_all rqs db1), snd (handle_all rqs db1))"
    by (simp add: case_prod_beta)
  with results tx show ?case
    by (intro exI [of _ "r # results"]) (simp add: applied_at_def is_applied_reply)
qed

text \<open>
  C2: However many clients act on the same version of a billing run, at most one of
  their requests is applied; the others are refused, whatever events they carry and in whatever
  order they are served.
\<close>

theorem billing_one_winner:
  assumes "\<forall>rq \<in> set rqs. rq_companyId rq = companyId \<and> rq_runId rq = runId"
  shows "applied_at v rqs (fst (handle_all rqs db)) \<le> 1"
proof -
  obtain results where served: "serve_all (\<lambda>(tc, opts). dispatchWorkflowEvent rental_billing_event_type
       rental_billing_snapshot_js tc opts) (map dispatched rqs) db = (results, snd (handle_all rqs db))"
    and wins: "applied_at v rqs (fst (handle_all rqs db)) = wins_at v (map dispatched rqs) results"
    using handle_all_serves by blast
  have "\<forall>(tc, opts) \<in> set (map dispatched rqs). billing_store.serves companyId runId runId opts"
    using assms billing_serves by (auto simp: dispatched_def)
  from billing_store.serve_all_at_most_one [OF served this] show ?thesis by (simp add: wins)
qed

theorem billing_one_winner_witness:
  "applied_at 1 [example_request ''APPROVE'' 1, example_request ''VOID'' 1]
     (fst (handle_all [example_request ''APPROVE'' 1, example_request ''VOID'' 1] example_db)) \<le> 1"
  by (rule billing_one_winner [of _ "''co-1''" "''run-1''"]) (simp add: example_request_def)

section \<open>The log tells the story of the row\<close>

text \<open>
  C1: After any interleaving of human requests and worker pushes on a run that was
  created fresh, replaying its event log from the creation snapshot succeeds and ends in exactly
  the snapshot the row holds, whose stamps are consistent.
\<close>

theorem billing_log_replays:
  assumes "created_run companyId runId s0 db"
    and "list_all (billing_action_ok companyId runId) actions"
    and "billing_run actions (db, q) = (db', q')"
    and "load_run companyId runId db' = Some (row, s)"
    and "getWorkflow reg (wf_name rentalBillingWorkflow) None = Some rentalBillingWorkflow"
  shows "applyEventLog rental_billing_event_type rental_billing_snapshot_js reg s0
      (entity_log (wf_name rentalBillingWorkflow) runId (event_log db')) =
      \<lparr>replay_ok = True, finalSnapshot = Some s, issues = []\<rparr> \<and> rental_billing_inv s"
proof
  have logged: "billing_logged companyId runId s0 db'"
    by (rule billing_run_logged [OF created_run_logged [OF assms(1)] assms(2,3)])
  show "applyEventLog rental_billing_event_type rental_billing_snapshot_js reg s0
      (entity_log (wf_name rentalBillingWorkflow) runId (event_log db')) =
      \<lparr>replay_ok = True, finalSnapshot = Some s, issues = []\<rparr>"
    by (rule billing_store.logged_replays [OF logged assms(4,5)])
  show "rental_billing_inv s"
    using logged_inv [OF logged _ assms(4)] assms(1) by (simp add: created_run_def)
qed

definition billing_registry :: "(rental_billing_state, rental_billing_event, _) registry" where
  "billing_registry = snd (registerWorkflow rentalBillingWorkflow [])"

lemma billing_registry_latest:
  "getWorkflow billing_registry (wf_name rentalBillingWorkflow) None = Some rentalBillingWorkflow"
  by (simp add: billing_registry_def registerWorkflow_def latest_step_def)

theorem billing_log_replays_witness:
  "\<exists>db s0 (s :: rental_billing_snapshot). billing_run example_void_run (example_db, []) = (db, []) \<and> state s = Voided \<and>
     replay_ok (applyEventLog rental_billing_event_type rental_billing_snapshot_js billing_registry s0
       (entity_log (wf_name rentalBillingWorkflow) ''run-1'' (event_log db)))"
proof -
  obtain db row s where run: "billing_run example_void_run (example_db, []) = (db, [])"
    and loaded: "load_run ''co-1'' ''run-1'' db = Some (row, s)" and "state s = Voided"
    using example_void_run_ok by blast
  have ok: "list_all (billing_action_ok ''co-1'' ''run-1'') example_void_run"
    by (simp add: example_void_run_def example_request_def)
  from billing_log_replays [OF example_created ok run loaded billing_registry_latest]
  have "replay_ok (applyEventLog rental_billing_event_type rental_billing_snapshot_js
      billing_registry \<lparr>state = Generated, state_version = 1, approved_at = Null,
        approved_by = Null, posted_at = Null, failed_at = Null, error = Null,
        qbo_invoice_id = Null\<rparr>
      (entity_log (wf_name rentalBillingWorkflow) ''run-1'' (event_log db)))"
    by simp
  with run \<open>state s = Voided\<close> show ?thesis by blast
qed

section \<open>What the worker does with a claimed row\<close>

lemma stored_status_loads:
  assumes "runs db runId = Some row" and "br_company_id row = companyId"
    and "\<not> present (br_deleted_at row)" and "row_status row = ''posting''"
  obtains s where "load_run companyId runId db = Some (row, s)" and "state s = Posting"
proof -
  have "rental_billing_state_of_name (row_status row) = Some Posting"
    using assms(4) by (simp add: rental_billing_state_of_name_def rental_billing_all_states_def)
  then show ?thesis
    using that assms by (simp add: load_run_def rentalBillingRowToSnapshot_def)
qed

lemma row_skipped_only_replays:
  assumes "process_row push now claimed (db, q) = (Row_skipped, w)"
  obtains row s where "load_run (ob_company_id claimed) (ob_entity_id claimed) db = Some (row, s)"
    and "state s = Posting" and "present (qbo_invoice_id s)"
proof -
  from assms obtain row where row: "runs db (ob_entity_id claimed) = Some row"
    "br_company_id row = ob_company_id claimed" "\<not> present (br_deleted_at row)"
    "truthy (row_qbo_invoice_id row)" "row_status row = ''posting''"
    by (auto simp: process_row_def row_tx_def Let_def
        split: option.splits if_splits sum.splits prod.splits)
  obtain s where s: "load_run (ob_company_id claimed) (ob_entity_id claimed) db = Some (row, s)"
    "state s = Posting"
    using stored_status_loads [OF row(1-3,5)] .
  moreover have "present (qbo_invoice_id s)"
    using row(4) load_run_state(5) [OF s(1)] by (cases "row_qbo_invoice_id row") auto
  ultimately show ?thesis by (rule that)
qed

text \<open>
  The worker's idempotent-replay branch (``already pushed in a prior attempt
  that crashed'') is never taken on a run the program made: an invoice id is only ever stored
  together with the state \<open>posted\<close>, so a crash between push and commit leaves no id behind and the
  retry pushes again, relying on QuickBooks alone to deduplicate.
\<close>

lemma worker_replay_branch_dead:
  assumes "created_run companyId runId s0 db"
    and "list_all (billing_action_ok companyId runId) actions"
    and "billing_run actions (db, q) = (db', q')"
    and "ob_entity_id claimed = runId" and "ob_company_id claimed = companyId"
  shows "fst (process_row push now claimed (db', q')) \<noteq> Row_skipped"
proof
  assume "fst (process_row push now claimed (db', q')) = Row_skipped"
  then obtain w where "process_row push now claimed (db', q') = (Row_skipped, w)"
    by (cases "process_row push now claimed (db', q')") auto
  then obtain row s where loaded: "load_run companyId runId db' = Some (row, s)"
    and s: "state s = Posting" "present (qbo_invoice_id s)"
    by (rule row_skipped_only_replays) (use assms(4,5) in auto)
  have "billing_logged companyId runId s0 db'"
    by (rule billing_run_logged [OF created_run_logged [OF assms(1)] assms(2,3)])
  from logged_inv [OF this _ loaded] assms(1) s show False
    by (simp add: created_run_def rental_billing_inv_def)
qed

text \<open>
  C20: The worker does not look at the run's state before it pushes: for a claimed row
  of a run that has left \<open>posting\<close> (cancelled, failed or voided in the meantime) it calls the push
  all the same, keeps what the push did in QuickBooks, leaves the run as it is, and reports the
  row as posted.
\<close>

theorem worker_pushes_voided_run:
  assumes "load_run (ob_company_id claimed) (ob_entity_id claimed) db = Some (row, s)"
    and "state s \<noteq> Posting" and "push claimed q = (Inr inv_id, q')"
  shows "\<exists>db'. process_row push now claimed (db, q) = (Row_posted, db', q') \<and>
    load_run (ob_company_id claimed) (ob_entity_id claimed) db' = Some (row, s)"
proof -
  have row: "runs db (ob_entity_id claimed) = Some row" "br_company_id row = ob_company_id claimed"
    "\<not> present (br_deleted_at row)" "row_status row \<noteq> ''posting''"
    using assms(1,2) load_run_state(1) [OF assms(1)] by (auto simp: load_run_Some status_posting_iff)
  then have "process_row push now claimed (db, q) = (Row_posted,
      mark_applied (db_now now) claimed (recordInvoicePushSyncEvent (ob_company_id claimed)
        (ob_entity_id claimed) (push_succeeded_payload inv_id
          [(''state_version'', JNum (row_state_version row))]) db), q')"
    by (simp add: process_row_def row_tx_def assms(3) apply_not_posting [OF assms(1,2)])
  with assms(1) show ?thesis by (simp add: load_run_def)
qed

theorem worker_pushes_voided_run_witness:
  "\<exists>db claimed db' row s. billing_run example_void_run (example_db, []) = (db, []) \<and>
     filter (claimable ''co-1'' 200) (outbox db) = [claimed] \<and>
     process_row example_push example_clock claimed (db, []) = (Row_posted, db', [''run-1'']) \<and>
     load_run ''co-1'' ''run-1'' db' = Some (row, s) \<and> state s = Voided"
proof -
  obtain db row s claimed where run: "billing_run example_void_run (example_db, []) = (db, [])"
    and loaded: "load_run ''co-1'' ''run-1'' db = Some (row, s)" and s: "state s = Voided"
    and claimed: "filter (claimable ''co-1'' 200) (outbox db) = [claimed]"
      "ob_entity_id claimed = ''run-1''" "ob_company_id claimed = ''co-1''"
    using example_void_run_ok by blast
  have "load_run (ob_company_id claimed) (ob_entity_id claimed) db = Some (row, s)"
    using loaded claimed by simp
  moreover have "state s \<noteq> Posting" using s by simp
  moreover have "example_push claimed [] = (Inr ''inv-run-1'', [''run-1''])"
    by (simp add: example_push_def claimed)
  ultimately obtain db' where
      "process_row example_push example_clock claimed (db, []) = (Row_posted, db', [''run-1''])"
      "load_run ''co-1'' ''run-1'' db' = Some (row, s)"
    using worker_pushes_voided_run [of claimed db row s example_push "[]"] claimed by fastforce
  with run s claimed(1) show ?thesis by blast
qed

section \<open>The outcome of a push\<close>

lemma process_row_posting:
  assumes "billing_logged companyId runId s0 db"
    and "load_run companyId runId db = Some (row, s)" and "state s = Posting"
    and "\<not> present (qbo_invoice_id s)"
    and "ob_entity_id claimed = runId" and "ob_company_id claimed = companyId"
    and "push claimed q = (outcome, q')"
  shows "\<exists>r db' row' s'. process_row push now claimed (db, q) = (r, db', q') \<and>
    load_run companyId runId db' = Some (row', s') \<and> billing_logged companyId runId s0 db' \<and>
    length (event_log db') = length (event_log db) + 1 \<and>
    (\<forall>other. other \<noteq> runId \<longrightarrow> runs db' other = runs db other) \<and>
    (case outcome of
       Inr inv_id \<Rightarrow> r = Row_posted \<and> s' = outcome_snapshot (iso_now now) (Succeeded inv_id) s
     | Inl err \<Rightarrow> r = Row_failed \<and>
         s' = outcome_snapshot (iso_now now) (Push_failed (err_message err)) s)"
proof -
  define out where "out = (case outcome of Inr inv_id \<Rightarrow> Succeeded inv_id
    | Inl err \<Rightarrow> Push_failed (err_message err))"
  have row: "runs db runId = Some row" "br_company_id row = companyId"
    "\<not> present (br_deleted_at row)" "\<not> truthy (row_qbo_invoice_id row)"
    using assms(2,4) load_run_state(5) [OF assms(2)]
    by (auto simp: load_run_Some elim: truthy.elims)
  from assms(2,3) billing_store.logged_fresh_key [OF assms(1,2)] refl
  show ?thesis
  proof (rule apply_posting [where outcome = out and trace = "Some (ob_trace claimed)" and now = now])
    fix db1 r1
    let ?s' = "outcome_snapshot (iso_now now) out s"
    assume applied: "applyWorkerEmittedEvent companyId runId out (Some (ob_trace claimed)) now db =
        Inr (Some (set_columns now ?s' row), db1)"
      and loaded: "load_run companyId runId db1 = Some (set_columns now ?s' row, ?s')"
      and log: "event_log db1 = event_log db @ [r1]"
      and other: "\<And>other. other \<noteq> runId \<Longrightarrow> runs db1 other = runs db other"
    have "\<exists>r db'. process_row push now claimed (db, q) = (r, db', q') \<and> runs db' = runs db1 \<and>
        event_log db' = event_log db1 \<and>
        r = (case outcome of Inr _ \<Rightarrow> Row_posted | Inl _ \<Rightarrow> Row_failed)"
      using applied row assms(5-7)
      by (cases outcome) (auto simp: out_def process_row_def row_tx_def row_recovery_def Let_def)
    then obtain r db' where processed: "process_row push now claimed (db, q) = (r, db', q')"
      and db': "runs db' = runs db1" "event_log db' = event_log db1"
      and r: "r = (case outcome of Inr _ \<Rightarrow> Row_posted | Inl _ \<Rightarrow> Row_failed)"
      by blast
    have "load_run companyId runId db' = Some (set_columns now ?s' row, ?s')"
      using loaded load_run_frame [OF db'(1)] by simp
    moreover have "billing_logged companyId runId s0 db'"
      by (rule process_row_logged [OF assms(1,5,6) processed])
    ultimately show ?thesis
      using processed db' log other r by (cases outcome) (auto simp: out_def)
  qed
qed

text \<open>
  C6: For a run that is \<open>posting\<close> in a consistent database the push's outcome reaches
  the run through the reducer, atomically with its log row: a returned invoice id makes it
  \<open>posted\<close> with that id and the row posted; a throw makes it \<open>failed\<close> with the message (cut at
  1000 characters) and the row failed; and other runs are untouched.
\<close>

theorem worker_outcome_reaches_run:
  assumes "billing_logged companyId runId s0 db"
    and "load_run companyId runId db = Some (row, s)" and "state s = Posting"
    and "\<not> present (qbo_invoice_id s)"
    and "ob_entity_id claimed = runId" and "ob_company_id claimed = companyId"
    and "push claimed q = (outcome, q')"
  shows "\<exists>r db' row' s'. process_row push now claimed (db, q) = (r, db', q') \<and>
    load_run companyId runId db' = Some (row', s') \<and> billing_logged companyId runId s0 db' \<and>
    length (event_log db') = length (event_log db) + 1 \<and>
    (\<forall>other. other \<noteq> runId \<longrightarrow> runs db' other = runs db other) \<and>
    (case outcome of
       Inr inv_id \<Rightarrow> r = Row_posted \<and> s' = outcome_snapshot (iso_now now) (Succeeded inv_id) s
     | Inl err \<Rightarrow> r = Row_failed \<and>
         s' = outcome_snapshot (iso_now now) (Push_failed (err_message err)) s)"
  by (rule process_row_posting [where push = push and q = q, OF assms])

theorem worker_outcome_reaches_run_witness:
  "\<exists>db claimed r db' row' s'. filter (claimable ''co-1'' 200) (outbox db) = [claimed] \<and>
     process_row example_push example_clock claimed (db, []) = (r, db', [''run-1'']) \<and>
     r = Row_posted \<and> load_run ''co-1'' ''run-1'' db' = Some (row', s') \<and> state s' = Posted \<and>
     qbo_invoice_id s' = Val ''inv-run-1''"
proof -
  let ?actions = "[Human (example_request ''APPROVE'' 1),
       Human (example_request ''POST_REQUESTED'' 2)] :: string list billing_action list"
  obtain db row s claimed where run: "billing_run ?actions (example_db, []) = (db, [])"
    and loaded: "load_run ''co-1'' ''run-1'' db = Some (row, s)" and s: "state s = Posting"
      "qbo_invoice_id s = Null"
    and claimed: "filter (claimable ''co-1'' 200) (outbox db) = [claimed]"
      "ob_entity_id claimed = ''run-1''" "ob_company_id claimed = ''co-1''"
    using example_posting_ok by blast
  have ok: "list_all (billing_action_ok ''co-1'' ''run-1'') ?actions"
    by (simp add: example_request_def)
  note logged = billing_run_logged [OF created_run_logged [OF example_created] ok run]
  have unposted: "\<not> present (qbo_invoice_id s)" using s(2) by simp
  have push: "example_push claimed [] = (Inr ''inv-run-1'', [''run-1''])"
    by (simp add: example_push_def claimed)
  obtain r db' row' s' where processed:
      "process_row example_push example_clock claimed (db, []) = (r, db', [''run-1''])"
    and loaded': "load_run ''co-1'' ''run-1'' db' = Some (row', s')"
    and outcome: "r = Row_posted"
      "s' = outcome_snapshot (iso_now example_clock) (Succeeded ''inv-run-1'') s"
    using worker_outcome_reaches_run [where push = example_push and now = example_clock,
        OF logged loaded s(1) unposted claimed(2,3) push]
    unfolding sum.case by blast
  have "state s' = Posted" "qbo_invoice_id s' = Val ''inv-run-1''"
    by (simp_all add: outcome outcome_snapshot_def)
  with processed loaded' outcome(1) claimed(1) show ?thesis by blast
qed

end
