(* ===== verification/Circuit_Breaker.thy ===== *)
theory Circuit_Breaker
  imports Prelude
begin

text \<open>
  The in-memory circuit breaker of the queue (\<open>packages/queue/src/circuit-breaker.ts\<close>): a map from
  integration keys to failure counters, the calls it guards, and the classification of errors.
  The class instance is passed explicitly; \<open>clock()\<close> is a reading in milliseconds given to each
  operation, and the two callbacks of the configuration are the alerts an operation appends.
  A breaker's promise is the two-mode machine \<open>breaker_mode\<close>, which the code refines.
\<close>

section \<open>State\<close>

record breaker_config =
  threshold :: int
  cooldownMs :: int

definition DEFAULT_CIRCUIT_BREAKER_CONFIG :: breaker_config where
  "DEFAULT_CIRCUIT_BREAKER_CONFIG = \<lparr>threshold = 3, cooldownMs = 5 * 60000\<rparr>"

record breaker_state =
  failureCount :: int
  openedAt :: "int option"
  lastError :: "string option"

datatype breaker_alert = Opened string int string | Closed string

record breaker =
  states :: "string \<Rightarrow> breaker_state option"
  alerts :: "breaker_alert list"

definition new_breaker :: breaker where
  "new_breaker = \<lparr>states = (\<lambda>_. None), alerts = []\<rparr>"

definition initial_state :: breaker_state where
  "initial_state = \<lparr>failureCount = 0, openedAt = None, lastError = None\<rparr>"

definition set_state :: "string \<Rightarrow> breaker_state \<Rightarrow> breaker \<Rightarrow> breaker" where
  "set_state key s b = b\<lparr>states := (states b)(key \<mapsto> s)\<rparr>"

definition alert :: "breaker_alert \<Rightarrow> breaker \<Rightarrow> breaker" where
  "alert a b = b\<lparr>alerts := alerts b @ [a]\<rparr>"

section \<open>Operations\<close>

definition getState :: "string \<Rightarrow> breaker \<Rightarrow> breaker_state \<times> breaker" where
  "getState key b = (case states b key of
     Some s \<Rightarrow> (s, b)
   | None \<Rightarrow> (initial_state, set_state key initial_state b))"

definition isOpen :: "breaker_config \<Rightarrow> int \<Rightarrow> string \<Rightarrow> breaker \<Rightarrow> bool \<times> breaker" where
  "isOpen cfg now key b =
     (let (s, b1) = getState key b
      in case openedAt s of
        None \<Rightarrow> (False, b1)
      | Some opened \<Rightarrow>
          if now - opened \<ge> cooldownMs cfg
          then (False, set_state key (s\<lparr>openedAt := None, failureCount := 0\<rparr>) b1)
          else (True, b1))"

definition recordSuccess :: "string \<Rightarrow> breaker \<Rightarrow> breaker" where
  "recordSuccess key b =
     (let (s, b1) = getState key b;
          wasOpen = (openedAt s \<noteq> None);
          b2 = set_state key (s\<lparr>failureCount := 0, openedAt := None, lastError := None\<rparr>) b1
      in if wasOpen then alert (Closed key) b2 else b2)"

definition recordFailure :: "breaker_config \<Rightarrow> int \<Rightarrow> string \<Rightarrow> string \<Rightarrow> breaker \<Rightarrow> breaker" where
  "recordFailure cfg now key err b =
     (let (s, b1) = getState key b;
          count = failureCount s + 1;
          last = take 500 err;
          s1 = s\<lparr>failureCount := count, lastError := Some last\<rparr>
      in if openedAt s = None \<and> count \<ge> threshold cfg
         then alert (Opened key count last) (set_state key (s1\<lparr>openedAt := Some now\<rparr>) b1)
         else set_state key s1 b1)"

text \<open>The object \<open>s\<close> is read after \<open>isOpen\<close>, which may have reset it.\<close>

definition snapshot ::
  "breaker_config \<Rightarrow> int \<Rightarrow> string \<Rightarrow> breaker \<Rightarrow> (bool \<times> int \<times> string option) \<times> breaker" where
  "snapshot cfg now key b =
     (let (is_open, b1) = isOpen cfg now key b;
          (s, b2) = getState key b1
      in ((is_open, failureCount s, lastError s), b2))"

definition reset :: "breaker \<Rightarrow> breaker" where
  "reset b = b\<lparr>states := (\<lambda>_. None)\<rparr>"

section \<open>Tripping errors\<close>

text \<open>What a guarded call can throw: an \<open>Error\<close>, or another value, by its \<open>String(err)\<close>.\<close>

datatype thrown = An_error js_error | Other_value string

fun thrown_message :: "thrown \<Rightarrow> string" where
  "thrown_message (An_error err) = err_message err"
| "thrown_message (Other_value s) = s"

definition is_word_char :: "char \<Rightarrow> bool" where
  "is_word_char c \<longleftrightarrow> is_digit c \<or> c = CHR ''_'' \<or>
     c \<in> set ''ABCDEFGHIJKLMNOPQRSTUVWXYZ'' \<or> c \<in> set ''abcdefghijklmnopqrstuvwxyz''"

text \<open>
  The first digit of the leftmost match of \<open>/\b([45]\d\d)\b/\<close>; \<open>after_word\<close> tells whether the
  character before is a word character, which with a digit next is no boundary.
\<close>

fun status_digit :: "bool \<Rightarrow> string \<Rightarrow> char option" where
  "status_digit after_word (a # b # c # rest) =
     (if \<not> after_word \<and> a \<in> set ''45'' \<and> is_digit b \<and> is_digit c \<and>
         (rest = [] \<or> \<not> is_word_char (hd rest))
      then Some a else status_digit (is_word_char a) (b # c # rest))"
| "status_digit after_word _ = None"

text \<open>\<open>/network|ECONN|ETIMEDOUT|ENOTFOUND|fetch failed/i\<close>\<close>

definition network_class :: "string \<Rightarrow> bool" where
  "network_class message \<longleftrightarrow> list_ex (\<lambda>w. contains w (to_lower message))
     [''network'', ''econn'', ''etimedout'', ''enotfound'', ''fetch failed'']"

fun isTrippingError :: "thrown \<Rightarrow> bool" where
  "isTrippingError (An_error err) =
     (case status_digit False (err_message err) of
        Some d \<Rightarrow> d = CHR ''5''
      | None \<Rightarrow> network_class (err_message err))"
| "isTrippingError (Other_value _) = False"

section \<open>Guarded calls\<close>

text \<open>\<open>fn\<close> acts on a world \<open>'q\<close>; \<open>before\<close> and \<open>after\<close> are the clock at the check and at a failure.\<close>

type_synonym ('a, 'q) call = "'q \<Rightarrow> (thrown + 'a) \<times> 'q"

definition withCircuitBreaker ::
  "breaker_config \<Rightarrow> int \<Rightarrow> int \<Rightarrow> string \<Rightarrow> ('a, 'q) call \<Rightarrow> breaker \<times> 'q \<Rightarrow>
   (thrown + 'a) \<times> breaker \<times> 'q" where
  "withCircuitBreaker cfg before after key fn w =
     (let (b, q) = w; (is_open, b1) = isOpen cfg before key b
      in if is_open then (Inl (An_error (CircuitOpenError key)), b1, q)
         else (case fn q of
             (Inr result, q1) \<Rightarrow> (Inr result, recordSuccess key b1, q1)
           | (Inl err, q1) \<Rightarrow>
               (Inl err,
                if isTrippingError err then recordFailure cfg after key (thrown_message err) b1 else b1,
                q1)))"

section \<open>The promise\<close>

datatype breaker_mode = Counting int | Tripped int

datatype call_outcome = Call_ok | Call_tripping | Call_other

fun outcome_of :: "thrown + 'a \<Rightarrow> call_outcome" where
  "outcome_of (Inr _) = Call_ok"
| "outcome_of (Inl err) = (if isTrippingError err then Call_tripping else Call_other)"

definition mode_of :: "breaker \<Rightarrow> string \<Rightarrow> breaker_mode" where
  "mode_of b key = (case states b key of
     None \<Rightarrow> Counting 0
   | Some s \<Rightarrow> (case openedAt s of None \<Rightarrow> Counting (failureCount s) | Some opened \<Rightarrow> Tripped opened))"

text \<open>
  The count a call starts from, \<open>None\<close> when it is turned away; and the mode after a call that
  was let through.
\<close>

fun admitted :: "breaker_config \<Rightarrow> int \<Rightarrow> breaker_mode \<Rightarrow> int option" where
  "admitted cfg now (Counting n) = Some n"
| "admitted cfg now (Tripped opened) = (if now - opened \<ge> cooldownMs cfg then Some 0 else None)"

fun mode_after :: "breaker_config \<Rightarrow> int \<Rightarrow> int \<Rightarrow> call_outcome \<Rightarrow> breaker_mode" where
  "mode_after cfg now n Call_ok = Counting 0"
| "mode_after cfg now n Call_other = Counting n"
| "mode_after cfg now n Call_tripping =
     (if n + 1 \<ge> threshold cfg then Tripped now else Counting (n + 1))"

lemmas breaker_defs = getState_def set_state_def alert_def initial_state_def mode_of_def Let_def

lemma isOpen_admitted:
  "fst (isOpen cfg now key b) \<longleftrightarrow> admitted cfg now (mode_of b key) = None"
  by (auto simp: isOpen_def breaker_defs split: option.splits)

lemma mode_isOpen:
  "mode_of (snd (isOpen cfg now key b)) other =
   (if other = key then (case admitted cfg now (mode_of b key) of
        None \<Rightarrow> mode_of b key | Some n \<Rightarrow> Counting n)
    else mode_of b other)"
  by (auto simp: isOpen_def breaker_defs split: option.splits)

lemma mode_recordSuccess:
  "mode_of (recordSuccess key b) other = (if other = key then Counting 0 else mode_of b other)"
  by (auto simp: recordSuccess_def breaker_defs split: option.splits)

lemma mode_recordFailure:
  "mode_of b key = Counting n \<Longrightarrow> mode_of (recordFailure cfg now key err b) other =
   (if other = key then mode_after cfg now n Call_tripping else mode_of b other)"
  by (auto simp: recordFailure_def breaker_defs split: option.splits)

lemma withCircuitBreaker_refines:
  assumes "withCircuitBreaker cfg before after key fn (b, q) = (r, b', q')"
  shows "mode_of b' other = (if other \<noteq> key then mode_of b other
      else case admitted cfg before (mode_of b key) of
        None \<Rightarrow> mode_of b key
      | Some n \<Rightarrow> mode_after cfg after n (outcome_of (fst (fn q))))"
    and "(r, q') = (case admitted cfg before (mode_of b key) of
        None \<Rightarrow> (Inl (An_error (CircuitOpenError key)), q) | Some n \<Rightarrow> fn q)"
proof -
  obtain is_open b1 where check: "isOpen cfg before key b = (is_open, b1)" by fastforce
  have is_open: "is_open \<longleftrightarrow> admitted cfg before (mode_of b key) = None"
    using isOpen_admitted [of cfg before key b] by (simp add: check)
  note mode1 = mode_isOpen [of cfg before key b, unfolded check snd_conv]
  show "mode_of b' other = (if other \<noteq> key then mode_of b other
      else case admitted cfg before (mode_of b key) of
        None \<Rightarrow> mode_of b key
      | Some n \<Rightarrow> mode_after cfg after n (outcome_of (fst (fn q))))"
    using assms is_open mode1 mode_recordFailure [of b1 key]
    by (auto simp: withCircuitBreaker_def check mode_recordSuccess
        split: if_splits prod.splits sum.splits option.splits)
  show "(r, q') = (case admitted cfg before (mode_of b key) of
        None \<Rightarrow> (Inl (An_error (CircuitOpenError key)), q) | Some n \<Rightarrow> fn q)"
    using assms is_open
    by (auto simp: withCircuitBreaker_def check split: if_splits prod.splits sum.splits option.splits)
qed

text \<open>
  C21: A guarded call does what the two-mode machine says: while its key is tripped and
  the cooldown has not elapsed it throws the circuit-open error without touching the integration
  or the breaker's mode; otherwise the integration is called once, a success brings the count
  to zero, a tripping error counts and at the threshold trips, any other error leaves the mode.
  No other key is affected.
\<close>

theorem breaker_isolates_and_fails_fast:
  assumes "withCircuitBreaker cfg before after key fn (b, q) = (r, b', q')"
  shows "(\<forall>other. other \<noteq> key \<longrightarrow> mode_of b' other = mode_of b other) \<and>
    (case admitted cfg before (mode_of b key) of
       None \<Rightarrow> r = Inl (An_error (CircuitOpenError key)) \<and> q' = q \<and> mode_of b' key = mode_of b key
     | Some n \<Rightarrow> (r, q') = fn q \<and> mode_of b' key = mode_after cfg after n (outcome_of r))"
  using withCircuitBreaker_refines [OF assms]
  by (auto split: option.splits) (metis fst_conv)

section \<open>Sequences of calls\<close>

text \<open>For each call its key and whether the integration was called.\<close>

fun guarded_calls ::
  "breaker_config \<Rightarrow> (string \<times> int \<times> int \<times> ('a, 'q) call) list \<Rightarrow> breaker \<times> 'q \<Rightarrow>
   (string \<times> bool) list \<times> breaker \<times> 'q" where
  "guarded_calls cfg [] w = ([], w)"
| "guarded_calls cfg ((key, before, after, fn) # calls) w =
     (let invoked = (\<not> fst (isOpen cfg before key (fst w)));
          (r, w1) = withCircuitBreaker cfg before after key fn w;
          (rest, w2) = guarded_calls cfg calls w1
      in ((key, invoked) # rest, w2))"

text \<open>How many more failing calls a key lets through before \<open>start + cooldownMs\<close>.\<close>

fun budget :: "breaker_config \<Rightarrow> int \<Rightarrow> breaker_mode \<Rightarrow> int" where
  "budget cfg start (Counting n) = max 1 (threshold cfg - n)"
| "budget cfg start (Tripped opened) = (if opened \<ge> start then 0 else max 1 (threshold cfg))"

definition outage_call :: "breaker_config \<Rightarrow> int \<Rightarrow> int \<times> int \<times> ('a, 'q) call \<Rightarrow> bool" where
  "outage_call cfg start c \<longleftrightarrow> (case c of (before, after, fn) \<Rightarrow>
     start \<le> after \<and> before < start + cooldownMs cfg \<and> (\<forall>q. outcome_of (fst (fn q)) = Call_tripping))"

lemma guarded_calls_budget:
  assumes "guarded_calls cfg calls (b, q) = (rs, b', q')"
    and "\<forall>(k, c) \<in> set calls. k = key \<longrightarrow> outage_call cfg start c"
  shows "int (count_list rs (key, True)) \<le> budget cfg start (mode_of b key)"
  using assms
proof (induction calls arbitrary: b q rs)
  case Nil
  then show ?case by (cases "mode_of b key") auto
next
  case (Cons call calls)
  obtain k before after fn where call: "call = (k, before, after, fn)" by (cases call)
  obtain r b1 q1 where step: "withCircuitBreaker cfg before after k fn (b, q) = (r, b1, q1)"
    using prod_cases3 by blast
  obtain rest where rest: "guarded_calls cfg calls (b1, q1) = (rest, b', q')"
    and rs: "rs = (k, \<not> fst (isOpen cfg before k b)) # rest"
    using Cons.prems(1) by (auto simp: call step Let_def split: prod.splits)
  have IH: "int (count_list rest (key, True)) \<le> budget cfg start (mode_of b1 key)"
    using Cons.IH [OF rest] Cons.prems(2) by simp
  note mode = withCircuitBreaker_refines(1) [OF step, of key]
  show ?case
  proof (cases "k = key")
    case False
    with IH mode show ?thesis by (simp add: rs)
  next
    case True
    with Cons.prems(2) call have window: "start \<le> after" "before < start + cooldownMs cfg"
      and trips: "outcome_of (fst (fn q)) = Call_tripping"
      by (auto simp: outage_call_def)
    show ?thesis
      using True IH mode window trips isOpen_admitted [of cfg before key b]
      by (cases "mode_of b key") (auto simp: rs split: if_splits)
  qed
qed

definition breaker_wf :: "breaker \<Rightarrow> bool" where
  "breaker_wf b \<longleftrightarrow> (\<forall>key n. mode_of b key = Counting n \<longrightarrow> 0 \<le> n)"

lemma breaker_wf_new: "breaker_wf new_breaker"
  by (simp add: breaker_wf_def mode_of_def new_breaker_def)

lemma breaker_wf_call:
  assumes "withCircuitBreaker cfg before after key fn (b, q) = (r, b', q')" and "breaker_wf b"
  shows "breaker_wf b'"
  unfolding breaker_wf_def
proof (intro allI impI)
  fix k n
  assume "mode_of b' k = Counting n"
  with withCircuitBreaker_refines(1) [OF assms(1), of k] assms(2) show "0 \<le> n"
    by (cases "mode_of b key"; cases "outcome_of (fst (fn q))")
      (auto simp: breaker_wf_def split: if_splits)
qed

text \<open>
  An outage costs an integration few calls: if every call for a key in a
  window shorter than the cooldown fails with a tripping error, at most \<open>threshold\<close> of them reach
  the integration, however many are attempted, whatever the breaker's history, and whatever
  is called for other keys in between.
\<close>

lemma outage_bounded_calls:
  assumes "breaker_wf b" and "1 \<le> threshold cfg"
    and "guarded_calls cfg calls (b, q) = (rs, b', q')"
    and "\<forall>(k, c) \<in> set calls. k = key \<longrightarrow> outage_call cfg start c"
  shows "int (count_list rs (key, True)) \<le> threshold cfg"
proof -
  have "budget cfg start (mode_of b key) \<le> threshold cfg"
    using assms(1,2) by (cases "mode_of b key") (auto simp: breaker_wf_def)
  with guarded_calls_budget [OF assms(3,4)] show ?thesis by simp
qed

lemma alerts_getState [simp]: "alerts (snd (getState key b)) = alerts b"
  by (simp add: getState_def set_state_def split: option.splits)

lemma alerts_withCircuitBreaker:
  assumes "withCircuitBreaker cfg before after key fn (b, q) = (r, b', q')"
  shows "\<exists>new. alerts b' = alerts b @ new \<and> (\<forall>k. Closed k \<notin> set new)"
proof -
  obtain is_open b1 where check: "isOpen cfg before key b = (is_open, b1)" by fastforce
  have b1: "alerts b1 = alerts b" "\<not> is_open \<Longrightarrow> \<exists>s. states b1 key = Some s \<and> openedAt s = None"
    using check by (auto simp: isOpen_def breaker_defs split: option.splits if_splits)
  show ?thesis
  proof (cases is_open)
    case True
    with assms b1(1) show ?thesis by (auto simp: withCircuitBreaker_def check)
  next
    case False
    then obtain s where "states b1 key = Some s" "openedAt s = None" using b1(2) by blast
    with False assms b1(1) show ?thesis
      by (auto simp: withCircuitBreaker_def check recordSuccess_def recordFailure_def breaker_defs
          split: prod.splits sum.splits if_splits)
  qed
qed

text \<open>
  The closing of a circuit is never reported: whatever sequence of guarded
  calls is made, the only alerts are openings.  The check in front of every call resets an
  elapsed circuit silently, so the success after it finds the circuit already closed and
  \<open>onClose\<close> is not called; a monitor fed by the two callbacks shows a tripped key as open for ever.
\<close>

lemma closing_never_reported:
  assumes "guarded_calls cfg calls (b, q) = (rs, b', q')"
  shows "\<exists>new. alerts b' = alerts b @ new \<and> (\<forall>key. Closed key \<notin> set new)"
  using assms
proof (induction calls arbitrary: b q rs)
  case Nil
  then show ?case by simp
next
  case (Cons call calls)
  obtain k before after fn where call: "call = (k, before, after, fn)" by (cases call)
  obtain r b1 q1 where step: "withCircuitBreaker cfg before after k fn (b, q) = (r, b1, q1)"
    using prod_cases3 by blast
  obtain rest where rest: "guarded_calls cfg calls (b1, q1) = (rest, b', q')"
    using Cons.prems by (auto simp: call step Let_def split: prod.splits)
  from alerts_withCircuitBreaker [OF step] Cons.IH [OF rest] show ?case
    by (auto simp: Un_iff)
qed

section \<open>Classification\<close>

lemma status_digit_skip:
  "\<forall>x \<in> set pre. x \<notin> set ''45'' \<Longrightarrow> 3 \<le> length rest \<Longrightarrow>
   status_digit w (pre @ rest) = status_digit (if pre = [] then w else is_word_char (last pre)) rest"
proof (induction pre arbitrary: w)
  case Nil
  then show ?case by simp
next
  case (Cons x pre)
  have "2 \<le> length (pre @ rest)" using Cons.prems(2) by simp
  then obtain y z r where yz: "pre @ rest = y # z # r"
    by (auto simp: numeral_2_eq_2 Suc_le_length_iff simp del: length_append)
  have "status_digit w (x # pre @ rest) = status_digit (is_word_char x) (pre @ rest)"
    using Cons.prems(1) by (simp add: yz)
  with Cons show ?case by simp
qed

text \<open>
  The first status in a message decides whether the breaker trips: after a
  prefix without the digits 4 and 5, a three-digit token starting with 5 trips and one starting
  with 4 does not, whatever the rest of the message holds, another status or the name of a
  network error included.
\<close>

lemma first_status_decides:
  assumes "\<forall>x \<in> set pre. x \<notin> set ''45''" and "pre \<noteq> [] \<longrightarrow> \<not> is_word_char (last pre)"
    and "a \<in> set ''45''" and "is_digit b" and "is_digit c"
    and "rest \<noteq> [] \<longrightarrow> \<not> is_word_char (hd rest)"
  shows "isTrippingError (An_error (Error (pre @ [a, b, c] @ rest))) \<longleftrightarrow> a = CHR ''5''"
proof -
  have "status_digit False (pre @ [a, b, c] @ rest) = Some a"
    using assms by (subst status_digit_skip) auto
  then show ?thesis by simp
qed

section \<open>A run to look at\<close>

definition failing_call :: "(string, nat) call" where
  "failing_call q = (Inl (An_error (Error ''QBO returned 503'')), q + 1)"

definition working_call :: "(string, nat) call" where
  "working_call q = (Inr ''inv-1'', q + 1)"

lemma failing_call_trips: "outcome_of (fst (failing_call q)) = Call_tripping"
  by (simp add: failing_call_def is_digit_def is_word_char_def)

definition tripped_breaker :: breaker where
  "tripped_breaker = \<lparr>states = [''qbo:co-1'' \<mapsto>
     \<lparr>failureCount = 3, openedAt = Some 1000, lastError = Some ''QBO returned 503''\<rparr>],
     alerts = [Opened ''qbo:co-1'' 3 ''QBO returned 503'']\<rparr>"

theorem breaker_isolates_and_fails_fast_witness:
  "\<exists>b. withCircuitBreaker DEFAULT_CIRCUIT_BREAKER_CONFIG 2000 2000 ''qbo:co-1'' working_call
      (tripped_breaker, 7) = (Inl (An_error (CircuitOpenError ''qbo:co-1'')), b, 7)"
proof -
  obtain r b q where call: "withCircuitBreaker DEFAULT_CIRCUIT_BREAKER_CONFIG 2000 2000
      ''qbo:co-1'' working_call (tripped_breaker, 7) = (r, b, q)"
    using prod_cases3 by blast
  from breaker_isolates_and_fails_fast [OF call] call show ?thesis
    by (simp add: mode_of_def tripped_breaker_def DEFAULT_CIRCUIT_BREAKER_CONFIG_def)
qed

end
