(* ===== verification/Billing_Circuit.thy ===== *)
theory Billing_Circuit
  imports Billing_Pipeline Circuit_Breaker
begin

text \<open>
  The invoice push of \<open>Billing_Worker\<close> behind the circuit breaker, as the worker builds it
  (\<open>apps/worker/src/runners/rental-billing-push.ts\<close>, with the per-company key of
  \<open>apps/worker/src/qbo-circuit.ts\<close>): what an open circuit does to a run that waits for its push.
  The tracing wrapper around the call is left out.
\<close>

definition qboCircuitKey :: "string \<Rightarrow> string" where
  "qboCircuitKey companyId = ''qbo:'' @ companyId"

definition as_call :: "('q \<Rightarrow> string result \<times> 'q) \<Rightarrow> (string, 'q) call" where
  "as_call push q = (case push q of
     (Inl err, q') \<Rightarrow> (Inl (An_error err), q') | (Inr inv_id, q') \<Rightarrow> (Inr inv_id, q'))"

fun thrown_error :: "thrown \<Rightarrow> js_error" where
  "thrown_error (An_error err) = err"
| "thrown_error (Other_value _) = Error ''unknown error''"

definition buildRentalBillingInvoicePush ::
  "breaker_config \<Rightarrow> int \<Rightarrow> int \<Rightarrow> 'q push_fn \<Rightarrow> (breaker \<times> 'q) push_fn" where
  "buildRentalBillingInvoicePush cfg before after base claimed w =
     (case withCircuitBreaker cfg before after (qboCircuitKey (ob_company_id claimed))
         (as_call (base claimed)) w of
        (Inl err, w') \<Rightarrow> (Inl (thrown_error err), w')
      | (Inr inv_id, w') \<Rightarrow> (Inr inv_id, w'))"

lemma push_open_circuit:
  assumes "admitted cfg before (mode_of b (qboCircuitKey (ob_company_id claimed))) = None"
  obtains b' where "buildRentalBillingInvoicePush cfg before after base claimed (b, q) =
      (Inl (CircuitOpenError (qboCircuitKey (ob_company_id claimed))), b', q)"
    and "mode_of b' = mode_of b"
proof -
  obtain r b' q' where call: "withCircuitBreaker cfg before after
      (qboCircuitKey (ob_company_id claimed)) (as_call (base claimed)) (b, q) = (r, b', q')"
    using prod_cases3 by blast
  have "r = Inl (An_error (CircuitOpenError (qboCircuitKey (ob_company_id claimed)))) \<and> q' = q"
    using withCircuitBreaker_refines(2) [OF call] assms by simp
  moreover have "mode_of b' = mode_of b"
    using withCircuitBreaker_refines(1) [OF call] assms by (auto simp: fun_eq_iff)
  ultimately show ?thesis
    using that call by (simp add: buildRentalBillingInvoicePush_def)
qed

lemma outbox_markOutboxRowFailedFresh:
  assumes "row \<in> set (outbox (markOutboxRowFailedFresh claimed message db))"
    and "outbox_conflict (ob_company_id claimed) (ob_idempotency_key claimed) row"
  shows "ob_status row = ''failed''"
  using assms by (auto simp: markOutboxRowFailedFresh_def update_outbox_row_def outbox_conflict_def
      split: if_splits)

lemma process_row_throw_outbox:
  assumes "process_row push now claimed (db, q) = (r, db', q')" and "push claimed q = (Inl err, q')"
    and "load_run (ob_company_id claimed) (ob_entity_id claimed) db = Some (row, s)"
    and "\<not> present (qbo_invoice_id s)"
    and "ob \<in> set (outbox db')"
    and "outbox_conflict (ob_company_id claimed) (ob_idempotency_key claimed) ob"
  shows "ob_status ob = ''failed''"
proof -
  have "\<not> truthy (row_qbo_invoice_id row)"
    using load_run_state(5) [OF assms(3)] assms(4) by (auto elim: truthy.elims)
  then have "db' = row_recovery now claimed (err_message err) db"
    using assms(1-3) by (auto simp: process_row_def row_tx_def Let_def load_run_Some)
  with assms(5,6) outbox_markOutboxRowFailedFresh show ?thesis
    by (metis (no_types, lifting) row_recovery_def)
qed

text \<open>
  C7: An open circuit does not defer a push, it fails the run: a claimed row of a
  posting run is answered with the circuit-open error without QuickBooks being called, and the
  worker takes it for the push's outcome.  The run becomes \<open>failed\<close> with the breaker's message and
  a \<open>POST_FAILED\<close> row in its log, and the outbox row is marked failed, so that no later drain
  claims it: only a human can post the run again.
\<close>

theorem open_circuit_fails_run:
  assumes "billing_logged companyId runId s0 db"
    and "load_run companyId runId db = Some (row, s)" and "state s = Posting"
    and "\<not> present (qbo_invoice_id s)"
    and "ob_entity_id claimed = runId" and "ob_company_id claimed = companyId"
    and "admitted cfg before (mode_of b (qboCircuitKey companyId)) = None"
  shows "\<exists>db' b' row'. process_row (buildRentalBillingInvoicePush cfg before after base) now claimed
        (db, b, q) = (Row_failed, db', b', q) \<and>
    load_run companyId runId db' = Some (row', outcome_snapshot (iso_now now)
      (Push_failed (''circuit open for qbo:'' @ companyId)) s) \<and>
    length (event_log db') = length (event_log db) + 1 \<and> mode_of b' = mode_of b \<and>
    (\<forall>ob \<in> set (outbox db'). \<forall>t.
      outbox_conflict companyId (ob_idempotency_key claimed) ob \<longrightarrow> \<not> claimable companyId t ob)"
proof -
  let ?push = "buildRentalBillingInvoicePush cfg before after base"
  let ?err = "CircuitOpenError (qboCircuitKey companyId)"
  obtain b' where push: "?push claimed (b, q) = (Inl ?err, b', q)" and b': "mode_of b' = mode_of b"
    using push_open_circuit [of cfg before b claimed after base q] assms(6,7) by metis
  obtain r db' row' s' where fails: "process_row ?push now claimed (db, b, q) = (r, db', b', q)"
      "load_run companyId runId db' = Some (row', s')"
      "length (event_log db') = length (event_log db) + 1"
      "r = Row_failed" "s' = outcome_snapshot (iso_now now) (Push_failed (err_message ?err)) s"
    using process_row_posting [where push = ?push and now = now, OF assms(1-6) push]
    unfolding sum.case by blast
  have "err_message ?err = ''circuit open for qbo:'' @ companyId"
    by (simp add: qboCircuitKey_def)
  moreover have "ob_status ob = ''failed''"
    if "ob \<in> set (outbox db')" "outbox_conflict companyId (ob_idempotency_key claimed) ob" for ob
    using process_row_throw_outbox [OF fails(1) push, of row s ob] assms that by simp
  ultimately show ?thesis
    using fails b' by (auto simp: claimable_def)
qed

theorem open_circuit_fails_run_witness:
  "\<exists>db claimed db' b' row' s'. filter (claimable ''co-1'' 200) (outbox db) = [claimed] \<and>
     process_row (buildRentalBillingInvoicePush DEFAULT_CIRCUIT_BREAKER_CONFIG 2000 2001 example_push)
       example_clock claimed (db, tripped_breaker, []) = (Row_failed, db', b', []) \<and>
     load_run ''co-1'' ''run-1'' db' = Some (row', s') \<and> state s' = Failed"
proof -
  let ?actions = "[Human (example_request ''APPROVE'' 1),
       Human (example_request ''POST_REQUESTED'' 2)] :: string list billing_action list"
  obtain db row s claimed where run: "billing_run ?actions (example_db, []) = (db, [])"
    and loaded: "load_run ''co-1'' ''run-1'' db = Some (row, s)" and s: "state s = Posting"
      "qbo_invoice_id s = Null"
    and claimed: "filter (claimable ''co-1'' 200) (outbox db) = [claimed]"
      "ob_entity_id claimed = ''run-1''" "ob_company_id claimed = ''co-1''"
    using example_posting_ok by blast
  have ok: "list_all (billing_action_ok ''co-1'' ''run-1'') ?actions"
    by (simp add: example_request_def)
  note logged = billing_run_logged [OF created_run_logged [OF example_created] ok run]
  have unposted: "\<not> present (qbo_invoice_id s)" using s(2) by simp
  have tripped: "admitted DEFAULT_CIRCUIT_BREAKER_CONFIG 2000
      (mode_of tripped_breaker (qboCircuitKey ''co-1'')) = None"
    by (simp add: mode_of_def tripped_breaker_def qboCircuitKey_def
        DEFAULT_CIRCUIT_BREAKER_CONFIG_def)
  from open_circuit_fails_run [where base = example_push and now = example_clock and after = 2001
      and q = "[]", OF logged loaded s(1) unposted claimed(2,3) tripped]
  obtain db' b' row' where
      "process_row (buildRentalBillingInvoicePush DEFAULT_CIRCUIT_BREAKER_CONFIG 2000 2001
        example_push) example_clock claimed (db, tripped_breaker, []) = (Row_failed, db', b', [])"
    and "load_run ''co-1'' ''run-1'' db' = Some (row', outcome_snapshot (iso_now example_clock)
      (Push_failed (''circuit open for qbo:'' @ ''co-1'')) s)"
    by blast
  moreover have "state (outcome_snapshot (iso_now example_clock)
      (Push_failed (''circuit open for qbo:'' @ ''co-1'')) s) = Failed"
    by (simp add: outcome_snapshot_def)
  ultimately show ?thesis using claimed(1) by blast
qed

end
