(* ===== verification/Sha256.thy ===== *)
theory Sha256
  imports Prelude "HOL-Library.Word"
begin

unbundle bit_operations_syntax

text \<open>
  The dependency-free SHA-256 of \<open>packages/workflows/src/workflow-event-ref.ts\<close>: the UTF-8 encoding
  of a JavaScript string, the padding, the message schedule and the compression loop, with the
  code's \<open>>>> 0\<close> arithmetic as 32-bit words.  A JavaScript string is the list of its UTF-16 code
  units.  The lemmas show that every digest is 64 hexadecimal digits, that padding fills whole
  blocks and loses nothing, and that the encoding loses nothing.
\<close>

section \<open>Strings of code units\<close>

type_synonym code_units = "16 word list"

definition units :: "string \<Rightarrow> code_units" where
  "units s = map of_char s"

lemma length_units [simp]: "length (units s) = length s"
  by (simp add: units_def)

lemma units_Nil [simp]: "units [] = []"
  by (simp add: units_def)

lemma units_Cons [simp]: "units (c # s) = of_char c # units s"
  by (simp add: units_def)

lemma units_append [simp]: "units (s @ t) = units s @ units t"
  by (simp add: units_def)

section \<open>UTF-8\<close>

definition byte :: "32 word \<Rightarrow> 8 word" where
  "byte w = ucast w"

definition high_surrogate :: "16 word \<Rightarrow> bool" where
  "high_surrogate u \<longleftrightarrow> 0xd800 \<le> u \<and> u \<le> 0xdbff"

definition low_surrogate :: "16 word \<Rightarrow> bool" where
  "low_surrogate u \<longleftrightarrow> 0xdc00 \<le> u \<and> u \<le> 0xdfff"

definition pair_code :: "16 word \<Rightarrow> 16 word \<Rightarrow> 32 word" where
  "pair_code u v = 0x10000 + push_bit 10 (ucast u - 0xd800) + (ucast v - 0xdc00)"

definition encode_code :: "32 word \<Rightarrow> 8 word list" where
  "encode_code code =
     (if code < 0x80 then [byte code]
      else if code < 0x800 then
        [byte (0xc0 OR drop_bit 6 code), byte (0x80 OR (code AND 0x3f))]
      else if code < 0x10000 then
        [byte (0xe0 OR drop_bit 12 code), byte (0x80 OR (drop_bit 6 code AND 0x3f)),
         byte (0x80 OR (code AND 0x3f))]
      else
        [byte (0xf0 OR drop_bit 18 code), byte (0x80 OR (drop_bit 12 code AND 0x3f)),
         byte (0x80 OR (drop_bit 6 code AND 0x3f)), byte (0x80 OR (code AND 0x3f))])"

fun utf8Bytes :: "code_units \<Rightarrow> 8 word list" where
  "utf8Bytes [] = []"
| "utf8Bytes [u] = encode_code (ucast u)"
| "utf8Bytes (u # v # us) =
     (if high_surrogate u \<and> low_surrogate v
      then encode_code (pair_code u v) @ utf8Bytes us
      else encode_code (ucast u) @ utf8Bytes (v # us))"

section \<open>Padding\<close>

text \<open>\<open>while (bytes.length % 64 !== 56) bytes.push(0x00)\<close>\<close>

function push_zeros :: "8 word list \<Rightarrow> 8 word list" where
  "push_zeros bs = (if length bs mod 64 \<noteq> 56 then push_zeros (bs @ [0]) else bs)"
  by pat_completeness auto
termination
proof (relation "measure (\<lambda>bs. if length bs mod 64 \<le> 56 then 56 - length bs mod 64
                                     else 120 - length bs mod 64)")
  show "(bs @ [0], bs) \<in> measure (\<lambda>bs. if length bs mod 64 \<le> 56 then 56 - length bs mod 64
                                               else 120 - length bs mod 64)"
    if "length bs mod 64 \<noteq> 56" for bs :: "8 word list"
  proof -
    define m where "m = length bs mod 64"
    have "m < 64" "m \<noteq> 56" using that by (simp_all add: m_def)
    moreover have "length (bs @ [0]) mod 64 = (if Suc m = 64 then 0 else Suc m)"
      by (simp add: m_def mod_Suc)
    ultimately show ?thesis by (simp add: m_def [symmetric]) linarith
  qed
qed simp

declare push_zeros.simps [simp del]

definition word_bytes :: "32 word \<Rightarrow> 8 word list" where
  "word_bytes w = [byte (drop_bit 24 w AND 0xff), byte (drop_bit 16 w AND 0xff),
     byte (drop_bit 8 w AND 0xff), byte (w AND 0xff)]"

text \<open>\<open>hi\<close> and \<open>lo\<close> are \<open>Math.floor(bitLen / 0x100000000)\<close> and \<open>bitLen >>> 0\<close>.\<close>

definition padded :: "8 word list \<Rightarrow> 8 word list" where
  "padded bytes =
     (let bitLen = length bytes * 8;
          hi = word_of_nat (bitLen div 0x100000000); lo = word_of_nat bitLen
      in push_zeros (bytes @ [0x80]) @ word_bytes hi @ word_bytes lo)"

section \<open>Compression\<close>

text \<open>The table in the rows of the source.\<close>

definition K :: "32 word list" where
  "K = concat
    [[0x428a2f98, 0x71374491, 0xb5c0fbcf, 0xe9b5dba5, 0x3956c25b, 0x59f111f1, 0x923f82a4, 0xab1c5ed5, 0xd807aa98],
     [0x12835b01, 0x243185be, 0x550c7dc3, 0x72be5d74, 0x80deb1fe, 0x9bdc06a7, 0xc19bf174, 0xe49b69c1, 0xefbe4786],
     [0x0fc19dc6, 0x240ca1cc, 0x2de92c6f, 0x4a7484aa, 0x5cb0a9dc, 0x76f988da, 0x983e5152, 0xa831c66d, 0xb00327c8],
     [0xbf597fc7, 0xc6e00bf3, 0xd5a79147, 0x06ca6351, 0x14292967, 0x27b70a85, 0x2e1b2138, 0x4d2c6dfc, 0x53380d13],
     [0x650a7354, 0x766a0abb, 0x81c2c92e, 0x92722c85, 0xa2bfe8a1, 0xa81a664b, 0xc24b8b70, 0xc76c51a3, 0xd192e819],
     [0xd6990624, 0xf40e3585, 0x106aa070, 0x19a4c116, 0x1e376c08, 0x2748774c, 0x34b0bcb5, 0x391c0cb3, 0x4ed8aa4a],
     [0x5b9cca4f, 0x682e6ff3, 0x748f82ee, 0x78a5636f, 0x84c87814, 0x8cc70208, 0x90befffa, 0xa4506ceb, 0xbef9a3f7],
     [0xc67178f2]]"

definition rotr :: "32 word \<Rightarrow> nat \<Rightarrow> 32 word" where
  "rotr v bits = (drop_bit bits v OR push_bit (32 - bits) v)"

definition byte_at :: "8 word list \<Rightarrow> nat \<Rightarrow> 32 word" where
  "byte_at bs i = (if i < length bs then ucast (bs ! i) else 0)"

definition block_word :: "8 word list \<Rightarrow> nat \<Rightarrow> 32 word" where
  "block_word bs j = (push_bit 24 (byte_at bs j) OR push_bit 16 (byte_at bs (j + 1)) OR
     push_bit 8 (byte_at bs (j + 2)) OR byte_at bs (j + 3))"

definition next_word :: "32 word list \<Rightarrow> 32 word" where
  "next_word w =
     (let i = length w;
          w15 = w ! (i - 15); w2 = w ! (i - 2);
          s0 = (rotr w15 7 XOR rotr w15 18 XOR drop_bit 3 w15);
          s1 = (rotr w2 17 XOR rotr w2 19 XOR drop_bit 10 w2)
      in w ! (i - 16) + s0 + w ! (i - 7) + s1)"

fun expand :: "nat \<Rightarrow> 32 word list \<Rightarrow> 32 word list" where
  "expand 0 w = w"
| "expand (Suc n) w = expand n (w @ [next_word w])"

definition schedule :: "8 word list \<Rightarrow> 32 word list" where
  "schedule block = expand 48 (map (\<lambda>i. block_word block (i * 4)) [0..<16])"

datatype sha_state = Sha "32 word" "32 word" "32 word" "32 word" "32 word" "32 word" "32 word" "32 word"

fun sha_round :: "sha_state \<Rightarrow> 32 word \<times> 32 word \<Rightarrow> sha_state" where
  "sha_round (Sha a b c d e f g hh) (k, w) =
     (let S1 = (rotr e 6 XOR rotr e 11 XOR rotr e 25);
          ch = ((e AND f) XOR (NOT e AND g));
          temp1 = hh + S1 + ch + k + w;
          S0 = (rotr a 2 XOR rotr a 13 XOR rotr a 22);
          maj = ((a AND b) XOR (a AND c) XOR (b AND c));
          temp2 = S0 + maj
      in Sha (temp1 + temp2) a b c (d + temp1) e f g)"

fun add_state :: "sha_state \<Rightarrow> sha_state \<Rightarrow> sha_state" where
  "add_state (Sha a b c d e f g h) (Sha a' b' c' d' e' f' g' h') =
     Sha (a + a') (b + b') (c + c') (d + d') (e + e') (f + f') (g + g') (h + h')"

definition compress :: "sha_state \<Rightarrow> 8 word list \<Rightarrow> sha_state" where
  "compress h block = add_state h (foldl sha_round h (zip K (schedule block)))"

fun sha_blocks :: "sha_state \<Rightarrow> 8 word list \<Rightarrow> sha_state" where
  "sha_blocks h [] = h"
| "sha_blocks h (b # bs) = sha_blocks (compress h (take 64 (b # bs))) (drop 64 (b # bs))"

definition initial_hash :: sha_state where
  "initial_hash = Sha 0x6a09e667 0xbb67ae85 0x3c6ef372 0xa54ff53a 0x510e527f 0x9b05688c 0x1f83d9ab 0x5be0cd19"

text \<open>\<open>toString(16)\<close> and \<open>padStart(8, '0')\<close>\<close>

fun to_hex :: "nat \<Rightarrow> string" where
  "to_hex n = (if n < 16 then [hex_digit n] else to_hex (n div 16) @ [hex_digit (n mod 16)])"

declare to_hex.simps [simp del]

definition pad_start :: "nat \<Rightarrow> char \<Rightarrow> string \<Rightarrow> string" where
  "pad_start n c s = replicate (n - length s) c @ s"

definition hex_word :: "32 word \<Rightarrow> string" where
  "hex_word w = pad_start 8 (CHR ''0'') (to_hex (unat w))"

fun hex_state :: "sha_state \<Rightarrow> string" where
  "hex_state (Sha a b c d e f g h) = concat (map hex_word [a, b, c, d, e, f, g, h])"

definition sha256Hex :: "code_units \<Rightarrow> string" where
  "sha256Hex message = hex_state (sha_blocks initial_hash (padded (utf8Bytes message)))"

section \<open>The encoding loses nothing\<close>

text \<open>The code points \<open>utf8Bytes\<close> walks through, and the code units of a code point.\<close>

fun code_points :: "code_units \<Rightarrow> 32 word list" where
  "code_points [] = []"
| "code_points [u] = [ucast u]"
| "code_points (u # v # us) =
     (if high_surrogate u \<and> low_surrogate v then pair_code u v # code_points us
      else ucast u # code_points (v # us))"

definition point_units :: "32 word \<Rightarrow> code_units" where
  "point_units c =
     (if c < 0x10000 then [ucast c]
      else [ucast (drop_bit 10 (c - 0x10000)) + 0xd800, ucast ((c - 0x10000) AND 0x3ff) + 0xdc00])"

lemma utf8Bytes_code_points: "utf8Bytes us = concat (map encode_code (code_points us))"
  by (induction us rule: utf8Bytes.induct) auto

lemma unat_unit_less: "unat (u :: 16 word) < 65536"
  using unsigned_less [where 'b = 16 and 'a = nat, of u] by simp

lemma unat_unit_up [simp]: "unat (ucast (u :: 16 word) :: 32 word) = unat u"
proof -
  have "unat u < 2 ^ 32" using unat_unit_less [of u] by simp
  then show ?thesis by (simp add: unsigned_ucast_eq take_bit_nat_eq_self)
qed

lemma ucast_less_10000 [simp]: "(ucast (u :: 16 word) :: 32 word) < 0x10000"
  using unat_unit_less [of u] by (simp add: word_less_nat_alt)

lemma ucast_less_200000 [simp]: "(ucast (u :: 16 word) :: 32 word) < 0x200000"
  using unat_unit_less [of u] by (simp add: word_less_nat_alt)

lemma unat_pair_code:
  assumes "high_surrogate u" "low_surrogate v"
  shows "unat (pair_code u v) = 0x10000 + (unat u - 0xd800) * 1024 + (unat v - 0xdc00)"
    and "unat u - 0xd800 < 1024" "unat v - 0xdc00 < 1024" "0xd800 \<le> unat u" "0xdc00 \<le> unat v"
proof -
  show u: "0xd800 \<le> unat u" and v: "0xdc00 \<le> unat v"
    and "unat u - 0xd800 < 1024" "unat v - 0xdc00 < 1024"
    using assms unat_mono [of u "0xdc00"] unat_mono [of v "0xe000"]
    by (auto simp: high_surrogate_def low_surrogate_def word_le_nat_alt)
  then have ub: "unat u - 0xd800 < 1024" "unat v - 0xdc00 < 1024" by simp_all
  have su: "unat (ucast u - 0xd800 :: 32 word) = unat u - 0xd800"
    using u by (simp add: unat_sub_if' word_le_nat_alt)
  have sv: "unat (ucast v - 0xdc00 :: 32 word) = unat v - 0xdc00"
    using v by (simp add: unat_sub_if' word_le_nat_alt)
  have "unat (push_bit 10 (ucast u - 0xd800 :: 32 word)) = (unat u - 0xd800) * 1024"
    unfolding push_bit_eq_mult unat_word_ariths su using ub by simp
  then show "unat (pair_code u v) = 0x10000 + (unat u - 0xd800) * 1024 + (unat v - 0xdc00)"
    using ub sv v by (simp add: pair_code_def unat_word_ariths)
qed

lemma pair_code_high: "high_surrogate u \<Longrightarrow> low_surrogate v \<Longrightarrow> \<not> pair_code u v < 0x10000"
  using unat_pair_code [of u v] by (simp add: word_less_nat_alt)

lemma pair_code_less: "high_surrogate u \<Longrightarrow> low_surrogate v \<Longrightarrow> pair_code u v < 0x200000"
  using unat_pair_code [of u v] by (simp add: word_less_nat_alt)

lemma point_units_pair:
  assumes "high_surrogate u" "low_surrogate v"
  shows "point_units (pair_code u v) = [u, v]"
proof -
  note n = unat_pair_code [OF assms]
  define d where "d = pair_code u v - 0x10000"
  have d: "unat d = (unat u - 0xd800) * 1024 + (unat v - 0xdc00)"
    using n by (simp add: d_def unat_sub_if' word_le_nat_alt)
  obtain b where b: "unat v = 0xdc00 + b" "b < 1024"
    using that [of "unat v - 0xdc00"] n(3,5) by simp
  have hi: "unat (ucast (drop_bit 10 d) + 0xd800 :: 16 word) = unat u"
    using n unat_unit_less [of u]
    by (simp add: unat_word_ariths unsigned_ucast_eq take_bit_eq_mod unat_drop_bit_eq drop_bit_eq_div d)
  have m: "d AND 0x3ff = take_bit 10 d"
    by (simp add: take_bit_eq_mask mask_eq_exp_minus_1)
  have lo: "unat (ucast (d AND 0x3ff) + 0xdc00 :: 16 word) = unat v"
    using b unfolding m
    by (simp add: unat_word_ariths unsigned_ucast_eq take_bit_eq_mod unsigned_take_bit_eq take_bit_eq_mod d)
  from hi lo pair_code_high [OF assms] show ?thesis
    by (simp add: point_units_def d_def word_unat_eq_iff)
qed

lemma point_units_unit [simp]: "point_units (ucast u) = [u]"
  by (auto simp: point_units_def bit_simps intro!: bit_word_eqI)

lemma point_units_code_points: "concat (map point_units (code_points us)) = us"
  by (induction us rule: code_points.induct) (auto simp: point_units_pair)

lemma code_points_less: "c \<in> set (code_points us) \<Longrightarrow> c < 0x200000"
proof (induction us rule: code_points.induct)
  case (2 u)
  then show ?case by auto
next
  case (3 u v us)
  then show ?case
    using pair_code_less by (auto split: if_splits)
qed simp

text \<open>The encoding in arithmetic: the table of RFC 3629.\<close>

definition utf8_nat :: "nat \<Rightarrow> nat list" where
  "utf8_nat n =
     (if n < 0x80 then [n]
      else if n < 0x800 then [0xc0 + n div 0x40, 0x80 + n mod 0x40]
      else if n < 0x10000 then
        [0xe0 + n div 0x1000, 0x80 + n div 0x40 mod 0x40, 0x80 + n mod 0x40]
      else
        [0xf0 + n div 0x40000, 0x80 + n div 0x1000 mod 0x40, 0x80 + n div 0x40 mod 0x40,
         0x80 + n mod 0x40])"

lemma take_bit_small:
  assumes "x < 2 ^ k" "k < 32"
  shows "take_bit k (x :: 32 word) = x"
proof -
  have "unat (2 ^ k :: 32 word) = 2 ^ k"
    using assms(2) unsigned_push_bit_eq [where 'b = 32 and 'a = nat, of k 1]
    by (simp only: push_bit_of_1 unsigned_1 take_bit_push_bit) simp
  then show ?thesis
    using assms by (simp add: word_unat_eq_iff unsigned_take_bit_eq take_bit_nat_eq_self word_less_nat_alt)
qed

lemma push_bit_and_small:
  assumes "x < 2 ^ k" "k < 32"
  shows "push_bit k a AND (x :: 32 word) = 0"
proof -
  have "push_bit k a AND take_bit k x = 0"
    by (rule bit_word_eqI) (auto simp: bit_simps)
  then show ?thesis by (simp add: take_bit_small assms)
qed

lemma push_bit_or_small:
  "x < 2 ^ k \<Longrightarrow> k < 32 \<Longrightarrow> (push_bit k a OR x :: 32 word) = push_bit k a + x"
  by (simp add: disjunctive_add_eq_or push_bit_and_small)

lemma or_prefix:
  "x < 0x40 \<Longrightarrow> (0x80 OR x :: 32 word) = 0x80 + x"
  "x < 0x20 \<Longrightarrow> (0xc0 OR x :: 32 word) = 0xc0 + x"
  "x < 0x10 \<Longrightarrow> (0xe0 OR x :: 32 word) = 0xe0 + x"
  "x < 0x8 \<Longrightarrow> (0xf0 OR x :: 32 word) = 0xf0 + x"
  using push_bit_or_small [of x 6 2] push_bit_or_small [of x 5 6] push_bit_or_small [of x 4 14]
    push_bit_or_small [of x 3 30]
  by simp_all

lemma unat_byte: "unat (byte w) = unat w mod 256"
  by (simp add: byte_def unsigned_ucast_eq take_bit_eq_mod)

lemma unat_and_3f: "unat (x AND 0x3f :: 32 word) = unat x mod 64"
proof -
  have "x AND 0x3f = take_bit 6 x"
    unfolding take_bit_eq_mask by (simp add: mask_eq_exp_minus_1)
  then have "unat (x AND 0x3f) = take_bit 6 (unat x)" by (simp only: unsigned_take_bit_eq)
  then show ?thesis by (simp add: take_bit_eq_mod)
qed

lemma unat_drop: "unat (drop_bit k x :: 32 word) = unat x div 2 ^ k"
  unfolding unat_drop_bit_eq by (simp add: drop_bit_eq_div)

lemma tail_byte: "unat (byte (0x80 OR (x AND 0x3f))) = 0x80 + unat x mod 64"
proof -
  have "x AND 0x3f < 0x40" by (simp add: word_less_nat_alt unat_and_3f)
  then have "unat (0x80 OR (x AND 0x3f)) = 0x80 + unat x mod 64"
    by (simp add: or_prefix unat_word_ariths unat_and_3f)
  then show ?thesis by (simp add: unat_byte)
qed

lemma lead_byte:
  "x < 0x20 \<Longrightarrow> unat (byte (0xc0 OR x)) = 0xc0 + unat x"
  "x < 0x10 \<Longrightarrow> unat (byte (0xe0 OR x)) = 0xe0 + unat x"
  "x < 0x8 \<Longrightarrow> unat (byte (0xf0 OR x)) = 0xf0 + unat x"
  by (simp_all add: unat_byte or_prefix unat_word_ariths word_less_nat_alt)

lemma encode_code_utf8:
  assumes "c < 0x200000"
  shows "map unat (encode_code c) = utf8_nat (unat c)"
proof -
  have "drop_bit 6 c < 0x20" if "c < 0x800"
    using that by (simp add: word_less_nat_alt unat_drop less_mult_imp_div_less)
  moreover have "drop_bit 12 c < 0x10" if "c < 0x10000"
    using that by (simp add: word_less_nat_alt unat_drop less_mult_imp_div_less)
  moreover have "drop_bit 18 c < 0x8"
    using assms by (simp add: word_less_nat_alt unat_drop less_mult_imp_div_less)
  moreover have "unat (byte c) = unat c" if "c < 0x80"
    using that by (simp add: unat_byte word_less_nat_alt)
  ultimately show ?thesis
    by (simp only: encode_code_def list.map tail_byte lead_byte unat_drop if_distrib [of "map unat"]
        utf8_nat_def word_less_nat_alt cong: if_cong) (simp add: lead_byte unat_drop)
qed

fun decode_nat :: "nat list \<Rightarrow> nat \<times> nat list" where
  "decode_nat (b # bs) =
     (if b < 0x80 then (b, bs)
      else if b < 0xe0 then ((b - 0xc0) * 64 + (bs ! 0 - 0x80), drop 1 bs)
      else if b < 0xf0 then
        (((b - 0xe0) * 64 + (bs ! 0 - 0x80)) * 64 + (bs ! 1 - 0x80), drop 2 bs)
      else
        ((((b - 0xf0) * 64 + (bs ! 0 - 0x80)) * 64 + (bs ! 1 - 0x80)) * 64 + (bs ! 2 - 0x80),
         drop 3 bs))"
| "decode_nat [] = (0, [])"

lemma decode_utf8_nat:
  assumes "n < 0x200000"
  shows "decode_nat (utf8_nat n @ xs) = (n, xs)"
proof -
  have b: "n div 64 < 32" if "n < 0x800"
    using that by (simp add: less_mult_imp_div_less)
  have c: "n div 4096 < 16" if "n < 0x10000"
    using that by (simp add: less_mult_imp_div_less)
  have d: "n div 64 * 64 + n mod 64 = n" by (rule div_mult_mod_eq)
  have e: "n div 4096 * 64 + n div 64 mod 64 = n div 64"
    using div_mult_mod_eq [of "n div 64" 64] by (simp add: div_mult2_eq [symmetric])
  have f: "n div 262144 * 64 + n div 4096 mod 64 = n div 4096"
    using div_mult_mod_eq [of "n div 4096" 64] by (simp add: div_mult2_eq [symmetric])
  show ?thesis
    using b c by (simp add: utf8_nat_def d e f)
qed

lemma unat_200000: "unat (0x200000 :: 32 word) = 0x200000"
  by simp

lemma encode_code_prefix_free:
  assumes "c < 0x200000" "d < 0x200000" "encode_code c @ xs = encode_code d @ ys"
  shows "c = d \<and> xs = ys"
proof -
  have "utf8_nat (unat c) @ map unat xs = utf8_nat (unat d) @ map unat ys"
    using assms by (simp flip: encode_code_utf8 map_append)
  then have "unat c = unat d"
    using decode_utf8_nat assms(1,2) [unfolded word_less_nat_alt] unat_200000 by (metis fst_conv)
  then have "c = d" by (simp only: word_unat_eq_iff)
  with assms(3) show ?thesis by simp
qed

lemma encode_code_nonempty [simp]: "encode_code c \<noteq> []"
  by (simp add: encode_code_def)

lemma encode_codes_inject:
  "\<lbrakk>\<forall>c \<in> set cs. c < 0x200000; \<forall>d \<in> set ds. d < 0x200000;
    concat (map encode_code cs) = concat (map encode_code ds)\<rbrakk> \<Longrightarrow> cs = ds"
proof (induction cs arbitrary: ds)
  case Nil
  then show ?case by (cases ds) auto
next
  case (Cons c cs)
  have "ds \<noteq> []" using Cons.prems(3) by (metis append_is_Nil_conv concat.simps list.map encode_code_nonempty)
  then obtain d ds' where ds: "ds = d # ds'" by (cases ds) (simp_all only: simp_thms)
  have "encode_code c @ concat (map encode_code cs) = encode_code d @ concat (map encode_code ds')"
    using Cons.prems(3) by (simp only: ds list.map concat.simps)
  moreover have "c < 0x200000" "d < 0x200000" using Cons.prems(1,2) by (simp_all add: ds)
  ultimately have "c = d \<and> concat (map encode_code cs) = concat (map encode_code ds')"
    by (blast dest: encode_code_prefix_free)
  moreover have "\<forall>c \<in> set cs. c < 0x200000" "\<forall>d \<in> set ds'. d < 0x200000"
    using Cons.prems(1,2) by (simp_all add: ds)
  ultimately show ?case using Cons.IH [of ds'] by (simp add: ds)
qed

lemma utf8Bytes_inject [simp]: "utf8Bytes s = utf8Bytes t \<longleftrightarrow> s = t"
proof
  assume "utf8Bytes s = utf8Bytes t"
  then have "code_points s = code_points t"
    using encode_codes_inject code_points_less by (simp add: utf8Bytes_code_points)
  then show "s = t" by (metis point_units_code_points)
qed simp

section \<open>Padding fills whole blocks and loses nothing\<close>

lemma push_zeros_shape: "\<exists>k. push_zeros bs = bs @ replicate k 0"
proof (induction bs rule: push_zeros.induct)
  case (1 bs)
  show ?case
  proof (cases "length bs mod 64 \<noteq> 56")
    case True
    with 1 obtain k where "push_zeros (bs @ [0]) = (bs @ [0]) @ replicate k 0" by blast
    with True have "push_zeros bs = bs @ replicate (Suc k) 0"
      by (subst push_zeros.simps) simp
    then show ?thesis ..
  next
    case False
    then have "push_zeros bs = bs @ replicate 0 0" by (subst push_zeros.simps) simp
    then show ?thesis ..
  qed
qed

lemma length_push_zeros: "length (push_zeros bs) mod 64 = 56"
  by (induction bs rule: push_zeros.induct) (subst push_zeros.simps, simp)

lemma length_word_bytes [simp]: "length (word_bytes w) = 4"
  by (simp add: word_bytes_def)

lemma length_padded: "length (padded bs) mod 64 = 0"
proof -
  have "length (padded bs) = length (push_zeros (bs @ [0x80])) + 8"
    by (simp add: padded_def Let_def)
  then show ?thesis using length_push_zeros [of "bs @ [0x80]"]
    by (simp add: mod_add_left_eq [symmetric, of _ 8])
qed

definition unpad :: "8 word list \<Rightarrow> 8 word list" where
  "unpad bs = rev (tl (dropWhile (\<lambda>b. b = 0) (drop 8 (rev bs))))"

lemma unpad_padded [simp]: "unpad (padded bs) = bs"
proof -
  obtain k where k: "push_zeros (bs @ [0x80]) = (bs @ [0x80]) @ replicate k 0"
    using push_zeros_shape by blast
  have "dropWhile (\<lambda>b. b = 0) (replicate k 0 @ 0x80 # xs) = 0x80 # xs" for xs :: "8 word list"
    by (simp add: dropWhile_append)
  then show ?thesis
    by (simp add: unpad_def padded_def Let_def k)
qed

lemma padded_inject [simp]: "padded bs = padded cs \<longleftrightarrow> bs = cs"
  by (metis unpad_padded)

section \<open>The schedule is the one of FIPS 180-4\<close>

lemma rotr_word_rotr:
  assumes "n < 32"
  shows "rotr v n = word_rotr n v"
proof (rule bit_word_eqI)
  fix i assume i: "i < LENGTH(32)"
  show "bit (rotr v n) i = bit (word_rotr n v) i"
  proof (cases "n + i < 32")
    case True
    then have "\<not> 32 - n \<le> i" by simp
    with True i assms show ?thesis
      by (simp add: rotr_def bit_simps add.commute)
  next
    case False
    then have "\<not> bit v (n + i)" by (simp add: bit_word.rep_eq bit_imp_le_length)
    moreover have "(n + i) mod 32 = n + i - 32"
      using False i assms by (simp add: mod_if)
    moreover have "32 - n \<le> i" using False by simp
    ultimately show ?thesis
      using i assms by (simp add: rotr_def bit_simps add.commute)
  qed
qed

fun fips_schedule :: "8 word list \<Rightarrow> nat \<Rightarrow> 32 word" where
  "fips_schedule M t =
     (if t < 16 then block_word M (4 * t)
      else
        (word_rotr 17 (fips_schedule M (t - 2)) XOR word_rotr 19 (fips_schedule M (t - 2))
           XOR drop_bit 10 (fips_schedule M (t - 2)))
        + fips_schedule M (t - 7)
        + (word_rotr 7 (fips_schedule M (t - 15)) XOR word_rotr 18 (fips_schedule M (t - 15))
           XOR drop_bit 3 (fips_schedule M (t - 15)))
        + fips_schedule M (t - 16))"

declare fips_schedule.simps [simp del]

lemma next_word_fips:
  assumes "16 \<le> n" "w = map (fips_schedule M) [0..<n]"
  shows "next_word w = fips_schedule M n"
  using assms by (subst fips_schedule.simps) (simp add: next_word_def Let_def rotr_word_rotr)

lemma expand_fips:
  "16 \<le> n \<Longrightarrow> expand k (map (fips_schedule M) [0..<n]) = map (fips_schedule M) [0..<n + k]"
proof (induction k arbitrary: n)
  case (Suc k)
  have "map (fips_schedule M) [0..<n] @ [next_word (map (fips_schedule M) [0..<n])]
      = map (fips_schedule M) [0..<Suc n]"
    using Suc.prems by (simp add: next_word_fips [of n])
  with Suc.IH [of "Suc n"] Suc.prems show ?case by simp
qed simp

lemma schedule_fips: "schedule M = map (fips_schedule M) [0..<64]"
proof -
  have "map (\<lambda>i. block_word M (i * 4)) [0..<16] = map (fips_schedule M) [0..<16]"
    by (rule map_cong [OF refl]) (subst fips_schedule.simps, simp add: mult.commute)
  moreover have "expand 48 (map (fips_schedule M) [0..<16]) = map (fips_schedule M) [0..<64]"
    using expand_fips [of 16 48 M] by simp
  ultimately show ?thesis unfolding schedule_def by (simp only:)
qed

section \<open>The digest\<close>

definition is_hex :: "char \<Rightarrow> bool" where
  "is_hex c \<longleftrightarrow> is_digit c \<or> (97 \<le> (of_char c :: nat) \<and> (of_char c :: nat) \<le> 102)"

definition hex_value :: "char \<Rightarrow> nat" where
  "hex_value c = (if is_digit c then of_char c - 48 else of_char c - 87)"

definition read_hex :: "string \<Rightarrow> nat" where
  "read_hex s = fold (\<lambda>c acc. 16 * acc + hex_value c) s 0"

lemma is_hex_hex_digit [simp]: "d < 16 \<Longrightarrow> is_hex (hex_digit d)"
  by (simp add: is_hex_def is_digit_def hex_digit_def)

lemma hex_value_hex_digit [simp]: "d < 16 \<Longrightarrow> hex_value (hex_digit d) = d"
  by (auto simp: hex_value_def is_digit_def hex_digit_def)

lemma to_hex_all_hex: "\<forall>c \<in> set (to_hex n). is_hex c"
proof (induction n rule: to_hex.induct)
  case (1 n)
  then show ?case by (subst to_hex.simps) auto
qed

lemma read_hex_to_hex: "read_hex (replicate k (CHR ''0'') @ to_hex n) = n"
proof (induction n rule: to_hex.induct)
  case (1 n)
  have "hex_value (CHR ''0'') = 0" by (simp add: hex_value_def is_digit_def)
  then have zeros: "fold (\<lambda>c acc. 16 * acc + hex_value c) (replicate k (CHR ''0'')) 0 = 0" for k
    by (induction k) (simp_all del: fold_replicate)
  show ?case
  proof (cases "n < 16")
    case True
    then show ?thesis by (subst to_hex.simps) (simp add: read_hex_def zeros del: fold_replicate)
  next
    case False
    with 1 have "read_hex (replicate k (CHR ''0'') @ to_hex (n div 16)) = n div 16" by simp
    with False show ?thesis by (subst to_hex.simps) (simp add: read_hex_def)
  qed
qed

lemma length_to_hex: "n < 16 ^ Suc k \<Longrightarrow> length (to_hex n) \<le> Suc k"
proof (induction k arbitrary: n)
  case 0
  then show ?case by (subst to_hex.simps) simp
next
  case (Suc k)
  then have "n div 16 < 16 ^ Suc k" by (simp add: less_mult_imp_div_less)
  with Suc.IH have "length (to_hex (n div 16)) \<le> Suc k" by blast
  then show ?case by (subst to_hex.simps) simp
qed

lemma length_hex_word [simp]: "length (hex_word w) = 8"
proof -
  have "unat w < 16 ^ Suc 7" using unsigned_less [where 'b = 32 and 'a = nat, of w] by simp
  then have "length (to_hex (unat w)) \<le> Suc 7" by (rule length_to_hex)
  then show ?thesis by (simp add: hex_word_def pad_start_def)
qed

lemma hex_word_all_hex: "\<forall>c \<in> set (hex_word w). is_hex c"
  using to_hex_all_hex by (auto simp: hex_word_def pad_start_def is_hex_def is_digit_def)

lemma hex_word_inject [simp]: "hex_word v = hex_word w \<longleftrightarrow> v = w"
  by (metis hex_word_def pad_start_def read_hex_to_hex word_unat_eq_iff)

lemma length_sha256Hex: "length (sha256Hex m) = 64"
  by (cases "sha_blocks initial_hash (padded (utf8Bytes m))") (simp add: sha256Hex_def)

lemma sha256Hex_all_hex: "\<forall>c \<in> set (sha256Hex m). is_hex c"
  by (cases "sha_blocks initial_hash (padded (utf8Bytes m))")
    (auto simp: sha256Hex_def hex_word_all_hex [rule_format])

lemma hex_state_inject: "hex_state s = hex_state t \<longleftrightarrow> s = t"
  by (cases s; cases t) simp
end
