(* ===== verification/Event_Ref.thy ===== *)
theory Event_Ref
  imports Sha256
begin

text \<open>
  The transition anchor of \<open>packages/workflows/src/workflow-event-ref.ts\<close>: the string
  \<open>workflow_event:NAME:DIGEST:VERSION\<close> that a browser trace and an event-log row must agree on, its
  parser and its check against a candidate row.  Strings are lists of UTF-16 code units; a
  \<open>state_version\<close> is an integer that a double represents exactly, so \<open>String(n)\<close> is its decimal.
  The theorems give the exact language the parser accepts, the round trip, and what equality of
  two anchors says about the transitions they name.
\<close>

section \<open>Splitting and joining at a separator\<close>

text \<open>\<open>s.split(c)\<close> and \<open>parts.join(c)\<close>.\<close>

fun split_on :: "'a \<Rightarrow> 'a list \<Rightarrow> 'a list list" where
  "split_on c [] = [[]]"
| "split_on c (x # xs) =
     (if x = c then [] # split_on c xs
      else (case split_on c xs of [] \<Rightarrow> [[x]] | p # ps \<Rightarrow> (x # p) # ps))"

fun join_with :: "'a \<Rightarrow> 'a list list \<Rightarrow> 'a list" where
  "join_with c [] = []"
| "join_with c [p] = p"
| "join_with c (p # q # ps) = p @ c # join_with c (q # ps)"

lemma split_on_nonempty [simp]: "split_on c xs \<noteq> []"
  by (cases xs) (auto split: list.splits)

lemma split_on_append: "split_on c (xs @ c # ys) = split_on c xs @ split_on c ys"
  by (induction xs) (auto split: list.splits)

lemma split_on_no_sep: "c \<notin> set xs \<Longrightarrow> split_on c xs = [xs]"
  by (induction xs) auto

lemma split_on_parts: "\<forall>p \<in> set (split_on c xs). c \<notin> set p"
  by (induction xs) (auto split: list.splits)

lemma join_with_Cons: "ps \<noteq> [] \<Longrightarrow> join_with c (p # ps) = p @ c # join_with c ps"
  by (cases ps) auto

lemma join_with_snoc: "ps \<noteq> [] \<Longrightarrow> join_with c (ps @ [p]) = join_with c ps @ c # p"
  by (induction ps rule: join_with.induct) auto

lemma join_split [simp]: "join_with c (split_on c xs) = xs"
proof (induction xs)
  case (Cons x xs)
  have "join_with c ((x # p) # ps) = x # join_with c (p # ps)" for p ps
    by (cases ps) auto
  with Cons show ?case
    by (cases "split_on c xs") (auto simp: join_with_Cons simp del: join_with.simps(3))
qed simp

section \<open>The anchor\<close>

definition unit :: "char \<Rightarrow> 16 word" where
  "unit c = of_char c"

definition colon :: "16 word" where
  "colon = unit (CHR '':'')"

record event_ref_input =
  er_workflow_name :: code_units
  er_entity_id :: code_units
  er_state_version :: int

definition canonicalAnchorString :: "event_ref_input \<Rightarrow> code_units" where
  "canonicalAnchorString inp =
     er_workflow_name inp @ [colon] @ er_entity_id inp @ [colon] @ units (show_int (er_state_version inp))"

definition WORKFLOW_EVENT_REF_PREFIX :: code_units where
  "WORKFLOW_EVENT_REF_PREFIX = units ''workflow_event:''"

definition digest16 :: "event_ref_input \<Rightarrow> string" where
  "digest16 inp = take 16 (sha256Hex (canonicalAnchorString inp))"

definition workflowEventRef :: "event_ref_input \<Rightarrow> code_units" where
  "workflowEventRef inp =
     units ''workflow_event:'' @ er_workflow_name inp @ [colon] @ units (digest16 inp) @ [colon]
       @ units (show_int (er_state_version inp))"

record parsed_event_ref =
  pr_workflow_name :: code_units
  pr_digest :: code_units
  pr_state_version :: int

text \<open>The regular expressions \<open>/^[0-9a-f]{16}$/\<close> and \<open>/^\d+$/\<close>.\<close>

definition unit_digit :: "16 word \<Rightarrow> bool" where
  "unit_digit u \<longleftrightarrow> 48 \<le> u \<and> u \<le> 57"

definition unit_hex :: "16 word \<Rightarrow> bool" where
  "unit_hex u \<longleftrightarrow> unit_digit u \<or> (97 \<le> u \<and> u \<le> 102)"

definition digest_regex :: "code_units \<Rightarrow> bool" where
  "digest_regex us \<longleftrightarrow> length us = 16 \<and> list_all unit_hex us"

definition version_regex :: "code_units \<Rightarrow> bool" where
  "version_regex us \<longleftrightarrow> us \<noteq> [] \<and> list_all unit_digit us"

text \<open>
  \<open>Number(versionPart)\<close> on a digit string: exact up to \<open>MAX_SAFE_INTEGER\<close>; a larger value rounds to
  a double above it, which \<open>Number.isSafeInteger\<close> refuses as it refuses the exact value.
\<close>

definition number_of :: "code_units \<Rightarrow> int" where
  "number_of us = int (fold (\<lambda>u acc. 10 * acc + (unat u - 48)) us 0)"

definition MAX_SAFE_INTEGER :: int where
  "MAX_SAFE_INTEGER = 2 ^ 53 - 1"

definition isSafeInteger :: "int \<Rightarrow> bool" where
  "isSafeInteger i \<longleftrightarrow> \<bar>i\<bar> \<le> MAX_SAFE_INTEGER"

definition parseWorkflowEventRef :: "code_units \<Rightarrow> parsed_event_ref option" where
  "parseWorkflowEventRef ref =
     (if take (length WORKFLOW_EVENT_REF_PREFIX) ref \<noteq> WORKFLOW_EVENT_REF_PREFIX then None
      else
        let body = drop (length WORKFLOW_EVENT_REF_PREFIX) ref;
            parts = split_on colon body
        in if length parts < 3 then None
           else
             let versionPart = parts ! (length parts - 1);
                 digest = parts ! (length parts - 2);
                 workflow_name = join_with colon (take (length parts - 2) parts)
             in if workflow_name = [] then None
                else if \<not> digest_regex digest then None
                else if \<not> version_regex versionPart then None
                else if \<not> isSafeInteger (number_of versionPart) then None
                else Some \<lparr>pr_workflow_name = workflow_name, pr_digest = digest,
                           pr_state_version = number_of versionPart\<rparr>)"

definition matchesWorkflowEventRef :: "code_units \<Rightarrow> event_ref_input \<Rightarrow> bool" where
  "matchesWorkflowEventRef ref candidate \<longleftrightarrow> workflowEventRef candidate = ref"

section \<open>Code units of digits\<close>

lemma unat_of_char [simp]: "unat (of_char c :: 16 word) = of_char c"
proof -
  have "(of_char c :: nat) < 256" by simp
  then have "(of_char c :: nat) < 2 ^ 16" by (rule less_trans) simp
  then have "take_bit 16 (of_char c :: nat) = of_char c"
    by (rule take_bit_nat_eq_self)
  moreover have "(of_char c :: 16 word) = word_of_nat (of_char c)"
    by (simp add: of_nat_of_char)
  ultimately show ?thesis by (simp only: unsigned_of_nat) simp
qed

lemma of_char_inject [simp]: "(of_char c :: 16 word) = of_char d \<longleftrightarrow> c = d"
  by (metis unat_of_char of_char_eq_iff)

lemma units_inject [simp]: "units s = units t \<longleftrightarrow> s = t"
  unfolding units_def by (rule inj_map_eq_map) (simp add: inj_def)

lemma unit_digit_of_char [simp]: "unit_digit (of_char c) \<longleftrightarrow> is_digit c"
  by (simp add: unit_digit_def is_digit_def word_le_nat_alt)

lemma unit_hex_of_char [simp]: "unit_hex (of_char c) \<longleftrightarrow> is_hex c"
  by (simp add: unit_hex_def is_hex_def word_le_nat_alt)

lemma colon_not_hex [simp]: "\<not> unit_hex colon" "\<not> unit_digit colon"
  by (simp_all add: colon_def unit_def unit_hex_def unit_digit_def)

lemma digest_no_colon: "digest_regex d \<Longrightarrow> colon \<notin> set d"
  using colon_not_hex by (auto simp: digest_regex_def list_all_iff)

lemma version_no_colon: "version_regex v \<Longrightarrow> colon \<notin> set v"
  using colon_not_hex by (auto simp: version_regex_def list_all_iff)

lemma digest_regex_digest16 [simp]: "digest_regex (units (digest16 inp))"
  using sha256Hex_all_hex length_sha256Hex
  by (auto simp: digest_regex_def digest16_def units_def list_all_iff dest: in_set_takeD)

lemma version_regex_show_int [simp]: "version_regex (units (show_int i)) \<longleftrightarrow> 0 \<le> i"
proof (cases "i < 0")
  case True
  then show ?thesis by (simp add: show_int_def version_regex_def unit_digit_def)
next
  case False
  then show ?thesis using show_nat_digits [of "nat i"]
    by (auto simp: show_int_def version_regex_def units_def list_all_iff)
qed

lemma number_of_units:
  "\<forall>c \<in> set s. is_digit c \<Longrightarrow> number_of (units s) = int (read_nat s)"
  by (simp add: number_of_def read_nat_def units_def fold_map digit_value_def comp_def)

lemma number_of_show_int: "0 \<le> i \<Longrightarrow> number_of (units (show_int i)) = i"
  using show_nat_digits by (simp add: show_int_nonneg number_of_units)

lemma number_of_nonneg: "0 \<le> number_of us"
  by (simp add: number_of_def)
section \<open>What the parser accepts\<close>

lemma take_prefix_iff: "take (length p) s = p \<longleftrightarrow> (\<exists>t. s = p @ t)"
  by (metis append_take_drop_id append_eq_conv_conj)

lemma split_on_anchor:
  "digest_regex d \<Longrightarrow> version_regex v \<Longrightarrow>
   split_on colon (n @ colon # d @ colon # v) = split_on colon n @ [d, v]"
  by (simp add: split_on_append split_on_no_sep digest_no_colon version_no_colon)

lemma three_parts:
  assumes "3 \<le> length parts"
  shows "\<exists>ns d v. ns \<noteq> [] \<and> parts = ns @ [d, v]"
proof -
  have "parts = take (length parts - 2) parts @ drop (length parts - 2) parts" by simp
  moreover have "length (drop (length parts - 2) parts) = Suc (Suc 0)" using assms by simp
  then obtain d v where "drop (length parts - 2) parts = [d, v]"
    unfolding length_Suc_conv by auto
  moreover have "take (length parts - 2) parts \<noteq> []" using assms by auto
  ultimately show ?thesis by metis
qed

lemma parse_anchor:
  assumes "digest_regex d" "version_regex v"
  shows "parseWorkflowEventRef (WORKFLOW_EVENT_REF_PREFIX @ n @ colon # d @ colon # v) =
    (if n \<noteq> [] \<and> isSafeInteger (number_of v)
     then Some \<lparr>pr_workflow_name = n, pr_digest = d, pr_state_version = number_of v\<rparr> else None)"
proof -
  have "0 < length (split_on colon n)" by simp
  then show ?thesis
    using assms by (simp add: parseWorkflowEventRef_def Let_def split_on_anchor nth_append)
qed

lemma parse_Some_anchor:
  assumes "parseWorkflowEventRef ref = Some p"
  shows "\<exists>v. ref = WORKFLOW_EVENT_REF_PREFIX @ pr_workflow_name p @ colon # pr_digest p @ colon # v
      \<and> digest_regex (pr_digest p) \<and> version_regex v"
proof -
  from assms obtain body where ref: "ref = WORKFLOW_EVENT_REF_PREFIX @ body"
    by (auto simp: parseWorkflowEventRef_def take_prefix_iff split: if_splits)
  with assms have "3 \<le> length (split_on colon body)"
    by (auto simp: parseWorkflowEventRef_def Let_def split: if_splits)
  then obtain ns d v where parts: "ns \<noteq> []" "split_on colon body = ns @ [d, v]"
    using three_parts by blast
  have "body = join_with colon (split_on colon body)" by simp
  also have "\<dots> = join_with colon ns @ colon # d @ colon # v"
    using parts(1) join_with_snoc [of "ns @ [d]" colon v] join_with_snoc [of ns colon d]
    by (simp add: parts(2))
  finally have body: "body = join_with colon ns @ colon # d @ colon # v" .
  have "p = \<lparr>pr_workflow_name = join_with colon ns, pr_digest = d, pr_state_version = number_of v\<rparr>
      \<and> digest_regex d \<and> version_regex v"
    using assms by (auto simp: ref parts parseWorkflowEventRef_def Let_def nth_append split: if_splits)
  with ref body show ?thesis by auto
qed

lemma show_int_units_inject:
  "units (show_int i) = units (show_int j) \<longleftrightarrow> i = j"
  by simp

lemma colon_notin_show_int: "colon \<notin> set (units (show_int i))"
proof -
  have "CHR '':'' \<notin> set (show_int i)"
    using show_nat_digits [of "nat i"] show_nat_digits [of "nat (- i)"]
    by (auto simp: show_int_def is_digit_def)
  then show ?thesis
    unfolding units_def colon_def unit_def set_map by (metis imageE of_char_inject)
qed

lemma anchor_parts_inject:
  assumes "n @ colon # d @ colon # v = n' @ colon # d' @ colon # v'"
    and "digest_regex d" "digest_regex d'" "colon \<notin> set v" "colon \<notin> set v'"
  shows "n = n' \<and> d = d' \<and> v = v'"
proof -
  have "split_on colon n @ [d, v] = split_on colon n' @ [d', v']"
    using arg_cong [OF assms(1), of "split_on colon"] assms(2-)
    by (simp add: split_on_append split_on_no_sep digest_no_colon)
  then have "split_on colon n = split_on colon n'" "d = d'" "v = v'" by simp_all
  then show ?thesis by (metis join_split)
qed

text \<open>The first two words of the final hash: the 64 bits that \<open>.slice(0, 16)\<close> keeps.\<close>

fun head_words :: "sha_state \<Rightarrow> 32 word \<times> 32 word" where
  "head_words (Sha a b c d e f g h) = (a, b)"

definition anchor_hash :: "event_ref_input \<Rightarrow> 32 word \<times> 32 word" where
  "anchor_hash inp =
     head_words (sha_blocks initial_hash (padded (utf8Bytes (canonicalAnchorString inp))))"

lemma take_hex_state:
  "take 16 (hex_state s) = hex_word (fst (head_words s)) @ hex_word (snd (head_words s))"
  by (cases s) simp

lemma digest16_inject: "digest16 i = digest16 j \<longleftrightarrow> anchor_hash i = anchor_hash j"
  by (simp add: digest16_def sha256Hex_def take_hex_state anchor_hash_def prod_eq_iff)

lemma workflowEventRef_anchor:
  "workflowEventRef inp = WORKFLOW_EVENT_REF_PREFIX @ er_workflow_name inp @ colon #
     units (digest16 inp) @ colon # units (show_int (er_state_version inp))"
  by (simp add: workflowEventRef_def WORKFLOW_EVENT_REF_PREFIX_def)

lemma canonical_entity_inject:
  "er_workflow_name i = er_workflow_name j \<Longrightarrow> er_state_version i = er_state_version j \<Longrightarrow>
   canonicalAnchorString i = canonicalAnchorString j \<longleftrightarrow> er_entity_id i = er_entity_id j"
  by (simp add: canonicalAnchorString_def)

section \<open>Properties\<close>

text \<open>
  \<open>parseWorkflowEventRef\<close> accepts exactly the strings
  \<open>workflow_event:NAME:DIGEST:VERSION\<close> whose name is not empty (and may contain colons), whose digest is
  16 lower-case hexadecimal digits and whose version is a digit string of value at most
  \<open>2^53 - 1\<close>, and returns those parts.
\<close>
lemma event_ref_parse_iff:
  "parseWorkflowEventRef ref = Some p \<longleftrightarrow>
     (\<exists>v. ref = WORKFLOW_EVENT_REF_PREFIX @ pr_workflow_name p @ [colon] @ pr_digest p @ [colon] @ v
        \<and> pr_workflow_name p \<noteq> [] \<and> digest_regex (pr_digest p) \<and> version_regex v
        \<and> pr_state_version p = number_of v \<and> number_of v \<le> MAX_SAFE_INTEGER)"
    (is "?L = ?R")
proof
  assume L: ?L
  then obtain v where v: "ref = WORKFLOW_EVENT_REF_PREFIX @ pr_workflow_name p @ colon # pr_digest p @ colon # v"
    "digest_regex (pr_digest p)" "version_regex v"
    using parse_Some_anchor by blast
  with L have "p = \<lparr>pr_workflow_name = pr_workflow_name p, pr_digest = pr_digest p,
      pr_state_version = number_of v\<rparr>" "pr_workflow_name p \<noteq> []" "isSafeInteger (number_of v)"
    by (auto simp: parse_anchor split: if_splits)
  moreover from this(1) have "pr_state_version p = number_of v"
    by (metis parsed_event_ref.select_convs(3))
  ultimately show ?R using v by (auto simp: isSafeInteger_def)
next
  assume ?R
  then show ?L
    by (auto simp: parse_anchor isSafeInteger_def abs_of_nonneg number_of_nonneg)
qed

text \<open>
  C31: an anchor parses back to its workflow name, its digest and its version exactly
  when the name is not empty and the version is a safe integer that is not negative; otherwise the
  parser refuses it.
\<close>
theorem event_ref_roundtrip:
  "parseWorkflowEventRef (workflowEventRef inp) =
     (if er_workflow_name inp \<noteq> [] \<and> 0 \<le> er_state_version inp
         \<and> er_state_version inp \<le> MAX_SAFE_INTEGER
      then Some \<lparr>pr_workflow_name = er_workflow_name inp, pr_digest = units (digest16 inp),
                 pr_state_version = er_state_version inp\<rparr>
      else None)"
proof (cases "0 \<le> er_state_version inp")
  case True
  then show ?thesis
    by (simp add: workflowEventRef_anchor parse_anchor number_of_show_int isSafeInteger_def)
next
  case False
  have "parseWorkflowEventRef (workflowEventRef inp) \<noteq> Some p" for p
  proof
    assume "parseWorkflowEventRef (workflowEventRef inp) = Some p"
    then obtain v where v: "workflowEventRef inp =
        WORKFLOW_EVENT_REF_PREFIX @ pr_workflow_name p @ colon # pr_digest p @ colon # v"
      "digest_regex (pr_digest p)" "version_regex v"
      using parse_Some_anchor by blast
    then have "version_regex (units (show_int (er_state_version inp)))"
      using anchor_parts_inject [of "er_workflow_name inp" "units (digest16 inp)"
          "units (show_int (er_state_version inp))" "pr_workflow_name p" "pr_digest p" v]
      by (simp add: workflowEventRef_anchor colon_notin_show_int version_no_colon)
    with False show False by simp
  qed
  with False show ?thesis by (cases "parseWorkflowEventRef (workflowEventRef inp)") auto
qed

text \<open>
  two anchors are the same string exactly when they name the same workflow and
  version and the first 64 bits of the two SHA-256 states agree; and the messages those states are
  computed from, after UTF-8 encoding and padding, differ whenever the canonical strings differ.  So
  two anchors of different entities can only coincide through a collision of the truncated hash,
  never through the encoding, the padding or a colon in a name.
\<close>
lemma event_refs_equal_iff:
  "(workflowEventRef i = workflowEventRef j \<longleftrightarrow>
      er_workflow_name i = er_workflow_name j \<and> er_state_version i = er_state_version j
        \<and> anchor_hash i = anchor_hash j)
   \<and> (padded (utf8Bytes (canonicalAnchorString i)) = padded (utf8Bytes (canonicalAnchorString j))
      \<longleftrightarrow> canonicalAnchorString i = canonicalAnchorString j)"
proof
  show "workflowEventRef i = workflowEventRef j \<longleftrightarrow>
      er_workflow_name i = er_workflow_name j \<and> er_state_version i = er_state_version j
        \<and> anchor_hash i = anchor_hash j"
    using anchor_parts_inject [of "er_workflow_name i" "units (digest16 i)"
          "units (show_int (er_state_version i))" "er_workflow_name j" "units (digest16 j)"
          "units (show_int (er_state_version j))"]
    by (auto simp: workflowEventRef_anchor colon_notin_show_int digest16_inject [symmetric])
qed simp

end
