(* ===== verification/Canonical_Json.thy ===== *)
theory Canonical_Json
  imports Js_Equality "HOL-Library.List_Lexorder" "HOL-Library.Char_ord" "HOL-Library.Multiset"
begin

text \<open>
  \<open>canonicalizeJSON\<close> of \<open>packages/queue/src/audit-escrow.ts\<close>, the text an escrow entry hashes and
  signs: keys sorted at every depth, array order kept, \<open>JSON.stringify\<close> for primitives, dates and
  big integers as strings, everything else refused.  A value that reaches it is an \<open>unknown\<close> of
  JavaScript; numbers are integers.  The specification is the normal form of a value, and the text
  determines the normal form.
\<close>

section \<open>Values\<close>

text \<open>
  \<open>CNonFinite\<close> is \<open>NaN\<close> or an infinity, \<open>CUnsupported t\<close> a value whose \<open>typeof\<close> is \<open>t\<close> (a function or a
  symbol), \<open>CDate None\<close> an invalid date; a valid one is its time in milliseconds.
\<close>

datatype cv =
    CUndef
  | CNull
  | CStr string
  | CNum int
  | CNonFinite
  | CBool bool
  | CBigint int
  | CArr "cv list"
  | CDate "int option"
  | CObj "(string \<times> cv) list"
  | CUnsupported string

section \<open>Dates\<close>

text \<open>\<open>Date.prototype.toISOString\<close>: the civil date of a day number, and the fixed-width fields.\<close>

definition civil_of_days :: "int \<Rightarrow> int \<times> int \<times> int" where
  "civil_of_days days =
     (let z = days + 719468;
          era = z div 146097;
          doe = z mod 146097;
          yoe = (doe - doe div 1460 + doe div 36524 - doe div 146096) div 365;
          doy = doe - (365 * yoe + yoe div 4 - yoe div 100);
          mp = (5 * doy + 2) div 153;
          d = doy - (153 * mp + 2) div 5 + 1;
          m = (if mp < 10 then mp + 3 else mp - 9);
          y = yoe + era * 400
      in (if m \<le> 2 then y + 1 else y, m, d))"

definition padded_nat :: "nat \<Rightarrow> int \<Rightarrow> string" where
  "padded_nat w n = (let s = show_nat (nat n) in replicate (w - length s) (CHR ''0'') @ s)"

definition show_year :: "int \<Rightarrow> string" where
  "show_year y =
     (if 0 \<le> y \<and> y \<le> 9999 then padded_nat 4 y
      else if y < 0 then ''-'' @ padded_nat 6 (- y) else ''+'' @ padded_nat 6 y)"

definition toISOString :: "int \<Rightarrow> string" where
  "toISOString t =
     (let (y, m, d) = civil_of_days (t div 86400000); ms = t mod 86400000
      in show_year y @ ''-'' @ padded_nat 2 m @ ''-'' @ padded_nat 2 d @ ''T'' @
         padded_nat 2 (ms div 3600000) @ '':'' @ padded_nat 2 (ms div 60000 mod 60) @ '':'' @
         padded_nat 2 (ms div 1000 mod 60) @ ''.'' @ padded_nat 3 (ms mod 1000) @ ''Z'')"

section \<open>canonicalizeJSON\<close>

definition array_text :: "string list \<Rightarrow> string" where
  "array_text items = ''['' @ join '','' items @ '']''"

definition object_text :: "string list \<Rightarrow> string" where
  "object_text parts = [CHR 0x7B] @ join '','' parts @ [CHR 0x7D]"

fun canonicalizeJSON :: "cv \<Rightarrow> string result" where
  "canonicalizeJSON CUndef = Inr ''null''"
| "canonicalizeJSON CNull = Inr ''null''"
| "canonicalizeJSON (CStr s) = Inr (quote s)"
| "canonicalizeJSON (CNum n) = Inr (show_int n)"
| "canonicalizeJSON CNonFinite = Inl (Error ''non-finite number in audit escrow payload'')"
| "canonicalizeJSON (CBool b) = Inr (if b then ''true'' else ''false'')"
| "canonicalizeJSON (CBigint n) = Inr (quote (show_int n))"
| "canonicalizeJSON (CArr xs) = map_result array_text (all_results (map canonicalizeJSON xs))"
| "canonicalizeJSON (CDate d) =
     (case d of None \<Rightarrow> Inl (Error ''Invalid time value'') | Some t \<Rightarrow> Inr (quote (toISOString t)))"
| "canonicalizeJSON (CObj kvs) =
     map_result object_text (all_results
       (map (\<lambda>(k, r). map_result (\<lambda>s. quote k @ '':'' @ s) r)
         (sort_key fst
           (map (\<lambda>p. (fst p, canonicalizeJSON (snd p))) (filter (\<lambda>p. snd p \<noteq> CUndef) kvs)))))"
| "canonicalizeJSON (CUnsupported t) =
     Inl (Error (''unsupported value type in audit escrow payload: '' @ t))"

section \<open>The normal form\<close>

text \<open>
  A value is acceptable when every value in it that is kept has a text; its normal form sorts the
  keys, drops missing fields, and writes dates and big integers as strings.
\<close>

fun acceptable :: "cv \<Rightarrow> bool" where
  "acceptable CNonFinite = False"
| "acceptable (CUnsupported _) = False"
| "acceptable (CDate d) = (d \<noteq> None)"
| "acceptable (CArr xs) = (\<forall>x \<in> set xs. acceptable x)"
| "acceptable (CObj kvs) = (\<forall>p \<in> set kvs. acceptable (snd p))"
| "acceptable _ = True"

fun normal :: "cv \<Rightarrow> cv" where
  "normal CUndef = CNull"
| "normal (CBigint n) = CStr (show_int n)"
| "normal (CDate (Some t)) = CStr (toISOString t)"
| "normal (CArr xs) = CArr (map normal xs)"
| "normal (CObj kvs) =
     CObj (sort_key fst (map (\<lambda>p. (fst p, normal (snd p))) (filter (\<lambda>p. snd p \<noteq> CUndef) kvs)))"
| "normal v = v"

fun plain :: "cv \<Rightarrow> bool" where
  "plain CNull = True"
| "plain (CStr _) = True"
| "plain (CNum _) = True"
| "plain (CBool _) = True"
| "plain (CArr xs) = (\<forall>x \<in> set xs. plain x)"
| "plain (CObj kvs) = (\<forall>p \<in> set kvs. plain (snd p))"
| "plain _ = False"

fun text_of :: "cv \<Rightarrow> string" where
  "text_of (CStr s) = quote s"
| "text_of (CNum n) = show_int n"
| "text_of (CBool b) = (if b then ''true'' else ''false'')"
| "text_of (CArr xs) = array_text (map text_of xs)"
| "text_of (CObj kvs) = object_text (map (\<lambda>p. quote (fst p) @ '':'' @ text_of (snd p)) kvs)"
| "text_of _ = ''null''"

lemma canonicalize_ok: "is_ok (canonicalizeJSON v) \<longleftrightarrow> acceptable v"
proof (induction v)
  case (CObj kvs)
  have "(b \<noteq> CUndef \<longrightarrow> is_ok (canonicalizeJSON b)) \<longleftrightarrow> acceptable b"
    if "(a, b) \<in> set kvs" for a b
    using CObj [of "(a, b)" b] that by (cases "b = CUndef") auto
  then show ?case
    unfolding canonicalizeJSON.simps acceptable.simps is_ok_map_result is_ok_all_results
    by (fastforce simp: split_beta)
qed (auto simp: is_ok_all_results split: option.splits)

lemma plain_normal: "acceptable v \<Longrightarrow> plain (normal v)"
  by (induction v rule: normal.induct) auto

lemma map_sort_key: "map f (sort_key (\<lambda>x. g (f x)) xs) = sort_key g (map f xs)"
proof (induction xs)
  case (Cons x xs)
  have "map f (insort_key (\<lambda>x. g (f x)) x ys) = insort_key g (f x) (map f ys)" for ys
    by (induction ys) auto
  with Cons show ?case by simp
qed simp

lemma canonicalize_text: "acceptable v \<Longrightarrow> canonicalizeJSON v = Inr (text_of (normal v))"
proof (induction v rule: normal.induct)
  case (5 kvs)
  let ?kvs = "filter (\<lambda>p. snd p \<noteq> CUndef) kvs"
  let ?g = "\<lambda>p. (fst p, Inr (text_of (snd p)) :: string result)"
  have "map (\<lambda>p. (fst p, canonicalizeJSON (snd p))) ?kvs
      = map ?g (map (\<lambda>p. (fst p, normal (snd p))) ?kvs)"
    using 5 by (auto simp: comp_def)
  moreover have "sort_key fst (map ?g xs) = map ?g (sort_key fst xs)" for xs :: "(string \<times> cv) list"
    using map_sort_key [of ?g fst xs] by simp
  ultimately have sorted: "sort_key fst (map (\<lambda>p. (fst p, canonicalizeJSON (snd p))) ?kvs)
      = map ?g (sort_key fst (map (\<lambda>p. (fst p, normal (snd p))) ?kvs))"
    by (simp only:)
  show ?case
    unfolding canonicalizeJSON.simps sorted map_map comp_def split_beta fst_conv snd_conv
      map_result_Inr all_results_map_Inr normal.simps text_of.simps
    by (rule refl)
next
  case (4 xs)
  then have texts: "map canonicalizeJSON xs = map (\<lambda>x. Inr (text_of (normal x))) xs" by simp
  show ?case by (simp add: comp_def texts del: map_eq_conv)
qed auto

section \<open>The text determines the normal form\<close>

text \<open>
  No text is the beginning of another: what follows a text is found again, provided a number is not
  followed by a digit.
\<close>

definition no_digit :: "string \<Rightarrow> bool" where
  "no_digit s \<longleftrightarrow> (case s of [] \<Rightarrow> True | c # _ \<Rightarrow> \<not> is_digit c)"

lemma takeWhile_digits: "no_digit xs \<Longrightarrow> takeWhile is_digit (show_nat n @ xs) = show_nat n"
  using show_nat_digits [of n]
  by (cases xs) (simp_all add: no_digit_def takeWhile_append takeWhile_eq_all_conv)

lemma show_nat_append_inject:
  assumes "no_digit xs" "no_digit ys" "show_nat m @ xs = show_nat n @ ys"
  shows "m = n \<and> xs = ys"
proof -
  have "show_nat m = show_nat n"
    using takeWhile_digits [OF assms(1), of m] takeWhile_digits [OF assms(2), of n] assms(3) by simp
  with assms(3) show ?thesis by simp
qed

lemma show_nat_head: "\<exists>c s. show_nat n = c # s \<and> is_digit c"
  using show_nat_digits [of n] by (cases "show_nat n") auto

lemma show_int_append_inject:
  assumes "no_digit xs" "no_digit ys" "show_int i @ xs = show_int j @ ys"
  shows "i = j \<and> xs = ys"
proof -
  have "show_nat m @ zs \<noteq> CHR ''-'' # zs'" for m zs zs'
    using show_nat_head [of m] by (auto simp: is_digit_def)
  then have minus: "CHR ''-'' # zs' \<noteq> show_nat m @ zs" for m zs zs'
    by metis
  show ?thesis
  proof (cases "i < 0"; cases "j < 0")
    assume "i < 0" "j < 0"
    with assms(3) show_nat_append_inject [OF assms(1,2), of "nat (- i)" "nat (- j)"]
    have "nat (- i) = nat (- j) \<and> xs = ys" by (simp add: show_int_def)
    with \<open>i < 0\<close> \<open>j < 0\<close> show ?thesis by auto
  next
    assume "\<not> i < 0" "\<not> j < 0"
    with assms(3) show_nat_append_inject [OF assms(1,2), of "nat i" "nat j"]
    have "nat i = nat j \<and> xs = ys" by (simp add: show_int_def)
    with \<open>\<not> i < 0\<close> \<open>\<not> j < 0\<close> show ?thesis by auto
  next
    assume "i < 0" "\<not> j < 0"
    with assms(3) minus show ?thesis by (simp add: show_int_def)
  next
    assume "\<not> i < 0" "j < 0"
    with assms(3) minus [symmetric] show ?thesis by (simp add: show_int_def)
  qed
qed

definition hex_value_of :: "char \<Rightarrow> nat" where
  "hex_value_of c = (if of_char c < (58 :: nat) then of_char c - 48 else of_char c - 87)"

lemma hex_value_of_hex_digit: "d < 16 \<Longrightarrow> hex_value_of (hex_digit d) = d"
  by (simp add: hex_value_of_def hex_digit_def)

definition unescape :: "string \<Rightarrow> nat" where
  "unescape e =
     (if hd e \<noteq> CHR 0x5C then of_char (hd e)
      else if e ! 1 = CHR 0x22 then 34
      else if e ! 1 = CHR 0x5C then 92
      else if e ! 1 = CHR ''b'' then 8
      else if e ! 1 = CHR ''f'' then 12
      else if e ! 1 = CHR ''n'' then 10
      else if e ! 1 = CHR ''r'' then 13
      else if e ! 1 = CHR ''t'' then 9
      else 16 * hex_value_of (e ! 4) + hex_value_of (e ! 5))"

lemma unescape_escape: "unescape (escape_char c) = of_char c"
proof -
  define n where "n = (of_char c :: nat)"
  have c: "c = char_of n" by (simp add: n_def)
  have "16 * (n div 16) + n mod 16 = n" by simp
  moreover have "n div 16 < 16" by (simp add: n_def less_mult_imp_div_less)
  moreover have "n \<noteq> 92 \<Longrightarrow> c \<noteq> CHR 0x5C" by (auto simp: n_def)
  ultimately show ?thesis
    unfolding escape_char_def Let_def n_def [symmetric]
    by (simp add: unescape_def hex_value_of_hex_digit n_def [symmetric] del: mult_div_mod_eq)
qed

lemma escape_char_cases:
  "(\<exists>x. escape_char c = [CHR 0x5C, x] \<and> x \<noteq> CHR ''u'') \<or>
   (\<exists>x y. escape_char c = [CHR 0x5C, CHR ''u'', CHR ''0'', CHR ''0'', x, y]) \<or>
   escape_char c = [c] \<and> c \<noteq> CHR 0x5C \<and> c \<noteq> CHR 0x22"
proof -
  have "of_char c \<noteq> (92 :: nat) \<Longrightarrow> c \<noteq> CHR 0x5C" "of_char c \<noteq> (34 :: nat) \<Longrightarrow> c \<noteq> CHR 0x22"
    by auto
  then show ?thesis by (simp add: escape_char_def Let_def)
qed

lemma escape_char_inject: "escape_char c = escape_char d \<longleftrightarrow> c = d"
  by (metis unescape_escape of_char_eq_iff)

lemma escape_append_inject:
  assumes "escape_char c @ xs = escape_char d @ ys"
  shows "c = d \<and> xs = ys"
proof -
  have "length (escape_char c) = length (escape_char d)"
    using escape_char_cases [of c] escape_char_cases [of d] assms by auto
  with assms show ?thesis by (simp add: append_eq_append_conv escape_char_inject)
qed

lemma escape_not_quote: "escape_char c @ xs \<noteq> CHR 0x22 # ys"
  using escape_char_cases [of c] by auto

lemma escaped_inject:
  "concat (map escape_char s) @ CHR 0x22 # xs = concat (map escape_char t) @ CHR 0x22 # ys \<Longrightarrow>
   s = t \<and> xs = ys"
proof (induction s arbitrary: t)
  case Nil
  have "t = []"
  proof (rule ccontr)
    assume "t \<noteq> []"
    then obtain d t' where "t = d # t'" by (cases t) simp_all
    with Nil have "escape_char d @ concat (map escape_char t') @ CHR 0x22 # ys = CHR 0x22 # xs"
      by (simp only: list.map concat.simps append_assoc append_Nil)
    then show False by (simp only: escape_not_quote)
  qed
  with Nil show ?case by simp
next
  case (Cons c s)
  have "t \<noteq> []"
  proof
    assume "t = []"
    with Cons.prems have "escape_char c @ concat (map escape_char s) @ CHR 0x22 # xs = CHR 0x22 # ys"
      by (simp only: list.map concat.simps append_assoc append_Nil)
    then show False by (simp only: escape_not_quote)
  qed
  then obtain d t' where t: "t = d # t'" by (cases t) simp_all
  from Cons.prems have "escape_char c @ concat (map escape_char s) @ CHR 0x22 # xs
      = escape_char d @ concat (map escape_char t') @ CHR 0x22 # ys" by (simp only: t list.map concat.simps append_assoc)
  then have "c = d \<and> concat (map escape_char s) @ CHR 0x22 # xs
      = concat (map escape_char t') @ CHR 0x22 # ys" by (rule escape_append_inject)
  with Cons.IH [of t'] t show ?case by blast
qed

lemma quote_append_inject:
  assumes "quote s @ xs = quote t @ ys"
  shows "s = t \<and> xs = ys"
proof (rule escaped_inject)
  show "concat (map escape_char s) @ CHR 0x22 # xs = concat (map escape_char t) @ CHR 0x22 # ys"
    using assms by (simp add: quote_def)
qed

text \<open>
  Lists of texts between separators: \<open>separable f\<close> says what the element texts owe, and the joined
  list then gives back its elements.  A closing bracket is none of the first characters.
\<close>

definition separable :: "('a \<Rightarrow> bool) \<Rightarrow> ('a \<Rightarrow> string) \<Rightarrow> 'a \<Rightarrow> bool" where
  "separable P f x \<longleftrightarrow>
     (\<forall>y xs ys. P y \<longrightarrow> no_digit xs \<longrightarrow> no_digit ys \<longrightarrow> f x @ xs = f y @ ys \<longrightarrow> x = y \<and> xs = ys)"

definition tail_text :: "('a \<Rightarrow> string) \<Rightarrow> 'a list \<Rightarrow> string" where
  "tail_text f xs = concat (map (\<lambda>x. CHR '','' # f x) xs)"

lemma join_Cons: "join '','' (map f (x # xs)) = f x @ tail_text f xs"
  by (induction xs arbitrary: x) (simp_all add: tail_text_def)

lemma no_digit_tail_text:
  "\<not> is_digit c \<Longrightarrow> no_digit (tail_text f xs @ c # ys)"
  by (cases xs) (simp_all add: tail_text_def no_digit_def is_digit_def)

lemma tail_text_inject:
  "\<lbrakk>\<forall>x \<in> set xs. separable P f x; \<forall>y \<in> set ys. P y; \<not> is_digit c; c \<noteq> CHR '','';
    tail_text f xs @ c # s = tail_text f ys @ c # t\<rbrakk> \<Longrightarrow> xs = ys \<and> s = t"
proof (induction xs arbitrary: ys)
  case Nil
  then show ?case by (cases ys) (auto simp: tail_text_def)
next
  case (Cons x xs)
  then obtain y ys' where ys: "ys = y # ys'" by (cases ys) (auto simp: tail_text_def)
  have "f x @ tail_text f xs @ c # s = f y @ tail_text f ys' @ c # t"
    using Cons.prems(5) by (simp add: ys tail_text_def)
  moreover have "separable P f x" "P y" using Cons.prems(1,2) ys by simp_all
  ultimately have "x = y \<and> tail_text f xs @ c # s = tail_text f ys' @ c # t"
    using no_digit_tail_text [OF Cons.prems(3)] unfolding separable_def by blast
  with Cons.IH [of ys'] Cons.prems(1-4) ys show ?case by auto
qed

lemma join_inject:
  assumes "\<forall>x \<in> set xs. separable P f x" "\<not> is_digit c" "c \<noteq> CHR '',''" "\<forall>y \<in> set ys. P y"
    and head: "\<And>x s. f x \<noteq> [] \<and> hd (f x) \<noteq> c"
    and eq: "join '','' (map f xs) @ c # s = join '','' (map f ys) @ c # t"
  shows "xs = ys \<and> s = t"
proof -
  have no: "c # s \<noteq> f y @ r" "f y @ r \<noteq> c # s" for y r s
    using head [of y] by (cases "f y"; auto)+
  show ?thesis
  proof (cases xs)
    case Nil
    show ?thesis
    proof (cases ys)
      case (Cons y ys')
      with Nil eq no(1) show ?thesis by (simp only: join_Cons append_assoc) simp
    qed (use Nil eq in simp)
  next
    case (Cons x xs')
    show ?thesis
    proof (cases ys)
      case Nil
      with Cons eq no(2) show ?thesis by (simp only: join_Cons append_assoc) simp
    next
      case (Cons y ys')
      have "f x @ tail_text f xs' @ c # s = f y @ tail_text f ys' @ c # t"
        using eq unfolding \<open>xs = x # xs'\<close> Cons join_Cons append_assoc .
      moreover have "separable P f x" "P y" using assms(1,4) \<open>xs = x # xs'\<close> Cons by simp_all
      ultimately have "x = y \<and> tail_text f xs' @ c # s = tail_text f ys' @ c # t"
        using no_digit_tail_text [OF assms(2)] unfolding separable_def by blast
      moreover have "\<forall>x \<in> set xs'. separable P f x" "\<forall>y \<in> set ys'. P y"
        using assms(1,4) \<open>xs = x # xs'\<close> Cons by simp_all
      ultimately show ?thesis
        using tail_text_inject [of xs' P f ys' c s t] assms(2,3) \<open>xs = x # xs'\<close> Cons by blast
    qed
  qed
qed

lemma quote_Cons: "quote s = CHR 0x22 # concat (map escape_char s) @ [CHR 0x22]"
  by (simp add: quote_def)

lemma show_int_head: "\<exists>c s. show_int i = c # s \<and> (is_digit c \<or> c = CHR ''-'')"
  using show_nat_head [of "nat i"] by (auto simp: show_int_def)

definition first_kind :: "char \<Rightarrow> nat" where
  "first_kind c =
     (if c = CHR ''n'' then 1 else if c = CHR 0x22 then 2 else if c = CHR ''t'' then 3
      else if c = CHR ''f'' then 4 else if c = CHR ''['' then 5 else if c = CHR 0x7B then 6
      else if is_digit c \<or> c = CHR ''-'' then 7 else 0)"

fun kind_of :: "cv \<Rightarrow> nat" where
  "kind_of CNull = 1"
| "kind_of (CStr _) = 2"
| "kind_of (CBool b) = (if b then 3 else 4)"
| "kind_of (CArr _) = 5"
| "kind_of (CObj _) = 6"
| "kind_of (CNum _) = 7"
| "kind_of _ = 0"

lemma text_first: "plain w \<Longrightarrow> first_kind (hd (text_of w)) = kind_of w"
proof (cases w)
  case (CNum n)
  with show_int_head [of n] show ?thesis by (auto simp: first_kind_def is_digit_def)
qed (simp_all add: first_kind_def quote_Cons array_text_def object_text_def)

lemma text_of_head: "text_of w \<noteq> [] \<and> hd (text_of w) \<noteq> CHR '']''"
proof -
  have "show_int i \<noteq> [] \<and> hd (show_int i) \<noteq> CHR '']''" for i
    using show_int_head [of i] by (auto simp: is_digit_def)
  then show ?thesis
    by (cases w) (simp_all add: quote_Cons array_text_def object_text_def)
qed

lemma field_separable:
  assumes "separable plain text_of v"
  shows "separable (\<lambda>p. plain (snd p)) (\<lambda>p. quote (fst p) @ '':'' @ text_of (snd p)) (k, v)"
  unfolding separable_def
proof (intro allI impI)
  fix q :: "string \<times> cv" and xs ys
  assume "plain (snd q)" "no_digit xs" "no_digit ys"
    and eq: "(quote (fst (k, v)) @ '':'' @ text_of (snd (k, v))) @ xs
      = (quote (fst q) @ '':'' @ text_of (snd q)) @ ys"
  from eq have "quote k @ '':'' @ text_of v @ xs = quote (fst q) @ '':'' @ text_of (snd q) @ ys"
    by simp
  from quote_append_inject [OF this] have "k = fst q" "text_of v @ xs = text_of (snd q) @ ys"
    by simp_all
  with assms \<open>plain (snd q)\<close> \<open>no_digit xs\<close> \<open>no_digit ys\<close> have "v = snd q \<and> xs = ys"
    unfolding separable_def by blast
  with \<open>k = fst q\<close> show "(k, v) = q \<and> xs = ys" by (cases q) simp
qed

lemma text_same_kind:
  assumes "plain v" "plain w" "text_of v @ xs = text_of w @ ys"
  shows "kind_of v = kind_of w"
proof -
  have "hd (text_of v) = hd (text_of w)"
    using assms(3) text_of_head [of v] text_of_head [of w] by (metis hd_append2)
  with assms(1,2) show ?thesis by (metis text_first)
qed

lemma kind_of_cases:
  "kind_of w = 1 \<Longrightarrow> w = CNull"
  "kind_of w = 2 \<Longrightarrow> \<exists>s. w = CStr s"
  "kind_of w = 5 \<Longrightarrow> \<exists>ws. w = CArr ws"
  "kind_of w = 6 \<Longrightarrow> \<exists>ws. w = CObj ws"
  "kind_of w = 7 \<Longrightarrow> \<exists>n. w = CNum n"
  "kind_of w = 3 \<Longrightarrow> w = CBool True"
  "kind_of w = 4 \<Longrightarrow> w = CBool False"
  by (cases w; simp split: if_splits)+

lemma separableI:
  assumes "plain v"
    and "\<And>w xs ys. \<lbrakk>plain w; kind_of w = kind_of v; no_digit xs; no_digit ys; text_of v @ xs = text_of w @ ys\<rbrakk>
      \<Longrightarrow> v = w \<and> xs = ys"
  shows "separable plain text_of v"
  unfolding separable_def
proof (intro allI impI)
  fix w xs ys
  assume a: "plain w" "no_digit xs" "no_digit ys" "text_of v @ xs = text_of w @ ys"
  with assms(1) have "kind_of w = kind_of v" using text_same_kind by metis
  with a assms(2) show "v = w \<and> xs = ys" by blast
qed

lemma text_separable: "plain v \<Longrightarrow> separable plain text_of v"
proof (induction v)
  case CNull
  show ?case by (rule separableI) (auto dest!: kind_of_cases(1) [simplified])
next
  case (CStr s)
  then show ?case
    by (rule separableI) (auto dest!: kind_of_cases(2) quote_append_inject)
next
  case (CNum n)
  then show ?case
    by (rule separableI) (auto dest!: kind_of_cases(5) dest: show_int_append_inject)
next
  case (CBool b)
  then show ?case
    by (rule separableI) (auto dest!: kind_of_cases(6,7) split: if_splits)
next
  case (CArr vs)
  show ?case
  proof (rule separableI [OF CArr.prems])
    fix w xs ys
    assume w: "plain w" "kind_of w = kind_of (CArr vs)" and eq: "text_of (CArr vs) @ xs = text_of w @ ys"
    then obtain ws where ws: "w = CArr ws" using kind_of_cases(3) [of w] by auto
    have "join '','' (map text_of vs) @ CHR '']'' # xs = join '','' (map text_of ws) @ CHR '']'' # ys"
      using eq by (simp add: ws array_text_def)
    moreover have "\<forall>v \<in> set vs. separable plain text_of v" "\<forall>v \<in> set ws. plain v"
      using CArr w ws by auto
    ultimately show "CArr vs = w \<and> xs = ys"
      using join_inject [of vs plain text_of "CHR '']''" ws xs ys] text_of_head ws
      by (simp add: is_digit_def)
  qed
next
  case (CObj kvs)
  let ?f = "\<lambda>p. quote (fst p) @ '':'' @ text_of (snd p)"
  show ?case
  proof (rule separableI [OF CObj.prems])
    fix w xs ys
    assume w: "plain w" "kind_of w = kind_of (CObj kvs)" and eq: "text_of (CObj kvs) @ xs = text_of w @ ys"
    then obtain ws where ws: "w = CObj ws" using kind_of_cases(4) [of w] by auto
    have "join '','' (map ?f kvs) @ CHR 0x7D # xs = join '','' (map ?f ws) @ CHR 0x7D # ys"
      using eq by (simp add: ws object_text_def)
    moreover have "separable (\<lambda>p. plain (snd p)) ?f p" if "p \<in> set kvs" for p
      using field_separable [of "snd p" "fst p"] CObj.IH [OF that, of "snd p"] CObj.prems that
      by (cases p) auto
    moreover have "\<forall>p \<in> set ws. plain (snd p)" using w ws by simp
    ultimately show "CObj kvs = w \<and> xs = ys"
      using join_inject [of kvs "\<lambda>p. plain (snd p)" ?f "CHR 0x7D" ws xs ys] ws
      by (simp add: is_digit_def quote_Cons)
  qed
qed auto

lemma text_of_inject: "plain v \<Longrightarrow> plain w \<Longrightarrow> text_of v = text_of w \<longleftrightarrow> v = w"
  using text_separable [of v] unfolding separable_def
  by (metis append_Nil2 list.case(1) no_digit_def)

text \<open>The text of two acceptable values is the same exactly when their normal forms are.\<close>

lemma canonicalize_eq_iff:
  "acceptable v \<Longrightarrow> acceptable w \<Longrightarrow> canonicalizeJSON v = canonicalizeJSON w \<longleftrightarrow> normal v = normal w"
  by (simp add: canonicalize_text text_of_inject plain_normal)

section \<open>Key order\<close>

lemma sort_key_mset_unique:
  fixes xs ys :: "(string \<times> 'b) list"
  assumes "distinct (map fst xs)" "mset xs = mset ys"
  shows "sort_key fst xs = sort_key fst ys"
proof (rule map_sorted_distinct_set_unique [of fst])
  have "mset (map fst xs) = mset (map fst ys)" using assms(2) by simp
  then have ys: "distinct (map fst ys)" using assms(1) by (metis mset_eq_imp_distinct_iff)
  have "set xs = set ys" using assms(2) by (metis mset_eq_setD)
  then show "set (sort_key fst xs) = set (sort_key fst ys)" by simp
  show "inj_on fst (set (sort_key fst xs) \<union> set (sort_key fst ys))"
    using assms(1) \<open>set xs = set ys\<close> by (simp add: distinct_map)
  have "distinct (map fst (sort_key fst zs))" if "distinct (map fst zs)" for zs :: "(string \<times> 'b) list"
    using that by (metis mset_map mset_eq_imp_distinct_iff mset_sort)
  with assms(1) ys show "distinct (map fst (sort_key fst xs))" "distinct (map fst (sort_key fst ys))"
    by blast+
qed simp_all

lemma normal_key_order:
  assumes "distinct (map fst kvs)" "mset kvs = mset kvs'"
  shows "normal (CObj kvs) = normal (CObj kvs')"
proof -
  let ?f = "\<lambda>kvs. map (\<lambda>p. (fst p, normal (snd p))) (filter (\<lambda>p. snd p \<noteq> CUndef) kvs)"
  have "mset (?f kvs) = mset (?f kvs')" using assms(2) by simp
  moreover have "distinct (map fst (?f kvs))"
    using assms(1) by (simp add: comp_def distinct_map_filter)
  ultimately show ?thesis by (simp add: sort_key_mset_unique)
qed

section \<open>Properties\<close>

text \<open>
  C34: \<open>canonicalizeJSON\<close> refuses exactly the values that hold, in a place that counts, a
  number that is not finite, an invalid date, a function or a symbol; and the texts of two accepted values are the same
  exactly when the values have the same normal form, so the text loses only the order of keys,
  missing fields, and the difference between a date or big integer and its string.
\<close>
theorem canonical_text_decides:
  assumes "acceptable v" "acceptable w"
  shows "(canonicalizeJSON v = canonicalizeJSON w \<longleftrightarrow> normal v = normal w)
    \<and> (is_ok (canonicalizeJSON u) \<longleftrightarrow> acceptable u)"
  using assms by (simp add: canonicalize_eq_iff canonicalize_ok)

theorem canonical_text_decides_witness:
  "canonicalizeJSON (CObj [(''b'', CDate (Some 0)), (''a'', CArr [CUndef]), (''c'', CUndef)])
     = canonicalizeJSON (CObj [(''a'', CArr [CNull]), (''b'', CStr (toISOString 0))])
   \<and> canonicalizeJSON (CObj [(''a'', CStr ''x'')]) \<noteq> canonicalizeJSON (CObj [(''a'', CStr ''y'')])
   \<and> \<not> is_ok (canonicalizeJSON (CArr [CNonFinite]))"
  using canonical_text_decides [of "CObj [(''b'', CDate (Some 0)), (''a'', CArr [CUndef]), (''c'', CUndef)]"
      "CObj [(''a'', CArr [CNull]), (''b'', CStr (toISOString 0))]" "CArr [CNonFinite]"]
    canonical_text_decides [of "CObj [(''a'', CStr ''x'')]" "CObj [(''a'', CStr ''y'')]"]
  by simp

end
