(* ===== verification/Audit_Escrow.thy ===== *)
theory Audit_Escrow
  imports Canonical_Json
begin

text \<open>
  The audit escrow of \<open>packages/queue/src/audit-escrow.ts\<close>: signing keys, the append-only chain of
  signed entries per company and action, verification, and sealing metadata.  The tables are lists
  of rows in insertion order.  SHA-256, Ed25519 and base64 (\<open>node:crypto\<close>, \<open>Buffer\<close>) are arguments,
  and so is what a \<open>jsonb\<close> column gives back for a text written to it.  The lemmas show that
  entries link into one chain each and keep verifying, what a verification binds, and what it does not.
\<close>

section \<open>Cryptography and storage as arguments\<close>

text \<open>
  \<open>hash_text\<close> and \<open>hash_bytes\<close> are the hexadecimal SHA-256 of a text and of raw bytes; \<open>ed_sign\<close> signs
  with a raw seed; \<open>ed_verify\<close> is \<open>None\<close> where \<open>cryptoVerify\<close> throws; \<open>jsonb\<close> is the value read
  back from a column the text was written to, \<open>None\<close> when Postgres refuses the text.
\<close>

record escrow_env =
  hash_text :: "string \<Rightarrow> string"
  hash_bytes :: "string \<Rightarrow> string"
  b64_bytes :: "string \<Rightarrow> string"
  b64_text :: "string \<Rightarrow> string"
  ed_sign :: "string \<Rightarrow> string \<Rightarrow> string"
  ed_verify :: "string \<Rightarrow> string \<Rightarrow> string \<Rightarrow> bool option"
  jsonb :: "string \<Rightarrow> js option"

fun cv_of :: "js \<Rightarrow> cv" where
  "cv_of JUndef = CUndef"
| "cv_of JNull = CNull"
| "cv_of (JBool b) = CBool b"
| "cv_of (JNum n) = CNum n"
| "cv_of (JStr s) = CStr s"
| "cv_of (JArr xs) = CArr (map cv_of xs)"
| "cv_of (JObj kvs) = CObj (map (\<lambda>p. (fst p, cv_of (snd p))) kvs)"

definition hashSHA256 :: "escrow_env \<Rightarrow> string \<Rightarrow> string" where
  "hashSHA256 env text = hash_text env text"

definition hashCanonicalJSON :: "escrow_env \<Rightarrow> cv \<Rightarrow> string result" where
  "hashCanonicalJSON env v = map_result (hashSHA256 env) (canonicalizeJSON v)"

definition importPrivateKey :: "escrow_env \<Rightarrow> string \<Rightarrow> string result" where
  "importPrivateKey env privateKeyB64 =
     (let raw = b64_bytes env privateKeyB64
      in if length raw \<noteq> 32
         then Inl (Error (''audit escrow private key must be 32 bytes (raw seed), got '' @ show_nat (length raw)))
         else Inr raw)"

definition importPublicKey :: "escrow_env \<Rightarrow> string \<Rightarrow> string result" where
  "importPublicKey env publicKeyB64 =
     (let raw = b64_bytes env publicKeyB64
      in if length raw \<noteq> 32
         then Inl (Error (''audit escrow public key must be 32 bytes (raw), got '' @ show_nat (length raw)))
         else Inr raw)"

definition signEd25519 :: "escrow_env \<Rightarrow> string \<Rightarrow> string \<Rightarrow> string result" where
  "signEd25519 env privateKeyB64 message =
     map_result (\<lambda>seed. b64_text env (ed_sign env seed message)) (importPrivateKey env privateKeyB64)"

definition verifyEd25519 :: "escrow_env \<Rightarrow> string \<Rightarrow> string \<Rightarrow> string \<Rightarrow> bool" where
  "verifyEd25519 env publicKeyB64 message signatureB64 =
     (case importPublicKey env publicKeyB64 of
        Inl _ \<Rightarrow> False
      | Inr raw \<Rightarrow> (case ed_verify env raw message (b64_bytes env signatureB64) of
            None \<Rightarrow> False | Some valid \<Rightarrow> valid))"

section \<open>Signing keys\<close>

record escrow_key =
  keyId :: string
  hostId :: string
  publicKeyB64 :: string
  privateKeyB64 :: string
  keyCreatedAt :: int

record escrow_key_row = escrow_key +
  retired_at :: "int option"

text \<open>\<open>order by created_at desc limit 1\<close>; of rows created at the same time the first in the table.\<close>

fun newest_key :: "'a escrow_key_scheme list \<Rightarrow> 'a escrow_key_scheme option" where
  "newest_key [] = None"
| "newest_key (k # ks) =
     (case newest_key ks of None \<Rightarrow> Some k
      | Some k' \<Rightarrow> if keyCreatedAt k' > keyCreatedAt k then Some k' else Some k)"

definition rowToKey :: "escrow_key_row \<Rightarrow> escrow_key" where
  "rowToKey row = \<lparr>keyId = keyId row, hostId = hostId row, publicKeyB64 = publicKeyB64 row,
     privateKeyB64 = privateKeyB64 row, keyCreatedAt = keyCreatedAt row\<rparr>"

function pad_base64 :: "string \<Rightarrow> string" where
  "pad_base64 out = (if length out mod 4 \<noteq> 0 then pad_base64 (out @ ''='') else out)"
  by pat_completeness auto
termination
proof (relation "measure (\<lambda>out. if length out mod 4 = 0 then 0 else 4 - length out mod 4)")
  show "(out @ ''='', out) \<in> measure (\<lambda>out. if length out mod 4 = 0 then 0 else 4 - length out mod 4)"
    if "length out mod 4 \<noteq> 0" for out :: string
  proof -
    define m where "m = length out mod 4"
    have "m < 4" "m \<noteq> 0" using that by (simp_all add: m_def)
    moreover have "length (out @ ''='') mod 4 = (if Suc m = 4 then 0 else Suc m)"
      by (simp add: m_def mod_Suc)
    ultimately show ?thesis by (simp add: m_def [symmetric]) linarith
  qed
qed simp

declare pad_base64.simps [simp del]

definition base64urlToBase64 :: "string \<Rightarrow> string" where
  "base64urlToBase64 input =
     pad_base64 (map (\<lambda>c. if c = CHR ''-'' then CHR ''+'' else if c = CHR ''_'' then CHR ''/'' else c) input)"

text \<open>
  \<open>insert ... on conflict (key_id) do update set host_id = excluded.host_id returning ...\<close>: a row that is
  already there, retired or not, only changes its host.
\<close>

fun upsert_key :: "escrow_key_row \<Rightarrow> escrow_key_row list \<Rightarrow> escrow_key_row \<times> escrow_key_row list" where
  "upsert_key new [] = (new, [new])"
| "upsert_key new (k # ks) =
     (if keyId k = keyId new then (let k' = k\<lparr>hostId := hostId new\<rparr> in (k', k' # ks))
      else (let (r, ks') = upsert_key new ks in (r, k # ks')))"

text \<open>
  \<open>jwk\<close> holds the \<open>d\<close> and \<open>x\<close> of the pair that \<open>generateKeyPairSync\<close> would return now, \<open>now\<close> is the
  database clock.
\<close>

definition getOrCreateActiveSigningKey ::
  "escrow_env \<Rightarrow> string option \<times> string option \<Rightarrow> int \<Rightarrow> string \<Rightarrow> escrow_key_row list
   \<Rightarrow> escrow_key result \<times> escrow_key_row list" where
  "getOrCreateActiveSigningKey env jwk now host keys =
     (case newest_key (filter (\<lambda>k. retired_at k = None) keys) of
        Some row \<Rightarrow> (Inr (rowToKey row), keys)
      | None \<Rightarrow>
          (let d = (case fst jwk of None \<Rightarrow> '''' | Some d \<Rightarrow> d);
               x = (case snd jwk of None \<Rightarrow> '''' | Some x \<Rightarrow> x)
           in if d = '''' \<or> x = '''' then
                (Inl (Error ''failed to extract raw Ed25519 keypair (jwk missing d/x)''), keys)
              else
                (let privateRaw = b64_bytes env (base64urlToBase64 d);
                     publicRaw = b64_bytes env (base64urlToBase64 x);
                     sum = hash_bytes env publicRaw;
                     (row, keys') = upsert_key
                       \<lparr>keyId = ''sitelayer-audit-ed25519-'' @ take 16 sum, hostId = host,
                        publicKeyB64 = b64_text env publicRaw, privateKeyB64 = b64_text env privateRaw,
                        keyCreatedAt = now, retired_at = None\<rparr> keys
                 in (Inr (rowToKey row), keys'))))"

section \<open>Entries\<close>

record escrow_entry =
  entryId :: int
  entryHash :: string
  previousEntryHash :: string
  entryAction :: string
  companyId :: "string option"
  windowStart :: int
  windowEnd :: int
  sourceCount :: int
  payloadHash :: string
  contextHash :: string
  entryKeyId :: string
  signatureB64 :: string
  material :: js
  entryPayload :: js
  s3Bucket :: string
  s3Key :: string
  s3VersionId :: string
  s3ObjectLocked :: bool
  otsProofPath :: string
  otsStatus :: string
  entryCreatedAt :: int

text \<open>What \<open>rowToEntry\<close> returns: the columns with the public key of the joined key row.\<close>

record audit_escrow_entry = escrow_entry +
  entryPublicKeyB64 :: string

definition rowToEntry :: "escrow_entry \<Rightarrow> string \<Rightarrow> audit_escrow_entry" where
  "rowToEntry row pub = escrow_entry.extend row \<lparr>entryPublicKeyB64 = pub\<rparr>"

record escrow_db =
  escrow_keys :: "escrow_key_row list"
  escrow_entries :: "escrow_entry list"
  escrow_seq :: int
  escrow_companies :: "string list"

record append_params =
  pa_action :: string
  pa_companyId :: "string option"
  pa_windowStart :: int
  pa_windowEnd :: int
  pa_sourceCount :: int
  pa_payload :: cv

text \<open>\<open>order by id desc limit 1\<close>\<close>

fun latest_entry :: "escrow_entry list \<Rightarrow> escrow_entry option" where
  "latest_entry [] = None"
| "latest_entry (e # es) =
     (case latest_entry es of None \<Rightarrow> Some e
      | Some e' \<Rightarrow> if entryId e' > entryId e then Some e' else Some e)"

definition in_chain :: "string \<Rightarrow> string option \<Rightarrow> escrow_entry \<Rightarrow> bool" where
  "in_chain a co e \<longleftrightarrow> entryAction e = a \<and> companyId e = co"

definition findPreviousEntryHash :: "escrow_entry list \<Rightarrow> string \<Rightarrow> string option \<Rightarrow> string" where
  "findPreviousEntryHash es a co =
     (case latest_entry (filter (in_chain a co) es) of None \<Rightarrow> '''' | Some e \<Rightarrow> entryHash e)"

definition LF :: string where
  "LF = [CHR 0x0A]"

definition context_text :: "string \<Rightarrow> int \<Rightarrow> int \<Rightarrow> string \<Rightarrow> string" where
  "context_text prev ws we key = join LF [prev, toISOString ws, toISOString we, key]"

definition AUDIT_ESCROW_VERSION :: int where
  "AUDIT_ESCROW_VERSION = 1"

definition escrow_material ::
  "append_params \<Rightarrow> cv \<Rightarrow> string \<Rightarrow> string \<Rightarrow> int \<Rightarrow> string \<Rightarrow> string \<Rightarrow> string \<Rightarrow> cv" where
  "escrow_material params payload a key created prev payload_hash context_hash =
     CObj [(''version'', CNum AUDIT_ESCROW_VERSION),
       (''created_at'', CStr (toISOString created)),
       (''action'', CStr a),
       (''company_id'', case pa_companyId params of None \<Rightarrow> CNull | Some c \<Rightarrow> CStr c),
       (''window_start'', CStr (toISOString (pa_windowStart params))),
       (''window_end'', CStr (toISOString (pa_windowEnd params))),
       (''source_count'', CNum (pa_sourceCount params)),
       (''previous_entry_hash'', CStr prev),
       (''payload_hash'', CStr payload_hash),
       (''context_hash'', CStr context_hash),
       (''key_id'', CStr key),
       (''payload'', payload)]"

text \<open>
  The insert: the sequence gives the id and is not rolled back, the row gets the column defaults,
  and the table refuses a repeated hash, an empty action, hash or signature, a window that ends
  before it starts, an unknown company and an unknown key.
\<close>

definition insert_entry ::
  "escrow_env \<Rightarrow> escrow_entry \<Rightarrow> string \<Rightarrow> string \<Rightarrow> escrow_db \<Rightarrow> escrow_entry result \<times> escrow_db" where
  "insert_entry env new materialText payloadText db =
     (case jsonb env materialText of
        None \<Rightarrow> (Inl (Error ''invalid input for type json''), db)
      | Some m \<Rightarrow> (case jsonb env payloadText of
          None \<Rightarrow> (Inl (Error ''invalid input for type json''), db)
        | Some p \<Rightarrow>
            (let row = new\<lparr>entryId := escrow_seq db + 1, material := m, entryPayload := p\<rparr>;
                 db1 = db\<lparr>escrow_seq := escrow_seq db + 1\<rparr>
             in if entryAction row = [] \<or> entryHash row = [] \<or> signatureB64 row = []
                   \<or> windowEnd row < windowStart row
                then (Inl (Error ''violates check constraint''), db1)
                else if entryHash row \<in> entryHash ` set (escrow_entries db)
                then (Inl (Error ''duplicate key value violates unique constraint''), db1)
                else if entryKeyId row \<notin> keyId ` set (escrow_keys db)
                   \<or> (case companyId row of None \<Rightarrow> False | Some c \<Rightarrow> c \<notin> set (escrow_companies db))
                then (Inl (Error ''violates foreign key constraint''), db1)
                else (Inr row, db1\<lparr>escrow_entries := escrow_entries db @ [row]\<rparr>))))"

definition new_entry ::
  "append_params \<Rightarrow> string \<Rightarrow> string \<Rightarrow> int \<Rightarrow> string \<Rightarrow> string \<Rightarrow> string \<Rightarrow> string \<Rightarrow> string \<Rightarrow> escrow_entry" where
  "new_entry params a key created prev hash payload_hash context_hash signature =
     \<lparr>entryId = 0, entryHash = hash, previousEntryHash = prev, entryAction = a,
      companyId = pa_companyId params, windowStart = pa_windowStart params,
      windowEnd = pa_windowEnd params, sourceCount = pa_sourceCount params,
      payloadHash = payload_hash, contextHash = context_hash, entryKeyId = key,
      signatureB64 = signature, material = JUndef, entryPayload = JUndef, s3Bucket = [], s3Key = [],
      s3VersionId = [], s3ObjectLocked = False, otsProofPath = [], otsStatus = [],
      entryCreatedAt = created\<rparr>"

text \<open>The transaction of \<open>appendEntry\<close>, from the advisory lock to the commit or the rollback.\<close>

definition append_tx ::
  "escrow_env \<Rightarrow> escrow_key \<Rightarrow> int \<Rightarrow> string \<Rightarrow> append_params \<Rightarrow> cv \<Rightarrow> escrow_db
   \<Rightarrow> audit_escrow_entry result \<times> escrow_db" where
  "append_tx env key created a params payload db =
     (let previousHash = findPreviousEntryHash (escrow_entries db) a (pa_companyId params) in
      case hashCanonicalJSON env payload of Inl e \<Rightarrow> (Inl e, db)
      | Inr payload_hash \<Rightarrow>
        (let context_hash = hashSHA256 env (context_text previousHash (pa_windowStart params)
               (pa_windowEnd params) (keyId key));
             mat = escrow_material params payload a (keyId key) created previousHash payload_hash context_hash
         in case canonicalizeJSON mat of Inl e \<Rightarrow> (Inl e, db)
         | Inr materialCanonical \<Rightarrow>
           (case signEd25519 env (privateKeyB64 key) materialCanonical of Inl e \<Rightarrow> (Inl e, db)
            | Inr signature \<Rightarrow>
              (case canonicalizeJSON payload of Inl e \<Rightarrow> (Inl e, db)
               | Inr payloadCanonical \<Rightarrow>
                 (case insert_entry env
                    (new_entry params a (keyId key) created previousHash (hashSHA256 env materialCanonical)
                       payload_hash context_hash signature)
                    materialCanonical payloadCanonical db of
                    (Inl e, db1) \<Rightarrow> (Inl e, db1)
                  | (Inr row, db1) \<Rightarrow> (Inr (rowToEntry row (publicKeyB64 key)), db1))))))"

text \<open>
  \<open>jwk\<close>, \<open>key_now\<close> and \<open>host\<close> are what \<open>getOrCreateActiveSigningKey\<close> may need, \<open>created\<close> is the clock inside
  the transaction.
\<close>

definition appendEntry ::
  "escrow_env \<Rightarrow> string option \<times> string option \<Rightarrow> int \<Rightarrow> string \<Rightarrow> int \<Rightarrow> append_params \<Rightarrow> escrow_db
   \<Rightarrow> audit_escrow_entry result \<times> escrow_db" where
  "appendEntry env jwk key_now host created params db =
     (let a = trim (pa_action params) in
      if a = [] then (Inl (Error ''audit escrow: action required''), db)
      else if pa_windowEnd params < pa_windowStart params
      then (Inl (Error ''audit escrow: window_end < window_start''), db)
      else
        (let payload = (if pa_payload params = CUndef \<or> pa_payload params = CNull then CObj []
               else pa_payload params);
             (key, keys') = getOrCreateActiveSigningKey env jwk key_now host (escrow_keys db);
             db0 = db\<lparr>escrow_keys := keys'\<rparr>
         in case key of Inl e \<Rightarrow> (Inl e, db0)
            | Inr k \<Rightarrow> append_tx env k created a params payload db0))"

section \<open>Reading\<close>

definition public_key_of :: "escrow_key_row list \<Rightarrow> string \<Rightarrow> string option" where
  "public_key_of keys k = map_option publicKeyB64 (find (\<lambda>row. keyId row = k) keys)"

text \<open>\<open>ENTRY_SELECT\<close> joins the key row, so an entry without one is not found.\<close>

definition getEntryById :: "escrow_db \<Rightarrow> int \<Rightarrow> audit_escrow_entry option" where
  "getEntryById db i =
     (case find (\<lambda>e. entryId e = i) (escrow_entries db) of
        None \<Rightarrow> None
      | Some e \<Rightarrow> map_option (rowToEntry e) (public_key_of (escrow_keys db) (entryKeyId e)))"

definition getChainHead :: "escrow_db \<Rightarrow> (int \<times> string) option" where
  "getChainHead db = map_option (\<lambda>e. (entryId e, entryHash e)) (latest_entry (escrow_entries db))"

section \<open>Verification\<close>

record hashes =
  hashes_entryHash :: string
  hashes_payloadHash :: string
  hashes_contextHash :: string

record verification_report =
  vr_ok :: bool
  vr_errors :: "string list"
  vr_recomputed :: hashes
  vr_stored :: hashes
  vr_signatureValid :: bool

text \<open>A property read of the material, and its rendering in a template literal.\<close>

fun js_property :: "js \<Rightarrow> string \<Rightarrow> js result" where
  "js_property JUndef k = Inl (Error (''Cannot read properties of undefined (reading '' @ [CHR 0x27] @ k @ [CHR 0x27] @ '')''))"
| "js_property JNull k = Inl (Error (''Cannot read properties of null (reading '' @ [CHR 0x27] @ k @ [CHR 0x27] @ '')''))"
| "js_property (JObj kvs) k = Inr (js_get kvs k)"
| "js_property _ _ = Inr JUndef"

fun template_text :: "js \<Rightarrow> string" where
  "template_text JUndef = ''undefined''"
| "template_text JNull = ''null''"
| "template_text (JBool b) = (if b then ''true'' else ''false'')"
| "template_text (JNum n) = show_int n"
| "template_text (JStr s) = s"
| "template_text (JArr xs) =
     join '','' (map (\<lambda>x. if x = JUndef \<or> x = JNull then [] else template_text x) xs)"
| "template_text (JObj _) = ''[object Object]''"

definition complain :: "bool \<Rightarrow> string \<Rightarrow> string list" where
  "complain failed message = (if failed then [message] else [])"

definition report_of ::
  "escrow_env \<Rightarrow> audit_escrow_entry \<Rightarrow> string \<Rightarrow> string \<Rightarrow> js \<Rightarrow> js \<Rightarrow> verification_report" where
  "report_of env entry materialCanonical recomputedPayloadHash mph mch =
     (let recomputedEntryHash = hashSHA256 env materialCanonical;
          recomputedContextHash = hashSHA256 env
            (context_text (previousEntryHash entry) (windowStart entry) (windowEnd entry) (entryKeyId entry));
          signatureValid = verifyEd25519 env (entryPublicKeyB64 entry) materialCanonical (signatureB64 entry);
          errors =
            complain (recomputedEntryHash \<noteq> entryHash entry)
              (''entry_hash mismatch: stored='' @ entryHash entry @ '' recomputed='' @ recomputedEntryHash) @
            complain (recomputedPayloadHash \<noteq> payloadHash entry)
              (''payload_hash mismatch: stored='' @ payloadHash entry @ '' recomputed='' @ recomputedPayloadHash) @
            complain (recomputedContextHash \<noteq> contextHash entry)
              (''context_hash mismatch: stored='' @ contextHash entry @ '' recomputed='' @ recomputedContextHash) @
            complain (mph \<noteq> JStr (payloadHash entry))
              (''material.payload_hash != row.payload_hash: material='' @ template_text mph @
               '' row='' @ payloadHash entry) @
            complain (mch \<noteq> JStr (contextHash entry))
              (''material.context_hash != row.context_hash: material='' @ template_text mch @
               '' row='' @ contextHash entry) @
            complain (\<not> signatureValid) ''signature verification failed''
      in \<lparr>vr_ok = (errors = []), vr_errors = errors,
          vr_recomputed = \<lparr>hashes_entryHash = recomputedEntryHash,
            hashes_payloadHash = recomputedPayloadHash, hashes_contextHash = recomputedContextHash\<rparr>,
          vr_stored = \<lparr>hashes_entryHash = entryHash entry, hashes_payloadHash = payloadHash entry,
            hashes_contextHash = contextHash entry\<rparr>,
          vr_signatureValid = signatureValid\<rparr>)"

definition verifyEntry :: "escrow_env \<Rightarrow> audit_escrow_entry \<Rightarrow> verification_report result" where
  "verifyEntry env entry =
     (case canonicalizeJSON (cv_of (material entry)) of Inl e \<Rightarrow> Inl e
      | Inr materialCanonical \<Rightarrow>
        (case hashCanonicalJSON env (cv_of (entryPayload entry)) of Inl e \<Rightarrow> Inl e
         | Inr recomputedPayloadHash \<Rightarrow>
           (case js_property (material entry) ''payload_hash'' of Inl e \<Rightarrow> Inl e
            | Inr mph \<Rightarrow>
              (case js_property (material entry) ''context_hash'' of Inl e \<Rightarrow> Inl e
               | Inr mch \<Rightarrow> Inr (report_of env entry materialCanonical recomputedPayloadHash mph mch)))))"

section \<open>Sealing\<close>

record seal_input =
  se_entryId :: int
  se_s3Bucket :: "string option"
  se_s3Key :: "string option"
  se_s3VersionId :: "string option"
  se_s3ObjectLocked :: "bool option"
  se_otsProofPath :: "string option"
  se_otsStatus :: "string option"

text \<open>\<open>coalesce(nullif($n, ''), column)\<close> with \<open>input ?? ''\<close> bound to \<open>$n\<close>.\<close>

definition seal_text :: "string option \<Rightarrow> string \<Rightarrow> string" where
  "seal_text new old = (case new of None \<Rightarrow> old | Some s \<Rightarrow> if s = [] then old else s)"

definition seal_row :: "seal_input \<Rightarrow> escrow_entry \<Rightarrow> escrow_entry" where
  "seal_row inp e = e\<lparr>s3Bucket := seal_text (se_s3Bucket inp) (s3Bucket e),
     s3Key := seal_text (se_s3Key inp) (s3Key e),
     s3VersionId := seal_text (se_s3VersionId inp) (s3VersionId e),
     s3ObjectLocked := (case se_s3ObjectLocked inp of None \<Rightarrow> s3ObjectLocked e | Some b \<Rightarrow> b),
     otsProofPath := seal_text (se_otsProofPath inp) (otsProofPath e),
     otsStatus := seal_text (se_otsStatus inp) (otsStatus e)\<rparr>"

definition sealEntry :: "seal_input \<Rightarrow> escrow_db \<Rightarrow> escrow_db" where
  "sealEntry inp db = db\<lparr>escrow_entries :=
     map (\<lambda>e. if entryId e = se_entryId inp then seal_row inp e else e) (escrow_entries db)\<rparr>"

section \<open>What a column gives back\<close>

text \<open>
  The laws of the arguments: \<open>jsonb\<close> keeps a value up to the order of keys, provided keys are distinct
  and numbers are exact doubles; and a key pair verifies what it signs.
\<close>

fun exact :: "cv \<Rightarrow> bool" where
  "exact (CNum n) = (\<bar>n\<bar> < 2 ^ 53)"
| "exact (CArr xs) = (\<forall>x \<in> set xs. exact x)"
| "exact (CObj kvs) = (distinct (map fst kvs) \<and> (\<forall>p \<in> set kvs. exact (snd p)))"
| "exact _ = True"

definition jsonb_faithful :: "escrow_env \<Rightarrow> bool" where
  "jsonb_faithful env \<longleftrightarrow>
     (\<forall>v u. acceptable v \<and> exact v \<and> jsonb env (text_of (normal v)) = Some u \<longrightarrow>
        js_wf u \<and> normal (cv_of u) = normal v)"

definition key_pair :: "escrow_env \<Rightarrow> string \<Rightarrow> string \<Rightarrow> bool" where
  "key_pair env priv pub \<longleftrightarrow>
     length (b64_bytes env priv) = 32 \<and> length (b64_bytes env pub) = 32 \<and>
     (\<forall>m. ed_verify env (b64_bytes env pub) m
        (b64_bytes env (b64_text env (ed_sign env (b64_bytes env priv) m))) = Some True)"

lemma acceptable_cv_of [simp]: "acceptable (cv_of u)"
  by (induction u) auto

lemma canonicalize_cv_of:
  "normal (cv_of u) = normal v \<Longrightarrow> acceptable v \<Longrightarrow> canonicalizeJSON (cv_of u) = canonicalizeJSON v"
  by (simp add: canonicalize_text)

lemma normal_cv_of_CStr: "normal (cv_of u) = CStr s \<longleftrightarrow> u = JStr s"
  by (cases u) auto

lemma property_of_normal:
  assumes "normal (cv_of u) = CObj fs" "js_wf u" "(k, CStr h) \<in> set fs"
  shows "js_property u k = Inr (JStr h)"
proof -
  obtain kvs where u: "u = JObj kvs"
    using assms(1) by (cases u) auto
  from assms(1,3) obtain x where "(k, x) \<in> set kvs" "normal (cv_of x) = CStr h"
    by (auto simp: u)
  with assms(2) have "map_of kvs k = Some (JStr h)"
    by (simp add: u normal_cv_of_CStr)
  then show ?thesis by (simp add: u js_get_def)
qed

lemma material_field:
  assumes "(k, CStr h) \<in> set kvs" "normal (CObj kvs) = CObj fs"
  shows "(k, CStr h) \<in> set fs"
proof -
  from assms(1) have "(k, CStr h) \<in> (\<lambda>p. (fst p, normal (snd p))) ` {p \<in> set kvs. snd p \<noteq> CUndef}"
    by force
  with assms(2) show ?thesis by (auto intro!: rev_image_eqI)
qed

section \<open>One append\<close>

lemma insert_entry_Inr:
  assumes "insert_entry env new mt pt db = (Inr row, db')"
  shows "\<exists>m p. jsonb env mt = Some m \<and> jsonb env pt = Some p
    \<and> row = new\<lparr>entryId := escrow_seq db + 1, material := m, entryPayload := p\<rparr>
    \<and> db' = db\<lparr>escrow_seq := escrow_seq db + 1, escrow_entries := escrow_entries db @ [row]\<rparr>
    \<and> entryHash new \<notin> entryHash ` set (escrow_entries db) \<and> entryHash new \<noteq> []"
  using assms by (auto simp: insert_entry_def Let_def split: option.splits if_splits)

lemma same_seq [simp]: "\<exists>n. d = d\<lparr>escrow_seq := n\<rparr> \<and> escrow_seq d \<le> n"
  by (rule exI [of _ "escrow_seq d"]) simp

lemma insert_entry_Inl:
  assumes "insert_entry env new mt pt db = (Inl e, db')"
  shows "\<exists>n. db' = db\<lparr>escrow_seq := n\<rparr> \<and> escrow_seq db \<le> n"
  using assms by (auto simp: insert_entry_def Let_def split: option.splits if_splits)

text \<open>A committed append, field by field.\<close>

definition appended ::
  "escrow_env \<Rightarrow> escrow_key \<Rightarrow> int \<Rightarrow> string \<Rightarrow> append_params \<Rightarrow> cv \<Rightarrow> escrow_db \<Rightarrow> escrow_entry \<Rightarrow> bool" where
  "appended env key created a params payload db row \<longleftrightarrow>
     (\<exists>ph mt pt sig m p.
        (let prev = findPreviousEntryHash (escrow_entries db) a (pa_companyId params);
             ch = hashSHA256 env (context_text prev (pa_windowStart params) (pa_windowEnd params) (keyId key));
             mat = escrow_material params payload a (keyId key) created prev ph ch
         in canonicalizeJSON payload = Inr pt \<and> ph = hashSHA256 env pt \<and> canonicalizeJSON mat = Inr mt
            \<and> signEd25519 env (privateKeyB64 key) mt = Inr sig
            \<and> jsonb env mt = Some m \<and> jsonb env pt = Some p
            \<and> row = (new_entry params a (keyId key) created prev (hashSHA256 env mt) ph ch sig)
                 \<lparr>entryId := escrow_seq db + 1, material := m, entryPayload := p\<rparr>)
        \<and> entryHash row \<notin> entryHash ` set (escrow_entries db) \<and> entryHash row \<noteq> [])"

lemma append_tx_Inr:
  assumes "append_tx env key created a params payload db = (Inr x, db')"
  shows "\<exists>row. x = rowToEntry row (publicKeyB64 key) \<and> appended env key created a params payload db row
    \<and> db' = db\<lparr>escrow_seq := escrow_seq db + 1, escrow_entries := escrow_entries db @ [row]\<rparr>"
  using assms
  by (auto simp: append_tx_def Let_def hashCanonicalJSON_def map_result_def appended_def
      split: sum.splits prod.splits dest!: insert_entry_Inr)

lemma append_tx_Inl:
  assumes "append_tx env key created a params payload db = (Inl e, db')"
  shows "\<exists>n. db' = db\<lparr>escrow_seq := n\<rparr> \<and> escrow_seq db \<le> n"
  using assms
  by (auto simp: append_tx_def Let_def split: sum.splits prod.splits dest!: insert_entry_Inl)

section \<open>Runs\<close>

datatype escrow_op =
    Append "string option \<times> string option" int string int append_params
  | Seal seal_input

fun escrow_step :: "escrow_env \<Rightarrow> escrow_op \<Rightarrow> escrow_db \<Rightarrow> escrow_db" where
  "escrow_step env (Append jwk key_now host created params) db =
     snd (appendEntry env jwk key_now host created params db)"
| "escrow_step env (Seal inp) db = sealEntry inp db"

definition escrow_run :: "escrow_env \<Rightarrow> escrow_op list \<Rightarrow> escrow_db \<Rightarrow> escrow_db" where
  "escrow_run env ops db = fold (escrow_step env) ops db"

lemma escrow_run_invariant:
  "\<lbrakk>P db; \<And>op db. op \<in> set ops \<Longrightarrow> P db \<Longrightarrow> P (escrow_step env op db)\<rbrakk> \<Longrightarrow> P (escrow_run env ops db)"
  unfolding escrow_run_def by (induction ops arbitrary: db) simp_all

text \<open>The three ways a step can end: nothing inserted, one entry inserted, entries sealed.\<close>

lemma escrow_step_cases:
  obtains (idle) keys n where
      "escrow_step env op db = db\<lparr>escrow_keys := keys, escrow_seq := n\<rparr>" "escrow_seq db \<le> n"
      "keys = escrow_keys db \<or> (\<exists>jwk now host created params. op = Append jwk now host created params
         \<and> keys = snd (getOrCreateActiveSigningKey env jwk now host (escrow_keys db)))"
  | (insert) jwk now host created params payload key keys row where
      "op = Append jwk now host created params"
      "getOrCreateActiveSigningKey env jwk now host (escrow_keys db) = (Inr key, keys)"
      "payload = (if pa_payload params = CUndef \<or> pa_payload params = CNull then CObj []
          else pa_payload params)"
      "appended env key created (trim (pa_action params)) params payload (db\<lparr>escrow_keys := keys\<rparr>) row"
      "escrow_step env op db = db\<lparr>escrow_keys := keys, escrow_seq := escrow_seq db + 1,
          escrow_entries := escrow_entries db @ [row]\<rparr>"
  | (sealed) inp where "op = Seal inp" "escrow_step env op db = sealEntry inp db"
proof (cases op)
  case (Seal inp)
  then show ?thesis using sealed by simp
next
  case (Append jwk now host created params)
  have same: "db = db\<lparr>escrow_keys := escrow_keys db, escrow_seq := escrow_seq db\<rparr>" by simp
  define a where "a = trim (pa_action params)"
  define payload where "payload = (if pa_payload params = CUndef \<or> pa_payload params = CNull then CObj []
          else pa_payload params)"
  obtain key keys where k: "getOrCreateActiveSigningKey env jwk now host (escrow_keys db) = (key, keys)"
    by fastforce
  show ?thesis
  proof (cases "a = [] \<or> pa_windowEnd params < pa_windowStart params")
    case True
    then have "escrow_step env op db = db" by (auto simp: Append appendEntry_def a_def Let_def)
    with same idle [of "escrow_seq db" "escrow_keys db"] show ?thesis by simp
  next
    case False
    show ?thesis
    proof (cases key)
      case (Inl e)
      with False k have "escrow_step env op db = db\<lparr>escrow_keys := keys, escrow_seq := escrow_seq db\<rparr>"
        by (simp add: Append appendEntry_def a_def Let_def)
      with idle [of "escrow_seq db" keys] Append k show ?thesis by (metis order_refl snd_conv)
    next
      case (Inr key')
      obtain r db' where tx: "append_tx env key' created a params payload (db\<lparr>escrow_keys := keys\<rparr>) = (r, db')"
        by fastforce
      have step: "escrow_step env op db = db'"
        using False k Inr tx by (simp add: Append appendEntry_def a_def payload_def Let_def)
      show ?thesis
      proof (cases r)
        case (Inl e)
        with append_tx_Inl tx obtain n where "db' = db\<lparr>escrow_keys := keys\<rparr>\<lparr>escrow_seq := n\<rparr>"
          "escrow_seq db \<le> n" by fastforce
        with idle [of n keys] step Append k show ?thesis by (metis snd_conv)
      next
        case (Inr x)
        with append_tx_Inr tx obtain row where
          "appended env key' created a params payload (db\<lparr>escrow_keys := keys\<rparr>) row"
          "db' = db\<lparr>escrow_keys := keys, escrow_seq := escrow_seq db + 1,
             escrow_entries := escrow_entries db @ [row]\<rparr>" by fastforce
        with insert Append k \<open>key = Inr key'\<close> step show ?thesis by (simp add: a_def payload_def)
      qed
    qed
  qed
qed

section \<open>The chains\<close>

fun links_from :: "string \<Rightarrow> escrow_entry list \<Rightarrow> bool" where
  "links_from prev [] = True"
| "links_from prev (e # es) = (previousEntryHash e = prev \<and> links_from (entryHash e) es)"

definition chains_linked :: "escrow_entry list \<Rightarrow> bool" where
  "chains_linked es \<longleftrightarrow>
     (\<forall>a co. links_from [] (filter (in_chain a co) es)) \<and>
     sorted_wrt (<) (map entryId es) \<and> distinct (map entryHash es)"

lemma links_from_snoc:
  "links_from p (es @ [e]) \<longleftrightarrow>
     links_from p es \<and> previousEntryHash e = (if es = [] then p else entryHash (last es))"
  by (induction es arbitrary: p) auto

lemma latest_entry_in: "latest_entry es = Some e \<Longrightarrow> e \<in> set es"
  by (induction es arbitrary: e) (auto split: option.splits if_splits)

lemma latest_entry_sorted:
  "sorted_wrt (<) (map entryId es) \<Longrightarrow> latest_entry es = (if es = [] then None else Some (last es))"
  by (induction es) auto

lemma findPreviousEntryHash_sorted:
  assumes "sorted_wrt (<) (map entryId es)"
  shows "findPreviousEntryHash es a co =
    (let c = filter (in_chain a co) es in if c = [] then [] else entryHash (last c))"
proof -
  have "sorted_wrt (<) (map entryId (filter (in_chain a co) es))"
    using assms by (simp add: sorted_wrt_map sorted_wrt_filter)
  then show ?thesis by (simp add: findPreviousEntryHash_def latest_entry_sorted)
qed

lemma appended_fields:
  assumes "appended env key created a params payload db row"
  shows "entryId row = escrow_seq db + 1" "entryAction row = a" "companyId row = pa_companyId params"
    "previousEntryHash row = findPreviousEntryHash (escrow_entries db) a (pa_companyId params)"
    "entryHash row \<notin> entryHash ` set (escrow_entries db)" "entryKeyId row = keyId key"
  using assms by (auto simp: appended_def new_entry_def Let_def)

definition escrow_inv :: "escrow_db \<Rightarrow> bool" where
  "escrow_inv db \<longleftrightarrow> chains_linked (escrow_entries db) \<and>
     (\<forall>e \<in> set (escrow_entries db). entryId e \<le> escrow_seq db)"

lemma seal_row_simps [simp]:
  "entryId (seal_row inp e) = entryId e" "entryHash (seal_row inp e) = entryHash e"
  "previousEntryHash (seal_row inp e) = previousEntryHash e" "in_chain a co (seal_row inp e) = in_chain a co e"
  "entryKeyId (seal_row inp e) = entryKeyId e"
  by (simp_all add: seal_row_def in_chain_def)

lemma chains_linked_map:
  assumes "\<And>e. entryId (f e) = entryId e" "\<And>e. entryHash (f e) = entryHash e"
    "\<And>e. previousEntryHash (f e) = previousEntryHash e" "\<And>e a co. in_chain a co (f e) = in_chain a co e"
  shows "chains_linked (map f es) \<longleftrightarrow> chains_linked es"
proof -
  have "links_from p (map f xs) = links_from p xs" for p xs
    by (induction xs arbitrary: p) (simp_all add: assms)
  moreover have "filter (in_chain a co) (map f es) = map f (filter (in_chain a co) es)" for a co
    by (simp add: filter_map comp_def assms)
  ultimately show ?thesis by (simp add: chains_linked_def comp_def assms)
qed

lemma escrow_inv_step:
  assumes "escrow_inv db"
  shows "escrow_inv (escrow_step env op db)"
proof (cases rule: escrow_step_cases [where env = env and op = op and db = db])
  case (idle keys n)
  with assms show ?thesis by (fastforce simp: escrow_inv_def)
next
  case (sealed inp)
  with assms show ?thesis
    by (auto simp: escrow_inv_def sealEntry_def chains_linked_map)
next
  case (insert jwk now host created params payload key keys row)
  note f = appended_fields [OF insert(4)]
  have links: "links_from [] (filter (in_chain a co) (escrow_entries db @ [row]))" for a co
    using assms f
    by (auto simp: escrow_inv_def chains_linked_def findPreviousEntryHash_sorted links_from_snoc
        Let_def in_chain_def)
  have "\<forall>e \<in> set (escrow_entries db). entryId e < entryId row"
    using assms f(1) by (auto simp: escrow_inv_def)
  with assms f(5) links have "chains_linked (escrow_entries db @ [row])"
    by (simp add: escrow_inv_def chains_linked_def sorted_wrt_append)
  with assms f(1) show ?thesis by (auto simp: insert(5) escrow_inv_def)
qed

section \<open>Keys stay usable\<close>

definition keys_ok :: "escrow_env \<Rightarrow> escrow_key_row list \<Rightarrow> bool" where
  "keys_ok env keys \<longleftrightarrow>
     distinct (map keyId keys) \<and> (\<forall>k \<in> set keys. key_pair env (privateKeyB64 k) (publicKeyB64 k))"

definition jwk_ok :: "escrow_env \<Rightarrow> string option \<times> string option \<Rightarrow> bool" where
  "jwk_ok env jwk \<longleftrightarrow>
     (case jwk of (Some d, Some x) \<Rightarrow>
        key_pair env (b64_text env (b64_bytes env (base64urlToBase64 d)))
          (b64_text env (b64_bytes env (base64urlToBase64 x)))
      | _ \<Rightarrow> True)"

lemma newest_key_in: "newest_key ks = Some k \<Longrightarrow> k \<in> set ks"
  by (induction ks arbitrary: k) (auto split: option.splits if_splits)

lemma public_key_of_in:
  "distinct (map keyId keys) \<Longrightarrow> k \<in> set keys \<Longrightarrow> public_key_of keys (keyId k) = Some (publicKeyB64 k)"
  by (induction keys) (auto simp: public_key_of_def)

lemma upsert_key_ids: "set (map keyId (snd (upsert_key new ks))) = insert (keyId new) (keyId ` set ks)"
  by (induction ks) (auto simp: Let_def split: prod.splits)

lemma upsert_key_props:
  assumes "upsert_key new ks = (r, ks')" "keys_ok env ks" "key_pair env (privateKeyB64 new) (publicKeyB64 new)"
  shows "keys_ok env ks' \<and> r \<in> set ks' \<and>
    (\<forall>i p. public_key_of ks i = Some p \<longrightarrow> public_key_of ks' i = Some p)"
  using assms
proof (induction ks arbitrary: r ks')
  case Nil
  then show ?case by (auto simp: keys_ok_def public_key_of_def)
next
  case (Cons k ks)
  show ?case
  proof (cases "keyId k = keyId new")
    case True
    with Cons.prems show ?thesis by (auto simp: keys_ok_def public_key_of_def Let_def)
  next
    case False
    obtain r1 ks1 where up: "upsert_key new ks = (r1, ks1)" by fastforce
    with False Cons.prems(1) have r: "r = r1" "ks' = k # ks1" by (simp_all add: Let_def)
    have "keys_ok env ks" using Cons.prems(2) by (simp add: keys_ok_def)
    with Cons.IH [OF up] Cons.prems(3)
    have ih: "keys_ok env ks1" "r1 \<in> set ks1"
      "\<And>i p. public_key_of ks i = Some p \<Longrightarrow> public_key_of ks1 i = Some p" by auto
    have "keyId k \<notin> keyId ` set ks1"
      using upsert_key_ids [of new ks] up False Cons.prems(2) by (simp add: keys_ok_def)
    with ih Cons.prems(2) show ?thesis by (auto simp: r keys_ok_def public_key_of_def)
  qed
qed

lemma getOrCreate_props:
  assumes "getOrCreateActiveSigningKey env jwk now host keys = (r, keys')" "keys_ok env keys" "jwk_ok env jwk"
  shows "keys_ok env keys' \<and> (\<forall>i p. public_key_of keys i = Some p \<longrightarrow> public_key_of keys' i = Some p) \<and>
    (\<forall>k. r = Inr k \<longrightarrow> key_pair env (privateKeyB64 k) (publicKeyB64 k) \<and>
       public_key_of keys' (keyId k) = Some (publicKeyB64 k))"
proof (cases "newest_key (filter (\<lambda>k. retired_at k = None) keys)")
  case (Some row)
  then have "row \<in> set keys" using newest_key_in by fastforce
  with Some assms show ?thesis
    by (auto simp: getOrCreateActiveSigningKey_def rowToKey_def keys_ok_def public_key_of_in)
next
  case None
  show ?thesis
  proof (cases jwk)
    case (Pair d x)
    show ?thesis
    proof (cases "\<exists>d' x'. d = Some d' \<and> x = Some x' \<and> d' \<noteq> [] \<and> x' \<noteq> []")
      case False
      with None Pair assms(1,2) show ?thesis
        by (auto simp: getOrCreateActiveSigningKey_def Let_def split: option.splits if_splits)
    next
      case True
      then obtain d' x' where dx: "d = Some d'" "x = Some x'" "d' \<noteq> []" "x' \<noteq> []" by blast
      let ?pub = "b64_bytes env (base64urlToBase64 x')"
      let ?new = "\<lparr>keyId = ''sitelayer-audit-ed25519-'' @ take 16 (hash_bytes env ?pub), hostId = host,
        publicKeyB64 = b64_text env ?pub, privateKeyB64 = b64_text env (b64_bytes env (base64urlToBase64 d')),
        keyCreatedAt = now, retired_at = None\<rparr>"
      obtain row where up: "upsert_key ?new keys = (row, keys')" and r: "r = Inr (rowToKey row)"
        using assms(1) None Pair dx
        by (auto simp: getOrCreateActiveSigningKey_def Let_def split: prod.splits)
      have "key_pair env (privateKeyB64 ?new) (publicKeyB64 ?new)"
        using assms(3) Pair dx by (simp add: jwk_ok_def)
      with upsert_key_props [OF up assms(2)]
      have "keys_ok env keys'" "row \<in> set keys'"
        "\<forall>i p. public_key_of keys i = Some p \<longrightarrow> public_key_of keys' i = Some p" by blast+
      then show ?thesis
        by (auto simp: r rowToKey_def keys_ok_def public_key_of_in)
    qed
  qed
qed

section \<open>Entries keep verifying\<close>

definition verifies :: "escrow_env \<Rightarrow> audit_escrow_entry \<Rightarrow> bool" where
  "verifies env e \<longleftrightarrow> (\<exists>r. verifyEntry env e = Inr r \<and> vr_ok r)"

lemma verifies_iff:
  "verifies env e \<longleftrightarrow>
     (\<exists>mt pt. canonicalizeJSON (cv_of (material e)) = Inr mt
        \<and> canonicalizeJSON (cv_of (entryPayload e)) = Inr pt
        \<and> entryHash e = hashSHA256 env mt \<and> payloadHash e = hashSHA256 env pt
        \<and> contextHash e = hashSHA256 env
            (context_text (previousEntryHash e) (windowStart e) (windowEnd e) (entryKeyId e))
        \<and> js_property (material e) ''payload_hash'' = Inr (JStr (payloadHash e))
        \<and> js_property (material e) ''context_hash'' = Inr (JStr (contextHash e))
        \<and> verifyEd25519 env (entryPublicKeyB64 e) mt (signatureB64 e))"
  by (auto simp: verifies_def verifyEntry_def report_of_def complain_def Let_def hashCanonicalJSON_def
      map_result_def split: sum.splits)

lemma verifies_texts:
  assumes "verifies env e"
  obtains mt pt where "canonicalizeJSON (cv_of (material e)) = Inr mt"
    "canonicalizeJSON (cv_of (entryPayload e)) = Inr pt"
    "entryHash e = hashSHA256 env mt" "payloadHash e = hashSHA256 env pt"
  using assms unfolding verifies_iff by blast

lemma verifies_fields:
  assumes "verifies env e"
  shows "js_property (material e) ''payload_hash'' = Inr (JStr (payloadHash e))"
    and "js_property (material e) ''context_hash'' = Inr (JStr (contextHash e))"
    and "contextHash e = hashSHA256 env
      (context_text (previousEntryHash e) (windowStart e) (windowEnd e) (entryKeyId e))"
  using assms unfolding verifies_iff by blast+

lemma rowToEntry_simps [simp]:
  "entryHash (rowToEntry e pub) = entryHash e" "payloadHash (rowToEntry e pub) = payloadHash e"
  "contextHash (rowToEntry e pub) = contextHash e" "previousEntryHash (rowToEntry e pub) = previousEntryHash e"
  "windowStart (rowToEntry e pub) = windowStart e" "windowEnd (rowToEntry e pub) = windowEnd e"
  "entryKeyId (rowToEntry e pub) = entryKeyId e" "signatureB64 (rowToEntry e pub) = signatureB64 e"
  "material (rowToEntry e pub) = material e" "entryPayload (rowToEntry e pub) = entryPayload e"
  "entryPublicKeyB64 (rowToEntry e pub) = pub"
  by (simp_all add: rowToEntry_def escrow_entry.defs)

lemma verifies_seal_row: "verifies env (rowToEntry (seal_row inp e) pub) \<longleftrightarrow> verifies env (rowToEntry e pub)"
  unfolding verifies_iff by (simp add: seal_row_def)

lemma verify_signed:
  assumes "key_pair env priv pub" "signEd25519 env priv m = Inr sig"
  shows "verifyEd25519 env pub m sig"
  using assms
  by (auto simp: key_pair_def signEd25519_def verifyEd25519_def importPrivateKey_def importPublicKey_def
      Let_def map_result_def)

lemma exact_material:
  "exact payload \<Longrightarrow> \<bar>pa_sourceCount params\<bar> < 2 ^ 53 \<Longrightarrow>
   exact (escrow_material params payload a key created prev ph ch)"
  by (simp add: escrow_material_def AUDIT_ESCROW_VERSION_def split: option.split)

lemma appended_verifies:
  assumes app: "appended env key created a params payload db row"
    and key: "key_pair env (privateKeyB64 key) (publicKeyB64 key)"
    and jsonb: "jsonb_faithful env"
    and exact: "exact payload" "\<bar>pa_sourceCount params\<bar> < 2 ^ 53"
  shows "verifies env (rowToEntry row (publicKeyB64 key))"
proof -
  define prev where "prev = findPreviousEntryHash (escrow_entries db) a (pa_companyId params)"
  define ch where "ch = hashSHA256 env
    (context_text prev (pa_windowStart params) (pa_windowEnd params) (keyId key))"
  from app obtain pt mt sig m p where
    pt: "canonicalizeJSON payload = Inr pt" and
    mt: "canonicalizeJSON (escrow_material params payload a (keyId key) created prev (hashSHA256 env pt) ch)
       = Inr mt" and
    sig: "signEd25519 env (privateKeyB64 key) mt = Inr sig" and
    m: "jsonb env mt = Some m" and p: "jsonb env pt = Some p" and
    row: "row = (new_entry params a (keyId key) created prev (hashSHA256 env mt) (hashSHA256 env pt) ch sig)
        \<lparr>entryId := escrow_seq db + 1, material := m, entryPayload := p\<rparr>"
    unfolding appended_def Let_def prev_def ch_def by blast
  let ?mat = "escrow_material params payload a (keyId key) created prev (hashSHA256 env pt) ch"
  have acc: "acceptable payload" "acceptable ?mat"
    using pt mt canonicalize_ok is_ok_Inr by metis+
  have texts: "mt = text_of (normal ?mat)" "pt = text_of (normal payload)"
    using acc pt mt canonicalize_text by fastforce+
  have m': "js_wf m" "normal (cv_of m) = normal ?mat"
    using jsonb acc(2) exact_material [OF exact] m unfolding jsonb_faithful_def texts(1) by blast+
  have p': "normal (cv_of p) = normal payload"
    using jsonb acc(1) exact(1) p unfolding jsonb_faithful_def texts(2) by blast
  have "js_property m k = Inr (JStr h)"
    if "(k, h) \<in> {(''payload_hash'', hashSHA256 env pt), (''context_hash'', ch)}" for k h
  proof -
    obtain kvs where kvs: "?mat = CObj kvs" by (simp add: escrow_material_def)
    have "(k, CStr h) \<in> set kvs"
      using that kvs [symmetric] by (auto simp: escrow_material_def)
    obtain fs where fs: "normal ?mat = CObj fs" by (simp add: escrow_material_def)
    show ?thesis
      using property_of_normal [of m fs k h] material_field [of k h kvs fs] kvs fs m'
        \<open>(k, CStr h) \<in> set kvs\<close> by simp
  qed
  then have props: "js_property m ''payload_hash'' = Inr (JStr (hashSHA256 env pt))"
    "js_property m ''context_hash'' = Inr (JStr ch)" by simp_all
  have "canonicalizeJSON (cv_of m) = Inr mt" "canonicalizeJSON (cv_of p) = Inr pt"
    using canonicalize_cv_of [OF m'(2) acc(2)] canonicalize_cv_of [OF p' acc(1)] mt pt by simp_all
  then show ?thesis
    unfolding verifies_iff
    using verify_signed [OF key sig] props by (simp add: row new_entry_def ch_def)
qed

definition escrow_verified :: "escrow_env \<Rightarrow> escrow_db \<Rightarrow> bool" where
  "escrow_verified env db \<longleftrightarrow> keys_ok env (escrow_keys db) \<and>
     (\<forall>e \<in> set (escrow_entries db). \<exists>pub. public_key_of (escrow_keys db) (entryKeyId e) = Some pub
        \<and> verifies env (rowToEntry e pub))"

fun op_ok :: "escrow_env \<Rightarrow> escrow_op \<Rightarrow> bool" where
  "op_ok env (Append jwk now host created params) \<longleftrightarrow>
     jwk_ok env jwk \<and> exact (pa_payload params) \<and> \<bar>pa_sourceCount params\<bar> < 2 ^ 53"
| "op_ok env (Seal inp) \<longleftrightarrow> True"

lemma escrow_verified_step:
  assumes db: "escrow_verified env db" and op: "op_ok env op" and jsonb: "jsonb_faithful env"
  shows "escrow_verified env (escrow_step env op db)"
proof (cases rule: escrow_step_cases [where env = env and op = op and db = db])
  case (idle keys n)
  from idle(3) have "keys_ok env keys \<and>
      (\<forall>i p. public_key_of (escrow_keys db) i = Some p \<longrightarrow> public_key_of keys i = Some p)"
  proof
    assume "\<exists>jwk now host created params. op = Append jwk now host created params \<and>
      keys = snd (getOrCreateActiveSigningKey env jwk now host (escrow_keys db))"
    then show ?thesis
      using db op getOrCreate_props [OF prod.collapse [symmetric]]
      by (auto simp: escrow_verified_def)
  qed (use db in \<open>simp add: escrow_verified_def\<close>)
  with db show ?thesis by (fastforce simp: idle(1) escrow_verified_def)
next
  case (sealed inp)
  with db show ?thesis
    by (auto simp: escrow_verified_def sealEntry_def verifies_seal_row)
next
  case (insert jwk now host created params payload key keys row)
  have "keys_ok env (escrow_keys db)" "jwk_ok env jwk"
    using db op by (simp_all add: insert(1) escrow_verified_def)
  note k = getOrCreate_props [OF insert(2) this]
  have "exact payload" "\<bar>pa_sourceCount params\<bar> < 2 ^ 53"
    using op by (auto simp: insert(1,3))
  with k have "verifies env (rowToEntry row (publicKeyB64 key))"
    using appended_verifies [OF insert(4) _ jsonb] by blast
  with k db appended_fields(6) [OF insert(4)] show ?thesis
    by (fastforce simp: insert(5) escrow_verified_def)
qed

section \<open>Properties\<close>

lemma escrow_run_append: "escrow_run env (ops @ ops') db = escrow_run env ops' (escrow_run env ops db)"
  by (simp add: escrow_run_def)

lemma escrow_inv_run: "escrow_entries db = [] \<Longrightarrow> escrow_inv (escrow_run env ops db)"
  by (rule escrow_run_invariant [where P = escrow_inv])
    (simp_all add: escrow_inv_step, simp add: escrow_inv_def chains_linked_def)

lemma escrow_step_hashes:
  "\<exists>rest. map entryHash (escrow_entries (escrow_step env op db)) = map entryHash (escrow_entries db) @ rest"
  by (cases rule: escrow_step_cases [where env = env and op = op and db = db])
    (simp_all add: sealEntry_def comp_def if_distrib cong: if_cong)

lemma escrow_run_hashes:
  "\<exists>rest. map entryHash (escrow_entries (escrow_run env ops db)) = map entryHash (escrow_entries db) @ rest"
proof (induction ops arbitrary: db)
  case (Cons op ops)
  have "escrow_run env (op # ops) db = escrow_run env ops (escrow_step env op db)"
    by (simp add: escrow_run_def)
  with Cons [of "escrow_step env op db"] escrow_step_hashes [of env op db] show ?case by fastforce
qed (simp add: escrow_run_def)

text \<open>
  C33: However many entries are appended (for whatever companies and actions, some of them
  failing) and sealed, the entries of one company and action form one chain in id order: the first
  has no predecessor and each next one names the hash of the one before; ids increase, no hash
  occurs twice, and later operations only add hashes at the end.
\<close>
theorem escrow_chains_link:
  assumes "escrow_entries db = []"
  shows "links_from [] (filter (in_chain a co) (escrow_entries (escrow_run env ops db)))
    \<and> sorted_wrt (<) (map entryId (escrow_entries (escrow_run env ops db)))
    \<and> distinct (map entryHash (escrow_entries (escrow_run env ops db)))
    \<and> (\<exists>rest. map entryHash (escrow_entries (escrow_run env (ops @ later) db))
          = map entryHash (escrow_entries (escrow_run env ops db)) @ rest)"
proof -
  have "escrow_inv (escrow_run env ops db)" using assms by (rule escrow_inv_run)
  then have "chains_linked (escrow_entries (escrow_run env ops db))" by (simp add: escrow_inv_def)
  with escrow_run_hashes [of env later "escrow_run env ops db"] show ?thesis
    unfolding escrow_run_append chains_linked_def by blast
qed

lemma find_sorted_id:
  "sorted_wrt (<) (map entryId es) \<Longrightarrow> e \<in> set es \<Longrightarrow> find (\<lambda>x. entryId x = entryId e) es = Some e"
proof (induction es)
  case (Cons x es)
  show ?case
  proof (cases "e = x")
    case False
    with Cons.prems have "e \<in> set es" "entryId x \<noteq> entryId e" by auto
    with Cons.IH Cons.prems(1) show ?thesis by simp
  qed simp
qed simp

text \<open>
  C32: From an empty escrow, after any appends and seals, every entry is found by its id
  and passes \<open>verifyEntry\<close>: the text recomputed from the \<open>jsonb\<close> columns, whatever order they give the
  keys in, has the stored hash, and the joined public key accepts the signature.  It needs that
  \<open>jsonb\<close> keeps values up to key order and that generated key pairs verify what they sign.
\<close>
theorem escrow_entries_verify:
  assumes "escrow_entries db = []" "escrow_keys db = []" "jsonb_faithful env" "\<forall>op \<in> set ops. op_ok env op"
    and "e \<in> set (escrow_entries (escrow_run env ops db))"
  shows "\<exists>x. getEntryById (escrow_run env ops db) (entryId e) = Some x \<and> entryHash x = entryHash e
    \<and> verifies env x"
proof -
  have "escrow_verified env (escrow_run env ops db)"
  proof (rule escrow_run_invariant [where P = "escrow_verified env"])
    show "escrow_verified env db" using assms(1,2) by (simp add: escrow_verified_def keys_ok_def)
  qed (use assms(3,4) in \<open>blast intro: escrow_verified_step\<close>)
  then obtain pub where "public_key_of (escrow_keys (escrow_run env ops db)) (entryKeyId e) = Some pub"
    "verifies env (rowToEntry e pub)" using assms(5) by (auto simp: escrow_verified_def)
  moreover have "escrow_inv (escrow_run env ops db)" using assms(1) by (rule escrow_inv_run)
  then have "find (\<lambda>x. entryId x = entryId e) (escrow_entries (escrow_run env ops db)) = Some e"
    using assms(5) by (simp add: find_sorted_id escrow_inv_def chains_linked_def)
  ultimately show ?thesis by (simp add: getEntryById_def)
qed

lemma js_property_normal:
  assumes "normal (cv_of u) = normal (cv_of v)" "js_wf u" "js_property v k = Inr (JStr h)"
  shows "js_property u k = Inr (JStr h)"
proof -
  obtain kvs where v: "v = JObj kvs" and "js_get kvs k = JStr h"
    using assms(3) by (cases v) auto
  then have "(k, JStr h) \<in> set kvs" using js_get_in [of kvs k] by auto
  then have "(k, CStr h) \<in> set (map (\<lambda>p. (fst p, cv_of (snd p))) kvs)" by force
  moreover obtain fs where fs: "normal (cv_of v) = CObj fs" by (simp add: v)
  ultimately have "(k, CStr h) \<in> set fs"
    using material_field [of k h "map (\<lambda>p. (fst p, cv_of (snd p))) kvs" fs]
    unfolding v cv_of.simps by blast
  with property_of_normal [of u fs k h] assms(1,2) fs show ?thesis by simp
qed

text \<open>
  An entry hash commits to the whole evidence: if two entries verify and have the same
  entry hash, then the same material, payload, hashes and context (previous hash, window, key) are
  in both up to the order of keys, or two different texts with the same SHA-256 have been found.
\<close>
lemma escrow_hash_binds:
  assumes "verifies env e" "verifies env e'" "entryHash e = entryHash e'" "js_wf (material e')"
  shows "normal (cv_of (material e)) = normal (cv_of (material e'))
      \<and> normal (cv_of (entryPayload e)) = normal (cv_of (entryPayload e'))
      \<and> payloadHash e = payloadHash e' \<and> contextHash e = contextHash e'
      \<and> context_text (previousEntryHash e) (windowStart e) (windowEnd e) (entryKeyId e)
        = context_text (previousEntryHash e') (windowStart e') (windowEnd e') (entryKeyId e')
    \<or> (\<exists>x y. hash_text env x = hash_text env y \<and> x \<noteq> y)"
proof (rule disjCI)
  assume "\<not> (\<exists>x y. hash_text env x = hash_text env y \<and> x \<noteq> y)"
  then have inj: "hashSHA256 env x = hashSHA256 env y \<Longrightarrow> x = y" for x y
    by (auto simp: hashSHA256_def)
  have same: "normal (cv_of u) = normal (cv_of v)"
    if "canonicalizeJSON (cv_of u) = Inr t" "canonicalizeJSON (cv_of v) = Inr t" for u v t
    using that canonicalize_eq_iff [of "cv_of u" "cv_of v"] by simp
  obtain mt pt where e: "canonicalizeJSON (cv_of (material e)) = Inr mt"
    "canonicalizeJSON (cv_of (entryPayload e)) = Inr pt" "entryHash e = hashSHA256 env mt"
    "payloadHash e = hashSHA256 env pt" by (rule verifies_texts [OF assms(1)])
  obtain mt' pt' where e': "canonicalizeJSON (cv_of (material e')) = Inr mt'"
    "canonicalizeJSON (cv_of (entryPayload e')) = Inr pt'" "entryHash e' = hashSHA256 env mt'"
    "payloadHash e' = hashSHA256 env pt'" by (rule verifies_texts [OF assms(2)])
  have "mt = mt'" using inj assms(3) e(3) e'(3) by simp
  then have m: "normal (cv_of (material e)) = normal (cv_of (material e'))"
    using same e(1) e'(1) by blast
  moreover have h: "payloadHash e = payloadHash e'" "contextHash e = contextHash e'"
    using js_property_normal [OF m [symmetric] assms(4)] verifies_fields [OF assms(1)]
      verifies_fields [OF assms(2)] by simp_all
  moreover have "pt = pt'" using inj h(1) e(4) e'(4) by simp
  then have "normal (cv_of (entryPayload e)) = normal (cv_of (entryPayload e'))"
    using same e(2) e'(2) by blast
  moreover have "context_text (previousEntryHash e) (windowStart e) (windowEnd e) (entryKeyId e)
      = context_text (previousEntryHash e') (windowStart e') (windowEnd e') (entryKeyId e')"
    using inj h(2) verifies_fields(3) [OF assms(1)] verifies_fields(3) [OF assms(2)] by simp
  ultimately show "normal (cv_of (material e)) = normal (cv_of (material e'))
      \<and> normal (cv_of (entryPayload e)) = normal (cv_of (entryPayload e'))
      \<and> payloadHash e = payloadHash e' \<and> contextHash e = contextHash e'
      \<and> context_text (previousEntryHash e) (windowStart e) (windowEnd e) (entryKeyId e)
        = context_text (previousEntryHash e') (windowStart e') (windowEnd e') (entryKeyId e')"
    by blast
qed

text \<open>Moving a chain: the rows of one company and action are given to another company.\<close>

definition move_chain :: "string \<Rightarrow> string option \<Rightarrow> string option \<Rightarrow> escrow_entry list \<Rightarrow> escrow_entry list" where
  "move_chain a co co' es = map (\<lambda>e. if in_chain a co e then e\<lparr>companyId := co'\<rparr> else e) es"

text \<open>
  The signature binds the evidence but not the row it is filed under:
  \<open>verifyEntry\<close> reads neither the \<open>action\<close>, \<open>company_id\<close> and \<open>source_count\<close> columns nor the
  copies of them in the signed material, so a whole chain can be moved to another company, its own
  company left with no entry, and every entry still verifies.
\<close>
lemma escrow_columns_unbound:
  "verifies env (rowToEntry (row\<lparr>entryAction := a', companyId := co', sourceCount := n\<rparr>) pub)
     = verifies env (rowToEntry row pub)
   \<and> map (\<lambda>e. verifies env (rowToEntry e pub)) (move_chain a co co' es)
     = map (\<lambda>e. verifies env (rowToEntry e pub)) es
   \<and> filter (in_chain a co) (move_chain a co co' es) = (if co = co' then filter (in_chain a co) es else [])"
proof (intro conjI)
  show "verifies env (rowToEntry (row\<lparr>entryAction := a', companyId := co', sourceCount := n\<rparr>) pub)
     = verifies env (rowToEntry row pub)"
    unfolding verifies_iff by simp
  have "verifies env (rowToEntry (e\<lparr>companyId := co'\<rparr>) pub) = verifies env (rowToEntry e pub)" for e
    unfolding verifies_iff by simp
  then show "map (\<lambda>e. verifies env (rowToEntry e pub)) (move_chain a co co' es)
     = map (\<lambda>e. verifies env (rowToEntry e pub)) es"
    by (simp add: move_chain_def)
  show "filter (in_chain a co) (move_chain a co co' es) = (if co = co' then filter (in_chain a co) es else [])"
    by (induction es) (auto simp: move_chain_def in_chain_def [abs_def])
qed


section \<open>A concrete escrow\<close>

text \<open>
  Functions that satisfy the laws: texts are their own hash, a signature is the seed before the
  message, base64 is the identity, and \<open>jsonb\<close> finds a value of a table that has the text.
\<close>

definition demo_env :: "js list \<Rightarrow> escrow_env" where
  "demo_env us = \<lparr>hash_text = (\<lambda>s. s), hash_bytes = (\<lambda>s. s), b64_bytes = (\<lambda>s. s), b64_text = (\<lambda>s. s),
     ed_sign = (\<lambda>seed m. seed @ m), ed_verify = (\<lambda>pub m sig. Some (sig = pub @ m)),
     jsonb = (\<lambda>t. find (\<lambda>u. text_of (normal (cv_of u)) = t) us)\<rparr>"

definition demo_seed :: string where
  "demo_seed = replicate 32 (CHR ''k'')"

definition demo_key :: string where
  "demo_key = ''sitelayer-audit-ed25519-kkkkkkkkkkkkkkkk''"

definition demo_params :: append_params where
  "demo_params = \<lparr>pa_action = '' audit_event_batch '', pa_companyId = None, pa_windowStart = 0,
     pa_windowEnd = 1000, pa_sourceCount = 0, pa_payload = CObj []\<rparr>"

definition demo_material :: js where
  "demo_material = JObj
    [(''key_id'', JStr demo_key), (''payload'', JObj []), (''action'', JStr ''audit_event_batch''),
     (''version'', JNum 1), (''company_id'', JNull), (''created_at'', JStr (toISOString 2000)),
     (''window_end'', JStr (toISOString 1000)), (''context_hash'', JStr (context_text [] 0 1000 demo_key)),
     (''payload_hash'', JStr ''{}''), (''source_count'', JNum 0), (''window_start'', JStr (toISOString 0)),
     (''previous_entry_hash'', JStr [])]"

definition demo_db :: escrow_db where
  "demo_db = \<lparr>escrow_keys = [], escrow_entries = [], escrow_seq = 0, escrow_companies = []\<rparr>"

definition demo_op :: escrow_op where
  "demo_op = Append (Some demo_seed, Some demo_seed) 500 ''host-1'' 2000 demo_params"

definition demo_material_text :: string where
  "demo_material_text = text_of (normal (cv_of demo_material))"

definition demo_entry :: escrow_entry where
  "demo_entry = \<lparr>entryId = 1, entryHash = demo_material_text, previousEntryHash = [],
     entryAction = ''audit_event_batch'', companyId = None, windowStart = 0, windowEnd = 1000,
     sourceCount = 0, payloadHash = ''{}'', contextHash = context_text [] 0 1000 demo_key,
     entryKeyId = demo_key, signatureB64 = demo_seed @ demo_material_text, material = demo_material,
     entryPayload = JObj [], s3Bucket = [], s3Key = [], s3VersionId = [], s3ObjectLocked = False,
     otsProofPath = [], otsStatus = [], entryCreatedAt = 2000\<rparr>"

lemma demo_env_simps [simp]:
  "hash_text (demo_env us) s = s" "hash_bytes (demo_env us) s = s" "b64_bytes (demo_env us) s = s"
  "b64_text (demo_env us) s = s" "ed_sign (demo_env us) seed s = seed @ s"
  "ed_verify (demo_env us) pub s sig = Some (sig = pub @ s)"
  "jsonb (demo_env us) t = find (\<lambda>u. text_of (normal (cv_of u)) = t) us"
  by (simp_all add: demo_env_def)

lemma demo_params_simps [simp]:
  "pa_action demo_params = '' audit_event_batch ''" "pa_companyId demo_params = None"
  "pa_windowStart demo_params = 0" "pa_windowEnd demo_params = 1000" "pa_sourceCount demo_params = 0"
  "pa_payload demo_params = CObj []"
  by (simp_all add: demo_params_def)

lemma demo_faithful: "\<forall>u \<in> set us. js_wf u \<Longrightarrow> jsonb_faithful (demo_env us)"
  by (auto simp: jsonb_faithful_def find_Some_iff text_of_inject plain_normal)

lemma demo_key_pair: "key_pair (demo_env us) demo_seed demo_seed"
  by (simp add: key_pair_def demo_seed_def)

lemma demo_base64: "base64urlToBase64 demo_seed = demo_seed"
  by (simp add: base64urlToBase64_def demo_seed_def pad_base64.simps)

lemma demo_action: "trim '' audit_event_batch '' = ''audit_event_batch''"
  by (simp add: trim_def is_space_def)

lemma demo_create_key:
  "getOrCreateActiveSigningKey (demo_env us) (Some demo_seed, Some demo_seed) now host [] =
     (let k = \<lparr>keyId = demo_key, hostId = host, publicKeyB64 = demo_seed, privateKeyB64 = demo_seed,
         keyCreatedAt = now\<rparr>
      in (Inr k, [escrow_key.extend k \<lparr>retired_at = None\<rparr>]))"
proof -
  have "demo_seed \<noteq> []" "''sitelayer-audit-ed25519-'' @ take 16 demo_seed = demo_key"
    by (simp_all add: demo_seed_def demo_key_def numeral_eq_Suc)
  then show ?thesis
    by (simp add: getOrCreateActiveSigningKey_def demo_base64 rowToKey_def Let_def escrow_key.defs)
qed

lemma demo_texts:
  "canonicalizeJSON (CObj []) = Inr ''{}''"
  "canonicalizeJSON (escrow_material demo_params (CObj []) ''audit_event_batch'' demo_key 2000 [] ''{}''
     (context_text [] 0 1000 demo_key)) = Inr demo_material_text"
proof -
  let ?mat = "escrow_material demo_params (CObj []) ''audit_event_batch'' demo_key 2000 [] ''{}''
     (context_text [] 0 1000 demo_key)"
  show "canonicalizeJSON (CObj []) = Inr ''{}''" by (simp add: object_text_def)
  have "acceptable ?mat" by (simp add: escrow_material_def)
  moreover have "normal ?mat = normal (cv_of demo_material)"
    by (simp add: escrow_material_def demo_material_def AUDIT_ESCROW_VERSION_def)
  ultimately show "canonicalizeJSON ?mat = Inr demo_material_text"
    by (simp add: canonicalize_text demo_material_text_def)
qed

lemma demo_jsonb:
  "find (\<lambda>u. text_of (normal (cv_of u)) = demo_material_text) [demo_material, JObj []] = Some demo_material"
  "find (\<lambda>u. text_of (normal (cv_of u)) = ''{}'') [demo_material, JObj []] = Some (JObj [])"
  by (simp_all add: demo_material_text_def demo_material_def object_text_def)

lemma demo_run:
  "escrow_entries (escrow_run (demo_env [demo_material, JObj []]) [demo_op] demo_db) = [demo_entry]"
proof -
  have "demo_material_text \<noteq> []" by (simp add: demo_material_text_def demo_material_def object_text_def)
  moreover have "length demo_seed = 32" "demo_seed \<noteq> []" by (simp_all add: demo_seed_def)
  ultimately show ?thesis
    using demo_texts demo_jsonb
    by (simp add: escrow_run_def demo_op_def appendEntry_def demo_action demo_create_key Let_def
        demo_db_def append_tx_def findPreviousEntryHash_def hashCanonicalJSON_def hashSHA256_def
        signEd25519_def importPrivateKey_def insert_entry_def new_entry_def rowToEntry_def demo_entry_def
        escrow_key.defs map_result_def del: find.simps)
qed

theorem escrow_chains_link_witness:
  "links_from [] (filter (in_chain ''audit_event_batch'' None)
     (escrow_entries (escrow_run (demo_env [demo_material, JObj []]) [demo_op] demo_db)))
   \<and> escrow_entries (escrow_run (demo_env [demo_material, JObj []]) [demo_op] demo_db) \<noteq> []"
proof
  have "escrow_entries demo_db = []" by (simp add: demo_db_def)
  from escrow_chains_link [OF this] show "links_from [] (filter (in_chain ''audit_event_batch'' None)
     (escrow_entries (escrow_run (demo_env [demo_material, JObj []]) [demo_op] demo_db)))" by blast
qed (simp add: demo_run)

theorem escrow_entries_verify_witness:
  "\<exists>x. getEntryById (escrow_run (demo_env [demo_material, JObj []]) [demo_op] demo_db) 1 = Some x
     \<and> verifies (demo_env [demo_material, JObj []]) x"
proof -
  let ?env = "demo_env [demo_material, JObj []]"
  have "js_wf demo_material" by (simp add: demo_material_def)
  then have "jsonb_faithful ?env" by (simp add: demo_faithful)
  moreover have "op_ok ?env demo_op"
    using demo_key_pair [of "[demo_material, JObj []]"] demo_base64
    by (simp add: demo_op_def jwk_ok_def)
  moreover have "entryId demo_entry = 1" by (simp add: demo_entry_def)
  moreover have "escrow_entries demo_db = []" "escrow_keys demo_db = []" by (simp_all add: demo_db_def)
  ultimately show ?thesis
    using escrow_entries_verify [of demo_db ?env "[demo_op]" demo_entry]
    by (auto simp: demo_run)
qed

lemma demo_entry_verifies: "verifies (demo_env us) (rowToEntry demo_entry demo_seed)"
proof -
  have "canonicalizeJSON (cv_of demo_material) = Inr demo_material_text"
    by (simp add: canonicalize_text demo_material_text_def)
  moreover have "js_property demo_material ''payload_hash'' = Inr (JStr ''{}'')"
    "js_property demo_material ''context_hash'' = Inr (JStr (context_text [] 0 1000 demo_key))"
    by (simp_all add: demo_material_def js_get_def)
  moreover have "length demo_seed = 32" by (simp add: demo_seed_def)
  ultimately show ?thesis
    by (simp add: verifies_iff demo_entry_def hashSHA256_def verifyEd25519_def
        importPublicKey_def Let_def object_text_def)
qed

end
