(* ===== verification/Escrow_Tick.thy ===== *)
theory Escrow_Tick
  imports Audit_Escrow
begin

text \<open>
  The escrow tick of \<open>apps/worker/src/runners/audit-escrow-tick.ts\<close>: it signs the audit events and the
  context handoff events of a company, a window of time at a time, into the escrow chains, and
  stamps the rows with the entry they went into.  Timestamps of rows are microseconds, as Postgres
  keeps them, and clock readings of the worker milliseconds.  Ticks that come one after the other are a history of whole ticks; ticks
  that overlap are a history of their steps, as only the append itself takes a lock.  The lemmas show when the windows of
  a chain tile time and which rows a window leaves behind.
\<close>

section \<open>The source tables\<close>

record source_row =
  src_id :: string
  src_company :: string
  src_at :: int
  escrow_anchor_id :: "int option"

record audit_event_row = source_row +
  ev_action :: string
  ev_entity_type :: string
  ev_entity_id :: string
  ev_actor_user_id :: string
  ev_actor_role :: "string option"
  ev_sentry_trace :: "string option"
  ev_request_id :: "string option"

record context_handoff_row = source_row +
  ho_event_type :: string
  ho_work_item_id :: string
  ho_actor_kind :: string
  ho_actor_user_id :: "string option"
  ho_actor_ref :: "string option"
  ho_source_system :: string
  ho_sentry_trace :: "string option"
  ho_request_id :: "string option"
  ho_redaction_version :: string

text \<open>A window is open at its start and closed at its end.\<close>

definition in_window :: "string \<Rightarrow> int \<Rightarrow> int \<Rightarrow> 'a source_row_scheme \<Rightarrow> bool" where
  "in_window company ws we r \<longleftrightarrow>
     src_company r = company \<and> escrow_anchor_id r = None \<and> 1000 * ws < src_at r \<and> src_at r \<le> 1000 * we"

text \<open>\<open>order by created_at asc, id asc limit $4\<close>\<close>

definition selectEventsForCompany ::
  "string \<Rightarrow> int \<Rightarrow> int \<Rightarrow> nat \<Rightarrow> 'a source_row_scheme list \<Rightarrow> 'a source_row_scheme list" where
  "selectEventsForCompany company ws we limit rows =
     take limit (sort_key src_at (sort_key src_id (filter (in_window company ws we) rows)))"

definition backfillAnchorIds ::
  "string \<Rightarrow> string list \<Rightarrow> int \<Rightarrow> 'a source_row_scheme list \<Rightarrow> 'a source_row_scheme list" where
  "backfillAnchorIds company ids entry rows =
     (if ids = [] then rows
      else map (\<lambda>r. if src_company r = company \<and> src_id r \<in> set ids
                   then r\<lparr>escrow_anchor_id := Some entry\<rparr> else r) rows)"

section \<open>Payloads\<close>

definition nullable :: "string option \<Rightarrow> cv" where
  "nullable s = (case s of None \<Rightarrow> CNull | Some x \<Rightarrow> CStr x)"

definition audit_event_json :: "audit_event_row \<Rightarrow> cv" where
  "audit_event_json r = CObj
     [(''id'', CStr (src_id r)), (''created_at'', CStr (toISOString (src_at r div 1000))),
      (''action'', CStr (ev_action r)), (''entity_type'', CStr (ev_entity_type r)),
      (''entity_id'', CStr (ev_entity_id r)), (''actor_user_id'', CStr (ev_actor_user_id r)),
      (''actor_role'', nullable (ev_actor_role r)), (''sentry_trace'', nullable (ev_sentry_trace r)),
      (''request_id'', nullable (ev_request_id r))]"

definition context_handoff_json :: "context_handoff_row \<Rightarrow> cv" where
  "context_handoff_json r = CObj
     [(''id'', CStr (src_id r)), (''occurred_at'', CStr (toISOString (src_at r div 1000))),
      (''event_type'', CStr (ho_event_type r)), (''work_item_id'', CStr (ho_work_item_id r)),
      (''actor_kind'', CStr (ho_actor_kind r)), (''actor_user_id'', nullable (ho_actor_user_id r)),
      (''actor_ref'', nullable (ho_actor_ref r)), (''source_system'', CStr (ho_source_system r)),
      (''sentry_trace'', nullable (ho_sentry_trace r)), (''request_id'', nullable (ho_request_id r)),
      (''redaction_version'', CStr (ho_redaction_version r))]"

definition batch_payload :: "string \<Rightarrow> ('r \<Rightarrow> cv) \<Rightarrow> int \<Rightarrow> int \<Rightarrow> 'r list \<Rightarrow> cv" where
  "batch_payload schema row_json ws we rows = CObj
     [(''schema'', CStr schema), (''count'', CNum (int (length rows))),
      (''window_start'', CStr (toISOString ws)), (''window_end'', CStr (toISOString we)),
      (''events'', CArr (map row_json rows))]"

section \<open>External sealing\<close>

text \<open>
  \<open>tk_now0\<close> is \<open>Date.now()\<close> for the first window, \<open>tk_now\<close> the end of the window; \<open>tk_backfill\<close> tells whether
  the transaction of the back-fill commits; \<open>tk_bucket\<close> is the trimmed bucket, empty when it is not
  set; \<open>tk_put\<close> is the object store, \<open>None\<close> when it throws, else the version id it returns.  The
  request body and the client configuration are not modelled.
\<close>

record tick_env =
  tk_env :: escrow_env
  tk_jwk :: "string option \<times> string option"
  tk_key_now :: int
  tk_host :: string
  tk_now0 :: int
  tk_now :: int
  tk_created :: int
  tk_backfill :: bool
  tk_bucket :: string
  tk_put :: "string \<Rightarrow> string \<Rightarrow> string option option"

definition s3_object_key :: "audit_escrow_entry \<Rightarrow> string" where
  "s3_object_key entry =
     (let (y, m, d) = civil_of_days (entryCreatedAt entry div 86400000)
      in ''escrow/sitelayer/'' @ padded_nat 4 y @ ''/'' @ padded_nat 2 m @ ''/'' @ padded_nat 2 d @ ''/'' @
         show_int (entryId entry) @ ''.json'')"

definition trySealS3 :: "tick_env \<Rightarrow> audit_escrow_entry \<Rightarrow> escrow_db \<Rightarrow> escrow_db" where
  "trySealS3 k entry db =
     (if tk_bucket k = [] then db
      else let key = s3_object_key entry in
        case tk_put k (tk_bucket k) key of
          None \<Rightarrow> db
        | Some version \<Rightarrow> sealEntry
            \<lparr>se_entryId = entryId entry, se_s3Bucket = Some (tk_bucket k), se_s3Key = Some key,
             se_s3VersionId = Some (case version of None \<Rightarrow> [] | Some v \<Rightarrow> v),
             se_s3ObjectLocked = Some True, se_otsProofPath = None, se_otsStatus = None\<rparr> db)"

section \<open>One chain of one company\<close>

definition lastWindowEnd :: "escrow_entry list \<Rightarrow> string \<Rightarrow> string \<Rightarrow> int option" where
  "lastWindowEnd es a company =
     map_option windowEnd (latest_entry (filter (in_chain a (Some company)) es))"

text \<open>
  Anchoring is a series of statements and transactions without a common lock: the window is read, the batch is
  read, the entry is appended, the rows are stamped, the entry is sealed.  \<open>read_window\<close> is the first, with the
  clock; \<open>append_batch\<close> is the third, which alone takes the lock of the chain.
\<close>

definition read_window :: "tick_env \<Rightarrow> string \<Rightarrow> string \<Rightarrow> escrow_db \<Rightarrow> int \<times> int" where
  "read_window k a company db = (case lastWindowEnd (escrow_entries db) a company of
     Some w \<Rightarrow> w | None \<Rightarrow> tk_now0 k - 60 * 60 * 1000, tk_now k)"

definition batch_params ::
  "string \<Rightarrow> string \<Rightarrow> ('a source_row_scheme \<Rightarrow> cv) \<Rightarrow> string \<Rightarrow> int \<Rightarrow> int \<Rightarrow> 'a source_row_scheme list \<Rightarrow> append_params" where
  "batch_params a schema row_json company ws we events =
     \<lparr>pa_action = a, pa_companyId = Some company, pa_windowStart = ws, pa_windowEnd = we,
      pa_sourceCount = int (length events), pa_payload = batch_payload schema row_json ws we events\<rparr>"

definition append_batch :: "tick_env \<Rightarrow> append_params \<Rightarrow> escrow_db \<Rightarrow> audit_escrow_entry result \<times> escrow_db" where
  "append_batch k params db = appendEntry (tk_env k) (tk_jwk k) (tk_key_now k) (tk_host k) (tk_created k) params db"

text \<open>
  The body that \<open>anchorAuditEvents\<close> and \<open>anchorContextHandoffEvents\<close> share, with nothing in between; the result is
  \<open>{entryCreated, anchored}\<close>.
\<close>

definition anchorEvents ::
  "tick_env \<Rightarrow> string \<Rightarrow> string \<Rightarrow> ('a source_row_scheme \<Rightarrow> cv) \<Rightarrow> string \<Rightarrow> nat
   \<Rightarrow> 'a source_row_scheme list \<Rightarrow> escrow_db
   \<Rightarrow> (bool \<times> nat) result \<times> 'a source_row_scheme list \<times> escrow_db" where
  "anchorEvents k a schema row_json company batchSize rows db =
     (let (ws, we) = read_window k a company db
      in if we \<le> ws then (Inr (False, 0), rows, db)
         else let events = selectEventsForCompany company ws we batchSize rows
         in if events = [] then (Inr (False, 0), rows, db)
            else case append_batch k (batch_params a schema row_json company ws we events) db of
              (Inl e, db1) \<Rightarrow> (Inl e, rows, db1)
            | (Inr entry, db1) \<Rightarrow>
                if \<not> tk_backfill k then (Inl (Error ''back-fill rolled back''), rows, db1)
                else (let ids = map src_id events in
                  (Inr (True, length ids), backfillAnchorIds company ids (entryId entry) rows,
                   trySealS3 k entry db1)))"

lemmas anchor_defs = anchorEvents_def read_window_def batch_params_def append_batch_def

definition AUDIT_EVENTS :: string where
  "AUDIT_EVENTS = ''audit_event_batch''"

definition CONTEXT_HANDOFF :: string where
  "CONTEXT_HANDOFF = ''context_handoff_event_batch''"

definition anchorAuditEvents where
  "anchorAuditEvents k company batchSize rows db =
     anchorEvents k AUDIT_EVENTS ''sitelayer.audit_events.minimal.v1'' audit_event_json
       company batchSize rows db"

definition anchorContextHandoffEvents where
  "anchorContextHandoffEvents k company batchSize rows db =
     anchorEvents k CONTEXT_HANDOFF ''sitelayer.context_handoff_events.minimal.v1'' context_handoff_json
       company batchSize rows db"

section \<open>The tick\<close>

record tick_db =
  td_audit :: "audit_event_row list"
  td_handoff :: "context_handoff_row list"
  td_escrow :: escrow_db

record tick_summary =
  ts_ran :: bool
  ts_audit_event_entries_created :: nat
  ts_audit_events_anchored :: nat
  ts_context_handoff_entries_created :: nat
  ts_context_handoff_events_anchored :: nat
  ts_failed :: nat

fun created_count :: "(bool \<times> nat) result \<Rightarrow> nat" where
  "created_count (Inr (created, _)) = (if created then 1 else 0)"
| "created_count (Inl _) = 0"

lemma created_count_one: "created_count r = 1 \<Longrightarrow> (\<And>n. r = Inr (True, n) \<Longrightarrow> P) \<Longrightarrow> P"
  by (cases r) (auto split: if_splits)

fun anchored_count :: "(bool \<times> nat) result \<Rightarrow> nat" where
  "anchored_count (Inr (_, n)) = n"
| "anchored_count (Inl _) = 0"

fun failed_count :: "'a result \<Rightarrow> nat" where
  "failed_count (Inr _) = 0"
| "failed_count (Inl _) = 1"

text \<open>Each half is caught on its own; \<open>k\<close> and \<open>k'\<close> hold the clock readings of the two halves.\<close>

definition runTick :: "tick_env \<Rightarrow> tick_env \<Rightarrow> nat \<Rightarrow> string \<Rightarrow> tick_db \<Rightarrow> tick_summary \<times> tick_db" where
  "runTick k k' batchSize company db =
     (let (r, audit, esc) = anchorAuditEvents k company batchSize (td_audit db) (td_escrow db);
          (r', handoff, esc') = anchorContextHandoffEvents k' company batchSize (td_handoff db) esc
      in (\<lparr>ts_ran = True, ts_audit_event_entries_created = created_count r,
           ts_audit_events_anchored = anchored_count r,
           ts_context_handoff_entries_created = created_count r',
           ts_context_handoff_events_anchored = anchored_count r',
           ts_failed = failed_count r + failed_count r'\<rparr>,
          \<lparr>td_audit = audit, td_handoff = handoff, td_escrow = esc'\<rparr>))"

definition tick_skipped :: tick_summary where
  "tick_skipped = \<lparr>ts_ran = False, ts_audit_event_entries_created = 0, ts_audit_events_anchored = 0,
     ts_context_handoff_entries_created = 0, ts_context_handoff_events_anchored = 0, ts_failed = 0\<rparr>"

text \<open>The runner's own state is \<open>lastRunAt\<close>; \<open>done\<close> is the clock when the run ends.\<close>

definition maybeTick ::
  "int \<Rightarrow> int \<Rightarrow> int \<Rightarrow> tick_env \<Rightarrow> tick_env \<Rightarrow> nat \<Rightarrow> string \<Rightarrow> int \<times> tick_db
   \<Rightarrow> tick_summary \<times> int \<times> tick_db" where
  "maybeTick intervalMs now done k k' batchSize company st =
     (let (lastRunAt, db) = st in
      if now - lastRunAt < intervalMs then (tick_skipped, lastRunAt, db)
      else (let (summary, db') = runTick k k' batchSize company db in (summary, done, db')))"

section \<open>Histories\<close>

text \<open>
  What happens to the tables when ticks run one after the other: rows are inserted (a repeated id is refused by
  the primary key), ticks run, entries are sealed again by an operator.
\<close>

datatype tick_step =
    Insert_audit audit_event_row
  | Insert_handoff context_handoff_row
  | Run_tick tick_env tick_env nat string
  | Reseal seal_input

definition insert_row :: "'a source_row_scheme \<Rightarrow> 'a source_row_scheme list \<Rightarrow> 'a source_row_scheme list" where
  "insert_row r rows = (if src_id r \<in> src_id ` set rows then rows else rows @ [r])"

fun apply_step :: "tick_step \<Rightarrow> tick_db \<Rightarrow> tick_db" where
  "apply_step (Insert_audit r) db = db\<lparr>td_audit := insert_row r (td_audit db)\<rparr>"
| "apply_step (Insert_handoff r) db = db\<lparr>td_handoff := insert_row r (td_handoff db)\<rparr>"
| "apply_step (Run_tick k k' batchSize company) db = snd (runTick k k' batchSize company db)"
| "apply_step (Reseal inp) db = db\<lparr>td_escrow := sealEntry inp (td_escrow db)\<rparr>"

definition tick_history :: "tick_step list \<Rightarrow> tick_db \<Rightarrow> tick_db" where
  "tick_history steps db = fold apply_step steps db"

lemma tick_history_invariant:
  "\<lbrakk>P db; \<And>s db. P db \<Longrightarrow> P (apply_step s db)\<rbrakk> \<Longrightarrow> P (tick_history steps db)"
  unfolding tick_history_def by (induction steps arbitrary: db) simp_all

section \<open>What one append does to the entries\<close>

lemma appendEntry_Inl:
  "appendEntry env jwk now host created params db = (Inl e, db') \<Longrightarrow> escrow_entries db' = escrow_entries db"
  by (auto simp: appendEntry_def Let_def split: if_splits sum.splits prod.splits dest!: append_tx_Inl)

lemma appendEntry_Inr:
  assumes "appendEntry env jwk now host created params db = (Inr x, db')"
  obtains row where "escrow_entries db' = escrow_entries db @ [row]" "entryId x = entryId row"
    "entryAction row = trim (pa_action params)" "companyId row = pa_companyId params"
    "windowStart row = pa_windowStart params" "windowEnd row = pa_windowEnd params"
proof -
  from assms obtain key keys payload where
    tx: "append_tx env key created (trim (pa_action params)) params payload (db\<lparr>escrow_keys := keys\<rparr>) = (Inr x, db')"
    by (auto simp: appendEntry_def Let_def split: if_splits sum.splits prod.splits)
  from append_tx_Inr [OF this] obtain row where row: "x = rowToEntry row (publicKeyB64 key)"
    "appended env key created (trim (pa_action params)) params payload (db\<lparr>escrow_keys := keys\<rparr>) row"
    "escrow_entries db' = escrow_entries db @ [row]" by auto
  show ?thesis
  proof (rule that)
    show "escrow_entries db' = escrow_entries db @ [row]" by (rule row(3))
    show "entryId x = entryId row" by (simp add: row(1) rowToEntry_def escrow_entry.defs)
  qed (use row(2) in \<open>auto simp: appended_def new_entry_def Let_def\<close>)
qed

lemma escrow_inv_appendEntry:
  "escrow_inv db \<Longrightarrow> escrow_inv (snd (appendEntry env jwk now host created params db))"
  using escrow_inv_step [of db env "Append jwk now host created params"] by simp

lemma escrow_inv_sealEntry: "escrow_inv db \<Longrightarrow> escrow_inv (sealEntry inp db)"
  using escrow_inv_step [of db env "Seal inp"] by simp

text \<open>What sealing leaves alone in an entry.\<close>

definition same_filing :: "(escrow_entry \<Rightarrow> escrow_entry) \<Rightarrow> bool" where
  "same_filing f \<longleftrightarrow> (\<forall>e. entryAction (f e) = entryAction e \<and> companyId (f e) = companyId e \<and>
     entryId (f e) = entryId e \<and> windowStart (f e) = windowStart e \<and> windowEnd (f e) = windowEnd e)"

lemma sealEntry_filing:
  obtains f where "same_filing f" "escrow_entries (sealEntry inp db) = map f (escrow_entries db)"
proof (rule that)
  show "same_filing (\<lambda>e. if entryId e = se_entryId inp then seal_row inp e else e)"
    by (simp add: same_filing_def seal_row_def)
qed (simp add: sealEntry_def)

lemma trySealS3_cases: "trySealS3 k x db = db \<or> (\<exists>inp. trySealS3 k x db = sealEntry inp db)"
  unfolding trySealS3_def Let_def by (cases "tk_put k (tk_bucket k) (s3_object_key x)") auto

lemma trySealS3_filing:
  obtains f where "same_filing f" "escrow_entries (trySealS3 k x db) = map f (escrow_entries db)"
  using trySealS3_cases [of k x db]
proof
  assume "trySealS3 k x db = db"
  then show ?thesis using that [of id] by (simp add: same_filing_def)
next
  assume "\<exists>inp. trySealS3 k x db = sealEntry inp db"
  then obtain inp where "trySealS3 k x db = sealEntry inp db" ..
  then show ?thesis using that sealEntry_filing [of inp db] by metis
qed

lemma escrow_inv_trySealS3: "escrow_inv db \<Longrightarrow> escrow_inv (trySealS3 k x db)"
  using trySealS3_cases [of k x db] escrow_inv_sealEntry by metis

text \<open>A tick of one chain: nothing is entered, or one entry for a window that starts where the last ended.\<close>

lemma anchorEvents_cases:
  assumes run: "anchorEvents k a schema row_json company batch rows db = (r, rows', db')"
    and action: "trim a = a"
  obtains (nothing) "rows' = rows" "escrow_entries db' = escrow_entries db" "\<forall>n. r \<noteq> Inr (True, n)"
  | (entry) f row ws where
      "ws = (case lastWindowEnd (escrow_entries db) a company of
          Some w \<Rightarrow> w | None \<Rightarrow> tk_now0 k - 60 * 60 * 1000)"
      "same_filing f" "escrow_entries db' = map f (escrow_entries db @ [row])"
      "in_chain a (Some company) row" "windowStart row = ws" "windowEnd row = tk_now k" "ws < tk_now k"
      "rows' = rows \<or> rows' = backfillAnchorIds company
         (map src_id (selectEventsForCompany company ws (tk_now k) batch rows)) (entryId row) rows"
      "\<forall>n. r = Inr (True, n) \<longrightarrow>
         n = length (selectEventsForCompany company ws (tk_now k) batch rows) \<and>
         rows' = backfillAnchorIds company
           (map src_id (selectEventsForCompany company ws (tk_now k) batch rows)) (entryId row) rows"
proof -
  define ws where "ws = (case lastWindowEnd (escrow_entries db) a company of
      Some w \<Rightarrow> w | None \<Rightarrow> tk_now0 k - 60 * 60 * 1000)"
  define evs where "evs = selectEventsForCompany company ws (tk_now k) batch rows"
  define params where "params = \<lparr>pa_action = a, pa_companyId = Some company, pa_windowStart = ws,
     pa_windowEnd = tk_now k, pa_sourceCount = int (length evs),
     pa_payload = batch_payload schema row_json ws (tk_now k) evs\<rparr>"
  obtain x db1 where app: "appendEntry (tk_env k) (tk_jwk k) (tk_key_now k) (tk_host k) (tk_created k)
      params db = (x, db1)" by fastforce
  have unfolded: "anchorEvents k a schema row_json company batch rows db =
     (if tk_now k \<le> ws \<or> evs = [] then (Inr (False, 0), rows, db)
      else case x of Inl e \<Rightarrow> (Inl e, rows, db1)
        | Inr entry \<Rightarrow> if \<not> tk_backfill k then (Inl (Error ''back-fill rolled back''), rows, db1)
            else (Inr (True, length evs), backfillAnchorIds company (map src_id evs) (entryId entry) rows,
                  trySealS3 k entry db1))"
    using app unfolding anchor_defs Let_def ws_def [symmetric] prod.case evs_def [symmetric] params_def
    by (cases x) simp_all
  show ?thesis
  proof (cases "(tk_now k \<le> ws \<or> evs = []) \<or> (\<exists>e. x = Inl e)")
    case True
    then have "rows' = rows \<and> escrow_entries db' = escrow_entries db \<and> (\<forall>n. r \<noteq> Inr (True, n))"
      using run unfolded app by (auto split: if_splits dest: appendEntry_Inl)
    then show ?thesis by (elim conjE) (rule nothing)
  next
    case False
    then obtain entry where x: "x = Inr entry" by (cases x) auto
    from app x obtain row where row: "escrow_entries db1 = escrow_entries db @ [row]"
      "entryId entry = entryId row" "entryAction row = trim a" "companyId row = Some company"
      "windowStart row = ws" "windowEnd row = tk_now k"
      by (auto simp: params_def elim: appendEntry_Inr)
    obtain f where f: "same_filing f" "escrow_entries (trySealS3 k entry db1) = map f (escrow_entries db1)"
      by (rule trySealS3_filing)
    have id: "same_filing id" "escrow_entries db1 = map id (escrow_entries db1)"
      by (simp_all add: same_filing_def)
    have "in_chain a (Some company) row" using row action by (simp add: in_chain_def)
    with run unfolded False x row f id show ?thesis
      using entry [OF ws_def, of f row] entry [OF ws_def, of id row]
      by (auto simp: evs_def split: if_splits)
  qed
qed

section \<open>Windows tile time\<close>

fun windows_tile :: "escrow_entry list \<Rightarrow> bool" where
  "windows_tile (e # e' # es) \<longleftrightarrow>
     windowStart e < windowEnd e \<and> windowStart e' = windowEnd e \<and> windows_tile (e' # es)"
| "windows_tile [e] \<longleftrightarrow> windowStart e < windowEnd e"
| "windows_tile [] \<longleftrightarrow> True"

lemma windows_tile_snoc:
  "windows_tile (es @ [e]) \<longleftrightarrow>
     windows_tile es \<and> windowStart e < windowEnd e \<and> (es = [] \<or> windowStart e = windowEnd (last es))"
  by (induction es rule: windows_tile.induct) auto

lemma filter_same_filing:
  "same_filing f \<Longrightarrow> filter (in_chain a co) (map f es) = map f (filter (in_chain a co) es)"
  by (simp add: same_filing_def filter_map comp_def in_chain_def [abs_def])

lemma windows_tile_map: "same_filing f \<Longrightarrow> windows_tile (map f es) = windows_tile es"
  by (induction es rule: windows_tile.induct) (simp_all add: same_filing_def)

lemma lastWindowEnd_sorted:
  assumes "escrow_inv db"
  shows "lastWindowEnd (escrow_entries db) a company =
    (let c = filter (in_chain a (Some company)) (escrow_entries db)
     in if c = [] then None else Some (windowEnd (last c)))"
proof -
  have "sorted_wrt (<) (map entryId (filter (in_chain a (Some company)) (escrow_entries db)))"
    using assms by (simp add: escrow_inv_def chains_linked_def sorted_wrt_map sorted_wrt_filter)
  then show ?thesis by (simp add: lastWindowEnd_def latest_entry_sorted Let_def)
qed

lemma escrow_inv_anchorEvents:
  assumes "anchorEvents k a schema row_json company batch rows db = (r, rows', db')" "escrow_inv db"
  shows "escrow_inv db'"
proof -
  have "escrow_inv (snd (appendEntry env jwk now host created params db))" for env jwk now host created params
    using assms(2) by (rule escrow_inv_appendEntry)
  then have app: "appendEntry env jwk now host created params db = (x, db1) \<Longrightarrow> escrow_inv db1"
    for env jwk now host created params x db1 by (metis snd_conv)
  show ?thesis
    using assms
    by (auto simp: anchor_defs Let_def escrow_inv_trySealS3 split: if_splits sum.splits prod.splits
        dest!: app)
qed

lemma trim_actions [simp]: "trim AUDIT_EVENTS = AUDIT_EVENTS" "trim CONTEXT_HANDOFF = CONTEXT_HANDOFF"
  by (simp_all add: trim_def is_space_def AUDIT_EVENTS_def CONTEXT_HANDOFF_def)

section \<open>Rows left behind\<close>

text \<open>A row the chain has passed: not anchored, and not after the end of the last window.\<close>

definition left_behind :: "string \<Rightarrow> 'a source_row_scheme list \<Rightarrow> escrow_db \<Rightarrow> 'a source_row_scheme \<Rightarrow> bool" where
  "left_behind a rows db r \<longleftrightarrow> r \<in> set rows \<and> escrow_anchor_id r = None \<and>
     (\<exists>w. lastWindowEnd (escrow_entries db) a (src_company r) = Some w \<and> src_at r \<le> 1000 * w)"

lemma selected_in_window:
  "r \<in> set (selectEventsForCompany company ws we limit rows) \<Longrightarrow> r \<in> set rows \<and> in_window company ws we r"
  by (auto simp: selectEventsForCompany_def dest!: in_set_takeD)

lemma backfill_keeps:
  assumes "distinct (map src_id rows)" "r \<in> set rows" "\<not> in_window company ws we r"
  shows "r \<in> set (backfillAnchorIds company (map src_id (selectEventsForCompany company ws we limit rows)) entry rows)"
proof -
  have "src_id r \<notin> src_id ` set (selectEventsForCompany company ws we limit rows)"
    using assms selected_in_window by (metis (no_types, lifting) distinct_map image_iff inj_on_eq_iff)
  with assms(2) show ?thesis by (force simp: backfillAnchorIds_def)
qed

lemma backfill_ids [simp]: "map src_id (backfillAnchorIds company ids entry rows) = map src_id rows"
  by (simp add: backfillAnchorIds_def)

lemma lastWindowEnd_entry:
  assumes "same_filing f" "escrow_inv db'" "escrow_entries db' = map f (escrow_entries db @ [row])" "escrow_inv db"
    "in_chain a (Some company) row"
  shows "lastWindowEnd (escrow_entries db') b c =
    (if b = a \<and> c = company then Some (windowEnd row) else lastWindowEnd (escrow_entries db) b c)"
proof -
  have "in_chain b (Some c) row \<longleftrightarrow> b = a \<and> c = company" using assms(5) by (auto simp: in_chain_def)
  moreover have "windowEnd (f e) = windowEnd e" for e using assms(1) by (simp add: same_filing_def)
  ultimately show ?thesis
    using lastWindowEnd_sorted [OF assms(2), of b c] lastWindowEnd_sorted [OF assms(4), of b c]
    by (simp add: assms(3) filter_same_filing [OF assms(1)] Let_def last_map del: map_append)
qed

lemma anchorEvents_lastWindowEnd:
  assumes run: "anchorEvents k a schema row_json company batch rows db = (r, rows', db')"
    and "trim a = a" "escrow_inv db" "lastWindowEnd (escrow_entries db) b c = Some w"
  shows "\<exists>w'. lastWindowEnd (escrow_entries db') b c = Some w' \<and> w \<le> w'"
  using run assms(2)
proof (cases rule: anchorEvents_cases)
  case (entry f row ws)
  from lastWindowEnd_entry [OF entry(2) escrow_inv_anchorEvents [OF run assms(3)] entry(3) assms(3) entry(4), of b c]
  show ?thesis using assms(4) entry(1,6,7) by auto
qed (use assms(4) in simp)

lemma anchorEvents_left_behind:
  assumes run: "anchorEvents k a schema row_json company batch rows db = (r, rows', db')"
    and a: "trim a = a" and inv: "escrow_inv db" and dist: "distinct (map src_id rows)"
    and e: "left_behind a rows db e"
  shows "left_behind a rows' db' e \<and> distinct (map src_id rows')"
proof -
  obtain w where w: "lastWindowEnd (escrow_entries db) a (src_company e) = Some w" "src_at e \<le> 1000 * w"
    using e by (auto simp: left_behind_def)
  from anchorEvents_lastWindowEnd [OF run a inv w(1)] w(2)
  have "\<exists>w'. lastWindowEnd (escrow_entries db') a (src_company e) = Some w' \<and> src_at e \<le> 1000 * w'"
    by fastforce
  moreover have "e \<in> set rows' \<and> distinct (map src_id rows')"
    using run a
  proof (cases rule: anchorEvents_cases)
    case nothing
    then show ?thesis using e dist by (simp add: left_behind_def)
  next
    case (entry f row ws)
    have "\<not> in_window company ws (tk_now k) e"
      using w entry(1) by (auto simp: in_window_def)
    with e dist entry(8) show ?thesis
      by (auto simp: left_behind_def backfill_keeps)
  qed
  ultimately show ?thesis using e by (simp add: left_behind_def)
qed

lemma anchorEvents_ids:
  assumes "anchorEvents k a schema row_json company batch rows db = (r, rows', db')"
  shows "map src_id rows' = map src_id rows"
  using assms by (auto simp: anchor_defs Let_def split: if_splits sum.splits prod.splits)

lemma anchorEvents_created:
  assumes run: "anchorEvents k a schema row_json company batch rows db = (Inr (True, n), rows', db')"
    and "trim a = a" "escrow_inv db"
  shows "n \<le> batch \<and> lastWindowEnd (escrow_entries db') a company = Some (tk_now k)"
  using run assms(2)
proof (cases rule: anchorEvents_cases)
  case (entry f row ws)
  have "lastWindowEnd (escrow_entries db') a company = Some (windowEnd row)"
    using lastWindowEnd_entry [OF entry(2) escrow_inv_anchorEvents [OF run assms(3)] entry(3) assms(3) entry(4)]
    by simp
  with entry(6,9) show ?thesis by (simp add: selectEventsForCompany_def)
qed simp

section \<open>Histories keep both invariants\<close>

definition tables_ok :: "tick_db \<Rightarrow> bool" where
  "tables_ok db \<longleftrightarrow> escrow_inv (td_escrow db) \<and> distinct (map src_id (td_audit db)) \<and>
     distinct (map src_id (td_handoff db))"

definition behind :: "audit_event_row set \<Rightarrow> context_handoff_row set \<Rightarrow> tick_db \<Rightarrow> bool" where
  "behind A H db \<longleftrightarrow> tables_ok db \<and>
     (\<forall>e \<in> A. left_behind AUDIT_EVENTS (td_audit db) (td_escrow db) e) \<and>
     (\<forall>e \<in> H. left_behind CONTEXT_HANDOFF (td_handoff db) (td_escrow db) e)"

lemma left_behind_mono:
  assumes "left_behind a rows db e" "set rows \<subseteq> set rows'"
    "\<And>w. lastWindowEnd (escrow_entries db) a (src_company e) = Some w \<Longrightarrow>
       \<exists>w'. lastWindowEnd (escrow_entries db') a (src_company e) = Some w' \<and> w \<le> w'"
  shows "left_behind a rows' db' e"
proof -
  obtain w where "lastWindowEnd (escrow_entries db) a (src_company e) = Some w" "src_at e \<le> 1000 * w"
    using assms(1) by (auto simp: left_behind_def)
  with assms(3) [of w] have "\<exists>w'. lastWindowEnd (escrow_entries db') a (src_company e) = Some w' \<and> src_at e \<le> 1000 * w'"
    by fastforce
  with assms(1,2) show ?thesis by (auto simp: left_behind_def)
qed

lemma insert_row_ids: "distinct (map src_id rows) \<Longrightarrow> distinct (map src_id (insert_row r rows))"
  by (auto simp: insert_row_def)

lemma left_behind_insert: "left_behind a rows db e \<Longrightarrow> left_behind a (insert_row r rows) db e"
  by (auto simp: left_behind_def insert_row_def)

lemma lastWindowEnd_sealEntry:
  assumes "escrow_inv db"
  shows "lastWindowEnd (escrow_entries (sealEntry inp db)) a company = lastWindowEnd (escrow_entries db) a company"
proof -
  obtain f where f: "same_filing f" "escrow_entries (sealEntry inp db) = map f (escrow_entries db)"
    by (rule sealEntry_filing)
  then have "windowEnd (f e) = windowEnd e" for e by (simp add: same_filing_def)
  then show ?thesis
    using lastWindowEnd_sorted [OF escrow_inv_sealEntry [OF assms], of inp a company]
      lastWindowEnd_sorted [OF assms, of a company]
    by (simp add: f(2) filter_same_filing [OF f(1)] Let_def last_map)
qed

lemma left_behind_sealEntry:
  "escrow_inv db \<Longrightarrow> left_behind a rows (sealEntry inp db) e \<longleftrightarrow> left_behind a rows db e"
  by (simp add: left_behind_def lastWindowEnd_sealEntry)

lemma behind_step:
  assumes "behind A H db"
  shows "behind A H (apply_step s db)"
proof (cases s)
  case (Insert_audit r)
  with assms show ?thesis
    by (simp add: behind_def tables_ok_def insert_row_ids left_behind_insert)
next
  case (Insert_handoff r)
  with assms show ?thesis
    by (simp add: behind_def tables_ok_def insert_row_ids left_behind_insert)
next
  case (Reseal inp)
  with assms show ?thesis
    by (simp add: behind_def tables_ok_def escrow_inv_sealEntry left_behind_sealEntry)
next
  case (Run_tick k k' batch company)
  obtain r audit esc where
    1: "anchorAuditEvents k company batch (td_audit db) (td_escrow db) = (r, audit, esc)"
    by (metis prod_cases3)
  obtain r' handoff esc' where
    2: "anchorContextHandoffEvents k' company batch (td_handoff db) esc = (r', handoff, esc')"
    by (metis prod_cases3)
  note run1 = 1 [unfolded anchorAuditEvents_def] and run2 = 2 [unfolded anchorContextHandoffEvents_def]
  have db: "tables_ok db" using assms by (simp add: behind_def)
  then have inv: "escrow_inv (td_escrow db)" by (simp add: tables_ok_def)
  note inv1 = escrow_inv_anchorEvents [OF run1 inv]
  have ids: "distinct (map src_id audit)" "distinct (map src_id handoff)"
    using db anchorEvents_ids [OF run1] anchorEvents_ids [OF run2] by (simp_all add: tables_ok_def)
  have "left_behind AUDIT_EVENTS audit esc' e" if "e \<in> A" for e
  proof -
    have "left_behind AUDIT_EVENTS audit esc e"
      using anchorEvents_left_behind [OF run1 trim_actions(1) inv] db that assms
      by (simp add: tables_ok_def behind_def)
    then show ?thesis
      using anchorEvents_lastWindowEnd [OF run2 trim_actions(2) inv1] by (auto intro: left_behind_mono)
  qed
  moreover have "left_behind CONTEXT_HANDOFF handoff esc' e" if "e \<in> H" for e
  proof -
    have "left_behind CONTEXT_HANDOFF (td_handoff db) esc e"
      using anchorEvents_lastWindowEnd [OF run1 trim_actions(1) inv] that assms
      by (auto simp: behind_def intro: left_behind_mono)
    then show ?thesis
      using anchorEvents_left_behind [OF run2 trim_actions(2) inv1] db by (simp add: tables_ok_def)
  qed
  ultimately show ?thesis
    using ids escrow_inv_anchorEvents [OF run2 inv1] 1 2
    by (simp add: behind_def tables_ok_def Run_tick runTick_def)
qed

lemma behind_history: "behind A H db \<Longrightarrow> behind A H (tick_history steps db)"
  by (rule tick_history_invariant) (simp_all add: behind_step)

definition empty_tables :: "tick_db \<Rightarrow> bool" where
  "empty_tables db \<longleftrightarrow> td_audit db = [] \<and> td_handoff db = [] \<and> escrow_entries (td_escrow db) = []"

lemma tables_ok_history: "empty_tables db \<Longrightarrow> tables_ok (tick_history steps db)"
proof -
  assume "empty_tables db"
  then have "behind {} {} db"
    by (simp add: behind_def tables_ok_def empty_tables_def escrow_inv_def chains_linked_def)
  then show ?thesis using behind_history [of "{}" "{}" db steps] by (simp add: behind_def)
qed

section \<open>Properties\<close>

text \<open>
  C36: A tick signs at most a batch of events, and its window moves on all the same:
  once it created an entry, every audit event of the company that was not after the end of the
  window and has no anchor (it did not fit in the batch, it is older than the first window, its
  transaction committed late) is never anchored, whatever ticks, inserts and re-sealings follow, one after the
  other.
\<close>
theorem escrow_overflow_never_anchored:
  assumes "empty_tables db0" "db = tick_history before db0" "runTick k k' batch company db = (summary, db1)"
    and "ts_audit_event_entries_created summary = 1"
    and "e \<in> set (td_audit db1)" "src_company e = company" "escrow_anchor_id e = None" "src_at e \<le> 1000 * tk_now k"
  shows "ts_audit_events_anchored summary \<le> batch \<and> e \<in> set (td_audit (tick_history later db1))"
proof -
  have db: "tables_ok db" using assms(1,2) tables_ok_history by simp
  then have inv: "escrow_inv (td_escrow db)" by (simp add: tables_ok_def)
  obtain r audit esc where
    1: "anchorAuditEvents k company batch (td_audit db) (td_escrow db) = (r, audit, esc)"
    by (metis prod_cases3)
  obtain r' handoff esc' where
    2: "anchorContextHandoffEvents k' company batch (td_handoff db) esc = (r', handoff, esc')"
    by (metis prod_cases3)
  note run1 = 1 [unfolded anchorAuditEvents_def] and run2 = 2 [unfolded anchorContextHandoffEvents_def]
  from assms(3) 1 2 have sum: "ts_audit_event_entries_created summary = created_count r"
    "ts_audit_events_anchored summary = anchored_count r" "db1 = \<lparr>td_audit = audit, td_handoff = handoff, td_escrow = esc'\<rparr>"
    by (auto simp: runTick_def)
  have "created_count r = 1" using assms(4) sum(1) by simp
  then obtain n where r: "r = Inr (True, n)" by (rule created_count_one)
  have n: "n \<le> batch" and w: "lastWindowEnd (escrow_entries esc) AUDIT_EVENTS company = Some (tk_now k)"
    using anchorEvents_created [OF run1 [unfolded r] trim_actions(1) inv] by simp_all
  note inv1 = escrow_inv_anchorEvents [OF run1 inv]
  have "left_behind AUDIT_EVENTS audit esc e"
    using assms(5-8) sum(3) w by (simp add: left_behind_def)
  then have "left_behind AUDIT_EVENTS audit esc' e"
    using anchorEvents_lastWindowEnd [OF run2 trim_actions(2) inv1] by (auto intro: left_behind_mono)
  moreover have "tables_ok db1"
    using db anchorEvents_ids [OF run1] anchorEvents_ids [OF run2] escrow_inv_anchorEvents [OF run2 inv1]
    by (simp add: tables_ok_def sum(3))
  ultimately have "behind {e} {} db1" by (simp add: behind_def sum(3))
  from behind_history [OF this, of later] show ?thesis
    using n sum(2) r by (simp add: behind_def left_behind_def)
qed

section \<open>A concrete tick\<close>

text \<open>Two events and a batch of one, with the demo key; the hash and \<open>jsonb\<close> answer the same for every text.\<close>

definition demo_tick :: tick_env where
  "demo_tick = \<lparr>tk_env = (demo_env [])\<lparr>hash_text := (\<lambda>_. ''h''), jsonb := (\<lambda>_. Some (JObj []))\<rparr>,
     tk_jwk = (Some demo_seed, Some demo_seed), tk_key_now = 5000, tk_host = ''host-1'', tk_now0 = 5000,
     tk_now = 5000, tk_created = 5000, tk_backfill = True, tk_bucket = [], tk_put = (\<lambda>_ _. None)\<rparr>"

definition demo_event :: "string \<Rightarrow> int \<Rightarrow> audit_event_row" where
  "demo_event i t = \<lparr>src_id = i, src_company = ''c-1'', src_at = t, escrow_anchor_id = None,
     ev_action = ''update'', ev_entity_type = ''project'', ev_entity_id = ''p-1'', ev_actor_user_id = ''u-1'',
     ev_actor_role = None, ev_sentry_trace = None, ev_request_id = None\<rparr>"

definition demo_tables :: tick_db where
  "demo_tables = \<lparr>td_audit = [], td_handoff = [], td_escrow = demo_db\<lparr>escrow_companies := [''c-1'']\<rparr>\<rparr>"

definition demo_steps :: "tick_step list" where
  "demo_steps = [Insert_audit (demo_event ''a-1'' 1000000), Insert_audit (demo_event ''a-2'' 2000000)]"

lemma demo_empty: "empty_tables demo_tables"
  by (simp add: empty_tables_def demo_tables_def demo_db_def)

lemma demo_inserted:
  "tick_history demo_steps demo_tables
     = demo_tables\<lparr>td_audit := [demo_event ''a-1'' 1000000, demo_event ''a-2'' 2000000]\<rparr>"
  by (simp add: tick_history_def demo_steps_def demo_tables_def insert_row_def demo_event_def)

lemma acceptable_audit_batch: "acceptable (batch_payload schema audit_event_json ws we rows)"
  by (simp add: batch_payload_def audit_event_json_def nullable_def split: option.splits)

lemma demo_append:
  assumes "acceptable payload" "payload \<notin> {CUndef, CNull}"
  shows "\<exists>entry db1. entryId entry = 1 \<and> appendEntry (tk_env demo_tick) (tk_jwk demo_tick) 5000 ''host-1'' 5000
    \<lparr>pa_action = AUDIT_EVENTS, pa_companyId = Some ''c-1'', pa_windowStart = -3595000, pa_windowEnd = 5000,
     pa_sourceCount = 1, pa_payload = payload\<rparr> (td_escrow demo_tables) = (Inr entry, db1)"
proof -
  let ?env = "(demo_env [])\<lparr>hash_text := (\<lambda>_. ''h''), jsonb := (\<lambda>_. Some (JObj []))\<rparr>"
  let ?k = "\<lparr>keyId = demo_key, hostId = ''host-1'', publicKeyB64 = demo_seed, privateKeyB64 = demo_seed,
     keyCreatedAt = 5000\<rparr>"
  have create: "getOrCreateActiveSigningKey ?env (Some demo_seed, Some demo_seed) 5000 ''host-1'' []
      = (Inr ?k, [escrow_key.extend ?k \<lparr>retired_at = None\<rparr>])"
  proof -
    have "demo_seed \<noteq> []" "''sitelayer-audit-ed25519-'' @ take 16 demo_seed = demo_key"
      by (simp_all add: demo_seed_def demo_key_def numeral_eq_Suc)
    then show ?thesis
      by (simp add: getOrCreateActiveSigningKey_def demo_base64 rowToKey_def Let_def escrow_key.defs)
  qed
  have texts: "canonicalizeJSON v = Inr (text_of (normal v))" if "acceptable v" for v
    using that by (rule canonicalize_text)
  have ok: "acceptable (escrow_material p payload a k c prev ph ch)" for p a k c prev ph ch
    using assms(1) by (simp add: escrow_material_def split: option.splits)
  have "length demo_seed = 32" "demo_seed \<noteq> []" "AUDIT_EVENTS \<noteq> []"
    by (simp_all add: demo_seed_def AUDIT_EVENTS_def)
  then show ?thesis
    using assms ok
    by (simp add: demo_tick_def appendEntry_def create demo_tables_def demo_db_def append_tx_def
        Let_def hashCanonicalJSON_def hashSHA256_def texts signEd25519_def importPrivateKey_def map_result_def
        insert_entry_def new_entry_def rowToEntry_def escrow_key.defs escrow_entry.defs)
qed

lemma demo_first_tick:
  "\<exists>summary db1. runTick demo_tick demo_tick 1 ''c-1'' (tick_history demo_steps demo_tables) = (summary, db1)
     \<and> ts_audit_event_entries_created summary = 1 \<and> demo_event ''a-2'' 2000000 \<in> set (td_audit db1)"
proof -
  let ?rows = "[demo_event ''a-1'' 1000000, demo_event ''a-2'' 2000000]"
  have events: "selectEventsForCompany ''c-1'' (- 3595000) 5000 1 ?rows = [demo_event ''a-1'' 1000000]"
    by (simp add: selectEventsForCompany_def in_window_def demo_event_def)
  let ?payload = "batch_payload ''sitelayer.audit_events.minimal.v1'' audit_event_json (- 3595000) 5000
     [demo_event ''a-1'' 1000000]"
  have "?payload \<notin> {CUndef, CNull}" by (simp add: batch_payload_def)
  from demo_append [OF acceptable_audit_batch this] obtain entry db1 where
    app: "entryId entry = 1" "appendEntry (tk_env demo_tick) (tk_jwk demo_tick) 5000 ''host-1'' 5000
      \<lparr>pa_action = AUDIT_EVENTS, pa_companyId = Some ''c-1'', pa_windowStart = -3595000, pa_windowEnd = 5000,
       pa_sourceCount = 1, pa_payload = ?payload\<rparr> (td_escrow demo_tables) = (Inr entry, db1)" by blast
  have clock: "tk_key_now demo_tick = 5000" "tk_host demo_tick = ''host-1''" "tk_now0 demo_tick = 5000"
    "tk_now demo_tick = 5000" "tk_created demo_tick = 5000" "tk_backfill demo_tick" "tk_bucket demo_tick = []"
    by (simp_all add: demo_tick_def)
  have no_entries: "escrow_entries (td_escrow demo_tables) = []" by (simp add: demo_tables_def demo_db_def)
  have "anchorAuditEvents demo_tick ''c-1'' 1 ?rows (td_escrow demo_tables)
      = (Inr (True, 1), backfillAnchorIds ''c-1'' [''a-1''] 1 ?rows, db1)"
    using app events
    by (simp add: anchorAuditEvents_def anchor_defs Let_def clock lastWindowEnd_def no_entries trySealS3_def
        demo_event_def [of "''a-1''"])
  moreover have "demo_event ''a-2'' 2000000 \<in> set (backfillAnchorIds ''c-1'' [''a-1''] 1 ?rows)"
    by (simp add: backfillAnchorIds_def demo_event_def)
  ultimately show ?thesis
    by (simp add: demo_inserted runTick_def split: prod.splits)
qed

theorem escrow_overflow_never_anchored_witness:
  "\<exists>summary db1. runTick demo_tick demo_tick 1 ''c-1'' (tick_history demo_steps demo_tables) = (summary, db1)
     \<and> demo_event ''a-2'' 2000000
        \<in> set (td_audit (tick_history [Run_tick demo_tick demo_tick 500 ''c-1''] db1))"
proof -
  from demo_first_tick obtain summary db1 where
    tick: "runTick demo_tick demo_tick 1 ''c-1'' (tick_history demo_steps demo_tables) = (summary, db1)"
    "ts_audit_event_entries_created summary = 1" "demo_event ''a-2'' 2000000 \<in> set (td_audit db1)" by blast
  have "demo_event ''a-2'' 2000000 \<in> set (td_audit (tick_history [Run_tick demo_tick demo_tick 500 ''c-1''] db1))"
    using escrow_overflow_never_anchored [OF demo_empty refl tick]
    by (simp add: demo_event_def demo_tick_def)
  with tick(1) show ?thesis by blast
qed

section \<open>Overlapping ticks\<close>

text \<open>
  Nothing keeps two ticks of a company from running at once: the worker's own, and the \<open>forceTick\<close> the runbook has an
  operator run.  Here each anchoring is a series of steps, and the steps of any number of them, inserts and
  sealings come in any order; an anchoring may also crash.
\<close>

datatype chain = Audit_chain | Handoff_chain

fun chain_action :: "chain \<Rightarrow> string" where
  "chain_action Audit_chain = AUDIT_EVENTS"
| "chain_action Handoff_chain = CONTEXT_HANDOFF"

datatype anchor_stage =
    Window_read int int
  | Batch_read append_params "string list"
  | Entry_appended audit_escrow_entry "string list"
  | Rows_stamped audit_escrow_entry

record anchor_run =
  an_env :: tick_env
  an_chain :: chain
  an_company :: string
  an_batch :: nat
  an_stage :: anchor_stage

text \<open>The batch of a window: what to append and the rows to stamp, \<open>None\<close> when there is nothing.\<close>

definition read_batch :: "anchor_run \<Rightarrow> int \<Rightarrow> int \<Rightarrow> tick_db \<Rightarrow> (append_params \<times> string list) option" where
  "read_batch r ws we db = (case an_chain r of
     Audit_chain \<Rightarrow>
       (let events = selectEventsForCompany (an_company r) ws we (an_batch r) (td_audit db)
        in if events = [] then None else Some (batch_params AUDIT_EVENTS ''sitelayer.audit_events.minimal.v1''
          audit_event_json (an_company r) ws we events, map src_id events))
   | Handoff_chain \<Rightarrow>
       (let events = selectEventsForCompany (an_company r) ws we (an_batch r) (td_handoff db)
        in if events = [] then None else Some (batch_params CONTEXT_HANDOFF ''sitelayer.context_handoff_events.minimal.v1''
          context_handoff_json (an_company r) ws we events, map src_id events)))"

definition stamp_rows :: "anchor_run \<Rightarrow> string list \<Rightarrow> int \<Rightarrow> tick_db \<Rightarrow> tick_db" where
  "stamp_rows r ids entry db = (case an_chain r of
     Audit_chain \<Rightarrow> db\<lparr>td_audit := backfillAnchorIds (an_company r) ids entry (td_audit db)\<rparr>
   | Handoff_chain \<Rightarrow> db\<lparr>td_handoff := backfillAnchorIds (an_company r) ids entry (td_handoff db)\<rparr>)"

definition with_stage :: "anchor_run \<Rightarrow> anchor_stage \<Rightarrow> anchor_run" where
  "with_stage r s = r\<lparr>an_stage := s\<rparr>"

text \<open>The next step of an anchoring; \<open>None\<close> when it is done or has failed.\<close>

definition proceed :: "anchor_run \<Rightarrow> tick_db \<Rightarrow> anchor_run option \<times> tick_db" where
  "proceed r db = (case an_stage r of
     Window_read ws we \<Rightarrow> (case read_batch r ws we db of None \<Rightarrow> (None, db)
       | Some (params, ids) \<Rightarrow> (Some (with_stage r (Batch_read params ids)), db))
   | Batch_read params ids \<Rightarrow> (case append_batch (an_env r) params (td_escrow db) of
         (Inl e, esc) \<Rightarrow> (None, db\<lparr>td_escrow := esc\<rparr>)
       | (Inr entry, esc) \<Rightarrow> (Some (with_stage r (Entry_appended entry ids)), db\<lparr>td_escrow := esc\<rparr>))
   | Entry_appended entry ids \<Rightarrow>
       (if tk_backfill (an_env r) then (Some (with_stage r (Rows_stamped entry)), stamp_rows r ids (entryId entry) db)
        else (None, db))
   | Rows_stamped entry \<Rightarrow> (None, db\<lparr>td_escrow := trySealS3 (an_env r) entry (td_escrow db)\<rparr>))"

record pool =
  pl_db :: tick_db
  pl_runs :: "anchor_run list"

datatype pool_event =
    Add_audit audit_event_row
  | Add_handoff context_handoff_row
  | Seal_again seal_input
  | Begin_anchor tick_env chain string nat
  | Proceed nat
  | Crash nat

definition replace_nth :: "nat \<Rightarrow> 'a list \<Rightarrow> 'a list \<Rightarrow> 'a list" where
  "replace_nth i ys xs = take i xs @ ys @ drop (Suc i) xs"

fun pool_step :: "pool_event \<Rightarrow> pool \<Rightarrow> pool" where
  "pool_step (Add_audit r) p = p\<lparr>pl_db := (pl_db p)\<lparr>td_audit := insert_row r (td_audit (pl_db p))\<rparr>\<rparr>"
| "pool_step (Add_handoff r) p = p\<lparr>pl_db := (pl_db p)\<lparr>td_handoff := insert_row r (td_handoff (pl_db p))\<rparr>\<rparr>"
| "pool_step (Seal_again inp) p = p\<lparr>pl_db := (pl_db p)\<lparr>td_escrow := sealEntry inp (td_escrow (pl_db p))\<rparr>\<rparr>"
| "pool_step (Begin_anchor k c company batch) p =
     (let (ws, we) = read_window k (chain_action c) company (td_escrow (pl_db p))
      in if we \<le> ws then p
         else p\<lparr>pl_runs := pl_runs p @
           [\<lparr>an_env = k, an_chain = c, an_company = company, an_batch = batch, an_stage = Window_read ws we\<rparr>]\<rparr>)"
| "pool_step (Proceed i) p =
     (if i < length (pl_runs p)
      then (let (next, db) = proceed (pl_runs p ! i) (pl_db p)
            in \<lparr>pl_db = db, pl_runs = replace_nth i (case next of None \<Rightarrow> [] | Some r \<Rightarrow> [r]) (pl_runs p)\<rparr>)
      else p)"
| "pool_step (Crash i) p = p\<lparr>pl_runs := replace_nth i [] (pl_runs p)\<rparr>"

definition pool_history :: "pool_event list \<Rightarrow> tick_db \<Rightarrow> pool" where
  "pool_history events db = fold pool_step events \<lparr>pl_db = db, pl_runs = []\<rparr>"

text \<open>The window an anchoring of the chain is going to sign.\<close>

definition open_window :: "chain \<Rightarrow> string \<Rightarrow> anchor_run \<Rightarrow> (int \<times> int) option" where
  "open_window c company r = (if an_chain r = c \<and> an_company r = company then (case an_stage r of
     Window_read ws we \<Rightarrow> Some (ws, we)
   | Batch_read params ids \<Rightarrow> Some (pa_windowStart params, pa_windowEnd params)
   | _ \<Rightarrow> None) else None)"

text \<open>No anchoring of the chain begins while another one has read its window and not yet appended.\<close>

fun no_overlap :: "chain \<Rightarrow> string \<Rightarrow> pool_event list \<Rightarrow> pool \<Rightarrow> bool" where
  "no_overlap c company [] p = True"
| "no_overlap c company (e # es) p \<longleftrightarrow>
     (case e of Begin_anchor k c' company' batch \<Rightarrow> c' = c \<longrightarrow> company' = company \<longrightarrow>
        list_all (\<lambda>r. open_window c company r = None) (pl_runs p) | _ \<Rightarrow> True)
     \<and> no_overlap c company es (pool_step e p)"

definition chain_entries :: "chain \<Rightarrow> string \<Rightarrow> escrow_db \<Rightarrow> escrow_entry list" where
  "chain_entries c company db = filter (in_chain (chain_action c) (Some company)) (escrow_entries db)"

text \<open>A window goes on where the chain ends.\<close>

definition goes_on :: "escrow_entry list \<Rightarrow> int \<times> int \<Rightarrow> bool" where
  "goes_on es w \<longleftrightarrow> fst w < snd w \<and> (es = [] \<or> fst w = windowEnd (last es))"

definition coherent :: "anchor_run \<Rightarrow> bool" where
  "coherent r \<longleftrightarrow> (\<forall>params ids. an_stage r = Batch_read params ids \<longrightarrow>
     pa_action params = chain_action (an_chain r) \<and> pa_companyId params = Some (an_company r))"

definition pool_inv :: "chain \<Rightarrow> string \<Rightarrow> pool \<Rightarrow> bool" where
  "pool_inv c company p \<longleftrightarrow> escrow_inv (td_escrow (pl_db p)) \<and> windows_tile (chain_entries c company (td_escrow (pl_db p)))
     \<and> list_all coherent (pl_runs p)
     \<and> (case List.map_filter (open_window c company) (pl_runs p) of [] \<Rightarrow> True
        | [w] \<Rightarrow> goes_on (chain_entries c company (td_escrow (pl_db p))) w | _ \<Rightarrow> False)"

lemma trim_chain_action [simp]: "trim (chain_action c) = chain_action c"
  by (cases c) simp_all

lemma chain_action_inject [simp]: "chain_action c = chain_action c' \<longleftrightarrow> c = c'"
  by (cases c; cases c') (simp_all add: AUDIT_EVENTS_def CONTEXT_HANDOFF_def)

lemma escrow_inv_append_batch: "append_batch k params db = (x, db') \<Longrightarrow> escrow_inv db \<Longrightarrow> escrow_inv db'"
  unfolding append_batch_def using escrow_inv_appendEntry by (metis snd_conv)

lemma chain_entries_filing:
  assumes "same_filing f" "escrow_entries db' = map f (escrow_entries db)"
  shows "windows_tile (chain_entries c company db') = windows_tile (chain_entries c company db)"
    "goes_on (chain_entries c company db') w = goes_on (chain_entries c company db) w"
proof -
  have "windowEnd (f e) = windowEnd e" for e using assms(1) by (simp add: same_filing_def)
  moreover have entries: "chain_entries c company db' = map f (chain_entries c company db)"
    by (simp add: chain_entries_def assms(2) filter_same_filing [OF assms(1)])
  ultimately show "goes_on (chain_entries c company db') w = goes_on (chain_entries c company db) w"
    by (cases "chain_entries c company db = []") (simp_all add: goes_on_def last_map)
  show "windows_tile (chain_entries c company db') = windows_tile (chain_entries c company db)"
    by (simp add: entries windows_tile_map [OF assms(1)])
qed

lemma append_batch_entries:
  assumes "append_batch k params db = (x, db')" "pa_action params = chain_action c'" "pa_companyId params = Some company'"
  shows "(\<exists>e. x = Inl e) \<and> chain_entries c company db' = chain_entries c company db \<or>
    (\<exists>row y. x = Inr y \<and> windowStart row = pa_windowStart params \<and> windowEnd row = pa_windowEnd params \<and>
      chain_entries c company db' = chain_entries c company db @ (if c' = c \<and> company' = company then [row] else []))"
proof (cases x)
  case (Inl e)
  then have "escrow_entries db' = escrow_entries db"
    using assms(1) by (auto simp: append_batch_def intro: appendEntry_Inl)
  then show ?thesis using Inl by (simp add: chain_entries_def)
next
  case (Inr y)
  then obtain row where row: "escrow_entries db' = escrow_entries db @ [row]" "entryAction row = trim (pa_action params)"
    "companyId row = pa_companyId params" "windowStart row = pa_windowStart params" "windowEnd row = pa_windowEnd params"
    using assms(1) appendEntry_Inr unfolding append_batch_def by metis
  then have "in_chain (chain_action c) (Some company) row \<longleftrightarrow> c' = c \<and> company' = company"
    using assms(2,3) by (auto simp: in_chain_def)
  then show ?thesis using row Inr by (auto simp: chain_entries_def)
qed

text \<open>What one step of an anchoring does to the chain and to the open windows.\<close>

lemma proceed_cases:
  assumes "proceed r db = (next, db')" "coherent r" "escrow_inv (td_escrow db)"
  shows "escrow_inv (td_escrow db') \<and> (\<forall>r'. next = Some r' \<longrightarrow> coherent r') \<and>
    ((\<exists>f. same_filing f \<and> escrow_entries (td_escrow db') = map f (escrow_entries (td_escrow db))) \<or>
     chain_entries c company (td_escrow db') = chain_entries c company (td_escrow db) \<or>
     (\<exists>row w. open_window c company r = Some w \<and> windowStart row = fst w \<and> windowEnd row = snd w \<and>
       (\<forall>r'. next = Some r' \<longrightarrow> open_window c company r' = None) \<and>
       chain_entries c company (td_escrow db') = chain_entries c company (td_escrow db) @ [row])) \<and>
    (\<forall>r'. next = Some r' \<longrightarrow> open_window c company r' \<in> {None, open_window c company r})"
proof (cases "an_stage r")
  case (Window_read ws we)
  then show ?thesis using assms
    by (auto simp: proceed_def read_batch_def Let_def with_stage_def coherent_def open_window_def batch_params_def
        split: option.splits chain.splits if_splits)
next
  case (Batch_read params ids)
  obtain x esc where x: "append_batch (an_env r) params (td_escrow db) = (x, esc)" by fastforce
  have params: "pa_action params = chain_action (an_chain r)" "pa_companyId params = Some (an_company r)"
    using assms(2) Batch_read by (simp_all add: coherent_def)
  show ?thesis
    using append_batch_entries [OF x params, of c company] escrow_inv_append_batch [OF x assms(3)] assms(1) Batch_read x
    by (auto simp: proceed_def with_stage_def coherent_def open_window_def split: if_splits)
next
  case (Entry_appended entry ids)
  then show ?thesis using assms
    by (auto simp: proceed_def with_stage_def coherent_def open_window_def stamp_rows_def split: chain.splits if_splits)
next
  case (Rows_stamped entry)
  moreover obtain f where "same_filing f" "escrow_entries (trySealS3 (an_env r) entry (td_escrow db)) = map f (escrow_entries (td_escrow db))"
    by (rule trySealS3_filing)
  ultimately show ?thesis using assms by (auto simp: proceed_def escrow_inv_trySealS3)
qed

lemma map_filter_append: "List.map_filter f (xs @ ys) = List.map_filter f xs @ List.map_filter f ys"
  by (simp add: List.map_filter_def)

lemma map_filter_middle:
  "List.map_filter f (xs @ r # ys) = List.map_filter f xs @ (case f r of None \<Rightarrow> [] | Some w \<Rightarrow> [w]) @ List.map_filter f ys"
  by (simp add: List.map_filter_def split: option.splits)

lemma map_filter_one: "List.map_filter f [x] = (case f x of None \<Rightarrow> [] | Some y \<Rightarrow> [y])"
  by (simp add: List.map_filter_def split: option.splits)

lemma pool_proceed:
  assumes "pool_inv c company p" "pl_runs p = xs @ r # ys" "proceed r (pl_db p) = (next, db')"
  shows "pool_inv c company \<lparr>pl_db = db', pl_runs = xs @ (case next of None \<Rightarrow> [] | Some r \<Rightarrow> [r]) @ ys\<rparr>"
proof -
  let ?es = "chain_entries c company (td_escrow (pl_db p))" and ?es' = "chain_entries c company (td_escrow db')"
  let ?open = "List.map_filter (open_window c company)"
  have inv: "escrow_inv (td_escrow (pl_db p))" "windows_tile ?es" "coherent r" "list_all coherent (xs @ ys)"
    and opened: "case ?open (xs @ r # ys) of [] \<Rightarrow> True | [w] \<Rightarrow> goes_on ?es w | _ \<Rightarrow> False"
    using assms(1,2) by (simp_all add: pool_inv_def)
  note step = proceed_cases [OF assms(3) inv(3,1), of c company]
  have parts: "?open (xs @ r # ys) = ?open xs @ (case open_window c company r of None \<Rightarrow> [] | Some w \<Rightarrow> [w]) @ ?open ys"
    by (rule map_filter_middle)
  have parts': "?open (xs @ (case next of None \<Rightarrow> [] | Some r \<Rightarrow> [r]) @ ys)
      = ?open xs @ (case next of None \<Rightarrow> [] | Some r' \<Rightarrow> (case open_window c company r' of None \<Rightarrow> [] | Some w \<Rightarrow> [w])) @ ?open ys"
    by (simp add: map_filter_append map_filter_one List.map_filter_simps split: option.splits)
  from step consider f where "same_filing f" "escrow_entries (td_escrow db') = map f (escrow_entries (td_escrow (pl_db p)))"
    | "?es' = ?es"
    | row w where "open_window c company r = Some w" "windowStart row = fst w" "windowEnd row = snd w"
      "\<forall>r'. next = Some r' \<longrightarrow> open_window c company r' = None" "?es' = ?es @ [row]" by blast
  then have "windows_tile ?es' \<and> (case ?open (xs @ (case next of None \<Rightarrow> [] | Some r \<Rightarrow> [r]) @ ys) of [] \<Rightarrow> True
      | [w] \<Rightarrow> goes_on ?es' w | _ \<Rightarrow> False)"
  proof cases
    case 1
    note same = chain_entries_filing [OF 1, of c company]
    show ?thesis using inv(2) opened step unfolding parts parts' same
      by (cases "?open xs"; cases "?open ys") (auto split: option.splits list.splits)
  next
    case 2
    show ?thesis using inv(2) opened step unfolding parts parts' 2
      by (cases "?open xs"; cases "?open ys") (auto split: option.splits list.splits)
  next
    case (3 row w)
    have only: "?open xs = []" "?open ys = []" "goes_on ?es w"
      using opened unfolding parts 3(1) by (cases "?open xs"; cases "?open ys"; auto split: list.splits)+
    have "windows_tile ?es'" using inv(2) only(3) 3(2,3) by (simp add: 3(5) windows_tile_snoc goes_on_def)
    moreover have "?open (xs @ (case next of None \<Rightarrow> [] | Some r \<Rightarrow> [r]) @ ys) = []"
      using 3(4) by (simp add: parts' only split: option.splits)
    ultimately show ?thesis by simp
  qed
  then show ?thesis using step inv(4) unfolding pool_inv_def pool.select_convs by (cases "next") simp_all
qed

lemma pool_drop:
  assumes "pool_inv c company p" "pl_runs p = xs @ r # ys"
  shows "pool_inv c company (p\<lparr>pl_runs := xs @ ys\<rparr>)"
proof -
  have "List.map_filter (open_window c company) (xs @ r # ys) = List.map_filter (open_window c company) xs
      @ (case open_window c company r of None \<Rightarrow> [] | Some w \<Rightarrow> [w]) @ List.map_filter (open_window c company) ys"
    by (rule map_filter_middle)
  then show ?thesis using assms
    by (cases "List.map_filter (open_window c company) xs"; cases "List.map_filter (open_window c company) ys")
      (auto simp: pool_inv_def map_filter_append split: option.splits list.splits)
qed

lemma pool_begin:
  assumes "pool_inv c company p" "no_overlap c company [Begin_anchor k c' company' batch] p"
  shows "pool_inv c company (pool_step (Begin_anchor k c' company' batch) p)"
proof -
  obtain ws we where w: "read_window k (chain_action c') company' (td_escrow (pl_db p)) = (ws, we)" by fastforce
  show ?thesis
  proof (cases "we \<le> ws")
    case False
    define r where "r = \<lparr>an_env = k, an_chain = c', an_company = company', an_batch = batch, an_stage = Window_read ws we\<rparr>"
    have "open_window c company r = (if c' = c \<and> company' = company then Some (ws, we) else None)"
      by (simp add: r_def open_window_def)
    moreover have "goes_on (chain_entries c company (td_escrow (pl_db p))) (ws, we)" if "c' = c" "company' = company"
      using w False that assms(1) lastWindowEnd_sorted [of "td_escrow (pl_db p)" "chain_action c" company]
      by (auto simp: read_window_def goes_on_def chain_entries_def pool_inv_def Let_def split: if_splits)
    moreover have "List.map_filter (open_window c company) (pl_runs p) = []" if "c' = c" "company' = company"
      using assms(2) that by (auto simp: List.map_filter_def filter_empty_conv list_all_iff)
    moreover have "coherent r" by (simp add: coherent_def r_def)
    ultimately have "pool_inv c company (p\<lparr>pl_runs := pl_runs p @ [r]\<rparr>)"
      using assms(1) by (auto simp: pool_inv_def map_filter_append map_filter_one split: list.splits if_splits)
    then show ?thesis using w False by (simp add: r_def)
  qed (use assms(1) w in simp)
qed

lemma pool_inv_step:
  assumes "pool_inv c company p" "no_overlap c company [e] p"
  shows "pool_inv c company (pool_step e p)"
proof (cases e)
  case (Seal_again inp)
  obtain f where f: "same_filing f" "escrow_entries (sealEntry inp (td_escrow (pl_db p))) = map f (escrow_entries (td_escrow (pl_db p)))"
    by (rule sealEntry_filing)
  then show ?thesis using assms(1) chain_entries_filing [of f "sealEntry inp (td_escrow (pl_db p))" "td_escrow (pl_db p)" c company]
    by (auto simp: Seal_again pool_inv_def escrow_inv_sealEntry split: list.splits)
next
  case (Begin_anchor k c' company' batch)
  then show ?thesis using pool_begin [OF assms(1)] assms(2) by simp
next
  case (Proceed i)
  show ?thesis
  proof (cases "i < length (pl_runs p)")
    case True
    obtain "next" db where "proceed (pl_runs p ! i) (pl_db p) = (next, db)" by fastforce
    then show ?thesis using True pool_proceed [OF assms(1) id_take_nth_drop [OF True]] by (simp add: Proceed replace_nth_def)
  qed (use assms(1) in \<open>simp add: Proceed\<close>)
next
  case (Crash i)
  show ?thesis
  proof (cases "i < length (pl_runs p)")
    case True
    then show ?thesis using pool_drop [OF assms(1) id_take_nth_drop [OF True]] by (simp add: Crash replace_nth_def)
  qed (use assms(1) in \<open>simp add: Crash replace_nth_def\<close>)
qed (use assms(1) in \<open>auto simp: pool_inv_def split: list.splits\<close>)

lemma pool_inv_run: "no_overlap c company es p \<Longrightarrow> pool_inv c company p \<Longrightarrow> pool_inv c company (fold pool_step es p)"
proof (induction es arbitrary: p)
  case (Cons e es)
  then show ?case using pool_inv_step [of c company p e] by simp
qed simp

text \<open>
  C35: Where no anchoring of a chain begins while another has read its window and not yet appended, no
  instant is signed twice in the chain or falls between two of its entries: each window ends after it starts,
  and each next window starts where the last one ended.  Everything else may come in between: the ticks of
  other chains, the stamping and sealing of earlier entries, inserts, crashes.
\<close>

theorem escrow_windows_tile:
  assumes "empty_tables db" "no_overlap c company events \<lparr>pl_db = db, pl_runs = []\<rparr>"
  shows "windows_tile (chain_entries c company (td_escrow (pl_db (pool_history events db))))"
proof -
  have "pool_inv c company \<lparr>pl_db = db, pl_runs = []\<rparr>"
    using assms(1) by (simp add: pool_inv_def empty_tables_def chain_entries_def escrow_inv_def chains_linked_def List.map_filter_simps)
  then have "pool_inv c company (pool_history events db)" unfolding pool_history_def by (rule pool_inv_run [OF assms(2)])
  then show ?thesis by (simp add: pool_inv_def)
qed

text \<open>Two anchorings that read the same window and both append sign it twice: the chain does not tile.\<close>

lemma overlapping_ticks_sign_twice:
  assumes "append_batch k1 p1 db = (Inr x1, db1)" "append_batch k2 p2 db1 = (Inr x2, db2)"
    and "pa_action p1 = chain_action c" "pa_companyId p1 = Some company" "pa_action p2 = chain_action c" "pa_companyId p2 = Some company"
    and "pa_windowStart p2 = pa_windowStart p1" "pa_windowStart p1 < pa_windowEnd p1"
  shows "\<not> windows_tile (chain_entries c company db2)"
proof -
  obtain r1 where 1: "windowEnd r1 = pa_windowEnd p1" "chain_entries c company db1 = chain_entries c company db @ [r1]"
    using append_batch_entries [OF assms(1,3,4), of c company] by auto
  obtain r2 where "windowStart r2 = pa_windowStart p2" "chain_entries c company db2 = chain_entries c company db1 @ [r2]"
    using append_batch_entries [OF assms(2,5,6), of c company] by auto
  then have "chain_entries c company db2 = (chain_entries c company db @ [r1]) @ [r2]" "windowStart r2 < windowEnd r1"
    using 1 assms(7,8) by simp_all
  then show ?thesis using windows_tile_snoc [of "chain_entries c company db @ [r1]" r2] by simp
qed

definition demo_pool :: "pool_event list" where
  "demo_pool = [Add_audit (demo_event ''a-1'' 1000000), Begin_anchor demo_tick Audit_chain ''c-1'' 1,
     Add_audit (demo_event ''a-2'' 2000000), Begin_anchor demo_tick Handoff_chain ''c-1'' 1, Proceed 0]"

lemma escrow_windows_tile_witness:
  "windows_tile (chain_entries Audit_chain ''c-1'' (td_escrow (pl_db (pool_history (demo_pool @ [Proceed 0, Proceed 0]) demo_tables))))"
proof (rule escrow_windows_tile [OF demo_empty])
  show "no_overlap Audit_chain ''c-1'' (demo_pool @ [Proceed 0, Proceed 0]) \<lparr>pl_db = demo_tables, pl_runs = []\<rparr>"
    by (simp add: demo_pool_def open_window_def)
qed

end
