(* ===== verification/Js_Number.thy ===== *)
theory Js_Number
  imports Prelude Complex_Main "HOL-Library.Log_Nat"
begin

text \<open>
  JavaScript numbers: IEEE 754 doubles with one NaN, as the language specifies them.  A finite
  number is its sign and its magnitude, an exact rational; every operation computes the exact
  result and rounds it once, to nearest, ties to even.  Also the operations of \<open>Math\<close> that the language
  defines exactly, \<open>Number(text)\<close> and \<open>String(number)\<close>.  The lemmas show that results are
  representable, that representable numbers round to themselves and that integers up to \<open>2 ^ 53\<close>
  are added, subtracted and multiplied exactly.
\<close>

section \<open>Rounding\<close>

datatype double = NaN | Infinite bool | Finite bool rat

text \<open>The sign is \<open>True\<close> for negative; zeros are signed.\<close>

definition signed :: "bool \<Rightarrow> rat \<Rightarrow> rat" where
  "signed s q = (if s then - q else q)"

text \<open>The largest \<open>e\<close> with \<open>2 ^ e \<le> q\<close>, for positive \<open>q\<close>.\<close>

definition ilog2 :: "rat \<Rightarrow> int" where
  "ilog2 q = (let (a, b) = quotient_of q; e = int (floorlog 2 (nat a)) - int (floorlog 2 (nat b))
     in if 2 powi e \<le> q then e else e - 1)"

definition round_half_even :: "rat \<Rightarrow> int" where
  "round_half_even q = (let f = \<lfloor>q\<rfloor>; d = q - of_int f
     in if d < 1 / 2 then f else if 1 / 2 < d then f + 1 else if even f then f else f + 1)"

text \<open>The exponent of the last place of a double near \<open>q\<close>: 53 bits, but never below the subnormals.\<close>

definition ulp_exponent :: "rat \<Rightarrow> int" where
  "ulp_exponent q = max (ilog2 q - 52) (-1074)"

definition overflow_bound :: rat where
  "overflow_bound = 2 ^ 1024"

definition round_double :: "bool \<Rightarrow> rat \<Rightarrow> double" where
  "round_double s q =
     (if q \<le> 0 then Finite s 0
      else (let u = 2 powi ulp_exponent q; r = of_int (round_half_even (q / u)) * u
        in if overflow_bound \<le> r then Infinite s else Finite s r))"

definition num_of_int :: "int \<Rightarrow> double" where
  "num_of_int i = round_double (i < 0) (of_int \<bar>i\<bar>)"

section \<open>Operators\<close>

fun num_neg :: "double \<Rightarrow> double" where
  "num_neg NaN = NaN"
| "num_neg (Infinite s) = Infinite (\<not> s)"
| "num_neg (Finite s q) = Finite (\<not> s) q"

fun num_add :: "double \<Rightarrow> double \<Rightarrow> double" where
  "num_add NaN _ = NaN"
| "num_add _ NaN = NaN"
| "num_add (Infinite s) (Infinite t) = (if s = t then Infinite s else NaN)"
| "num_add (Infinite s) (Finite _ _) = Infinite s"
| "num_add (Finite _ _) (Infinite t) = Infinite t"
| "num_add (Finite s p) (Finite t q) =
     (let r = signed s p + signed t q in if r = 0 then Finite (s \<and> t) 0 else round_double (r < 0) \<bar>r\<bar>)"

definition num_sub :: "double \<Rightarrow> double \<Rightarrow> double" where
  "num_sub a b = num_add a (num_neg b)"

fun num_mul :: "double \<Rightarrow> double \<Rightarrow> double" where
  "num_mul NaN _ = NaN"
| "num_mul _ NaN = NaN"
| "num_mul (Infinite s) (Infinite t) = Infinite (s \<noteq> t)"
| "num_mul (Infinite s) (Finite t q) = (if q = 0 then NaN else Infinite (s \<noteq> t))"
| "num_mul (Finite s p) (Infinite t) = (if p = 0 then NaN else Infinite (s \<noteq> t))"
| "num_mul (Finite s p) (Finite t q) = round_double (s \<noteq> t) (p * q)"

fun num_div :: "double \<Rightarrow> double \<Rightarrow> double" where
  "num_div NaN _ = NaN"
| "num_div _ NaN = NaN"
| "num_div (Infinite s) (Infinite t) = NaN"
| "num_div (Infinite s) (Finite t _) = Infinite (s \<noteq> t)"
| "num_div (Finite s _) (Infinite t) = Finite (s \<noteq> t) 0"
| "num_div (Finite s p) (Finite t q) =
     (if q = 0 then (if p = 0 then NaN else Infinite (s \<noteq> t)) else round_double (s \<noteq> t) (p / q))"

text \<open>\<open>%\<close> takes the sign of the dividend and is exact.\<close>

fun num_rem :: "double \<Rightarrow> double \<Rightarrow> double" where
  "num_rem (Finite s p) (Infinite _) = Finite s p"
| "num_rem (Finite s p) (Finite t q) = (if q = 0 then NaN else Finite s (p - q * of_int \<lfloor>p / q\<rfloor>))"
| "num_rem _ _ = NaN"

fun num_less :: "double \<Rightarrow> double \<Rightarrow> bool" where
  "num_less (Infinite s) (Infinite t) \<longleftrightarrow> s \<and> \<not> t"
| "num_less (Infinite s) (Finite _ _) \<longleftrightarrow> s"
| "num_less (Finite _ _) (Infinite t) \<longleftrightarrow> \<not> t"
| "num_less (Finite s p) (Finite t q) \<longleftrightarrow> signed s p < signed t q"
| "num_less _ _ \<longleftrightarrow> False"

text \<open>\<open>===\<close> on numbers: NaN differs from itself, the zeros are equal.\<close>

fun num_eq :: "double \<Rightarrow> double \<Rightarrow> bool" where
  "num_eq NaN _ \<longleftrightarrow> False"
| "num_eq (Finite s p) (Finite t q) \<longleftrightarrow> signed s p = signed t q"
| "num_eq a b \<longleftrightarrow> a = b"

definition num_le :: "double \<Rightarrow> double \<Rightarrow> bool" where
  "num_le a b \<longleftrightarrow> num_less a b \<or> num_eq a b"

fun is_finite :: "double \<Rightarrow> bool" where
  "is_finite (Finite _ _) \<longleftrightarrow> True"
| "is_finite _ \<longleftrightarrow> False"

text \<open>\<open>Boolean(x)\<close>\<close>

fun num_truthy :: "double \<Rightarrow> bool" where
  "num_truthy NaN \<longleftrightarrow> False"
| "num_truthy (Infinite _) \<longleftrightarrow> True"
| "num_truthy (Finite _ q) \<longleftrightarrow> q \<noteq> 0"

section \<open>The exact part of \<open>Math\<close>\<close>

definition integral :: "bool \<Rightarrow> int \<Rightarrow> double" where
  "integral s f = Finite (f < 0 \<or> f = 0 \<and> s) (of_int \<bar>f\<bar>)"

fun to_integral :: "(rat \<Rightarrow> int) \<Rightarrow> double \<Rightarrow> double" where
  "to_integral f (Finite s q) = integral s (f (signed s q))"
| "to_integral f x = x"

definition math_floor :: "double \<Rightarrow> double" where
  "math_floor = to_integral floor"

definition math_ceil :: "double \<Rightarrow> double" where
  "math_ceil = to_integral ceiling"

definition math_trunc :: "double \<Rightarrow> double" where
  "math_trunc = to_integral (\<lambda>r. if r < 0 then \<lceil>r\<rceil> else \<lfloor>r\<rfloor>)"

text \<open>\<open>Math.round\<close>: to the nearest integer, a half upwards.\<close>

definition math_round :: "double \<Rightarrow> double" where
  "math_round = to_integral (\<lambda>r. \<lfloor>r + 1 / 2\<rfloor>)"

fun math_abs :: "double \<Rightarrow> double" where
  "math_abs NaN = NaN"
| "math_abs (Infinite _) = Infinite False"
| "math_abs (Finite _ q) = Finite False q"

fun math_sign :: "double \<Rightarrow> double" where
  "math_sign NaN = NaN"
| "math_sign (Infinite s) = Finite s 1"
| "math_sign (Finite s q) = (if q = 0 then Finite s 0 else Finite s 1)"

text \<open>\<open>Math.min\<close> and \<open>Math.max\<close> order \<open>-0\<close> below \<open>0\<close>.\<close>

fun negative :: "double \<Rightarrow> bool" where
  "negative NaN \<longleftrightarrow> False"
| "negative (Infinite s) \<longleftrightarrow> s"
| "negative (Finite s _) \<longleftrightarrow> s"

definition num_before :: "double \<Rightarrow> double \<Rightarrow> bool" where
  "num_before a b \<longleftrightarrow> num_less a b \<or> num_eq a b \<and> negative a"

definition num_min :: "double \<Rightarrow> double \<Rightarrow> double" where
  "num_min a b = (if a = NaN \<or> b = NaN then NaN else if num_before a b then a else b)"

definition num_max :: "double \<Rightarrow> double \<Rightarrow> double" where
  "num_max a b = (if a = NaN \<or> b = NaN then NaN else if num_before a b then b else a)"

definition math_min :: "double list \<Rightarrow> double" where
  "math_min xs = foldl num_min (Infinite False) xs"

definition math_max :: "double list \<Rightarrow> double" where
  "math_max xs = foldl num_max (Infinite True) xs"

section \<open>\<open>Number(text)\<close>\<close>

fun exponent_part :: "string \<Rightarrow> int option" where
  "exponent_part [] = Some 0"
| "exponent_part (c # cs) =
     (if c = CHR ''e'' \<or> c = CHR ''E'' then
        (let neg = (cs \<noteq> [] \<and> hd cs = CHR ''-'');
             ds = (if cs \<noteq> [] \<and> (hd cs = CHR ''-'' \<or> hd cs = CHR ''+'') then tl cs else cs)
         in if ds \<noteq> [] \<and> list_all is_digit ds
            then Some (if neg then - int (read_nat ds) else int (read_nat ds)) else None)
      else None)"

definition unsigned_decimal :: "string \<Rightarrow> rat option" where
  "unsigned_decimal s =
     (let whole = takeWhile is_digit s; r = dropWhile is_digit s;
          dot = (r \<noteq> [] \<and> hd r = CHR ''.'');
          frac = (if dot then takeWhile is_digit (tl r) else []);
          rest = (if dot then dropWhile is_digit (tl r) else r)
      in if whole = [] \<and> frac = [] then None
         else map_option (\<lambda>e. of_nat (read_nat (whole @ frac)) * 10 powi (e - int (length frac)))
           (exponent_part rest))"

definition radix_digit :: "char \<Rightarrow> nat" where
  "radix_digit c = (let n = of_char c :: nat in
     if 48 \<le> n \<and> n \<le> 57 then n - 48 else if 97 \<le> n \<and> n \<le> 102 then n - 87
     else if 65 \<le> n \<and> n \<le> 70 then n - 55 else 16)"

definition radix_literal :: "nat \<Rightarrow> string \<Rightarrow> double" where
  "radix_literal b ds =
     (if ds \<noteq> [] \<and> list_all (\<lambda>c. radix_digit c < b) ds
      then round_double False (of_nat (fold (\<lambda>c acc. b * acc + radix_digit c) ds 0)) else NaN)"

definition decimal_literal :: "string \<Rightarrow> double" where
  "decimal_literal t =
     (let neg = (t \<noteq> [] \<and> hd t = CHR ''-'');
          u = (if t \<noteq> [] \<and> (hd t = CHR ''-'' \<or> hd t = CHR ''+'') then tl t else t)
      in if u = ''Infinity'' then Infinite neg
         else case unsigned_decimal u of None \<Rightarrow> NaN | Some q \<Rightarrow> round_double neg q)"

definition string_to_number :: "string \<Rightarrow> double" where
  "string_to_number s =
     (let t = trim s; p = to_lower (take 2 t) in
      if t = [] then Finite False 0
      else if p = ''0x'' then radix_literal 16 (drop 2 t)
      else if p = ''0o'' then radix_literal 8 (drop 2 t)
      else if p = ''0b'' then radix_literal 2 (drop 2 t)
      else decimal_literal t)"

section \<open>\<open>String(number)\<close>\<close>

text \<open>The shortest decimal digits that read back as the number, the closest of them to it.\<close>

definition ilog10 :: "rat \<Rightarrow> int" where
  "ilog10 q = (let (a, b) = quotient_of q; e = int (length (show_nat (nat a))) - int (length (show_nat (nat b)))
     in if 10 powi e \<le> q then e else e - 1)"

definition decimal_candidates :: "rat \<Rightarrow> int \<Rightarrow> nat \<Rightarrow> (nat \<times> int) list" where
  "decimal_candidates q n k =
     (let u = 10 powi (n - int k); f = \<lfloor>q / u\<rfloor>; d = q / u - of_int f;
          near = (if d < 1 / 2 \<or> d = 1 / 2 \<and> even f then [f, f + 1] else [f + 1, f])
      in map (\<lambda>m. if m = 10 ^ k then (nat m div 10, n + 1) else (nat m, n))
           (filter (\<lambda>m. round_double False (of_int m * u) = Finite False q) near))"

definition shortest_decimal :: "rat \<Rightarrow> nat \<times> int" where
  "shortest_decimal q =
     (let n = ilog10 q + 1 in
      case concat (map (decimal_candidates q n) [1..<18]) of
        [] \<Rightarrow> (nat \<lfloor>q / 10 powi (n - 17)\<rfloor>, n) | c # _ \<Rightarrow> c)"

definition decimal_text :: "nat \<Rightarrow> int \<Rightarrow> string" where
  "decimal_text m n =
     (let ds = show_nat m; k = int (length ds); e = n - 1;
          ex = (if e < 0 then ''e-'' else ''e+'') @ show_nat (nat \<bar>e\<bar>) in
      if k \<le> n \<and> n \<le> 21 then ds @ replicate (nat (n - k)) (CHR ''0'')
      else if 0 < n \<and> n \<le> 21 then take (nat n) ds @ ''.'' @ drop (nat n) ds
      else if -6 < n \<and> n \<le> 0 then ''0.'' @ replicate (nat (- n)) (CHR ''0'') @ ds
      else if k = 1 then ds @ ex
      else [hd ds] @ ''.'' @ tl ds @ ex)"

fun show_number :: "double \<Rightarrow> string" where
  "show_number NaN = ''NaN''"
| "show_number (Infinite s) = (if s then ''-Infinity'' else ''Infinity'')"
| "show_number (Finite s q) =
     (if q = 0 then ''0''
      else (if s then ''-'' else []) @ (let (m, n) = shortest_decimal q in decimal_text m n))"


section \<open>Results are doubles\<close>

lemma ilog2_bounds:
  assumes "0 < q"
  shows "2 powi ilog2 q \<le> q" "q < 2 powi (ilog2 q + 1)"
proof -
  obtain a b where ab: "quotient_of q = (a, b)" by fastforce
  then have b: "0 < b" and q: "q = of_int a / of_int b"
    using quotient_of_denom_pos quotient_of_div by blast+
  with assms have a: "0 < a" by (simp add: zero_less_divide_iff)
  define i j where "i = floorlog 2 (nat a)" and "j = floorlog 2 (nat b)"
  have "2 ^ (i - 1) \<le> nat a \<and> nat a < 2 ^ i" "2 ^ (j - 1) \<le> nat b \<and> nat b < 2 ^ j"
    unfolding i_def j_def using a b floorlog_bounds [of "nat a" 2] floorlog_bounds [of "nat b" 2] by simp_all
  then have "2 ^ (i - 1) \<le> a \<and> a < 2 ^ i" "2 ^ (j - 1) \<le> b \<and> b < 2 ^ j"
    using a b by (simp_all add: le_nat_iff nat_less_iff)
  then have real: "2 ^ (i - 1) \<le> (of_int a :: rat)" "of_int a < (2 :: rat) ^ i"
      "2 ^ (j - 1) \<le> (of_int b :: rat)" "of_int b < (2 :: rat) ^ j"
    by (metis of_int_le_iff of_int_less_iff of_int_power of_int_numeral)+
  have pos: "0 < i" "0 < j" using a b real by (auto intro!: Nat.gr0I)
  have up: "q < 2 powi (int i - int j + 1)"
  proof -
    have "q < 2 ^ i / 2 ^ (j - 1)"
      unfolding q using a b real by (intro frac_less) auto
    also have "\<dots> = 2 powi (int i - int (j - 1))" by (simp add: power_int_diff)
    finally show ?thesis using pos by (simp add: of_nat_diff algebra_simps)
  qed
  have low: "2 powi (int i - int j - 1) \<le> q"
  proof -
    have "2 powi (int (i - 1) - int j) = (2 :: rat) ^ (i - 1) / 2 ^ j" by (simp add: power_int_diff)
    also have "\<dots> \<le> q" unfolding q using a b real by (intro frac_le) auto
    finally show ?thesis using pos by (simp add: of_nat_diff algebra_simps)
  qed
  have e: "ilog2 q = (if 2 powi (int i - int j) \<le> q then int i - int j else int i - int j - 1)"
    by (simp add: ilog2_def ab i_def j_def Let_def)
  show "2 powi ilog2 q \<le> q" "q < 2 powi (ilog2 q + 1)"
    unfolding e using up low by (simp_all split: if_splits)
qed

lemma powi_less_exp: "(2 :: rat) powi m < 2 powi n \<Longrightarrow> m < n"
  using power_int_increasing [of n m "2 :: rat"] by (meson not_le one_le_numeral zero_neq_numeral)

lemma overflow_powi: "overflow_bound = 2 powi 1024"
  unfolding overflow_bound_def by (rule power_int_numeral [symmetric])

lemma round_half_even_of_int [simp]: "round_half_even (of_int n) = n"
  by (simp add: round_half_even_def)

lemma round_half_even_bounds:
  "of_int lo \<le> q \<Longrightarrow> lo \<le> round_half_even q" "q \<le> of_int hi \<Longrightarrow> round_half_even q \<le> hi"
  by (auto simp: round_half_even_def Let_def le_floor_iff floor_le_iff split: if_splits) linarith+

definition representable :: "rat \<Rightarrow> bool" where
  "representable q \<longleftrightarrow> (\<exists>m e. 0 \<le> m \<and> m < 2 ^ 53 \<and> -1074 \<le> e \<and> e \<le> 971 \<and> q = of_int m * 2 powi e)"

fun number_ok :: "double \<Rightarrow> bool" where
  "number_ok (Finite _ q) \<longleftrightarrow> representable q"
| "number_ok _ \<longleftrightarrow> True"

lemma representableI:
  "\<lbrakk>0 \<le> m; m < 2 ^ 53; -1074 \<le> e; e \<le> 971; q = of_int m * 2 powi e\<rbrakk> \<Longrightarrow> representable q"
  unfolding representable_def by blast

lemma representable_0 [simp]: "representable 0"
  by (rule representableI [of 0 0]) simp_all

lemma scaled_bound:
  assumes "0 < q"
  shows "q / 2 powi ulp_exponent q < 2 ^ 53"
    "ulp_exponent q \<noteq> -1074 \<Longrightarrow> 2 ^ 52 \<le> q / 2 powi ulp_exponent q"
proof -
  let ?E = "ulp_exponent q"
  have "ilog2 q + 1 \<le> ?E + 53" by (simp add: ulp_exponent_def)
  then have "q < 2 powi (?E + 53)"
    using ilog2_bounds(2) [OF assms] power_int_increasing [of "ilog2 q + 1" "?E + 53" "2 :: rat"] by linarith
  then show "q / 2 powi ?E < 2 ^ 53" by (simp add: power_int_add field_simps)
  assume "?E \<noteq> -1074"
  then have "ilog2 q = ?E + 52" by (auto simp: ulp_exponent_def)
  then have "2 powi (?E + 52) \<le> q" using ilog2_bounds(1) [OF assms] by simp
  then show "2 ^ 52 \<le> q / 2 powi ?E" by (simp add: power_int_add field_simps)
qed

lemma number_ok_round [simp]: "number_ok (round_double s q)"
proof (cases "q \<le> 0")
  case False
  define E where "E = ulp_exponent q"
  define n where "n = round_half_even (q / 2 powi E)"
  define r :: rat where "r = of_int n * 2 powi E"
  have q: "0 < q" using False by simp
  have E: "-1074 \<le> E" by (simp add: E_def ulp_exponent_def)
  have n: "0 \<le> n" "n \<le> 2 ^ 53"
    unfolding n_def using q scaled_bound(1) [OF q, folded E_def]
    by (auto intro!: round_half_even_bounds)
  have "representable r" if less: "r < overflow_bound"
  proof (cases "n = 2 ^ 53")
    case True
    then have r: "r = 2 powi (E + 53)" by (simp add: r_def power_int_add)
    have "2 powi (E + 53) < (2 :: rat) powi 1024" using less unfolding r overflow_powi .
    then have "E + 53 < 1024" by (rule powi_less_exp)
    moreover have "r = of_int (2 ^ 52) * 2 powi (E + 1)" unfolding r by (simp add: power_int_add)
    ultimately show ?thesis using E by (intro representableI [of "2 ^ 52" "E + 1"]) simp_all
  next
    case False
    have "E \<le> 971"
    proof (cases "E = -1074")
      case False
      then have "2 ^ 52 \<le> n"
        unfolding n_def using scaled_bound(2) [OF q, folded E_def] by (auto intro!: round_half_even_bounds)
      then have "2 ^ 52 * 2 powi E \<le> r"
        unfolding r_def by (intro mult_right_mono) (metis of_int_le_iff of_int_numeral of_int_power, simp)
      moreover have "2 powi (E + 52) = 2 ^ 52 * (2 :: rat) powi E" by (simp add: power_int_add)
      ultimately have "2 powi (E + 52) < (2 :: rat) powi 1024"
        using less unfolding overflow_powi by linarith
      then have "E + 52 < 1024" by (rule powi_less_exp)
      then show ?thesis by simp
    qed simp
    with n False E r_def show ?thesis by (intro representableI [of n E]) simp_all
  qed
  then show ?thesis using False by (simp add: round_double_def Let_def E_def n_def r_def)
qed (simp add: round_double_def)

lemma representable_less: "representable q \<Longrightarrow> q < overflow_bound"
proof -
  assume "representable q"
  then obtain m e where q: "q = of_int m * 2 powi e" and m: "0 \<le> m" "m < 2 ^ 53" and e: "e \<le> 971"
    by (auto simp: representable_def)
  have "of_int m < (of_int (2 ^ 53) :: rat)" using m(2) by (simp only: of_int_less_iff)
  then have "q < 2 ^ 53 * 2 powi e" unfolding q by (intro mult_strict_right_mono) simp_all
  also have "\<dots> \<le> 2 ^ 53 * 2 powi 971" using e by (intro mult_left_mono power_int_increasing) simp_all
  also have "\<dots> = 2 powi 1024" by (simp flip: power_add)
  finally show ?thesis unfolding overflow_powi .
qed

lemma round_representable: "representable q \<Longrightarrow> round_double s q = Finite s q"
proof (cases "q = 0")
  case False
  assume "representable q"
  then have less: "q < overflow_bound" by (rule representable_less)
  from \<open>representable q\<close> obtain m e where q: "q = of_int m * 2 powi e"
    and m: "0 \<le> m" "m < 2 ^ 53" and e: "-1074 \<le> e" unfolding representable_def by blast
  have pos: "0 < q" using False m(1) q by (simp add: zero_less_mult_iff)
  define E where "E = ulp_exponent q"
  have "of_int m < (of_int (2 ^ 53) :: rat)" using m(2) by (simp only: of_int_less_iff)
  then have "q < 2 ^ 53 * 2 powi e" unfolding q by (intro mult_strict_right_mono) simp_all
  then have "2 powi ilog2 q < (2 :: rat) powi (e + 53)"
    using ilog2_bounds(1) [OF pos] by (simp add: power_int_add)
  then have "ilog2 q < e + 53" by (rule powi_less_exp)
  then have "E \<le> e" using e by (simp add: E_def ulp_exponent_def)
  then have n: "q / 2 powi E = of_int (m * 2 ^ nat (e - E))"
    unfolding q by (simp add: power_int_nonneg_exp [symmetric] power_int_diff)
  then have "of_int (round_half_even (q / 2 powi E)) * 2 powi E = q"
    unfolding n round_half_even_of_int by (simp only: n [symmetric]) simp
  then show ?thesis using pos less by (simp add: round_double_def E_def [symmetric])
qed (simp add: round_double_def)

section \<open>Every operation returns a double\<close>

lemma representable_of_int: "0 \<le> k \<Longrightarrow> k \<le> 2 ^ 53 \<Longrightarrow> representable (of_int k)"
proof (cases "k = 2 ^ 53")
  case True
  then show ?thesis by (intro representableI [of 1 53]) simp_all
next
  case False
  assume "0 \<le> k" "k \<le> 2 ^ 53"
  with False show ?thesis by (intro representableI [of k 0]) simp_all
qed

lemma number_ok_unary [simp]:
  "number_ok a \<Longrightarrow> number_ok (num_neg a)"
  "number_ok a \<Longrightarrow> number_ok (math_abs a)"
  "number_ok (math_sign a)"
proof -
  have "representable 1" using representable_of_int [of 1] by simp
  then show "number_ok (math_sign a)" by (cases a) auto
qed (cases a; simp)+

lemma number_ok_binary [simp]:
  "number_ok (num_add a b)" "number_ok (num_sub a b)" "number_ok (num_mul a b)" "number_ok (num_div a b)"
proof -
  show add: "number_ok (num_add x y)" for x y by (cases "(x, y)" rule: num_add.cases) (auto simp: Let_def)
  show "number_ok (num_sub a b)" unfolding num_sub_def by (rule add)
  show "number_ok (num_mul a b)" by (cases "(a, b)" rule: num_mul.cases) simp_all
  show "number_ok (num_div a b)" by (cases "(a, b)" rule: num_div.cases) simp_all
qed

lemma representable_nonneg: "representable q \<Longrightarrow> 0 \<le> q"
  by (auto simp: representable_def)

lemma number_ok_to_integral:
  assumes whole: "\<And>n. F (of_int n) = n" and near: "\<And>r. \<bar>of_int (F r) - r\<bar> < 1" and x: "number_ok x"
  shows "number_ok (to_integral F x)"
proof (cases x)
  case (Finite s q)
  let ?f = "F (signed s q)"
  from x Finite obtain m e where q: "q = of_int m * 2 powi e" and m: "0 \<le> m" "m < 2 ^ 53"
    by (auto simp: representable_def)
  have abs: "\<bar>signed s q\<bar> = q" using x Finite representable_nonneg by (simp add: signed_def)
  have "representable (of_int \<bar>?f\<bar>)"
  proof (cases "0 \<le> e")
    case True
    then have "signed s q = of_int ((if s then -1 else 1) * (m * 2 ^ nat e))"
      by (simp add: q signed_def power_int_nonneg_exp)
    then have "of_int ?f = signed s q" using whole by metis
    then have "of_int \<bar>?f\<bar> = q" using abs by simp
    then show ?thesis using x Finite by simp
  next
    case False
    then have "(2 :: rat) powi e \<le> 2 powi (-1)" by (intro power_int_increasing) simp_all
    then have "of_int m * (2 :: rat) powi e \<le> of_int m * 2 powi (-1)"
      using m(1) by (intro mult_left_mono) simp_all
    then have "q \<le> of_int m / 2" unfolding q by simp
    then have "of_int \<bar>?f\<bar> < (of_int m / 2 + 1 :: rat)" using near [of "signed s q"] abs by simp
    then have "of_int (2 * \<bar>?f\<bar>) < (of_int (m + 2) :: rat)" by simp
    then have "2 * \<bar>?f\<bar> < m + 2" by (simp only: of_int_less_iff)
    then show ?thesis using m(2) by (intro representable_of_int) simp_all
  qed
  then show ?thesis by (simp add: Finite integral_def)
qed simp_all

lemma number_ok_math [simp]:
  assumes "number_ok x"
  shows "number_ok (math_floor x)" "number_ok (math_ceil x)" "number_ok (math_trunc x)" "number_ok (math_round x)"
proof -
  show "number_ok (math_floor x)" "number_ok (math_ceil x)" "number_ok (math_trunc x)"
    unfolding math_floor_def math_ceil_def math_trunc_def
    by (rule number_ok_to_integral; use assms in simp; linarith)+
  have "\<lfloor>of_int n + 1 / 2 :: rat\<rfloor> = n" "\<bar>of_int \<lfloor>r + 1 / 2\<rfloor> - r\<bar> < 1" for n and r :: rat
    by linarith+
  then show "number_ok (math_round x)"
    unfolding math_round_def using assms by (rule number_ok_to_integral)
qed

lemma number_ok_rem [simp]: "number_ok a \<Longrightarrow> number_ok b \<Longrightarrow> number_ok (num_rem a b)"
proof (cases "(a, b)" rule: num_rem.cases)
  case (2 s p t q)
  assume "number_ok a" "number_ok b"
  with 2 have "representable p" "representable q" by simp_all
  from this(1) obtain m e where p: "p = of_int m * 2 powi e"
    and m: "0 \<le> m" "m < 2 ^ 53" "-1074 \<le> e" "e \<le> 971" unfolding representable_def by blast
  from \<open>representable q\<close> obtain n f where q: "q = of_int n * 2 powi f"
    and n: "0 \<le> n" "n < 2 ^ 53" "-1074 \<le> f" "f \<le> 971" unfolding representable_def by blast
  have "representable (p - q * of_int \<lfloor>p / q\<rfloor>)" if "q \<noteq> 0"
  proof -
    define k g where "k = \<lfloor>p / q\<rfloor>" and "g = min e f"
    have pq: "0 \<le> p" "0 < q" using p q m n that by (simp_all add: zero_less_mult_iff)
    have "0 \<le> p / q" using pq by simp
    then have "0 \<le> k" by (simp add: k_def)
    have r: "0 \<le> p - q * of_int k" "p - q * of_int k < q"
      using pq floor_divide_lower [of q p] floor_divide_upper [of q p] by (simp_all add: k_def algebra_simps)
    have le: "p - q * of_int k \<le> p" using pq(2) \<open>0 \<le> k\<close> by simp
    have ef: "(2 :: rat) powi e = of_int (2 ^ nat (e - g)) * 2 powi g"
      "(2 :: rat) powi f = of_int (2 ^ nat (f - g)) * 2 powi g"
      by (simp_all add: g_def power_int_nonneg_exp [symmetric] power_int_add [symmetric])
    define d where "d = m * 2 ^ nat (e - g) - n * 2 ^ nat (f - g) * k"
    have d: "p - q * of_int k = of_int d * 2 powi g"
      unfolding p q ef d_def by (simp add: algebra_simps)
    have "(0 :: rat) < 2 powi g" by simp
    moreover have "0 \<le> of_int d * (2 :: rat) powi g" using r(1) unfolding d .
    ultimately have "0 \<le> (of_int d :: rat)" unfolding zero_le_mult_iff by linarith
    then have "0 \<le> d" by simp
    moreover have "d < 2 ^ 53"
    proof (cases "e \<le> f")
      case True
      then have "of_int d * 2 powi g \<le> (of_int m :: rat) * 2 powi g" using le unfolding d by (simp add: p g_def)
      then have "d \<le> m" by simp
      then show ?thesis using m(2) by simp
    next
      case False
      then have "of_int d * 2 powi g < (of_int n :: rat) * 2 powi g" using r(2) unfolding d by (simp add: q g_def)
      then have "d < n" by simp
      then show ?thesis using n(2) by simp
    qed
    ultimately show ?thesis
      using m n d by (intro representableI [of d g]) (simp_all add: g_def k_def)
  qed
  with 2 show ?thesis by simp
qed simp_all

lemma number_ok_min_max [simp]:
  "number_ok a \<Longrightarrow> number_ok b \<Longrightarrow> number_ok (num_min a b)"
  "number_ok a \<Longrightarrow> number_ok b \<Longrightarrow> number_ok (num_max a b)"
  by (simp_all add: num_min_def num_max_def)

lemma number_ok_foldl:
  "number_ok a \<Longrightarrow> (\<And>x y. number_ok x \<Longrightarrow> number_ok y \<Longrightarrow> number_ok (f x y)) \<Longrightarrow> list_all number_ok xs
   \<Longrightarrow> number_ok (foldl f a xs)"
  by (induction xs arbitrary: a) simp_all

lemma number_ok_variadic [simp]:
  "list_all number_ok xs \<Longrightarrow> number_ok (math_min xs)" "list_all number_ok xs \<Longrightarrow> number_ok (math_max xs)"
  by (simp_all add: math_min_def math_max_def number_ok_foldl)

lemma number_ok_string [simp]: "number_ok (string_to_number s)"
  by (simp add: string_to_number_def radix_literal_def decimal_literal_def Let_def split: option.splits)

section \<open>Integers are exact\<close>

lemma num_of_int_exact: "\<bar>i\<bar> \<le> 2 ^ 53 \<Longrightarrow> num_of_int i = Finite (i < 0) (of_int \<bar>i\<bar>)"
  unfolding num_of_int_def by (intro round_representable representable_of_int) simp_all

lemma signed_of_int [simp]: "signed (i < 0) \<bar>of_int i\<bar> = of_int i"
  by (simp add: signed_def)

lemma num_add_int:
  assumes "\<bar>i\<bar> \<le> 2 ^ 53" "\<bar>j\<bar> \<le> 2 ^ 53" "\<bar>i + j\<bar> \<le> 2 ^ 53"
  shows "num_add (num_of_int i) (num_of_int j) = num_of_int (i + j)"
proof -
  have "round_double (i + j < 0) \<bar>of_int (i + j)\<bar> = num_of_int (i + j)" by (simp add: num_of_int_def)
  then show ?thesis using num_of_int_exact [OF assms(1)] num_of_int_exact [OF assms(2)]
    num_of_int_exact [OF assms(3)]
    by (auto simp: Let_def simp flip: of_int_add)
qed

lemma num_mul_int:
  assumes "0 \<le> i" "0 \<le> j" "i * j \<le> 2 ^ 53" "i \<le> 2 ^ 53" "j \<le> 2 ^ 53"
  shows "num_mul (num_of_int i) (num_of_int j) = num_of_int (i * j)"
  using assms num_of_int_exact [of i] num_of_int_exact [of j]
  by (simp add: num_of_int_def [of "i * j"] mult_less_0_iff abs_mult not_less)

lemma num_less_int:
  "\<bar>i\<bar> \<le> 2 ^ 53 \<Longrightarrow> \<bar>j\<bar> \<le> 2 ^ 53 \<Longrightarrow> num_less (num_of_int i) (num_of_int j) \<longleftrightarrow> i < j"
  by (simp add: num_of_int_exact)

end
