(* ===== verification/Formula_Tokens.thy ===== *)
theory Formula_Tokens
  imports Js_Number
begin

text \<open>
  The tokenizer of \<open>packages/formula-evaluator/src/safe-parser.ts\<close>.  A source text is a list of
  characters and every token carries its position.  The lemmas show that a text of lexemes
  separated by blanks is read back as those lexemes.
\<close>

section \<open>Characters\<close>

datatype token =
    TNumber double nat
  | TString string nat
  | TIdent string nat
  | TPunct string nat
  | TEof nat

definition TWO_CHAR_PUNCT :: "string list" where
  "TWO_CHAR_PUNCT = [''=='', ''!='', ''>='', ''<='']"

definition ONE_CHAR_PUNCT :: string where
  "ONE_CHAR_PUNCT = ''+-*/%^(),><?:''"

definition between :: "char \<Rightarrow> char \<Rightarrow> char \<Rightarrow> bool" where
  "between a b c \<longleftrightarrow> (of_char a :: nat) \<le> of_char c \<and> (of_char c :: nat) \<le> of_char b"

definition isIdentStart :: "char \<Rightarrow> bool" where
  "isIdentStart c \<longleftrightarrow> between (CHR ''A'') (CHR ''Z'') c \<or> between (CHR ''a'') (CHR ''z'') c
     \<or> c = CHR ''_'' \<or> c = CHR ''$''"

definition isIdentPart :: "char \<Rightarrow> bool" where
  "isIdentPart c \<longleftrightarrow> isIdentStart c \<or> is_digit c"

definition is_blank :: "char \<Rightarrow> bool" where
  "is_blank c \<longleftrightarrow> of_char c \<in> {32, 9, 10, 13 :: nat}"

text \<open>Double quote and backslash.\<close>

definition DQ :: char where
  "DQ = CHR 0x22"

definition BS :: char where
  "BS = CHR 0x5C"

definition ESCAPES :: "(char \<times> char) list" where
  "ESCAPES = [(CHR 0x27, CHR 0x27), (DQ, DQ), (BS, BS), (CHR ''n'', CHR 0x0A), (CHR ''r'', CHR 0x0D),
     (CHR ''t'', CHR 0x09), (CHR ''b'', CHR 0x08), (CHR ''f'', CHR 0x0C), (CHR ''v'', CHR 0x0B)]"

section \<open>Scanning one token\<close>

text \<open>Digits, an optional fraction, an optional exponent if digits follow it.\<close>

definition fraction_text :: "string \<Rightarrow> string" where
  "fraction_text s = (if s \<noteq> [] \<and> hd s = CHR ''.'' then hd s # takeWhile is_digit (tl s) else [])"

definition exponent_text :: "string \<Rightarrow> string" where
  "exponent_text s =
     (if s \<noteq> [] \<and> (hd s = CHR ''e'' \<or> hd s = CHR ''E'') then
        (let j = tl s; sgn = (if j \<noteq> [] \<and> (hd j = CHR ''+'' \<or> hd j = CHR ''-'') then [hd j] else []);
             ds = takeWhile is_digit (drop (length sgn) j)
         in if ds = [] then [] else hd s # sgn @ ds)
      else [])"

definition number_text :: "string \<Rightarrow> string" where
  "number_text s =
     (let whole = takeWhile is_digit s; frac = fraction_text (drop (length whole) s)
      in whole @ frac @ exponent_text (drop (length whole + length frac) s))"

fun scan_string :: "char \<Rightarrow> nat \<Rightarrow> nat \<Rightarrow> string \<Rightarrow> string \<Rightarrow> (string \<times> nat \<times> string) result" where
  "scan_string quote start i out [] =
     Inl (Error (''unterminated string starting at position '' @ show_nat start))"
| "scan_string quote start i out (ch # cs) =
     (if ch = BS then
        (case cs of
           [] \<Rightarrow> Inl (Error (''invalid escape sequence at position '' @ show_nat i))
         | esc # cs' \<Rightarrow>
           (case map_of ESCAPES esc of
              None \<Rightarrow> Inl (Error (''invalid escape sequence at position '' @ show_nat i))
            | Some c \<Rightarrow> scan_string quote start (i + 2) (out @ [c]) cs'))
      else if ch = quote then Inr (out, i + 1, cs)
      else scan_string quote start (i + 1) (out @ [ch]) cs)"

lemma scan_string_shorter: "scan_string q start i out cs = Inr (s, j, cs') \<Longrightarrow> length cs' < length cs"
proof (induction q start i out cs rule: scan_string.induct)
  case (2 q start i out ch cs)
  then show ?case by (auto split: if_splits list.splits option.splits intro: less_SucI)
qed simp

section \<open>The loop\<close>

definition starts_number :: "string \<Rightarrow> bool" where
  "starts_number s \<longleftrightarrow>
     is_digit (hd s) \<or> hd s = CHR ''.'' \<and> tl s \<noteq> [] \<and> is_digit (hd (tl s))"

lemma number_text_nonempty: "starts_number (c # cs) \<Longrightarrow> number_text (c # cs) \<noteq> []"
  by (auto simp: starts_number_def number_text_def fraction_text_def Let_def)

function tokenize_from :: "nat \<Rightarrow> string \<Rightarrow> token list result" where
  "tokenize_from i [] = Inr [TEof i]"
| "tokenize_from i (c # cs) =
     (if is_blank c then tokenize_from (i + 1) cs
      else if starts_number (c # cs) then
        (let text = number_text (c # cs); v = string_to_number text in
         if \<not> is_finite v \<and> CHR ''e'' \<notin> set text \<and> CHR ''E'' \<notin> set text
         then Inl (Error (''invalid number '' @ [DQ] @ text @ [DQ] @ '' at position '' @ show_nat i))
         else map_result ((#) (TNumber v i)) (tokenize_from (i + length text) (drop (length text) (c # cs))))
      else if c = CHR 0x27 \<or> c = DQ then
        (case scan_string c i (i + 1) [] cs of Inl e \<Rightarrow> Inl e
         | Inr (out, j, rest) \<Rightarrow> map_result ((#) (TString out i)) (tokenize_from j rest))
      else if isIdentStart c then
        (let name = takeWhile isIdentPart (c # cs) in
         map_result ((#) (TIdent name i)) (tokenize_from (i + length name) (drop (length name) (c # cs))))
      else if take 2 (c # cs) \<in> set TWO_CHAR_PUNCT then
        map_result ((#) (TPunct (take 2 (c # cs)) i)) (tokenize_from (i + 2) (drop 2 (c # cs)))
      else if c \<in> set ONE_CHAR_PUNCT then map_result ((#) (TPunct [c] i)) (tokenize_from (i + 1) cs)
      else Inl (Error (''unexpected character '' @ [DQ, c, DQ] @ '' at position '' @ show_nat i)))"
  by pat_completeness auto
termination
proof (relation "measure (\<lambda>(i, s). length s)")
  fix i :: nat and c cs t
  assume "starts_number (c # cs)" "t = number_text (c # cs)"
  then have "0 < length t" using number_text_nonempty by simp
  then show "((i + length t, drop (length t) (c # cs)), i, c # cs) \<in> measure (\<lambda>(i, s). length s)"
    by simp
next
  fix i :: nat and c cs name
  assume "isIdentStart c" "name = takeWhile isIdentPart (c # cs)"
  then have "0 < length name" by (simp add: isIdentPart_def)
  then show "((i + length name, drop (length name) (c # cs)), i, c # cs) \<in> measure (\<lambda>(i, s). length s)"
    by simp
qed (auto dest: scan_string_shorter)

definition tokenize :: "string \<Rightarrow> token list result" where
  "tokenize source = tokenize_from 0 source"

declare tokenize_from.simps(2) [simp del]

section \<open>Lexemes\<close>

text \<open>
  A token without its position, and a spelling of it: a string is written between double quotes, \<open>num\<close>
  gives the spelling of numbers.
\<close>

datatype lexeme = LNumber double | LString string | LIdent string | LPunct string | LEof

fun lexeme_of :: "token \<Rightarrow> lexeme" where
  "lexeme_of (TNumber v _) = LNumber v"
| "lexeme_of (TString s _) = LString s"
| "lexeme_of (TIdent x _) = LIdent x"
| "lexeme_of (TPunct p _) = LPunct p"
| "lexeme_of (TEof _) = LEof"

definition escape_text :: "string \<Rightarrow> string" where
  "escape_text s = concat (map (\<lambda>c. if c = DQ \<or> c = BS then [BS, c] else [c]) s)"

fun lexeme_text :: "(double \<Rightarrow> string) \<Rightarrow> lexeme \<Rightarrow> string" where
  "lexeme_text num (LNumber v) = num v"
| "lexeme_text num (LString s) = DQ # escape_text s @ [DQ]"
| "lexeme_text num (LIdent x) = x"
| "lexeme_text num (LPunct p) = p"
| "lexeme_text num LEof = []"

definition lexemes_text :: "(double \<Rightarrow> string) \<Rightarrow> lexeme list \<Rightarrow> string" where
  "lexemes_text num ls = concat (map (\<lambda>l. lexeme_text num l @ '' '') ls)"

definition ident_word :: "string \<Rightarrow> bool" where
  "ident_word x \<longleftrightarrow> x \<noteq> [] \<and> isIdentStart (hd x) \<and> list_all isIdentPart x"

definition number_literal :: "string \<Rightarrow> double \<Rightarrow> bool" where
  "number_literal t v \<longleftrightarrow> t \<noteq> [] \<and> starts_number t \<and> number_text t = t \<and> string_to_number t = v
     \<and> (is_finite v \<or> CHR ''e'' \<in> set t \<or> CHR ''E'' \<in> set t)"

definition punctuation :: "string list" where
  "punctuation = TWO_CHAR_PUNCT @ map (\<lambda>c. [c]) ONE_CHAR_PUNCT"

fun lexeme_ok :: "(double \<Rightarrow> string) \<Rightarrow> lexeme \<Rightarrow> bool" where
  "lexeme_ok num (LNumber v) \<longleftrightarrow> number_literal (num v) v"
| "lexeme_ok num (LIdent x) \<longleftrightarrow> ident_word x"
| "lexeme_ok num (LPunct p) \<longleftrightarrow> p \<in> set punctuation"
| "lexeme_ok num (LString s) \<longleftrightarrow> True"
| "lexeme_ok num LEof \<longleftrightarrow> False"

lemma digit_not_blank: "\<not> is_digit (CHR '' '')"
  by (simp add: is_digit_def)

lemma fraction_text_blank: "fraction_text (s @ CHR '' '' # r) = fraction_text s"
  by (cases s) (simp_all add: fraction_text_def takeWhile_tail digit_not_blank)

lemma exponent_text_blank: "exponent_text (s @ CHR '' '' # r) = exponent_text s"
proof (cases s)
  case (Cons c cs)
  then show ?thesis
    by (cases cs) (simp_all add: exponent_text_def takeWhile_tail digit_not_blank Let_def)
qed (simp add: exponent_text_def)

lemma length_fraction_text: "length (fraction_text s) \<le> length s"
  by (cases s) (simp_all add: fraction_text_def length_takeWhile_le)

lemma number_text_blank: "number_text (s @ CHR '' '' # r) = number_text s"
proof -
  let ?w = "takeWhile is_digit s"
  let ?f = "fraction_text (drop (length ?w) s)"
  have w: "takeWhile is_digit (s @ CHR '' '' # r) = ?w" by (simp add: takeWhile_tail digit_not_blank)
  have le: "length ?w \<le> length s" by (rule length_takeWhile_le)
  then have f: "fraction_text (drop (length ?w) (s @ CHR '' '' # r)) = ?f"
    using fraction_text_blank by simp
  have "length ?w + length ?f \<le> length s"
    using le length_fraction_text [of "drop (length ?w) s"] by simp
  then have "drop (length ?w + length ?f) (s @ CHR '' '' # r) = drop (length ?w + length ?f) s @ CHR '' '' # r"
    by simp
  then show ?thesis unfolding number_text_def Let_def w f by (simp only: exponent_text_blank)
qed

lemma scan_string_escape:
  "scan_string DQ start i out (escape_text s @ DQ # r) = Inr (out @ s, i + length (escape_text s) + 1, r)"
proof (induction s arbitrary: i out)
  case Nil
  then show ?case by (simp add: escape_text_def DQ_def BS_def)
next
  case (Cons c s)
  have esc: "map_of ESCAPES DQ = Some DQ" "map_of ESCAPES BS = Some BS" "DQ \<noteq> BS"
    by (simp_all add: ESCAPES_def DQ_def BS_def)
  have "escape_text (c # s) = (if c = DQ \<or> c = BS then [BS, c] else [c]) @ escape_text s"
    by (simp add: escape_text_def)
  then show ?case using Cons.IH esc by auto
qed

lemma blank_step: "tokenize_from i (CHR '' '' # r) = tokenize_from (i + 1) r"
  by (simp add: tokenize_from.simps(2) is_blank_def)

lemma number_step:
  assumes "number_literal t v"
  shows "tokenize_from i (t @ CHR '' '' # r) = map_result ((#) (TNumber v i)) (tokenize_from (i + length t + 1) r)"
proof -
  obtain c cs where t: "t = c # cs" using assms by (cases t) (auto simp: number_literal_def)
  have "starts_number (t @ CHR '' '' # r)"
    using assms by (cases cs) (auto simp: number_literal_def starts_number_def t)
  moreover have "\<not> is_blank c"
    using assms by (auto simp: number_literal_def starts_number_def t is_blank_def is_digit_def)
  moreover have "number_text (t @ CHR '' '' # r) = t"
    using assms by (simp add: number_text_blank number_literal_def)
  ultimately show ?thesis
    using assms unfolding t append_Cons
    by (subst tokenize_from.simps(2)) (auto simp: Let_def number_literal_def blank_step)
qed

lemma ident_step:
  assumes "ident_word x"
  shows "tokenize_from i (x @ CHR '' '' # r) = map_result ((#) (TIdent x i)) (tokenize_from (i + length x + 1) r)"
proof -
  obtain c cs where x: "x = c # cs" using assms by (cases x) (auto simp: ident_word_def)
  have c: "isIdentStart c" using assms by (simp add: ident_word_def x)
  then have "\<not> is_blank c" "\<not> is_digit c" "c \<noteq> CHR ''.''" "c \<noteq> CHR 0x27" "c \<noteq> DQ"
    by (auto simp: isIdentStart_def between_def is_blank_def is_digit_def DQ_def)
  moreover have "\<not> isIdentPart (CHR '' '')"
    by (simp add: isIdentPart_def isIdentStart_def between_def is_digit_def)
  then have "takeWhile isIdentPart (x @ CHR '' '' # r) = x"
    using assms by (simp add: ident_word_def takeWhile_append list_all_iff)
  ultimately show ?thesis
    using c unfolding x append_Cons
    by (subst tokenize_from.simps(2)) (simp add: Let_def starts_number_def blank_step)
qed

lemma string_step:
  "tokenize_from i (DQ # escape_text s @ DQ # CHR '' '' # r)
     = map_result ((#) (TString s i)) (tokenize_from (i + length (escape_text s) + 3) r)"
proof -
  have "\<not> is_blank DQ" "\<not> is_digit DQ" "DQ \<noteq> CHR ''.''"
    by (simp_all add: is_blank_def is_digit_def DQ_def)
  then show ?thesis
    using scan_string_escape [of i "i + 1" "[]" s "CHR '' '' # r"]
    by (subst tokenize_from.simps(2)) (simp add: starts_number_def blank_step eval_nat_numeral)
qed

definition punct_start :: string where
  "punct_start = ''=!'' @ ONE_CHAR_PUNCT"

definition plain_punct :: "char \<Rightarrow> bool" where
  "plain_punct c \<longleftrightarrow> \<not> is_blank c \<and> \<not> is_digit c \<and> c \<noteq> CHR ''.'' \<and> c \<noteq> CHR 0x27 \<and> c \<noteq> DQ \<and> \<not> isIdentStart c"

lemma punct_start_plain: "list_all plain_punct punct_start"
  by (simp add: punct_start_def ONE_CHAR_PUNCT_def plain_punct_def is_blank_def is_digit_def DQ_def
      isIdentStart_def between_def)

lemma punct_chars: "c \<in> set punct_start \<Longrightarrow> plain_punct c"
  using punct_start_plain unfolding list_all_iff by blast

lemma two_chars: "list_all (\<lambda>p. length p = 2 \<and> hd p \<in> set punct_start) TWO_CHAR_PUNCT"
  by (simp add: TWO_CHAR_PUNCT_def punct_start_def ONE_CHAR_PUNCT_def)

lemma punct_step:
  assumes "p \<in> set punctuation"
  shows "tokenize_from i (p @ CHR '' '' # r) = map_result ((#) (TPunct p i)) (tokenize_from (i + length p + 1) r)"
proof (cases "p \<in> set TWO_CHAR_PUNCT")
  case True
  with two_chars have "length p = 2" "hd p \<in> set punct_start" unfolding list_all_iff by blast+
  then obtain a b where p: "p = [a, b]" and a: "plain_punct a"
    by (auto simp: numeral_2_eq_2 length_Suc_conv dest: punct_chars)
  show ?thesis using True a unfolding p append_Cons plain_punct_def
    by (subst tokenize_from.simps(2)) (simp add: starts_number_def blank_step)
next
  case False
  then obtain c where p: "p = [c]" and c: "c \<in> set ONE_CHAR_PUNCT"
    using assms unfolding punctuation_def set_append set_map by blast
  then have "plain_punct c" using punct_chars by (simp add: punct_start_def)
  moreover have "[c, CHR '' ''] \<notin> set TWO_CHAR_PUNCT" by (simp add: TWO_CHAR_PUNCT_def)
  ultimately show ?thesis using c unfolding p append_Cons plain_punct_def
    by (subst tokenize_from.simps(2)) (simp add: starts_number_def blank_step)
qed

lemma lexeme_step:
  assumes "lexeme_ok num l"
  obtains t j where "lexeme_of t = l"
    "tokenize_from i (lexeme_text num l @ CHR '' '' # r) = map_result ((#) t) (tokenize_from j r)"
proof (cases l)
  case (LNumber v)
  with assms number_step [of "num v" v] show ?thesis by (intro that [of "TNumber v i"]) simp_all
next
  case (LString s)
  with string_step [of i s r] show ?thesis by (intro that [of "TString s i"]) simp_all
next
  case (LIdent x)
  with assms ident_step [of x] show ?thesis by (intro that [of "TIdent x i"]) simp_all
next
  case (LPunct p)
  with assms punct_step [of p] show ?thesis by (intro that [of "TPunct p i"]) simp_all
qed (use assms in simp)

lemma tokenize_lexemes:
  assumes "list_all (lexeme_ok num) ls"
  obtains ts where "tokenize_from i (lexemes_text num ls) = Inr ts" "map lexeme_of ts = ls @ [LEof]"
  using assms
proof (induction ls arbitrary: i thesis)
  case Nil
  then show ?case by (simp add: lexemes_text_def)
next
  case (Cons l ls)
  then obtain t j where "lexeme_of t = l"
    "tokenize_from i (lexeme_text num l @ CHR '' '' # lexemes_text num ls)
       = map_result ((#) t) (tokenize_from j (lexemes_text num ls))"
    using lexeme_step by (metis list.pred_inject(2))
  moreover from Cons obtain ts where "tokenize_from j (lexemes_text num ls) = Inr ts"
    "map lexeme_of ts = ls @ [LEof]" by (metis list.pred_inject(2))
  ultimately show ?case using Cons.prems(1) [of "t # ts"] by (simp add: lexemes_text_def)
qed

end
