(* ===== verification/Formula_Parser.thy ===== *)
theory Formula_Parser
  imports Formula_Tokens
begin

text \<open>
  The recursive-descent parser of \<open>packages/formula-evaluator/src/safe-parser.ts\<close>.  Each method of
  \<open>FormulaParser\<close> is one goal of \<open>parse\<close>, and so is each of its loops; \<open>this.tokens\<close> from \<open>this.index\<close> on
  is the list of tokens that is passed along.  The lemmas show that the fuel of \<open>parse\<close> is
  never used up, and that an expression printed with as few parentheses as the precedences allow
  is parsed back.
\<close>

section \<open>Abstract syntax\<close>

datatype formula_value = VNum double | VStr string | VBool bool

datatype unary_op = Minus_sign | Plus_sign | Not_op

datatype binary_op =
    Op_add | Op_sub | Op_mul | Op_div | Op_rem | Op_pow
  | Op_eq | Op_ne | Op_gt | Op_lt | Op_ge | Op_le | Op_and | Op_or

datatype ast =
    Literal formula_value
  | Variable string
  | Unary unary_op ast
  | Binary binary_op ast ast
  | Ternary ast ast ast
  | Call string "ast list"

fun binary_op_name :: "binary_op \<Rightarrow> string" where
  "binary_op_name Op_add = ''+''" | "binary_op_name Op_sub = ''-''" | "binary_op_name Op_mul = ''*''"
| "binary_op_name Op_div = ''/''" | "binary_op_name Op_rem = ''%''" | "binary_op_name Op_pow = ''^''"
| "binary_op_name Op_eq = ''==''" | "binary_op_name Op_ne = ''!=''" | "binary_op_name Op_gt = ''>''"
| "binary_op_name Op_lt = ''<''" | "binary_op_name Op_ge = ''>=''" | "binary_op_name Op_le = ''<=''"
| "binary_op_name Op_and = ''and''" | "binary_op_name Op_or = ''or''"

definition COMPARISON_OPS :: "(string \<times> binary_op) list" where
  "COMPARISON_OPS = map (\<lambda>b. (binary_op_name b, b)) [Op_eq, Op_ne, Op_gt, Op_lt, Op_ge, Op_le]"

definition MULTIPLICATIVE_OPS :: "(string \<times> binary_op) list" where
  "MULTIPLICATIVE_OPS = map (\<lambda>b. (binary_op_name b, b)) [Op_mul, Op_div, Op_rem]"

text \<open>\<open>minArgs\<close> and \<open>maxArgs\<close> of \<open>FUNCTIONS\<close>; \<open>None\<close> is \<open>Infinity\<close>.\<close>

definition unary_functions :: "string list" where
  "unary_functions = [''abs'', ''ceil'', ''floor'', ''round'', ''trunc'', ''sign'', ''sqrt'', ''cbrt'', ''exp'',
     ''expm1'', ''log'', ''ln'', ''lg'', ''log10'', ''log2'', ''log1p'', ''sin'', ''cos'', ''tan'', ''asin'', ''acos'',
     ''atan'', ''sinh'', ''cosh'', ''tanh'', ''asinh'', ''acosh'', ''atanh'']"

definition FUNCTIONS :: "(string \<times> nat \<times> nat option) list" where
  "FUNCTIONS = map (\<lambda>f. (f, 1, Some 1)) unary_functions @
     [(''min'', 0, None), (''max'', 0, None), (''hypot'', 0, None), (''pow'', 2, Some 2), (''atan2'', 2, Some 2),
      (''roundTo'', 1, Some 2), (''if'', 3, Some 3), (''length'', 1, Some 1)]"

text \<open>\<open>Math.PI\<close> and \<open>Math.E\<close> are the doubles next to the real numbers.\<close>

definition CONSTANTS :: "(string \<times> formula_value) list" where
  "CONSTANTS = [(''PI'', VNum (Finite False (884279719003555 / 281474976710656))),
     (''E'', VNum (Finite False (6121026514868073 / 2251799813685248))),
     (''true'', VBool True), (''false'', VBool False)]"

section \<open>Reading tokens\<close>

definition peek :: "token list \<Rightarrow> token" where
  "peek ts = (case ts of [] \<Rightarrow> TEof 0 | t # _ \<Rightarrow> t)"

fun acceptPunct :: "string \<Rightarrow> token list \<Rightarrow> token list option" where
  "acceptPunct p (TPunct q _ # ts) = (if q = p then Some ts else None)"
| "acceptPunct p _ = None"

fun acceptKeyword :: "string \<Rightarrow> token list \<Rightarrow> token list option" where
  "acceptKeyword w (TIdent x _ # ts) = (if x = w then Some ts else None)"
| "acceptKeyword w _ = None"

text \<open>An operator of a table.\<close>

fun accept_operator :: "(string \<times> binary_op) list \<Rightarrow> token list \<Rightarrow> (binary_op \<times> token list) option" where
  "accept_operator ops (TPunct q _ # ts) = map_option (\<lambda>b. (b, ts)) (map_of ops q)"
| "accept_operator ops _ = None"

fun describeToken :: "token \<Rightarrow> string" where
  "describeToken (TEof _) = ''end of formula''"
| "describeToken (TNumber v _) = ''number '' @ show_number v"
| "describeToken (TString _ _) = ''string literal''"
| "describeToken (TIdent x _) = [DQ] @ x @ [DQ]"
| "describeToken (TPunct p _) = [DQ] @ p @ [DQ]"

fun token_pos :: "token \<Rightarrow> nat" where
  "token_pos (TNumber _ i) = i" | "token_pos (TString _ i) = i" | "token_pos (TIdent _ i) = i"
| "token_pos (TPunct _ i) = i" | "token_pos (TEof i) = i"

definition expectPunct :: "string \<Rightarrow> token list \<Rightarrow> token list result" where
  "expectPunct p ts = (case acceptPunct p ts of Some ts' \<Rightarrow> Inr ts'
     | None \<Rightarrow> Inl (Error (''expected '' @ [DQ] @ p @ [DQ] @ '' but found '' @ describeToken (peek ts) @
         '' at position '' @ show_nat (token_pos (peek ts)))))"

definition unexpected :: "token \<Rightarrow> string \<Rightarrow> js_error" where
  "unexpected t more = Error (''unexpected '' @ describeToken t @ '' at position '' @ show_nat (token_pos t) @ more)"

section \<open>The parser\<close>

text \<open>
  The methods and their loops: \<open>G_or_more left\<close> is the head of the \<open>while\<close> of \<open>parseOr\<close>, and so on, and
  \<open>G_args name args\<close> the \<open>do\<close> loop of \<open>parseCall\<close>.  Running out of fuel is \<open>None\<close>.
\<close>

datatype goal =
    G_ternary | G_or | G_and | G_comparison | G_additive | G_multiplicative | G_unary | G_exponent | G_primary
  | G_or_more ast | G_and_more ast | G_comparison_more ast | G_additive_more ast | G_multiplicative_more ast
  | G_args string "ast list"

type_synonym parsed = "(ast \<times> token list) result option"

definition and_then :: "parsed \<Rightarrow> (ast \<Rightarrow> token list \<Rightarrow> parsed) \<Rightarrow> parsed" where
  "and_then p f = (case p of None \<Rightarrow> None | Some (Inl e) \<Rightarrow> Some (Inl e) | Some (Inr (a, ts)) \<Rightarrow> f a ts)"

definition expecting :: "string \<Rightarrow> token list \<Rightarrow> (token list \<Rightarrow> parsed) \<Rightarrow> parsed" where
  "expecting p ts f = (case expectPunct p ts of Inl e \<Rightarrow> Some (Inl e) | Inr ts' \<Rightarrow> f ts')"

definition arity_text :: "nat \<Rightarrow> nat option \<Rightarrow> string" where
  "arity_text lo hi = (case hi of None \<Rightarrow> ''at least '' @ show_nat lo
     | Some h \<Rightarrow> if lo = h then show_nat lo else show_nat lo @ ''-'' @ show_nat h)"

definition finish_call :: "string \<Rightarrow> ast list \<Rightarrow> token list \<Rightarrow> parsed" where
  "finish_call name args ts =
     (case map_of FUNCTIONS name of None \<Rightarrow> Some (Inl (Error (''unknown function '' @ [DQ] @ name @ [DQ])))
      | Some (lo, hi) \<Rightarrow>
          if length args < lo \<or> (case hi of None \<Rightarrow> False | Some h \<Rightarrow> h < length args)
          then Some (Inl (Error (''function '' @ [DQ] @ name @ [DQ] @ '' expects '' @ arity_text lo hi @
            '' argument(s), got '' @ show_nat (length args))))
          else Some (Inr (Call name args, ts)))"

fun parse :: "nat \<Rightarrow> goal \<Rightarrow> token list \<Rightarrow> parsed" where
  "parse 0 g ts = None"
| "parse (Suc n) G_ternary ts =
     and_then (parse n G_or ts) (\<lambda>cond ts1. case acceptPunct ''?'' ts1 of
        None \<Rightarrow> Some (Inr (cond, ts1))
      | Some ts2 \<Rightarrow> and_then (parse n G_ternary ts2) (\<lambda>truthy ts3. expecting '':'' ts3 (\<lambda>ts4.
          and_then (parse n G_ternary ts4) (\<lambda>falsy ts5. Some (Inr (Ternary cond truthy falsy, ts5))))))"
| "parse (Suc n) G_or ts = and_then (parse n G_and ts) (\<lambda>left. parse n (G_or_more left))"
| "parse (Suc n) (G_or_more left) ts = (case acceptKeyword ''or'' ts of
      None \<Rightarrow> Some (Inr (left, ts))
    | Some ts1 \<Rightarrow> and_then (parse n G_and ts1) (\<lambda>right. parse n (G_or_more (Binary Op_or left right))))"
| "parse (Suc n) G_and ts = and_then (parse n G_comparison ts) (\<lambda>left. parse n (G_and_more left))"
| "parse (Suc n) (G_and_more left) ts = (case acceptKeyword ''and'' ts of
      None \<Rightarrow> Some (Inr (left, ts))
    | Some ts1 \<Rightarrow> and_then (parse n G_comparison ts1) (\<lambda>right. parse n (G_and_more (Binary Op_and left right))))"
| "parse (Suc n) G_comparison ts = and_then (parse n G_additive ts) (\<lambda>left. parse n (G_comparison_more left))"
| "parse (Suc n) (G_comparison_more left) ts = (case accept_operator COMPARISON_OPS ts of
      None \<Rightarrow> Some (Inr (left, ts))
    | Some (b, ts1) \<Rightarrow>
        and_then (parse n G_additive ts1) (\<lambda>right. parse n (G_comparison_more (Binary b left right))))"
| "parse (Suc n) G_additive ts =
     and_then (parse n G_multiplicative ts) (\<lambda>left. parse n (G_additive_more left))"
| "parse (Suc n) (G_additive_more left) ts = (case acceptPunct ''+'' ts of
      Some ts1 \<Rightarrow>
        and_then (parse n G_multiplicative ts1) (\<lambda>right. parse n (G_additive_more (Binary Op_add left right)))
    | None \<Rightarrow> (case acceptPunct ''-'' ts of
        Some ts1 \<Rightarrow>
          and_then (parse n G_multiplicative ts1) (\<lambda>right. parse n (G_additive_more (Binary Op_sub left right)))
      | None \<Rightarrow> Some (Inr (left, ts))))"
| "parse (Suc n) G_multiplicative ts =
     and_then (parse n G_unary ts) (\<lambda>left. parse n (G_multiplicative_more left))"
| "parse (Suc n) (G_multiplicative_more left) ts = (case accept_operator MULTIPLICATIVE_OPS ts of
      None \<Rightarrow> Some (Inr (left, ts))
    | Some (b, ts1) \<Rightarrow>
        and_then (parse n G_unary ts1) (\<lambda>right. parse n (G_multiplicative_more (Binary b left right))))"
| "parse (Suc n) G_unary ts = (case acceptPunct ''-'' ts of
      Some ts1 \<Rightarrow> and_then (parse n G_unary ts1) (\<lambda>a ts2. Some (Inr (Unary Minus_sign a, ts2)))
    | None \<Rightarrow> (case acceptPunct ''+'' ts of
        Some ts1 \<Rightarrow> and_then (parse n G_unary ts1) (\<lambda>a ts2. Some (Inr (Unary Plus_sign a, ts2)))
      | None \<Rightarrow> (case acceptKeyword ''not'' ts of
          Some ts1 \<Rightarrow> and_then (parse n G_unary ts1) (\<lambda>a ts2. Some (Inr (Unary Not_op a, ts2)))
        | None \<Rightarrow> parse n G_exponent ts)))"
| "parse (Suc n) G_exponent ts = and_then (parse n G_primary ts) (\<lambda>base ts1. case acceptPunct ''^'' ts1 of
      Some ts2 \<Rightarrow> and_then (parse n G_unary ts2) (\<lambda>a ts3. Some (Inr (Binary Op_pow base a, ts3)))
    | None \<Rightarrow> Some (Inr (base, ts1)))"
| "parse (Suc n) G_primary ts = (case ts of
      TNumber v _ # ts1 \<Rightarrow> Some (Inr (Literal (VNum v), ts1))
    | TString s _ # ts1 \<Rightarrow> Some (Inr (Literal (VStr s), ts1))
    | TIdent name pos # ts1 \<Rightarrow> (case acceptPunct ''('' ts1 of
        Some ts2 \<Rightarrow>
          if map_of FUNCTIONS name = None
          then Some (Inl (Error (''unknown function '' @ [DQ] @ name @ [DQ] @ '' at position '' @ show_nat pos)))
          else (case acceptPunct '')'' ts2 of
              Some ts3 \<Rightarrow> finish_call name [] ts3
            | None \<Rightarrow> parse n (G_args name []) ts2)
      | None \<Rightarrow> (case map_of CONSTANTS name of
          Some v \<Rightarrow> Some (Inr (Literal v, ts1))
        | None \<Rightarrow> Some (Inr (Variable name, ts1))))
    | _ \<Rightarrow> (case acceptPunct ''('' ts of
        Some ts1 \<Rightarrow> and_then (parse n G_ternary ts1) (\<lambda>inner ts2. expecting '')'' ts2 (\<lambda>ts3. Some (Inr (inner, ts3))))
      | None \<Rightarrow> Some (Inl (unexpected (peek ts) []))))"
| "parse (Suc n) (G_args name args) ts = and_then (parse n G_ternary ts) (\<lambda>a ts1. case acceptPunct '','' ts1 of
      Some ts2 \<Rightarrow> parse n (G_args name (args @ [a])) ts2
    | None \<Rightarrow> expecting '')'' ts1 (finish_call name (args @ [a])))"

text \<open>The whole formula: \<open>FormulaParser.parse\<close>, with fuel that is shown to be enough.\<close>

definition parse_fuel :: "token list \<Rightarrow> nat" where
  "parse_fuel ts = 20 * length ts + 20"

definition parse_formula :: "token list \<Rightarrow> ast result option" where
  "parse_formula ts = (case parse (parse_fuel ts) G_ternary ts of
      None \<Rightarrow> None
    | Some (Inl e) \<Rightarrow> Some (Inl e)
    | Some (Inr (a, rest)) \<Rightarrow> (case peek rest of
        TEof _ \<Rightarrow> Some (Inr a)
      | t \<Rightarrow> Some (Inl (unexpected t '' (expected end of formula)''))))"

section \<open>The fuel is enough\<close>

fun goal_rank :: "goal \<Rightarrow> nat" where
  "goal_rank (G_args _ _) = 11" | "goal_rank G_ternary = 10" | "goal_rank G_or = 9" | "goal_rank G_and = 8"
| "goal_rank G_comparison = 7" | "goal_rank G_additive = 6" | "goal_rank G_multiplicative = 5"
| "goal_rank G_unary = 4" | "goal_rank G_exponent = 3" | "goal_rank G_primary = 2" | "goal_rank _ = 1"

fun is_loop :: "goal \<Rightarrow> bool" where
  "is_loop (G_or_more _) = True" | "is_loop (G_and_more _) = True" | "is_loop (G_comparison_more _) = True"
| "is_loop (G_additive_more _) = True" | "is_loop (G_multiplicative_more _) = True" | "is_loop _ = False"

text \<open>An answer that leaves at most \<open>k\<close> tokens.\<close>

definition answers :: "nat \<Rightarrow> parsed \<Rightarrow> bool" where
  "answers k p \<longleftrightarrow> (\<exists>r. p = Some r \<and> (\<forall>a ts. r = Inr (a, ts) \<longrightarrow> length ts \<le> k))"

lemma answers_simps [simp]:
  "answers k (Some (Inl e))" "answers k (Some (Inr (a, ts))) \<longleftrightarrow> length ts \<le> k"
  by (simp_all add: answers_def)

lemma answers_and_then:
  "answers j p \<Longrightarrow> (\<And>a ts. length ts \<le> j \<Longrightarrow> answers k (f a ts)) \<Longrightarrow> answers k (and_then p f)"
  by (auto simp: answers_def and_then_def split: sum.splits)

lemma acceptPunct_length: "acceptPunct p ts = Some ts' \<Longrightarrow> length ts = Suc (length ts')"
  by (cases "(p, ts)" rule: acceptPunct.cases) (auto split: if_splits)

lemma acceptKeyword_length: "acceptKeyword p ts = Some ts' \<Longrightarrow> length ts = Suc (length ts')"
  by (cases "(p, ts)" rule: acceptKeyword.cases) (auto split: if_splits)

lemma accept_operator_length: "accept_operator ops ts = Some (b, ts') \<Longrightarrow> length ts = Suc (length ts')"
  by (cases "(ops, ts)" rule: accept_operator.cases) auto

lemma answers_expecting:
  "(\<And>ts'. length ts = Suc (length ts') \<Longrightarrow> answers k (f ts')) \<Longrightarrow> answers k (expecting p ts f)"
  by (auto simp: expecting_def expectPunct_def split: option.splits dest: acceptPunct_length)

lemma answers_finish_call: "length ts \<le> k \<Longrightarrow> answers k (finish_call name args ts)"
  by (auto simp: finish_call_def split: option.splits)

lemma answers_mono: "answers j p \<Longrightarrow> j \<le> k \<Longrightarrow> answers k p"
  by (fastforce simp: answers_def)

lemma goal_rank_pos: "0 < goal_rank g"
  by (cases g) simp_all

lemma parse_answers:
  "20 * length ts + goal_rank g \<le> n \<Longrightarrow> answers (if is_loop g then length ts else length ts - 1) (parse n g ts)"
proof (induction n arbitrary: g ts)
  case 0
  then show ?case using goal_rank_pos [of g] by simp
next
  case (Suc n)
  have run: "answers k (parse n h us)"
    if "20 * length us + goal_rank h \<le> n" "(if is_loop h then length us else length us - 1) \<le> k" for h us k
    using Suc.IH that answers_mono by blast
  have bind: "answers k (and_then (parse n h us) f)"
    if "20 * length us + goal_rank h \<le> n"
      "\<And>a vs. length vs \<le> (if is_loop h then length us else length us - 1) \<Longrightarrow> answers k (f a vs)" for h us k f
    using answers_and_then [OF Suc.IH] that by blast
  show ?case
  proof (cases g)
    case G_ternary
    with Suc.prems show ?thesis
      by (auto intro!: bind run answers_expecting split: option.splits dest!: acceptPunct_length)
  next
    case G_primary
    with Suc.prems show ?thesis
      by (auto intro!: bind run answers_expecting answers_finish_call split: option.splits list.splits token.splits
          dest!: acceptPunct_length)
  next
    case (G_args name args)
    with Suc.prems show ?thesis
      by (auto intro!: bind run answers_expecting answers_finish_call split: option.splits dest!: acceptPunct_length)
  qed (use Suc.prems in \<open>auto intro!: bind run split: option.splits
      dest!: acceptPunct_length acceptKeyword_length accept_operator_length\<close>)
qed

text \<open>More fuel changes no answer.\<close>

definition refines :: "parsed \<Rightarrow> parsed \<Rightarrow> bool" where
  "refines p q \<longleftrightarrow> p = None \<or> q = p"

lemma refines_refl [simp]: "refines p p"
  by (simp add: refines_def)

lemma refines_and_then:
  "refines p q \<Longrightarrow> (\<And>a ts. refines (f a ts) (g a ts)) \<Longrightarrow> refines (and_then p f) (and_then q g)"
  by (auto simp: refines_def and_then_def split: option.splits sum.splits)

lemma refines_expecting: "(\<And>ts'. refines (f ts') (g ts')) \<Longrightarrow> refines (expecting p ts f) (expecting p ts g)"
  by (simp add: expecting_def split: sum.splits)

lemma parse_refines: "n \<le> m \<Longrightarrow> refines (parse n g ts) (parse m g ts)"
proof (induction n arbitrary: g ts m)
  case 0
  then show ?case by (simp add: refines_def)
next
  case (Suc n)
  then obtain k where m: "m = Suc k" and "n \<le> k" by (cases m) auto
  then have run: "refines (parse n h us) (parse k h us)" for h us using Suc.IH by blast
  show ?case unfolding m
    by (cases g) (auto intro!: refines_and_then refines_expecting run split: option.splits list.splits token.splits)
qed

definition parses :: "goal \<Rightarrow> token list \<Rightarrow> (ast \<times> token list) result \<Rightarrow> bool" where
  "parses g ts r \<longleftrightarrow> (\<exists>n. parse n g ts = Some r)"

lemma parsesI: "parse n g ts = Some r \<Longrightarrow> parses g ts r"
  unfolding parses_def by blast

lemma parses_common:
  assumes "parses g ts r" "parses h us q"
  obtains n where "parse n g ts = Some r" "parse n h us = Some q"
proof -
  obtain n m where *: "parse n g ts = Some r" "parse m h us = Some q"
    using assms unfolding parses_def by blast
  then have "parse (max n m) g ts = Some r" "parse (max n m) h us = Some q"
    using parse_refines [of n "max n m" g ts] parse_refines [of m "max n m" h us] by (auto simp: refines_def)
  then show ?thesis by (rule that)
qed

lemma parses_fuel:
  assumes "parses G_ternary ts r"
  shows "parse (parse_fuel ts) G_ternary ts = Some r"
proof -
  have "answers (if is_loop G_ternary then length ts else length ts - 1) (parse (parse_fuel ts) G_ternary ts)"
    by (rule parse_answers) (simp add: parse_fuel_def)
  then obtain q where q: "parse (parse_fuel ts) G_ternary ts = Some q" by (auto simp: answers_def)
  obtain n where "parse n G_ternary ts = Some r" "parse n G_ternary ts = Some q"
    using parses_common [OF assms parsesI [OF q]] .
  then have "r = q" by simp
  with q show ?thesis by simp
qed

section \<open>Printing\<close>

text \<open>The level at which a method reads an operator, and the method of a level.\<close>

fun op_level :: "binary_op \<Rightarrow> nat" where
  "op_level Op_or = 1" | "op_level Op_and = 2" | "op_level Op_add = 4" | "op_level Op_sub = 4"
| "op_level Op_mul = 5" | "op_level Op_div = 5" | "op_level Op_rem = 5" | "op_level Op_pow = 7" | "op_level _ = 3"

definition op_lexeme :: "binary_op \<Rightarrow> lexeme" where
  "op_lexeme b = (if b = Op_and \<or> b = Op_or then LIdent (binary_op_name b) else LPunct (binary_op_name b))"

fun sign_lexeme :: "unary_op \<Rightarrow> lexeme" where
  "sign_lexeme Minus_sign = LPunct ''-''" | "sign_lexeme Plus_sign = LPunct ''+''"
| "sign_lexeme Not_op = LIdent ''not''"

fun literal_lexeme :: "formula_value \<Rightarrow> lexeme" where
  "literal_lexeme (VNum v) = LNumber v"
| "literal_lexeme (VStr s) = LString s"
| "literal_lexeme (VBool b) = LIdent (if b then ''true'' else ''false'')"

definition parens :: "bool \<Rightarrow> lexeme list \<Rightarrow> lexeme list" where
  "parens b ls = (if b then [LPunct ''(''] @ ls @ [LPunct '')''] else ls)"

fun commas :: "lexeme list list \<Rightarrow> lexeme list" where
  "commas [] = []"
| "commas [ls] = ls"
| "commas (ls # lss) = ls @ [LPunct '',''] @ commas lss"

text \<open>\<open>lexemes l a\<close> prints \<open>a\<close> where an operator of level \<open>l\<close> or tighter is expected.\<close>

fun lexemes :: "nat \<Rightarrow> ast \<Rightarrow> lexeme list" where
  "lexemes l (Literal v) = [literal_lexeme v]"
| "lexemes l (Variable x) = [LIdent x]"
| "lexemes l (Unary u a) = parens (6 < l) (sign_lexeme u # lexemes 6 a)"
| "lexemes l (Binary b x y) = parens (op_level b < l)
     (if b = Op_pow then lexemes 8 x @ [LPunct ''^''] @ lexemes 6 y
      else lexemes (op_level b) x @ [op_lexeme b] @ lexemes (Suc (op_level b)) y)"
| "lexemes l (Ternary c t f) =
     parens (0 < l) (lexemes 1 c @ [LPunct ''?''] @ lexemes 0 t @ [LPunct '':''] @ lexemes 0 f)"
| "lexemes l (Call f args) =
     [LIdent f, LPunct ''(''] @ commas (map (lexemes 0) args) @ [LPunct '')'']"

text \<open>The trees that have a spelling: what the parser can return.\<close>

definition arity_ok :: "string \<Rightarrow> nat \<Rightarrow> bool" where
  "arity_ok f k \<longleftrightarrow> (case map_of FUNCTIONS f of None \<Rightarrow> False
     | Some (lo, hi) \<Rightarrow> lo \<le> k \<and> (case hi of None \<Rightarrow> True | Some h \<Rightarrow> k \<le> h))"

fun spelled :: "(double \<Rightarrow> string) \<Rightarrow> ast \<Rightarrow> bool" where
  "spelled num (Literal v) \<longleftrightarrow> (case v of VNum x \<Rightarrow> number_literal (num x) x | _ \<Rightarrow> True)"
| "spelled num (Variable x) \<longleftrightarrow> ident_word x \<and> map_of CONSTANTS x = None \<and> x \<noteq> ''not''"
| "spelled num (Unary u a) \<longleftrightarrow> spelled num a"
| "spelled num (Binary b x y) \<longleftrightarrow> spelled num x \<and> spelled num y"
| "spelled num (Ternary c t f) \<longleftrightarrow> spelled num c \<and> spelled num t \<and> spelled num f"
| "spelled num (Call f args) \<longleftrightarrow> arity_ok f (length args) \<and> list_all (spelled num) args"

section \<open>What the methods read\<close>

definition goal_at :: "nat \<Rightarrow> goal" where
  "goal_at l = [G_ternary, G_or, G_and, G_comparison, G_additive, G_multiplicative, G_unary, G_exponent, G_primary] ! l"

definition more_at :: "nat \<Rightarrow> ast \<Rightarrow> goal" where
  "more_at l a = [G_or_more a, G_and_more a, G_comparison_more a, G_additive_more a, G_multiplicative_more a] ! (l - 1)"

text \<open>The operator that the loop of level \<open>l\<close> takes at a lexeme.\<close>

fun infix_op :: "nat \<Rightarrow> lexeme \<Rightarrow> binary_op option" where
  "infix_op l (LIdent x) = (if l = 1 \<and> x = ''or'' then Some Op_or else if l = 2 \<and> x = ''and'' then Some Op_and else None)"
| "infix_op l (LPunct q) =
     (if l = 3 then map_of COMPARISON_OPS q
      else if l = 4 then (if q = ''+'' then Some Op_add else if q = ''-'' then Some Op_sub else None)
      else if l = 5 then map_of MULTIPLICATIVE_OPS q else None)"
| "infix_op _ _ = None"

definition loop_level :: "nat \<Rightarrow> bool" where
  "loop_level l \<longleftrightarrow> 1 \<le> l \<and> l \<le> 5"

lemma loop_level_cases: "loop_level l \<Longrightarrow> l = 1 \<or> l = 2 \<or> l = 3 \<or> l = 4 \<or> l = 5"
  by (auto simp: loop_level_def)

lemma parse_level:
  assumes "loop_level l"
  shows "parse (Suc n) (goal_at l) ts = and_then (parse n (goal_at (Suc l)) ts) (\<lambda>a. parse n (more_at l a))"
  using loop_level_cases [OF assms] by (auto simp: goal_at_def more_at_def)

lemma parse_more:
  assumes "loop_level l"
  shows "parse (Suc n) (more_at l a) ts =
    (case ts of [] \<Rightarrow> Some (Inr (a, ts))
     | t # us \<Rightarrow> (case infix_op l (lexeme_of t) of
         None \<Rightarrow> Some (Inr (a, ts))
       | Some b \<Rightarrow> and_then (parse n (goal_at (Suc l)) us) (\<lambda>x. parse n (more_at l (Binary b a x)))))"
proof (cases ts)
  case Nil
  then show ?thesis using loop_level_cases [OF assms] by (elim disjE) (simp_all add: more_at_def)
next
  case (Cons t us)
  show ?thesis unfolding Cons using loop_level_cases [OF assms]
    by (elim disjE; cases t) (simp_all add: more_at_def goal_at_def split: option.split)
qed

text \<open>A lexeme after which a method of level \<open>l\<close> would go on reading.\<close>

definition continues :: "nat \<Rightarrow> lexeme \<Rightarrow> bool" where
  "continues l x \<longleftrightarrow> l = 0 \<and> x = LPunct ''?'' \<or> (\<exists>k \<in> {l..5}. infix_op k x \<noteq> None)
     \<or> l \<le> 7 \<and> x = LPunct ''^'' \<or> x = LPunct ''(''"

definition stops :: "nat \<Rightarrow> token list \<Rightarrow> bool" where
  "stops l ts \<longleftrightarrow> (case ts of [] \<Rightarrow> True | t # _ \<Rightarrow> \<not> continues l (lexeme_of t))"

lemma stops_mono: "stops l ts \<Longrightarrow> l \<le> m \<Longrightarrow> stops m ts"
  by (auto simp: stops_def continues_def split: list.splits)

definition tail_at :: "nat \<Rightarrow> ast \<Rightarrow> token list \<Rightarrow> (ast \<times> token list) result \<Rightarrow> bool" where
  "tail_at l a ts r \<longleftrightarrow> (if loop_level l then parses (more_at l a) ts r else stops l ts \<and> r = Inr (a, ts))"

lemma tail_at_stop: "stops l ts \<Longrightarrow> tail_at l a ts (Inr (a, ts))"
proof (cases "loop_level l")
  case True
  assume "stops l ts"
  with True have "parse (Suc 0) (more_at l a) ts = Some (Inr (a, ts))"
    using True by (auto simp: parse_more stops_def continues_def loop_level_def split: list.splits)
  then show ?thesis using True by (simp add: tail_at_def parsesI)
qed (simp add: tail_at_def)

lemma tail_at_step:
  assumes "loop_level l" "infix_op l (lexeme_of t) = Some b" "parses (goal_at (Suc l)) us (Inr (x, vs))"
    "tail_at l (Binary b a x) vs r"
  shows "tail_at l a (t # us) r"
proof -
  have "parses (more_at l (Binary b a x)) vs r" using assms(1,4) by (simp add: tail_at_def)
  with assms(3) obtain n where "parse n (goal_at (Suc l)) us = Some (Inr (x, vs))"
    "parse n (more_at l (Binary b a x)) vs = Some r" by (rule parses_common)
  then have "parse (Suc n) (more_at l a) (t # us) = Some r"
    using assms(1,2) by (simp add: parse_more and_then_def)
  then show ?thesis using assms(1) by (simp add: tail_at_def parsesI)
qed

definition reads :: "nat \<Rightarrow> ast \<Rightarrow> bool" where
  "reads l a \<longleftrightarrow> (\<forall>ts rest r. map lexeme_of ts = lexemes l a \<and> stops (Suc l) rest \<and> tail_at l a rest r
     \<longrightarrow> parses (goal_at l) (ts @ rest) r)"

lemma readsD:
  "\<lbrakk>reads l a; map lexeme_of ts = lexemes l a; stops l rest\<rbrakk> \<Longrightarrow> parses (goal_at l) (ts @ rest) (Inr (a, rest))"
  unfolding reads_def using tail_at_stop stops_mono by (meson le_SucI order_refl)

lemma stops_simps [simp]: "stops l []" "stops l (t # ts) \<longleftrightarrow> \<not> continues l (lexeme_of t)"
  by (simp_all add: stops_def)

lemma continues_close [simp]:
  "\<not> continues l (LPunct '')'')" "\<not> continues l (LPunct '','')" "\<not> continues l (LPunct '':'')"
  "\<not> continues l LEof" "\<not> continues (Suc 0) (LPunct ''?'')" "\<not> continues 8 (LPunct ''^'')"
  by (simp_all add: continues_def COMPARISON_OPS_def MULTIPLICATIVE_OPS_def)

lemma op_lexeme_level:
  "b \<noteq> Op_pow \<Longrightarrow> loop_level (op_level b)"
  "b \<noteq> Op_pow \<Longrightarrow> infix_op (op_level b) (op_lexeme b) = Some b"
  "b \<noteq> Op_pow \<Longrightarrow> \<not> continues (Suc (op_level b)) (op_lexeme b)"
  by (cases b; simp add: loop_level_def op_lexeme_def continues_def COMPARISON_OPS_def MULTIPLICATIVE_OPS_def)+

lemma acceptPunct_lexeme:
  "acceptPunct p ts = (case ts of [] \<Rightarrow> None | t # us \<Rightarrow> if lexeme_of t = LPunct p then Some us else None)"
  by (cases "(p, ts)" rule: acceptPunct.cases) auto

lemma acceptKeyword_lexeme:
  "acceptKeyword w ts = (case ts of [] \<Rightarrow> None | t # us \<Rightarrow> if lexeme_of t = LIdent w then Some us else None)"
  by (cases "(w, ts)" rule: acceptKeyword.cases) auto

lemma acceptPunct_stops:
  "stops 0 ts \<Longrightarrow> acceptPunct ''?'' ts = None" "stops 7 ts \<Longrightarrow> acceptPunct ''^'' ts = None"
  "stops 8 ts \<Longrightarrow> acceptPunct ''('' ts = None"
  by (auto simp: acceptPunct_lexeme stops_def continues_def split: list.splits)

lemma expecting_lexeme: "lexeme_of t = LPunct p \<Longrightarrow> expecting p (t # ts) f = f ts"
  by (simp add: expecting_def expectPunct_def acceptPunct_lexeme)

definition no_sign :: "lexeme list \<Rightarrow> bool" where
  "no_sign ls \<longleftrightarrow> ls \<noteq> [] \<and> hd ls \<notin> {LPunct ''-'', LPunct ''+'', LIdent ''not''}"

lemma not_no_function: "\<not> arity_ok ''not'' k"
  by (simp add: arity_ok_def FUNCTIONS_def unary_functions_def)

lemma lexemes_no_sign: "spelled num a \<Longrightarrow> 6 < l \<Longrightarrow> no_sign (lexemes l a)"
proof (induction a arbitrary: l)
  case (Literal v)
  then show ?case by (cases v) (simp_all add: no_sign_def)
next
  case (Binary b x y)
  show ?case
  proof (cases "op_level b < l")
    case False
    then have "b = Op_pow" using Binary.prems by (cases b) simp_all
    then show ?thesis using Binary.IH(1) [of 8] Binary.prems False
      by (simp add: parens_def no_sign_def)
  qed (simp add: parens_def no_sign_def)
next
  case (Call f args)
  then show ?case using not_no_function by (auto simp: no_sign_def)
qed (simp_all add: no_sign_def parens_def)

lemma lexemes_head: "lexemes l a \<noteq> [] \<and> hd (lexemes l a) \<noteq> LPunct '')''"
proof (induction a arbitrary: l)
  case (Literal v)
  then show ?case by (cases v) simp_all
next
  case (Unary u a)
  then show ?case by (cases u) (simp_all add: parens_def)
qed (simp_all add: parens_def)

section \<open>Every level reads what is printed for it\<close>

lemma reads_descend:
  assumes "reads (Suc l) a" "lexemes l a = lexemes (Suc l) a" "l < 8" "no_sign (lexemes 7 a)"
  shows "reads l a"
  unfolding reads_def
proof (intro allI impI, elim conjE)
  fix ts rest r
  assume ts: "map lexeme_of ts = lexemes l a" and stops: "stops (Suc l) rest" and tail: "tail_at l a rest r"
  have deeper: "parses (goal_at (Suc l)) (ts @ rest) (Inr (a, rest))"
    using readsD [OF assms(1)] ts stops assms(2) by simp
  then obtain n where n: "parse n (goal_at (Suc l)) (ts @ rest) = Some (Inr (a, rest))"
    unfolding parses_def by blast
  consider "loop_level l" | "l = 0" | "l = 6" | "l = 7" using assms(3) by (fastforce simp: loop_level_def)
  then show "parses (goal_at l) (ts @ rest) r"
  proof cases
    case 1
    then have "parses (more_at l a) rest r" using tail by (simp add: tail_at_def)
    with deeper obtain m where "parse m (goal_at (Suc l)) (ts @ rest) = Some (Inr (a, rest))"
      "parse m (more_at l a) rest = Some r" by (rule parses_common)
    then have "parse (Suc m) (goal_at l) (ts @ rest) = Some r" using 1 by (simp add: parse_level and_then_def)
    then show ?thesis by (rule parsesI)
  next
    case 2
    then have "r = Inr (a, rest)" "acceptPunct ''?'' rest = None"
      using tail acceptPunct_stops by (simp_all add: tail_at_def loop_level_def)
    then have "parse (Suc n) G_ternary (ts @ rest) = Some r" using n 2 by (simp add: goal_at_def and_then_def)
    then have "parses G_ternary (ts @ rest) r" by (rule parsesI)
    then show ?thesis using 2 by (simp add: goal_at_def)
  next
    case 3
    then have r: "r = Inr (a, rest)" using tail by (simp add: tail_at_def loop_level_def)
    obtain t us where "ts = t # us" "lexeme_of t \<notin> {LPunct ''-'', LPunct ''+'', LIdent ''not''}"
      using assms(2,4) ts 3 by (cases ts) (auto simp: no_sign_def dest: sym)
    then have "parse (Suc n) G_unary (ts @ rest) = Some r"
      using n 3 r by (simp add: goal_at_def acceptPunct_lexeme acceptKeyword_lexeme)
    then have "parses G_unary (ts @ rest) r" by (rule parsesI)
    then show ?thesis using 3 by (simp add: goal_at_def)
  next
    case 4
    then have "r = Inr (a, rest)" "acceptPunct ''^'' rest = None"
      using tail acceptPunct_stops by (simp_all add: tail_at_def loop_level_def)
    then have "parse (Suc n) G_exponent (ts @ rest) = Some r" using n 4 by (simp add: goal_at_def and_then_def)
    then have "parses G_exponent (ts @ rest) r" by (rule parsesI)
    then show ?thesis using 4 by (simp add: goal_at_def)
  qed
qed

lemma map_split:
  assumes "map f ts = xs @ y # ys"
  obtains us t vs where "ts = us @ t # vs" "map f us = xs" "f t = y" "map f vs = ys"
  using assms by (auto simp: map_eq_append_conv map_eq_Cons_conv)

lemma reads_binary:
  assumes "b \<noteq> Op_pow" "reads (op_level b) x" "reads (Suc (op_level b)) y"
  shows "reads (op_level b) (Binary b x y)"
  unfolding reads_def
proof (intro allI impI, elim conjE)
  fix ts rest r
  assume "map lexeme_of ts = lexemes (op_level b) (Binary b x y)"
    and stops: "stops (Suc (op_level b)) rest" and tail: "tail_at (op_level b) (Binary b x y) rest r"
  then obtain us t vs where ts: "ts = us @ t # vs" "map lexeme_of us = lexemes (op_level b) x"
    "lexeme_of t = op_lexeme b" "map lexeme_of vs = lexemes (Suc (op_level b)) y"
    using assms(1) by (auto simp: parens_def map_eq_append_conv map_eq_Cons_conv)
  have "parses (goal_at (Suc (op_level b))) (vs @ rest) (Inr (y, rest))"
    using readsD [OF assms(3) ts(4) stops] .
  moreover have "infix_op (op_level b) (lexeme_of t) = Some b" using ts(3) op_lexeme_level(2) assms(1) by simp
  ultimately have "tail_at (op_level b) x (t # vs @ rest) r"
    using op_lexeme_level(1) [OF assms(1)] tail tail_at_step by blast
  then show "parses (goal_at (op_level b)) (ts @ rest) r"
    using assms(2) ts op_lexeme_level(3) [OF assms(1)] unfolding reads_def by simp
qed

lemma reads_pow:
  assumes "reads 8 x" "reads 6 y"
  shows "reads 7 (Binary Op_pow x y)"
  unfolding reads_def
proof (intro allI impI, elim conjE)
  fix ts rest r
  assume "map lexeme_of ts = lexemes 7 (Binary Op_pow x y)" and "tail_at 7 (Binary Op_pow x y) rest r"
  then obtain us t vs where ts: "ts = us @ t # vs" "map lexeme_of us = lexemes 8 x"
    "lexeme_of t = LPunct ''^''" "map lexeme_of vs = lexemes 6 y"
    and r: "r = Inr (Binary Op_pow x y, rest)" and stops: "stops 7 rest"
    by (auto simp: parens_def map_eq_append_conv map_eq_Cons_conv tail_at_def loop_level_def)
  have "stops 6 rest" using stops by (simp add: stops_def continues_def split: list.splits)
  then have "parses G_unary (vs @ rest) (Inr (y, rest))"
    using readsD [OF assms(2) ts(4)] by (simp add: goal_at_def)
  moreover have "parses G_primary (us @ t # vs @ rest) (Inr (x, t # vs @ rest))"
    using readsD [OF assms(1) ts(2), of "t # vs @ rest"] ts(3) by (simp add: goal_at_def)
  ultimately obtain n where "parse n G_unary (vs @ rest) = Some (Inr (y, rest))"
    "parse n G_primary (us @ t # vs @ rest) = Some (Inr (x, t # vs @ rest))" by (rule parses_common)
  then have "parse (Suc n) G_exponent (ts @ rest) = Some r"
    using ts r by (simp add: and_then_def acceptPunct_lexeme)
  then have "parses G_exponent (ts @ rest) r" by (rule parsesI)
  then show "parses (goal_at 7) (ts @ rest) r" by (simp add: goal_at_def)
qed

lemma reads_unary:
  assumes "reads 6 a"
  shows "reads 6 (Unary u a)"
  unfolding reads_def
proof (intro allI impI, elim conjE)
  fix ts rest r
  assume "map lexeme_of ts = lexemes 6 (Unary u a)" and "tail_at 6 (Unary u a) rest r"
  then obtain t us where ts: "ts = t # us" "lexeme_of t = sign_lexeme u" "map lexeme_of us = lexemes 6 a"
    and r: "r = Inr (Unary u a, rest)" and stops: "stops 6 rest"
    by (auto simp: parens_def map_eq_Cons_conv tail_at_def loop_level_def)
  then obtain n where "parse n G_unary (us @ rest) = Some (Inr (a, rest))"
    using readsD [OF assms ts(3) stops] unfolding parses_def by (auto simp: goal_at_def)
  then have "parse (Suc n) G_unary (ts @ rest) = Some r"
    using ts r by (cases u) (simp_all add: and_then_def acceptPunct_lexeme acceptKeyword_lexeme)
  then have "parses G_unary (ts @ rest) r" by (rule parsesI)
  then show "parses (goal_at 6) (ts @ rest) r" by (simp add: goal_at_def)
qed

lemma reads_ternary:
  assumes "reads 1 c" "reads 0 a" "reads 0 b"
  shows "reads 0 (Ternary c a b)"
  unfolding reads_def
proof (intro allI impI, elim conjE)
  fix ts rest r
  assume all: "map lexeme_of ts = lexemes 0 (Ternary c a b)" and tail: "tail_at 0 (Ternary c a b) rest r"
  have "map lexeme_of ts = lexemes 1 c @ LPunct ''?'' # lexemes 0 a @ LPunct '':'' # lexemes 0 b"
    using all by (simp add: parens_def)
  then obtain cs q us where cs: "ts = cs @ q # us" "map lexeme_of cs = lexemes 1 c" "lexeme_of q = LPunct ''?''"
    and us: "map lexeme_of us = lexemes 0 a @ LPunct '':'' # lexemes 0 b" by (rule map_split)
  from us obtain as k bs where "us = as @ k # bs" "map lexeme_of as = lexemes 0 a"
    "lexeme_of k = LPunct '':''" "map lexeme_of bs = lexemes 0 b" by (rule map_split)
  note ts = cs(1) [unfolded this(1)] cs(2,3) this(2-4)
  have r: "r = Inr (Ternary c a b, rest)" and stops: "stops 0 rest"
    using tail by (simp_all add: tail_at_def loop_level_def)
  have "parses G_or (cs @ q # as @ k # bs @ rest) (Inr (c, q # as @ k # bs @ rest))"
    using readsD [OF assms(1) ts(2), of "q # as @ k # bs @ rest"] ts(3) by (simp add: goal_at_def)
  moreover have a: "parses G_ternary (as @ k # bs @ rest) (Inr (a, k # bs @ rest))"
    using readsD [OF assms(2) ts(4), of "k # bs @ rest"] ts(5) by (simp add: goal_at_def)
  moreover have b: "parses G_ternary (bs @ rest) (Inr (b, rest))"
    using readsD [OF assms(3) ts(6) stops] by (simp add: goal_at_def)
  ultimately obtain n m where n: "parse n G_or (cs @ q # as @ k # bs @ rest) = Some (Inr (c, q # as @ k # bs @ rest))"
    and m: "parse m G_ternary (as @ k # bs @ rest) = Some (Inr (a, k # bs @ rest))"
      "parse m G_ternary (bs @ rest) = Some (Inr (b, rest))"
    using parses_common [OF a b] unfolding parses_def by metis
  let ?j = "max n m"
  have "parse ?j G_or (cs @ q # as @ k # bs @ rest) = Some (Inr (c, q # as @ k # bs @ rest))"
    "parse ?j G_ternary (as @ k # bs @ rest) = Some (Inr (a, k # bs @ rest))"
    "parse ?j G_ternary (bs @ rest) = Some (Inr (b, rest))"
    using n m parse_refines [of n ?j] parse_refines [of m ?j] unfolding refines_def
    by (metis max.cobounded1 max.cobounded2 option.distinct(1))+
  then have "parse (Suc ?j) G_ternary (ts @ rest) = Some r"
    using ts r by (simp add: and_then_def acceptPunct_lexeme expecting_lexeme)
  then have "parses G_ternary (ts @ rest) r" by (rule parsesI)
  then show "parses (goal_at 0) (ts @ rest) r" by (simp add: goal_at_def)
qed

lemma reads_parens:
  assumes "reads 0 a" "lexemes 8 a = parens True (lexemes 0 a)"
  shows "reads 8 a"
  unfolding reads_def
proof (intro allI impI, elim conjE)
  fix ts rest r
  assume "map lexeme_of ts = lexemes 8 a" and "tail_at 8 a rest r"
  then obtain p us k where ts: "ts = p # us @ [k]" "lexeme_of p = LPunct ''(''"
    "map lexeme_of us = lexemes 0 a" "lexeme_of k = LPunct '')''" and r: "r = Inr (a, rest)"
    unfolding assms(2) by (auto simp: parens_def map_eq_append_conv map_eq_Cons_conv tail_at_def loop_level_def)
  obtain n where "parse n G_ternary (us @ k # rest) = Some (Inr (a, k # rest))"
    using readsD [OF assms(1) ts(3), of "k # rest"] ts(4) unfolding parses_def by (auto simp: goal_at_def)
  then have "parse (Suc n) G_primary (ts @ rest) = Some r"
    using ts r by (cases p) (simp_all add: and_then_def expecting_lexeme)
  then have "parses G_primary (ts @ rest) r" by (rule parsesI)
  then show "parses (goal_at 8) (ts @ rest) r" by (simp add: goal_at_def)
qed

lemma reads_atom:
  assumes "lexemes 8 a = [x]" "\<And>t ts. lexeme_of t = x \<Longrightarrow> acceptPunct ''('' ts = None
      \<Longrightarrow> parse (Suc 0) G_primary (t # ts) = Some (Inr (a, ts))"
  shows "reads 8 a"
  unfolding reads_def
proof (intro allI impI, elim conjE)
  fix ts rest r
  assume "map lexeme_of ts = lexemes 8 a" "tail_at 8 a rest r"
  then obtain t where "ts = [t]" "lexeme_of t = x" "r = Inr (a, rest)" "acceptPunct ''('' rest = None"
    using assms(1) acceptPunct_stops by (auto simp: tail_at_def loop_level_def)
  then have "parse (Suc 0) G_primary (ts @ rest) = Some r" using assms(2) by simp
  then have "parses G_primary (ts @ rest) r" by (rule parsesI)
  then show "parses (goal_at 8) (ts @ rest) r" by (simp add: goal_at_def)
qed

lemma reads_leaf:
  "reads 8 (Literal v)" "map_of CONSTANTS x = None \<Longrightarrow> reads 8 (Variable x)"
proof -
  show "reads 8 (Literal v)"
  proof (cases v)
    case (VBool b)
    have "map_of CONSTANTS (if b then ''true'' else ''false'') = Some (VBool b)" by (simp add: CONSTANTS_def)
    then show ?thesis unfolding VBool
      by (intro reads_atom [of _ "LIdent (if b then ''true'' else ''false'')"]) (auto elim!: lexeme_of.elims)
  next
    case (VNum w)
    then show ?thesis by (intro reads_atom [of _ "LNumber w"]) (auto elim!: lexeme_of.elims)
  next
    case (VStr w)
    then show ?thesis by (intro reads_atom [of _ "LString w"]) (auto elim!: lexeme_of.elims)
  qed
  show "reads 8 (Variable x)" if "map_of CONSTANTS x = None"
    using that by (intro reads_atom [of _ "LIdent x"]) (auto elim!: lexeme_of.elims)
qed

lemma finish_call_ok: "arity_ok f (length args) \<Longrightarrow> finish_call f args ts = Some (Inr (Call f args, ts))"
  by (auto simp: arity_ok_def finish_call_def split: option.splits)

lemma parses_args:
  assumes "map lexeme_of ts = commas (map (lexemes 0) args) @ [LPunct '')'']" "args \<noteq> []"
    "\<forall>a \<in> set args. reads 0 a" "arity_ok f (length acc + length args)"
  shows "parses (G_args f acc) (ts @ rest) (Inr (Call f (acc @ args), rest))"
  using assms
proof (induction args arbitrary: acc ts)
  case (Cons a args)
  obtain us t vs where ts: "ts = us @ t # vs" "map lexeme_of us = lexemes 0 a"
    and t: "lexeme_of t = (if args = [] then LPunct '')'' else LPunct '','')"
    and vs: "map lexeme_of vs = (if args = [] then [] else commas (map (lexemes 0) args) @ [LPunct '')''])"
  proof (cases args)
    case Nil
    with Cons.prems(1) have "map lexeme_of ts = lexemes 0 a @ LPunct '')'' # []" by simp
    then show ?thesis using Nil that by (auto elim: map_split)
  next
    case (Cons b bs)
    with Cons.prems(1) have "map lexeme_of ts = lexemes 0 a @ LPunct '','' # commas (map (lexemes 0) args) @ [LPunct '')'']"
      by simp
    then show ?thesis using Cons that by (auto elim: map_split)
  qed
  have "stops 0 (t # vs @ rest)" using t by simp
  then have a: "parses G_ternary (us @ t # vs @ rest) (Inr (a, t # vs @ rest))"
    using readsD [of 0 a us] ts(2) Cons.prems(3) by (simp add: goal_at_def)
  show ?case
  proof (cases "args = []")
    case True
    then obtain n where "parse n G_ternary (us @ t # vs @ rest) = Some (Inr (a, t # rest))"
      using a vs unfolding parses_def by auto
    then have "parse (Suc n) (G_args f acc) (ts @ rest) = Some (Inr (Call f (acc @ [a]), rest))"
      using True ts t vs Cons.prems(4) finish_call_ok [of f "acc @ [a]"]
      by (simp add: and_then_def acceptPunct_lexeme expecting_lexeme)
    then show ?thesis using True parsesI by blast
  next
    case False
    then have "parses (G_args f (acc @ [a])) (vs @ rest) (Inr (Call f ((acc @ [a]) @ args), rest))"
      using Cons.IH [of vs "acc @ [a]"] vs Cons.prems by simp
    with a obtain n where "parse n G_ternary (us @ t # vs @ rest) = Some (Inr (a, t # vs @ rest))"
      "parse n (G_args f (acc @ [a])) (vs @ rest) = Some (Inr (Call f ((acc @ [a]) @ args), rest))"
      by (rule parses_common)
    then have "parse (Suc n) (G_args f acc) (ts @ rest) = Some (Inr (Call f (acc @ a # args), rest))"
      using False ts t by (simp add: and_then_def acceptPunct_lexeme)
    then show ?thesis by (rule parsesI)
  qed
qed simp

lemma commas_Cons: "\<exists>r. commas (x # xs) = x @ r"
  by (cases xs) auto

lemma reads_call:
  assumes "\<forall>a \<in> set args. reads 0 a" "arity_ok f (length args)"
  shows "reads 8 (Call f args)"
  unfolding reads_def
proof (intro allI impI, elim conjE)
  fix ts rest r
  assume all: "map lexeme_of ts = lexemes 8 (Call f args)" and tail: "tail_at 8 (Call f args) rest r"
  then obtain pos p us where ts: "ts = TIdent f pos # p # us" "lexeme_of p = LPunct ''(''"
    and us: "map lexeme_of us = commas (map (lexemes 0) args) @ [LPunct '')'']"
    by (auto simp: map_eq_Cons_conv elim!: lexeme_of.elims)
  have r: "r = Inr (Call f args, rest)" using tail by (simp add: tail_at_def loop_level_def)
  have known: "map_of FUNCTIONS f \<noteq> None" using assms(2) by (auto simp: arity_ok_def split: option.splits)
  have "\<exists>n. parse (Suc n) G_primary (ts @ rest) = Some r"
  proof (cases args)
    case Nil
    then obtain k where "us = [k]" "lexeme_of k = LPunct '')''" using us by (auto simp: map_eq_Cons_conv)
    then show ?thesis using ts known r Nil assms(2) finish_call_ok [of f "[]"] by (simp add: acceptPunct_lexeme)
  next
    case (Cons b bs)
    have "us \<noteq> []" "lexeme_of (hd us) \<noteq> LPunct '')''"
    proof -
      obtain r where "map lexeme_of us = lexemes 0 b @ r"
        using us commas_Cons [of "lexemes 0 b" "map (lexemes 0) bs"] by (auto simp: Cons)
      moreover from this show "us \<noteq> []" using lexemes_head [of 0 b] by auto
      ultimately have "lexeme_of (hd us) = hd (lexemes 0 b)"
        using lexemes_head [of 0 b] by (metis hd_append2 hd_map)
      then show "lexeme_of (hd us) \<noteq> LPunct '')''" using lexemes_head [of 0 b] by simp
    qed
    moreover obtain n where "parse n (G_args f []) (us @ rest) = Some (Inr (Call f args, rest))"
      using parses_args [OF us _ assms(1), of f "[]"] assms(2) Cons unfolding parses_def by auto
    ultimately show ?thesis
      using ts known r by (intro exI [of _ n]) (cases us; simp add: acceptPunct_lexeme)
  qed
  then have "parses G_primary (ts @ rest) r" unfolding parses_def by blast
  then show "parses (goal_at 8) (ts @ rest) r" by (simp add: goal_at_def)
qed

lemma reads_levels:
  assumes "reads p a" "p \<le> 8" "no_sign (lexemes 7 a)" "l \<le> 8"
    and low: "\<And>k. k < p \<Longrightarrow> lexemes k a = lexemes (Suc k) a"
    and high: "\<And>k. \<lbrakk>p < k; k \<le> 8\<rbrakk> \<Longrightarrow> lexemes k a = parens True (lexemes 0 a)"
  shows "reads l a"
proof -
  have down: "reads k a" if "k \<le> p" for k
    using that assms(1)
  proof (induction rule: inc_induct)
    case (step n)
    then show ?case using reads_descend low assms(2,3) by simp
  qed simp
  show ?thesis
  proof (cases "l \<le> p")
    case False
    then have "reads 8 a" using reads_parens [OF down] high assms(2,4) by simp
    with assms(4) False show ?thesis
    proof (induction rule: inc_induct)
      case (step n)
      then show ?case using reads_descend [of n a] high assms(3) by simp
    qed simp
  qed (rule down)
qed

lemma reads_all: "spelled num a \<Longrightarrow> l \<le> 8 \<Longrightarrow> reads l a"
proof (induction a arbitrary: l)
  case (Literal v)
  show ?case
    by (rule reads_levels [of 8]) (use Literal lexemes_no_sign [OF Literal.prems(1), of 7] reads_leaf(1) in simp_all)
next
  case (Variable x)
  show ?case
    by (rule reads_levels [of 8]) (use Variable lexemes_no_sign [OF Variable.prems(1), of 7] reads_leaf(2) in simp_all)
next
  case (Unary u a)
  show ?case
    by (rule reads_levels [of 6])
      (use Unary lexemes_no_sign [OF Unary.prems(1), of 7] reads_unary in \<open>simp_all add: parens_def\<close>)
next
  case (Binary b x y)
  have own: "reads (op_level b) (Binary b x y)"
  proof (cases "b = Op_pow")
    case False
    then have "op_level b \<le> 5" using op_lexeme_level(1) by (simp add: loop_level_def)
    with False Binary show ?thesis by (intro reads_binary) simp_all
  qed (use Binary reads_pow in simp)
  have "op_level b \<le> 7" by (cases b) simp_all
  then show ?case
    by (intro reads_levels [OF own])
      (use Binary.prems lexemes_no_sign [OF Binary.prems(1), of 7] in \<open>simp_all add: parens_def\<close>)
next
  case (Ternary c t f)
  show ?case
    by (rule reads_levels [of 0])
      (use Ternary lexemes_no_sign [OF Ternary.prems(1), of 7] reads_ternary in \<open>simp_all add: parens_def\<close>)
next
  case (Call f args)
  then have own: "reads 8 (Call f args)" by (intro reads_call) (simp_all add: list_all_iff)
  show ?case
    by (rule reads_levels [OF own]) (use lexemes_no_sign [OF Call.prems(1), of 7] Call.prems(2) in simp_all)
qed

lemma parse_lexemes:
  assumes "spelled num a" "map lexeme_of ts = lexemes 0 a @ [LEof]"
  shows "parse_formula ts = Some (Inr a)"
proof -
  obtain us t where ts: "ts = us @ [t]" "map lexeme_of us = lexemes 0 a" "lexeme_of t = LEof"
    by (rule map_split [OF assms(2)]) auto
  have "parses (goal_at 0) (us @ [t]) (Inr (a, [t]))"
    using readsD [OF reads_all [OF assms(1)] ts(2), of "[t]"] ts(3) by simp
  then have "parse (parse_fuel ts) G_ternary ts = Some (Inr (a, [t]))"
    using ts(1) by (intro parses_fuel) (simp add: goal_at_def)
  then show ?thesis using ts(3) by (cases t) (simp_all add: parse_formula_def peek_def)
qed

end
