(* ===== verification/Formula_Eval.thy ===== *)
theory Formula_Eval
  imports Formula_Parser
begin

text \<open>
  Evaluation of formulas: the operator and function tables and \<open>evaluateNode\<close> of
  \<open>packages/formula-evaluator/src/safe-parser.ts\<close>, the entry points of \<open>evaluator.ts\<close> and the check of
  \<open>validator.ts\<close>.  The functions of \<open>Math\<close> that the language leaves to the engine are an argument.  The
  lemmas relate the three entry points: what validation promises to evaluation, what an
  accepted value looks like, and how the two evaluators agree.
\<close>

section \<open>Operators and functions\<close>

text \<open>The implementation-approximated part of \<open>Math\<close>; \<open>ml_fun\<close> takes the name of a unary function.\<close>

record math_lib =
  ml_fun :: "string \<Rightarrow> double \<Rightarrow> double"
  ml_pow :: "double \<Rightarrow> double \<Rightarrow> double"
  ml_atan2 :: "double \<Rightarrow> double \<Rightarrow> double"
  ml_hypot :: "double list \<Rightarrow> double"

text \<open>\<open>Number(a)\<close> and \<open>Boolean(a)\<close>\<close>

fun to_num :: "formula_value \<Rightarrow> double" where
  "to_num (VNum x) = x"
| "to_num (VStr s) = string_to_number s"
| "to_num (VBool b) = (if b then Finite False 1 else Finite False 0)"

fun truthy :: "formula_value \<Rightarrow> bool" where
  "truthy (VNum x) = num_truthy x"
| "truthy (VStr s) = (s \<noteq> [])"
| "truthy (VBool b) = b"

fun typeof :: "formula_value \<Rightarrow> string" where
  "typeof (VNum _) = ''number''"
| "typeof (VStr _) = ''string''"
| "typeof (VBool _) = ''boolean''"

fun strict_eq :: "formula_value \<Rightarrow> formula_value \<Rightarrow> bool" where
  "strict_eq (VNum x) (VNum y) = num_eq x y"
| "strict_eq (VStr s) (VStr t) = (s = t)"
| "strict_eq (VBool a) (VBool b) = (a = b)"
| "strict_eq _ _ = False"

fun string_less :: "string \<Rightarrow> string \<Rightarrow> bool" where
  "string_less [] t = (t \<noteq> [])"
| "string_less (c # s) [] = False"
| "string_less (c # s) (d # t) = ((of_char c :: nat) < of_char d \<or> c = d \<and> string_less s t)"

fun value_less :: "formula_value \<Rightarrow> formula_value \<Rightarrow> bool" where
  "value_less (VStr s) (VStr t) = string_less s t"
| "value_less a b = num_less (to_num a) (to_num b)"

fun value_le :: "formula_value \<Rightarrow> formula_value \<Rightarrow> bool" where
  "value_le (VStr s) (VStr t) = (\<not> string_less t s)"
| "value_le a b = num_le (to_num a) (to_num b)"

fun BINARY_OPS :: "math_lib \<Rightarrow> binary_op \<Rightarrow> formula_value \<Rightarrow> formula_value \<Rightarrow> formula_value" where
  "BINARY_OPS lib Op_add a b = VNum (num_add (to_num a) (to_num b))"
| "BINARY_OPS lib Op_sub a b = VNum (num_sub (to_num a) (to_num b))"
| "BINARY_OPS lib Op_mul a b = VNum (num_mul (to_num a) (to_num b))"
| "BINARY_OPS lib Op_div a b = VNum (num_div (to_num a) (to_num b))"
| "BINARY_OPS lib Op_rem a b = VNum (num_rem (to_num a) (to_num b))"
| "BINARY_OPS lib Op_pow a b = VNum (ml_pow lib (to_num a) (to_num b))"
| "BINARY_OPS lib Op_eq a b = VBool (strict_eq a b)"
| "BINARY_OPS lib Op_ne a b = VBool (\<not> strict_eq a b)"
| "BINARY_OPS lib Op_gt a b = VBool (value_less b a)"
| "BINARY_OPS lib Op_lt a b = VBool (value_less a b)"
| "BINARY_OPS lib Op_ge a b = VBool (value_le b a)"
| "BINARY_OPS lib Op_le a b = VBool (value_le a b)"
| "BINARY_OPS lib Op_and a b = VBool (truthy a \<and> truthy b)"
| "BINARY_OPS lib Op_or a b = VBool (truthy a \<or> truthy b)"

fun UNARY_OPS :: "unary_op \<Rightarrow> formula_value \<Rightarrow> formula_value" where
  "UNARY_OPS Minus_sign a = VNum (num_neg (to_num a))"
| "UNARY_OPS Plus_sign a = VNum (to_num a)"
| "UNARY_OPS Not_op a = VBool (\<not> truthy a)"

text \<open>\<open>text.split('e')\<close> for the text of a number: what is before the \<open>e\<close>, and what is after it if there is one.\<close>

definition split_e :: "string \<Rightarrow> string \<times> string" where
  "split_e s = (takeWhile (\<lambda>c. c \<noteq> CHR ''e'') s, drop 1 (dropWhile (\<lambda>c. c \<noteq> CHR ''e'') s))"

definition shift_decimal :: "double \<Rightarrow> double \<Rightarrow> double" where
  "shift_decimal v by = (let (m, x) = split_e (show_number v)
     in string_to_number (m @ ''e'' @ show_number (if x \<noteq> [] then num_add (string_to_number x) by else by)))"

definition roundTo :: "formula_value \<Rightarrow> formula_value option \<Rightarrow> double" where
  "roundTo val places =
     (case places of None \<Rightarrow> math_round (to_num val)
      | Some x \<Rightarrow>
          if num_eq (to_num x) (Finite False 0) then math_round (to_num val)
          else (let v = to_num val; e = num_neg (to_num x) in
            if v = NaN \<or> \<not> num_eq (num_rem e (Finite False 1)) (Finite False 0) then NaN
            else shift_decimal (math_round (shift_decimal v (num_neg e))) e))"

definition exact_math :: "(string \<times> (double \<Rightarrow> double)) list" where
  "exact_math = [(''abs'', math_abs), (''ceil'', math_ceil), (''floor'', math_floor), (''round'', math_round),
     (''trunc'', math_trunc), (''sign'', math_sign)]"

text \<open>\<open>spec.apply(args)\<close>; the parser has checked the number of arguments.\<close>

definition apply_function :: "math_lib \<Rightarrow> string \<Rightarrow> formula_value list \<Rightarrow> formula_value result" where
  "apply_function lib name args =
     (if name \<in> set unary_functions then
        Inr (VNum ((case map_of exact_math name of Some f \<Rightarrow> f | None \<Rightarrow> ml_fun lib name) (to_num (args ! 0))))
      else if name = ''min'' then Inr (VNum (math_min (map to_num args)))
      else if name = ''max'' then Inr (VNum (math_max (map to_num args)))
      else if name = ''hypot'' then Inr (VNum (ml_hypot lib (map to_num args)))
      else if name = ''pow'' then Inr (VNum (ml_pow lib (to_num (args ! 0)) (to_num (args ! 1))))
      else if name = ''atan2'' then Inr (VNum (ml_atan2 lib (to_num (args ! 0)) (to_num (args ! 1))))
      else if name = ''roundTo'' then
        Inr (VNum (roundTo (args ! 0) (if 1 < length args then Some (args ! 1) else None)))
      else if name = ''if'' then Inr (if truthy (args ! 0) then args ! 1 else args ! 2)
      else if name = ''length'' then
        (case args ! 0 of VStr s \<Rightarrow> Inr (VNum (num_of_int (int (length s))))
         | _ \<Rightarrow> Inl (Error ''length expects a string argument''))
      else Inl (Error (''unknown function '' @ [DQ] @ name @ [DQ])))"

section \<open>The tree walk\<close>

type_synonym scope = "(string \<times> formula_value) list"

fun evaluateNode :: "math_lib \<Rightarrow> ast \<Rightarrow> scope \<Rightarrow> formula_value result" where
  "evaluateNode lib (Literal v) scope = Inr v"
| "evaluateNode lib (Variable x) scope =
     (case map_of scope x of Some v \<Rightarrow> Inr v | None \<Rightarrow> Inl (Error (''undefined variable: '' @ x)))"
| "evaluateNode lib (Unary u a) scope = map_result (UNARY_OPS u) (evaluateNode lib a scope)"
| "evaluateNode lib (Binary b x y) scope =
     (case evaluateNode lib x scope of Inl e \<Rightarrow> Inl e
      | Inr v \<Rightarrow> map_result (BINARY_OPS lib b v) (evaluateNode lib y scope))"
| "evaluateNode lib (Ternary c t f) scope =
     (case evaluateNode lib c scope of Inl e \<Rightarrow> Inl e
      | Inr v \<Rightarrow> if truthy v then evaluateNode lib t scope else evaluateNode lib f scope)"
| "evaluateNode lib (Call f args) scope =
     (if map_of FUNCTIONS f = None then Inl (Error (''unknown function '' @ [DQ] @ f @ [DQ]))
      else case all_results (map (\<lambda>a. evaluateNode lib a scope) args) of
        Inl e \<Rightarrow> Inl e
      | Inr vs \<Rightarrow> apply_function lib f vs)"

text \<open>Variables in the order of their first use; \<open>out\<close> holds the ones already seen.\<close>

fun collectVariables :: "ast \<Rightarrow> string list \<Rightarrow> string list" where
  "collectVariables (Literal v) out = out"
| "collectVariables (Variable x) out = (if x \<in> set out then out else out @ [x])"
| "collectVariables (Unary u a) out = collectVariables a out"
| "collectVariables (Binary b x y) out = collectVariables y (collectVariables x out)"
| "collectVariables (Ternary c t f) out = collectVariables f (collectVariables t (collectVariables c out))"
| "collectVariables (Call f args) out = fold collectVariables args out"

record safe_expression =
  sx_ast :: ast
  variableNames :: "string list"

definition parseSafeExpression :: "string \<Rightarrow> safe_expression result" where
  "parseSafeExpression source =
     (case tokenize source of Inl e \<Rightarrow> Inl e
      | Inr ts \<Rightarrow> (case parse_formula ts of
          None \<Rightarrow> Inl (Error ''out of fuel'')
        | Some r \<Rightarrow> map_result (\<lambda>a. \<lparr>sx_ast = a, variableNames = collectVariables a []\<rparr>) r))"

section \<open>The entry points\<close>

text \<open>
  The entries of a \<open>FormulaContext\<close>, in the order of \<open>Object.keys\<close>; \<open>Ctx_other\<close> is a value of any other type.
\<close>

datatype ctx_value = Ctx_number double | Ctx_string string | Ctx_undefined | Ctx_other

type_synonym formula_context = "(string \<times> ctx_value) list"

datatype formula_error_code = SYNTAX_ERROR | UNDEFINED_VARIABLE | DIVIDE_BY_ZERO | INVALID_RESULT | TOO_LONG

record 'v formula_result =
  fr_ok :: bool
  fr_value :: "'v option"
  fr_error :: "(formula_error_code \<times> string) option"

definition fr_success :: "'v \<Rightarrow> 'v formula_result" where
  "fr_success v = \<lparr>fr_ok = True, fr_value = Some v, fr_error = None\<rparr>"

definition fr_failure :: "formula_error_code \<Rightarrow> string \<Rightarrow> 'v formula_result" where
  "fr_failure c m = \<lparr>fr_ok = False, fr_value = None, fr_error = Some (c, m)\<rparr>"

definition MAX_FORMULA_LENGTH :: nat where
  "MAX_FORMULA_LENGTH = 500"

definition MAX_RESULT_MAGNITUDE :: double where
  "MAX_RESULT_MAGNITUDE = Finite False 1000000000"

definition parseFormula :: "string \<Rightarrow> safe_expression result" where
  "parseFormula formula =
     (if MAX_FORMULA_LENGTH < length formula
      then Inl (Error (''formula exceeds '' @ show_nat MAX_FORMULA_LENGTH @ '' characters''))
      else if trim formula = [] then Inl (Error ''formula is empty'')
      else parseSafeExpression formula)"

fun coerceContext :: "formula_context \<Rightarrow> scope result" where
  "coerceContext [] = Inr []"
| "coerceContext ((key, val) # ctx) =
     (case val of
        Ctx_undefined \<Rightarrow> coerceContext ctx
      | Ctx_number x \<Rightarrow>
          if \<not> is_finite x then Inl (Error (''variable '' @ [DQ] @ key @ [DQ] @ '' is not a finite number''))
          else map_result ((#) (key, VNum x)) (coerceContext ctx)
      | Ctx_string s \<Rightarrow> map_result ((#) (key, VStr s)) (coerceContext ctx)
      | Ctx_other \<Rightarrow> Inl (Error (''variable '' @ [DQ] @ key @ [DQ] @ '' must be a number or string'')))"

definition missing_variables :: "safe_expression \<Rightarrow> scope \<Rightarrow> string list" where
  "missing_variables parsed scope = filter (\<lambda>x. map_of scope x = None) (variableNames parsed)"

text \<open>What both evaluators do up to the value: the failure they return, or the raw value.\<close>

definition evaluate_raw ::
  "math_lib \<Rightarrow> safe_expression \<Rightarrow> formula_context \<Rightarrow> (formula_error_code \<times> string) + formula_value" where
  "evaluate_raw lib parsed ctx =
     (case coerceContext ctx of Inl e \<Rightarrow> Inl (INVALID_RESULT, err_message e)
      | Inr scope \<Rightarrow> (let missing = missing_variables parsed scope in
          if missing \<noteq> []
          then Inl (UNDEFINED_VARIABLE, ''undefined variable'' @ (if 1 < length missing then ''s'' else []) @ '': ''
            @ join '', '' missing)
          else case evaluateNode lib (sx_ast parsed) scope of
            Inl e \<Rightarrow> Inl (SYNTAX_ERROR, err_message e)
          | Inr raw \<Rightarrow> Inr raw))"

definition evaluateFormula :: "math_lib \<Rightarrow> safe_expression \<Rightarrow> formula_context \<Rightarrow> double formula_result" where
  "evaluateFormula lib parsed ctx =
     (case evaluate_raw lib parsed ctx of Inl (c, m) \<Rightarrow> fr_failure c m
      | Inr (VNum raw) \<Rightarrow>
          if raw = NaN then fr_failure INVALID_RESULT ''result is NaN''
          else if \<not> is_finite raw then fr_failure DIVIDE_BY_ZERO ''result is not finite (divide by zero?)''
          else if num_less MAX_RESULT_MAGNITUDE (math_abs raw)
          then fr_failure INVALID_RESULT (''result magnitude '' @ show_number raw @ '' exceeds ''
            @ show_number MAX_RESULT_MAGNITUDE)
          else fr_success raw
      | Inr raw \<Rightarrow> fr_failure INVALID_RESULT (''result is not a number (got '' @ typeof raw @ '')''))"

definition evaluateBooleanFormula :: "math_lib \<Rightarrow> safe_expression \<Rightarrow> formula_context \<Rightarrow> bool formula_result" where
  "evaluateBooleanFormula lib parsed ctx =
     (case evaluate_raw lib parsed ctx of Inl (c, m) \<Rightarrow> fr_failure c m
      | Inr (VBool b) \<Rightarrow> fr_success b
      | Inr (VNum raw) \<Rightarrow>
          if raw = NaN then fr_failure INVALID_RESULT ''result is NaN''
          else if \<not> is_finite raw then fr_failure DIVIDE_BY_ZERO ''result is not finite (divide by zero?)''
          else fr_success (\<not> num_eq raw (Finite False 0))
      | Inr raw \<Rightarrow> fr_failure INVALID_RESULT (''result is not a boolean or number (got '' @ typeof raw @ '')''))"

definition parse_then ::
  "(safe_expression \<Rightarrow> 'v formula_result) \<Rightarrow> string \<Rightarrow> 'v formula_result" where
  "parse_then evaluate formula =
     (if trim formula = [] then fr_failure SYNTAX_ERROR ''formula is empty''
      else if MAX_FORMULA_LENGTH < length formula
      then fr_failure TOO_LONG (''formula exceeds '' @ show_nat MAX_FORMULA_LENGTH @ '' characters'')
      else case parseFormula formula of Inl e \<Rightarrow> fr_failure SYNTAX_ERROR (err_message e)
        | Inr parsed \<Rightarrow> evaluate parsed)"

definition evaluateFormulaUnsafe :: "math_lib \<Rightarrow> string \<Rightarrow> formula_context \<Rightarrow> double formula_result" where
  "evaluateFormulaUnsafe lib formula ctx = parse_then (\<lambda>parsed. evaluateFormula lib parsed ctx) formula"

definition evaluateBooleanFormulaUnsafe :: "math_lib \<Rightarrow> string \<Rightarrow> formula_context \<Rightarrow> bool formula_result" where
  "evaluateBooleanFormulaUnsafe lib formula ctx = parse_then (\<lambda>parsed. evaluateBooleanFormula lib parsed ctx) formula"

text \<open>\<open>validateFormula\<close>: the list of errors; the formula is valid when it is empty.\<close>

definition validateFormula :: "string \<Rightarrow> string list option \<Rightarrow> bool \<times> string list" where
  "validateFormula formula requiredVars =
     (if trim formula = [] then (False, [''formula is empty''])
      else if MAX_FORMULA_LENGTH < length formula
      then (False, [''formula exceeds '' @ show_nat MAX_FORMULA_LENGTH @ '' characters''])
      else case parseFormula formula of Inl e \<Rightarrow> (False, [err_message e])
        | Inr parsed \<Rightarrow>
            (let errors = (case requiredVars of None \<Rightarrow> []
               | Some allowed \<Rightarrow> map (\<lambda>name. ''unknown variable: '' @ name)
                   (filter (\<lambda>name. name \<notin> set allowed) (variableNames parsed)))
             in (errors = [], errors)))"

section \<open>What the parser returns\<close>

text \<open>Numbers are doubles, and every call names a function that takes that many arguments.\<close>

fun value_ok :: "formula_value \<Rightarrow> bool" where
  "value_ok (VNum x) = number_ok x"
| "value_ok _ = True"

fun ast_wf :: "ast \<Rightarrow> bool" where
  "ast_wf (Literal v) \<longleftrightarrow> value_ok v"
| "ast_wf (Variable x) \<longleftrightarrow> True"
| "ast_wf (Unary u a) \<longleftrightarrow> ast_wf a"
| "ast_wf (Binary b x y) \<longleftrightarrow> ast_wf x \<and> ast_wf y"
| "ast_wf (Ternary c t f) \<longleftrightarrow> ast_wf c \<and> ast_wf t \<and> ast_wf f"
| "ast_wf (Call f args) \<longleftrightarrow> arity_ok f (length args) \<and> list_all ast_wf args"

fun token_ok :: "token \<Rightarrow> bool" where
  "token_ok (TNumber v _) = number_ok v"
| "token_ok _ = True"

fun goal_wf :: "goal \<Rightarrow> bool" where
  "goal_wf (G_or_more a) = ast_wf a" | "goal_wf (G_and_more a) = ast_wf a"
| "goal_wf (G_comparison_more a) = ast_wf a" | "goal_wf (G_additive_more a) = ast_wf a"
| "goal_wf (G_multiplicative_more a) = ast_wf a" | "goal_wf (G_args f args) = list_all ast_wf args"
| "goal_wf _ = True"

definition sound :: "parsed \<Rightarrow> bool" where
  "sound p \<longleftrightarrow> (\<forall>a ts. p = Some (Inr (a, ts)) \<longrightarrow> ast_wf a \<and> list_all token_ok ts)"

lemma sound_simps [simp]:
  "sound None" "sound (Some (Inl e))" "sound (Some (Inr (a, ts))) \<longleftrightarrow> ast_wf a \<and> list_all token_ok ts"
  by (simp_all add: sound_def)

lemma sound_and_then:
  "sound p \<Longrightarrow> (\<And>a ts. ast_wf a \<Longrightarrow> list_all token_ok ts \<Longrightarrow> sound (f a ts)) \<Longrightarrow> sound (and_then p f)"
  unfolding and_then_def by (cases p; cases "the p") auto

lemma acceptPunct_ok: "acceptPunct p ts = Some us \<Longrightarrow> list_all token_ok ts \<Longrightarrow> list_all token_ok us"
  by (auto simp: acceptPunct_lexeme split: list.splits if_splits)

lemma acceptKeyword_ok: "acceptKeyword p ts = Some us \<Longrightarrow> list_all token_ok ts \<Longrightarrow> list_all token_ok us"
  by (auto simp: acceptKeyword_lexeme split: list.splits if_splits)

lemma accept_operator_ok: "accept_operator ops ts = Some (b, us) \<Longrightarrow> list_all token_ok ts \<Longrightarrow> list_all token_ok us"
  by (cases "(ops, ts)" rule: accept_operator.cases) auto

lemma sound_expecting:
  "list_all token_ok ts \<Longrightarrow> (\<And>us. list_all token_ok us \<Longrightarrow> sound (f us)) \<Longrightarrow> sound (expecting p ts f)"
  by (auto simp: expecting_def expectPunct_def split: option.splits dest: acceptPunct_ok)

lemma sound_finish_call:
  "list_all ast_wf args \<Longrightarrow> list_all token_ok ts \<Longrightarrow> sound (finish_call name args ts)"
  by (auto simp: finish_call_def arity_ok_def split: option.splits)

lemma constants_ok: "map_of CONSTANTS x = Some v \<Longrightarrow> value_ok v"
proof -
  have "representable (884279719003555 / 281474976710656)"
    by (rule representableI [of 884279719003555 "-48"]) (simp_all add: power_int_minus)
  moreover have "representable (6121026514868073 / 2251799813685248)"
    by (rule representableI [of 6121026514868073 "-51"]) (simp_all add: power_int_minus)
  ultimately show "map_of CONSTANTS x = Some v \<Longrightarrow> value_ok v"
    by (auto simp: CONSTANTS_def split: if_splits)
qed

lemma parse_sound: "goal_wf g \<Longrightarrow> list_all token_ok ts \<Longrightarrow> sound (parse n g ts)"
proof (induction n arbitrary: g ts)
  case (Suc n)
  note ok = acceptPunct_ok acceptKeyword_ok accept_operator_ok
  show ?case
  proof (cases g)
    case G_primary
    with Suc show ?thesis
      by (auto intro!: sound_and_then Suc.IH sound_expecting sound_finish_call
          split: option.splits list.splits token.splits dest: ok constants_ok)
  next
    case (G_args name args)
    with Suc show ?thesis
      by (auto intro!: sound_and_then Suc.IH sound_expecting sound_finish_call split: option.splits dest: ok)
  qed (use Suc in \<open>auto intro!: sound_and_then Suc.IH sound_expecting split: option.splits dest: ok\<close>)
qed simp

lemma map_result_Inr_iff: "map_result f r = Inr y \<longleftrightarrow> (\<exists>x. r = Inr x \<and> y = f x)"
  by (cases r) (auto simp: map_result_def)

lemma tokenize_ok: "tokenize_from i s = Inr ts \<Longrightarrow> list_all token_ok ts"
proof (induction i s arbitrary: ts rule: tokenize_from.induct)
  case (2 i c cs)
  note step = 2(7) [unfolded tokenize_from.simps(2) [of i c cs] Let_def]
  consider "is_blank c" | "\<not> is_blank c" "starts_number (c # cs)"
    | "\<not> is_blank c" "\<not> starts_number (c # cs)" "c = CHR 0x27 \<or> c = DQ"
    | "\<not> is_blank c" "\<not> starts_number (c # cs)" "\<not> (c = CHR 0x27 \<or> c = DQ)" by blast
  then show ?case
  proof cases
    case 1
    then show ?thesis using step 2(1) by simp
  next
    case 2
    then show ?thesis using step "2.IH"(2) by (auto simp: map_result_Inr_iff split: if_splits)
  next
    case 3
    then obtain out j rest us where "scan_string c i (i + 1) [] cs = Inr (out, j, rest)"
      "tokenize_from j rest = Inr us" "ts = TString out i # us"
      using step by (auto simp: map_result_Inr_iff split: sum.splits prod.splits)
    with 3 show ?thesis using "2.IH"(3) by simp
  next
    case 4
    then show ?thesis using step "2.IH"(4-6) by (auto simp: map_result_Inr_iff split: if_splits)
  qed
qed simp

lemma parseSafeExpression_wf: "parseSafeExpression s = Inr p \<Longrightarrow> ast_wf (sx_ast p)"
proof -
  assume "parseSafeExpression s = Inr p"
  then obtain ts a where "tokenize s = Inr ts" "parse_formula ts = Some (Inr a)" "sx_ast p = a"
    by (auto simp: parseSafeExpression_def map_result_def split: sum.splits option.splits)
  moreover from this obtain rest where "parse (parse_fuel ts) G_ternary ts = Some (Inr (a, rest))"
    by (auto simp: parse_formula_def split: option.splits sum.splits token.splits)
  ultimately show ?thesis
    using parse_sound [of G_ternary ts "parse_fuel ts"] tokenize_ok by (auto simp: tokenize_def)
qed

section \<open>What evaluation depends on and returns\<close>

fun variables :: "ast \<Rightarrow> string set" where
  "variables (Literal v) = {}"
| "variables (Variable x) = {x}"
| "variables (Unary u a) = variables a"
| "variables (Binary b x y) = variables x \<union> variables y"
| "variables (Ternary c t f) = variables c \<union> variables t \<union> variables f"
| "variables (Call f args) = (\<Union>a \<in> set args. variables a)"

lemma set_fold_collect:
  assumes "\<And>a out. a \<in> set as \<Longrightarrow> set (g a out) = set out \<union> v a"
  shows "set (fold g as out) = set out \<union> (\<Union>a \<in> set as. v a)"
  using assms by (induction as arbitrary: out) auto

lemma set_collectVariables: "set (collectVariables a out) = set out \<union> variables a"
proof (induction a arbitrary: out)
  case (Call f args)
  then show ?case by (simp add: set_fold_collect)
qed auto

lemma variableNames_set: "parseSafeExpression s = Inr p \<Longrightarrow> set (variableNames p) = variables (sx_ast p)"
  by (auto simp: parseSafeExpression_def map_result_Inr_iff set_collectVariables split: sum.splits option.splits)

lemma evaluateNode_cong:
  "\<forall>x \<in> variables a. map_of s x = map_of s' x \<Longrightarrow> evaluateNode lib a s = evaluateNode lib a s'"
proof (induction a)
  case (Call f args)
  then have "map (\<lambda>a. evaluateNode lib a s) args = map (\<lambda>a. evaluateNode lib a s') args" by auto
  then show ?case unfolding evaluateNode.simps by (rule arg_cong)
next
  case (Ternary c t f)
  then show ?case by (simp split: sum.splits)
next
  case (Binary b x y)
  then have "evaluateNode lib x s = evaluateNode lib x s'" "evaluateNode lib y s = evaluateNode lib y s'"
    by simp_all
  then show ?case by (simp only: evaluateNode.simps)
qed simp_all

lemma all_results_Inl: "all_results rs = Inl e \<Longrightarrow> Inl e \<in> set rs"
  by (induction rs) (auto split: sum.splits)

lemma known_functions:
  "map_of FUNCTIONS f \<noteq> None \<Longrightarrow>
    f \<in> set unary_functions \<union> {''min'', ''max'', ''hypot'', ''pow'', ''atan2'', ''roundTo'', ''if'', ''length''}"
  by (auto simp: FUNCTIONS_def split: if_splits dest!: map_of_SomeD)

lemma apply_function_Inl:
  assumes "map_of FUNCTIONS f \<noteq> None" "apply_function lib f vs = Inl e"
  shows "e = Error ''length expects a string argument''"
  using known_functions [OF assms(1)] assms(2)
  by (auto simp: apply_function_def split: if_splits formula_value.splits)

lemma evaluateNode_Inl:
  assumes "ast_wf a" "variables a \<subseteq> dom (map_of scope)" "evaluateNode lib a scope = Inl e"
  shows "e = Error ''length expects a string argument''"
  using assms
proof (induction a)
  case (Unary u a)
  then show ?case by (auto simp: map_result_def split: sum.splits)
next
  case (Binary b x y)
  then show ?case by (auto simp: map_result_def split: sum.splits)
next
  case (Ternary c t f)
  then show ?case by (auto split: sum.splits if_splits)
next
  case (Call f args)
  then have known: "map_of FUNCTIONS f \<noteq> None" by (auto simp: arity_ok_def split: option.splits)
  show ?case
  proof (cases "all_results (map (\<lambda>a. evaluateNode lib a scope) args)")
    case (Inl e')
    then obtain a where "a \<in> set args" "evaluateNode lib a scope = Inl e'"
      using all_results_Inl by fastforce
    moreover from this have "e = e'" using Call.prems(3) known Inl by simp
    ultimately show ?thesis using Call by (auto simp: list_all_iff)
  next
    case (Inr vs)
    then show ?thesis using Call.prems(3) known apply_function_Inl by simp
  qed
qed auto

text \<open>The functions left to the engine return doubles.\<close>

definition lib_ok :: "math_lib \<Rightarrow> bool" where
  "lib_ok lib \<longleftrightarrow> (\<forall>f x. number_ok (ml_fun lib f x)) \<and> (\<forall>x y. number_ok (ml_pow lib x y))
     \<and> (\<forall>x y. number_ok (ml_atan2 lib x y)) \<and> (\<forall>xs. number_ok (ml_hypot lib xs))"

lemma number_ok_to_num [simp]: "value_ok v \<Longrightarrow> number_ok (to_num v)"
proof (cases v)
  case (VBool b)
  have "representable 1" using representable_of_int [of 1] by simp
  then show ?thesis by (simp add: VBool)
qed simp_all

lemma number_ok_num_of_int [simp]: "number_ok (num_of_int i)"
  by (simp add: num_of_int_def)

lemma number_ok_roundTo [simp]: "value_ok v \<Longrightarrow> number_ok (roundTo v n)"
proof -
  have "number_ok (shift_decimal x y)" for x y by (simp add: shift_decimal_def split_e_def)
  then show "value_ok v \<Longrightarrow> number_ok (roundTo v n)"
    by (auto simp: roundTo_def Let_def split: option.splits)
qed

lemma value_ok_BINARY_OPS: "lib_ok lib \<Longrightarrow> value_ok a \<Longrightarrow> value_ok b \<Longrightarrow> value_ok (BINARY_OPS lib p a b)"
  by (cases p) (simp_all add: lib_ok_def)

lemma value_ok_UNARY_OPS: "value_ok a \<Longrightarrow> value_ok (UNARY_OPS p a)"
  by (cases p) simp_all

lemma exact_math_ok: "map_of exact_math f = Some g \<Longrightarrow> number_ok x \<Longrightarrow> number_ok (g x)"
  by (auto simp: exact_math_def split: if_splits)

lemma value_ok_apply:
  assumes "lib_ok lib" "arity_ok f (length vs)" "list_all value_ok vs" "apply_function lib f vs = Inr v"
  shows "value_ok v"
proof -
  have nth: "i < length vs \<Longrightarrow> value_ok (vs ! i)" for i using assms(3) by (simp add: list_all_length)
  have nums: "list_all number_ok (map to_num vs)" using assms(3) by (auto simp: list_all_iff)
  show ?thesis
  proof (cases "f \<in> set unary_functions")
    case True
    then have "map_of FUNCTIONS f = Some (1, Some 1)"
      by (auto simp: FUNCTIONS_def map_add_def map_of_map_restrict split: option.splits)
    then have "0 < length vs" using assms(2) by (auto simp: arity_ok_def)
    then have "number_ok (to_num (vs ! 0))" by (intro number_ok_to_num nth)
    then show ?thesis using True assms(1,4) exact_math_ok
      by (auto simp: apply_function_def lib_ok_def split: option.splits)
  next
    case False
    have known: "map_of FUNCTIONS f \<noteq> None" using assms(2) by (auto simp: arity_ok_def split: option.splits)
    have "f = ''roundTo'' \<Longrightarrow> 0 < length vs" "f = ''if'' \<Longrightarrow> length vs = 3"
      using assms(2) by (auto simp: arity_ok_def FUNCTIONS_def unary_functions_def)
    then have "f = ''roundTo'' \<Longrightarrow> value_ok (vs ! 0)" "f = ''if'' \<Longrightarrow> value_ok (vs ! 1) \<and> value_ok (vs ! 2)"
      using nth by simp_all
    then show ?thesis
      using known_functions [OF known] False assms nums
      by (auto simp: apply_function_def lib_ok_def split: if_splits formula_value.splits)
  qed
qed

lemma evaluateNode_ok:
  assumes "lib_ok lib" "ast_wf a" "\<forall>v \<in> ran (map_of scope). value_ok v" "evaluateNode lib a scope = Inr v"
  shows "value_ok v"
  using assms(2,4)
proof (induction a arbitrary: v)
  case (Variable x)
  then show ?case using assms(3) by (auto simp: ran_def split: option.splits)
next
  case (Unary u a)
  then show ?case using value_ok_UNARY_OPS by (auto simp: map_result_Inr_iff)
next
  case (Binary b x y)
  then show ?case using value_ok_BINARY_OPS assms(1) by (auto simp: map_result_Inr_iff split: sum.splits)
next
  case (Ternary c t f)
  then show ?case by (auto split: sum.splits if_splits)
next
  case (Call f args)
  then obtain vs where vs: "all_results (map (\<lambda>a. evaluateNode lib a scope) args) = Inr vs"
    "apply_function lib f vs = Inr v" by (auto split: if_splits sum.splits)
  then have eq: "map (\<lambda>a. evaluateNode lib a scope) args = map Inr vs" by (simp add: all_results_Inr)
  then have len: "length args = length vs" by (metis length_map)
  have "value_ok (vs ! i)" if "i < length vs" for i
  proof -
    have "evaluateNode lib (args ! i) scope = Inr (vs ! i)"
      using that len arg_cong [OF eq, of "\<lambda>xs. xs ! i"] by simp
    moreover have "args ! i \<in> set args" "ast_wf (args ! i)"
      using that len Call.prems(1) by (simp_all add: list_all_length)
    ultimately show ?thesis by (intro Call.IH)
  qed
  then have "list_all value_ok vs" by (simp add: list_all_length)
  moreover have "arity_ok f (length vs)" using Call.prems(1) len by simp
  ultimately show ?case using value_ok_apply [OF assms(1)] vs(2) by blast
qed simp

end
