(* ===== verification/Formula_Results.thy ===== *)
theory Formula_Results
  imports Formula_Eval
begin

text \<open>
  What callers of \<open>packages/formula-evaluator\<close> rely on: printing and parsing are inverse, parsing
  always answers, an accepted value is a double of bounded magnitude, a formula that
  \<open>validateFormula\<close> accepts fails at evaluation only for its value, and the numeric and the boolean
  evaluator agree.
\<close>

section \<open>Printed formulas are well spelled\<close>

lemma punctuation_ok:
  "list_all (\<lambda>p. lexeme_ok num (LPunct p)) [''('', '')'', '','', ''?'', '':'', ''+'', ''-'', ''*'', ''/'', ''%'', ''^'',
     ''=='', ''!='', ''>'', ''<'', ''>='', ''<='']"
  by (simp add: punctuation_def TWO_CHAR_PUNCT_def ONE_CHAR_PUNCT_def)

lemmas punct_ok = punctuation_ok [unfolded list.pred_inject(2)]

lemma letters:
  "list_all isIdentPart ''abcdefghijklmnopqrstuvwxyzT0123456789''" "list_all isIdentStart ''abcdefghijklmnopqrstuvwxyz''"
  by (simp_all add: isIdentPart_def isIdentStart_def between_def is_digit_def)

lemmas letter = letters [unfolded list.pred_inject(2)]

lemma words_ok:
  "list_all ident_word [''or'', ''and'', ''not'', ''true'', ''false'']"
  by (simp add: ident_word_def letter)

lemma function_words: "list_all ident_word (map fst FUNCTIONS)"
proof -
  have "map fst FUNCTIONS
      = unary_functions @ [''min'', ''max'', ''hypot'', ''pow'', ''atan2'', ''roundTo'', ''if'', ''length'']"
    by (simp add: FUNCTIONS_def comp_def)
  then show ?thesis by (simp add: ident_word_def letter unary_functions_def)
qed

lemma function_word: "arity_ok f n \<Longrightarrow> ident_word f"
proof -
  assume "arity_ok f n"
  then have "f \<in> fst ` set FUNCTIONS"
    by (auto simp: arity_ok_def split: option.splits dest!: map_of_SomeD intro: rev_image_eqI)
  then show ?thesis using function_words unfolding list_all_iff set_map by blast
qed

lemma op_lexeme_ok: "lexeme_ok num (op_lexeme b)"
proof -
  have "ident_word ''or'' \<and> ident_word ''and''" using words_ok by simp
  then show ?thesis by (cases b) (simp_all add: op_lexeme_def punct_ok del: lexeme_ok.simps(3))
qed

lemma sign_lexeme_ok: "lexeme_ok num (sign_lexeme u)"
proof -
  have "ident_word ''not''" using words_ok by simp
  then show ?thesis by (cases u) (simp_all add: punct_ok del: lexeme_ok.simps(3))
qed

lemma parens_ok: "list_all (lexeme_ok num) ls \<Longrightarrow> list_all (lexeme_ok num) (parens b ls)"
  by (simp add: parens_def punct_ok del: lexeme_ok.simps(3))

lemma commas_ok: "list_all (list_all (lexeme_ok num)) lss \<Longrightarrow> list_all (lexeme_ok num) (commas lss)"
  by (induction lss rule: commas.induct) (simp_all add: punct_ok del: lexeme_ok.simps(3))

lemma lexemes_ok: "spelled num a \<Longrightarrow> list_all (lexeme_ok num) (lexemes l a)"
proof (induction a arbitrary: l)
  case (Literal v)
  have "ident_word ''true'' \<and> ident_word ''false''" using words_ok by simp
  with Literal show ?case by (cases v) simp_all
next
  case (Unary u a)
  then show ?case by (simp add: parens_ok sign_lexeme_ok)
next
  case (Binary b x y)
  then show ?case
    by (simp add: parens_ok op_lexeme_ok punct_ok del: lexeme_ok.simps(3))
next
  case (Ternary c t f)
  then show ?case by (simp add: parens_ok punct_ok del: lexeme_ok.simps(3))
next
  case (Call f args)
  then have "list_all (list_all (lexeme_ok num)) (map (lexemes 0) args)" by (simp add: list_all_iff)
  then have "list_all (lexeme_ok num) (commas (map (lexemes 0) args))" by (rule commas_ok)
  moreover have "ident_word f" using Call.prems function_word [of f "length args"] by simp
  ultimately show ?case by (simp add: punct_ok del: lexeme_ok.simps(3))
qed simp

text \<open>
  C37: A formula printed with no more parentheses than the precedences and associativities
  of the operators need (\<open>^\<close> binds tighter than a sign on its left, all other operators are
  left-associative, a conditional extends as far as possible) is read back as the same tree, with its variables in
  the order of their first use.
\<close>

theorem formula_roundtrip:
  assumes "spelled num a"
  shows "parseSafeExpression (lexemes_text num (lexemes 0 a))
     = Inr \<lparr>sx_ast = a, variableNames = collectVariables a []\<rparr>"
proof -
  obtain ts where "tokenize (lexemes_text num (lexemes 0 a)) = Inr ts"
    and ts: "map lexeme_of ts = lexemes 0 a @ [LEof]"
    using tokenize_lexemes [OF lexemes_ok [OF assms], where i = 0] unfolding tokenize_def by blast
  moreover have "parse_formula ts = Some (Inr a)" using assms ts by (rule parse_lexemes)
  ultimately show ?thesis by (simp add: parseSafeExpression_def)
qed

lemma formula_roundtrip_witness:
  "parseSafeExpression ''- x ^ - ( a + b ) * c ''
     = Inr \<lparr>sx_ast = Binary Op_mul (Unary Minus_sign (Binary Op_pow (Variable ''x'')
         (Unary Minus_sign (Binary Op_add (Variable ''a'') (Variable ''b''))))) (Variable ''c''),
         variableNames = [''x'', ''a'', ''b'', ''c'']\<rparr>"
proof -
  let ?a = "Binary Op_mul (Unary Minus_sign (Binary Op_pow (Variable ''x'')
         (Unary Minus_sign (Binary Op_add (Variable ''a'') (Variable ''b''))))) (Variable ''c'')"
  have "spelled (\<lambda>_. []) ?a"
    by (simp add: ident_word_def isIdentPart_def isIdentStart_def between_def is_digit_def CONSTANTS_def)
  then have "parseSafeExpression (lexemes_text (\<lambda>_. []) (lexemes 0 ?a))
     = Inr \<lparr>sx_ast = ?a, variableNames = collectVariables ?a []\<rparr>" by (rule formula_roundtrip)
  then show ?thesis by (simp add: lexemes_text_def parens_def op_lexeme_def)
qed

text \<open>
  C40: Parsing always answers: the fuel of the model's parser is never used up, and no more fuel
  changes what it answers.
\<close>

theorem formula_total:
  "\<exists>r. parse_formula ts = Some r \<and> (\<forall>k. parse (parse_fuel ts + k) G_ternary ts = parse (parse_fuel ts) G_ternary ts)"
proof -
  have "answers (if is_loop G_ternary then length ts else length ts - 1) (parse (parse_fuel ts) G_ternary ts)"
    by (rule parse_answers) (simp add: parse_fuel_def)
  then obtain r where r: "parse (parse_fuel ts) G_ternary ts = Some r" by (auto simp: answers_def)
  then have "parse (parse_fuel ts + k) G_ternary ts = Some r" for k
    using parse_refines [of "parse_fuel ts" "parse_fuel ts + k" G_ternary ts] by (simp add: refines_def)
  with r show ?thesis by (auto simp: parse_formula_def split: sum.splits token.splits)
qed

section \<open>What the evaluators return\<close>

text \<open>The numbers of a context are doubles.\<close>

fun ctx_ok :: "ctx_value \<Rightarrow> bool" where
  "ctx_ok (Ctx_number x) = number_ok x"
| "ctx_ok _ = True"

lemma coerceContext_ok:
  "coerceContext ctx = Inr scope \<Longrightarrow> list_all (ctx_ok \<circ> snd) ctx \<Longrightarrow> list_all (value_ok \<circ> snd) scope"
proof (induction ctx arbitrary: scope rule: coerceContext.induct)
  case (2 key val ctx)
  then show ?case by (cases val) (auto simp: map_result_Inr_iff split: if_splits)
qed simp

lemma evaluate_raw_ok:
  assumes "lib_ok lib" "list_all (ctx_ok \<circ> snd) ctx" "ast_wf (sx_ast p)" "evaluate_raw lib p ctx = Inr v"
  shows "value_ok v"
proof -
  obtain scope where "coerceContext ctx = Inr scope" and v: "evaluateNode lib (sx_ast p) scope = Inr v"
    using assms(4) by (auto simp: evaluate_raw_def Let_def split: sum.splits if_splits)
  then have "\<forall>v \<in> ran (map_of scope). value_ok v"
    using coerceContext_ok [OF _ assms(2)] by (auto simp: ran_def list_all_iff dest!: map_of_SomeD)
  with v show ?thesis using evaluateNode_ok [OF assms(1,3)] by blast
qed

definition bounded_result :: "double formula_result \<Rightarrow> bool" where
  "bounded_result r \<longleftrightarrow>
     (if fr_ok r
      then fr_error r = None \<and> (\<exists>s q. fr_value r = Some (Finite s q) \<and> representable q \<and> q \<le> 1000000000)
      else fr_value r = None \<and> fr_error r \<noteq> None)"

lemma bounded_failure [simp]: "bounded_result (fr_failure c m)"
  by (simp add: bounded_result_def fr_failure_def)

lemma bounded_success:
  "number_ok x \<Longrightarrow> is_finite x \<Longrightarrow> \<not> num_less MAX_RESULT_MAGNITUDE (math_abs x) \<Longrightarrow> bounded_result (fr_success x)"
  by (cases x) (auto simp: bounded_result_def fr_success_def MAX_RESULT_MAGNITUDE_def signed_def)

lemma parse_then_cases:
  obtains c m where "\<And>k. (parse_then k f :: 'v formula_result) = fr_failure c m"
    "\<And>k. (parse_then k f :: 'w formula_result) = fr_failure c m"
    "c = SYNTAX_ERROR \<or> c = TOO_LONG" "validateFormula f vars = (False, [m])"
  | p where "parseFormula f = Inr p" "parseSafeExpression f = Inr p"
    "\<And>k. (parse_then k f :: 'v formula_result) = k p" "\<And>k. (parse_then k f :: 'w formula_result) = k p"
    "validateFormula f vars = (let es = (case vars of None \<Rightarrow> [] | Some allowed \<Rightarrow>
       map (\<lambda>name. ''unknown variable: '' @ name) (filter (\<lambda>name. name \<notin> set allowed) (variableNames p))) in (es = [], es))"
proof (cases "trim f = [] \<or> MAX_FORMULA_LENGTH < length f")
  case True
  show ?thesis
  proof (cases "trim f = []")
    case True
    then show ?thesis by (intro that(1) [of SYNTAX_ERROR]) (simp_all add: parse_then_def validateFormula_def)
  next
    case False
    with \<open>trim f = [] \<or> _\<close> show ?thesis
      by (intro that(1) [of TOO_LONG]) (simp_all add: parse_then_def validateFormula_def)
  qed
next
  case False
  show ?thesis
  proof (cases "parseSafeExpression f")
    case (Inl e)
    with False show ?thesis
      by (intro that(1) [of SYNTAX_ERROR "err_message e"]) (simp_all add: parse_then_def validateFormula_def parseFormula_def)
  next
    case (Inr p)
    with False show ?thesis
      by (intro that(2) [of p]) (simp_all add: parse_then_def validateFormula_def parseFormula_def)
  qed
qed

text \<open>
  C38: Whatever the formula and the context, \<open>evaluateFormulaUnsafe\<close> returns
  either a value and no error, the value being a finite double of magnitude at most \<open>1e9\<close>, or an
  error and no value; neither infinities nor \<open>NaN\<close> get out.
\<close>

theorem formula_result_shape:
  assumes "lib_ok lib" "list_all (ctx_ok \<circ> snd) ctx"
  shows "bounded_result (evaluateFormulaUnsafe lib f ctx)"
proof (cases rule: parse_then_cases [where f = f and 'v = double and 'w = double and vars = None])
  case (2 p)
  then have "ast_wf (sx_ast p)" by (intro parseSafeExpression_wf)
  then have "bounded_result (evaluateFormula lib p ctx)"
    using evaluate_raw_ok [OF assms, of p]
    by (auto simp: evaluateFormula_def intro: bounded_success split: sum.splits formula_value.splits)
  with 2 show ?thesis by (simp add: evaluateFormulaUnsafe_def)
qed (simp add: evaluateFormulaUnsafe_def)

lemma formula_result_shape_witness:
  "bounded_result (evaluateFormulaUnsafe \<lparr>ml_fun = \<lambda>_ _. NaN, ml_pow = \<lambda>_ _. NaN, ml_atan2 = \<lambda>_ _. NaN, ml_hypot = \<lambda>_. NaN\<rparr>
     ''width * height'' [(''width'', Ctx_number (Finite False 3)), (''height'', Ctx_number (Finite False 8))])"
proof -
  have "representable 3" "representable 8" using representable_of_int [of 3] representable_of_int [of 8] by simp_all
  then show ?thesis by (intro formula_result_shape) (simp_all add: lib_ok_def)
qed

text \<open>
  C39: What \<open>validateFormula\<close> promises: when it accepts a formula for a set of variables and
  the context is well formed and binds them, evaluation is never refused for its length or for an
  undefined variable, and a \<open>SYNTAX_ERROR\<close> can only be \<open>length\<close> applied to something that is no string.
\<close>

definition refused_for_value :: "formula_error_code \<times> string \<Rightarrow> bool" where
  "refused_for_value e \<longleftrightarrow> fst e = INVALID_RESULT \<or> fst e = DIVIDE_BY_ZERO
     \<or> e = (SYNTAX_ERROR, ''length expects a string argument'')"

theorem validate_suffices:
  assumes "fst (validateFormula f (Some allowed))"
    and "coerceContext ctx = Inr scope" "set allowed \<subseteq> fst ` set scope"
  shows "pred_option refused_for_value (fr_error (evaluateFormulaUnsafe lib f ctx))"
proof (cases rule: parse_then_cases [where f = f and 'v = double and 'w = double and vars = "Some allowed"])
  case (2 p)
  then have "set (variableNames p) \<subseteq> fst ` set scope" using assms(1,3) by (auto simp: Let_def filter_empty_conv)
  then have bound: "set (variableNames p) \<subseteq> dom (map_of scope)" by (simp add: dom_map_of_conv_image_fst)
  then have "missing_variables p scope = []" by (auto simp: missing_variables_def filter_empty_conv)
  moreover have "e = Error ''length expects a string argument''" if "evaluateNode lib (sx_ast p) scope = Inl e" for e
    using that bound 2(2) evaluateNode_Inl parseSafeExpression_wf variableNames_set by metis
  ultimately have "pred_option refused_for_value (fr_error (evaluateFormula lib p ctx))"
    using assms(2) by (auto simp: evaluateFormula_def evaluate_raw_def refused_for_value_def fr_failure_def
        fr_success_def split: sum.splits formula_value.splits)
  with 2 show ?thesis by (simp add: evaluateFormulaUnsafe_def)
qed (use assms(1) in simp)

lemma validate_suffices_witness:
  "pred_option refused_for_value (fr_error (evaluateFormulaUnsafe \<lparr>ml_fun = \<lambda>_ _. NaN, ml_pow = \<lambda>_ _. NaN,
     ml_atan2 = \<lambda>_ _. NaN, ml_hypot = \<lambda>_. NaN\<rparr> ''w*h''
     [(''w'', Ctx_number (Finite False 3)), (''h'', Ctx_number (Finite False 8))]))"
proof (rule validate_suffices [where allowed = "[''w'', ''h'']"])
  show "fst (validateFormula ''w*h'' (Some [''w'', ''h'']))" by code_simp
  show "coerceContext [(''w'', Ctx_number (Finite False 3)), (''h'', Ctx_number (Finite False 8))]
      = Inr [(''w'', VNum (Finite False 3)), (''h'', VNum (Finite False 8))]" by simp
qed simp

text \<open>
  Where the boolean evaluator refuses a formula the numeric one refuses it with the same
  error code, and where it answers, a number that the numeric one returns is \<open>0\<close> exactly when it answers false.
\<close>

lemma boolean_agrees:
  "case fr_error (evaluateBooleanFormulaUnsafe lib f ctx) of
     Some (c, m) \<Rightarrow> map_option fst (fr_error (evaluateFormulaUnsafe lib f ctx)) = Some c
   | None \<Rightarrow> fr_value (evaluateFormulaUnsafe lib f ctx)
       \<in> {None} \<union> Some ` {v. fr_value (evaluateBooleanFormulaUnsafe lib f ctx) = Some (\<not> num_eq v (Finite False 0))}"
proof (cases rule: parse_then_cases [where f = f and 'v = double and 'w = bool and vars = None])
  case (1 c m)
  then show ?thesis by (simp add: evaluateFormulaUnsafe_def evaluateBooleanFormulaUnsafe_def fr_failure_def)
next
  case (2 p)
  then show ?thesis
    by (auto simp: evaluateFormulaUnsafe_def evaluateBooleanFormulaUnsafe_def fr_failure_def fr_success_def
        evaluateFormula_def evaluateBooleanFormula_def split: sum.splits formula_value.splits)
qed

end
