(* ===== verification/Labor_Payroll.thy ===== *)
theory Labor_Payroll
  imports Workflow_Core
begin

text \<open>
  The labor payroll workflow (\<open>packages/workflows/src/labor-payroll.ts\<close>): its states, events and snapshot,
  the reducer, the offered events and the descriptor, and its refinement of the transition table
  that makes it an instance of the workflow contract.  Its own lemmas are about the worker's auto events;
  \<open>Payroll_Refines_Billing\<close> relates it to rental billing.
\<close>

section \<open>States, events, snapshot\<close>

datatype labor_payroll_state = Generated | Approved | Posting | Posted | Failed | Voided

fun labor_payroll_state_name :: "labor_payroll_state \<Rightarrow> string" where
  "labor_payroll_state_name Generated = ''generated''"
| "labor_payroll_state_name Approved = ''approved''"
| "labor_payroll_state_name Posting = ''posting''"
| "labor_payroll_state_name Posted = ''posted''"
| "labor_payroll_state_name Failed = ''failed''"
| "labor_payroll_state_name Voided = ''voided''"

definition labor_payroll_all_states :: "labor_payroll_state list" where
  "labor_payroll_all_states = [Generated, Approved, Posting, Posted, Failed, Voided]"

definition labor_payroll_terminal_states :: "labor_payroll_state list" where
  "labor_payroll_terminal_states = [Posted, Voided]"

definition labor_payroll_event_types :: "string list" where
  "labor_payroll_event_types = [
     ''APPROVE'',
     ''POST_REQUESTED'',
     ''POST_SUCCEEDED'',
     ''POST_FAILED'',
     ''RETRY_POST'',
     ''VOID'',
     ''AUTO_APPROVE'',
     ''AUTO_POST_REQUESTED'']"

text \<open>
  Constructor arguments, in order:
  \<^item> \<open>APPROVE\<close>: \<open>approved_at\<close>, \<open>approved_by\<close>
  \<^item> \<open>POST_SUCCEEDED\<close>: \<open>posted_at\<close>, \<open>qbo_timeactivity_ids\<close>
  \<^item> \<open>POST_FAILED\<close>: \<open>failed_at\<close>, \<open>error\<close>
  \<^item> \<open>AUTO_APPROVE\<close>: \<open>approved_at\<close>, \<open>approved_by\<close>
\<close>

datatype labor_payroll_event =
    APPROVE string string
  | POST_REQUESTED
  | POST_SUCCEEDED string "string list"
  | POST_FAILED string string
  | RETRY_POST
  | VOID
  | AUTO_APPROVE string string
  | AUTO_POST_REQUESTED

fun labor_payroll_event_type :: "labor_payroll_event \<Rightarrow> string" where
  "labor_payroll_event_type (APPROVE _ _) = ''APPROVE''"
| "labor_payroll_event_type POST_REQUESTED = ''POST_REQUESTED''"
| "labor_payroll_event_type (POST_SUCCEEDED _ _) = ''POST_SUCCEEDED''"
| "labor_payroll_event_type (POST_FAILED _ _) = ''POST_FAILED''"
| "labor_payroll_event_type RETRY_POST = ''RETRY_POST''"
| "labor_payroll_event_type VOID = ''VOID''"
| "labor_payroll_event_type (AUTO_APPROVE _ _) = ''AUTO_APPROVE''"
| "labor_payroll_event_type AUTO_POST_REQUESTED = ''AUTO_POST_REQUESTED''"

record labor_payroll_snapshot = "labor_payroll_state workflow_snapshot" +
  approved_at :: "string field"
  approved_by :: "string field"
  posted_at :: "string field"
  failed_at :: "string field"
  error :: "string field"
  qbo_timeactivity_ids :: "(string list) field"
  auto_posted :: "bool field"

text \<open>The objects these values are at the JSON boundary.\<close>

definition labor_payroll_snapshot_js :: "labor_payroll_snapshot \<Rightarrow> js" where
  "labor_payroll_snapshot_js snap = JObj [
     (''state'', JStr (labor_payroll_state_name (state snap))),
     (''state_version'', JNum (state_version snap)),
     (''approved_at'', field_js JStr (approved_at snap)),
     (''approved_by'', field_js JStr (approved_by snap)),
     (''posted_at'', field_js JStr (posted_at snap)),
     (''failed_at'', field_js JStr (failed_at snap)),
     (''error'', field_js JStr (error snap)),
     (''qbo_timeactivity_ids'', field_js (\<lambda>xs. JArr (map JStr xs)) (qbo_timeactivity_ids snap)),
     (''auto_posted'', field_js JBool (auto_posted snap))]"

fun labor_payroll_event_js :: "labor_payroll_event \<Rightarrow> js" where
  "labor_payroll_event_js (APPROVE ev_approved_at ev_approved_by) = JObj [
       (''type'', JStr ''APPROVE''),
       (''approved_at'', JStr ev_approved_at),
       (''approved_by'', JStr ev_approved_by)]"
| "labor_payroll_event_js POST_REQUESTED = JObj [
       (''type'', JStr ''POST_REQUESTED'')]"
| "labor_payroll_event_js (POST_SUCCEEDED ev_posted_at ev_qbo_timeactivity_ids) = JObj [
       (''type'', JStr ''POST_SUCCEEDED''),
       (''posted_at'', JStr ev_posted_at),
       (''qbo_timeactivity_ids'', (\<lambda>xs. JArr (map JStr xs)) ev_qbo_timeactivity_ids)]"
| "labor_payroll_event_js (POST_FAILED ev_failed_at ev_error) = JObj [
       (''type'', JStr ''POST_FAILED''),
       (''failed_at'', JStr ev_failed_at),
       (''error'', JStr ev_error)]"
| "labor_payroll_event_js RETRY_POST = JObj [
       (''type'', JStr ''RETRY_POST'')]"
| "labor_payroll_event_js VOID = JObj [
       (''type'', JStr ''VOID'')]"
| "labor_payroll_event_js (AUTO_APPROVE ev_approved_at ev_approved_by) = JObj [
       (''type'', JStr ''AUTO_APPROVE''),
       (''approved_at'', JStr ev_approved_at),
       (''approved_by'', JStr ev_approved_by)]"
| "labor_payroll_event_js AUTO_POST_REQUESTED = JObj [
       (''type'', JStr ''AUTO_POST_REQUESTED'')]"

section \<open>The reducer\<close>

definition assertLaborPayrollTransition ::
  "labor_payroll_state \<Rightarrow> labor_payroll_state list \<Rightarrow> string \<Rightarrow> unit result" where
  "assertLaborPayrollTransition st allowed eventType = assert_in allowed st
     (''event '' @ eventType @ '' is not allowed from labor payroll state '' @ labor_payroll_state_name st)"

fun transitionLaborPayrollWorkflow ::
  "labor_payroll_snapshot \<Rightarrow> labor_payroll_event \<Rightarrow> labor_payroll_snapshot result" where
  "transitionLaborPayrollWorkflow snap (APPROVE ev_approved_at ev_approved_by) =
     then_return (assertLaborPayrollTransition (state snap) [Generated] ''APPROVE'')
      (snap\<lparr>state := Approved,
        state_version := state_version snap + 1,
        approved_at := Val ev_approved_at,
        approved_by := Val ev_approved_by,
        error := Null,
        failed_at := Null\<rparr>)"
| "transitionLaborPayrollWorkflow snap POST_REQUESTED =
     then_return (assertLaborPayrollTransition (state snap) [Approved, Failed] ''POST_REQUESTED'')
      (snap\<lparr>state := Posting,
        state_version := state_version snap + 1,
        error := Null,
        failed_at := Null\<rparr>)"
| "transitionLaborPayrollWorkflow snap (POST_SUCCEEDED ev_posted_at ev_qbo_timeactivity_ids) =
     then_return (assertLaborPayrollTransition (state snap) [Posting] ''POST_SUCCEEDED'')
      (snap\<lparr>state := Posted,
        state_version := state_version snap + 1,
        posted_at := Val ev_posted_at,
        qbo_timeactivity_ids := Val ev_qbo_timeactivity_ids,
        error := Null,
        failed_at := Null\<rparr>)"
| "transitionLaborPayrollWorkflow snap (POST_FAILED ev_failed_at ev_error) =
     then_return (assertLaborPayrollTransition (state snap) [Posting] ''POST_FAILED'')
      (snap\<lparr>state := Failed,
        state_version := state_version snap + 1,
        failed_at := Val ev_failed_at,
        error := Val ev_error\<rparr>)"
| "transitionLaborPayrollWorkflow snap RETRY_POST =
     then_return (assertLaborPayrollTransition (state snap) [Failed] ''RETRY_POST'')
      (snap\<lparr>state := Approved,
        state_version := state_version snap + 1,
        error := Null,
        failed_at := Null\<rparr>)"
| "transitionLaborPayrollWorkflow snap VOID =
     then_return (assertLaborPayrollTransition (state snap) [Generated, Approved, Failed] ''VOID'')
      (snap\<lparr>state := Voided,
        state_version := state_version snap + 1\<rparr>)"
| "transitionLaborPayrollWorkflow snap (AUTO_APPROVE ev_approved_at ev_approved_by) =
     then_return (assertLaborPayrollTransition (state snap) [Generated] ''AUTO_APPROVE'')
      (snap\<lparr>state := Approved,
        state_version := state_version snap + 1,
        approved_at := Val ev_approved_at,
        approved_by := Val ev_approved_by,
        auto_posted := Val True,
        error := Null,
        failed_at := Null\<rparr>)"
| "transitionLaborPayrollWorkflow snap AUTO_POST_REQUESTED =
     then_return (assertLaborPayrollTransition (state snap) [Approved] ''AUTO_POST_REQUESTED'')
      (snap\<lparr>state := Posting,
        state_version := state_version snap + 1,
        auto_posted := Val True,
        error := Null,
        failed_at := Null\<rparr>)"

section \<open>Offered events and the descriptor\<close>

fun nextLaborPayrollEvents :: "labor_payroll_state \<Rightarrow> next_event list" where
  "nextLaborPayrollEvents Generated = [
       offer ''APPROVE'' ''Approve payroll run'',
       offer ''VOID'' ''Void'']"
| "nextLaborPayrollEvents Approved = [
       offer ''POST_REQUESTED'' ''Post time activities to QuickBooks'',
       offer ''VOID'' ''Void'']"
| "nextLaborPayrollEvents Posting = []"
| "nextLaborPayrollEvents Posted = []"
| "nextLaborPayrollEvents Failed = [
       offer ''RETRY_POST'' ''Retry QuickBooks post'',
       offer ''VOID'' ''Void'']"
| "nextLaborPayrollEvents Voided = []"

definition isHumanLaborPayrollEvent :: "string \<Rightarrow> bool" where
  "isHumanLaborPayrollEvent eventType \<longleftrightarrow>
     eventType = ''APPROVE'' \<or>
     eventType = ''POST_REQUESTED'' \<or>
     eventType = ''RETRY_POST'' \<or>
     eventType = ''VOID''"

definition laborPayrollWorkflow ::
  "(labor_payroll_state, labor_payroll_event, labor_payroll_snapshot) workflow_definition" where
  "laborPayrollWorkflow = \<lparr>
     wf_name = ''labor_payroll_run'',
     schemaVersion = 1,
     initialState = Generated,
     terminalStates = labor_payroll_terminal_states,
     allStates = labor_payroll_all_states,
     allEventTypes = labor_payroll_event_types,
     reduce = transitionLaborPayrollWorkflow,
     nextEvents = nextLaborPayrollEvents,
     isHumanEvent = isHumanLaborPayrollEvent,
     sideEffectTypes = [''post_qbo_time_activities'']\<rparr>"

section \<open>Refinement of the transition table\<close>

definition labor_payroll_edges :: "labor_payroll_state edge list" where
  "labor_payroll_edges = [
     (Generated, ''APPROVE'', Approved),
     (Approved, ''POST_REQUESTED'', Posting),
     (Failed, ''POST_REQUESTED'', Posting),
     (Posting, ''POST_SUCCEEDED'', Posted),
     (Posting, ''POST_FAILED'', Failed),
     (Failed, ''RETRY_POST'', Approved),
     (Generated, ''VOID'', Voided),
     (Approved, ''VOID'', Voided),
     (Failed, ''VOID'', Voided),
     (Generated, ''AUTO_APPROVE'', Approved),
     (Approved, ''AUTO_POST_REQUESTED'', Posting)]"

lemmas labor_payroll_defs = laborPayrollWorkflow_def assertLaborPayrollTransition_def
  labor_payroll_all_states_def labor_payroll_terminal_states_def labor_payroll_event_types_def
  isHumanLaborPayrollEvent_def labor_payroll_edges_def

interpretation labor_payroll_wf: table_workflow laborPayrollWorkflow labor_payroll_event_type labor_payroll_edges
proof
  show "state_version s' = state_version s + 1 \<and>
      (state s, labor_payroll_event_type e, state s') \<in> set labor_payroll_edges"
    if "reduce laborPayrollWorkflow s e = Inr s'" for s e s'
    using that by (cases e) (auto simp: labor_payroll_defs)
  show "is_ok (reduce laborPayrollWorkflow s e)"
    if "(state s, labor_payroll_event_type e, b) \<in> set labor_payroll_edges" for s e b
    using that by (cases e) (auto simp: labor_payroll_defs)
  show "st \<in> set (allStates laborPayrollWorkflow)" for st
    by (cases st) (simp_all add: labor_payroll_defs)
  show "labor_payroll_event_type e \<in> set (allEventTypes laborPayrollWorkflow)" for e
    by (cases e) (simp_all add: labor_payroll_defs)
  show "\<exists>e. labor_payroll_event_type e = t" if "t \<in> set (allEventTypes laborPayrollWorkflow)" for t
    using that by (auto simp: labor_payroll_defs intro: labor_payroll_event_type.simps)
qed (auto simp: labor_payroll_defs table_ok_def has_edge_def)

interpretation labor_payroll_live: live_workflow laborPayrollWorkflow labor_payroll_event_type
  by (rule labor_payroll_wf.live_if_table_live) (simp add: table_live_def labor_payroll_defs)

section \<open>The auto-posted flag\<close>

fun_cases labor_payroll_step: "transitionLaborPayrollWorkflow s e = Inr s'"

definition labor_payroll_auto_event :: "labor_payroll_event \<Rightarrow> bool" where
  "labor_payroll_auto_event e \<longleftrightarrow>
     labor_payroll_event_type e \<in> {''AUTO_APPROVE'', ''AUTO_POST_REQUESTED''}"

lemma labor_payroll_auto_not_human:
  "labor_payroll_auto_event e \<Longrightarrow> \<not> isHumanLaborPayrollEvent (labor_payroll_event_type e)"
  by (cases e) (simp_all add: labor_payroll_auto_event_def labor_payroll_defs)

lemma labor_payroll_auto_step:
  "transitionLaborPayrollWorkflow s e = Inr s' \<Longrightarrow>
   auto_posted s' = (if labor_payroll_auto_event e then Val True else auto_posted s)"
  by (cases e) (auto simp: labor_payroll_auto_event_def labor_payroll_defs)

text \<open>
  A payroll run is labelled auto-posted after exactly the runs in which a
  worker's auto event was applied (otherwise the flag is left as it was), and the worker can
  never re-push a run that failed: only a human's \<open>POST_REQUESTED\<close> or \<open>RETRY_POST\<close> leaves
  \<open>failed\<close> towards QuickBooks.
\<close>

lemma labor_payroll_auto_posted:
  assumes "run_events transitionLaborPayrollWorkflow s es = Inr t"
  shows "auto_posted t =
      (if list_ex labor_payroll_auto_event es then Val True else auto_posted s) \<and>
    (state t = Failed \<longrightarrow> labor_payroll_auto_event e \<longrightarrow>
      \<not> is_ok (transitionLaborPayrollWorkflow t e))"
proof
  show "auto_posted t =
      (if list_ex labor_payroll_auto_event es then Val True else auto_posted s)"
    using assms
  proof (induction es arbitrary: s)
    case Nil
    then show ?case by simp
  next
    case (Cons a es)
    then obtain s' where "transitionLaborPayrollWorkflow s a = Inr s'"
      "run_events transitionLaborPayrollWorkflow s' es = Inr t"
      by (auto split: sum.splits)
    with Cons.IH [of s'] labor_payroll_auto_step [of s a s'] show ?case by simp
  qed
  show "state t = Failed \<longrightarrow> labor_payroll_auto_event e \<longrightarrow>
      \<not> is_ok (transitionLaborPayrollWorkflow t e)"
    by (cases e) (simp_all add: labor_payroll_auto_event_def labor_payroll_defs)
qed

definition labor_payroll_example :: labor_payroll_snapshot where
  "labor_payroll_example = \<lparr>state = Generated, state_version = 1, approved_at = Null,
     approved_by = Null, posted_at = Null, failed_at = Null, error = Null,
     qbo_timeactivity_ids = Null, auto_posted = Null\<rparr>"

end
