(* ===== verification/Payroll_Refines_Billing.thy ===== *)
theory Payroll_Refines_Billing
  imports Rental_Billing Labor_Payroll
begin

text \<open>
  \<open>labor-payroll.ts\<close> says it mirrors \<open>rental-billing.ts\<close>.  This theory makes that a simulation:
  the payroll reducer, seen through an abstraction of its snapshots and events, is the rental
  billing reducer.  The payroll push returns a list of QuickBooks ids where a billing run has
  one invoice id; the abstraction is parametric in the function \<open>batch\<close> that names a list of
  ids.  The auto events are abstracted to the human events whose edges they walk, and the
  \<open>auto_posted\<close> flag is forgotten.
\<close>

section \<open>The abstraction\<close>

fun billing_state :: "labor_payroll_state \<Rightarrow> rental_billing_state" where
  "billing_state Labor_Payroll.Generated = Rental_Billing.Generated"
| "billing_state Labor_Payroll.Approved = Rental_Billing.Approved"
| "billing_state Labor_Payroll.Posting = Rental_Billing.Posting"
| "billing_state Labor_Payroll.Posted = Rental_Billing.Posted"
| "billing_state Labor_Payroll.Failed = Rental_Billing.Failed"
| "billing_state Labor_Payroll.Voided = Rental_Billing.Voided"

fun billing_event :: "(string list \<Rightarrow> string) \<Rightarrow> labor_payroll_event \<Rightarrow> rental_billing_event" where
  "billing_event batch (Labor_Payroll.APPROVE at who) = Rental_Billing.APPROVE at who"
| "billing_event batch Labor_Payroll.POST_REQUESTED = Rental_Billing.POST_REQUESTED"
| "billing_event batch (Labor_Payroll.POST_SUCCEEDED at ids) =
     Rental_Billing.POST_SUCCEEDED at (batch ids)"
| "billing_event batch (Labor_Payroll.POST_FAILED at err) = Rental_Billing.POST_FAILED at err"
| "billing_event batch Labor_Payroll.RETRY_POST = Rental_Billing.RETRY_POST"
| "billing_event batch Labor_Payroll.VOID = Rental_Billing.VOID"
| "billing_event batch (AUTO_APPROVE at who) = Rental_Billing.APPROVE at who"
| "billing_event batch AUTO_POST_REQUESTED = Rental_Billing.POST_REQUESTED"

definition billing_snapshot ::
  "(string list \<Rightarrow> string) \<Rightarrow> labor_payroll_snapshot \<Rightarrow> rental_billing_snapshot" where
  "billing_snapshot batch s = \<lparr>
     state = billing_state (state s),
     state_version = state_version s,
     Rental_Billing.rental_billing_snapshot.approved_at = Labor_Payroll.labor_payroll_snapshot.approved_at s,
     Rental_Billing.rental_billing_snapshot.approved_by = Labor_Payroll.labor_payroll_snapshot.approved_by s,
     Rental_Billing.rental_billing_snapshot.posted_at = Labor_Payroll.labor_payroll_snapshot.posted_at s,
     Rental_Billing.rental_billing_snapshot.failed_at = Labor_Payroll.labor_payroll_snapshot.failed_at s,
     Rental_Billing.rental_billing_snapshot.error = Labor_Payroll.labor_payroll_snapshot.error s,
     Rental_Billing.rental_billing_snapshot.qbo_invoice_id = map_field batch (qbo_timeactivity_ids s)\<rparr>"

lemmas billing_abstraction = billing_snapshot_def rental_billing_defs labor_payroll_defs

lemma billing_state_cases:
  "billing_state st = Rental_Billing.Generated \<longleftrightarrow> st = Labor_Payroll.Generated"
  "billing_state st = Rental_Billing.Approved \<longleftrightarrow> st = Labor_Payroll.Approved"
  "billing_state st = Rental_Billing.Posting \<longleftrightarrow> st = Labor_Payroll.Posting"
  "billing_state st = Rental_Billing.Posted \<longleftrightarrow> st = Labor_Payroll.Posted"
  "billing_state st = Rental_Billing.Failed \<longleftrightarrow> st = Labor_Payroll.Failed"
  "billing_state st = Rental_Billing.Voided \<longleftrightarrow> st = Labor_Payroll.Voided"
  by (cases st; simp)+

section \<open>The simulation\<close>

lemma payroll_step_simulates:
  "transitionLaborPayrollWorkflow s e = Inr s' \<Longrightarrow>
   transitionRentalBillingWorkflow (billing_snapshot batch s) (billing_event batch e) =
     Inr (billing_snapshot batch s')"
  by (cases e) (auto simp: billing_abstraction)

lemma payroll_run_simulates:
  "run_events transitionLaborPayrollWorkflow s es = Inr t \<Longrightarrow>
   run_events transitionRentalBillingWorkflow (billing_snapshot batch s)
     (map (billing_event batch) es) = Inr (billing_snapshot batch t)"
proof (induction es arbitrary: s)
  case Nil
  then show ?case by simp
next
  case (Cons e es)
  then obtain s' where "transitionLaborPayrollWorkflow s e = Inr s'"
    "run_events transitionLaborPayrollWorkflow s' es = Inr t"
    by (auto split: sum.splits)
  with Cons.IH [of s'] payroll_step_simulates [of s e s' batch] show ?case by simp
qed

text \<open>Only the worker's guarded auto post is stricter than the event it stands for.\<close>

lemma payroll_accepts_iff:
  "is_ok (transitionLaborPayrollWorkflow s e) \<longleftrightarrow>
   is_ok (transitionRentalBillingWorkflow (billing_snapshot batch s) (billing_event batch e)) \<and>
   (e = AUTO_POST_REQUESTED \<longrightarrow> state s \<noteq> Labor_Payroll.Failed)"
  by (cases e) (auto simp: billing_abstraction billing_state_cases)

text \<open>
  C29: Every run of a labor payroll workflow is, through the abstraction, a run of
  the rental billing workflow with the same events, ending in the same state with the same
  stamps; and payroll accepts an event exactly when billing accepts its counterpart, except
  that the worker's auto post is refused after a failure.
\<close>

theorem payroll_refines_billing:
  assumes "run_events transitionLaborPayrollWorkflow s es = Inr t"
  shows "run_events transitionRentalBillingWorkflow (billing_snapshot batch s)
      (map (billing_event batch) es) = Inr (billing_snapshot batch t) \<and>
    (is_ok (transitionLaborPayrollWorkflow t e) \<longleftrightarrow>
      is_ok (transitionRentalBillingWorkflow (billing_snapshot batch t) (billing_event batch e)) \<and>
      (e = AUTO_POST_REQUESTED \<longrightarrow> state t \<noteq> Labor_Payroll.Failed))"
  using payroll_run_simulates [OF assms] payroll_accepts_iff by blast

theorem payroll_refines_billing_witness:
  "\<exists>t. run_events transitionLaborPayrollWorkflow labor_payroll_example
       [AUTO_APPROVE ''t1'' ''system'', AUTO_POST_REQUESTED,
        Labor_Payroll.POST_SUCCEEDED ''t2'' [''a-1'', ''a-2'']] = Inr t \<and>
     run_events transitionRentalBillingWorkflow (billing_snapshot concat labor_payroll_example)
       [Rental_Billing.APPROVE ''t1'' ''system'', Rental_Billing.POST_REQUESTED,
        Rental_Billing.POST_SUCCEEDED ''t2'' ''a-1a-2''] = Inr (billing_snapshot concat t)"
proof -
  obtain t where t: "run_events transitionLaborPayrollWorkflow labor_payroll_example
       [AUTO_APPROVE ''t1'' ''system'', AUTO_POST_REQUESTED,
        Labor_Payroll.POST_SUCCEEDED ''t2'' [''a-1'', ''a-2'']] = Inr t"
    by (simp add: labor_payroll_example_def assertLaborPayrollTransition_def wf_simps)
  from payroll_refines_billing [OF t, of concat] t show ?thesis
    by (simp del: run_events.simps)
qed

text \<open>
  Billing's way out of a stuck push is missing from payroll: in state
  \<open>posting\<close> a billing run can be cancelled by a human, while every event a payroll run accepts
  there is a worker's, and no event is offered.
\<close>

lemma payroll_posting_no_human_exit:
  assumes "state s = Labor_Payroll.Posting"
  shows "(\<forall>e. isHumanLaborPayrollEvent (labor_payroll_event_type e) \<longrightarrow>
      \<not> is_ok (transitionLaborPayrollWorkflow s e)) \<and>
    nextLaborPayrollEvents (state s) = [] \<and>
    isHumanRentalBillingEvent ''CANCEL_POST'' \<and>
    is_ok (transitionRentalBillingWorkflow (billing_snapshot batch s) (CANCEL_POST at reason))"
proof (intro conjI allI impI)
  show "\<not> is_ok (transitionLaborPayrollWorkflow s e)"
    if "isHumanLaborPayrollEvent (labor_payroll_event_type e)" for e
    using that assms by (cases e) (auto simp: labor_payroll_defs)
qed (use assms in \<open>simp_all add: billing_abstraction\<close>)

end
