(* ===== verification/Js_Date.thy ===== *)
theory Js_Date
  imports Js_Number Canonical_Json
begin

text \<open>
  The calendar arithmetic of \<open>packages/domain/src/index.ts\<close>: dates that are midnights in UTC, as day
  numbers, with \<open>None\<close> for an invalid \<open>Date\<close>; parsing and printing of \<open>YYYY-MM-DD\<close>, and the addition of days.
  The lemmas show that parsing inverts printing for the years 100 to 9999.
\<close>

section \<open>Values of the wire\<close>

text \<open>A number that may arrive as text, and \<open>Number(x)\<close> of it.\<close>

datatype numeric = Numeric double | Textual string

fun to_number :: "numeric \<Rightarrow> double" where
  "to_number (Numeric x) = x"
| "to_number (Textual s) = string_to_number s"

text \<open>\<open>Number(x) || d\<close>\<close>

definition number_or :: "double \<Rightarrow> numeric \<Rightarrow> double" where
  "number_or d x = (if num_truthy (to_number x) then to_number x else d)"

lemma number_or_ok: "number_ok d \<Longrightarrow> (\<And>y. x = Numeric y \<Longrightarrow> number_ok y) \<Longrightarrow> number_ok (number_or d x)"
  by (cases x) (simp_all add: number_or_def)

text \<open>A string that is neither \<open>null\<close> nor empty: the truthy ones.\<close>

definition some_text :: "string option \<Rightarrow> string option" where
  "some_text s = (if s = Some [] then None else s)"

definition pad_start :: "nat \<Rightarrow> string \<Rightarrow> string" where
  "pad_start w s = replicate (w - length s) (CHR ''0'') @ s"

text \<open>\<open>x.toFixed(2)\<close>: the nearest number of hundredths, the larger one of two.\<close>

definition hundredths_text :: "nat \<Rightarrow> string" where
  "hundredths_text n = show_nat (n div 100) @ ''.'' @ pad_start 2 (show_nat (n mod 100))"

fun to_fixed2 :: "double \<Rightarrow> string" where
  "to_fixed2 (Finite s q) =
     (if 10 ^ 21 \<le> q then show_number (Finite s q)
      else (if s \<and> q \<noteq> 0 then ''-'' else []) @ hundredths_text (nat \<lfloor>100 * q + 1 / 2\<rfloor>))"
| "to_fixed2 x = show_number x"

definition roundMoney :: "double \<Rightarrow> double" where
  "roundMoney x = num_div (math_round (num_mul x (num_of_int 100))) (num_of_int 100)"

section \<open>Dates\<close>

type_synonym js_date = "int option"

text \<open>Day \<open>d\<close> of month \<open>m\<close> of year \<open>y\<close> in the proleptic Gregorian calendar; the day may lie outside its month.\<close>

definition days_of_civil :: "int \<Rightarrow> int \<Rightarrow> int \<Rightarrow> int" where
  "days_of_civil y m d =
     (let y' = (if m \<le> 2 then y - 1 else y); yoe = y' mod 400; mp = (m + 9) mod 12;
          doy = (153 * mp + 2) div 5 + d - 1; doe = 365 * yoe + yoe div 4 - yoe div 100 + doy
      in 146097 * (y' div 400) + doe - 719468)"

text \<open>\<open>TimeClip\<close>: dates reach \<open>10 ^ 8\<close> days to either side of 1970.\<close>

definition time_clip :: "int \<Rightarrow> js_date" where
  "time_clip z = (if \<bar>z\<bar> \<le> 100000000 then Some z else None)"

text \<open>\<open>Date.UTC\<close> of a year, a month counted from 1 and a day; years below 100 mean the twentieth century.\<close>

definition date_utc :: "int \<Rightarrow> int \<Rightarrow> int \<Rightarrow> js_date" where
  "date_utc year month day =
     (let y = (if 0 \<le> year \<and> year \<le> 99 then 1900 + year else year)
      in time_clip (days_of_civil (y + (month - 1) div 12) ((month - 1) mod 12 + 1) day))"

definition parseISODate :: "string \<Rightarrow> js_date" where
  "parseISODate s =
     (if length s = 10 \<and> s ! 4 = CHR ''-'' \<and> s ! 7 = CHR ''-''
         \<and> list_all is_digit (take 4 s @ take 2 (drop 5 s) @ drop 8 s)
      then date_utc (int (read_nat (take 4 s))) (int (read_nat (take 2 (drop 5 s)))) (int (read_nat (drop 8 s)))
      else None)"

definition formatISODate :: "js_date \<Rightarrow> string" where
  "formatISODate date =
     (case date of None \<Rightarrow> pad_start 4 ''NaN'' @ ''-NaN-NaN''
      | Some z \<Rightarrow> (let (y, m, d) = civil_of_days z
          in pad_start 4 (show_int y) @ ''-'' @ pad_start 2 (show_int m) @ ''-'' @ pad_start 2 (show_int d)))"

text \<open>\<open>setUTCDate(getUTCDate() + days)\<close>\<close>

definition addDaysUtc :: "js_date \<Rightarrow> double \<Rightarrow> js_date" where
  "addDaysUtc date days =
     (case date of None \<Rightarrow> None
      | Some z \<Rightarrow> (let (y, m, d) = civil_of_days z
          in case math_trunc (num_add (num_of_int d) days) of
               Finite s q \<Rightarrow> time_clip (z - d + \<lfloor>signed s q\<rfloor>)
             | _ \<Rightarrow> None))"

text \<open>\<open>getTime()\<close> compared: an invalid date compares false with everything.\<close>

fun date_less :: "js_date \<Rightarrow> js_date \<Rightarrow> bool" where
  "date_less (Some a) (Some b) \<longleftrightarrow> a < b"
| "date_less _ _ \<longleftrightarrow> False"

fun date_le :: "js_date \<Rightarrow> js_date \<Rightarrow> bool" where
  "date_le (Some a) (Some b) \<longleftrightarrow> a \<le> b"
| "date_le _ _ \<longleftrightarrow> False"

fun date_eq :: "js_date \<Rightarrow> js_date \<Rightarrow> bool" where
  "date_eq (Some a) (Some b) \<longleftrightarrow> a = b"
| "date_eq _ _ \<longleftrightarrow> False"

definition diffDaysUtc :: "string \<Rightarrow> string \<Rightarrow> int" where
  "diffDaysUtc laterISO earlierISO =
     (case (parseISODate laterISO, parseISODate earlierISO) of (Some l, Some e) \<Rightarrow> l - e | _ \<Rightarrow> 0)"

section \<open>The calendar\<close>

definition year_of :: "int \<Rightarrow> int" where
  "year_of doe = (doe - doe div 1460 + doe div 36524 - doe div 146096) div 365"

definition year_start :: "int \<Rightarrow> int" where
  "year_start y = 365 * y + y div 4 - y div 100"

lemma year_start_split:
  fixes a b c :: int
  assumes "0 \<le> a" "a \<le> 24" "0 \<le> b" "b \<le> 3"
  shows "year_start (100 * c + 4 * a + b) = 36524 * c + 1461 * a + 365 * b"
proof -
  have "(100 * c + 4 * a + b) div 4 = 25 * c + a" by (rule int_div_pos_eq [where r = b]) (use assms in auto)
  moreover have "(100 * c + 4 * a + b) div 100 = c" by (rule int_div_pos_eq [where r = "4 * a + b"]) (use assms in auto)
  ultimately show ?thesis by (simp add: year_start_def)
qed

lemma year_of_split:
  fixes a b c k :: int
  assumes "0 \<le> c" "c \<le> 3" "0 \<le> a" "a \<le> 24" "0 \<le> b" "b \<le> 3" "0 \<le> k" "k \<le> 365"
    and last: "k = 365 \<Longrightarrow> b = 3 \<and> a < 24"
  shows "year_of (36524 * c + 1461 * a + 365 * b + k) = 100 * c + 4 * a + b"
proof -
  let ?doe = "36524 * c + 1461 * a + 365 * b + k"
  let ?rest = "24 * c + a + 365 * b + k"
  define e :: int where "e = (if 1460 \<le> ?rest then 1 else 0)"
  have "1461 * a + 365 * b + k < 36524" using assms by (cases "k = 365") auto
  moreover from this have "?doe < 146096" using assms by linarith
  ultimately have "?doe div 146096 = 0" "?doe div 36524 = c"
    using assms int_div_pos_eq [of ?doe 36524 c "1461 * a + 365 * b + k"] by auto
  moreover have "?doe div 1460 = 25 * c + a + e"
    by (rule int_div_pos_eq [where r = "?rest - 1460 * e"]) (use assms in \<open>auto simp: e_def\<close>)
  moreover have "0 \<le> k - e" "k - e < 365" using assms by (cases "k = 365"; auto simp: e_def)+
  ultimately show ?thesis
    unfolding year_of_def by (intro int_div_pos_eq [where r = "k - e"]) auto
qed

lemma year_of_doe:
  assumes "0 \<le> doe" "doe \<le> 146096"
  shows "0 \<le> year_of doe \<and> year_of doe \<le> 399 \<and> 0 \<le> doe - year_start (year_of doe)
    \<and> doe - year_start (year_of doe) \<le> 365"
proof (cases "doe = 146096")
  case True
  then show ?thesis by (simp add: year_of_def year_start_def)
next
  case False
  define c where "c = doe div 36524"
  define r where "r = doe mod 36524"
  define a where "a = r div 1461"
  define t where "t = r mod 1461"
  define b where "b = (if t = 1460 then 3 else t div 365)"
  have doe: "doe = 36524 * c + r" and r: "0 \<le> r" "r < 36524" by (simp_all add: c_def r_def)
  have ra: "r = 1461 * a + t" and t: "0 \<le> t" "t < 1461" by (simp_all add: a_def t_def)
  have tb: "t div 365 * 365 + t mod 365 = t" "0 \<le> t mod 365" "t mod 365 < 365" by simp_all
  have "0 \<le> c" "c \<le> 3" using doe r False assms by linarith+
  moreover have "0 \<le> a" "a \<le> 24" using ra t r by linarith+
  moreover have "0 \<le> b" "b \<le> 3" "0 \<le> t - 365 * b" "t - 365 * b \<le> 365"
    "t - 365 * b = 365 \<Longrightarrow> b = 3 \<and> a < 24"
    using tb t ra r by (auto simp: b_def split: if_splits)
  ultimately have "year_of (36524 * c + 1461 * a + 365 * b + (t - 365 * b)) = 100 * c + 4 * a + b"
    and "year_start (100 * c + 4 * a + b) = 36524 * c + 1461 * a + 365 * b"
    and "0 \<le> 100 * c + 4 * a + b" "100 * c + 4 * a + b \<le> 399"
    and "0 \<le> t - 365 * b" "t - 365 * b \<le> 365"
    using year_of_split [of c a b "t - 365 * b"] year_start_split [of a b c] by (blast, blast, linarith, linarith, blast, blast)
  moreover have "doe = 36524 * c + 1461 * a + 365 * b + (t - 365 * b)" using doe ra by simp
  ultimately show ?thesis by simp
qed

lemma month_check:
  "list_all (\<lambda>doy. let mp = (5 * doy + 2) div 153; d = doy - (153 * mp + 2) div 5 + 1 in
     0 \<le> mp \<and> mp \<le> 11 \<and> 1 \<le> d \<and> d \<le> 31) (map int [0..<366])"
  by code_simp

lemma civil_of_days_valid:
  assumes "civil_of_days z = (y, m, d)"
  shows "days_of_civil y m d = z" "1 \<le> m" "m \<le> 12" "1 \<le> d" "d \<le> 31"
proof -
  define doe where "doe = (z + 719468) mod 146097"
  define era where "era = (z + 719468) div 146097"
  define doy where "doy = doe - year_start (year_of doe)"
  define mp where "mp = (5 * doy + 2) div 153"
  have z: "z = 146097 * era + doe - 719468" by (simp add: era_def doe_def)
  have "0 \<le> doe" "doe \<le> 146096" using pos_mod_bound [of 146097 "z + 719468"] by (simp_all add: doe_def)
  then have yoe: "0 \<le> year_of doe" "year_of doe \<le> 399" and "0 \<le> doy" "doy \<le> 365"
    using year_of_doe unfolding doy_def by simp_all
  then have "doy \<in> set (map int [0..<366])" by (auto intro: image_eqI [of _ _ "nat doy"])
  then have mp: "0 \<le> mp" "mp \<le> 11" "1 \<le> doy - (153 * mp + 2) div 5 + 1" "doy - (153 * mp + 2) div 5 + 1 \<le> 31"
    using month_check unfolding list_all_iff Let_def mp_def by blast+
  have civil: "d = doy - (153 * mp + 2) div 5 + 1" "m = (if mp < 10 then mp + 3 else mp - 9)"
    "y = (if m \<le> 2 then year_of doe + era * 400 + 1 else year_of doe + era * 400)"
    using assms unfolding civil_of_days_def Let_def year_of_def [symmetric] doe_def [symmetric]
      era_def [symmetric] year_start_def [symmetric] doy_def [symmetric] mp_def [symmetric] by auto
  show "1 \<le> m" "m \<le> 12" "1 \<le> d" "d \<le> 31" using civil mp by auto
  have Y: "(if m \<le> 2 then y - 1 else y) = year_of doe + era * 400" using civil(3) by simp
  have era: "(year_of doe + era * 400) div 400 = era" "(year_of doe + era * 400) mod 400 = year_of doe"
    using yoe by simp_all
  have mp9: "(m + 9) mod 12 = mp"
    using mp civil(2) by (cases "mp < 10") (simp_all add: mod_pos_pos_trivial)
  have day: "(153 * mp + 2) div 5 + d - 1 = doy" using civil(1) by linarith
  have "days_of_civil y m d = 146097 * era + (year_start (year_of doe) + doy) - 719468"
    unfolding days_of_civil_def Let_def Y era mp9 day year_start_def by (rule refl)
  then show "days_of_civil y m d = z" using z by (simp add: doy_def)
qed

section \<open>Printing and parsing\<close>

text \<open>The days from 0100-01-01 to 9999-12-31.\<close>

definition iso_day :: "int \<Rightarrow> bool" where
  "iso_day z \<longleftrightarrow> - 683003 \<le> z \<and> z \<le> 2932896"

lemma civil_year_range:
  assumes "civil_of_days z = (y, m, d)" "iso_day z"
  shows "100 \<le> y" "y \<le> 9999"
proof -
  define doe where "doe = (z + 719468) mod 146097"
  define era where "era = (z + 719468) div 146097"
  define doy where "doy = doe - year_start (year_of doe)"
  define mp where "mp = (5 * doy + 2) div 153"
  have z: "z = 146097 * era + doe - 719468" by (simp add: era_def doe_def)
  have doe: "0 \<le> doe" "doe \<le> 146096" using pos_mod_bound [of 146097 "z + 719468"] by (simp_all add: doe_def)
  have yoe: "0 \<le> year_of doe" "year_of doe \<le> 399" and doy: "0 \<le> doy" "doy \<le> 365"
    using year_of_doe [OF doe] unfolding doy_def by simp_all
  have start: "doe = 365 * year_of doe + year_of doe div 4 - year_of doe div 100 + doy"
    by (simp add: doy_def year_start_def)
  have civil: "m = (if mp < 10 then mp + 3 else mp - 9)"
    "y = (if m \<le> 2 then year_of doe + era * 400 + 1 else year_of doe + era * 400)"
    using assms(1) unfolding civil_of_days_def Let_def year_of_def [symmetric] doe_def [symmetric]
      era_def [symmetric] year_start_def [symmetric] doy_def [symmetric] mp_def [symmetric] by auto
  have late: "10 \<le> mp \<longleftrightarrow> 306 \<le> doy" using doy unfolding mp_def by linarith
  have early: "m \<le> 2 \<longleftrightarrow> 10 \<le> mp" "0 \<le> mp"
    using civil(1) doy unfolding mp_def by (auto simp: pos_imp_zdiv_nonneg_iff)
  have era: "0 \<le> era" "era \<le> 24" using assms(2) z doe by (auto simp: iso_day_def)
  show "100 \<le> y"
  proof (cases "1 \<le> era \<or> 100 \<le> year_of doe")
    case True
    then show ?thesis using civil(2) yoe era by (auto split: if_splits)
  next
    case False
    then have "era = 0" "year_of doe \<le> 99" using era by auto
    moreover have "36465 \<le> doe" using assms(2) z \<open>era = 0\<close> by (simp add: iso_day_def)
    moreover have "year_of doe div 4 \<le> 24" "0 \<le> year_of doe div 100"
      using yoe \<open>year_of doe \<le> 99\<close> by (linarith, simp add: pos_imp_zdiv_nonneg_iff)
    ultimately have "year_of doe = 99" "306 \<le> doy" using start doy by linarith+
    then show ?thesis using civil(2) late early \<open>era = 0\<close> by simp
  qed
  show "y \<le> 9999"
  proof (rule ccontr)
    assume "\<not> y \<le> 9999"
    then have "year_of doe = 399" "era = 24" "m \<le> 2" using civil(2) yoe era by (auto split: if_splits)
    then have "doe = 145731 + doy" "306 \<le> doy" using start late early by simp_all
    then show False using z \<open>era = 24\<close> assms(2) by (simp add: iso_day_def)
  qed
qed

lemma read_nat_zeros [simp]: "read_nat (replicate k (CHR ''0'') @ s) = read_nat s"
proof -
  have "fold (\<lambda>c acc. 10 * acc + digit_value c) (replicate k (CHR ''0'')) (0 :: nat) = 0"
    by (induction k) (simp_all add: digit_value_def)
  then show ?thesis by (simp add: read_nat_def)
qed

lemma length_show_nat: "0 < k \<Longrightarrow> n < 10 ^ k \<Longrightarrow> length (show_nat n) \<le> k"
proof (induction k arbitrary: n)
  case (Suc k)
  show ?case
  proof (cases "n < 10")
    case False
    then have "0 < k" using Suc.prems(2) by (cases k) auto
    then have "length (show_nat (n div 10)) \<le> k" using Suc by simp
    then show ?thesis using False by (subst show_nat.simps) simp
  qed (subst show_nat.simps, simp)
qed simp

lemma pad_start_digits:
  assumes "0 \<le> i" "0 < k" "i < 10 ^ k"
  shows "length (pad_start k (show_int i)) = k" "list_all is_digit (pad_start k (show_int i))"
    "int (read_nat (pad_start k (show_int i))) = i"
proof -
  have "nat i < 10 ^ k" using assms by (simp add: nat_less_iff)
  then have "length (show_int i) \<le> k" using assms length_show_nat by (simp add: show_int_nonneg)
  then show "length (pad_start k (show_int i)) = k" by (simp add: pad_start_def)
  show "list_all is_digit (pad_start k (show_int i))"
    using show_nat_digits [of "nat i"] assms(1) by (auto simp: pad_start_def show_int_nonneg list_all_iff is_digit_def)
  show "int (read_nat (pad_start k (show_int i))) = i" using assms(1) by (simp add: pad_start_def show_int_nonneg)
qed

lemma parse_format_date:
  assumes "iso_day z"
  shows "parseISODate (formatISODate (Some z)) = Some z"
proof -
  obtain y m d where civil: "civil_of_days z = (y, m, d)" by (cases "civil_of_days z")
  note range = civil_of_days_valid [OF civil] civil_year_range [OF civil assms]
  let ?y = "pad_start 4 (show_int y)" and ?m = "pad_start 2 (show_int m)" and ?d = "pad_start 2 (show_int d)"
  have y: "length ?y = 4" "list_all is_digit ?y" "int (read_nat ?y) = y"
    and m: "length ?m = 2" "list_all is_digit ?m" "int (read_nat ?m) = m"
    and d: "length ?d = 2" "list_all is_digit ?d" "int (read_nat ?d) = d"
    using range pad_start_digits [of y 4] pad_start_digits [of m 2] pad_start_digits [of d 2] by simp_all
  have printed: "formatISODate (Some z) = ?y @ CHR ''-'' # ?m @ CHR ''-'' # ?d"
    by (simp add: formatISODate_def civil)
  have "date_utc y m d = time_clip (days_of_civil y m d)"
    using range by (simp add: date_utc_def div_pos_pos_trivial mod_pos_pos_trivial)
  then have "date_utc y m d = Some z" using range(1) assms by (auto simp: time_clip_def iso_day_def)
  then show ?thesis
    using y m d unfolding printed parseISODate_def by (simp add: nth_append)
qed

section \<open>Whole numbers of days\<close>

lemma to_integral_int:
  assumes "\<bar>i\<bar> \<le> 2 ^ 53" "f (of_int i) = i"
  shows "to_integral f (num_of_int i) = num_of_int i"
  using assms by (auto simp: num_of_int_exact integral_def)

lemma math_int [simp]:
  assumes "\<bar>i\<bar> \<le> 2 ^ 53"
  shows "math_floor (num_of_int i) = num_of_int i" "math_trunc (num_of_int i) = num_of_int i"
    "math_round (num_of_int i) = num_of_int i"
proof -
  have "\<lfloor>of_int i + 1 / 2 :: rat\<rfloor> = i" by linarith
  then show "math_floor (num_of_int i) = num_of_int i" "math_trunc (num_of_int i) = num_of_int i"
    "math_round (num_of_int i) = num_of_int i"
    using assms by (simp_all add: math_floor_def math_trunc_def math_round_def to_integral_int)
qed

lemma addDaysUtc_int:
  assumes "\<bar>k\<bar> \<le> 2 ^ 52"
  shows "addDaysUtc (Some z) (num_of_int k) = time_clip (z + k)"
proof -
  obtain y m d where civil: "civil_of_days z = (y, m, d)" by (cases "civil_of_days z")
  note valid = civil_of_days_valid [OF civil]
  then have "num_add (num_of_int d) (num_of_int k) = num_of_int (d + k)"
    using assms by (intro num_add_int) auto
  moreover have big: "\<bar>d + k\<bar> \<le> 2 ^ 53" using assms valid by auto
  ultimately have "math_trunc (num_add (num_of_int d) (num_of_int k)) = Finite (d + k < 0) (of_int \<bar>d + k\<bar>)"
    using math_int(2) [OF big] num_of_int_exact [OF big] by metis
  moreover have "\<lfloor>signed (d + k < 0) (of_int \<bar>d + k\<bar>)\<rfloor> = d + k" by (simp add: signed_def)
  ultimately show ?thesis by (simp add: addDaysUtc_def civil del: of_int_add)
qed

lemma num_or_int:
  assumes "i \<noteq> 0" "\<bar>i\<bar> \<le> 2 ^ 53"
  shows "number_or d (Numeric (num_of_int i)) = num_of_int i"
  using assms by (simp add: number_or_def num_of_int_exact)

lemma math_max_int:
  assumes "\<bar>i\<bar> \<le> 2 ^ 53"
  shows "math_max [Finite False 1, num_of_int i] = num_of_int (max 1 i)"
  using assms by (auto simp: math_max_def num_max_def num_before_def num_of_int_exact max_def signed_def)

lemma num_sub_int:
  assumes "\<bar>i\<bar> \<le> 2 ^ 52" "\<bar>j\<bar> \<le> 2 ^ 52" "j \<noteq> 0"
  shows "num_sub (num_of_int i) (num_of_int j) = num_of_int (i - j)"
proof -
  have "num_neg (num_of_int j) = num_of_int (- j)" using assms by (simp add: num_of_int_exact) auto
  then show ?thesis using assms num_add_int [of i "- j"] by (simp add: num_sub_def)
qed

lemma roundMoney_int: "\<bar>i\<bar> \<le> 10 ^ 12 \<Longrightarrow> 0 \<le> i \<Longrightarrow> roundMoney (num_of_int i) = num_of_int i"
proof -
  assume i: "\<bar>i\<bar> \<le> 10 ^ 12" "0 \<le> i"
  then have "math_round (num_mul (num_of_int i) (num_of_int 100)) = num_of_int (i * 100)"
    by (simp add: num_mul_int)
  moreover have "num_div (num_of_int (i * 100)) (num_of_int 100) = num_of_int i"
    using i by (simp add: num_of_int_exact [of "i * 100"] num_of_int_exact [of 100] num_of_int_def [of i])
  ultimately show ?thesis by (simp add: roundMoney_def)
qed

lemma small_text_number:
  "number_or (num_of_int 0) (Textual ''10'') = num_of_int 10" "number_or (num_of_int 0) (Textual ''2'') = num_of_int 2"
proof -
  have "string_to_number ''10'' = num_of_int 10" "string_to_number ''2'' = num_of_int 2"
    by (simp_all add: string_to_number_def trim_def is_space_def to_lower_def decimal_literal_def unsigned_decimal_def
        Let_def is_digit_def read_nat_def digit_value_def num_of_int_def)
  then show "number_or (num_of_int 0) (Textual ''10'') = num_of_int 10"
    "number_or (num_of_int 0) (Textual ''2'') = num_of_int 2" by (simp_all add: number_or_def num_of_int_exact)
qed

section \<open>Days as texts\<close>

abbreviation iso :: "int \<Rightarrow> string" where
  "iso z \<equiv> formatISODate (Some z)"

lemma iso_nonempty [simp]: "iso z \<noteq> []"
  by (simp add: formatISODate_def split: prod.splits)

lemma some_text_iso [simp]: "some_text (Some (iso z)) = Some (iso z)" "some_text None = None"
  by (simp_all add: some_text_def)

lemma iso_clip: "iso_day z \<Longrightarrow> time_clip z = Some z"
  by (auto simp: iso_day_def time_clip_def)

lemma iso_inject: "iso_day y \<Longrightarrow> iso_day z \<Longrightarrow> iso y = iso z \<longleftrightarrow> y = z"
  by (metis option.inject parse_format_date)

end
