(* ===== verification/Rental.thy ===== *)
theory Rental
  imports Workflow_Core
begin

text \<open>
  The rental workflow (\<open>packages/workflows/src/rental.ts\<close>): its states, events and snapshot,
  the reducer, the offered events and the descriptor, and its refinement of the transition table
  that makes it an instance of the workflow contract.  Its own lemmas count invoices queued and posted over a
  rental's life.
\<close>

section \<open>States, events, snapshot\<close>

datatype rental_state = Active | Returned | Invoiced_pending | Closed

fun rental_state_name :: "rental_state \<Rightarrow> string" where
  "rental_state_name Active = ''active''"
| "rental_state_name Returned = ''returned''"
| "rental_state_name Invoiced_pending = ''invoiced_pending''"
| "rental_state_name Closed = ''closed''"

definition rental_all_states :: "rental_state list" where
  "rental_all_states = [Active, Returned, Invoiced_pending, Closed]"

definition rental_terminal_states :: "rental_state list" where
  "rental_terminal_states = [Closed]"

definition rental_event_types :: "string list" where
  "rental_event_types = [
     ''RETURN'',
     ''INVOICE_QUEUED'',
     ''INVOICE_POSTED'',
     ''CLOSE'']"

text \<open>
  Constructor arguments, in order:
  \<^item> \<open>RETURN\<close>: \<open>returned_at\<close>, \<open>returned_by\<close>
  \<^item> \<open>CLOSE\<close>: \<open>closed_at\<close>, \<open>closed_by\<close>
\<close>

datatype rental_event =
    RETURN string string
  | INVOICE_QUEUED
  | INVOICE_POSTED
  | CLOSE string string

fun rental_event_type :: "rental_event \<Rightarrow> string" where
  "rental_event_type (RETURN _ _) = ''RETURN''"
| "rental_event_type INVOICE_QUEUED = ''INVOICE_QUEUED''"
| "rental_event_type INVOICE_POSTED = ''INVOICE_POSTED''"
| "rental_event_type (CLOSE _ _) = ''CLOSE''"

record rental_snapshot = "rental_state workflow_snapshot" +
  returned_at :: "string field"
  returned_by :: "string field"
  closed_at :: "string field"
  closed_by :: "string field"

text \<open>The objects these values are at the JSON boundary.\<close>

definition rental_snapshot_js :: "rental_snapshot \<Rightarrow> js" where
  "rental_snapshot_js snap = JObj [
     (''state'', JStr (rental_state_name (state snap))),
     (''state_version'', JNum (state_version snap)),
     (''returned_at'', field_js JStr (returned_at snap)),
     (''returned_by'', field_js JStr (returned_by snap)),
     (''closed_at'', field_js JStr (closed_at snap)),
     (''closed_by'', field_js JStr (closed_by snap))]"

fun rental_event_js :: "rental_event \<Rightarrow> js" where
  "rental_event_js (RETURN ev_returned_at ev_returned_by) = JObj [
       (''type'', JStr ''RETURN''),
       (''returned_at'', JStr ev_returned_at),
       (''returned_by'', JStr ev_returned_by)]"
| "rental_event_js INVOICE_QUEUED = JObj [
       (''type'', JStr ''INVOICE_QUEUED'')]"
| "rental_event_js INVOICE_POSTED = JObj [
       (''type'', JStr ''INVOICE_POSTED'')]"
| "rental_event_js (CLOSE ev_closed_at ev_closed_by) = JObj [
       (''type'', JStr ''CLOSE''),
       (''closed_at'', JStr ev_closed_at),
       (''closed_by'', JStr ev_closed_by)]"

section \<open>The reducer\<close>

definition assertRentalTransition ::
  "rental_state \<Rightarrow> rental_state list \<Rightarrow> string \<Rightarrow> unit result" where
  "assertRentalTransition st allowed eventType = assert_in allowed st
     (''event '' @ eventType @ '' is not allowed from rental state '' @ rental_state_name st)"

fun transitionRentalWorkflow ::
  "rental_snapshot \<Rightarrow> rental_event \<Rightarrow> rental_snapshot result" where
  "transitionRentalWorkflow snap (RETURN ev_returned_at ev_returned_by) =
     then_return (assertRentalTransition (state snap) [Active] ''RETURN'')
      (snap\<lparr>state := Returned,
        state_version := state_version snap + 1,
        returned_at := Val ev_returned_at,
        returned_by := Val ev_returned_by\<rparr>)"
| "transitionRentalWorkflow snap INVOICE_QUEUED =
     then_return (assertRentalTransition (state snap) [Returned] ''INVOICE_QUEUED'')
      (snap\<lparr>state := Invoiced_pending,
        state_version := state_version snap + 1\<rparr>)"
| "transitionRentalWorkflow snap INVOICE_POSTED =
     then_return (assertRentalTransition (state snap) [Invoiced_pending] ''INVOICE_POSTED'')
      (snap\<lparr>state := Returned,
        state_version := state_version snap + 1\<rparr>)"
| "transitionRentalWorkflow snap (CLOSE ev_closed_at ev_closed_by) =
     then_return (assertRentalTransition (state snap) [Active, Returned, Invoiced_pending] ''CLOSE'')
      (snap\<lparr>state := Closed,
        state_version := state_version snap + 1,
        closed_at := Val ev_closed_at,
        closed_by := Val ev_closed_by\<rparr>)"

section \<open>Offered events and the descriptor\<close>

fun nextRentalEvents :: "rental_state \<Rightarrow> next_event list" where
  "nextRentalEvents Active = [
       offer ''RETURN'' ''Mark returned'',
       offer ''CLOSE'' ''Close rental'']"
| "nextRentalEvents Returned = [
       offer ''CLOSE'' ''Close rental'']"
| "nextRentalEvents Invoiced_pending = [
       offer ''CLOSE'' ''Close rental'']"
| "nextRentalEvents Closed = []"

definition isHumanRentalEvent :: "string \<Rightarrow> bool" where
  "isHumanRentalEvent eventType \<longleftrightarrow>
     eventType = ''RETURN'' \<or>
     eventType = ''CLOSE''"

definition rentalWorkflow ::
  "(rental_state, rental_event, rental_snapshot) workflow_definition" where
  "rentalWorkflow = \<lparr>
     wf_name = ''rental'',
     schemaVersion = 1,
     initialState = Active,
     terminalStates = rental_terminal_states,
     allStates = rental_all_states,
     allEventTypes = rental_event_types,
     reduce = transitionRentalWorkflow,
     nextEvents = nextRentalEvents,
     isHumanEvent = isHumanRentalEvent,
     sideEffectTypes = []\<rparr>"

section \<open>Refinement of the transition table\<close>

definition rental_edges :: "rental_state edge list" where
  "rental_edges = [
     (Active, ''RETURN'', Returned),
     (Returned, ''INVOICE_QUEUED'', Invoiced_pending),
     (Invoiced_pending, ''INVOICE_POSTED'', Returned),
     (Active, ''CLOSE'', Closed),
     (Returned, ''CLOSE'', Closed),
     (Invoiced_pending, ''CLOSE'', Closed)]"

lemmas rental_defs = rentalWorkflow_def assertRentalTransition_def
  rental_all_states_def rental_terminal_states_def rental_event_types_def
  isHumanRentalEvent_def rental_edges_def

interpretation rental_wf: table_workflow rentalWorkflow rental_event_type rental_edges
proof
  show "state_version s' = state_version s + 1 \<and>
      (state s, rental_event_type e, state s') \<in> set rental_edges"
    if "reduce rentalWorkflow s e = Inr s'" for s e s'
    using that by (cases e) (auto simp: rental_defs)
  show "is_ok (reduce rentalWorkflow s e)"
    if "(state s, rental_event_type e, b) \<in> set rental_edges" for s e b
    using that by (cases e) (auto simp: rental_defs)
  show "st \<in> set (allStates rentalWorkflow)" for st
    by (cases st) (simp_all add: rental_defs)
  show "rental_event_type e \<in> set (allEventTypes rentalWorkflow)" for e
    by (cases e) (simp_all add: rental_defs)
  show "\<exists>e. rental_event_type e = t" if "t \<in> set (allEventTypes rentalWorkflow)" for t
    using that by (auto simp: rental_defs intro: rental_event_type.simps)
qed (auto simp: rental_defs table_ok_def has_edge_def)

interpretation rental_live: live_workflow rentalWorkflow rental_event_type
  by (rule rental_wf.live_if_table_live) (simp add: table_live_def rental_defs)

section \<open>The billing cadence\<close>

fun_cases rental_step: "transitionRentalWorkflow s e = Inr s'"

definition count_events :: "string \<Rightarrow> rental_event list \<Rightarrow> nat" where
  "count_events t es = length (filter (\<lambda>e. rental_event_type e = t) es)"

lemma count_events_simps [simp]:
  "count_events t [] = 0"
  "count_events t (e # es) = (if rental_event_type e = t then 1 else 0) + count_events t es"
  by (simp_all add: count_events_def)

text \<open>How many invoices are queued but not posted, given that the run ends in \<open>st\<close>.\<close>

definition rental_cadence_ok :: "rental_state \<Rightarrow> rental_state \<Rightarrow> rental_event list \<Rightarrow> bool" where
  "rental_cadence_ok st st' es \<longleftrightarrow>
     (let q = count_events ''INVOICE_QUEUED'' es + (if st = Invoiced_pending then 1 else 0);
          p = count_events ''INVOICE_POSTED'' es
      in p \<le> q \<and> q \<le> p + 1 \<and> (st' = Invoiced_pending \<longrightarrow> q = p + 1) \<and>
         (st' \<in> {Active, Returned} \<longrightarrow> q = p))"

lemma rental_cadence_run:
  "run_events transitionRentalWorkflow s es = Inr t \<Longrightarrow> state s \<noteq> Closed \<Longrightarrow>
   rental_cadence_ok (state s) (state t) es"
proof (induction es arbitrary: s)
  case Nil
  then show ?case by (cases "state t") (auto simp: rental_cadence_ok_def)
next
  case (Cons e es)
  then obtain s' where step: "transitionRentalWorkflow s e = Inr s'"
    and run: "run_events transitionRentalWorkflow s' es = Inr t"
    by (auto split: sum.splits)
  show ?case
  proof (cases "state s' = Closed")
    case True
    then have "es = [] \<and> t = s'"
      using rental_wf.terminal_run [of s' es t] run by (simp add: rental_defs)
    with step True Cons.prems(2) show ?thesis
      by (cases e) (auto simp: rental_cadence_ok_def rental_defs)
  next
    case False
    with Cons.IH [OF run] step show ?thesis
      by (cases e) (auto simp: rental_cadence_ok_def rental_defs Let_def)
  qed
qed

lemma rental_return_step:
  "transitionRentalWorkflow s e = Inr s' \<Longrightarrow> state s \<noteq> Active \<Longrightarrow>
   rental_event_type e \<noteq> ''RETURN'' \<and> state s' \<noteq> Active \<and>
   returned_at s' = returned_at s \<and> returned_by s' = returned_by s"
  by (cases e) (auto simp: rental_defs)

lemma rental_after_return:
  "run_events transitionRentalWorkflow s es = Inr t \<Longrightarrow> state s \<noteq> Active \<Longrightarrow>
   count_events ''RETURN'' es = 0 \<and> returned_at t = returned_at s \<and> returned_by t = returned_by s"
proof (induction es arbitrary: s)
  case Nil
  then show ?case by simp
next
  case (Cons e es)
  then obtain s' where "transitionRentalWorkflow s e = Inr s'"
    "run_events transitionRentalWorkflow s' es = Inr t"
    by (auto split: sum.splits)
  with Cons.IH [of s'] Cons.prems(2) rental_return_step [of s e s'] show ?case by simp
qed

text \<open>
  Over any run of an open rental, invoices are posted one at a time after they
  were queued: at every point as many invoices were posted as queued, or one fewer while one is
  pending (a pending one may be abandoned only by closing).  The equipment is returned at most
  once, and the return stamps never change afterwards.
\<close>

lemma rental_cadence:
  assumes "run_events transitionRentalWorkflow s es = Inr t" and "state s \<noteq> Closed"
  shows "rental_cadence_ok (state s) (state t) es \<and> count_events ''RETURN'' es \<le> 1 \<and>
    (state s \<noteq> Active \<longrightarrow> count_events ''RETURN'' es = 0 \<and> returned_at t = returned_at s \<and>
      returned_by t = returned_by s)"
proof -
  have "count_events ''RETURN'' es \<le> 1"
    using assms(1)
  proof (cases es)
    case Nil
    then show ?thesis by simp
  next
    case (Cons e fs)
    with assms(1) obtain s' where step: "transitionRentalWorkflow s e = Inr s'"
      and run: "run_events transitionRentalWorkflow s' fs = Inr t"
      by (auto split: sum.splits)
    have "state s' \<noteq> Active" using step by (cases e) (auto simp: rental_defs)
    with rental_after_return [OF run] Cons show ?thesis by simp
  qed
  with rental_cadence_run [OF assms] rental_after_return [OF assms(1)] show ?thesis by blast
qed

definition rental_example :: rental_snapshot where
  "rental_example = \<lparr>state = Active, state_version = 1, returned_at = Null, returned_by = Null,
     closed_at = Null, closed_by = Null\<rparr>"

end
