(* ===== verification/Rental_Cadence.thy ===== *)
theory Rental_Cadence
  imports Js_Date Rental Event_Log_Insert
begin

text \<open>
  The recurring invoices of a rental: \<open>calculateRentalInvoice\<close> of \<open>packages/domain/src/index.ts\<close>, the
  transaction \<open>processRentalInvoice\<close> of \<open>packages/queue/src/rentals.ts\<close>, the ledger writes of
  \<open>packages/queue/src/ledger.ts\<close>, the worker's loop \<open>apps/worker/src/runners/rental-invoice.ts\<close> and the
  manual trigger of \<open>apps/api/src/routes/rentals.ts\<close>.  The lemmas show that invoices on fresh reads
  tile the days of a rental, what a stale read does, and which periods reach QuickBooks.
\<close>

section \<open>The next invoice\<close>

text \<open>The states of \<open>RentalStatus\<close> are those of the rental workflow.  \<open>null\<close> and \<open>undefined\<close> are \<open>None\<close>.\<close>

record rental_for_invoice =
  ri_daily_rate :: numeric
  ri_delivered_on :: string
  ri_returned_on :: "string option"
  ri_invoice_cadence_days :: numeric
  ri_last_invoiced_through :: "string option"

record rental_invoice =
  iv_days :: int
  iv_amount :: double
  iv_period_start :: string
  iv_period_end :: string
  iv_invoiced_through :: string
  iv_next_invoice_at :: "string option"
  iv_next_status :: rental_state

definition cadence_days :: "double \<Rightarrow> numeric \<Rightarrow> double" where
  "cadence_days d x = math_max [Finite False 1, math_floor (number_or d x)]"

definition less_one :: "double \<Rightarrow> double" where
  "less_one x = num_sub x (num_of_int 1)"

definition midnight :: "js_date \<Rightarrow> string" where
  "midnight date = formatISODate date @ ''T00:00:00.000Z''"

definition day_after :: "string \<Rightarrow> string" where
  "day_after s = formatISODate (addDaysUtc (parseISODate s) (num_of_int 1))"

definition day_before :: "string \<Rightarrow> string" where
  "day_before s = formatISODate (addDaysUtc (parseISODate s) (num_of_int (- 1)))"

definition invoice_period_end :: "js_date \<Rightarrow> js_date \<Rightarrow> js_date option \<Rightarrow> js_date \<times> bool" where
  "invoice_period_end cadenceEnd referenceEnd returnedEnd =
     (let periodEnd = (if date_le cadenceEnd referenceEnd then cadenceEnd else referenceEnd)
      in case returnedEnd of
           None \<Rightarrow> (periodEnd, False)
         | Some r \<Rightarrow> if date_less r periodEnd then (r, True) else (periodEnd, date_eq r periodEnd))"

definition calculateRentalInvoice :: "rental_for_invoice \<Rightarrow> string \<Rightarrow> rental_invoice" where
  "calculateRentalInvoice rental referenceDate =
     (let cadence = cadence_days (num_of_int 7) (ri_invoice_cadence_days rental);
          dailyRate = number_or (num_of_int 0) (ri_daily_rate rental);
          deliveredOn = ri_delivered_on rental;
          returnedOn = some_text (ri_returned_on rental);
          lastThrough = ri_last_invoiced_through rental;
          periodStartISO = (case some_text lastThrough of Some t \<Rightarrow> day_after t | None \<Rightarrow> deliveredOn);
          periodStart = parseISODate periodStartISO;
          nothing = \<lparr>iv_days = 0, iv_amount = num_of_int 0, iv_period_start = periodStartISO,
            iv_period_end = periodStartISO,
            iv_invoiced_through = (case lastThrough of Some t \<Rightarrow> t | None \<Rightarrow> day_before deliveredOn),
            iv_next_invoice_at = None, iv_next_status = Closed\<rparr>
      in if date_less (parseISODate referenceDate) periodStart \<and>
            \<not> (case returnedOn of None \<Rightarrow> False | Some r \<Rightarrow> date_le periodStart (parseISODate r))
         then nothing\<lparr>
           iv_next_invoice_at := Some (midnight (addDaysUtc (parseISODate deliveredOn) (less_one cadence))),
           iv_next_status := (if returnedOn \<noteq> None then Returned else Active)\<rparr>
         else (let (periodEnd, terminal) = invoice_period_end (addDaysUtc periodStart (less_one cadence))
                     (parseISODate referenceDate) (map_option parseISODate returnedOn);
                   periodEndISO = formatISODate periodEnd
               in if date_less (parseISODate periodEndISO) periodStart then nothing
                  else (let days = diffDaysUtc periodEndISO periodStartISO + 1;
                            nextStatus = (if terminal then Closed else if returnedOn \<noteq> None then Returned else Active)
                        in \<lparr>iv_days = days, iv_amount = roundMoney (num_mul (num_of_int days) dailyRate),
                             iv_period_start = periodStartISO, iv_period_end = periodEndISO,
                             iv_invoiced_through = periodEndISO,
                             iv_next_invoice_at = (if nextStatus = Closed then None
                               else Some (midnight (addDaysUtc periodEnd (num_of_int 1)))),
                             iv_next_status = nextStatus\<rparr>)))"

definition initialRentalNextInvoiceAt :: "string \<Rightarrow> numeric \<Rightarrow> string" where
  "initialRentalNextInvoiceAt deliveredOn invoiceCadenceDays =
     (case parseISODate deliveredOn of
        None \<Rightarrow> deliveredOn @ ''T00:00:00.000Z''
      | Some d \<Rightarrow> midnight (addDaysUtc (Some d) (cadence_days (num_of_int 7) invoiceCadenceDays)))"

section \<open>Tables\<close>

text \<open>
  A row of \<open>rentals\<close> with the columns of \<open>RENTAL_SELECT_COLUMNS\<close> and the workflow's version.  Columns of type
  \<open>date\<close> are their texts \<open>YYYY-MM-DD\<close>; \<open>next_invoice_at\<close>, always a midnight, is its day.
\<close>

record rental_row =
  rr_id :: string
  rr_company_id :: string
  rr_project_id :: "string option"
  rr_customer_id :: "string option"
  rr_item_description :: string
  rr_daily_rate :: string
  rr_delivered_on :: string
  rr_returned_on :: "string option"
  rr_next_invoice_at :: "int option"
  rr_invoice_cadence_days :: int
  rr_last_invoice_amount :: "double option"
  rr_last_invoiced_through :: "string option"
  rr_status :: rental_state
  rr_state_version :: int
  rr_notes :: "string option"
  rr_version :: int
  rr_deleted_at :: "int option"
  rr_updated_at :: int

record material_bill =
  mb_id :: string
  mb_company_id :: string
  mb_project_id :: string
  mb_vendor_name :: string
  mb_amount :: double
  mb_bill_type :: string
  mb_description :: string
  mb_occurred_on :: string

text \<open>The JSON objects that the ledger stores, by what they are made from.\<close>

datatype ledger_payload =
    Bill_payload material_bill string
  | Invoice_event_payload rental_row int double string
  | Invoice_payload rental_row "string option" int double
  | Push_payload string "string option" double int string

record ledger_row =
  lr_company_id :: string
  lr_entity_type :: string
  lr_entity_id :: string
  lr_mutation_type :: string
  lr_payload :: ledger_payload
  lr_idempotency_key :: string
  lr_status :: string
  lr_attempt_count :: int
  lr_next_attempt_at :: int

record rental_db =
  rd_rentals :: "rental_row list"
  rd_bills :: "material_bill list"
  rd_outbox :: "ledger_row list"
  rd_sync_events :: "(string \<times> string \<times> string \<times> ledger_payload) list"

definition is_rental :: "string \<Rightarrow> string \<Rightarrow> rental_row \<Rightarrow> bool" where
  "is_rental companyId rentalId r \<longleftrightarrow> rr_company_id r = companyId \<and> rr_id r = rentalId"

definition update_rental ::
  "string \<Rightarrow> string \<Rightarrow> (rental_row \<Rightarrow> rental_row) \<Rightarrow> rental_db \<Rightarrow> rental_row option \<times> rental_db" where
  "update_rental companyId rentalId f db =
     (map_option f (find (is_rental companyId rentalId) (rd_rentals db)),
      db\<lparr>rd_rentals := map (\<lambda>r. if is_rental companyId rentalId r then f r else r) (rd_rentals db)\<rparr>)"

text \<open>A text stored in a column of type \<open>date\<close>, and one in \<open>next_invoice_at\<close>: the database refuses dates that are none.\<close>

definition date_column :: "string \<Rightarrow> int result" where
  "date_column s = (case parseISODate s of
      None \<Rightarrow> Inl (Error (''invalid input syntax for type date: '' @ s))
    | Some z \<Rightarrow> if formatISODate (Some z) = s then Inr z
        else Inl (Error (''date/time field value out of range: '' @ s)))"

definition timestamp_column :: "string option \<Rightarrow> int option result" where
  "timestamp_column s = (case s of None \<Rightarrow> Inr None | Some t \<Rightarrow> map_result Some (date_column (take 10 t)))"

section \<open>One invoice\<close>

record invoice_outcome =
  io_bill :: "material_bill option"
  io_rental :: rental_row
  io_days :: int
  io_amount :: double
  io_invoiced_through :: string
  io_period_start :: string

definition invoice_of_row :: "rental_row \<Rightarrow> string \<Rightarrow> rental_invoice" where
  "invoice_of_row rental referenceDate = calculateRentalInvoice
     \<lparr>ri_daily_rate = Textual (rr_daily_rate rental), ri_delivered_on = rr_delivered_on rental,
      ri_returned_on = rr_returned_on rental,
      ri_invoice_cadence_days = Numeric (num_of_int (rr_invoice_cadence_days rental)),
      ri_last_invoiced_through = rr_last_invoiced_through rental\<rparr> referenceDate"

text \<open>The arrow of the template is its three bytes.\<close>

definition bill_description :: "rental_row \<Rightarrow> rental_invoice \<Rightarrow> string" where
  "bill_description rental r = ''Rental: '' @ rr_item_description rental @ '' ('' @ iv_period_start r @ '' '' @
     [CHR 0xE2, CHR 0x86, CHR 0x92] @ '' '' @ iv_period_end r @ '', '' @ show_int (iv_days r) @ '' day'' @
     (if iv_days r = 1 then [] else ''s'') @ '' @ '' @ to_fixed2 (string_to_number (rr_daily_rate rental)) @ ''/day)''"

definition new_bill :: "string \<Rightarrow> rental_row \<Rightarrow> rental_invoice \<Rightarrow> string \<Rightarrow> material_bill" where
  "new_bill uuid rental r projectId = \<lparr>mb_id = uuid, mb_company_id = rr_company_id rental, mb_project_id = projectId,
     mb_vendor_name = ''Rental: '' @ rr_item_description rental, mb_amount = iv_amount r, mb_bill_type = ''rental'',
     mb_description = bill_description rental r, mb_occurred_on = iv_period_end r\<rparr>"

text \<open>
  \<open>rental\<close> is the row as the caller read it; \<open>uuid\<close> names the bill, \<open>now\<close> is the database's clock.
\<close>

definition processRentalInvoice ::
  "string \<Rightarrow> int \<Rightarrow> rental_row \<Rightarrow> string \<Rightarrow> rental_db \<Rightarrow> (invoice_outcome \<times> rental_db) result" where
  "processRentalInvoice uuid now rental referenceDate db =
     (let r = invoice_of_row rental referenceDate;
          touched = (\<lambda>next_at row. row\<lparr>rr_next_invoice_at := next_at, rr_status := iv_next_status r,
            rr_version := rr_version row + 1, rr_updated_at := now\<rparr>)
      in case timestamp_column (iv_next_invoice_at r) of Inl e \<Rightarrow> Inl e
         | Inr next_at \<Rightarrow>
        if iv_days r \<le> 0 \<or> num_le (iv_amount r) (num_of_int 0)
        then (let (row, db1) = update_rental (rr_company_id rental) (rr_id rental) (touched next_at) db
              in Inr (\<lparr>io_bill = None, io_rental = (case row of None \<Rightarrow> rental | Some x \<Rightarrow> x), io_days = 0,
                io_amount = num_of_int 0, io_invoiced_through = iv_invoiced_through r,
                io_period_start = iv_period_start r\<rparr>, db1))
        else case date_column (iv_invoiced_through r) of Inl e \<Rightarrow> Inl e
         | Inr _ \<Rightarrow>
             (let bill = map_option (new_bill uuid rental r) (some_text (rr_project_id rental));
                  (row, db1) = update_rental (rr_company_id rental) (rr_id rental) (\<lambda>row. (touched next_at row)\<lparr>
                     rr_last_invoice_amount := Some (iv_amount r),
                     rr_last_invoiced_through := Some (iv_invoiced_through r)\<rparr>)
                     (db\<lparr>rd_bills := rd_bills db @ (case bill of None \<Rightarrow> [] | Some b \<Rightarrow> [b])\<rparr>)
              in Inr (\<lparr>io_bill = bill, io_rental = (case row of None \<Rightarrow> rental | Some x \<Rightarrow> x), io_days = iv_days r,
                io_amount = iv_amount r, io_invoiced_through = iv_invoiced_through r,
                io_period_start = iv_period_start r\<rparr>, db1)))"

definition rental_due :: "string \<Rightarrow> int \<Rightarrow> rental_row \<Rightarrow> bool" where
  "rental_due companyId now r \<longleftrightarrow> rr_company_id r = companyId \<and> rr_deleted_at r = None \<and>
     rr_status r \<in> {Active, Returned} \<and> (case rr_next_invoice_at r of None \<Rightarrow> False | Some d \<Rightarrow> 86400000 * d \<le> now)"

definition fetchDueRentals :: "string \<Rightarrow> int \<Rightarrow> int \<Rightarrow> rental_db \<Rightarrow> rental_row list" where
  "fetchDueRentals companyId now limit db =
     take (nat (max 1 (min 500 limit))) (sort_key (\<lambda>r. the (rr_next_invoice_at r)) (filter (rental_due companyId now) (rd_rentals db)))"

section \<open>The ledger\<close>

text \<open>
  \<open>recordLedger\<close>: one row of \<open>sync_events\<close> and one of \<open>mutation_outbox\<close>, which a repeated key overwrites.  The
  columns that are constant here (direction, device, trace) are left out.
\<close>

record worker_ledger_args =
  wl_company_id :: string
  wl_entity_type :: string
  wl_entity_id :: string
  wl_mutation_type :: string
  wl_idempotency_key :: string
  wl_sync_payload :: ledger_payload
  wl_outbox_payload :: "ledger_payload option"

definition same_key :: "string \<Rightarrow> string \<Rightarrow> ledger_row \<Rightarrow> bool" where
  "same_key companyId key row \<longleftrightarrow> lr_company_id row = companyId \<and> lr_idempotency_key row = key"

definition recordLedger :: "int \<Rightarrow> worker_ledger_args \<Rightarrow> rental_db \<Rightarrow> rental_db" where
  "recordLedger now args db =
     (let payload = (case wl_outbox_payload args of None \<Rightarrow> wl_sync_payload args | Some p \<Rightarrow> p);
          conflict = same_key (wl_company_id args) (wl_idempotency_key args)
      in db\<lparr>rd_sync_events := rd_sync_events db @
            [(wl_company_id args, wl_entity_type args, wl_entity_id args, wl_sync_payload args)],
           rd_outbox := (if list_ex conflict (rd_outbox db)
             then map (\<lambda>row. if conflict row then row\<lparr>lr_payload := payload, lr_status := ''pending'',
               lr_attempt_count := lr_attempt_count row + 1, lr_next_attempt_at := now\<rparr> else row) (rd_outbox db)
             else rd_outbox db @ [\<lparr>lr_company_id = wl_company_id args, lr_entity_type = wl_entity_type args,
               lr_entity_id = wl_entity_id args, lr_mutation_type = wl_mutation_type args, lr_payload = payload,
               lr_idempotency_key = wl_idempotency_key args, lr_status = ''pending'', lr_attempt_count = 0,
               lr_next_attempt_at = now\<rparr>])\<rparr>)"

definition bill_ledger :: "rental_row \<Rightarrow> material_bill \<Rightarrow> worker_ledger_args" where
  "bill_ledger rental b = \<lparr>wl_company_id = rr_company_id rental, wl_entity_type = ''material_bill'',
     wl_entity_id = mb_id b, wl_mutation_type = ''create'', wl_idempotency_key = ''material_bill:create:'' @ mb_id b,
     wl_sync_payload = Bill_payload b (rr_id rental), wl_outbox_payload = Some (Bill_payload b (rr_id rental))\<rparr>"

definition invoice_ledger :: "rental_row \<Rightarrow> invoice_outcome \<Rightarrow> worker_ledger_args" where
  "invoice_ledger rental r = \<lparr>wl_company_id = rr_company_id rental, wl_entity_type = ''rental'',
     wl_entity_id = rr_id rental, wl_mutation_type = ''invoice'',
     wl_idempotency_key = ''rental:invoice:'' @ rr_id rental @ '':'' @ show_int (rr_version (io_rental r)),
     wl_sync_payload = Invoice_event_payload (io_rental r) (io_days r) (io_amount r) (io_invoiced_through r),
     wl_outbox_payload = Some (Invoice_payload (io_rental r) (map_option mb_id (io_bill r)) (io_days r) (io_amount r))\<rparr>"

definition push_ledger :: "rental_row \<Rightarrow> rental_row \<Rightarrow> invoice_outcome \<Rightarrow> worker_ledger_args" where
  "push_ledger rental current r = \<lparr>wl_company_id = rr_company_id rental, wl_entity_type = ''rental'',
     wl_entity_id = rr_id rental, wl_mutation_type = ''post_rental_invoice'',
     wl_idempotency_key = ''rental:invoice_push:'' @ rr_id rental @ '':'' @ show_int (rr_state_version current),
     wl_sync_payload = Push_payload (rr_id rental) (map_option mb_id (io_bill r)) (io_amount r) (io_days r)
       (io_invoiced_through r), wl_outbox_payload = None\<rparr>"

definition enqueueRentalInvoicePush :: "int \<Rightarrow> rental_row \<Rightarrow> invoice_outcome \<Rightarrow> rental_db \<Rightarrow> rental_db" where
  "enqueueRentalInvoicePush now rental r db =
     (case find (is_rental (rr_company_id rental) (rr_id rental)) (rd_rentals db) of
        None \<Rightarrow> db
      | Some current \<Rightarrow>
          if rr_status current \<noteq> Returned then db else recordLedger now (push_ledger rental current r) db)"

section \<open>The worker and the manual trigger\<close>

text \<open>
  \<open>now\<close> in milliseconds is both clocks; \<open>today\<close> is \<open>new Date().toISOString().slice(0, 10)\<close>.  Bills are named by
  \<open>uuid\<close> and their number.
\<close>

definition today :: "int \<Rightarrow> string" where
  "today now = take 10 (toISOString now)"

definition ledgered_invoice ::
  "(nat \<Rightarrow> string) \<Rightarrow> int \<Rightarrow> rental_row \<Rightarrow> rental_db \<Rightarrow> (invoice_outcome \<times> rental_db) result" where
  "ledgered_invoice uuid now rental db =
     (case processRentalInvoice (uuid (length (rd_bills db))) now rental (today now) db of Inl e \<Rightarrow> Inl e
      | Inr (r, db1) \<Rightarrow>
          (let db2 = (case io_bill r of None \<Rightarrow> db1 | Some b \<Rightarrow> recordLedger now (bill_ledger rental b) db1)
           in Inr (r, recordLedger now (invoice_ledger rental r) db2)))"

text \<open>The transaction of the worker for one due rental.\<close>

definition drain_one ::
  "(nat \<Rightarrow> string) \<Rightarrow> int \<Rightarrow> rental_row \<Rightarrow> rental_db \<Rightarrow> (invoice_outcome \<times> rental_db) result" where
  "drain_one uuid now rental db =
     (case ledgered_invoice uuid now rental db of Inl e \<Rightarrow> Inl e
      | Inr (r, db1) \<Rightarrow> Inr (r, if rr_status rental = Returned \<and> io_bill r \<noteq> None
          then enqueueRentalInvoicePush now rental r db1 else db1))"

record rental_invoice_summary =
  rs_processed :: nat
  rs_billed :: nat
  rs_skipped :: nat
  rs_amount :: double

fun drain_loop ::
  "(nat \<Rightarrow> string) \<Rightarrow> int \<Rightarrow> rental_row list \<Rightarrow> rental_invoice_summary \<Rightarrow> rental_db \<Rightarrow> rental_invoice_summary \<times> rental_db" where
  "drain_loop uuid now [] acc db = (acc, db)"
| "drain_loop uuid now (rental # rest) acc db =
     (case drain_one uuid now rental db of
        Inl _ \<Rightarrow> drain_loop uuid now rest acc db
      | Inr (r, db') \<Rightarrow> drain_loop uuid now rest
          (if io_bill r \<noteq> None
           then acc\<lparr>rs_billed := rs_billed acc + 1, rs_amount := num_add (rs_amount acc) (io_amount r)\<rparr>
           else acc\<lparr>rs_skipped := rs_skipped acc + 1\<rparr>) db')"

definition RENTAL_INVOICE_MAX_PER_HEARTBEAT :: int where
  "RENTAL_INVOICE_MAX_PER_HEARTBEAT = 50"

definition drainRentalInvoices ::
  "(nat \<Rightarrow> string) \<Rightarrow> string \<Rightarrow> int \<Rightarrow> rental_db \<Rightarrow> rental_invoice_summary \<times> rental_db" where
  "drainRentalInvoices uuid companyId now db =
     (let due = fetchDueRentals companyId now RENTAL_INVOICE_MAX_PER_HEARTBEAT db
      in drain_loop uuid now due
        \<lparr>rs_processed = length due, rs_billed = 0, rs_skipped = 0, rs_amount = num_of_int 0\<rparr> db)"

text \<open>\<open>POST /api/rentals/:id/invoice\<close>: the row is read before the transaction.\<close>

definition read_rental :: "string \<Rightarrow> string \<Rightarrow> rental_db \<Rightarrow> rental_row option" where
  "read_rental companyId rentalId db =
     find (\<lambda>r. is_rental companyId rentalId r \<and> rr_deleted_at r = None) (rd_rentals db)"

definition invoice_route ::
  "(nat \<Rightarrow> string) \<Rightarrow> int \<Rightarrow> rental_row option \<Rightarrow> rental_db \<Rightarrow> (invoice_outcome \<times> rental_db) result" where
  "invoice_route uuid now existing db =
     (case existing of None \<Rightarrow> Inl (HttpError 404 ''rental not found'')
      | Some rental \<Rightarrow>
          if some_text (rr_project_id rental) = None
          then Inl (HttpError 400 ''rental must be linked to a project to invoice'')
          else ledgered_invoice uuid now rental db)"

text \<open>What persisting \<open>RETURN\<close> does to the row: \<open>returned_on\<close> keeps a date it already has.\<close>

definition return_rental :: "int \<Rightarrow> string \<Rightarrow> string \<Rightarrow> rental_db \<Rightarrow> rental_db" where
  "return_rental now companyId rentalId db =
     snd (update_rental companyId rentalId (\<lambda>row. if rr_deleted_at row = None \<and> rr_status row = Active
       then row\<lparr>rr_status := Returned, rr_state_version := rr_state_version row + 1,
         rr_returned_on := Some (case rr_returned_on row of None \<Rightarrow> today now | Some d \<Rightarrow> d),
         rr_version := rr_version row + 1, rr_updated_at := now\<rparr> else row) db)"

section \<open>The next invoice in days\<close>

lemma day_after_iso: "iso_day z \<Longrightarrow> iso_day (z + 1) \<Longrightarrow> day_after (iso z) = iso (z + 1)"
  by (simp add: day_after_def parse_format_date addDaysUtc_int iso_clip)

lemma today_iso:
  assumes "iso_day (now div 86400000)"
  shows "today now = iso (now div 86400000)"
proof -
  obtain y m d where civil: "civil_of_days (now div 86400000) = (y, m, d)" by (cases "civil_of_days (now div 86400000)")
  note range = civil_of_days_valid [OF civil] civil_year_range [OF civil assms]
  let ?y = "pad_start 4 (show_int y)" and ?m = "pad_start 2 (show_int m)" and ?d = "pad_start 2 (show_int d)"
  have len: "length ?y = 4" "length ?m = 2" "length ?d = 2" using range by (simp_all add: pad_start_digits)
  have "padded_nat w i = pad_start w (show_int i)" if "0 \<le> i" for w i
    using that by (simp add: padded_nat_def pad_start_def show_int_nonneg Let_def)
  then obtain r where "toISOString now = (?y @ ''-'' @ ?m @ ''-'' @ ?d) @ r"
    using range by (simp add: toISOString_def civil show_year_def Let_def)
  then show ?thesis using len by (simp add: today_def formatISODate_def civil)
qed

text \<open>The last day of the period that starts on day \<open>S\<close>, for a cadence of \<open>C\<close> days on day \<open>T\<close>.\<close>

definition last_day :: "int \<Rightarrow> int \<Rightarrow> int \<Rightarrow> int option \<Rightarrow> int" where
  "last_day S C T ret = (let E = min (S + C - 1) T in case ret of None \<Rightarrow> E | Some r \<Rightarrow> min E r)"

text \<open>The dates of a rental: delivered on day \<open>d\<close>, billed up to the day before \<open>S\<close>, returned on \<open>ret\<close>.\<close>

definition rental_dates :: "rental_row \<Rightarrow> int \<Rightarrow> int \<Rightarrow> int option \<Rightarrow> bool" where
  "rental_dates r d S ret \<longleftrightarrow> iso_day d \<and> iso_day S \<and> d \<le> S \<and> rr_delivered_on r = iso d \<and>
     rr_last_invoiced_through r = (if S = d then None else Some (iso (S - 1))) \<and>
     (case ret of None \<Rightarrow> rr_returned_on r = None | Some z \<Rightarrow> iso_day z \<and> rr_returned_on r = Some (iso z)) \<and>
     1 \<le> rr_invoice_cadence_days r \<and> rr_invoice_cadence_days r \<le> 1000000"

lemma cadence_of_row:
  assumes "1 \<le> C" "C \<le> 1000000"
  shows "less_one (cadence_days d (Numeric (num_of_int C))) = num_of_int (C - 1)"
proof -
  have "cadence_days d (Numeric (num_of_int C)) = num_of_int C"
    using assms by (simp add: cadence_days_def num_or_int math_max_int max_def)
  then show ?thesis using assms by (simp add: less_one_def num_sub_int)
qed

lemma period_start_of_row:
  assumes "rental_dates r d S ret"
  shows "(case some_text (rr_last_invoiced_through r) of Some t \<Rightarrow> day_after t | None \<Rightarrow> rr_delivered_on r) = iso S"
proof (cases "S = d")
  case False
  with assms have "iso_day (S - 1)" "iso_day (S - 1 + 1)" by (auto simp: rental_dates_def iso_day_def)
  then show ?thesis using assms False day_after_iso [of "S - 1"] by (auto simp: rental_dates_def)
qed (use assms in \<open>simp add: rental_dates_def\<close>)

lemma period_end_of_row:
  assumes "iso_day S" "iso_day T" "1 \<le> C" "C \<le> 1000000"
  shows "invoice_period_end (addDaysUtc (Some S) (num_of_int (C - 1))) (Some T) (map_option Some ret)
     = (Some (last_day S C T ret), ret = Some (last_day S C T ret))"
proof -
  have "\<bar>S + (C - 1)\<bar> \<le> 100000000" using assms by (auto simp: iso_day_def)
  then have "addDaysUtc (Some S) (num_of_int (C - 1)) = Some (S + (C - 1))"
    using assms by (subst addDaysUtc_int) (auto simp: time_clip_def)
  then show ?thesis by (auto simp: invoice_period_end_def last_day_def Let_def split: option.splits)
qed

lemma invoice_of_row_period:
  assumes dates: "rental_dates r d S ret" and T: "iso_day T"
    and E: "E = last_day S (rr_invoice_cadence_days r) T ret" and "S \<le> E"
  shows "iv_period_start (invoice_of_row r (iso T)) = iso S" "iv_days (invoice_of_row r (iso T)) = E - S + 1"
    "iv_period_end (invoice_of_row r (iso T)) = iso E" "iv_invoiced_through (invoice_of_row r (iso T)) = iso E"
    "iv_next_status (invoice_of_row r (iso T)) =
       (if ret = Some E then Closed else if ret \<noteq> None then Returned else Active)"
    "iv_next_invoice_at (invoice_of_row r (iso T)) =
       (if ret = Some E then None else Some (midnight (addDaysUtc (Some E) (num_of_int 1))))"
proof -
  let ?C = "rr_invoice_cadence_days r"
  have C: "1 \<le> ?C" "?C \<le> 1000000" and "iso_day S" using dates by (auto simp: rental_dates_def)
  have "E \<le> T" using E by (auto simp: last_day_def Let_def split: option.splits)
  then have "iso_day E" using \<open>S \<le> E\<close> \<open>iso_day S\<close> T by (auto simp: iso_day_def)
  have ret: "some_text (rr_returned_on r) = map_option iso ret" "\<And>z. ret = Some z \<Longrightarrow> iso_day z"
    using dates by (auto simp: rental_dates_def split: option.splits)
  then have parsed: "map_option parseISODate (map_option iso ret) = map_option Some ret"
    by (cases ret) (simp_all add: parse_format_date)
  note facts = period_start_of_row [OF dates] period_end_of_row [OF \<open>iso_day S\<close> T C, of ret, folded E]
    cadence_of_row [OF C] parse_format_date [OF \<open>iso_day S\<close>] parse_format_date [OF T]
    parse_format_date [OF \<open>iso_day E\<close>] ret(1) parsed
  have "\<not> T < S" "\<not> E < S" using \<open>E \<le> T\<close> \<open>S \<le> E\<close> by auto
  then have "invoice_of_row r (iso T) = \<lparr>iv_days = E - S + 1,
      iv_amount = roundMoney (num_mul (num_of_int (E - S + 1)) (number_or (num_of_int 0) (Textual (rr_daily_rate r)))),
      iv_period_start = iso S, iv_period_end = iso E, iv_invoiced_through = iso E,
      iv_next_invoice_at = (if ret = Some E then None else Some (midnight (addDaysUtc (Some E) (num_of_int 1)))),
      iv_next_status = (if ret = Some E then Closed else if ret \<noteq> None then Returned else Active)\<rparr>"
    using \<open>S \<le> E\<close> unfolding invoice_of_row_def calculateRentalInvoice_def Let_def rental_for_invoice.simps facts
    by (simp add: diffDaysUtc_def facts)
  then show "iv_period_start (invoice_of_row r (iso T)) = iso S" "iv_days (invoice_of_row r (iso T)) = E - S + 1"
    "iv_period_end (invoice_of_row r (iso T)) = iso E" "iv_invoiced_through (invoice_of_row r (iso T)) = iso E"
    "iv_next_status (invoice_of_row r (iso T)) =
       (if ret = Some E then Closed else if ret \<noteq> None then Returned else Active)"
    "iv_next_invoice_at (invoice_of_row r (iso T)) =
       (if ret = Some E then None else Some (midnight (addDaysUtc (Some E) (num_of_int 1))))"
    by simp_all
qed

lemma invoice_of_row_nothing:
  assumes dates: "rental_dates r d S ret" and T: "iso_day T"
    and E: "last_day S (rr_invoice_cadence_days r) T ret < S"
  shows "iv_days (invoice_of_row r (iso T)) = 0"
    "iv_next_status (invoice_of_row r (iso T)) =
       (if T < S \<and> (\<forall>z. ret = Some z \<longrightarrow> z < S) then (if ret = None then Active else Returned) else Closed)"
proof -
  let ?C = "rr_invoice_cadence_days r"
  let ?E = "last_day S ?C T ret"
  have C: "1 \<le> ?C" "?C \<le> 1000000" and "iso_day S" using dates by (auto simp: rental_dates_def)
  have ret: "some_text (rr_returned_on r) = map_option iso ret" "\<And>z. ret = Some z \<Longrightarrow> iso_day z"
    using dates by (auto simp: rental_dates_def split: option.splits)
  have "?E = T \<or> ret = Some ?E" using E C by (auto simp: last_day_def Let_def min_def split: option.splits)
  then have "iso_day ?E" using T ret(2) by auto
  have none: "ret = None \<Longrightarrow> T < S" using E C by (simp add: last_day_def min_def split: if_splits)
  have parsed: "map_option parseISODate (map_option iso ret) = map_option Some ret"
    using ret(2) by (cases ret) (simp_all add: parse_format_date)
  have late: "(case map_option iso ret of None \<Rightarrow> False | Some z \<Rightarrow> date_le (Some S) (parseISODate z)) \<longleftrightarrow>
      \<not> (\<forall>z. ret = Some z \<longrightarrow> z < S)"
    using ret(2) by (cases ret) (auto simp: parse_format_date)
  note facts = period_start_of_row [OF dates] period_end_of_row [OF \<open>iso_day S\<close> T C, of ret]
    cadence_of_row [OF C] parse_format_date [OF \<open>iso_day S\<close>] parse_format_date [OF T]
    parse_format_date [OF \<open>iso_day ?E\<close>] ret(1) parsed late
  show "iv_days (invoice_of_row r (iso T)) = 0"
    "iv_next_status (invoice_of_row r (iso T)) =
       (if T < S \<and> (\<forall>z. ret = Some z \<longrightarrow> z < S) then (if ret = None then Active else Returned) else Closed)"
    using E none unfolding invoice_of_row_def calculateRentalInvoice_def Let_def rental_for_invoice.simps facts
    by (auto simp: facts)
qed

section \<open>The life of a rental\<close>

text \<open>
  What can happen to one rental: the worker bills it when it is due, somebody triggers an invoice, it is returned.
  Every invoice works on the row as it is at that moment; a failed transaction leaves everything as it was.
\<close>

datatype rental_action = Worker_invoice int | Manual_invoice int | Return_rental int

fun action_time :: "rental_action \<Rightarrow> int" where
  "action_time (Worker_invoice now) = now" | "action_time (Manual_invoice now) = now"
| "action_time (Return_rental now) = now"

definition settled :: "(invoice_outcome \<times> rental_db) result \<Rightarrow> rental_db \<Rightarrow> invoice_outcome list \<times> rental_db" where
  "settled r db = (case r of Inl _ \<Rightarrow> ([], db) | Inr (w, db') \<Rightarrow> ([w], db'))"

fun rental_act ::
  "(nat \<Rightarrow> string) \<Rightarrow> string \<Rightarrow> string \<Rightarrow> rental_action \<Rightarrow> rental_db \<Rightarrow> invoice_outcome list \<times> rental_db" where
  "rental_act uuid co rid (Worker_invoice now) db =
     (case read_rental co rid db of
        None \<Rightarrow> ([], db)
      | Some rental \<Rightarrow> if rental_due co now rental then settled (drain_one uuid now rental db) db else ([], db))"
| "rental_act uuid co rid (Manual_invoice now) db =
     settled (invoice_route uuid now (read_rental co rid db) db) db"
| "rental_act uuid co rid (Return_rental now) db = ([], return_rental now co rid db)"

fun rental_actions ::
  "(nat \<Rightarrow> string) \<Rightarrow> string \<Rightarrow> string \<Rightarrow> rental_action list \<Rightarrow> rental_db \<Rightarrow> invoice_outcome list \<times> rental_db" where
  "rental_actions uuid co rid [] db = ([], db)"
| "rental_actions uuid co rid (a # as) db =
     (let (os, db1) = rental_act uuid co rid a db; (os', db2) = rental_actions uuid co rid as db1
      in (os @ os', db2))"

text \<open>The invoices cover the days from \<open>S\<close> to the day before \<open>S'\<close>, each once and in order.\<close>

fun tiles :: "int \<Rightarrow> invoice_outcome list \<Rightarrow> int \<Rightarrow> bool" where
  "tiles S [] S' \<longleftrightarrow> S' = S"
| "tiles S (w # ws) S' \<longleftrightarrow>
     (if io_bill w = None \<and> io_days w = 0 then tiles S ws S'
      else 0 < io_days w \<and> io_period_start w = formatISODate (Some S)
        \<and> io_invoiced_through w = formatISODate (Some (S + io_days w - 1)) \<and> tiles (S + io_days w) ws S')"

lemma tiles_append: "tiles S ws S1 \<Longrightarrow> tiles S1 vs S2 \<Longrightarrow> tiles S (ws @ vs) S2"
  by (induction ws arbitrary: S) (auto split: if_splits)

definition keeps_key :: "(rental_row \<Rightarrow> rental_row) \<Rightarrow> bool" where
  "keeps_key f \<longleftrightarrow> (\<forall>r. rr_id (f r) = rr_id r \<and> rr_company_id (f r) = rr_company_id r
     \<and> rr_deleted_at (f r) = rr_deleted_at r)"

lemma read_update:
  "keeps_key f \<Longrightarrow> read_rental co rid (snd (update_rental co rid f db)) = map_option f (read_rental co rid db)"
proof -
  assume f: "keeps_key f"
  have "find (\<lambda>r. is_rental co rid r \<and> rr_deleted_at r = None) (map (\<lambda>r. if is_rental co rid r then f r else r) rs)
      = map_option f (find (\<lambda>r. is_rental co rid r \<and> rr_deleted_at r = None) rs)" for rs
    using f by (induction rs) (auto simp: is_rental_def keeps_key_def)
  then show ?thesis by (simp add: read_rental_def update_rental_def)
qed

lemma read_rental_key: "read_rental co rid db = Some r \<Longrightarrow> rr_company_id r = co \<and> rr_id r = rid"
  by (auto simp: read_rental_def is_rental_def find_Some_iff)

lemma ledger_frame [simp]:
  "rd_rentals (recordLedger now args db) = rd_rentals db" "rd_bills (recordLedger now args db) = rd_bills db"
  "rd_rentals (enqueueRentalInvoicePush now rental w db) = rd_rentals db"
  "rd_bills (enqueueRentalInvoicePush now rental w db) = rd_bills db"
  by (simp_all add: recordLedger_def enqueueRentalInvoicePush_def Let_def split: option.splits)

lemma read_rental_frame: "rd_rentals db = rd_rentals db' \<Longrightarrow> read_rental co rid db = read_rental co rid db'"
  by (simp add: read_rental_def)

text \<open>The state between two actions: billed up to the day before \<open>S\<close>.\<close>

definition billed_to :: "string \<Rightarrow> string \<Rightarrow> rental_db \<Rightarrow> int \<Rightarrow> int \<Rightarrow> bool" where
  "billed_to co rid db d S \<longleftrightarrow> (\<exists>r ret. read_rental co rid db = Some r \<and> rental_dates r d S ret)"

lemma rental_dates_frame:
  "\<lbrakk>rental_dates r d S ret; rr_delivered_on r' = rr_delivered_on r; rr_returned_on r' = rr_returned_on r;
    rr_last_invoiced_through r' = rr_last_invoiced_through r;
    rr_invoice_cadence_days r' = rr_invoice_cadence_days r\<rbrakk> \<Longrightarrow> rental_dates r' d S ret"
  by (cases ret) (simp_all add: rental_dates_def)

lemma rental_dates_advance:
  "\<lbrakk>rental_dates r d S ret; S < S'; iso_day S'; rr_delivered_on r' = rr_delivered_on r;
    rr_returned_on r' = rr_returned_on r; rr_last_invoiced_through r' = Some (iso (S' - 1));
    rr_invoice_cadence_days r' = rr_invoice_cadence_days r\<rbrakk> \<Longrightarrow> rental_dates r' d S' ret"
  by (cases ret) (simp_all add: rental_dates_def)

lemma last_day_le: "last_day S C T ret \<le> T"
  by (auto simp: last_day_def Let_def split: option.splits)

lemma process_step:
  assumes read: "read_rental co rid db = Some r" and dates: "rental_dates r d S ret"
    and T: "iso_day T" "iso_day (T + 1)"
    and run: "processRentalInvoice bill_id now r (iso T) db = Inr (w, db')"
  obtains S' where "tiles S [w] S'" "billed_to co rid db' d S'"
proof -
  let ?C = "rr_invoice_cadence_days r" and ?iv = "invoice_of_row r (iso T)"
  let ?E = "last_day S ?C T ret"
  have key: "rr_company_id r = co" "rr_id r = rid" using read_rental_key [OF read] by auto
  obtain next_at where next_at: "timestamp_column (iv_next_invoice_at ?iv) = Inr next_at"
    using run by (auto simp: processRentalInvoice_def Let_def split: sum.splits)
  show ?thesis
  proof (cases "iv_days ?iv \<le> 0 \<or> num_le (iv_amount ?iv) (num_of_int 0)")
    case True
    let ?f = "\<lambda>row. row\<lparr>rr_next_invoice_at := next_at, rr_status := iv_next_status ?iv,
      rr_version := rr_version row + 1, rr_updated_at := now\<rparr>"
    have w: "io_bill w = None" "io_days w = 0" "db' = snd (update_rental co rid ?f db)"
      using run True by (auto simp: processRentalInvoice_def Let_def next_at key split: prod.splits)
    then have "read_rental co rid db' = Some (?f r)" using read by (simp add: read_update keeps_key_def)
    moreover have "rental_dates (?f r) d S ret" by (rule rental_dates_frame [OF dates]) simp_all
    ultimately show ?thesis using w by (intro that [of S]) (auto simp: billed_to_def)
  next
    case False
    have "S \<le> ?E"
    proof (rule ccontr)
      assume "\<not> S \<le> ?E"
      then show False using False invoice_of_row_nothing(1) [OF dates T(1)] by simp
    qed
    note iv = invoice_of_row_period [OF dates T(1) refl this]
    let ?f = "\<lambda>row. row\<lparr>rr_next_invoice_at := next_at, rr_status := iv_next_status ?iv,
      rr_version := rr_version row + 1, rr_updated_at := now,
      rr_last_invoice_amount := Some (iv_amount ?iv), rr_last_invoiced_through := Some (iso ?E)\<rparr>"
    have "io_days w = iv_days ?iv \<and> io_period_start w = iv_period_start ?iv
        \<and> io_invoiced_through w = iv_invoiced_through ?iv
        \<and> rd_rentals db' = rd_rentals (snd (update_rental co rid (\<lambda>row. row\<lparr>rr_next_invoice_at := next_at,
            rr_status := iv_next_status ?iv, rr_version := rr_version row + 1, rr_updated_at := now,
            rr_last_invoice_amount := Some (iv_amount ?iv),
            rr_last_invoiced_through := Some (iv_invoiced_through ?iv)\<rparr>) db))"
      using run False unfolding processRentalInvoice_def Let_def next_at key
      by (auto simp: update_rental_def split: sum.splits)
    then have w: "io_days w = ?E - S + 1" "io_period_start w = iso S" "io_invoiced_through w = iso ?E"
      "rd_rentals db' = rd_rentals (snd (update_rental co rid ?f db))"
      unfolding iv(1-4) by blast+
    have "read_rental co rid db' = read_rental co rid (snd (update_rental co rid ?f db))"
      using w(4) by (rule read_rental_frame)
    then have "read_rental co rid db' = Some (?f r)" using read by (simp add: read_update keeps_key_def)
    moreover have "iso_day (?E + 1)"
      using T(2) \<open>S \<le> ?E\<close> last_day_le [of S ?C T ret] dates by (auto simp: rental_dates_def iso_day_def)
    then have "rental_dates (?f r) d (?E + 1) ret"
      using \<open>S \<le> ?E\<close> by (intro rental_dates_advance [OF dates]) simp_all
    ultimately have "billed_to co rid db' d (?E + 1)" by (auto simp: billed_to_def)
    moreover have "tiles S [w] (?E + 1)" using w(1-3) \<open>S \<le> ?E\<close> by simp
    ultimately show ?thesis by (rule that [rotated])
  qed
qed

lemma billed_to_frame: "billed_to co rid db d S \<Longrightarrow> rd_rentals db' = rd_rentals db \<Longrightarrow> billed_to co rid db' d S"
  by (auto simp: billed_to_def read_rental_def)

lemma settled_step:
  assumes "billed_to co rid db d S" "iso_day (now div 86400000)" "iso_day (now div 86400000 + 1)"
    and "read_rental co rid db = Some r" and "settled (ledgered_invoice uuid now r db) db = (ws, db')"
  obtains S' where "tiles S ws S'" "billed_to co rid db' d S'"
proof (cases "ledgered_invoice uuid now r db")
  case (Inl e)
  with assms show ?thesis by (intro that [of S]) (simp_all add: settled_def)
next
  case (Inr v)
  then obtain w db1 where run: "processRentalInvoice (uuid (length (rd_bills db))) now r (today now) db = Inr (w, db1)"
    and w: "ws = [w]" "rd_rentals db' = rd_rentals db1"
    using assms(5) by (auto simp: ledgered_invoice_def settled_def Let_def split: sum.splits option.splits)
  from assms(1,4) obtain ret where "rental_dates r d S ret" by (auto simp: billed_to_def)
  from process_step [OF assms(4) this assms(2,3) run [unfolded today_iso [OF assms(2)]]] obtain S'
    where "tiles S [w] S'" "billed_to co rid db1 d S'" .
  then show ?thesis using w by (intro that [of S']) (auto intro: billed_to_frame)
qed

lemma drain_one_rentals:
  "settled (drain_one uuid now r db) db = (ws, db') \<Longrightarrow>
    \<exists>db1. settled (ledgered_invoice uuid now r db) db = (ws, db1) \<and> rd_rentals db' = rd_rentals db1"
  by (auto simp: drain_one_def settled_def split: sum.splits)

lemma action_step:
  assumes "billed_to co rid db d S" "rental_act uuid co rid a db = (ws, db')"
    and T: "iso_day (action_time a div 86400000)" "iso_day (action_time a div 86400000 + 1)"
  obtains S' where "tiles S ws S'" "billed_to co rid db' d S'"
proof -
  obtain r ret where read: "read_rental co rid db = Some r" and dates: "rental_dates r d S ret"
    using assms(1) by (auto simp: billed_to_def)
  show ?thesis
  proof (cases a)
    case (Worker_invoice now)
    show ?thesis
    proof (cases "rental_due co now r")
      case True
      then obtain db1 where "settled (ledgered_invoice uuid now r db) db = (ws, db1)" "rd_rentals db' = rd_rentals db1"
        using assms(2) read Worker_invoice drain_one_rentals by auto blast
      moreover from settled_step [OF assms(1) _ _ read this(1)] T Worker_invoice obtain S'
        where "tiles S ws S'" "billed_to co rid db1 d S'" by auto
      ultimately show ?thesis by (intro that [of S']) (auto intro: billed_to_frame)
    qed (use assms read Worker_invoice in \<open>auto intro: that\<close>)
  next
    case (Manual_invoice now)
    show ?thesis
    proof (cases "some_text (rr_project_id r) = None")
      case False
      then have "settled (ledgered_invoice uuid now r db) db = (ws, db')"
        using assms(2) read Manual_invoice by (auto simp: invoice_route_def)
      with settled_step [OF assms(1) _ _ read this] T Manual_invoice show ?thesis by (auto intro: that)
    qed (use assms read Manual_invoice in \<open>auto simp: invoice_route_def settled_def intro: that\<close>)
  next
    case (Return_rental now)
    let ?f = "\<lambda>row. if rr_deleted_at row = None \<and> rr_status row = Active
       then row\<lparr>rr_status := Returned, rr_state_version := rr_state_version row + 1,
         rr_returned_on := Some (case rr_returned_on row of None \<Rightarrow> today now | Some d \<Rightarrow> d),
         rr_version := rr_version row + 1, rr_updated_at := now\<rparr> else row"
    have ws: "ws = []" "db' = snd (update_rental co rid ?f db)"
      using assms(2) Return_rental by (simp_all add: return_rental_def)
    then have read': "read_rental co rid db' = Some (?f r)" using read by (simp add: read_update keeps_key_def)
    have "\<exists>ret'. rental_dates (?f r) d S ret'"
    proof (cases "rr_returned_on r")
      case None
      then have "rental_dates (?f r) d S (if rr_deleted_at r = None \<and> rr_status r = Active
          then Some (now div 86400000) else ret)"
        using dates T(1) Return_rental today_iso [of now] by (auto simp: rental_dates_def split: option.splits)
      then show ?thesis by blast
    next
      case (Some z)
      have "rental_dates (?f r) d S ret" by (rule rental_dates_frame [OF dates]) (simp_all add: Some)
      then show ?thesis by blast
    qed
    then show ?thesis using read' ws(1) by (intro that [of S]) (auto simp: billed_to_def)
  qed
qed

lemma actions_tile:
  assumes "billed_to co rid db d S" "rental_actions uuid co rid as db = (ws, db')"
    and "list_all (\<lambda>a. iso_day (action_time a div 86400000) \<and> iso_day (action_time a div 86400000 + 1)) as"
  shows "\<exists>S'. tiles S ws S' \<and> billed_to co rid db' d S'"
  using assms
proof (induction as arbitrary: db S ws)
  case (Cons a as)
  obtain vs db1 us where step: "rental_act uuid co rid a db = (vs, db1)"
    "rental_actions uuid co rid as db1 = (us, db')" "ws = vs @ us"
    using Cons.prems(2) by (auto simp: Let_def split: prod.splits)
  obtain S1 where "tiles S vs S1" "billed_to co rid db1 d S1"
    using action_step [OF Cons.prems(1) step(1)] Cons.prems(3) by auto
  moreover obtain S' where "tiles S1 us S'" "billed_to co rid db' d S'"
    using Cons.IH [OF calculation(2) step(2)] Cons.prems(3) by auto
  ultimately show ?case using tiles_append step(3) by blast
qed auto

text \<open>
  C8: From a rental that has not been billed, whatever the worker, the manual trigger and a
  return do in whatever order, the bills cover the days from delivery on without gap or overlap: each
  invoice starts the day after the one before it, bills as many days as its period has, and the row's
  \<open>last_invoiced_through\<close> is the last day billed.
\<close>

theorem rental_billed_once:
  assumes "read_rental co rid db = Some r" "rental_dates r d d ret"
    and "list_all (\<lambda>a. iso_day (action_time a div 86400000) \<and> iso_day (action_time a div 86400000 + 1)) as"
  shows "\<exists>S. tiles d (fst (rental_actions uuid co rid as db)) S \<and>
    map_option rr_last_invoiced_through (read_rental co rid (snd (rental_actions uuid co rid as db)))
      = Some (if S = d then None else Some (formatISODate (Some (S - 1))))"
proof -
  have "billed_to co rid db d d" using assms(1,2) by (auto simp: billed_to_def)
  from actions_tile [OF this surjective_pairing assms(3)] obtain S where
    "tiles d (fst (rental_actions uuid co rid as db)) S" "billed_to co rid (snd (rental_actions uuid co rid as db)) d S"
    by blast
  then show ?thesis by (auto simp: billed_to_def rental_dates_def)
qed

definition demo_rental :: rental_row where
  "demo_rental = \<lparr>rr_id = ''r'', rr_company_id = ''c'', rr_project_id = Some ''p'', rr_customer_id = None,
     rr_item_description = ''scaffold'', rr_daily_rate = ''10'', rr_delivered_on = formatISODate (Some 20458),
     rr_returned_on = None, rr_next_invoice_at = Some 20465, rr_invoice_cadence_days = 7, rr_last_invoice_amount = None,
     rr_last_invoiced_through = None, rr_status = Active, rr_state_version = 1, rr_notes = None, rr_version = 1,
     rr_deleted_at = None, rr_updated_at = 0\<rparr>"

definition demo_db :: "rental_row \<Rightarrow> rental_db" where
  "demo_db r = \<lparr>rd_rentals = [r], rd_bills = [], rd_outbox = [], rd_sync_events = []\<rparr>"

lemma demo_read: "rr_company_id r = ''c'' \<Longrightarrow> rr_id r = ''r'' \<Longrightarrow> rr_deleted_at r = None \<Longrightarrow>
    read_rental ''c'' ''r'' (demo_db r) = Some r"
  by (simp add: read_rental_def demo_db_def is_rental_def)

lemma rental_billed_once_witness:
  "\<exists>S. tiles 20458 (fst (rental_actions show_nat ''c'' ''r''
       [Worker_invoice 1768176000000, Return_rental 1768300000000, Manual_invoice 1768400000000] (demo_db demo_rental))) S \<and>
    map_option rr_last_invoiced_through (read_rental ''c'' ''r'' (snd (rental_actions show_nat ''c'' ''r''
       [Worker_invoice 1768176000000, Return_rental 1768300000000, Manual_invoice 1768400000000] (demo_db demo_rental))))
      = Some (if S = 20458 then None else Some (formatISODate (Some (S - 1))))"
proof (rule rental_billed_once)
  show "read_rental ''c'' ''r'' (demo_db demo_rental) = Some demo_rental"
    by (rule demo_read) (simp_all add: demo_rental_def)
  show "rental_dates demo_rental 20458 20458 None"
    by (simp add: rental_dates_def demo_rental_def iso_day_def)
qed (simp add: iso_day_def)

section \<open>What goes wrong\<close>

definition is_push :: "ledger_row \<Rightarrow> bool" where
  "is_push row \<longleftrightarrow> lr_mutation_type row = ''post_rental_invoice''"

definition push_keys :: "rental_db \<Rightarrow> string list" where
  "push_keys db = map lr_idempotency_key (filter is_push (rd_outbox db))"

lemma push_keys_ledger [simp]:
  "wl_mutation_type args \<noteq> ''post_rental_invoice'' \<Longrightarrow> push_keys (recordLedger now args db) = push_keys db"
proof -
  have "map lr_idempotency_key (filter is_push (map (\<lambda>row. if c row then row\<lparr>lr_payload := p, lr_status := st,
      lr_attempt_count := k row, lr_next_attempt_at := t\<rparr> else row) rows)) = map lr_idempotency_key (filter is_push rows)"
    for c p st k t rows by (induction rows) (auto simp: is_push_def)
  then show "wl_mutation_type args \<noteq> ''post_rental_invoice'' \<Longrightarrow> push_keys (recordLedger now args db) = push_keys db"
    by (simp add: push_keys_def recordLedger_def Let_def is_push_def)
qed

lemma find_updated:
  assumes "keeps_key f" "find (is_rental co rid) (rd_rentals (snd (update_rental co rid f db))) = Some x"
  shows "\<exists>r. x = f r"
proof -
  have "find (is_rental co rid) (map (\<lambda>r. if is_rental co rid r then f r else r) rs)
      = map_option f (find (is_rental co rid) rs)" for rs
    using assms(1) by (induction rs) (auto simp: is_rental_def keeps_key_def)
  then show ?thesis using assms(2) by (auto simp: update_rental_def)
qed

lemma process_status:
  assumes "processRentalInvoice bill_id now r ref db = Inr (w, db')"
  shows "rd_outbox db' = rd_outbox db"
    "find (is_rental (rr_company_id r) (rr_id r)) (rd_rentals db') = Some x \<Longrightarrow>
       rr_status x = iv_next_status (invoice_of_row r ref)"
proof -
  obtain f where f: "keeps_key f" "\<And>row. rr_status (f row) = iv_next_status (invoice_of_row r ref)"
    and db': "rd_rentals db' = rd_rentals (snd (update_rental (rr_company_id r) (rr_id r) f db))"
      "rd_outbox db' = rd_outbox db"
  proof (cases "iv_days (invoice_of_row r ref) \<le> 0 \<or> num_le (iv_amount (invoice_of_row r ref)) (num_of_int 0)")
    case True
    then obtain next_at where "timestamp_column (iv_next_invoice_at (invoice_of_row r ref)) = Inr next_at"
      using assms by (auto simp: processRentalInvoice_def Let_def split: sum.splits)
    then show ?thesis using assms True
      by (intro that [of "\<lambda>row. row\<lparr>rr_next_invoice_at := next_at,
          rr_status := iv_next_status (invoice_of_row r ref), rr_version := rr_version row + 1, rr_updated_at := now\<rparr>"])
        (auto simp: processRentalInvoice_def Let_def keeps_key_def update_rental_def)
  next
    case False
    then obtain next_at v where "timestamp_column (iv_next_invoice_at (invoice_of_row r ref)) = Inr next_at"
      "date_column (iv_invoiced_through (invoice_of_row r ref)) = Inr v"
      using assms by (auto simp: processRentalInvoice_def Let_def split: sum.splits)
    then show ?thesis using assms False
      by (intro that [of "\<lambda>row. row\<lparr>rr_next_invoice_at := next_at,
          rr_status := iv_next_status (invoice_of_row r ref), rr_version := rr_version row + 1, rr_updated_at := now,
          rr_last_invoice_amount := Some (iv_amount (invoice_of_row r ref)),
          rr_last_invoiced_through := Some (iv_invoiced_through (invoice_of_row r ref))\<rparr>"])
        (auto simp: processRentalInvoice_def Let_def keeps_key_def update_rental_def)
  qed
  show "rd_outbox db' = rd_outbox db" by (rule db'(2))
  show "rr_status x = iv_next_status (invoice_of_row r ref)"
    if "find (is_rental (rr_company_id r) (rr_id r)) (rd_rentals db') = Some x"
    using find_updated [OF f(1) that [unfolded db'(1)]] f(2) by blast
qed

lemma ledgered_process:
  assumes "ledgered_invoice uuid now r db = Inr (w, db')"
  obtains db1 where "processRentalInvoice (uuid (length (rd_bills db))) now r (today now) db = Inr (w, db1)"
    "rd_rentals db' = rd_rentals db1" "rd_bills db' = rd_bills db1" "push_keys db' = push_keys db1"
  using assms
  by (auto simp: ledgered_invoice_def Let_def bill_ledger_def invoice_ledger_def split: sum.splits option.splits)

lemma date_column_iso: "iso_day z \<Longrightarrow> date_column (iso z) = Inr z"
  by (simp add: date_column_def parse_format_date)

lemma length_iso:
  assumes "iso_day z"
  shows "length (iso z) = 10"
proof -
  obtain y m d where civil: "civil_of_days z = (y, m, d)" by (cases "civil_of_days z")
  then show ?thesis
    using civil_of_days_valid [OF civil] civil_year_range [OF civil assms] by (simp add: formatISODate_def pad_start_digits)
qed

lemma timestamp_column_midnight:
  "iso_day z \<Longrightarrow> iso_day (z + 1) \<Longrightarrow>
    timestamp_column (Some (midnight (addDaysUtc (Some z) (num_of_int 1)))) = Inr (Some (z + 1))"
  by (simp add: timestamp_column_def midnight_def addDaysUtc_int iso_clip length_iso date_column_iso)

lemma process_bills:
  assumes dates: "rental_dates r d S ret" and T: "iso_day T" "iso_day (T + 1)"
    and "S \<le> last_day S (rr_invoice_cadence_days r) T ret"
    and "\<not> num_le (iv_amount (invoice_of_row r (iso T))) (num_of_int 0)" and "some_text (rr_project_id r) = Some p"
  obtains w db' where "processRentalInvoice bill_id now r (iso T) db = Inr (w, db')"
    "io_bill w = Some (new_bill bill_id r (invoice_of_row r (iso T)) p)"
    "rd_bills db' = rd_bills db @ [new_bill bill_id r (invoice_of_row r (iso T)) p]"
proof -
  let ?E = "last_day S (rr_invoice_cadence_days r) T ret" and ?iv = "invoice_of_row r (iso T)"
  note iv = invoice_of_row_period [OF dates T(1) refl assms(4)]
  have E: "iso_day ?E" "iso_day (?E + 1)"
    using assms(4) last_day_le [of S "rr_invoice_cadence_days r" T ret] T dates by (auto simp: rental_dates_def iso_day_def)
  then obtain next_at where "timestamp_column (iv_next_invoice_at ?iv) = Inr next_at"
    using timestamp_column_midnight iv(6) by (cases "ret = Some ?E") (auto simp: timestamp_column_def)
  moreover have "\<not> iv_days ?iv \<le> 0" using iv(2) assms(4) by simp
  moreover have "date_column (iv_invoiced_through ?iv) = Inr ?E" using date_column_iso [OF E(1)] iv(4) by simp
  ultimately show ?thesis
    using assms(5,6) by (cases "processRentalInvoice bill_id now r (iso T) db")
      (auto simp: processRentalInvoice_def Let_def update_rental_def intro!: that)
qed

text \<open>
  The last invoice of a returned rental is never put in line for QuickBooks: when the period
  reaches the day of return, billing sets the rental to \<open>closed\<close> itself, so the worker's check for \<open>returned\<close> right
  after it finds nothing to push, and the rental is never due again.
\<close>

lemma final_period_never_pushed:
  assumes "rental_dates r d S (Some z)" "iso_day (now div 86400000)"
    and "S \<le> z" "z \<le> now div 86400000" "z < S + rr_invoice_cadence_days r"
    and "drain_one uuid now r db = Inr (w, db')"
  shows "push_keys db' = push_keys db \<and>
    (\<forall>x. find (is_rental (rr_company_id r) (rr_id r)) (rd_rentals db') = Some x \<longrightarrow>
      rr_status x = Closed \<and> (\<forall>later. \<not> rental_due (rr_company_id r) later x))"
proof -
  obtain db1 where run: "ledgered_invoice uuid now r db = Inr (w, db1)"
    and db': "db' = (if rr_status r = Returned \<and> io_bill w \<noteq> None then enqueueRentalInvoicePush now r w db1 else db1)"
    using assms(6) by (auto simp: drain_one_def split: sum.splits)
  from ledgered_process [OF run] obtain db0
    where process: "processRentalInvoice (uuid (length (rd_bills db))) now r (today now) db = Inr (w, db0)"
      and frame: "rd_rentals db1 = rd_rentals db0" "push_keys db1 = push_keys db0" by blast
  have "last_day S (rr_invoice_cadence_days r) (now div 86400000) (Some z) = z"
    using assms(3-5) by (simp add: last_day_def)
  then have "iv_next_status (invoice_of_row r (iso (now div 86400000))) = Closed"
    using invoice_of_row_period(5) [OF assms(1,2) refl] assms(3) by simp
  then have closed: "rr_status x = Closed"
    if "find (is_rental (rr_company_id r) (rr_id r)) (rd_rentals db1) = Some x" for x
    using process_status(2) [OF process] that frame(1) today_iso [OF assms(2)] by simp
  then have "enqueueRentalInvoicePush now r w db1 = db1"
    by (auto simp: enqueueRentalInvoicePush_def split: option.splits)
  then have "db' = db1" using db' by simp
  moreover have "push_keys db1 = push_keys db"
    using frame(2) process_status(1) [OF process] by (simp add: push_keys_def)
  ultimately show ?thesis using closed by (simp add: rental_due_def)
qed

definition returned_demo :: rental_row where
  "returned_demo = demo_rental\<lparr>rr_status := Returned, rr_returned_on := Some (formatISODate (Some 20463))\<rparr>"

lemma amount_of_days:
  "iv_days (calculateRentalInvoice x ref) \<noteq> 0 \<Longrightarrow> iv_amount (calculateRentalInvoice x ref)
    = roundMoney (num_mul (num_of_int (iv_days (calculateRentalInvoice x ref))) (number_or (num_of_int 0) (ri_daily_rate x)))"
  unfolding calculateRentalInvoice_def Let_def by (auto split: if_splits prod.splits)

lemma amount_ten:
  assumes dates: "rental_dates r d S ret" and T: "iso_day T"
    and "S \<le> last_day S (rr_invoice_cadence_days r) T ret" and "rr_daily_rate r = ''10''"
  shows "\<not> num_le (iv_amount (invoice_of_row r (iso T))) (num_of_int 0)"
proof -
  let ?k = "last_day S (rr_invoice_cadence_days r) T ret - S + 1"
  have k: "1 \<le> ?k" "?k \<le> 1000000"
    using assms(3) dates last_day_le [of S "rr_invoice_cadence_days r" T ret]
    by (auto simp: rental_dates_def last_day_def Let_def split: option.splits)
  have "iv_days (invoice_of_row r (iso T)) = ?k" using invoice_of_row_period(2) [OF dates T refl assms(3)] .
  then have "iv_amount (invoice_of_row r (iso T)) = roundMoney (num_mul (num_of_int ?k) (number_or (num_of_int 0) (Textual ''10'')))"
    using k amount_of_days by (simp add: invoice_of_row_def assms(4))
  then have "iv_amount (invoice_of_row r (iso T)) = num_of_int (?k * 10)"
    using k by (simp add: small_text_number num_mul_int roundMoney_int)
  then show ?thesis using k num_less_int [of 0 "?k * 10"] by (auto simp: num_le_def num_of_int_exact)
qed

text \<open>
  The manual trigger reads the row before its transaction and the worker before its
  loop, without a lock: two of them that read the same row on one day both succeed, and the project is billed
  twice for the same days.
\<close>

lemma stale_read_bills_twice:
  assumes "rental_dates r d S ret" "iso_day (now div 86400000)" "iso_day (now div 86400000 + 1)"
    and "S \<le> last_day S (rr_invoice_cadence_days r) (now div 86400000) ret"
    and "\<not> num_le (iv_amount (invoice_of_row r (formatISODate (Some (now div 86400000))))) (num_of_int 0)"
    and "some_text (rr_project_id r) = Some p" and "later div 86400000 = now div 86400000"
  shows "\<exists>w w' db1 db2 b. invoice_route uuid now (Some r) db = Inr (w, db1) \<and>
    invoice_route uuid later (Some r) db1 = Inr (w', db2) \<and>
    rd_bills db2 = rd_bills db @ [b, b\<lparr>mb_id := uuid (length (rd_bills db1))\<rparr>] \<and>
    mb_amount b = iv_amount (invoice_of_row r (formatISODate (Some (now div 86400000))))"
proof -
  let ?iv = "invoice_of_row r (iso (now div 86400000))"
  have route: "\<exists>w db'. invoice_route uuid t (Some r) db0 = Inr (w, db') \<and>
      rd_bills db' = rd_bills db0 @ [new_bill (uuid (length (rd_bills db0))) r ?iv p]"
    if "t div 86400000 = now div 86400000" for t db0
  proof -
    obtain w db' where "processRentalInvoice (uuid (length (rd_bills db0))) t r (iso (now div 86400000)) db0 = Inr (w, db')"
      "rd_bills db' = rd_bills db0 @ [new_bill (uuid (length (rd_bills db0))) r ?iv p]"
      using process_bills [OF assms(1-6)] by blast
    then show ?thesis
      using assms(2,6) that today_iso [of t]
      by (auto simp: invoice_route_def ledgered_invoice_def Let_def split: option.splits)
  qed
  obtain w db1 where 1: "invoice_route uuid now (Some r) db = Inr (w, db1)"
    "rd_bills db1 = rd_bills db @ [new_bill (uuid (length (rd_bills db))) r ?iv p]" using route [of now db] by auto
  obtain w' db2 where 2: "invoice_route uuid later (Some r) db1 = Inr (w', db2)"
    "rd_bills db2 = rd_bills db1 @ [new_bill (uuid (length (rd_bills db1))) r ?iv p]"
    using route [OF assms(7), of db1] by auto
  have "rd_bills db2 = rd_bills db @ [new_bill (uuid (length (rd_bills db))) r ?iv p,
      (new_bill (uuid (length (rd_bills db))) r ?iv p)\<lparr>mb_id := uuid (length (rd_bills db1))\<rparr>]"
    using 1(2) 2(2) by (simp add: new_bill_def)
  with 1(1) 2(1) show ?thesis by (intro exI conjI) (auto simp: new_bill_def)
qed

lemma closed_no_next:
  "iv_next_status (calculateRentalInvoice r ref) = Closed \<Longrightarrow> iv_next_invoice_at (calculateRentalInvoice r ref) = None"
  unfolding calculateRentalInvoice_def Let_def by (auto split: if_splits prod.splits)

text \<open>
  An invoice triggered once everything up to today is billed closes a rental whose
  return is dated later: the days from tomorrow to the return are not billed then, and the worker, which only
  looks at open rentals, never bills them.
\<close>

lemma closed_with_unbilled_days:
  assumes "rental_dates r d S (Some z)" "iso_day (now div 86400000)"
    and "now div 86400000 < S" "S \<le> z"
  shows "\<exists>w db'. processRentalInvoice bill_id now r (today now) db = Inr (w, db') \<and>
    io_days w = 0 \<and> rd_bills db' = rd_bills db \<and>
    (\<forall>x. find (is_rental (rr_company_id r) (rr_id r)) (rd_rentals db') = Some x \<longrightarrow>
      rr_status x = Closed \<and> (\<forall>later. \<not> rental_due (rr_company_id r) later x))"
proof -
  let ?T = "now div 86400000"
  have "last_day S (rr_invoice_cadence_days r) ?T (Some z) < S" using assms(3) by (simp add: last_day_def)
  from invoice_of_row_nothing [OF assms(1,2) this] have iv: "iv_days (invoice_of_row r (today now)) = 0"
    "iv_next_status (invoice_of_row r (today now)) = Closed" using assms(3,4) today_iso [OF assms(2)] by auto
  moreover have "iv_next_invoice_at (invoice_of_row r (today now)) = None"
    using iv(2) by (simp add: closed_no_next invoice_of_row_def)
  ultimately obtain w db' where "processRentalInvoice bill_id now r (today now) db = Inr (w, db')"
    "io_days w = 0" "rd_bills db' = rd_bills db"
    by (simp add: processRentalInvoice_def Let_def timestamp_column_def update_rental_def)
  moreover from this(1) have "rr_status x = Closed \<and> (\<forall>later. \<not> rental_due (rr_company_id r) later x)"
    if "find (is_rental (rr_company_id r) (rr_id r)) (rd_rentals db') = Some x" for x
    using process_status(2) [OF _ that] iv(2) by (simp add: rental_due_def)
  ultimately show ?thesis by blast
qed

lemma future_return_dates:
  "rental_dates (demo_rental\<lparr>rr_last_invoiced_through := Some (formatISODate (Some 20464)),
     rr_returned_on := Some (formatISODate (Some 20470))\<rparr>) 20458 20465 (Some 20470)"
  by (simp add: rental_dates_def demo_rental_def iso_day_def)

end
