(* ===== verification/Ledger_Calls.thy ===== *)
theory Ledger_Calls
  imports Prelude
begin

text \<open>
  The calls a transaction makes of \<open>recordMutationLedger\<close> and of \<open>recordAudit\<close>, in their order, for the routes
  whose ledger rows are not the point: what a call does to \<open>sync_events\<close> and \<open>mutation_outbox\<close> is modelled in
  \<open>Billing_Route\<close>.  The payloads of a call are JSON of the rows the same transaction has just written and are
  left out.
\<close>

record ledger_call =
  lc_company_id :: string
  lc_entity_type :: string
  lc_entity_id :: string
  lc_action :: string
  lc_idempotency_key :: string

text \<open>The idempotency key defaults to \<open>entityType:action:entityId\<close>.\<close>

definition ledger_call_of :: "string \<Rightarrow> string \<Rightarrow> string \<Rightarrow> string \<Rightarrow> string option \<Rightarrow> ledger_call" where
  "ledger_call_of companyId entityType entityId action key =
     \<lparr>lc_company_id = companyId, lc_entity_type = entityType, lc_entity_id = entityId, lc_action = action,
      lc_idempotency_key = (case key of Some k \<Rightarrow> k
        | None \<Rightarrow> entityType @ '':'' @ action @ '':'' @ entityId)\<rparr>"

record audit_call =
  ac_company_id :: string
  ac_actor_user_id :: string
  ac_entity_type :: string
  ac_entity_id :: string
  ac_action :: string

end
