(* ===== verification/Job_Rental.thy ===== *)
theory Job_Rental
  imports Js_Date Ledger_Calls
begin

text \<open>
  Billing of job rental contracts: \<open>calculateJobRentalBillingRun\<close> of \<open>packages/domain/src/index.ts\<close> and the
  route that turns its result into a billing run, \<open>apps/api/src/routes/rental-contracts.ts\<close> with
  \<open>loadContractBillingData\<close> of \<open>rental-inventory.types.ts\<close>.  No row is locked, so a run is also modelled as steps: it
  reads the contract, then the lines, and then writes, and the steps of many runs and edits come in any order.  The
  lemmas show that no line is billed twice for a day, what an edit of the period between the reads of two runs
  does, and what happens to a period without billable lines.
\<close>

section \<open>Rates\<close>

datatype rate_unit = Per_day | Per_cycle | Per_week | Per_month | Per_each

fun rate_unit_name :: "rate_unit \<Rightarrow> string" where
  "rate_unit_name Per_day = ''day''" | "rate_unit_name Per_cycle = ''cycle''" | "rate_unit_name Per_week = ''week''"
| "rate_unit_name Per_month = ''month''" | "rate_unit_name Per_each = ''each''"

definition normalizeRentalRateUnit :: "string \<Rightarrow> rate_unit" where
  "normalizeRentalRateUnit s =
     (if s = ''cycle'' then Per_cycle else if s = ''week'' then Per_week else if s = ''month'' then Per_month
      else if s = ''each'' then Per_each else Per_day)"

record rate_tier =
  rt_rate_unit :: rate_unit
  rt_min_days :: int
  rt_max_days :: "int option"
  rt_rate :: double
  rt_sort_order :: int

definition pickRentalTier :: "int \<Rightarrow> rate_tier list \<Rightarrow> rate_tier option" where
  "pickRentalTier billableDays tiers =
     (let matching = filter (\<lambda>t. rt_min_days t \<le> billableDays \<and>
            (case rt_max_days t of None \<Rightarrow> True | Some m \<Rightarrow> billableDays \<le> m)) tiers
      in case sort_key rt_sort_order (sort_key rt_min_days matching) of [] \<Rightarrow> None | t # _ \<Rightarrow> Some t)"

definition calculateJobRentalLineAmount :: "double \<Rightarrow> double \<Rightarrow> rate_unit \<Rightarrow> int \<Rightarrow> double \<Rightarrow> double" where
  "calculateJobRentalLineAmount quantity agreedRate rateUnit billableDays cycleDays =
     (let q = num_mul quantity agreedRate; n = num_of_int billableDays
      in roundMoney (case rateUnit of
           Per_day \<Rightarrow> num_mul q n
         | Per_cycle \<Rightarrow> num_mul q (num_div n cycleDays)
         | Per_week \<Rightarrow> num_mul q (num_div n (num_of_int 7))
         | Per_month \<Rightarrow> num_mul q (num_div n (num_of_int 30))
         | Per_each \<Rightarrow> q))"

section \<open>The next billing run\<close>

record billing_contract =
  bc_billing_cycle_days :: numeric
  bc_billing_start_date :: string
  bc_last_billed_through :: "string option"

record billing_line =
  bl_id :: string
  bl_inventory_item_id :: "string option"
  bl_item_code :: "string option"
  bl_item_description :: "string option"
  bl_quantity :: numeric
  bl_agreed_rate :: numeric
  bl_rate_unit :: string
  bl_on_rent_date :: string
  bl_off_rent_date :: "string option"
  bl_last_billed_through :: "string option"
  bl_billable :: "bool option"
  bl_taxable :: "bool option"
  bl_status :: "string option"
  bl_rate_tiers :: "rate_tier list option"

record billed_line =
  br_line_id :: string
  br_item_id :: "string option"
  br_quantity :: double
  br_agreed_rate :: double
  br_rate_unit :: rate_unit
  br_billable_days :: int
  br_period_start :: string
  br_period_end :: string
  br_amount :: double
  br_taxable :: bool
  br_description :: string

record billing_run_result =
  rr_period_start :: string
  rr_period_end :: string
  rr_due_date :: string
  rr_next_billing_date :: string
  rr_billing_cycle_days :: double
  rr_is_due :: bool
  rr_subtotal :: double
  rr_lines :: "billed_line list"

definition maxISODate :: "string \<Rightarrow> string list \<Rightarrow> string" where
  "maxISODate first rest =
     foldl (\<lambda>m v. if date_less (parseISODate m) (parseISODate v) then v else m) first rest"

definition minISODate :: "string \<Rightarrow> string list \<Rightarrow> string" where
  "minISODate first rest =
     foldl (\<lambda>m v. if date_less (parseISODate v) (parseISODate m) then v else m) first rest"

definition shift_iso :: "string \<Rightarrow> double \<Rightarrow> string" where
  "shift_iso s days = formatISODate (addDaysUtc (parseISODate s) days)"

definition cycle_days :: "numeric \<Rightarrow> double" where
  "cycle_days x = math_max [Finite False 1, math_floor (number_or (num_of_int 25) x)]"

definition initialJobRentalNextBillingDate :: "string \<Rightarrow> numeric \<Rightarrow> string" where
  "initialJobRentalNextBillingDate billingStartDate billingCycleDays =
     (case parseISODate billingStartDate of None \<Rightarrow> billingStartDate
      | Some d \<Rightarrow> formatISODate (addDaysUtc (Some d) (cycle_days billingCycleDays)))"

text \<open>The infinity sign of an open tier is its three bytes.\<close>

definition tier_text :: "rate_tier option \<Rightarrow> string" where
  "tier_text tier = (case tier of None \<Rightarrow> []
     | Some t \<Rightarrow> '', tier '' @ show_int (rt_min_days t) @ ''-'' @
         (case rt_max_days t of None \<Rightarrow> [CHR 0xE2, CHR 0x88, CHR 0x9E] | Some m \<Rightarrow> show_int m))"

definition line_label :: "billing_line \<Rightarrow> string" where
  "line_label line =
     (let s = join '' - '' (List.map_filter some_text [bl_item_code line, bl_item_description line])
      in if s = [] then ''Rental item'' else s)"

definition line_description :: "billing_line \<Rightarrow> string \<Rightarrow> string \<Rightarrow> int \<Rightarrow> double \<Rightarrow> rate_tier option \<Rightarrow> string" where
  "line_description line startsOn endsOn days quantity tier =
     line_label line @ '' ('' @ startsOn @ '' to '' @ endsOn @ '', '' @ show_int days @ '' day'' @
     (if days = 1 then [] else ''s'') @ '', qty '' @ show_number quantity @ tier_text tier @ '')''"

definition effective_start :: "string \<Rightarrow> billing_line \<Rightarrow> string" where
  "effective_start periodStart line = maxISODate periodStart (bl_on_rent_date line #
     (case some_text (bl_last_billed_through line) of None \<Rightarrow> [] | Some t \<Rightarrow> [shift_iso t (num_of_int 1)]))"

definition effective_end :: "string \<Rightarrow> billing_line \<Rightarrow> string" where
  "effective_end periodEnd line = minISODate periodEnd
     (case some_text (bl_off_rent_date line) of None \<Rightarrow> [] | Some t \<Rightarrow> [t])"

text \<open>The body of the loop over the lines; \<open>None\<close> is \<open>continue\<close>.\<close>

definition bill_line :: "string \<Rightarrow> string \<Rightarrow> double \<Rightarrow> billing_line \<Rightarrow> billed_line option" where
  "bill_line periodStart periodEnd cycleDays line =
     (let quantity = number_or (num_of_int 0) (bl_quantity line);
          agreedRate = number_or (num_of_int 0) (bl_agreed_rate line);
          effectiveStart = effective_start periodStart line;
          effectiveEnd = effective_end periodEnd line;
          billableDays = diffDaysUtc effectiveEnd effectiveStart + 1;
          tier = (case bl_rate_tiers line of None \<Rightarrow> None | Some ts \<Rightarrow> pickRentalTier billableDays ts);
          effectiveRate = (case tier of None \<Rightarrow> agreedRate | Some t \<Rightarrow> rt_rate t);
          effectiveRateUnit = (case tier of None \<Rightarrow> normalizeRentalRateUnit (bl_rate_unit line) | Some t \<Rightarrow> rt_rate_unit t);
          amount = calculateJobRentalLineAmount quantity effectiveRate effectiveRateUnit billableDays cycleDays
      in if bl_billable line = Some False then None
         else if bl_status line = Some ''void'' \<or> bl_status line = Some ''cancelled'' then None
         else if num_le quantity (num_of_int 0) \<or> num_less agreedRate (num_of_int 0) then None
         else if date_less (parseISODate effectiveEnd) (parseISODate effectiveStart) then None
         else if num_le amount (num_of_int 0) then None
         else Some \<lparr>br_line_id = bl_id line, br_item_id = bl_inventory_item_id line, br_quantity = quantity,
           br_agreed_rate = effectiveRate, br_rate_unit = effectiveRateUnit, br_billable_days = billableDays,
           br_period_start = effectiveStart, br_period_end = effectiveEnd, br_amount = amount,
           br_taxable = (bl_taxable line \<noteq> Some False),
           br_description = line_description line effectiveStart effectiveEnd billableDays quantity tier\<rparr>)"

definition period_start_of :: "billing_contract \<Rightarrow> string" where
  "period_start_of contract = (case some_text (bc_last_billed_through contract) of
      Some t \<Rightarrow> shift_iso t (num_of_int 1) | None \<Rightarrow> bc_billing_start_date contract)"

definition calculateJobRentalBillingRun ::
  "billing_contract \<Rightarrow> billing_line list \<Rightarrow> string \<Rightarrow> billing_run_result" where
  "calculateJobRentalBillingRun contract lines referenceDate =
     (let cycleDays = cycle_days (bc_billing_cycle_days contract);
          periodStart = period_start_of contract;
          periodEnd = shift_iso periodStart (num_sub cycleDays (num_of_int 1));
          dueDate = shift_iso periodEnd (num_of_int 1);
          billableLines = List.map_filter (bill_line periodStart periodEnd cycleDays) lines
      in \<lparr>rr_period_start = periodStart, rr_period_end = periodEnd, rr_due_date = dueDate,
          rr_next_billing_date = shift_iso periodEnd (num_add cycleDays (num_of_int 1)),
          rr_billing_cycle_days = cycleDays,
          rr_is_due = date_le (parseISODate dueDate) (parseISODate referenceDate),
          rr_subtotal = roundMoney (foldl (\<lambda>s l. num_add s (br_amount l)) (num_of_int 0) billableLines),
          rr_lines = billableLines\<rparr>)"

section \<open>Tables\<close>

text \<open>
  Columns of type \<open>date\<close> are their texts.  A line carries the two columns that the join with its inventory
  item adds; the join makes the item id of a line not null.
\<close>

record contract_row =
  jc_id :: string
  jc_company_id :: string
  jc_project_id :: string
  jc_customer_id :: "string option"
  jc_billing_cycle_days :: int
  jc_billing_start_date :: string
  jc_last_billed_through :: "string option"
  jc_next_billing_date :: string
  jc_version :: int
  jc_deleted :: bool

record line_row =
  jl_id :: string
  jl_company_id :: string
  jl_contract_id :: string
  jl_inventory_item_id :: string
  jl_item_code :: "string option"
  jl_item_description :: "string option"
  jl_quantity :: string
  jl_agreed_rate :: string
  jl_rate_unit :: string
  jl_on_rent_date :: string
  jl_off_rent_date :: "string option"
  jl_last_billed_through :: "string option"
  jl_billable :: bool
  jl_taxable :: bool
  jl_status :: string
  jl_version :: int
  jl_deleted :: bool
  jl_created_at :: int

record tier_row =
  tr_job_rental_line_id :: string
  tr_rate_unit :: string
  tr_min_days :: int
  tr_max_days :: "int option"
  tr_rate :: string
  tr_sort_order :: int

record run_row =
  jr_id :: string
  jr_company_id :: string
  jr_contract_id :: string
  jr_project_id :: string
  jr_customer_id :: "string option"
  jr_period_start :: string
  jr_period_end :: string
  jr_status :: string
  jr_subtotal :: double
  jr_deleted :: bool

record run_line_row =
  rl_company_id :: string
  rl_billing_run_id :: string
  rl_line :: billed_line

record contract_db =
  cd_contracts :: "contract_row list"
  cd_lines :: "line_row list"
  cd_tiers :: "tier_row list"
  cd_runs :: "run_row list"
  cd_run_lines :: "run_line_row list"
  cd_ledger :: "ledger_call list"

definition toBillingContract :: "contract_row \<Rightarrow> billing_contract" where
  "toBillingContract row = \<lparr>bc_billing_cycle_days = Numeric (num_of_int (jc_billing_cycle_days row)),
     bc_billing_start_date = jc_billing_start_date row, bc_last_billed_through = jc_last_billed_through row\<rparr>"

definition toBillingLine :: "line_row \<Rightarrow> tier_row list \<Rightarrow> billing_line" where
  "toBillingLine row tiers = \<lparr>bl_id = jl_id row, bl_inventory_item_id = Some (jl_inventory_item_id row),
     bl_item_code = jl_item_code row, bl_item_description = jl_item_description row,
     bl_quantity = Textual (jl_quantity row), bl_agreed_rate = Textual (jl_agreed_rate row),
     bl_rate_unit = jl_rate_unit row, bl_on_rent_date = jl_on_rent_date row, bl_off_rent_date = jl_off_rent_date row,
     bl_last_billed_through = jl_last_billed_through row, bl_billable = Some (jl_billable row),
     bl_taxable = Some (jl_taxable row), bl_status = Some (jl_status row),
     bl_rate_tiers = Some (map (\<lambda>t. \<lparr>rt_rate_unit = normalizeRentalRateUnit (tr_rate_unit t),
       rt_min_days = tr_min_days t, rt_max_days = tr_max_days t, rt_rate = string_to_number (tr_rate t),
       rt_sort_order = tr_sort_order t\<rparr>) tiers)\<rparr>"

definition line_tiers :: "contract_db \<Rightarrow> line_row \<Rightarrow> tier_row list" where
  "line_tiers db row = sort_key tr_sort_order (sort_key tr_min_days
     (filter (\<lambda>t. tr_job_rental_line_id t = jl_id row) (cd_tiers db)))"

definition load_contract :: "string \<Rightarrow> string \<Rightarrow> contract_db \<Rightarrow> contract_row option" where
  "load_contract companyId contractId db =
     find (\<lambda>c. jc_company_id c = companyId \<and> jc_id c = contractId \<and> \<not> jc_deleted c) (cd_contracts db)"

definition load_lines :: "string \<Rightarrow> string \<Rightarrow> contract_db \<Rightarrow> billing_line list" where
  "load_lines companyId contractId db = map (\<lambda>row. toBillingLine row (line_tiers db row))
     (sort_key jl_created_at (filter (\<lambda>l. jl_company_id l = companyId \<and> jl_contract_id l = contractId \<and> \<not> jl_deleted l)
       (cd_lines db)))"

text \<open>
  \<open>loadContractBillingData\<close> is three statements, the contract, then its lines, then their tiers, without a lock.
  \<open>run_calculation\<close> is what follows from a contract that was read and the lines found after it, with
  their tiers; \<open>contract_run\<close> has nothing in between.
\<close>

definition run_calculation :: "string \<Rightarrow> string \<Rightarrow> contract_row \<Rightarrow> contract_db \<Rightarrow> billing_run_result" where
  "run_calculation companyId referenceDate contract db =
     calculateJobRentalBillingRun (toBillingContract contract) (load_lines companyId (jc_id contract) db) referenceDate"

definition contract_run :: "string \<Rightarrow> string \<Rightarrow> string \<Rightarrow> contract_db \<Rightarrow> (contract_row \<times> billing_run_result) option" where
  "contract_run companyId contractId referenceDate db =
     map_option (\<lambda>c. (c, run_calculation companyId referenceDate c db)) (load_contract companyId contractId db)"

section \<open>Creating a run\<close>

definition isValidDateInput :: "string \<Rightarrow> bool" where
  "isValidDateInput s \<longleftrightarrow> length s = 10 \<and> s ! 4 = CHR ''-'' \<and> s ! 7 = CHR ''-''
     \<and> list_all is_digit (take 4 s @ take 2 (drop 5 s) @ drop 8 s)"

definition same_period :: "string \<Rightarrow> string \<Rightarrow> billing_run_result \<Rightarrow> run_row \<Rightarrow> bool" where
  "same_period companyId contractId r row \<longleftrightarrow> jr_company_id row = companyId \<and> jr_contract_id row = contractId
     \<and> jr_period_start row = rr_period_start r \<and> jr_period_end row = rr_period_end r"

definition store_line :: "string \<Rightarrow> string \<Rightarrow> billed_line \<Rightarrow> contract_db \<Rightarrow> contract_db" where
  "store_line companyId runId line db = db\<lparr>
     cd_run_lines := cd_run_lines db @ [\<lparr>rl_company_id = companyId, rl_billing_run_id = runId, rl_line = line\<rparr>],
     cd_lines := map (\<lambda>l. if jl_company_id l = companyId \<and> jl_id l = br_line_id line
       then l\<lparr>jl_last_billed_through := Some (br_period_end line), jl_version := jl_version l + 1\<rparr> else l) (cd_lines db)\<rparr>"

text \<open>
  What the transaction writes, in one commit: the run, which the unique constraint on contract and period may
  refuse, its lines, the contract moved on, and the record of both.  \<open>contract\<close> is the row as it was read.
\<close>

definition new_run :: "string \<Rightarrow> string \<Rightarrow> contract_row \<Rightarrow> billing_run_result \<Rightarrow> run_row" where
  "new_run uuid companyId contract r = \<lparr>jr_id = uuid, jr_company_id = companyId,
     jr_contract_id = jc_id contract, jr_project_id = jc_project_id contract,
     jr_customer_id = jc_customer_id contract, jr_period_start = rr_period_start r,
     jr_period_end = rr_period_end r, jr_status = ''generated'', jr_subtotal = rr_subtotal r, jr_deleted = False\<rparr>"

definition moved_on :: "string \<Rightarrow> string \<Rightarrow> billing_run_result \<Rightarrow> contract_row \<Rightarrow> contract_row" where
  "moved_on companyId contractId r c = (if jc_company_id c = companyId \<and> jc_id c = contractId
     then c\<lparr>jc_last_billed_through := Some (rr_period_end r), jc_next_billing_date := rr_next_billing_date r,
       jc_version := jc_version c + 1\<rparr> else c)"

definition store_run ::
  "string \<Rightarrow> string \<Rightarrow> contract_row \<Rightarrow> billing_run_result \<Rightarrow> contract_db \<Rightarrow> contract_db result" where
  "store_run uuid companyId contract r db =
     (if list_ex (same_period companyId (jc_id contract) r) (cd_runs db)
      then Inl (Error ''duplicate key value violates unique constraint'')
      else (let db2 = fold (store_line companyId uuid) (filter (\<lambda>l. some_text (br_item_id l) \<noteq> None) (rr_lines r))
                (db\<lparr>cd_runs := cd_runs db @ [new_run uuid companyId contract r]\<rparr>)
            in case find (\<lambda>c. jc_company_id c = companyId \<and> jc_id c = jc_id contract) (cd_contracts db2) of
                 None \<Rightarrow> Inl (HttpError 500 ''rental contract update returned no row'')
               | Some row \<Rightarrow> Inr (db2\<lparr>cd_contracts := map (moved_on companyId (jc_id contract) r) (cd_contracts db2),
                   cd_ledger := cd_ledger db2 @
                     [ledger_call_of companyId ''rental_billing_run'' uuid ''create'' None,
                      ledger_call_of companyId ''job_rental_contract'' (jc_id contract) ''bill''
                        (Some (''job_rental_contract:bill:'' @ jc_id contract @ '':'' @ show_int (jc_version row + 1)))]\<rparr>)))"

text \<open>
  The transaction and the request with nothing in between; the steps of overlapping requests are put
  together in \<open>contract_reach\<close>.
\<close>

definition run_tx ::
  "string \<Rightarrow> string \<Rightarrow> string \<Rightarrow> string \<Rightarrow> contract_db \<Rightarrow> (billing_run_result \<times> contract_db) result" where
  "run_tx uuid companyId contractId referenceDate db =
     (case contract_run companyId contractId referenceDate db of
        None \<Rightarrow> Inl (Error ''rental contract disappeared during billing run'')
      | Some (contract, r) \<Rightarrow> map_result (Pair r) (store_run uuid companyId contract r db))"

definition create_billing_run ::
  "string \<Rightarrow> string \<Rightarrow> string \<Rightarrow> string \<Rightarrow> bool \<Rightarrow> contract_db \<Rightarrow> (billing_run_result \<times> contract_db) result" where
  "create_billing_run uuid companyId contractId referenceDate force db =
     (if \<not> isValidDateInput referenceDate then Inl (HttpError 400 ''reference_date must be YYYY-MM-DD'')
      else case contract_run companyId contractId referenceDate db of
        None \<Rightarrow> Inl (HttpError 404 ''rental contract not found'')
      | Some (_, preview) \<Rightarrow>
          if \<not> rr_is_due preview \<and> \<not> force then Inl (HttpError 400 ''billing run is not due yet'')
          else if rr_lines preview = [] then Inl (HttpError 400 ''no billable rental lines for this period'')
          else if list_ex (\<lambda>row. same_period companyId contractId preview row \<and> \<not> jr_deleted row) (cd_runs db)
          then Inl (HttpError 409 ''billing run already exists for this period'')
          else run_tx uuid companyId contractId referenceDate db)"

section \<open>Dates of contracts and lines\<close>

text \<open>A date that stays in the range of the printer when a hundred years are added.\<close>

definition near :: "string \<Rightarrow> bool" where
  "near s \<longleftrightarrow> (case parseISODate s of None \<Rightarrow> False | Some z \<Rightarrow> iso_day z \<and> iso_day (z + 40000))"

definition near_option :: "string option \<Rightarrow> bool" where
  "near_option s \<longleftrightarrow> (case s of None \<Rightarrow> True | Some t \<Rightarrow> near t)"

definition contract_dated :: "contract_row \<Rightarrow> bool" where
  "contract_dated c \<longleftrightarrow> 1 \<le> jc_billing_cycle_days c \<and> jc_billing_cycle_days c \<le> 36600
     \<and> near (jc_billing_start_date c) \<and> near_option (jc_last_billed_through c)"

definition line_dated :: "line_row \<Rightarrow> bool" where
  "line_dated l \<longleftrightarrow> near (jl_on_rent_date l) \<and> near_option (jl_off_rent_date l) \<and> near_option (jl_last_billed_through l)"

definition dated :: "contract_db \<Rightarrow> bool" where
  "dated db \<longleftrightarrow> distinct (map jl_id (cd_lines db)) \<and> list_all contract_dated (cd_contracts db)
     \<and> list_all line_dated (cd_lines db)"

lemma nearE:
  assumes "near s"
  obtains z where "parseISODate s = Some z" "iso_day z" "iso_day (z + 40000)"
  using assms by (auto simp: near_def split: option.splits)

lemma near_nonempty [simp]: "\<not> near []"
  by (simp add: near_def parseISODate_def)

lemma some_text_near: "near_option s \<Longrightarrow> some_text s = s"
  by (cases s) (auto simp: some_text_def near_option_def)

lemma shift_iso_int:
  assumes "parseISODate s = Some z" "iso_day (z + k)" "\<bar>k\<bar> \<le> 100000"
  shows "parseISODate (shift_iso s (num_of_int k)) = Some (z + k)"
proof -
  have "time_clip (z + k) = Some (z + k)" using assms(2) by (auto simp: time_clip_def iso_day_def)
  then have "addDaysUtc (Some z) (num_of_int k) = Some (z + k)"
    using assms(3) by (simp add: addDaysUtc_int)
  then show ?thesis using assms by (simp add: shift_iso_def parse_format_date)
qed

lemma iso_day_between: "iso_day z \<Longrightarrow> iso_day (z + n) \<Longrightarrow> 0 \<le> k \<Longrightarrow> k \<le> n \<Longrightarrow> iso_day (z + k)"
  by (auto simp: iso_day_def)

lemma shift_near:
  assumes "near s" "0 \<le> k" "k \<le> 40000"
  shows "\<exists>z. parseISODate s = Some z \<and> parseISODate (shift_iso s (num_of_int k)) = Some (z + k)"
  using assms by (elim nearE) (auto intro!: shift_iso_int iso_day_between [of _ 40000])

text \<open>The latest and the earliest of valid dates.\<close>

lemma maxISODate_bound:
  assumes "\<And>v. v \<in> set (a # rest) \<Longrightarrow> parseISODate v \<noteq> None"
  shows "\<exists>m. parseISODate (maxISODate a rest) = Some m
    \<and> (\<forall>v\<in>set (a # rest). \<forall>z. parseISODate v = Some z \<longrightarrow> z \<le> m)"
  using assms
proof (induction rest arbitrary: a)
  case (Cons b rest)
  define c where "c = (if date_less (parseISODate a) (parseISODate b) then b else a)"
  obtain za zb where z: "parseISODate a = Some za" "parseISODate b = Some zb" using Cons.prems by fastforce
  have "\<exists>m. parseISODate (maxISODate c rest) = Some m
    \<and> (\<forall>v\<in>set (c # rest). \<forall>z. parseISODate v = Some z \<longrightarrow> z \<le> m)"
    using Cons.prems by (intro Cons.IH) (auto simp: c_def split: if_splits)
  moreover have "maxISODate a (b # rest) = maxISODate c rest" by (simp add: maxISODate_def c_def)
  ultimately show ?case using z by (fastforce simp: c_def split: if_splits)
qed (auto simp: maxISODate_def)

lemma minISODate_bound:
  assumes "\<And>v. v \<in> set (a # rest) \<Longrightarrow> parseISODate v \<noteq> None"
  shows "\<exists>m. parseISODate (minISODate a rest) = Some m
    \<and> (\<forall>v\<in>set (a # rest). \<forall>z. parseISODate v = Some z \<longrightarrow> m \<le> z)"
  using assms
proof (induction rest arbitrary: a)
  case (Cons b rest)
  define c where "c = (if date_less (parseISODate b) (parseISODate a) then b else a)"
  obtain za zb where z: "parseISODate a = Some za" "parseISODate b = Some zb" using Cons.prems by fastforce
  have "\<exists>m. parseISODate (minISODate c rest) = Some m
    \<and> (\<forall>v\<in>set (c # rest). \<forall>z. parseISODate v = Some z \<longrightarrow> m \<le> z)"
    using Cons.prems by (intro Cons.IH) (auto simp: c_def split: if_splits)
  moreover have "minISODate a (b # rest) = minISODate c rest" by (simp add: minISODate_def c_def)
  ultimately show ?case using z by (fastforce simp: c_def split: if_splits)
qed (auto simp: minISODate_def)

section \<open>The window of a contract and of a line\<close>

definition run_window :: "contract_row \<Rightarrow> string \<times> string" where
  "run_window c = (let r = calculateJobRentalBillingRun (toBillingContract c) [] [] in (rr_period_start r, rr_period_end r))"

lemma calculate_window:
  "(rr_period_start (calculateJobRentalBillingRun (toBillingContract c) lines reference),
    rr_period_end (calculateJobRentalBillingRun (toBillingContract c) lines reference)) = run_window c"
  by (simp add: run_window_def calculateJobRentalBillingRun_def Let_def)

lemma run_window_dates:
  assumes "contract_dated c"
  shows "\<exists>s e. parseISODate (fst (run_window c)) = Some s \<and> parseISODate (snd (run_window c)) = Some e
    \<and> e = s + jc_billing_cycle_days c - 1"
proof -
  let ?n = "jc_billing_cycle_days c"
  have n: "1 \<le> ?n" "?n \<le> 36600" using assms by (auto simp: contract_dated_def)
  have cycle: "cycle_days (Numeric (num_of_int ?n)) = num_of_int ?n"
    using n by (simp add: cycle_days_def num_or_int math_max_int)
  have one: "num_sub (num_of_int ?n) (num_of_int 1) = num_of_int (?n - 1)"
    using n by (intro num_sub_int) auto
  have start: "\<exists>s. parseISODate (period_start_of (toBillingContract c)) = Some s \<and> iso_day s \<and> iso_day (s + 36600)"
  proof (cases "jc_last_billed_through c")
    case None
    then show ?thesis using assms
      by (auto simp: contract_dated_def period_start_of_def toBillingContract_def some_text_def iso_day_def elim!: nearE)
  next
    case (Some t)
    then have "near t" using assms by (auto simp: contract_dated_def near_option_def)
    then obtain z where "parseISODate t = Some z" "iso_day z" "iso_day (z + 40000)" by (rule nearE)
    moreover from this have "parseISODate (shift_iso t (num_of_int 1)) = Some (z + 1)"
      by (intro shift_iso_int) (auto simp: iso_day_def)
    ultimately show ?thesis using Some \<open>near t\<close>
      by (auto simp: period_start_of_def toBillingContract_def some_text_def iso_day_def)
  qed
  then obtain s where s: "parseISODate (period_start_of (toBillingContract c)) = Some s" "iso_day s" "iso_day (s + 36600)"
    by blast
  have "parseISODate (shift_iso (period_start_of (toBillingContract c)) (num_of_int (?n - 1))) = Some (s + (?n - 1))"
    using s n by (intro shift_iso_int) (auto simp: iso_day_def)
  moreover have "run_window c = (period_start_of (toBillingContract c),
      shift_iso (period_start_of (toBillingContract c)) (num_of_int (?n - 1)))"
    using cycle one
    by (simp add: run_window_def calculateJobRentalBillingRun_def Let_def toBillingContract_def)
  ultimately show ?thesis using s by simp
qed

lemma effective_start_dates:
  assumes "line_dated l" "parseISODate w = Some a"
  shows "\<exists>s. parseISODate (effective_start w (toBillingLine l ts)) = Some s \<and> a \<le> s
    \<and> (\<forall>z. parseISODate (jl_on_rent_date l) = Some z \<longrightarrow> z \<le> s)
    \<and> (\<forall>t z. jl_last_billed_through l = Some t \<longrightarrow> parseISODate t = Some z \<longrightarrow> z < s)"
proof -
  define more where "more = (case jl_last_billed_through l of None \<Rightarrow> [] | Some t \<Rightarrow> [shift_iso t (num_of_int 1)])"
  have start: "effective_start w (toBillingLine l ts) = maxISODate w (jl_on_rent_date l # more)"
    using assms(1) by (simp add: effective_start_def toBillingLine_def more_def line_dated_def some_text_near)
  have shifted: "jl_last_billed_through l = Some t \<Longrightarrow>
      \<exists>z. parseISODate t = Some z \<and> parseISODate (shift_iso t (num_of_int 1)) = Some (z + 1)" for t
    using assms(1) shift_near [of t 1] by (simp add: line_dated_def near_option_def)
  have "\<exists>z. parseISODate (jl_on_rent_date l) = Some z"
    using assms(1) by (auto simp: line_dated_def elim: nearE)
  then have valid: "v \<in> set (w # jl_on_rent_date l # more) \<Longrightarrow> parseISODate v \<noteq> None" for v
    using assms(2) shifted by (cases "jl_last_billed_through l") (auto simp: more_def)
  obtain m where m: "parseISODate (maxISODate w (jl_on_rent_date l # more)) = Some m"
    "\<forall>v\<in>set (w # jl_on_rent_date l # more). \<forall>z. parseISODate v = Some z \<longrightarrow> z \<le> m"
    using maxISODate_bound [OF valid] by blast
  have "z < m" if "jl_last_billed_through l = Some t" "parseISODate t = Some z" for t z
    using shifted [OF that(1)] that m(2) by (auto simp: more_def)
  then show ?thesis using m start assms(2) by auto
qed

lemma effective_end_dates:
  assumes "line_dated l" "parseISODate w = Some b"
  shows "\<exists>e. parseISODate (effective_end w (toBillingLine l ts)) = Some e \<and> e \<le> b
    \<and> (\<forall>t z. jl_off_rent_date l = Some t \<longrightarrow> parseISODate t = Some z \<longrightarrow> e \<le> z)"
proof -
  define more where "more = (case jl_off_rent_date l of None \<Rightarrow> [] | Some t \<Rightarrow> [t])"
  have fin: "effective_end w (toBillingLine l ts) = minISODate w more"
    using assms(1) by (simp add: effective_end_def toBillingLine_def more_def line_dated_def some_text_near)
  have valid: "v \<in> set (w # more) \<Longrightarrow> parseISODate v \<noteq> None" for v
    using assms by (cases "jl_off_rent_date l") (auto simp: more_def line_dated_def near_option_def elim: nearE)
  obtain m where "parseISODate (minISODate w more) = Some m"
    "\<forall>v\<in>set (w # more). \<forall>z. parseISODate v = Some z \<longrightarrow> m \<le> z"
    using minISODate_bound [OF valid] by blast
  then show ?thesis using fin assms(2) by (auto simp: more_def)
qed

lemma bill_line_dates:
  assumes "bill_line ps pe n (toBillingLine l ts) = Some b" "line_dated l"
    "parseISODate ps = Some p" "parseISODate pe = Some q"
  shows "br_line_id b = jl_id l"
    and "\<exists>s e. parseISODate (br_period_start b) = Some s \<and> parseISODate (br_period_end b) = Some e \<and> p \<le> s \<and> s \<le> e
      \<and> e \<le> q \<and> (\<forall>t z. jl_last_billed_through l = Some t \<longrightarrow> parseISODate t = Some z \<longrightarrow> z < s)"
proof -
  have b: "br_line_id b = jl_id l" "br_period_start b = effective_start ps (toBillingLine l ts)"
    "br_period_end b = effective_end pe (toBillingLine l ts)"
    "\<not> date_less (parseISODate (br_period_end b)) (parseISODate (br_period_start b))"
    using assms(1) by (auto simp: bill_line_def Let_def toBillingLine_def split: if_splits)
  show "br_line_id b = jl_id l" by (rule b(1))
  show "\<exists>s e. parseISODate (br_period_start b) = Some s \<and> parseISODate (br_period_end b) = Some e \<and> p \<le> s \<and> s \<le> e
      \<and> e \<le> q \<and> (\<forall>t z. jl_last_billed_through l = Some t \<longrightarrow> parseISODate t = Some z \<longrightarrow> z < s)"
    using effective_start_dates [OF assms(2,3), of ts] effective_end_dates [OF assms(2,4), of ts] b(2,3,4)
    by auto
qed

section \<open>No day of a line is billed twice\<close>

definition run_line_key :: "run_line_row \<Rightarrow> string \<times> string" where
  "run_line_key rl = (rl_company_id rl, br_line_id (rl_line rl))"

definition line_key :: "line_row \<Rightarrow> string \<times> string" where
  "line_key l = (jl_company_id l, jl_id l)"

definition ends_before :: "billed_line \<Rightarrow> billed_line \<Rightarrow> bool" where
  "ends_before a b \<longleftrightarrow> date_less (parseISODate (br_period_end a)) (parseISODate (br_period_start b))"

definition separated :: "run_line_row \<Rightarrow> run_line_row \<Rightarrow> bool" where
  "separated a b \<longleftrightarrow> (run_line_key a = run_line_key b \<longrightarrow> ends_before (rl_line a) (rl_line b))"

text \<open>The marker of a line is at least the end of every period billed for it.\<close>

definition marks :: "line_row \<Rightarrow> run_line_row \<Rightarrow> bool" where
  "marks l rl \<longleftrightarrow> (run_line_key rl = line_key l \<longrightarrow>
     (case jl_last_billed_through l of None \<Rightarrow> False
      | Some t \<Rightarrow> date_le (parseISODate (br_period_end (rl_line rl))) (parseISODate t)))"

definition billed_apart :: "contract_db \<Rightarrow> bool" where
  "billed_apart db \<longleftrightarrow> sorted_wrt separated (cd_run_lines db)
     \<and> (\<forall>l\<in>set (cd_lines db). \<forall>rl\<in>set (cd_run_lines db). marks l rl)"

text \<open>A billed period that is new for its line.\<close>

definition unbilled :: "string \<Rightarrow> contract_db \<Rightarrow> billed_line \<Rightarrow> bool" where
  "unbilled companyId db b \<longleftrightarrow> date_le (parseISODate (br_period_start b)) (parseISODate (br_period_end b))
     \<and> (\<forall>rl\<in>set (cd_run_lines db). run_line_key rl = (companyId, br_line_id b) \<longrightarrow> ends_before (rl_line rl) b)"

lemma date_less_le_trans: "date_less a b \<Longrightarrow> date_le b c \<Longrightarrow> date_le a c"
  by (cases a; cases b; cases c) auto

lemma date_le_self: "date_le a b \<Longrightarrow> date_le b b"
  by (cases a; cases b) auto

lemma store_line_billed_apart:
  assumes "billed_apart db" "unbilled companyId db b"
  shows "billed_apart (store_line companyId runId b db)"
proof -
  let ?rl = "\<lparr>rl_company_id = companyId, rl_billing_run_id = runId, rl_line = b\<rparr>"
  let ?db = "store_line companyId runId b db"
  have runs: "cd_run_lines ?db = cd_run_lines db @ [?rl]" by (simp add: store_line_def)
  have "sorted_wrt separated (cd_run_lines ?db)"
    using assms by (auto simp: runs billed_apart_def sorted_wrt_append separated_def unbilled_def run_line_key_def)
  moreover have "marks l rl" if l: "l \<in> set (cd_lines ?db)" and rl: "rl \<in> set (cd_run_lines ?db)" for l rl
  proof -
    obtain l0 where l0: "l0 \<in> set (cd_lines db)"
      and l: "l = (if jl_company_id l0 = companyId \<and> jl_id l0 = br_line_id b
        then l0\<lparr>jl_last_billed_through := Some (br_period_end b), jl_version := jl_version l0 + 1\<rparr> else l0)"
      using l by (auto simp: store_line_def)
    have old: "rl \<in> set (cd_run_lines db) \<Longrightarrow> marks l0 rl" using assms(1) l0 by (simp add: billed_apart_def)
    have new: "rl \<in> set (cd_run_lines db) \<Longrightarrow> run_line_key rl = (companyId, br_line_id b) \<Longrightarrow>
        date_le (parseISODate (br_period_end (rl_line rl))) (parseISODate (br_period_end b))"
      using assms(2) date_less_le_trans by (auto simp: unbilled_def ends_before_def)
    have "date_le (parseISODate (br_period_end b)) (parseISODate (br_period_end b))"
      using assms(2) date_le_self by (auto simp: unbilled_def)
    then show ?thesis using rl old new l
      by (auto simp: runs marks_def line_key_def run_line_key_def)
  qed
  ultimately show ?thesis by (simp add: billed_apart_def)
qed

lemma store_lines_billed_apart:
  assumes "billed_apart db" "\<And>b. b \<in> set bs \<Longrightarrow> unbilled companyId db b" "distinct (map br_line_id bs)"
  shows "billed_apart (fold (store_line companyId runId) bs db)"
  using assms
proof (induction bs arbitrary: db)
  case (Cons b bs)
  have "unbilled companyId (store_line companyId runId b db) c" if "c \<in> set bs" for c
  proof -
    have "br_line_id c \<noteq> br_line_id b" using Cons.prems(3) imageI [OF that, of br_line_id] by auto
    then show ?thesis using Cons.prems(2) [of c] that by (auto simp: unbilled_def store_line_def run_line_key_def)
  qed
  moreover have "billed_apart (store_line companyId runId b db)"
    using Cons.prems by (intro store_line_billed_apart) auto
  ultimately show ?case using Cons.IH Cons.prems(3) by simp
qed simp

text \<open>What the calculation bills, for the lines of a table.\<close>

lemma distinct_map_filter:
  assumes "distinct (map f xs)" "\<And>x y. x \<in> set xs \<Longrightarrow> g x = Some y \<Longrightarrow> h y = f x"
  shows "distinct (map h (List.map_filter g xs))"
  using assms
proof (induction xs)
  case (Cons x xs)
  have "h y \<in> f ` set xs" if y: "y \<in> set (List.map_filter g xs)" for y
  proof -
    obtain x where "x \<in> set xs" "g x = Some y" using y by (fastforce simp: List.map_filter_def)
    then show ?thesis using Cons.prems(2) [of x y] by auto
  qed
  moreover have "distinct (map h (List.map_filter g xs))" using Cons by simp
  moreover have "g x = Some y \<Longrightarrow> h y = f x" for y using Cons.prems(2) by simp
  ultimately show ?case using Cons.prems(1)
    by (cases "g x") (fastforce simp: List.map_filter_simps)+
qed (simp add: List.map_filter_simps)

lemma loaded_lines:
  assumes "dated db"
  shows "\<And>b. b \<in> set (load_lines companyId contractId db) \<Longrightarrow>
      \<exists>l\<in>set (cd_lines db). b = toBillingLine l (line_tiers db l) \<and> jl_company_id l = companyId \<and> jl_contract_id l = contractId
        \<and> line_dated l"
    and "distinct (map bl_id (load_lines companyId contractId db))"
proof -
  show "\<exists>l\<in>set (cd_lines db). b = toBillingLine l (line_tiers db l) \<and> jl_company_id l = companyId \<and> jl_contract_id l = contractId
      \<and> line_dated l"
    if "b \<in> set (load_lines companyId contractId db)" for b
    using that assms by (auto simp: load_lines_def dated_def list_all_iff)
  let ?p = "\<lambda>l. jl_company_id l = companyId \<and> jl_contract_id l = contractId \<and> \<not> jl_deleted l"
  let ?rows = "filter ?p (cd_lines db)"
  have ids: "map bl_id (load_lines companyId contractId db) = map jl_id (sort_key jl_created_at ?rows)"
    by (simp add: load_lines_def toBillingLine_def)
  have "distinct (map jl_id ?rows)" using assms by (auto simp: dated_def distinct_map intro: inj_on_subset)
  then show "distinct (map bl_id (load_lines companyId contractId db))"
    unfolding ids by (simp add: distinct_map)
qed

lemma run_calculation_lines:
  assumes "contract_dated c" "run_window c = (ps, pe)"
  obtains n where "rr_lines (run_calculation companyId reference c db)
    = List.map_filter (bill_line ps pe n) (load_lines companyId (jc_id c) db)"
  using calculate_window [of c "load_lines companyId (jc_id c) db" reference] assms(2)
  by (auto simp: run_calculation_def calculateJobRentalBillingRun_def Let_def)

text \<open>A line of the contract, with its key.\<close>

definition line_of :: "string \<Rightarrow> string \<Rightarrow> contract_db \<Rightarrow> billed_line \<Rightarrow> bool" where
  "line_of companyId contractId db b \<longleftrightarrow>
     (\<exists>l\<in>set (cd_lines db). line_key l = (companyId, br_line_id b) \<and> jl_contract_id l = contractId)"

lemma run_lines_unbilled:
  assumes "contract_dated c" "dated db" "billed_apart db" "r = run_calculation companyId reference c db"
  shows "b \<in> set (rr_lines r) \<Longrightarrow> unbilled companyId db b \<and> line_of companyId (jc_id c) db b"
    and "distinct (map br_line_id (rr_lines r))"
proof -
  obtain ps pe where w: "run_window c = (ps, pe)" by fastforce
  obtain p q where pq: "parseISODate ps = Some p" "parseISODate pe = Some q"
    using run_window_dates [OF assms(1)] w by auto
  obtain n where lines: "rr_lines r = List.map_filter (bill_line ps pe n) (load_lines companyId (jc_id c) db)"
    unfolding assms(4) by (rule run_calculation_lines [OF assms(1) w])
  have each: "br_line_id b = bl_id x \<and> unbilled companyId db b \<and> line_of companyId (jc_id c) db b"
    if x: "x \<in> set (load_lines companyId (jc_id c) db)" and b: "bill_line ps pe n x = Some b" for x b
  proof -
    obtain l where l: "l \<in> set (cd_lines db)" "x = toBillingLine l (line_tiers db l)" "jl_company_id l = companyId"
      "jl_contract_id l = jc_id c" "line_dated l" using loaded_lines(1) [OF assms(2) x] by blast
    note dates = bill_line_dates [OF b [unfolded l(2)] l(5) pq]
    have "ends_before (rl_line rl) b"
      if rl: "rl \<in> set (cd_run_lines db)" "run_line_key rl = (companyId, br_line_id b)" for rl
    proof -
      have "marks l rl" using assms(3) l(1) rl(1) by (simp add: billed_apart_def)
      then obtain t where t: "jl_last_billed_through l = Some t"
        "date_le (parseISODate (br_period_end (rl_line rl))) (parseISODate t)"
        using rl(2) l(3) dates(1) by (auto simp: marks_def line_key_def split: option.splits)
      then show ?thesis using dates(2)
        by (cases "parseISODate (br_period_end (rl_line rl))"; cases "parseISODate t") (auto simp: ends_before_def)
    qed
    moreover have "line_of companyId (jc_id c) db b" using l dates(1) by (auto simp: line_of_def line_key_def)
    ultimately show ?thesis using dates l(2) by (auto simp: unbilled_def toBillingLine_def)
  qed
  show "b \<in> set (rr_lines r) \<Longrightarrow> unbilled companyId db b \<and> line_of companyId (jc_id c) db b"
    using each by (auto simp: lines List.map_filter_def)
  show "distinct (map br_line_id (rr_lines r))"
    unfolding lines by (rule distinct_map_filter [OF loaded_lines(2) [OF assms(2)]]) (use each in blast)
qed

subsection \<open>Overlapping runs\<close>

text \<open>A run between its reads and its write; \<open>None\<close> until its lines are read.\<close>

record pending_run =
  pr_uuid :: string
  pr_company :: string
  pr_reference :: string
  pr_contract :: contract_row
  pr_result :: "billing_run_result option"

definition period_key :: "run_row \<Rightarrow> string \<times> string \<times> string \<times> string" where
  "period_key row = (jr_company_id row, jr_contract_id row, jr_period_start row, jr_period_end row)"

text \<open>
  A change of the tables by anything but a billing run: billed periods, runs and the markers of lines stay as
  they are (of the routes only the one above writes them, and runs and lines are only deleted softly), and no
  line moves to another contract.  Everything else may change, lines may be added, deleted and edited.
\<close>

definition keeps_markers :: "contract_db \<Rightarrow> contract_db \<Rightarrow> bool" where
  "keeps_markers db db' \<longleftrightarrow> cd_run_lines db' = cd_run_lines db
     \<and> list_all (\<lambda>row. list_ex (\<lambda>row'. period_key row' = period_key row) (cd_runs db')) (cd_runs db)
     \<and> list_all (\<lambda>l. list_ex (\<lambda>l'. line_key l' = line_key l \<and> jl_contract_id l' = jl_contract_id l) (cd_lines db')) (cd_lines db)
     \<and> list_all (\<lambda>l'. list_ex (\<lambda>l. line_key l = line_key l' \<and> jl_last_billed_through l = jl_last_billed_through l')
          (cd_lines db) \<or> list_all (\<lambda>rl. run_line_key rl \<noteq> line_key l') (cd_run_lines db)) (cd_lines db')"

text \<open>The next period of a contract, if it is there.\<close>

definition next_window :: "string \<Rightarrow> string \<Rightarrow> contract_db \<Rightarrow> (string \<times> string) option" where
  "next_window companyId contractId db = map_option run_window (load_contract companyId contractId db)"

definition undisturbed :: "contract_db \<Rightarrow> contract_db \<Rightarrow> pending_run \<Rightarrow> bool" where
  "undisturbed db db' p \<longleftrightarrow> next_window (pr_company p) (jc_id (pr_contract p)) db' = next_window (pr_company p) (jc_id (pr_contract p)) db"

text \<open>
  What requests, edits and failures make of the tables and of the runs under way, step by step: a run reads the
  contract, then its lines, and then writes; it may be dropped at any point.  Edits may come at any time, but
  none changes the next period of a contract (its cycle, its first date), or deletes it, while a run of it is
  under way.
\<close>

inductive contract_reach :: "contract_db \<Rightarrow> pending_run list \<Rightarrow> bool" where
  empty: "cd_run_lines db = [] \<Longrightarrow> contract_reach db []"
| edit: "contract_reach db ps \<Longrightarrow> keeps_markers db db' \<Longrightarrow> list_all (undisturbed db db') ps \<Longrightarrow> contract_reach db' ps"
| read_contract: "contract_reach db ps \<Longrightarrow> dated db \<Longrightarrow> load_contract companyId contractId db = Some c \<Longrightarrow>
    contract_reach db (\<lparr>pr_uuid = uuid, pr_company = companyId, pr_reference = reference, pr_contract = c, pr_result = None\<rparr> # ps)"
| read_lines: "contract_reach db (ps @ p # qs) \<Longrightarrow> dated db \<Longrightarrow>
    contract_reach db (ps @ p\<lparr>pr_result := Some (run_calculation (pr_company p) (pr_reference p) (pr_contract p) db)\<rparr> # qs)"
| store: "contract_reach db (ps @ p # qs) \<Longrightarrow> dated db \<Longrightarrow> pr_result p = Some r \<Longrightarrow>
    store_run (pr_uuid p) (pr_company p) (pr_contract p) r db = Inr db' \<Longrightarrow> contract_reach db' (ps @ qs)"
| dropped: "contract_reach db (ps @ p # qs) \<Longrightarrow> contract_reach db (ps @ qs)"

text \<open>
  A run under way either has nothing more to write, as a run for its period is there and the constraint will refuse it, or
  it is up to date: the contract still has that period, and what it is about to bill is not billed.
\<close>

definition run_key :: "pending_run \<Rightarrow> string \<times> string \<times> string \<times> string" where
  "run_key p = (pr_company p, jc_id (pr_contract p), run_window (pr_contract p))"

definition up_to_date :: "contract_db \<Rightarrow> pending_run \<Rightarrow> bool" where
  "up_to_date db p \<longleftrightarrow> next_window (pr_company p) (jc_id (pr_contract p)) db = Some (run_window (pr_contract p))
     \<and> (\<forall>r. pr_result p = Some r \<longrightarrow> (\<forall>b\<in>set (rr_lines r). unbilled (pr_company p) db b
       \<and> line_of (pr_company p) (jc_id (pr_contract p)) db b))"

definition pending_ok :: "contract_db \<Rightarrow> pending_run \<Rightarrow> bool" where
  "pending_ok db p \<longleftrightarrow> contract_dated (pr_contract p)
     \<and> (\<forall>r. pr_result p = Some r \<longrightarrow> (rr_period_start r, rr_period_end r) = run_window (pr_contract p)
         \<and> distinct (map br_line_id (rr_lines r)))
     \<and> (run_key p \<in> period_key ` set (cd_runs db) \<or> up_to_date db p)"

lemma keeps_markers_billed_apart:
  assumes "billed_apart db" "keeps_markers db db'"
  shows "billed_apart db'"
  using assms by (fastforce simp: billed_apart_def keeps_markers_def marks_def list_all_iff list_ex_iff)

lemma keeps_markers_frame:
  assumes "keeps_markers db db'"
  shows "period_key ` set (cd_runs db) \<subseteq> period_key ` set (cd_runs db')" "cd_run_lines db' = cd_run_lines db"
    "line_of companyId contractId db b \<Longrightarrow> line_of companyId contractId db' b"
proof -
  have "\<exists>row'\<in>set (cd_runs db'). period_key row' = period_key row" if "row \<in> set (cd_runs db)" for row
    using that assms by (auto simp: keeps_markers_def list_all_iff list_ex_iff)
  then show "period_key ` set (cd_runs db) \<subseteq> period_key ` set (cd_runs db')"
    by (intro image_subsetI) (metis imageI)
  show "cd_run_lines db' = cd_run_lines db" using assms by (simp add: keeps_markers_def)
  have "\<exists>l'\<in>set (cd_lines db'). line_key l' = line_key l \<and> jl_contract_id l' = jl_contract_id l" if "l \<in> set (cd_lines db)" for l
    using that assms by (auto simp: keeps_markers_def list_all_iff list_ex_iff)
  then show "line_of companyId contractId db b \<Longrightarrow> line_of companyId contractId db' b"
    unfolding line_of_def by metis
qed

lemma edit_pending_ok:
  assumes "pending_ok db p" "keeps_markers db db'" "undisturbed db db' p"
  shows "pending_ok db' p"
proof -
  note kept = keeps_markers_frame [OF assms(2)]
  have "up_to_date db p \<Longrightarrow> up_to_date db' p"
    using assms(3) kept(2,3) by (auto simp: up_to_date_def undisturbed_def unbilled_def)
  then show ?thesis using assms(1) kept(1) by (auto simp: pending_ok_def)
qed

lemma read_pending_ok:
  assumes "dated db" "billed_apart db" "pending_ok db p"
  shows "pending_ok db (p\<lparr>pr_result := Some (run_calculation (pr_company p) (pr_reference p) (pr_contract p) db)\<rparr>)"
proof -
  have "contract_dated (pr_contract p)" using assms(3) by (simp add: pending_ok_def)
  note lines = run_lines_unbilled [OF this assms(1,2) refl, where companyId = "pr_company p" and reference = "pr_reference p"]
  have "(rr_period_start r, rr_period_end r) = run_window (pr_contract p)"
    if "r = run_calculation (pr_company p) (pr_reference p) (pr_contract p) db" for r
    using calculate_window by (simp add: that run_calculation_def)
  then show ?thesis using assms(3) lines
    by (auto simp: pending_ok_def up_to_date_def run_key_def)
qed

text \<open>What a write leaves behind.\<close>

lemma store_lines_frame:
  "cd_contracts (fold (store_line companyId uuid) bs db) = cd_contracts db"
  "cd_runs (fold (store_line companyId uuid) bs db) = cd_runs db"
  "rl \<in> set (cd_run_lines (fold (store_line companyId uuid) bs db)) \<Longrightarrow>
     rl \<in> set (cd_run_lines db) \<or> (rl_company_id rl = companyId \<and> rl_line rl \<in> set bs)"
  "line_of c k db b \<Longrightarrow> line_of c k (fold (store_line companyId uuid) bs db) b"
proof (induction bs arbitrary: db)
  case (Cons x bs)
  { case 1 show ?case using Cons.IH(1) by (simp add: store_line_def) }
  { case 2 show ?case using Cons.IH(2) by (simp add: store_line_def) }
  { case 3 then show ?case using Cons.IH(3) [of "store_line companyId uuid x db"] by (auto simp: store_line_def) }
  { case 4
    then obtain l where "l \<in> set (cd_lines db)" "line_key l = (c, br_line_id b)" "jl_contract_id l = k"
      by (auto simp: line_of_def)
    then have "line_of c k (store_line companyId uuid x db) b"
      unfolding line_of_def store_line_def
      by (intro bexI [of _ "if jl_company_id l = companyId \<and> jl_id l = br_line_id x
        then l\<lparr>jl_last_billed_through := Some (br_period_end x), jl_version := jl_version l + 1\<rparr> else l"])
        (auto simp: line_key_def)
    then show ?case using Cons.IH(4) by simp }
qed simp_all

lemma moved_on_key [simp]:
  "jc_id (moved_on companyId contractId r c) = jc_id c" "jc_company_id (moved_on companyId contractId r c) = jc_company_id c"
  "jc_deleted (moved_on companyId contractId r c) = jc_deleted c"
  by (simp_all add: moved_on_def)

lemma store_run_shape:
  assumes "store_run uuid companyId contract r db = Inr db'"
  obtains calls where
    "db' = (fold (store_line companyId uuid) (filter (\<lambda>l. some_text (br_item_id l) \<noteq> None) (rr_lines r))
         (db\<lparr>cd_runs := cd_runs db @ [new_run uuid companyId contract r]\<rparr>))
       \<lparr>cd_contracts := map (moved_on companyId (jc_id contract) r) (cd_contracts db), cd_ledger := calls\<rparr>"
    "\<exists>x\<in>set (cd_contracts db). jc_company_id x = companyId \<and> jc_id x = jc_id contract"
proof -
  define d2 where "d2 = fold (store_line companyId uuid) (filter (\<lambda>l. some_text (br_item_id l) \<noteq> None) (rr_lines r))
    (db\<lparr>cd_runs := cd_runs db @ [new_run uuid companyId contract r]\<rparr>)"
  have same: "cd_contracts d2 = cd_contracts db" by (simp add: d2_def store_lines_frame(1))
  have fresh: "\<not> list_ex (same_period companyId (jc_id contract) r) (cd_runs db)"
    using assms by (simp add: store_run_def split: if_splits)
  note run = assms [unfolded store_run_def Let_def d2_def [symmetric] same if_not_P [OF fresh]]
  obtain x where x: "find (\<lambda>c. jc_company_id c = companyId \<and> jc_id c = jc_id contract) (cd_contracts db) = Some x"
    using run by (cases "find (\<lambda>c. jc_company_id c = companyId \<and> jc_id c = jc_id contract) (cd_contracts db)") simp_all
  then have found: "\<exists>x\<in>set (cd_contracts db). jc_company_id x = companyId \<and> jc_id x = jc_id contract"
    by (auto simp: find_Some_iff)
  show ?thesis
    by (rule that [OF _ found, folded d2_def]) (use run [unfolded x option.case sum.inject] in \<open>rule sym\<close>)
qed

lemma new_run_key [simp]:
  "period_key (new_run uuid companyId contract r) = (companyId, jc_id contract, rr_period_start r, rr_period_end r)"
  by (simp add: period_key_def new_run_def)

lemma store_run_frame:
  assumes "store_run uuid companyId contract r db = Inr db'"
  shows "period_key ` set (cd_runs db') = insert (companyId, jc_id contract, rr_period_start r, rr_period_end r) (period_key ` set (cd_runs db))"
    and "(companyId, jc_id contract, rr_period_start r, rr_period_end r) \<notin> period_key ` set (cd_runs db)"
    and "rl \<in> set (cd_run_lines db') \<Longrightarrow> rl \<in> set (cd_run_lines db) \<or> (rl_company_id rl = companyId \<and> rl_line rl \<in> set (rr_lines r))"
    and "line_of c k db b \<Longrightarrow> line_of c k db' b"
    and "(c, k) \<noteq> (companyId, jc_id contract) \<Longrightarrow> next_window c k db' = next_window c k db"
proof -
  let ?bs = "filter (\<lambda>l. some_text (br_item_id l) \<noteq> None) (rr_lines r)"
  let ?row = "new_run uuid companyId contract r"
  obtain calls where db':
    "db' = (fold (store_line companyId uuid) ?bs (db\<lparr>cd_runs := cd_runs db @ [?row]\<rparr>))
       \<lparr>cd_contracts := map (moved_on companyId (jc_id contract) r) (cd_contracts db), cd_ledger := calls\<rparr>"
    by (rule store_run_shape [OF assms])
  show "period_key ` set (cd_runs db') = insert (companyId, jc_id contract, rr_period_start r, rr_period_end r) (period_key ` set (cd_runs db))"
    by (simp add: db' store_lines_frame(2))
  show "(companyId, jc_id contract, rr_period_start r, rr_period_end r) \<notin> period_key ` set (cd_runs db)"
    using assms by (auto simp: store_run_def period_key_def same_period_def list_ex_iff split: if_splits)
  show "rl \<in> set (cd_run_lines db') \<Longrightarrow> rl \<in> set (cd_run_lines db) \<or> (rl_company_id rl = companyId \<and> rl_line rl \<in> set (rr_lines r))"
    using store_lines_frame(3) [of rl companyId uuid ?bs "db\<lparr>cd_runs := cd_runs db @ [?row]\<rparr>"] by (auto simp: db')
  show "line_of c k db b \<Longrightarrow> line_of c k db' b"
    using store_lines_frame(4) [of c k "db\<lparr>cd_runs := cd_runs db @ [?row]\<rparr>" b companyId uuid ?bs] by (simp add: db' line_of_def)
  have "find (\<lambda>x. jc_company_id x = c \<and> jc_id x = k \<and> \<not> jc_deleted x) (map (moved_on companyId (jc_id contract) r) cs)
      = find (\<lambda>x. jc_company_id x = c \<and> jc_id x = k \<and> \<not> jc_deleted x) cs"
    if "(c, k) \<noteq> (companyId, jc_id contract)" for cs :: "contract_row list"
    using that by (induction cs) (auto simp: moved_on_def)
  then show "(c, k) \<noteq> (companyId, jc_id contract) \<Longrightarrow> next_window c k db' = next_window c k db"
    by (simp add: next_window_def load_contract_def db')
qed

text \<open>The lines of two contracts are different.\<close>

lemma lines_apart:
  assumes "dated db" "line_of c k db b" "line_of c k' db b'" "br_line_id b = br_line_id b'"
  shows "k = k'"
proof -
  obtain l l' where l: "l \<in> set (cd_lines db)" "l' \<in> set (cd_lines db)" "jl_id l = jl_id l'" "jl_contract_id l = k" "jl_contract_id l' = k'"
    using assms(2-4) by (auto simp: line_of_def line_key_def)
  moreover have "inj_on jl_id (set (cd_lines db))" using assms(1) by (simp add: dated_def distinct_map)
  ultimately show ?thesis by (metis inj_onD)
qed

lemma write_ok:
  assumes "billed_apart db" "dated db" "pending_ok db p" "pr_result p = Some r"
    and "store_run (pr_uuid p) (pr_company p) (pr_contract p) r db = Inr db'"
  shows "billed_apart db'" "pending_ok db q \<Longrightarrow> pending_ok db' q"
proof -
  note frame = store_run_frame [OF assms(5)]
  have key: "run_key p = (pr_company p, jc_id (pr_contract p), rr_period_start r, rr_period_end r)"
    using assms(3,4) by (auto simp: pending_ok_def run_key_def)
  then have current: "up_to_date db p" using assms(3) frame(2) by (simp add: pending_ok_def)
  let ?bs = "filter (\<lambda>l. some_text (br_item_id l) \<noteq> None) (rr_lines r)"
  obtain runs contracts calls where db':
    "db' = (fold (store_line (pr_company p) (pr_uuid p)) ?bs (db\<lparr>cd_runs := runs\<rparr>))\<lparr>cd_contracts := contracts, cd_ledger := calls\<rparr>"
    using store_run_shape [OF assms(5)] by metis
  have "billed_apart (fold (store_line (pr_company p) (pr_uuid p)) ?bs (db\<lparr>cd_runs := runs\<rparr>))"
  proof (rule store_lines_billed_apart)
    show "billed_apart (db\<lparr>cd_runs := runs\<rparr>)" using assms(1) by (simp add: billed_apart_def)
    show "unbilled (pr_company p) (db\<lparr>cd_runs := runs\<rparr>) b" if "b \<in> set ?bs" for b
      using that current assms(4) by (auto simp: up_to_date_def unbilled_def)
    show "distinct (map br_line_id ?bs)"
      using assms(3,4) by (auto simp: pending_ok_def distinct_map intro: inj_on_subset)
  qed
  then show "billed_apart db'" by (simp add: db' billed_apart_def)
  assume q: "pending_ok db q"
  have "run_key q \<in> period_key ` set (cd_runs db')" if "up_to_date db q" "pr_company q = pr_company p" "jc_id (pr_contract q) = jc_id (pr_contract p)"
  proof -
    have "run_key q = run_key p" using that current by (simp add: run_key_def up_to_date_def)
    then show ?thesis using key frame(1) by simp
  qed
  moreover have "up_to_date db' q" if current_q: "up_to_date db q"
    and other: "(pr_company q, jc_id (pr_contract q)) \<noteq> (pr_company p, jc_id (pr_contract p))"
  proof -
    have "unbilled (pr_company q) db' b" if s: "pr_result q = Some s" and b: "b \<in> set (rr_lines s)" for s b
    proof -
      have b1: "unbilled (pr_company q) db b" "line_of (pr_company q) (jc_id (pr_contract q)) db b"
        using current_q s b by (auto simp: up_to_date_def)
      have "ends_before (rl_line rl) b" if rl: "rl \<in> set (cd_run_lines db')" "run_line_key rl = (pr_company q, br_line_id b)" for rl
      proof (cases "rl \<in> set (cd_run_lines db)")
        case True
        then show ?thesis using b1(1) rl(2) by (simp add: unbilled_def)
      next
        case False
        then have "rl_company_id rl = pr_company p" "rl_line rl \<in> set (rr_lines r)" using frame(3) [OF rl(1)] by auto
        moreover from this have "line_of (pr_company p) (jc_id (pr_contract p)) db (rl_line rl)"
          using current assms(4) by (auto simp: up_to_date_def)
        ultimately show ?thesis using lines_apart [OF assms(2) _ b1(2)] other rl(2) by (auto simp: run_line_key_def)
      qed
      then show ?thesis using b1(1) by (simp add: unbilled_def)
    qed
    then show ?thesis using current_q frame(4) frame(5) [OF other] by (auto simp: up_to_date_def)
  qed
  ultimately show "pending_ok db' q"
    using q frame(1) by (cases "(pr_company q, jc_id (pr_contract q)) = (pr_company p, jc_id (pr_contract p))")
      (auto simp: pending_ok_def)
qed

lemma contract_reach_inv:
  "contract_reach db ps \<Longrightarrow> billed_apart db \<and> list_all (pending_ok db) ps"
proof (induction rule: contract_reach.induct)
  case (empty db)
  then show ?case by (simp add: billed_apart_def)
next
  case (edit db ps db')
  then show ?case
    using keeps_markers_billed_apart edit_pending_ok by (auto simp: list_all_iff)
next
  case (read_contract db ps companyId contractId c uuid reference)
  then have "contract_dated c" "jc_id c = contractId"
    by (auto simp: load_contract_def find_Some_iff dated_def list_all_length)
  then show ?case using read_contract
    by (auto simp: pending_ok_def up_to_date_def next_window_def)
next
  case (read_lines db ps p qs)
  then show ?case using read_pending_ok by auto
next
  case (store db ps p qs r db')
  then show ?case using write_ok [of db p r db'] by (auto simp: list_all_iff)
qed simp_all

text \<open>
  C13: No rental line is billed twice for the same day.  Runs of any contracts overlap, each reading
  and writing in steps of its own, edits come in between, and of two periods that were billed for the same line
  the later one starts after the day the earlier one ends.  The one thing left out is that a contract is deleted, or its period
  edited, between the reads and the write of a run of it.
\<close>

theorem job_lines_never_double_billed:
  assumes "contract_reach db ps" "i < j" "j < length (cd_run_lines db)"
    "run_line_key (cd_run_lines db ! i) = run_line_key (cd_run_lines db ! j)"
  shows "date_less (parseISODate (br_period_end (rl_line (cd_run_lines db ! i))))
    (parseISODate (br_period_start (rl_line (cd_run_lines db ! j))))"
  using contract_reach_inv [OF assms(1)] assms(2-)
  by (auto simp: billed_apart_def separated_def ends_before_def dest: sorted_wrt_nth_less)

text \<open>A request with nothing in between is three of the steps.\<close>

lemma contract_reach_request:
  assumes "contract_reach db ps" "dated db" "create_billing_run uuid companyId contractId reference force db = Inr (r, db')"
  shows "contract_reach db' ps"
proof -
  obtain c where c: "load_contract companyId contractId db = Some c" "r = run_calculation companyId reference c db"
    "store_run uuid companyId c r db = Inr db'"
    using assms(3)
    by (auto simp: create_billing_run_def run_tx_def contract_run_def map_result_def split: if_splits option.splits sum.splits)
  let ?p = "\<lparr>pr_uuid = uuid, pr_company = companyId, pr_reference = reference, pr_contract = c, pr_result = None\<rparr>"
  have "contract_reach db ([] @ ?p # ps)"
    using contract_reach.read_contract [OF assms(1,2) c(1)] by simp
  from contract_reach.read_lines [OF this assms(2)]
  have "contract_reach db ([] @ ?p\<lparr>pr_result := Some r\<rparr> # ps)" by (simp add: c(2))
  from contract_reach.store [OF this assms(2)] show ?thesis using c(3) by simp
qed

text \<open>
  What happens in that case: the unique constraint compares both ends of a period, so when the cycle of a contract is
  edited between the reads of two runs, the periods start on the same day, end on different days, and both runs
  are stored, with the lines they share.
\<close>

lemma store_run_succeeds:
  assumes "(companyId, jc_id c, rr_period_start r, rr_period_end r) \<notin> period_key ` set (cd_runs db)"
    and "\<exists>x\<in>set (cd_contracts db). jc_company_id x = companyId \<and> jc_id x = jc_id c"
  shows "\<exists>db'. store_run uuid companyId c r db = Inr db'"
proof -
  have "\<not> list_ex (same_period companyId (jc_id c) r) (cd_runs db)"
    using assms(1) by (auto simp: list_ex_iff same_period_def period_key_def)
  moreover have "find (\<lambda>x. jc_company_id x = companyId \<and> jc_id x = jc_id c) (cd_contracts db) \<noteq> None"
    using assms(2) by (auto simp: find_None_iff)
  ultimately show ?thesis by (auto simp: store_run_def Let_def store_lines_frame(1) split: option.splits)
qed

lemma store_run_lines:
  assumes "store_run uuid companyId c r db = Inr db'" "b \<in> set (rr_lines r)" "some_text (br_item_id b) \<noteq> None"
  shows "\<lparr>rl_company_id = companyId, rl_billing_run_id = uuid, rl_line = b\<rparr> \<in> set (cd_run_lines db')"
    and "set (cd_run_lines db) \<subseteq> set (cd_run_lines db')"
    and "\<exists>x\<in>set (cd_contracts db'). jc_company_id x = companyId \<and> jc_id x = jc_id c"
proof -
  have stored: "set (cd_run_lines (fold (store_line companyId uuid) bs d))
      = set (cd_run_lines d) \<union> (\<lambda>b. \<lparr>rl_company_id = companyId, rl_billing_run_id = uuid, rl_line = b\<rparr>) ` set bs" for bs d
    by (induction bs arbitrary: d) (auto simp: store_line_def)
  obtain calls where db':
    "db' = (fold (store_line companyId uuid) (filter (\<lambda>l. some_text (br_item_id l) \<noteq> None) (rr_lines r))
         (db\<lparr>cd_runs := cd_runs db @ [new_run uuid companyId c r]\<rparr>))
       \<lparr>cd_contracts := map (moved_on companyId (jc_id c) r) (cd_contracts db), cd_ledger := calls\<rparr>"
    and found: "\<exists>x\<in>set (cd_contracts db). jc_company_id x = companyId \<and> jc_id x = jc_id c"
    by (rule store_run_shape [OF assms(1)])
  show "\<lparr>rl_company_id = companyId, rl_billing_run_id = uuid, rl_line = b\<rparr> \<in> set (cd_run_lines db')"
    "set (cd_run_lines db) \<subseteq> set (cd_run_lines db')"
    using assms(2,3) by (auto simp: db' stored)
  show "\<exists>x\<in>set (cd_contracts db'). jc_company_id x = companyId \<and> jc_id x = jc_id c"
    using found by (auto simp: db')
qed

lemma edit_between_reads_bills_twice:
  assumes "jc_id c2 = jc_id c1" "rr_period_start r2 = rr_period_start r1" "rr_period_end r2 \<noteq> rr_period_end r1"
    and "store_run u1 companyId c1 r1 db = Inr db1"
    and "(companyId, jc_id c1, rr_period_start r2, rr_period_end r2) \<notin> period_key ` set (cd_runs db)"
    and "b1 \<in> set (rr_lines r1)" "b2 \<in> set (rr_lines r2)" "br_line_id b2 = br_line_id b1" "br_period_start b2 = br_period_start b1"
    and "some_text (br_item_id b1) \<noteq> None" "some_text (br_item_id b2) \<noteq> None"
  shows "\<exists>db2 x y. store_run u2 companyId c2 r2 db1 = Inr db2 \<and> {x, y} \<subseteq> set (cd_run_lines db2) \<and> rl_line x = b1 \<and> rl_line y = b2 \<and>
    run_line_key x = run_line_key y \<and> br_period_start (rl_line x) = br_period_start (rl_line y)"
proof -
  note first = store_run_lines [OF assms(4,6,10)] store_run_frame [OF assms(4)]
  have "(companyId, jc_id c2, rr_period_start r2, rr_period_end r2) \<notin> period_key ` set (cd_runs db1)"
    using first(4) assms(1,3,5) by auto
  then obtain db2 where db2: "store_run u2 companyId c2 r2 db1 = Inr db2"
    using store_run_succeeds first(3) assms(1) by metis
  note second = store_run_lines [OF db2 assms(7,11)]
  show ?thesis
    by (intro exI [of _ db2] exI [of _ "\<lparr>rl_company_id = companyId, rl_billing_run_id = u1, rl_line = b1\<rparr>"]
        exI [of _ "\<lparr>rl_company_id = companyId, rl_billing_run_id = u2, rl_line = b2\<rparr>"])
      (use second first(1) in \<open>auto simp: db2 run_line_key_def assms(8,9)\<close>)
qed

text \<open>A contract with one line at a flat rate, both billed through the day before \<open>z\<close>.\<close>

definition flat_contract :: "contract_row \<Rightarrow> bool" where
  "flat_contract c \<longleftrightarrow> jc_id c = ''k'' \<and> jc_company_id c = ''c'' \<and> jc_billing_cycle_days c = 25
     \<and> jc_billing_start_date c = iso 20454 \<and> \<not> jc_deleted c"

definition flat_line :: "line_row \<Rightarrow> bool" where
  "flat_line l \<longleftrightarrow> jl_id l = ''l'' \<and> jl_company_id l = ''c'' \<and> jl_contract_id l = ''k'' \<and> \<not> jl_deleted l
     \<and> jl_inventory_item_id l = ''i'' \<and> jl_quantity l = ''2'' \<and> jl_agreed_rate l = ''10'' \<and> jl_rate_unit l = ''each''
     \<and> jl_on_rent_date l = iso 20454 \<and> jl_off_rent_date l = None \<and> jl_billable l \<and> jl_status l = ''on_rent''"

definition flat_db :: "int \<Rightarrow> contract_db \<Rightarrow> bool" where
  "flat_db z db \<longleftrightarrow> (\<exists>c l. cd_contracts db = [c] \<and> cd_lines db = [l] \<and> cd_tiers db = [] \<and> flat_contract c \<and> flat_line l
     \<and> jc_last_billed_through c = Some (iso (z - 1)) \<and> jl_last_billed_through l = Some (iso (z - 1)))
     \<and> (\<forall>row\<in>set (cd_runs db). \<exists>y. iso_day y \<and> y < z \<and> jr_period_start row = iso y)"

lemma near_iso: "iso_day z \<Longrightarrow> iso_day (z + 40000) \<Longrightarrow> near (iso z)"
  by (simp add: near_def parse_format_date)

lemma shift_iso_iso: "iso_day z \<Longrightarrow> iso_day (z + k) \<Longrightarrow> \<bar>k\<bar> \<le> 100000 \<Longrightarrow> shift_iso (iso z) (num_of_int k) = iso (z + k)"
  by (simp add: shift_iso_def parse_format_date addDaysUtc_int iso_clip)

lemma flat_db_dated:
  assumes "flat_db z db" "20454 \<le> z" "z \<le> 100000"
  shows "dated db"
  using assms
  by (auto simp: flat_db_def dated_def contract_dated_def line_dated_def flat_contract_def flat_line_def near_option_def
      iso_day_def intro!: near_iso)

lemma flat_window:
  assumes "flat_contract c" "jc_last_billed_through c = Some (iso (z - 1))" "20454 \<le> z" "z \<le> 100000"
  shows "run_window c = (iso z, iso (z + 24))" and "cycle_days (bc_billing_cycle_days (toBillingContract c)) = num_of_int 25"
proof -
  show n: "cycle_days (bc_billing_cycle_days (toBillingContract c)) = num_of_int 25"
    using assms(1) by (simp add: cycle_days_def toBillingContract_def flat_contract_def num_or_int math_max_int)
  have "period_start_of (toBillingContract c) = iso z"
    using assms shift_iso_iso [of "z - 1" 1]
    by (simp add: period_start_of_def toBillingContract_def iso_day_def)
  moreover have "shift_iso (iso z) (num_of_int 24) = iso (z + 24)"
    using assms by (intro shift_iso_iso) (auto simp: iso_day_def)
  moreover have "num_sub (num_of_int 25) (num_of_int 1) = num_of_int 24" using num_sub_int [of 25 1] by simp
  ultimately show "run_window c = (iso z, iso (z + 24))"
    using n by (simp add: run_window_def calculateJobRentalBillingRun_def Let_def)
qed

lemma flat_bill_line:
  assumes "flat_line l" "jl_last_billed_through l = Some (iso (z - 1))" "20454 \<le> z" "z \<le> 100000"
  shows "\<exists>b. bill_line (iso z) (iso (z + 24)) n (toBillingLine l []) = Some b \<and> br_line_id b = ''l'' \<and>
    br_item_id b = Some ''i'' \<and> br_period_start b = iso z \<and> br_period_end b = iso (z + 24)"
proof -
  have iso: "iso_day z" "iso_day (z - 1)" "iso_day (z + 24)" "iso_day 20454" using assms by (auto simp: iso_day_def)
  have start: "effective_start (iso z) (toBillingLine l []) = iso z"
    using assms iso shift_iso_iso [of "z - 1" 1]
    by (simp add: effective_start_def toBillingLine_def flat_line_def maxISODate_def parse_format_date)
  have fin: "effective_end (iso (z + 24)) (toBillingLine l []) = iso (z + 24)"
    using assms by (simp add: effective_end_def toBillingLine_def flat_line_def minISODate_def)
  have "num_mul (num_of_int 2) (num_of_int 10) = num_of_int 20" using num_mul_int [of 2 10] by simp
  then have "calculateJobRentalLineAmount (num_of_int 2) (num_of_int 10) Per_each d n = num_of_int 20" for d
    by (simp add: calculateJobRentalLineAmount_def roundMoney_int)
  moreover have "\<not> num_le (num_of_int 2) (num_of_int 0)" "\<not> num_less (num_of_int 10) (num_of_int 0)"
    "\<not> num_le (num_of_int 20) (num_of_int 0)" by (simp_all add: num_le_def num_of_int_exact signed_def)
  ultimately show ?thesis
    using assms(1) iso start fin
    by (simp add: bill_line_def Let_def flat_line_def toBillingLine_def small_text_number pickRentalTier_def
        normalizeRentalRateUnit_def parse_format_date some_text_def)
qed

lemma flat_run:
  assumes "flat_db z db" "20454 \<le> z" "z \<le> 99000" "isValidDateInput reference"
  shows "\<exists>r db' rl. create_billing_run uuid ''c'' ''k'' reference True db = Inr (r, db') \<and> flat_db (z + 25) db'
    \<and> cd_run_lines db' = cd_run_lines db @ [rl] \<and> run_line_key rl = (''c'', ''l'')"
proof -
  obtain c l where db: "cd_contracts db = [c]" "cd_lines db = [l]" "cd_tiers db = []" "flat_contract c" "flat_line l"
    "jc_last_billed_through c = Some (iso (z - 1))" "jl_last_billed_through l = Some (iso (z - 1))"
    using assms(1) by (auto simp: flat_db_def)
  have z: "20454 \<le> z" "z \<le> 100000" using assms by auto
  note window = flat_window [OF db(4,6) z]
  obtain b where b: "bill_line (iso z) (iso (z + 24)) (num_of_int 25) (toBillingLine l []) = Some b" "br_line_id b = ''l''"
    "br_item_id b = Some ''i''" "br_period_start b = iso z" "br_period_end b = iso (z + 24)"
    using flat_bill_line [OF db(5,7) z] by blast
  have lines: "load_lines ''c'' ''k'' db = [toBillingLine l []]"
    using db by (simp add: load_lines_def line_tiers_def flat_line_def)
  let ?r = "calculateJobRentalBillingRun (toBillingContract c) [toBillingLine l []] reference"
  have r: "rr_period_start ?r = iso z" "rr_period_end ?r = iso (z + 24)"
    using window calculate_window [of c "[toBillingLine l []]" reference] by auto
  have billed: "rr_lines ?r = [b]"
    using window b by (auto simp: calculateJobRentalBillingRun_def Let_def run_window_def List.map_filter_simps)
  have run: "contract_run ''c'' ''k'' reference db = Some (c, ?r)"
    using db lines by (simp add: contract_run_def run_calculation_def load_contract_def flat_contract_def)
  have fresh: "\<not> list_ex (same_period ''c'' ''k'' ?r) (cd_runs db)"
  proof -
    have "jr_period_start row \<noteq> iso z" if "row \<in> set (cd_runs db)" for row
      using assms(1) that z iso_inject [of _ z] by (fastforce simp: flat_db_def iso_day_def)
    then show ?thesis by (auto simp: list_ex_iff same_period_def r)
  qed
  then have "\<not> list_ex (\<lambda>row. same_period ''c'' ''k'' ?r row \<and> \<not> jr_deleted row) (cd_runs db)"
    by (auto simp: list_ex_iff)
  then obtain db' where made: "create_billing_run uuid ''c'' ''k'' reference True db = Inr (?r, db')"
    "run_tx uuid ''c'' ''k'' reference db = Inr (?r, db')"
    using run fresh billed assms(4) db(1,4)
    by (simp add: create_billing_run_def run_tx_def store_run_def Let_def store_lines_frame(1) flat_contract_def)
  moreover have "flat_db (z + 25) db' \<and> (\<exists>rl. cd_run_lines db' = cd_run_lines db @ [rl] \<and> run_line_key rl = (''c'', ''l''))"
  proof -
    have db': "cd_contracts db' = [c\<lparr>jc_last_billed_through := Some (iso (z + 24)),
        jc_next_billing_date := rr_next_billing_date ?r, jc_version := jc_version c + 1\<rparr>]"
      "cd_lines db' = [l\<lparr>jl_last_billed_through := Some (iso (z + 24)), jl_version := jl_version l + 1\<rparr>]"
      "cd_tiers db' = []" "cd_run_lines db' = cd_run_lines db @ [\<lparr>rl_company_id = ''c'', rl_billing_run_id = uuid, rl_line = b\<rparr>]"
      "\<exists>row. cd_runs db' = cd_runs db @ [row] \<and> jr_period_start row = iso z"
      using made(2) run fresh billed r b(2-) db
      by (auto simp: run_tx_def store_run_def new_run_def moved_on_def Let_def store_line_def flat_contract_def flat_line_def some_text_def)
    have "\<exists>y. iso_day y \<and> y < z + 25 \<and> jr_period_start row = iso y" if row: "row \<in> set (cd_runs db')" for row
    proof (cases "row \<in> set (cd_runs db)")
      case True
      then obtain y where "iso_day y" "y < z" "jr_period_start row = iso y" using assms(1) by (auto simp: flat_db_def)
      then show ?thesis by (intro exI [of _ y]) simp
    next
      case False
      then have "jr_period_start row = iso z" using row db'(5) by auto
      then show ?thesis using z by (intro exI [of _ z]) (simp add: iso_day_def)
    qed
    moreover have "flat_contract (hd (cd_contracts db'))" "flat_line (hd (cd_lines db'))"
      using db(4,5) db'(1,2) by (simp_all add: flat_contract_def flat_line_def)
    ultimately show ?thesis using db' b(2) by (simp add: flat_db_def run_line_key_def add.commute [of z 24])
  qed
  ultimately show ?thesis by blast
qed

definition flat_demo :: contract_db where
  "flat_demo = \<lparr>cd_contracts = [\<lparr>jc_id = ''k'', jc_company_id = ''c'', jc_project_id = ''p'', jc_customer_id = None,
     jc_billing_cycle_days = 25, jc_billing_start_date = iso 20454, jc_last_billed_through = Some (iso 20453),
     jc_next_billing_date = iso 20479, jc_version = 1, jc_deleted = False\<rparr>],
   cd_lines = [\<lparr>jl_id = ''l'', jl_company_id = ''c'', jl_contract_id = ''k'', jl_inventory_item_id = ''i'',
     jl_item_code = Some ''FR'', jl_item_description = Some ''Frame'', jl_quantity = ''2'', jl_agreed_rate = ''10'',
     jl_rate_unit = ''each'', jl_on_rent_date = iso 20454, jl_off_rent_date = None,
     jl_last_billed_through = Some (iso 20453), jl_billable = True, jl_taxable = True, jl_status = ''on_rent'',
     jl_version = 1, jl_deleted = False, jl_created_at = 0\<rparr>],
   cd_tiers = [], cd_runs = [], cd_run_lines = [], cd_ledger = []\<rparr>"

lemma job_lines_never_double_billed_witness:
  "\<exists>db. contract_reach db [] \<and> length (cd_run_lines db) = 2 \<and>
    date_less (parseISODate (br_period_end (rl_line (cd_run_lines db ! 0))))
      (parseISODate (br_period_start (rl_line (cd_run_lines db ! 1))))"
proof -
  have ref: "isValidDateInput ''2026-05-01''" by (simp add: isValidDateInput_def is_digit_def)
  have flat: "flat_db 20454 flat_demo"
    by (simp add: flat_db_def flat_demo_def flat_contract_def flat_line_def)
  obtain r1 db1 a where run1: "create_billing_run ''u1'' ''c'' ''k'' ''2026-05-01'' True flat_demo = Inr (r1, db1)"
    "flat_db 20479 db1" "cd_run_lines db1 = [a]" "run_line_key a = (''c'', ''l'')"
    using flat_run [OF flat _ _ ref, of "''u1''"] by (auto simp: flat_demo_def)
  obtain r2 db2 b where run2: "create_billing_run ''u2'' ''c'' ''k'' ''2026-05-01'' True db1 = Inr (r2, db2)"
    "cd_run_lines db2 = [a, b]" "run_line_key b = (''c'', ''l'')"
    using flat_run [OF run1(2) _ _ ref, of "''u2''"] run1(3) by auto
  have "contract_reach flat_demo []" by (rule contract_reach.empty) (simp add: flat_demo_def)
  then have "contract_reach db1 []" using run1(1) flat_db_dated [OF flat] by (auto intro: contract_reach_request)
  then have "contract_reach db2 []" using run2(1) flat_db_dated [OF run1(2)] by (auto intro: contract_reach_request)
  then show ?thesis
    using job_lines_never_double_billed [of db2 "[]" 0 1] run1(4) run2(2,3) by (intro exI [of _ db2]) auto
qed

section \<open>A period without billable lines\<close>

text \<open>Requests one after the other; a refused one changes nothing.\<close>

definition bill_requests :: "string \<Rightarrow> string \<Rightarrow> (string \<times> string \<times> bool) list \<Rightarrow> contract_db \<Rightarrow> contract_db" where
  "bill_requests companyId contractId requests db =
     fold (\<lambda>(uuid, reference, force) db. case create_billing_run uuid companyId contractId reference force db of
       Inl _ \<Rightarrow> db | Inr (_, db') \<Rightarrow> db') requests db"

text \<open>A line with nothing to bill from \<open>ps\<close> to \<open>pe\<close>: not for hire, or on rent later, off rent before, or billed already.\<close>

definition idle_line :: "string \<Rightarrow> string \<Rightarrow> line_row \<Rightarrow> bool" where
  "idle_line ps pe l \<longleftrightarrow> \<not> jl_billable l \<or> jl_status l \<in> {''void'', ''cancelled''}
     \<or> date_less (parseISODate pe) (parseISODate (jl_on_rent_date l))
     \<or> (\<exists>t. jl_off_rent_date l = Some t \<and> date_less (parseISODate t) (parseISODate ps))
     \<or> (\<exists>t. jl_last_billed_through l = Some t \<and> date_le (parseISODate pe) (parseISODate t))"

lemma idle_line_unbilled:
  assumes "line_dated l" "idle_line ps pe l" "parseISODate ps = Some p" "parseISODate pe = Some q"
  shows "bill_line ps pe n (toBillingLine l ts) = None"
proof (cases "jl_billable l \<and> jl_status l \<notin> {''void'', ''cancelled''}")
  case True
  obtain s where s: "parseISODate (effective_start ps (toBillingLine l ts)) = Some s" "p \<le> s"
    "\<And>z. parseISODate (jl_on_rent_date l) = Some z \<Longrightarrow> z \<le> s"
    "\<And>t z. jl_last_billed_through l = Some t \<Longrightarrow> parseISODate t = Some z \<Longrightarrow> z < s"
    using effective_start_dates [OF assms(1,3)] by blast
  obtain e where e: "parseISODate (effective_end pe (toBillingLine l ts)) = Some e" "e \<le> q"
    "\<And>t z. jl_off_rent_date l = Some t \<Longrightarrow> parseISODate t = Some z \<Longrightarrow> e \<le> z"
    using effective_end_dates [OF assms(1,4)] by blast
  consider z where "parseISODate (jl_on_rent_date l) = Some z" "q < z"
    | t z where "jl_off_rent_date l = Some t" "parseISODate t = Some z" "z < p"
    | t z where "jl_last_billed_through l = Some t" "parseISODate t = Some z" "q \<le> z"
    using assms(2-4) True by (auto simp: idle_line_def split: option.splits elim!: date_less.elims date_le.elims)
  then have "e < s" using s e by cases (meson le_less_trans less_le_trans)+
  then show ?thesis using s(1) e(1) by (simp add: bill_line_def Let_def)
qed (auto simp: bill_line_def Let_def toBillingLine_def)

text \<open>
  C27: A contract with nothing to bill in its next period stays there until it or its lines are edited.  Whatever
  requests are made, each with any reference date and forced or not, all of them are refused and change nothing,
  so the contract is not moved on to the periods in which its lines are on rent.
\<close>

theorem job_contract_stuck:
  assumes "dated db" "load_contract companyId contractId db = Some c" "run_window c = (ps, pe)"
    and "\<And>l. l \<in> set (cd_lines db) \<Longrightarrow> jl_company_id l = companyId \<Longrightarrow> jl_contract_id l = contractId \<Longrightarrow>
      \<not> jl_deleted l \<Longrightarrow> idle_line ps pe l"
  shows "bill_requests companyId contractId requests db = db \<and>
    (isValidDateInput reference \<longrightarrow> create_billing_run uuid companyId contractId reference force db =
      Inl (HttpError 400 (if rr_is_due (run_calculation companyId reference c db) \<or> force
        then ''no billable rental lines for this period'' else ''billing run is not due yet'')))"
proof -
  have c: "contract_dated c" "jc_id c = contractId"
    using assms(1,2) by (auto simp: load_contract_def find_Some_iff dated_def list_all_length)
  obtain p q where pq: "parseISODate ps = Some p" "parseISODate pe = Some q"
    using run_window_dates [OF c(1)] assms(3) by auto
  have empty: "rr_lines (run_calculation companyId reference c db) = []" for reference
  proof -
    obtain n where lines: "rr_lines (run_calculation companyId reference c db)
        = List.map_filter (bill_line ps pe n) (load_lines companyId (jc_id c) db)"
      by (rule run_calculation_lines [OF c(1) assms(3)])
    have "bill_line ps pe n x = None" if x: "x \<in> set (load_lines companyId contractId db)" for x
    proof -
      obtain l where "l \<in> set (cd_lines db)" "jl_company_id l = companyId" "jl_contract_id l = contractId" "\<not> jl_deleted l"
        "x = toBillingLine l (line_tiers db l)" using x by (auto simp: load_lines_def)
      then show ?thesis using assms(1) assms(4) idle_line_unbilled [OF _ _ pq] by (simp add: dated_def list_all_iff)
    qed
    then show ?thesis by (auto simp: lines c(2) List.map_filter_def filter_empty_conv)
  qed
  have refused: "create_billing_run uuid companyId contractId reference force db = Inl (if isValidDateInput reference
      then HttpError 400 (if rr_is_due (run_calculation companyId reference c db) \<or> force
        then ''no billable rental lines for this period'' else ''billing run is not due yet'')
      else HttpError 400 ''reference_date must be YYYY-MM-DD'')" for uuid reference force
    using assms(2) empty by (simp add: create_billing_run_def contract_run_def)
  have "bill_requests companyId contractId requests db = db"
    by (induction requests) (auto simp: bill_requests_def refused)
  then show ?thesis by (simp add: refused)
qed

lemma job_contract_stuck_witness:
  "bill_requests ''c'' ''k'' [(''u'', ''2027-01-01'', True), (''v'', ''2028-01-01'', False)]
     (flat_demo\<lparr>cd_lines := map (\<lambda>l. l\<lparr>jl_on_rent_date := iso 20500, jl_last_billed_through := None\<rparr>) (cd_lines flat_demo)\<rparr>)
   = flat_demo\<lparr>cd_lines := map (\<lambda>l. l\<lparr>jl_on_rent_date := iso 20500, jl_last_billed_through := None\<rparr>) (cd_lines flat_demo)\<rparr>"
  (is "bill_requests _ _ _ ?db = ?db")
proof -
  let ?c = "hd (cd_contracts flat_demo)"
  have dated: "dated ?db"
    by (auto simp: dated_def flat_demo_def contract_dated_def line_dated_def near_option_def iso_day_def intro!: near_iso)
  have load: "load_contract ''c'' ''k'' ?db = Some ?c" by (simp add: load_contract_def flat_demo_def)
  have window: "run_window ?c = (iso 20454, iso 20478)"
    using flat_window(1) [of ?c 20454] by (simp add: flat_demo_def flat_contract_def)
  have "idle_line (iso 20454) (iso 20478) l" if "l \<in> set (cd_lines ?db)" for l
    using that by (auto simp: flat_demo_def idle_line_def parse_format_date iso_day_def)
  then show ?thesis using job_contract_stuck [OF dated load window] by blast
qed

end
