(* ===== verification/Http_Request.thy ===== *)
theory Http_Request
  imports Prelude
begin

text \<open>
  The part of a \<open>http.IncomingMessage\<close> the request gate reads, and the three ways it reads a header
  (\<open>apps/api/src/rate-limit.ts\<close>, \<open>auth.ts\<close> and \<open>server.ts\<close> each have their own).
\<close>

datatype header_value = One_value string | Many_values "string list"

record http_request =
  rq_method :: string
  rq_pathname :: string
  rq_headers :: "string \<Rightarrow> header_value option"
  rq_remote_address :: "string option"
  rq_body :: string

text \<open>\<open>Array.isArray(raw) ? raw[0] : raw\<close>; a text that is missing or empty is falsy.\<close>

definition first_value :: "header_value option \<Rightarrow> string option" where
  "first_value raw = (case raw of None \<Rightarrow> None | Some (One_value s) \<Rightarrow> Some s
     | Some (Many_values xs) \<Rightarrow> (case xs of [] \<Rightarrow> None | x # _ \<Rightarrow> Some x))"

definition truthy_text :: "string option \<Rightarrow> string option" where
  "truthy_text s = (if s = Some [] then None else s)"

text \<open>\<open>readHeader\<close> of \<open>auth.ts\<close>\<close>

definition readHeader :: "http_request \<Rightarrow> string \<Rightarrow> string option" where
  "readHeader rq key = truthy_text (map_option trim (first_value (rq_headers rq key)))"

text \<open>\<open>getHeaderValue\<close> of \<open>server.ts\<close>: the first of a repeated header is taken as it is.\<close>

definition getHeaderValue :: "http_request \<Rightarrow> string \<Rightarrow> string option" where
  "getHeaderValue rq key = (case rq_headers rq key of None \<Rightarrow> None
     | Some (One_value s) \<Rightarrow> truthy_text (Some (trim s))
     | Some (Many_values xs) \<Rightarrow> (case xs of [] \<Rightarrow> None | x # _ \<Rightarrow> Some x))"

lemma truthy_text_Some [simp]: "truthy_text s = Some t \<longleftrightarrow> s = Some t \<and> t \<noteq> []"
  by (auto simp: truthy_text_def)

lemma readHeader_nonempty: "readHeader rq key = Some t \<Longrightarrow> t \<noteq> []"
  by (simp add: readHeader_def)

text \<open>A prefix, \<open>s.split(c)\<close>, and the segments of a path between slashes.\<close>

definition starts_with :: "string \<Rightarrow> string \<Rightarrow> bool" where
  "starts_with prefix s \<longleftrightarrow> take (length prefix) s = prefix"

fun split_text :: "char \<Rightarrow> string \<Rightarrow> string list" where
  "split_text c [] = [[]]"
| "split_text c (x # xs) =
     (if x = c then [] # split_text c xs
      else case split_text c xs of [] \<Rightarrow> [[x]] | p # ps \<Rightarrow> (x # p) # ps)"

definition segments :: "string \<Rightarrow> string list" where
  "segments = split_text (CHR ''/'')"

lemma split_text_nonempty [simp]: "split_text c s \<noteq> []"
  by (induction s) (auto split: list.splits)

lemma join_split_text [simp]: "join [c] (split_text c s) = s"
proof (induction s)
  case (Cons x s)
  obtain p ps where "split_text c s = p # ps" by (cases "split_text c s") auto
  then show ?case using Cons by (cases ps) auto
qed simp

end
