(* ===== verification/Access.thy ===== *)
theory Access
  imports Js_Date
begin

text \<open>
  Who may do what: the roles, the permission matrix with its custom grants and the two capability domains of
  \<open>packages/domain/src\<close> (\<open>roles.ts\<close>, \<open>permissions.ts\<close>, \<open>capabilities.ts\<close>), and the decisions the API makes with
  them (\<open>permission-seam.ts\<close>, \<open>capability.ts\<close>, \<open>admin-auth.ts\<close>, \<open>requireRole\<close> and \<open>requirePermission\<close> of
  \<open>server.ts\<close>).  The specification of a decision is a sentence about the grants; the lemmas show that the merge
  of caps implements it, in any order of the grants.
\<close>

section \<open>Roles\<close>

datatype company_role = Admin | Foreman | Office | Member | Bookkeeper

fun role_text :: "company_role \<Rightarrow> string" where
  "role_text Admin = ''admin''" | "role_text Foreman = ''foreman''" | "role_text Office = ''office''"
| "role_text Member = ''member''" | "role_text Bookkeeper = ''bookkeeper''"

definition COMPANY_ROLES :: "company_role list" where
  "COMPANY_ROLES = [Admin, Foreman, Office, Member, Bookkeeper]"

definition normalizeCompanyRole :: "string \<Rightarrow> company_role" where
  "normalizeCompanyRole s =
     (if s = ''office'' then Admin
      else case find (\<lambda>r. role_text r = s) COMPANY_ROLES of Some r \<Rightarrow> r | None \<Rightarrow> Member)"

section \<open>The matrix\<close>

datatype permission_action =
    Create_project | Edit_pricing_book | Auth_materials | Brief_crew | Submit_daily_log | Approve_time
  | Clock_in_out | Flag_issue | Stop_work

fun action_text :: "permission_action \<Rightarrow> string" where
  "action_text Create_project = ''create_project''" | "action_text Edit_pricing_book = ''edit_pricing_book''"
| "action_text Auth_materials = ''auth_materials''" | "action_text Brief_crew = ''brief_crew''"
| "action_text Submit_daily_log = ''submit_daily_log''" | "action_text Approve_time = ''approve_time''"
| "action_text Clock_in_out = ''clock_in_out''" | "action_text Flag_issue = ''flag_issue''"
| "action_text Stop_work = ''stop_work''"

definition PERMISSION_ACTIONS :: "permission_action list" where
  "PERMISSION_ACTIONS = [Create_project, Edit_pricing_book, Auth_materials, Brief_crew, Submit_daily_log,
     Approve_time, Clock_in_out, Flag_issue, Stop_work]"

text \<open>The action a text names; \<open>isPermissionAction\<close> asks whether there is one.\<close>

definition permission_action_of :: "string \<Rightarrow> permission_action option" where
  "permission_action_of s = find (\<lambda>a. action_text a = s) PERMISSION_ACTIONS"

datatype builtin_role = Owner | Estimator | Foreman_base | Crew | Bookkeeper_base

fun builtin_text :: "builtin_role \<Rightarrow> string" where
  "builtin_text Owner = ''owner''" | "builtin_text Estimator = ''estimator''"
| "builtin_text Foreman_base = ''foreman''" | "builtin_text Crew = ''crew''"
| "builtin_text Bookkeeper_base = ''bookkeeper''"

fun companyRoleToBuiltin :: "company_role \<Rightarrow> builtin_role" where
  "companyRoleToBuiltin Admin = Owner" | "companyRoleToBuiltin Office = Estimator"
| "companyRoleToBuiltin Foreman = Foreman_base" | "companyRoleToBuiltin Member = Crew"
| "companyRoleToBuiltin Bookkeeper = Bookkeeper_base"

fun builtinToCompanyRole :: "builtin_role \<Rightarrow> company_role" where
  "builtinToCompanyRole Owner = Admin" | "builtinToCompanyRole Estimator = Office"
| "builtinToCompanyRole Foreman_base = Foreman" | "builtinToCompanyRole Crew = Member"
| "builtinToCompanyRole Bookkeeper_base = Bookkeeper"

fun BUILTIN_ROLE_PERMISSIONS :: "builtin_role \<Rightarrow> permission_action list" where
  "BUILTIN_ROLE_PERMISSIONS Owner = PERMISSION_ACTIONS"
| "BUILTIN_ROLE_PERMISSIONS Estimator = [Create_project, Edit_pricing_book, Clock_in_out, Flag_issue, Stop_work]"
| "BUILTIN_ROLE_PERMISSIONS Foreman_base =
     [Brief_crew, Submit_daily_log, Approve_time, Clock_in_out, Flag_issue, Stop_work]"
| "BUILTIN_ROLE_PERMISSIONS Crew = [Clock_in_out, Flag_issue, Stop_work]"
| "BUILTIN_ROLE_PERMISSIONS Bookkeeper_base = [Flag_issue, Stop_work]"

fun CONSTRAINABLE_ACTIONS :: "permission_action \<Rightarrow> string option" where
  "CONSTRAINABLE_ACTIONS Auth_materials = Some ''max_amount_cents''"
| "CONSTRAINABLE_ACTIONS Approve_time = Some ''max_ot_hours_per_week''"
| "CONSTRAINABLE_ACTIONS _ = None"

section \<open>Grants\<close>

text \<open>A JSON object with numbers: its keys are distinct.  \<open>None\<close> is \<open>null\<close>.\<close>

type_synonym constraints = "(string \<times> double) list"

text \<open>The action of a grant is the text of its row, which need not be one of the nine.\<close>

record permission_grant =
  pg_action :: string
  pg_constraints :: "constraints option"

text \<open>The resolved authority: the granted actions, each with its caps.\<close>

type_synonym effective_permissions = "permission_action \<Rightarrow> constraints option option"

definition capped :: "constraints option \<Rightarrow> constraints option" where
  "capped c = (if c = Some [] then None else c)"

definition merge_entry :: "string \<times> double \<Rightarrow> constraints \<Rightarrow> constraints" where
  "merge_entry entry out = (case entry of (k, v) \<Rightarrow>
     (case map_of out k of None \<Rightarrow> out @ [(k, v)]
      | Some old \<Rightarrow> map (\<lambda>(j, w). if j = k then (j, math_min [old, v]) else (j, w)) out))"

definition mergeConstraintsTighter :: "constraints option \<Rightarrow> constraints option \<Rightarrow> constraints option" where
  "mergeConstraintsTighter a b =
     (case (capped a, capped b) of (None, y) \<Rightarrow> y | (x, None) \<Rightarrow> x | (Some x, Some y) \<Rightarrow> Some (fold merge_entry y x))"

definition apply_grant :: "permission_grant \<Rightarrow> effective_permissions \<Rightarrow> effective_permissions" where
  "apply_grant grant out =
     (case permission_action_of (pg_action grant) of None \<Rightarrow> out
      | Some action \<Rightarrow>
          (case out action of None \<Rightarrow> out(action := Some (capped (pg_constraints grant)))
           | Some existing \<Rightarrow>
               out(action := Some (mergeConstraintsTighter existing (capped (pg_constraints grant))))))"

definition resolveEffectivePermissions :: "builtin_role \<Rightarrow> permission_grant list \<Rightarrow> effective_permissions" where
  "resolveEffectivePermissions base grants =
     fold apply_grant grants (\<lambda>a. if a \<in> set (BUILTIN_ROLE_PERMISSIONS base) then Some None else None)"

definition hasPermission :: "effective_permissions \<Rightarrow> permission_action \<Rightarrow> bool" where
  "hasPermission perms action \<longleftrightarrow> perms action \<noteq> None"

datatype verdict = Denied | Allowed "double option" | Over_cap double

text \<open>\<open>checkConstraint\<close> of a constrainable action with its key; the number is the cap that was looked at.\<close>

definition checkConstraint :: "effective_permissions \<Rightarrow> permission_action \<Rightarrow> string \<Rightarrow> double \<Rightarrow> verdict" where
  "checkConstraint perms action capKey value =
     (case perms action of None \<Rightarrow> Denied
      | Some cs \<Rightarrow>
          (case cs of None \<Rightarrow> Allowed None
           | Some entries \<Rightarrow>
               (case map_of entries capKey of None \<Rightarrow> Allowed None
                | Some cap \<Rightarrow> if num_le value cap then Allowed (Some cap) else Over_cap cap)))"

section \<open>The seam\<close>

text \<open>
  What a constraint of a stored grant can be, by what \<open>Number\<close> makes of it; \<open>Compound x\<close> is an array or an
  object that \<open>Number\<close> turns into \<open>x\<close>.
\<close>

datatype constraint_value = Amount numeric | Null_value | Truth bool | Compound double

fun constraint_number :: "constraint_value \<Rightarrow> double" where
  "constraint_number (Amount x) = to_number x"
| "constraint_number Null_value = num_of_int 0"
| "constraint_number (Truth b) = num_of_int (if b then 1 else 0)"
| "constraint_number (Compound x) = x"

definition normalizeGrantConstraints :: "(string \<times> constraint_value) list option \<Rightarrow> constraints option" where
  "normalizeGrantConstraints raw =
     (case raw of None \<Rightarrow> None
      | Some entries \<Rightarrow>
          capped (Some (filter (\<lambda>(_, x). is_finite x) (map (\<lambda>(k, v). (k, constraint_number v)) entries))))"

record custom_role_authority =
  cu_effectiveBuiltin :: builtin_role
  cu_grants :: "permission_grant list"

record company_role_authority =
  au_effectiveRole :: company_role
  au_effectiveBuiltin :: builtin_role
  au_grants :: "permission_grant list"

definition resolveCompanyRoleAuthority ::
  "company_role \<Rightarrow> custom_role_authority option \<Rightarrow> company_role_authority" where
  "resolveCompanyRoleAuthority normalizedRole customRole =
     (case customRole of
        Some c \<Rightarrow> \<lparr>au_effectiveRole = builtinToCompanyRole (cu_effectiveBuiltin c),
          au_effectiveBuiltin = cu_effectiveBuiltin c, au_grants = cu_grants c\<rparr>
      | None \<Rightarrow> \<lparr>au_effectiveRole = normalizedRole, au_effectiveBuiltin = companyRoleToBuiltin normalizedRole,
          au_grants = []\<rparr>)"

text \<open>\<open>amountCents\<close> and \<open>otHours\<close> of the options are given or \<open>undefined\<close>.\<close>

definition permissionDecision ::
  "builtin_role \<Rightarrow> permission_grant list \<Rightarrow> permission_action \<Rightarrow> double option \<Rightarrow> double option \<Rightarrow> verdict" where
  "permissionDecision effectiveBuiltin grants action amountCents otHours =
     (let perms = resolveEffectivePermissions effectiveBuiltin grants
      in if \<not> hasPermission perms action then Denied
         else case CONSTRAINABLE_ACTIONS action of None \<Rightarrow> Allowed None
           | Some capKey \<Rightarrow>
               (case (if capKey = ''max_amount_cents'' then amountCents else otHours) of None \<Rightarrow> Allowed None
                | Some value \<Rightarrow>
                    (case checkConstraint perms action capKey value of Over_cap cap \<Rightarrow> Over_cap cap | _ \<Rightarrow> Allowed None)))"

text \<open>\<open>requireRole\<close> and \<open>requirePermission\<close>: \<open>None\<close> lets the handler go on, the rest is the 403 that was sent.\<close>

datatype refusal = Role_not_permitted company_role | Permission_not_granted permission_action builtin_role
  | Over_permission_cap permission_action double | Capability_not_granted string string

definition requireRole :: "company_role \<Rightarrow> company_role list \<Rightarrow> refusal option" where
  "requireRole role allowed = (if role \<in> set allowed then None else Some (Role_not_permitted role))"

definition requirePermission ::
  "company_role_authority \<Rightarrow> permission_action \<Rightarrow> double option \<Rightarrow> double option \<Rightarrow> refusal option" where
  "requirePermission auth action amountCents otHours =
     (case permissionDecision (au_effectiveBuiltin auth) (au_grants auth) action amountCents otHours of
        Denied \<Rightarrow> Some (Permission_not_granted action (au_effectiveBuiltin auth))
      | Over_cap cap \<Rightarrow> Some (Over_permission_cap action cap)
      | Allowed _ \<Rightarrow> None)"

section \<open>What a decision means\<close>

definition names_action :: "permission_action \<Rightarrow> permission_grant \<Rightarrow> bool" where
  "names_action a g \<longleftrightarrow> permission_action_of (pg_action g) = Some a"

definition within_cap :: "string \<Rightarrow> double \<Rightarrow> constraints option \<Rightarrow> bool" where
  "within_cap k v c \<longleftrightarrow> (case c of None \<Rightarrow> True
     | Some entries \<Rightarrow> (case map_of entries k of None \<Rightarrow> True | Some cap \<Rightarrow> num_le v cap))"

text \<open>The keys of an object are distinct, and the caps the server loads are finite.\<close>

definition caps_ok :: "constraints option \<Rightarrow> bool" where
  "caps_ok c \<longleftrightarrow> (case c of None \<Rightarrow> True
     | Some entries \<Rightarrow> distinct (map fst entries) \<and> list_all (\<lambda>(_, x). is_finite x) entries)"

definition holds_action :: "builtin_role \<Rightarrow> permission_grant list \<Rightarrow> permission_action \<Rightarrow> bool" where
  "holds_action base grants a \<longleftrightarrow> a \<in> set (BUILTIN_ROLE_PERMISSIONS base) \<or> list_ex (names_action a) grants"

definition magnitude_of :: "permission_action \<Rightarrow> double option \<Rightarrow> double option \<Rightarrow> (string \<times> double) option" where
  "magnitude_of a amountCents otHours =
     (case a of Auth_materials \<Rightarrow> map_option (Pair ''max_amount_cents'') amountCents
      | Approve_time \<Rightarrow> map_option (Pair ''max_ot_hours_per_week'') otHours
      | _ \<Rightarrow> None)"

definition permitted ::
  "builtin_role \<Rightarrow> permission_grant list \<Rightarrow> permission_action \<Rightarrow> double option \<Rightarrow> double option \<Rightarrow> bool" where
  "permitted base grants a amountCents otHours \<longleftrightarrow> holds_action base grants a
     \<and> (case magnitude_of a amountCents otHours of None \<Rightarrow> True
        | Some (k, v) \<Rightarrow> list_all (\<lambda>g. names_action a g \<longrightarrow> within_cap k v (pg_constraints g)) grants)"

lemma normalizeGrantConstraints_ok:
  "(\<And>entries. raw = Some entries \<Longrightarrow> distinct (map fst entries)) \<Longrightarrow> caps_ok (normalizeGrantConstraints raw)"
  by (auto simp: normalizeGrantConstraints_def capped_def caps_ok_def list_all_iff distinct_map inj_on_def
      comp_def case_prod_beta split: option.splits)

lemma num_le_min:
  "is_finite a \<Longrightarrow> is_finite b \<Longrightarrow> num_le v (math_min [a, b]) \<longleftrightarrow> num_le v a \<and> num_le v b"
  by (cases a; cases b; cases v) (auto simp: math_min_def num_min_def num_before_def num_le_def)

lemma is_finite_min [simp]: "is_finite a \<Longrightarrow> is_finite b \<Longrightarrow> is_finite (math_min [a, b])"
  by (cases a; cases b) (auto simp: math_min_def num_min_def num_before_def)

lemma map_of_replace:
  "map_of (map (\<lambda>(j, w). if j = k then (j, f w) else (j, w)) xs) i =
     (if i = k then map_option f (map_of xs i) else map_of xs i)"
  by (induction xs) auto

lemma caps_ok_map_of: "caps_ok (Some xs) \<Longrightarrow> map_of xs k = Some v \<Longrightarrow> is_finite v"
  by (auto simp: caps_ok_def list_all_iff dest!: map_of_SomeD)

lemma merge_entry_keys: "map fst (merge_entry (k, v) xs) = (if k \<in> fst ` set xs then map fst xs else map fst xs @ [k])"
  by (auto simp: merge_entry_def map_of_eq_None_iff case_prod_beta comp_def split: option.splits dest: map_of_SomeD
      intro: rev_image_eqI)

lemma merge_entry_ok:
  assumes "caps_ok (Some xs)" "is_finite v"
  shows "caps_ok (Some (merge_entry (k, v) xs))"
    and "within_cap j u (Some (merge_entry (k, v) xs)) \<longleftrightarrow> within_cap j u (Some xs) \<and> (j = k \<longrightarrow> num_le u v)"
proof -
  have "list_all (\<lambda>(_, x). is_finite x) (merge_entry (k, v) xs)"
    using assms caps_ok_map_of [OF assms(1)]
    by (auto simp: merge_entry_def caps_ok_def list_all_iff split: option.splits if_splits)
  then show "caps_ok (Some (merge_entry (k, v) xs))"
    using assms(1) by (auto simp: caps_ok_def merge_entry_keys)
  show "within_cap j u (Some (merge_entry (k, v) xs)) \<longleftrightarrow> within_cap j u (Some xs) \<and> (j = k \<longrightarrow> num_le u v)"
    using caps_ok_map_of [OF assms(1)] assms(2)
    by (auto simp: within_cap_def merge_entry_def map_of_replace map_add_def num_le_min split: option.splits)
qed

lemma merge_entries_ok:
  assumes "caps_ok (Some xs)" "list_all (\<lambda>(_, x). is_finite x) ys"
  shows "caps_ok (Some (fold merge_entry ys xs))"
    and "within_cap j u (Some (fold merge_entry ys xs)) \<longleftrightarrow>
      within_cap j u (Some xs) \<and> (\<forall>(k, v)\<in>set ys. j = k \<longrightarrow> num_le u v)"
  using assms
proof (induction ys arbitrary: xs)
  case (Cons y ys)
  obtain k v where y: "y = (k, v)" by (cases y)
  { case 1 then show ?case using Cons.IH(1) merge_entry_ok(1) y by simp }
  { case 2 then show ?case using Cons.IH(2) merge_entry_ok [of xs v] y by auto }
qed simp_all

lemma within_cap_entries:
  assumes "caps_ok (Some ys)"
  shows "within_cap j u (Some ys) \<longleftrightarrow> (\<forall>(k, v)\<in>set ys. j = k \<longrightarrow> num_le u v)"
  using assms by (fastforce simp: within_cap_def caps_ok_def map_of_eq_None_iff split: option.splits dest: map_of_SomeD)

lemma merge_tighter_ok:
  assumes "caps_ok a" "caps_ok b"
  shows "caps_ok (mergeConstraintsTighter a b)"
    and "within_cap j u (mergeConstraintsTighter a b) \<longleftrightarrow> within_cap j u a \<and> within_cap j u b"
proof -
  have none: "capped c = None \<Longrightarrow> within_cap j u c" for c by (auto simp: capped_def within_cap_def split: if_splits)
  have some: "capped c = Some x \<Longrightarrow> c = Some x" for c x by (auto simp: capped_def split: if_splits)
  have "caps_ok (mergeConstraintsTighter a b) \<and>
    (within_cap j u (mergeConstraintsTighter a b) \<longleftrightarrow> within_cap j u a \<and> within_cap j u b)"
  proof (cases "capped a")
    case None
    then show ?thesis using none assms
      by (auto simp: mergeConstraintsTighter_def capped_def within_cap_def caps_ok_def split: if_splits option.splits)
  next
    case a: (Some x)
    show ?thesis
    proof (cases "capped b")
      case None
      then show ?thesis using a some [OF a] none [OF None] assms by (simp add: mergeConstraintsTighter_def)
    next
      case b: (Some y)
      then show ?thesis using a some [OF a] some [OF b] assms merge_entries_ok [of x y] within_cap_entries [of y j u]
        by (simp add: mergeConstraintsTighter_def caps_ok_def)
    qed
  qed
  then show "caps_ok (mergeConstraintsTighter a b)"
    and "within_cap j u (mergeConstraintsTighter a b) \<longleftrightarrow> within_cap j u a \<and> within_cap j u b" by simp_all
qed

lemma capped_ok [simp]: "caps_ok c \<Longrightarrow> caps_ok (capped c)" "within_cap j u (capped c) \<longleftrightarrow> within_cap j u c"
  by (simp_all add: capped_def caps_ok_def within_cap_def)

lemma apply_grant_ok:
  assumes "\<And>c. out a = Some c \<Longrightarrow> caps_ok c" "caps_ok (pg_constraints g)"
  shows "\<And>c. apply_grant g out a = Some c \<Longrightarrow> caps_ok c"
    and "apply_grant g out a = None \<longleftrightarrow> out a = None \<and> \<not> names_action a g"
    and "pred_option (within_cap k v) (apply_grant g out a) \<longleftrightarrow>
      pred_option (within_cap k v) (out a) \<and> (names_action a g \<longrightarrow> within_cap k v (pg_constraints g))"
  using assms
  by (auto simp: apply_grant_def names_action_def merge_tighter_ok split: option.splits if_splits)

lemma apply_grants_ok:
  assumes "\<And>c. out a = Some c \<Longrightarrow> caps_ok c" "list_all (\<lambda>g. caps_ok (pg_constraints g)) gs"
  shows "fold apply_grant gs out a = None \<longleftrightarrow> out a = None \<and> \<not> list_ex (names_action a) gs"
    and "pred_option (within_cap k v) (fold apply_grant gs out a) \<longleftrightarrow> pred_option (within_cap k v) (out a)
      \<and> list_all (\<lambda>g. names_action a g \<longrightarrow> within_cap k v (pg_constraints g)) gs"
  using assms
proof (induction gs arbitrary: out)
  case (Cons g gs)
  { case 1
    then have "caps_ok (pg_constraints g)" by simp
    note step = apply_grant_ok [where out = out, OF 1(1) this]
    show ?case using Cons.IH(1) [OF step(1)] step(2) 1(2) by auto }
  { case 2
    then have "caps_ok (pg_constraints g)" by simp
    note step = apply_grant_ok [where out = out, OF 2(1) this]
    show ?case using Cons.IH(2) [OF step(1)] step(3) 2(2) by auto }
qed simp_all

lemma permission_decision:
  assumes "list_all (\<lambda>g. caps_ok (pg_constraints g)) grants"
  shows "permissionDecision base grants a amountCents otHours = Allowed None \<longleftrightarrow>
      permitted base grants a amountCents otHours"
    and "permissionDecision base grants a amountCents otHours = Denied \<longleftrightarrow> \<not> holds_action base grants a"
proof -
  let ?base = "\<lambda>a. if a \<in> set (BUILTIN_ROLE_PERMISSIONS base) then Some None else None"
  let ?perms = "resolveEffectivePermissions base grants"
  have base: "?base a = Some c \<Longrightarrow> caps_ok c" for c by (auto simp: caps_ok_def split: if_splits)
  have held: "?perms a = None \<longleftrightarrow> \<not> holds_action base grants a"
    using apply_grants_ok(1) [where out = ?base and a = a, OF base assms]
    by (auto simp: resolveEffectivePermissions_def holds_action_def)
  have caps: "pred_option (within_cap k v) (?perms a) \<longleftrightarrow>
      list_all (\<lambda>g. names_action a g \<longrightarrow> within_cap k v (pg_constraints g)) grants" for k v
    using apply_grants_ok(2) [where out = ?base and a = a, OF base assms, of k v]
    by (auto simp: resolveEffectivePermissions_def within_cap_def)
  have check: "(case checkConstraint ?perms a k v of Over_cap cap \<Rightarrow> Over_cap cap | _ \<Rightarrow> Allowed None) = Allowed None
      \<longleftrightarrow> pred_option (within_cap k v) (?perms a)" for k v
    by (auto simp: checkConstraint_def within_cap_def split: option.splits)
  have not_denied: "(case checkConstraint ?perms a k v of Over_cap cap \<Rightarrow> Over_cap cap | _ \<Rightarrow> Allowed None) \<noteq> Denied" for k v
    by (auto split: verdict.splits)
  show "permissionDecision base grants a amountCents otHours = Allowed None \<longleftrightarrow>
      permitted base grants a amountCents otHours"
    and "permissionDecision base grants a amountCents otHours = Denied \<longleftrightarrow> \<not> holds_action base grants a"
    subgoal
      using held caps check
      by (cases a; cases amountCents; cases otHours)
        (simp_all add: permissionDecision_def Let_def hasPermission_def permitted_def magnitude_of_def)
    subgoal
      using held not_denied by (auto simp: permissionDecision_def Let_def hasPermission_def split: option.splits)
    done
qed

text \<open>
  C14: The decision behind \<open>requirePermission\<close>, for grants as the server loads them: an action is denied
  exactly when neither the base role nor a grant has it, and allowed exactly when it is held and the magnitude
  of the request, if there is one, is within the cap of every grant of the action that has one.  So the order of
  the grants does not matter, a grant never takes an action away and a cap can only narrow it.
\<close>

theorem permission_decision_iff:
  assumes "list_all (\<lambda>g. caps_ok (pg_constraints g)) grants"
  shows "(permissionDecision base grants a amountCents otHours = Allowed None \<longleftrightarrow>
      permitted base grants a amountCents otHours) \<and>
    (permissionDecision base grants a amountCents otHours = Denied \<longleftrightarrow> \<not> holds_action base grants a) \<and>
    (\<forall>other. mset other = mset grants \<longrightarrow>
      (permissionDecision base other a amountCents otHours = Allowed None \<longleftrightarrow>
       permissionDecision base grants a amountCents otHours = Allowed None))"
proof -
  have "permitted base other a amountCents otHours = permitted base grants a amountCents otHours"
    "list_all (\<lambda>g. caps_ok (pg_constraints g)) other" if "mset other = mset grants" for other
    using mset_eq_setD [OF that] assms by (auto simp: permitted_def holds_action_def list_ex_iff list_all_iff split: option.splits)
  then show ?thesis using permission_decision assms by blast
qed

lemma permission_decision_iff_witness:
  "(permissionDecision Foreman_base [\<lparr>pg_action = ''auth_materials'', pg_constraints = Some [(''max_amount_cents'', Finite False 500)]\<rparr>,
      \<lparr>pg_action = ''auth_materials'', pg_constraints = Some [(''max_amount_cents'', Finite False 300)]\<rparr>]
      Auth_materials (Some (Finite False 400)) None = Allowed None) = False"
  using permission_decision_iff [of "[\<lparr>pg_action = ''auth_materials'', pg_constraints = Some [(''max_amount_cents'', Finite False 500)]\<rparr>,
      \<lparr>pg_action = ''auth_materials'', pg_constraints = Some [(''max_amount_cents'', Finite False 300)]\<rparr>]"
      Foreman_base Auth_materials "Some (Finite False 400)" None]
  by (simp add: caps_ok_def permitted_def magnitude_of_def within_cap_def names_action_def permission_action_of_def
      PERMISSION_ACTIONS_def num_le_def signed_def)

end
