(* ===== verification/Capabilities.thy ===== *)
theory Capabilities
  imports Access
begin

text \<open>
  The two capability domains: the catalog and the resolution of \<open>packages/domain/src/capabilities.ts\<close>, and the
  verdict of \<open>apps/api/src/capability.ts\<close> with the superadmin check of \<open>admin-auth.ts\<close>.  The lemmas show that the
  domains do not bleed: nothing a company can grant reaches the platform, and the reverse.
\<close>

section \<open>The catalog\<close>

datatype app_issue_capability = Capture_issue | View_issues | Triage_issues
datatype field_request_capability = Create_request | View_requests | Triage_requests | Resolve_requests
datatype capability = App_issue app_issue_capability | Field_request field_request_capability

fun app_issue_text :: "app_issue_capability \<Rightarrow> string" where
  "app_issue_text Capture_issue = ''app_issue.capture''" | "app_issue_text View_issues = ''app_issue.view''"
| "app_issue_text Triage_issues = ''app_issue.triage''"

fun field_request_text :: "field_request_capability \<Rightarrow> string" where
  "field_request_text Create_request = ''field_request.create''" | "field_request_text View_requests = ''field_request.view''"
| "field_request_text Triage_requests = ''field_request.triage''"
| "field_request_text Resolve_requests = ''field_request.resolve''"

fun capability_text :: "capability \<Rightarrow> string" where
  "capability_text (App_issue c) = app_issue_text c"
| "capability_text (Field_request c) = field_request_text c"

definition APP_ISSUE_CAPABILITIES :: "app_issue_capability list" where
  "APP_ISSUE_CAPABILITIES = [Capture_issue, View_issues, Triage_issues]"

definition FIELD_REQUEST_CAPABILITIES :: "field_request_capability list" where
  "FIELD_REQUEST_CAPABILITIES = [Create_request, View_requests, Triage_requests, Resolve_requests]"

text \<open>The capability a text names; \<open>isAppIssueCapability\<close> and \<open>isFieldRequestCapability\<close> ask whether there is one.\<close>

definition app_issue_of :: "string \<Rightarrow> app_issue_capability option" where
  "app_issue_of s = find (\<lambda>c. app_issue_text c = s) APP_ISSUE_CAPABILITIES"

definition field_request_of :: "string \<Rightarrow> field_request_capability option" where
  "field_request_of s = find (\<lambda>c. field_request_text c = s) FIELD_REQUEST_CAPABILITIES"

datatype capability_domain = App_issue_domain | Field_request_domain

definition capabilityDomain :: "capability \<Rightarrow> capability_domain" where
  "capabilityDomain c =
     (if take 10 (capability_text c) = ''app_issue.'' then App_issue_domain else Field_request_domain)"

section \<open>The two boundaries\<close>

text \<open>A \<open>Set\<close> is the list of its elements in insertion order.\<close>

definition set_add :: "'a \<Rightarrow> 'a list \<Rightarrow> 'a list" where
  "set_add x xs = (if x \<in> set xs then xs else xs @ [x])"

fun DEFAULT_COMPANY_CAPABILITIES :: "company_role \<Rightarrow> field_request_capability list" where
  "DEFAULT_COMPANY_CAPABILITIES Member = [Create_request, View_requests]"
| "DEFAULT_COMPANY_CAPABILITIES _ = [Create_request, View_requests, Triage_requests, Resolve_requests]"

definition mergeCompanyCapabilities :: "company_role \<Rightarrow> string list \<Rightarrow> field_request_capability list" where
  "mergeCompanyCapabilities role grantedActions =
     fold (\<lambda>action caps. case field_request_of action of None \<Rightarrow> caps | Some c \<Rightarrow> set_add c caps)
       grantedActions (DEFAULT_COMPANY_CAPABILITIES role)"

definition resolvePlatformCapabilities :: "bool \<Rightarrow> string list \<Rightarrow> app_issue_capability list" where
  "resolvePlatformCapabilities isSuperadmin platformGrants =
     (if isSuperadmin then APP_ISSUE_CAPABILITIES
      else fold (\<lambda>grant caps. case app_issue_of grant of None \<Rightarrow> caps | Some c \<Rightarrow> set_add c caps) platformGrants [])"

section \<open>The verdict\<close>

datatype identity_source = Clerk | Internal | Header | Default_identity

record request_identity =
  id_userId :: string
  id_source :: identity_source

record platform_tables =
  pt_platform_admins :: "string list"
  pt_platform_admin_grants :: "(string \<times> string) list"

definition is_superadmin :: "platform_tables \<Rightarrow> string \<Rightarrow> string list \<Rightarrow> bool" where
  "is_superadmin tables sub envIds \<longleftrightarrow>
     sub \<noteq> [] \<and> (sub \<in> set envIds \<or> sub \<in> set (pt_platform_admins tables))"

definition loadPlatformGrants :: "platform_tables \<Rightarrow> string \<Rightarrow> string list" where
  "loadPlatformGrants tables sub =
     (if sub = [] then [] else map snd (filter (\<lambda>(user, _). user = sub) (pt_platform_admin_grants tables)))"

record capability_context =
  cc_role :: company_role
  cc_grantActions :: "string list"
  cc_identity :: request_identity
  cc_superadminEnvIds :: "string list"
  cc_tier :: "string option"

definition isLocalDevPlatformBypass :: "string option \<Rightarrow> bool" where
  "isLocalDevPlatformBypass tier \<longleftrightarrow> (case tier of None \<Rightarrow> ''prod'' | Some t \<Rightarrow> t) \<noteq> ''prod''"

datatype capability_verdict = Capability_allowed | Capability_denied capability_domain string

definition companyCapabilityGranted :: "company_role \<Rightarrow> string list \<Rightarrow> capability \<Rightarrow> bool" where
  "companyCapabilityGranted role grantActions capability \<longleftrightarrow>
     capability \<in> Field_request ` set (mergeCompanyCapabilities role grantActions)"

definition platform_capabilities :: "platform_tables \<Rightarrow> capability_context \<Rightarrow> app_issue_capability list" where
  "platform_capabilities tables ctx =
     (let sub = id_userId (cc_identity ctx); superadmin = is_superadmin tables sub (cc_superadminEnvIds ctx)
      in resolvePlatformCapabilities superadmin (if superadmin then [] else loadPlatformGrants tables sub))"

definition resolveCapability :: "platform_tables \<Rightarrow> capability_context \<Rightarrow> capability \<Rightarrow> capability_verdict" where
  "resolveCapability tables ctx capability =
     (if capabilityDomain capability = Field_request_domain then
        (if companyCapabilityGranted (cc_role ctx) (cc_grantActions ctx) capability then Capability_allowed
         else Capability_denied Field_request_domain ''company role lacks capability'')
      else if id_source (cc_identity ctx) \<noteq> Clerk then
        (if isLocalDevPlatformBypass (cc_tier ctx) then Capability_allowed
         else Capability_denied App_issue_domain ''platform capability requires a verified Clerk session'')
      else if capability \<in> App_issue ` set (platform_capabilities tables ctx) then Capability_allowed
      else Capability_denied App_issue_domain ''not a platform admin / no platform grant'')"

definition resolveAppIssueCapabilities :: "platform_tables \<Rightarrow> capability_context \<Rightarrow> app_issue_capability list" where
  "resolveAppIssueCapabilities tables ctx =
     (if id_source (cc_identity ctx) \<noteq> Clerk then
        (if isLocalDevPlatformBypass (cc_tier ctx) then APP_ISSUE_CAPABILITIES else [])
      else filter (\<lambda>cap. cap \<in> set (platform_capabilities tables ctx)) APP_ISSUE_CAPABILITIES)"

definition requireCapability :: "platform_tables \<Rightarrow> capability_context \<Rightarrow> capability \<Rightarrow> refusal option" where
  "requireCapability tables ctx capability =
     (case resolveCapability tables ctx capability of Capability_allowed \<Rightarrow> None
      | Capability_denied domain _ \<Rightarrow> Some (Capability_not_granted (capability_text capability)
          (case domain of App_issue_domain \<Rightarrow> ''app_issue'' | Field_request_domain \<Rightarrow> ''field_request'')))"

section \<open>No bleeding\<close>

lemma capabilityDomain_simps [simp]:
  "capabilityDomain (App_issue a) = App_issue_domain" "capabilityDomain (Field_request f) = Field_request_domain"
  by (cases a; simp add: capabilityDomain_def) (cases f; simp add: capabilityDomain_def)

lemma field_request_of_text [simp]: "field_request_of (field_request_text c) = Some c"
  by (cases c) (simp_all add: field_request_of_def FIELD_REQUEST_CAPABILITIES_def)

lemma field_request_of_Some: "field_request_of s = Some c \<longleftrightarrow> s = field_request_text c"
proof
  show "field_request_of s = Some c \<Longrightarrow> s = field_request_text c"
    by (auto simp: field_request_of_def find_Some_iff)
qed simp

lemma app_issue_of_Some: "app_issue_of s = Some c \<longleftrightarrow> s = app_issue_text c"
proof
  show "s = app_issue_text c \<Longrightarrow> app_issue_of s = Some c"
    by (cases c) (simp_all add: app_issue_of_def APP_ISSUE_CAPABILITIES_def)
qed (auto simp: app_issue_of_def find_Some_iff)

lemma set_add_set [simp]: "set (set_add x xs) = insert x (set xs)"
  by (auto simp: set_add_def)

lemma fold_set_add:
  "set (fold (\<lambda>s caps. case f s of None \<Rightarrow> caps | Some c \<Rightarrow> set_add c caps) ss xs) = set xs \<union> {c. \<exists>s\<in>set ss. f s = Some c}"
  by (induction ss arbitrary: xs) (auto split: option.splits)

lemma set_mergeCompanyCapabilities:
  "set (mergeCompanyCapabilities role actions) =
     set (DEFAULT_COMPANY_CAPABILITIES role) \<union> {c. field_request_text c \<in> set actions}"
  by (auto simp: mergeCompanyCapabilities_def fold_set_add field_request_of_Some)

lemma set_resolvePlatformCapabilities:
  "set (resolvePlatformCapabilities admin grants) =
     (if admin then UNIV else {c. app_issue_text c \<in> set grants})"
proof -
  have "set APP_ISSUE_CAPABILITIES = UNIV"
    unfolding APP_ISSUE_CAPABILITIES_def by (auto intro: app_issue_capability.exhaust)
  then show ?thesis by (auto simp: resolvePlatformCapabilities_def fold_set_add app_issue_of_Some)
qed

text \<open>
  C15: The verdict on a company capability depends on the role and the company's grants alone, and the
  verdict on a platform capability on the identity and the platform tables alone: on the production tier it is
  allowed exactly for a verified Clerk user who is a superadmin or holds that very grant, whatever the company
  gave the caller.
\<close>

theorem capability_domains_apart:
  "(resolveCapability tables ctx (Field_request f) = Capability_allowed \<longleftrightarrow>
      f \<in> set (DEFAULT_COMPANY_CAPABILITIES (cc_role ctx)) \<or> field_request_text f \<in> set (cc_grantActions ctx)) \<and>
   (resolveCapability tables ctx (App_issue a) = Capability_allowed \<longleftrightarrow>
      (let user = id_userId (cc_identity ctx) in
       if id_source (cc_identity ctx) = Clerk
       then user \<noteq> [] \<and> (user \<in> set (cc_superadminEnvIds ctx) \<or> user \<in> set (pt_platform_admins tables) \<or>
         (user, app_issue_text a) \<in> set (pt_platform_admin_grants tables))
       else cc_tier ctx \<noteq> None \<and> cc_tier ctx \<noteq> Some ''prod'')) \<and>
   (a \<in> set (resolveAppIssueCapabilities tables ctx) \<longleftrightarrow> resolveCapability tables ctx (App_issue a) = Capability_allowed)"
proof -
  have field: "resolveCapability tables ctx (Field_request f) = Capability_allowed \<longleftrightarrow>
      f \<in> set (DEFAULT_COMPANY_CAPABILITIES (cc_role ctx)) \<or> field_request_text f \<in> set (cc_grantActions ctx)"
    by (auto simp: resolveCapability_def companyCapabilityGranted_def set_mergeCompanyCapabilities)
  have caps: "c \<in> set (platform_capabilities tables ctx) \<longleftrightarrow> id_userId (cc_identity ctx) \<noteq> [] \<and>
      (id_userId (cc_identity ctx) \<in> set (cc_superadminEnvIds ctx) \<or>
       id_userId (cc_identity ctx) \<in> set (pt_platform_admins tables) \<or>
       (id_userId (cc_identity ctx), app_issue_text c) \<in> set (pt_platform_admin_grants tables))" for c
    by (force simp: platform_capabilities_def Let_def set_resolvePlatformCapabilities is_superadmin_def loadPlatformGrants_def)
  have app: "resolveCapability tables ctx (App_issue c) = Capability_allowed \<longleftrightarrow>
      (if id_source (cc_identity ctx) = Clerk then c \<in> set (platform_capabilities tables ctx)
       else cc_tier ctx \<noteq> None \<and> cc_tier ctx \<noteq> Some ''prod'')" for c
    by (auto simp: resolveCapability_def isLocalDevPlatformBypass_def split: option.splits)
  have all: "c \<in> set APP_ISSUE_CAPABILITIES" for c by (cases c) (simp_all add: APP_ISSUE_CAPABILITIES_def)
  have "a \<in> set (resolveAppIssueCapabilities tables ctx) \<longleftrightarrow>
      (if id_source (cc_identity ctx) = Clerk then a \<in> set (platform_capabilities tables ctx)
       else cc_tier ctx \<noteq> None \<and> cc_tier ctx \<noteq> Some ''prod'')"
    using all by (auto simp: resolveAppIssueCapabilities_def isLocalDevPlatformBypass_def split: option.splits)
  then show ?thesis using field app caps by (simp add: Let_def)
qed

end
