(* ===== verification/Authentication.thy ===== *)
theory Authentication
  imports Js_Number Http_Request Capabilities
begin

text \<open>
  Who a request comes from: \<open>apps/api/src/auth.ts\<close>, from the environment over the configuration to the identity, and
  the user a route sees (\<open>getCurrentUserId\<close> of \<open>server.ts\<close>).  \<open>JSON.parse\<close>, \<open>Buffer\<close> and the RSA signature of
  \<open>node:crypto\<close> are arguments.  The lemmas show that production admits nobody without a verified token or the
  internal secret.
\<close>

section \<open>Configuration\<close>

record auth_config =
  au_clerkJwtKey :: "string option"
  au_clerkIssuer :: "string option"
  au_clerkAuthorizedParties :: "string list option"
  au_internalAuthToken :: "string option"
  au_defaultUserId :: string
  au_allowHeaderFallback :: bool
  au_allowFirstUserAdmin :: bool

type_synonym environment = "string \<Rightarrow> string option"

text \<open>\<open>s.replace(/\\n/g, newline)\<close> with the two characters backslash and n\<close>

fun unescape_newlines :: "string \<Rightarrow> string" where
  "unescape_newlines (a # b # cs) =
     (if a = CHR 0x5C \<and> b = CHR ''n'' then CHR 0x0A # unescape_newlines cs else a # unescape_newlines (b # cs))"
| "unescape_newlines cs = cs"

definition env_text :: "environment \<Rightarrow> string \<Rightarrow> string option" where
  "env_text env name = truthy_text (map_option trim (env name))"

definition env_flag :: "environment \<Rightarrow> string \<Rightarrow> bool" where
  "env_flag env name \<longleftrightarrow> env name = Some ''1'' \<or> env name = Some ''true''"

definition comma_list :: "string \<Rightarrow> string list" where
  "comma_list s = filter (\<lambda>p. 0 < length p) (map trim (split_text (CHR '','') s))"

definition clerk_key :: "environment \<Rightarrow> string option" where
  "clerk_key env = truthy_text (map_option (unescape_newlines \<circ> trim) (env ''CLERK_JWT_KEY''))"

definition auth_configured :: "environment \<Rightarrow> bool" where
  "auth_configured env \<longleftrightarrow> clerk_key env \<noteq> None \<or> env_text env ''INTERNAL_AUTH_TOKEN'' \<noteq> None"

definition header_fallback :: "environment \<Rightarrow> bool" where
  "header_fallback env \<longleftrightarrow>
     (if truthy_text (env ''AUTH_ALLOW_HEADER_FALLBACK'') \<noteq> None then env_flag env ''AUTH_ALLOW_HEADER_FALLBACK''
      else \<not> auth_configured env)"

definition first_user_admin :: "environment \<Rightarrow> string \<Rightarrow> bool" where
  "first_user_admin env tier \<longleftrightarrow>
     (if truthy_text (env ''AUTH_ALLOW_FIRST_USER_ADMIN'') \<noteq> None then env_flag env ''AUTH_ALLOW_FIRST_USER_ADMIN''
      else tier \<noteq> ''prod'')"

definition authorized_parties :: "environment \<Rightarrow> string list" where
  "authorized_parties env = (case env ''CLERK_AUTHORIZED_PARTIES'' of None \<Rightarrow> [] | Some s \<Rightarrow> comma_list s)"

definition auth_warnings :: "environment \<Rightarrow> string list" where
  "auth_warnings env =
     (if clerk_key env \<noteq> None \<and> env_text env ''CLERK_ISSUER'' = None then [''CLERK_ISSUER is unset''] else [])
     @ (if clerk_key env \<noteq> None \<and> authorized_parties env = [] then [''CLERK_AUTHORIZED_PARTIES is unset''] else [])"

text \<open>A throw is the message of the \<open>AuthConfigError\<close>; the warnings, by their first words, come with the result.\<close>

definition loadAuthConfig :: "environment \<Rightarrow> string + auth_config \<times> string list" where
  "loadAuthConfig env =
     (let tier = (case env ''APP_TIER'' of Some t \<Rightarrow> t | None \<Rightarrow> ''local'')
      in if tier = ''prod'' \<and> \<not> auth_configured env
         then Inl ''APP_TIER=prod requires CLERK_JWT_KEY or INTERNAL_AUTH_TOKEN''
         else if tier = ''prod'' \<and> header_fallback env \<and> \<not> env_flag env ''AUTH_ALLOW_HEADER_FALLBACK_BREAK_GLASS''
         then Inl ''APP_TIER=prod refuses AUTH_ALLOW_HEADER_FALLBACK without AUTH_ALLOW_HEADER_FALLBACK_BREAK_GLASS=1''
         else if tier = ''prod'' \<and> clerk_key env \<noteq> None \<and> env_text env ''CLERK_ISSUER'' = None
         then Inl (''APP_TIER=prod requires CLERK_ISSUER when CLERK_JWT_KEY is set (issuer verification must not be skippable in prod). ''
           @ ''Set CLERK_ISSUER to the Clerk Frontend API origin, e.g. https://clerk.sandolab.xyz.'')
         else Inr (\<lparr>au_clerkJwtKey = clerk_key env, au_clerkIssuer = env_text env ''CLERK_ISSUER'',
           au_clerkAuthorizedParties = (if authorized_parties env \<noteq> [] then Some (authorized_parties env) else None),
           au_internalAuthToken = env_text env ''INTERNAL_AUTH_TOKEN'',
           au_defaultUserId = (case env_text env ''ACTIVE_USER_ID'' of Some u \<Rightarrow> u | None \<Rightarrow> ''demo-user''),
           au_allowHeaderFallback = header_fallback env, au_allowFirstUserAdmin = first_user_admin env tier\<rparr>,
           auth_warnings env))"

section \<open>Tokens\<close>

text \<open>What \<open>JSON.parse\<close> returns.\<close>

datatype json =
    Json_null | Json_bool bool | Json_number double | Json_text string | Json_list "json list"
  | Json_object "(string \<times> json) list"

text \<open>\<open>String(value)\<close> of such a value.\<close>

fun json_string :: "json \<Rightarrow> string" where
  "json_string Json_null = ''null''"
| "json_string (Json_bool b) = (if b then ''true'' else ''false'')"
| "json_string (Json_number x) = show_number x"
| "json_string (Json_text s) = s"
| "json_string (Json_list xs) = join '','' (map (\<lambda>x. if x = Json_null then [] else json_string x) xs)"
| "json_string (Json_object _) = ''[object Object]''"

text \<open>
  The library: \<open>JSON.parse(Buffer.from(padded, base64).toString(utf8))\<close> or \<open>None\<close> for a throw, \<open>Buffer.from\<close> alone,
  \<open>createPublicKey\<close> or \<open>None\<close> for a throw, and the check of an RSA-SHA256 signature over a text.
\<close>

record 'k crypto_lib =
  cl_parse :: "string \<Rightarrow> json option"
  cl_buffer :: "string \<Rightarrow> string"
  cl_public_key :: "string \<Rightarrow> 'k option"
  cl_verify :: "'k \<Rightarrow> string \<Rightarrow> string \<Rightarrow> bool"

datatype auth_error = AuthError int string

definition base64_padded :: "string \<Rightarrow> string" where
  "base64_padded seg =
     (let t = map (\<lambda>c. if c = CHR ''-'' then CHR ''+'' else if c = CHR ''_'' then CHR ''/'' else c) seg
      in t @ replicate (4 * ((length seg + 3) div 4) - length t) (CHR ''=''))"

definition decodeJwtSegment :: "'k crypto_lib \<Rightarrow> string \<Rightarrow> auth_error + (string \<times> json) list" where
  "decodeJwtSegment lib seg = (case cl_parse lib (base64_padded seg) of
     Some (Json_object kvs) \<Rightarrow> Inr kvs
   | _ \<Rightarrow> Inl (AuthError 401 ''malformed token''))"

datatype identity_mode = Self | Act_as | Impersonate

record identity = request_identity +
  id_actorUserId :: "string option"
  id_mode :: "identity_mode option"

definition text_claim :: "(string \<times> json) list \<Rightarrow> string \<Rightarrow> string option" where
  "text_claim payload name = (case map_of payload name of Some (Json_text s) \<Rightarrow> Some s | _ \<Rightarrow> None)"

definition number_claim :: "(string \<times> json) list \<Rightarrow> string \<Rightarrow> double option" where
  "number_claim payload name = (case map_of payload name of Some (Json_number x) \<Rightarrow> Some x | _ \<Rightarrow> None)"

definition token_alg :: "(string \<times> json) list \<Rightarrow> string" where
  "token_alg header = (case map_of header ''alg'' of None \<Rightarrow> [] | Some Json_null \<Rightarrow> [] | Some v \<Rightarrow> json_string v)"

text \<open>The audiences of a token that are texts with more than blanks.\<close>

definition audiences :: "json \<Rightarrow> string list" where
  "audiences aud = filter (\<lambda>a. 0 < length (trim a)) (List.map_filter (\<lambda>a. case a of Json_text s \<Rightarrow> Some s | _ \<Rightarrow> None)
     (case aud of Json_list xs \<Rightarrow> xs | _ \<Rightarrow> [aud]))"

definition party_error :: "string list option \<Rightarrow> (string \<times> json) list \<Rightarrow> string option" where
  "party_error parties payload =
     (case parties of None \<Rightarrow> None
      | Some [] \<Rightarrow> None
      | Some allowed \<Rightarrow>
          (case truthy_text (map_option trim (text_claim payload ''azp'')) of
             Some azp \<Rightarrow> if azp \<in> set allowed then None else Some ''unauthorized party (azp)''
           | None \<Rightarrow> None))"

definition audience_error :: "string list option \<Rightarrow> (string \<times> json) list \<Rightarrow> string option" where
  "audience_error parties payload =
     (case parties of None \<Rightarrow> None
      | Some [] \<Rightarrow> None
      | Some allowed \<Rightarrow>
          (case map_of payload ''aud'' of None \<Rightarrow> None
           | Some Json_null \<Rightarrow> None
           | Some aud \<Rightarrow> if list_ex (\<lambda>a. trim a \<in> set allowed) (audiences aud) then None
               else Some ''unauthorized audience (aud)''))"

definition actor_claim :: "(string \<times> json) list \<Rightarrow> string option" where
  "actor_claim payload = (case map_of payload ''act'' of
     Some (Json_object act) \<Rightarrow> truthy_text (text_claim act ''sub'')
   | Some (Json_list xs) \<Rightarrow> None
   | Some (Json_text s) \<Rightarrow> truthy_text (Some (trim s))
   | _ \<Rightarrow> None)"

text \<open>The checks of the claims, in their order; \<open>now\<close> is the clock in milliseconds.\<close>

definition claims_identity :: "int \<Rightarrow> auth_config \<Rightarrow> (string \<times> json) list \<Rightarrow> auth_error + identity" where
  "claims_identity now cfg payload =
     (let seconds = now div 1000 in
      case number_claim payload ''exp'' of
        None \<Rightarrow> Inl (AuthError 401 ''token missing exp'')
      | Some expiry \<Rightarrow>
          if num_less expiry (num_of_int seconds) then Inl (AuthError 401 ''token expired'')
          else if (case number_claim payload ''nbf'' of Some nbf \<Rightarrow> num_less (num_of_int (seconds + 30)) nbf | None \<Rightarrow> False)
          then Inl (AuthError 401 ''token not yet valid'')
          else if au_clerkIssuer cfg \<noteq> None \<and> text_claim payload ''iss'' \<noteq> au_clerkIssuer cfg
          then Inl (AuthError 401 ''unexpected issuer'')
          else (case party_error (au_clerkAuthorizedParties cfg) payload of Some m \<Rightarrow> Inl (AuthError 401 m)
            | None \<Rightarrow> (case audience_error (au_clerkAuthorizedParties cfg) payload of Some m \<Rightarrow> Inl (AuthError 401 m)
              | None \<Rightarrow> (case truthy_text (text_claim payload ''sub'') of
                  None \<Rightarrow> Inl (AuthError 401 ''token missing sub'')
                | Some sub \<Rightarrow> (case actor_claim payload of
                    Some actor \<Rightarrow> Inr \<lparr>id_userId = sub, id_source = Clerk, id_actorUserId = Some actor, id_mode = Some Impersonate\<rparr>
                  | None \<Rightarrow> Inr \<lparr>id_userId = sub, id_source = Clerk, id_actorUserId = None, id_mode = None\<rparr>)))))"

definition verifyClerkJwt :: "'k crypto_lib \<Rightarrow> int \<Rightarrow> string \<Rightarrow> auth_config \<Rightarrow> auth_error + identity" where
  "verifyClerkJwt lib now token cfg =
     (case au_clerkJwtKey cfg of None \<Rightarrow> Inl (AuthError 401 ''clerk verification unavailable'')
      | Some key \<Rightarrow>
          (case split_text (CHR ''.'') token of
             [headerSeg, payloadSeg, signatureSeg] \<Rightarrow>
               (case decodeJwtSegment lib headerSeg of Inl e \<Rightarrow> Inl e
                | Inr header \<Rightarrow>
                    if token_alg header \<noteq> ''RS256'' then Inl (AuthError 401 (''unsupported alg '' @ token_alg header))
                    else (case cl_public_key lib key of None \<Rightarrow> Inl (AuthError 500 ''invalid CLERK_JWT_KEY'')
                      | Some publicKey \<Rightarrow>
                          if \<not> cl_verify lib publicKey (headerSeg @ ''.'' @ payloadSeg) (cl_buffer lib (base64_padded signatureSeg))
                          then Inl (AuthError 401 ''invalid signature'')
                          else (case decodeJwtSegment lib payloadSeg of Inl e \<Rightarrow> Inl e
                            | Inr payload \<Rightarrow> claims_identity now cfg payload)))
           | _ \<Rightarrow> Inl (AuthError 401 ''malformed token'')))"

section \<open>The identity of a request\<close>

text \<open>\<open>/^Bearer\s+(.+)$/i\<close>: the blanks give one back when nothing else is left for the group.\<close>

definition readBearer :: "http_request \<Rightarrow> string option" where
  "readBearer rq =
     (case truthy_text (first_value (rq_headers rq ''authorization'')) of None \<Rightarrow> None
      | Some v \<Rightarrow>
          (let r = drop 6 v; blanks = takeWhile is_space r; rest = dropWhile is_space r;
               group = (if rest = [] then (if length blanks < 2 then [] else [last blanks]) else rest)
           in if to_lower (take 6 v) = ''bearer'' \<and> blanks \<noteq> [] \<and> group \<noteq> []
                \<and> list_all (\<lambda>c. of_char c \<notin> {10, 13 :: nat}) group
              then Some (trim group) else None))"

definition resolveIdentity :: "'k crypto_lib \<Rightarrow> int \<Rightarrow> http_request \<Rightarrow> auth_config \<Rightarrow> auth_error + identity" where
  "resolveIdentity lib now rq cfg =
     (let bearer = truthy_text (readBearer rq); headerUser = readHeader rq ''x-sitelayer-user-id'' in
      if bearer \<noteq> None \<and> truthy_text (au_internalAuthToken cfg) \<noteq> None \<and> bearer = au_internalAuthToken cfg
      then Inr \<lparr>id_userId = (case headerUser of Some u \<Rightarrow> u | None \<Rightarrow> ''service''), id_source = Internal, id_actorUserId = None,
        id_mode = None\<rparr>
      else case (bearer, truthy_text (au_clerkJwtKey cfg)) of
        (Some token, Some _) \<Rightarrow> verifyClerkJwt lib now token cfg
      | _ \<Rightarrow>
          if truthy_text (au_clerkJwtKey cfg) \<noteq> None \<and> \<not> au_allowHeaderFallback cfg
          then Inl (AuthError 401 (if bearer \<noteq> None then ''token rejected'' else ''authentication required''))
          else if au_allowHeaderFallback cfg
          then (case headerUser of
              Some u \<Rightarrow> Inr \<lparr>id_userId = u, id_source = Header, id_actorUserId = None, id_mode = None\<rparr>
            | None \<Rightarrow> Inr \<lparr>id_userId = au_defaultUserId cfg, id_source = Default_identity, id_actorUserId = None, id_mode = None\<rparr>)
          else Inl (AuthError 401 ''authentication required''))"

definition resolveActAsOverride :: "http_request \<Rightarrow> string \<Rightarrow> string option" where
  "resolveActAsOverride rq tier =
     (case readHeader rq ''x-sitelayer-act-as'' of None \<Rightarrow> None | Some v \<Rightarrow> if tier = ''prod'' then None else Some v)"

text \<open>\<open>getCurrentUserId\<close> once the identity is bound to the request context.\<close>

definition getCurrentUserId :: "http_request \<Rightarrow> string \<Rightarrow> identity \<Rightarrow> string \<Rightarrow> string" where
  "getCurrentUserId rq tier idn activeUserId =
     (case resolveActAsOverride rq tier of Some u \<Rightarrow> u
      | None \<Rightarrow> if id_userId idn \<noteq> [] then id_userId idn
          else (case getHeaderValue rq ''x-sitelayer-user-id'' of Some u \<Rightarrow> u | None \<Rightarrow> activeUserId))"

section \<open>Production fails closed\<close>

text \<open>A token that the configured key signs, of the configured issuer, that has not run out, with its subject.\<close>

definition verified_token :: "'k crypto_lib \<Rightarrow> int \<Rightarrow> auth_config \<Rightarrow> string \<Rightarrow> string \<Rightarrow> bool" where
  "verified_token lib now cfg token user \<longleftrightarrow>
     (\<exists>key publicKey header payload sig claims expiry.
        au_clerkJwtKey cfg = Some key \<and> cl_public_key lib key = Some publicKey \<and>
        token = header @ ''.'' @ payload @ ''.'' @ sig \<and>
        cl_verify lib publicKey (header @ ''.'' @ payload) (cl_buffer lib (base64_padded sig)) \<and>
        cl_parse lib (base64_padded payload) = Some (Json_object claims) \<and>
        map_of claims ''sub'' = Some (Json_text user) \<and> user \<noteq> [] \<and>
        map_of claims ''exp'' = Some (Json_number expiry) \<and> \<not> num_less expiry (num_of_int (now div 1000)) \<and>
        (\<forall>issuer. au_clerkIssuer cfg = Some issuer \<longrightarrow> map_of claims ''iss'' = Some (Json_text issuer)) \<and>
        (\<forall>parties azp. au_clerkAuthorizedParties cfg = Some parties \<longrightarrow> parties \<noteq> [] \<longrightarrow>
          map_of claims ''azp'' = Some (Json_text azp) \<longrightarrow> trim azp = [] \<or> trim azp \<in> set parties))"

lemma split_three: "split_text c t = [x, y, z] \<Longrightarrow> t = x @ c # y @ c # z"
  using join_split_text [of c t] by simp

lemma text_claim_Some [simp]: "text_claim payload name = Some t \<longleftrightarrow> map_of payload name = Some (Json_text t)"
  by (auto simp: text_claim_def split: option.splits json.splits)

lemma number_claim_Some [simp]: "number_claim payload name = Some x \<longleftrightarrow> map_of payload name = Some (Json_number x)"
  by (auto simp: number_claim_def split: option.splits json.splits)

lemma claims_identity_verified:
  assumes "claims_identity now cfg payload = Inr idn"
  shows "id_source idn = Clerk" "id_userId idn \<noteq> []" "map_of payload ''sub'' = Some (Json_text (id_userId idn))"
    "\<exists>expiry. map_of payload ''exp'' = Some (Json_number expiry) \<and> \<not> num_less expiry (num_of_int (now div 1000))"
    "au_clerkIssuer cfg = Some issuer \<Longrightarrow> map_of payload ''iss'' = Some (Json_text issuer)"
    "party_error (au_clerkAuthorizedParties cfg) payload = None"
  using assms by (auto simp: claims_identity_def Let_def split: option.splits if_splits)

lemma party_error_None:
  "party_error (Some parties) payload = None \<Longrightarrow> parties \<noteq> [] \<Longrightarrow> map_of payload ''azp'' = Some (Json_text azp) \<Longrightarrow>
    trim azp = [] \<or> trim azp \<in> set parties"
  by (cases parties) (auto simp: party_error_def text_claim_def truthy_text_def split: if_splits)

lemma verifyClerkJwt_verified:
  assumes "verifyClerkJwt lib now token cfg = Inr idn"
  shows "id_source idn = Clerk \<and> verified_token lib now cfg token (id_userId idn)"
proof -
  obtain key publicKey h p s payload where
    key: "au_clerkJwtKey cfg = Some key" "cl_public_key lib key = Some publicKey"
    and parts: "split_text (CHR ''.'') token = [h, p, s]"
    and sig: "cl_verify lib publicKey (h @ ''.'' @ p) (cl_buffer lib (base64_padded s))"
    and payload: "decodeJwtSegment lib p = Inr payload" "claims_identity now cfg payload = Inr idn"
    using assms unfolding verifyClerkJwt_def
    by (auto split: option.splits sum.splits list.splits if_splits)
  have parse: "cl_parse lib (base64_padded p) = Some (Json_object payload)"
    using payload(1) by (auto simp: decodeJwtSegment_def split: option.splits json.splits)
  note claims = claims_identity_verified [OF payload(2)]
  obtain expiry where expiry: "map_of payload ''exp'' = Some (Json_number expiry)"
      "\<not> num_less expiry (num_of_int (now div 1000))" using claims(4) by blast
  have azp: "\<forall>parties azp. au_clerkAuthorizedParties cfg = Some parties \<longrightarrow> parties \<noteq> [] \<longrightarrow>
      map_of payload ''azp'' = Some (Json_text azp) \<longrightarrow> trim azp = [] \<or> trim azp \<in> set parties"
    using claims(6) party_error_None by metis
  have token: "token = h @ ''.'' @ p @ ''.'' @ s" using split_three [OF parts] by simp
  show ?thesis
    unfolding verified_token_def
    using claims(1-3,5) key sig parse expiry azp token by blast
qed

lemma loadAuthConfig_prod:
  assumes "loadAuthConfig env = Inr (cfg, warnings)" "env ''APP_TIER'' = Some ''prod''"
  shows "au_allowHeaderFallback cfg \<Longrightarrow> env_flag env ''AUTH_ALLOW_HEADER_FALLBACK_BREAK_GLASS''"
    "au_clerkJwtKey cfg \<noteq> None \<Longrightarrow> au_clerkIssuer cfg \<noteq> None"
    "au_internalAuthToken cfg = env_text env ''INTERNAL_AUTH_TOKEN''"
    "au_allowFirstUserAdmin cfg \<Longrightarrow> env_flag env ''AUTH_ALLOW_FIRST_USER_ADMIN''"
    "au_clerkAuthorizedParties cfg \<noteq> Some []"
  using assms by (auto simp: loadAuthConfig_def Let_def first_user_admin_def split: if_splits)

lemma resolveIdentity_sources:
  assumes "resolveIdentity lib now rq cfg = Inr idn" "\<not> au_allowHeaderFallback cfg"
  shows "(id_source idn = Internal \<and> (\<exists>secret. readBearer rq = Some secret \<and> au_internalAuthToken cfg = Some secret) \<and> id_userId idn \<noteq> [])
    \<or> (id_source idn = Clerk \<and> (\<exists>token. readBearer rq = Some token \<and> verified_token lib now cfg token (id_userId idn)))"
proof (cases "truthy_text (readBearer rq) \<noteq> None \<and> truthy_text (au_internalAuthToken cfg) \<noteq> None
    \<and> truthy_text (readBearer rq) = au_internalAuthToken cfg")
  case True
  then show ?thesis
    using assms(1) readHeader_nonempty [of rq "''x-sitelayer-user-id''"]
    by (auto simp: resolveIdentity_def Let_def truthy_text_def split: option.splits if_splits)
next
  case False
  then obtain token where "readBearer rq = Some token" "verifyClerkJwt lib now token cfg = Inr idn"
    using assms by (auto simp: resolveIdentity_def Let_def split: option.splits if_splits)
  then show ?thesis using verifyClerkJwt_verified by blast
qed

lemma verified_token_user: "verified_token lib now cfg token user \<Longrightarrow> user \<noteq> []"
  by (auto simp: verified_token_def)

text \<open>
  C10: On a production configuration that was accepted without break-glass, every identity is either
  the internal caller, who presented the configured secret, or the subject of a bearer token that verifies under the
  configured key, has not expired and is of the configured issuer (and party, if it names one).  No header changes
  the user the routes see, and the first user of a company does not become its administrator unless that was
  switched on.
\<close>

theorem prod_auth_fails_closed:
  assumes "loadAuthConfig env = Inr (cfg, warnings)" "env ''APP_TIER'' = Some ''prod''"
    and "\<not> env_flag env ''AUTH_ALLOW_HEADER_FALLBACK_BREAK_GLASS''" "resolveIdentity lib now rq cfg = Inr idn"
  shows "((id_source idn = Internal \<and> (\<exists>secret. readBearer rq = Some secret \<and> env_text env ''INTERNAL_AUTH_TOKEN'' = Some secret))
      \<or> (id_source idn = Clerk \<and> au_clerkIssuer cfg \<noteq> None \<and>
         (\<exists>token. readBearer rq = Some token \<and> verified_token lib now cfg token (id_userId idn)))) \<and>
    getCurrentUserId rq ''prod'' idn activeUserId = id_userId idn \<and>
    (au_allowFirstUserAdmin cfg \<longrightarrow> env_flag env ''AUTH_ALLOW_FIRST_USER_ADMIN'')"
proof -
  note prod = loadAuthConfig_prod [OF assms(1,2)]
  have closed: "\<not> au_allowHeaderFallback cfg" using prod(1) assms(3) by blast
  note source = resolveIdentity_sources [OF assms(4) closed]
  have user: "id_userId idn \<noteq> []" using source verified_token_user by blast
  have "getCurrentUserId rq ''prod'' idn activeUserId = id_userId idn"
    using user by (simp add: getCurrentUserId_def resolveActAsOverride_def split: option.splits)
  moreover have "verified_token lib now cfg token u \<Longrightarrow> au_clerkIssuer cfg \<noteq> None" for token u
    using prod(2) by (auto simp: verified_token_def)
  ultimately show ?thesis using source prod(3,4) by auto
qed

section \<open>The platform boundary\<close>

text \<open>
  C12: In production a capability of the platform is only ever exercised by a request whose bearer token
  verifies under the configured key, and whose subject is a superadmin or holds that very grant, whatever roles,
  headers and grants of a company come with it.
\<close>

theorem platform_needs_verified_session:
  assumes "loadAuthConfig env = Inr (cfg, warnings)" "env ''APP_TIER'' = Some ''prod''"
    and "\<not> env_flag env ''AUTH_ALLOW_HEADER_FALLBACK_BREAK_GLASS''" "resolveIdentity lib now rq cfg = Inr idn"
    and "cc_identity ctx = request_identity.truncate idn" "cc_tier ctx = Some ''prod''"
    and "requireCapability tables ctx (App_issue a) = None"
  shows "\<exists>token user. readBearer rq = Some token \<and> verified_token lib now cfg token user \<and>
    (user \<in> set (cc_superadminEnvIds ctx) \<or> user \<in> set (pt_platform_admins tables) \<or>
     (user, app_issue_text a) \<in> set (pt_platform_admin_grants tables))"
proof -
  have closed: "\<not> au_allowHeaderFallback cfg" using loadAuthConfig_prod(1) [OF assms(1,2)] assms(3) by blast
  have allowed: "resolveCapability tables ctx (App_issue a) = Capability_allowed"
    using assms(7) by (auto simp: requireCapability_def split: capability_verdict.splits)
  have clerk: "id_source (cc_identity ctx) = Clerk"
    using allowed assms(6) by (auto simp: resolveCapability_def isLocalDevPlatformBypass_def split: if_splits)
  have same: "id_source (cc_identity ctx) = id_source idn" "id_userId (cc_identity ctx) = id_userId idn"
    by (simp_all add: assms(5) request_identity.truncate_def)
  have "a \<in> set (platform_capabilities tables ctx)"
    using allowed clerk by (auto simp: resolveCapability_def split: if_splits)
  then have "id_userId idn \<in> set (cc_superadminEnvIds ctx) \<or> id_userId idn \<in> set (pt_platform_admins tables) \<or>
     (id_userId idn, app_issue_text a) \<in> set (pt_platform_admin_grants tables)"
    by (auto simp: platform_capabilities_def Let_def set_resolvePlatformCapabilities is_superadmin_def loadPlatformGrants_def
        same(2) split: if_splits)
  moreover obtain token where "readBearer rq = Some token" "verified_token lib now cfg token (id_userId idn)"
    using resolveIdentity_sources [OF assms(4) closed] clerk same(1) by auto
  ultimately show ?thesis by blast
qed

section \<open>A concrete library and token\<close>

text \<open>A library that knows two segments and one signature.\<close>

definition sample_lib :: "unit crypto_lib" where
  "sample_lib = \<lparr>cl_parse = (\<lambda>s. if s = ''head'' then Some (Json_object [(''alg'', Json_text ''RS256'')])
       else if s = ''body'' then Some (Json_object [(''sub'', Json_text ''root''), (''iss'', Json_text ''clerk''),
         (''exp'', Json_number (Finite False 100))])
       else None),
     cl_buffer = id, cl_public_key = (\<lambda>_. Some ()), cl_verify = (\<lambda>_ t s. t = ''head.body'' \<and> s = ''sign'')\<rparr>"

definition sample_env :: environment where
  "sample_env = [''APP_TIER'' \<mapsto> ''prod'', ''CLERK_JWT_KEY'' \<mapsto> ''key'', ''CLERK_ISSUER'' \<mapsto> ''clerk'']"

definition bearer_request :: "string \<Rightarrow> http_request" where
  "bearer_request token = \<lparr>rq_method = ''GET'', rq_pathname = ''/api/session'',
     rq_headers = [''authorization'' \<mapsto> One_value (''Bearer '' @ token), ''x-sitelayer-user-id'' \<mapsto> One_value ''mallory''],
     rq_remote_address = None, rq_body = []\<rparr>"

definition sample_config :: auth_config where
  "sample_config = \<lparr>au_clerkJwtKey = Some ''key'', au_clerkIssuer = Some ''clerk'', au_clerkAuthorizedParties = None,
     au_internalAuthToken = None, au_defaultUserId = ''demo-user'', au_allowHeaderFallback = False,
     au_allowFirstUserAdmin = False\<rparr>"

definition sample_identity :: identity where
  "sample_identity = \<lparr>id_userId = ''root'', id_source = Clerk, id_actorUserId = None, id_mode = None\<rparr>"

lemma sample_config: "loadAuthConfig sample_env = Inr (sample_config, [''CLERK_AUTHORIZED_PARTIES is unset''])"
  by code_simp

lemma sample_identity: "resolveIdentity sample_lib 50000 (bearer_request ''head.body.sign'') sample_config = Inr sample_identity"
  by (simp add: resolveIdentity_def readBearer_def first_value_def truthy_text_def bearer_request_def sample_config_def is_space_def
      to_lower_def trim_def verifyClerkJwt_def decodeJwtSegment_def base64_padded_def sample_lib_def token_alg_def claims_identity_def
      num_of_int_exact signed_def number_claim_def text_claim_def party_error_def audience_error_def actor_claim_def sample_identity_def)
    code_simp

lemma sample_tier: "sample_env ''APP_TIER'' = Some ''prod''" "\<not> env_flag sample_env ''AUTH_ALLOW_HEADER_FALLBACK_BREAK_GLASS''"
  by (simp_all add: sample_env_def env_flag_def)

lemma prod_auth_fails_closed_witness:
  "getCurrentUserId (bearer_request ''head.body.sign'') ''prod'' sample_identity ''demo'' = ''root'' \<and>
   (\<exists>token. verified_token sample_lib 50000 sample_config token ''root'')"
  using prod_auth_fails_closed [OF sample_config sample_tier sample_identity, of "''demo''"]
  by (auto simp: sample_identity_def)

lemma platform_needs_verified_session_witness:
  "\<exists>token. readBearer (bearer_request ''head.body.sign'') = Some token"
proof -
  define ctx where "ctx = \<lparr>cc_role = Member, cc_grantActions = [], cc_identity = request_identity.truncate sample_identity,
    cc_superadminEnvIds = [''root''], cc_tier = Some ''prod''\<rparr>"
  have "requireCapability \<lparr>pt_platform_admins = [], pt_platform_admin_grants = []\<rparr> ctx (App_issue View_issues) = None"
    unfolding ctx_def by code_simp
  from platform_needs_verified_session [OF sample_config sample_tier sample_identity _ _ this]
  show ?thesis by (auto simp: ctx_def)
qed

end
