(* ===== verification/Js_Rounding.thy ===== *)
theory Js_Rounding
  imports Js_Number
begin

text \<open>
  How far the rounding of \<open>Js_Number\<close> is off: it never passes a representable number, and the relative error is
  at most half a unit in the last place.  Subtracting one from a double that is at least one is exact.
\<close>

section \<open>Rounding never passes a double\<close>

lemma round_half_even_error: "\<bar>of_int (round_half_even q) - q\<bar> \<le> 1 / 2"
proof -
  define f :: rat where "f = of_int \<lfloor>q\<rfloor>"
  have "f \<le> q" "q < f + 1" unfolding f_def by linarith+
  then show ?thesis unfolding round_half_even_def Let_def abs_le_iff
    by (simp add: f_def [symmetric] split: if_split)
qed

lemma representable_scaled:
  fixes p q :: rat
  assumes "0 < q" "p = of_int m * 2 powi e" "m < 2 ^ 53" "-1074 \<le> e" "e < ulp_exponent q"
  shows "p < 2 powi (ulp_exponent q + 52)" "2 powi (ulp_exponent q + 52) \<le> q"
proof -
  have "of_int m < (of_int (2 ^ 53) :: rat)" using assms(3) by (simp only: of_int_less_iff)
  then have "p < 2 ^ 53 * 2 powi e" unfolding assms(2) by (intro mult_strict_right_mono) simp_all
  also have "\<dots> = 2 powi (e + 53)" by (simp add: power_int_add)
  also have "\<dots> \<le> 2 powi (ulp_exponent q + 52)" using assms(5) by (intro power_int_increasing) simp_all
  finally show "p < 2 powi (ulp_exponent q + 52)" .
  have "ilog2 q = ulp_exponent q + 52" using assms(4,5) by (auto simp: ulp_exponent_def)
  then show "2 powi (ulp_exponent q + 52) \<le> q" using ilog2_bounds(1) [OF assms(1)] by simp
qed

lemma scaled_int:
  fixes p :: rat
  assumes "p = of_int m * 2 powi e" "E \<le> e"
  shows "\<exists>k. p / 2 powi E = of_int k"
proof -
  have "p / 2 powi E = of_int (m * 2 ^ nat (e - E))"
    unfolding assms(1) using assms(2) by (simp add: power_int_nonneg_exp [symmetric] power_int_diff)
  then show ?thesis by blast
qed

lemma round_double_finite: "0 < q \<Longrightarrow> round_double s q = Finite t r \<Longrightarrow>
    t = s \<and> r = of_int (round_half_even (q / 2 powi ulp_exponent q)) * 2 powi ulp_exponent q"
  by (auto simp: round_double_def Let_def split: if_splits)

lemma round_le:
  assumes "q \<le> p" "representable p"
  obtains r where "round_double s q = Finite s r" "0 \<le> r" "r \<le> p"
proof (cases "q \<le> 0")
  case True
  then show ?thesis using that [of 0] representable_nonneg [OF assms(2)] by (simp add: round_double_def)
next
  case False
  then have q: "0 < q" by simp
  let ?E = "ulp_exponent q"
  obtain m e where p: "p = of_int m * 2 powi e" and m: "m < 2 ^ 53" and e: "-1074 \<le> e"
    using assms(2) by (auto simp: representable_def)
  have "\<not> e < ?E" using representable_scaled [OF q p m e] assms(1) by force
  then obtain k where k: "p / 2 powi ?E = of_int k" using scaled_int [OF p] by (metis not_less)
  have pos: "(0 :: rat) < 2 powi ?E" by simp
  have "q / 2 powi ?E \<le> of_int k" using assms(1) by (simp add: k [symmetric] divide_right_mono)
  then have le: "round_half_even (q / 2 powi ?E) \<le> k" by (rule round_half_even_bounds)
  have ge: "0 \<le> round_half_even (q / 2 powi ?E)" using q by (intro round_half_even_bounds) simp
  define r :: rat where "r = of_int (round_half_even (q / 2 powi ?E)) * 2 powi ?E"
  have "r \<le> of_int k * 2 powi ?E" unfolding r_def using le by (intro mult_right_mono) simp_all
  also have "\<dots> = p" by (simp add: k [symmetric])
  finally have "r \<le> p" .
  moreover have "0 \<le> r" unfolding r_def using ge by simp
  moreover have "round_double s q = Finite s r"
    using \<open>r \<le> p\<close> representable_less [OF assms(2)] q unfolding round_double_def Let_def r_def [symmetric] by simp
  ultimately show ?thesis using that by blast
qed

lemma round_ge:
  assumes "p \<le> q" "representable p" "round_double s q = Finite t r"
  shows "p \<le> r"
proof (cases "q \<le> 0")
  case True
  then show ?thesis using assms representable_nonneg [OF assms(2)] by (simp add: round_double_def)
next
  case False
  then have q: "0 < q" by simp
  let ?E = "ulp_exponent q"
  have r: "r = of_int (round_half_even (q / 2 powi ?E)) * 2 powi ?E"
    using round_double_finite [OF q assms(3)] by simp
  have lower: "of_int k * 2 powi ?E \<le> r" if "of_int k * 2 powi ?E \<le> q" for k
  proof -
    have "of_int k \<le> q / 2 powi ?E" using that by (simp add: pos_le_divide_eq)
    then have "k \<le> round_half_even (q / 2 powi ?E)" by (rule round_half_even_bounds)
    then show ?thesis unfolding r by (intro mult_right_mono) simp_all
  qed
  obtain m e where p: "p = of_int m * 2 powi e" and m: "m < 2 ^ 53" and e: "-1074 \<le> e"
    using assms(2) by (auto simp: representable_def)
  show ?thesis
  proof (cases "e < ?E")
    case True
    note bounds = representable_scaled [OF q p m e True]
    have "2 powi (?E + 52) = of_int (2 ^ 52) * (2 :: rat) powi ?E" by (simp add: power_int_add)
    then show ?thesis using bounds lower [of "2 ^ 52"] by linarith
  next
    case False
    then obtain k where "p / 2 powi ?E = of_int k" using scaled_int [OF p, of ?E] by auto
    then have "p = of_int k * 2 powi ?E" by (simp add: field_simps)
    then show ?thesis using lower [of k] assms(1) by simp
  qed
qed

section \<open>The error of one rounding\<close>

lemma round_error:
  assumes "0 < q" "round_double s q = Finite t r"
  shows "\<bar>r - q\<bar> \<le> q / 2 ^ 53 + 2 powi (- 1075)"
proof -
  let ?E = "ulp_exponent q"
  have r: "r = of_int (round_half_even (q / 2 powi ?E)) * 2 powi ?E" using round_double_finite [OF assms] by simp
  have "r - q = (of_int (round_half_even (q / 2 powi ?E)) - q / 2 powi ?E) * 2 powi ?E"
    unfolding r by (simp add: left_diff_distrib)
  then have "\<bar>r - q\<bar> = \<bar>of_int (round_half_even (q / 2 powi ?E)) - q / 2 powi ?E\<bar> * 2 powi ?E"
    by (simp add: abs_mult)
  also have "\<dots> \<le> 1 / 2 * 2 powi ?E" using round_half_even_error by (intro mult_right_mono) simp_all
  also have "\<dots> \<le> q / 2 ^ 53 + 2 powi (- 1075)"
  proof (cases "?E = ilog2 q - 52")
    case True
    then have "2 powi ?E = 2 powi ilog2 q / (2 :: rat) ^ 52" by (simp add: power_int_diff)
    then have "1 / 2 * 2 powi ?E \<le> q / 2 ^ 53" using ilog2_bounds(1) [OF assms(1)] by simp
    then show ?thesis by (rule order_trans) simp
  next
    case False
    then have "?E = -1074" by (auto simp: ulp_exponent_def)
    moreover have "1 / 2 * (2 :: rat) powi (- 1074) = 2 powi (- 1075)"
      using power_int_add [of "2 :: rat" "- 1075" 1] by simp
    ultimately show ?thesis using assms(1) by simp
  qed
  finally show ?thesis .
qed

lemma round_upper:
  "0 \<le> q \<Longrightarrow> round_double s q = Finite t r \<Longrightarrow> r \<le> q + q / 2 ^ 53 + 2 powi (- 1075)"
  using round_error [of q s t r] by (cases "q = 0") (auto simp: round_double_def)

section \<open>Taking one away\<close>

lemma representable_minus_one:
  assumes "representable q" "1 \<le> q" "q \<le> 2 ^ 53"
  shows "representable (q - 1)"
proof -
  obtain m e where q: "q = of_int m * 2 powi e" and m: "0 \<le> m" "m < 2 ^ 53" and e: "-1074 \<le> e" "e \<le> 971"
    using assms(1) by (auto simp: representable_def)
  show ?thesis
  proof (cases "0 \<le> e")
    case True
    then obtain k where "q / 2 powi 0 = of_int k" using scaled_int [OF q] by blast
    then have k: "q = of_int k" by simp
    have "of_int 1 \<le> (of_int k :: rat)" "of_int k \<le> (of_int (2 ^ 53) :: rat)" using assms(2,3) k by simp_all
    then have "0 \<le> k - 1" "k - 1 \<le> 2 ^ 53" unfolding of_int_le_iff by simp_all
    then show ?thesis using representable_of_int [of "k - 1"] by (simp add: k)
  next
    case False
    have one: "(1 :: rat) = of_int (2 ^ nat (- e)) * 2 powi e"
      using False by (simp add: power_int_nonneg_exp [symmetric] power_int_minus)
    then have "q - 1 = of_int (m - 2 ^ nat (- e)) * 2 powi e"
      using q by (simp add: left_diff_distrib)
    moreover have "0 \<le> m - 2 ^ nat (- e)"
    proof (rule ccontr)
      assume "\<not> ?thesis"
      then have "of_int m < (of_int (2 ^ nat (- e)) :: rat)" by (simp only: of_int_less_iff)
      then have "q < 1" unfolding q by (subst one) (intro mult_strict_right_mono, simp_all)
      then show False using assms(2) by simp
    qed
    moreover have "m - 2 ^ nat (- e) < 2 ^ 53" using m(2) zero_le_power [of "2 :: int" "nat (- e)"] by linarith
    ultimately show ?thesis using e by (intro representableI)
  qed
qed

lemma num_sub_one:
  assumes "representable q" "1 \<le> q" "q \<le> 2 ^ 53"
  shows "num_sub (Finite False q) (num_of_int 1) = Finite False (q - 1)"
proof -
  have "round_double False (q - 1) = Finite False (q - 1)"
    by (rule round_representable [OF representable_minus_one [OF assms]])
  then show ?thesis using assms(2) by (auto simp: num_sub_def num_of_int_exact signed_def Let_def)
qed

end
