(* ===== verification/Rate_Limit.thy ===== *)
theory Rate_Limit
  imports Js_Rounding Http_Request
begin

text \<open>
  The token buckets of \<open>apps/api/src/rate-limit.ts\<close>: configuration, the limiter with its sweep of idle buckets, and
  the decisions taken on a request.  Tokens are doubles with the rounding of the code.  The lemmas bound what one key
  is admitted in a stretch of time, rounding and sweeps included, and show how the cap of a company is used up by
  callers who are refused.
\<close>

section \<open>Configuration\<close>

record rate_config =
  perUserPerMin :: double
  perIpPerMin :: double
  perCompanyPerMin :: double
  perPortalTokenReadPerMin :: "double option"
  perPortalTokenWritePerMin :: "double option"
  windowMs :: int

definition DEFAULT_PORTAL_TOKEN_READ_PER_MIN :: double where
  "DEFAULT_PORTAL_TOKEN_READ_PER_MIN = num_of_int 60"

definition DEFAULT_PORTAL_TOKEN_WRITE_PER_MIN :: double where
  "DEFAULT_PORTAL_TOKEN_WRITE_PER_MIN = num_of_int 20"

definition DEFAULT_RATE_LIMIT_CONFIG :: rate_config where
  "DEFAULT_RATE_LIMIT_CONFIG = \<lparr>perUserPerMin = num_of_int 100, perIpPerMin = num_of_int 30,
     perCompanyPerMin = num_of_int 1000, perPortalTokenReadPerMin = Some DEFAULT_PORTAL_TOKEN_READ_PER_MIN,
     perPortalTokenWritePerMin = Some DEFAULT_PORTAL_TOKEN_WRITE_PER_MIN, windowMs = 60000\<rparr>"

text \<open>\<open>clampPositiveInt(env.X ?? fallback, fallback)\<close>\<close>

definition clampPositiveInt :: "string option \<Rightarrow> double \<Rightarrow> double" where
  "clampPositiveInt raw fallback =
     (let v = (case raw of None \<Rightarrow> fallback | Some s \<Rightarrow> string_to_number s)
      in if is_finite v \<and> num_less (num_of_int 0) v then math_floor v else fallback)"

definition loadRateLimitConfig :: "(string \<Rightarrow> string option) \<Rightarrow> rate_config" where
  "loadRateLimitConfig env = \<lparr>
     perUserPerMin = clampPositiveInt (env ''RATE_LIMIT_PER_USER_PER_MIN'') (perUserPerMin DEFAULT_RATE_LIMIT_CONFIG),
     perIpPerMin = clampPositiveInt (env ''RATE_LIMIT_PER_IP_PER_MIN'') (perIpPerMin DEFAULT_RATE_LIMIT_CONFIG),
     perCompanyPerMin = clampPositiveInt (env ''RATE_LIMIT_PER_COMPANY_PER_MIN'')
       (perCompanyPerMin DEFAULT_RATE_LIMIT_CONFIG),
     perPortalTokenReadPerMin = Some (clampPositiveInt (env ''RATE_LIMIT_PER_PORTAL_TOKEN_READ_PER_MIN'')
       DEFAULT_PORTAL_TOKEN_READ_PER_MIN),
     perPortalTokenWritePerMin = Some (clampPositiveInt (env ''RATE_LIMIT_PER_PORTAL_TOKEN_WRITE_PER_MIN'')
       DEFAULT_PORTAL_TOKEN_WRITE_PER_MIN),
     windowMs = windowMs DEFAULT_RATE_LIMIT_CONFIG\<rparr>"

section \<open>The limiter\<close>

datatype rate_scope = User_scope | Ip_scope | Company_scope | Portal_read | Portal_write

fun scope_text :: "rate_scope \<Rightarrow> string" where
  "scope_text User_scope = ''user''" | "scope_text Ip_scope = ''ip''" | "scope_text Company_scope = ''company''"
| "scope_text Portal_read = ''portal_read''" | "scope_text Portal_write = ''portal_write''"

fun capacityFor :: "rate_config \<Rightarrow> rate_scope \<Rightarrow> double" where
  "capacityFor cfg User_scope = perUserPerMin cfg"
| "capacityFor cfg Company_scope = perCompanyPerMin cfg"
| "capacityFor cfg Portal_read = (case perPortalTokenReadPerMin cfg of Some n \<Rightarrow> n | None \<Rightarrow> DEFAULT_PORTAL_TOKEN_READ_PER_MIN)"
| "capacityFor cfg Portal_write =
     (case perPortalTokenWritePerMin cfg of Some n \<Rightarrow> n | None \<Rightarrow> DEFAULT_PORTAL_TOKEN_WRITE_PER_MIN)"
| "capacityFor cfg Ip_scope = perIpPerMin cfg"

record bucket =
  bk_tokens :: double
  bk_updatedAt :: int

record limiter =
  lm_buckets :: "string \<rightharpoonup> bucket"
  lm_lastSweep :: int

definition createRateLimiter :: "int \<Rightarrow> limiter" where
  "createRateLimiter now = \<lparr>lm_buckets = Map.empty, lm_lastSweep = now\<rparr>"

definition sweep :: "rate_config \<Rightarrow> int \<Rightarrow> limiter \<Rightarrow> limiter" where
  "sweep cfg now st =
     (if now - lm_lastSweep st < windowMs cfg then st
      else st\<lparr>lm_lastSweep := now, lm_buckets := (\<lambda>k. case lm_buckets st k of None \<Rightarrow> None
        | Some b \<Rightarrow> if windowMs cfg \<le> now - bk_updatedAt b then None else Some b)\<rparr>)"

text \<open>A decision names the scope, the key and the capacity; then what is left, or the seconds to wait.\<close>

datatype rate_decision = Admitted rate_scope string double double | Refused rate_scope string double double

definition bucket_key :: "rate_scope \<Rightarrow> string \<Rightarrow> string" where
  "bucket_key scope key = scope_text scope @ '':'' @ key"

definition refill :: "rate_config \<Rightarrow> double \<Rightarrow> int \<Rightarrow> bucket \<Rightarrow> double" where
  "refill cfg capacity now current =
     (let refillRatePerMs = num_div capacity (num_of_int (windowMs cfg));
          elapsed = num_of_int (max 0 (now - bk_updatedAt current))
      in math_min [capacity, num_add (bk_tokens current) (num_mul elapsed refillRatePerMs)])"

definition consume :: "rate_config \<Rightarrow> rate_scope \<Rightarrow> string \<Rightarrow> int \<Rightarrow> limiter \<Rightarrow> rate_decision \<times> limiter" where
  "consume cfg scope key now st0 =
     (let st = sweep cfg now st0;
          capacity = capacityFor cfg scope;
          refillRatePerMs = num_div capacity (num_of_int (windowMs cfg));
          composite = bucket_key scope key;
          current = (case lm_buckets st composite of Some b \<Rightarrow> b | None \<Rightarrow> \<lparr>bk_tokens = capacity, bk_updatedAt = now\<rparr>);
          refilled = refill cfg capacity now current;
          store = (\<lambda>t. st\<lparr>lm_buckets := (lm_buckets st)(composite \<mapsto> \<lparr>bk_tokens = t, bk_updatedAt = now\<rparr>)\<rparr>)
      in if num_less refilled (num_of_int 1) then
           (let tokensNeeded = num_sub (num_of_int 1) refilled;
                retryAfterMs = math_ceil (num_div tokensNeeded refillRatePerMs)
            in (Refused scope key capacity
                  (math_max [num_of_int 1, math_ceil (num_div retryAfterMs (num_of_int 1000))]), store refilled))
         else (let tokensAfter = num_sub refilled (num_of_int 1)
               in (Admitted scope key capacity (math_floor tokensAfter), store tokensAfter)))"

section \<open>Requests\<close>

definition isRateLimitExempt :: "string \<Rightarrow> bool" where
  "isRateLimitExempt pathname \<longleftrightarrow>
     pathname = ''/health'' \<or> starts_with ''/health'' pathname
     \<or> starts_with ''/api/webhooks/'' pathname
     \<or> (case segments pathname of [a, b, c, provider, d] \<Rightarrow>
          a = [] \<and> b = ''api'' \<and> c = ''integrations'' \<and> provider \<noteq> [] \<and> d = ''callback'' | _ \<Rightarrow> False)
     \<or> starts_with ''/api/portal/'' pathname"

definition resolveRequestIp :: "http_request \<Rightarrow> string" where
  "resolveRequestIp rq =
     (let fallback = (case rq_remote_address rq of Some a \<Rightarrow> a | None \<Rightarrow> ''unknown'')
      in case truthy_text (first_value (rq_headers rq ''x-forwarded-for'')) of
           None \<Rightarrow> fallback
         | Some xff \<Rightarrow> (case truthy_text (Some (trim (takeWhile (\<lambda>c. c \<noteq> CHR '','') xff))) of
             Some hop \<Rightarrow> hop | None \<Rightarrow> fallback))"

definition resolveCompanyKey :: "http_request \<Rightarrow> string option" where
  "resolveCompanyKey rq = truthy_text (map_option trim (first_value (rq_headers rq ''x-sitelayer-company-slug'')))"

record enforce_args =
  ea_request :: http_request
  ea_pathname :: string
  ea_userId :: "string option"
  ea_companyKey :: "string option"

definition rejection :: "rate_decision \<Rightarrow> rate_decision option" where
  "rejection d = (case d of Admitted _ _ _ _ \<Rightarrow> None | Refused _ _ _ _ \<Rightarrow> Some d)"

text \<open>Each of the two buckets is asked with its own reading of the clock.\<close>

definition enforceRateLimit ::
  "rate_config \<Rightarrow> enforce_args \<Rightarrow> int \<Rightarrow> int \<Rightarrow> limiter \<Rightarrow> rate_decision option \<times> limiter" where
  "enforceRateLimit cfg args now1 now2 st =
     (if isRateLimitExempt (ea_pathname args) then (None, st)
      else (let caller = (\<lambda>st. case truthy_text (ea_userId args) of
                  Some user \<Rightarrow> apfst rejection (consume cfg User_scope user now2 st)
                | None \<Rightarrow> apfst rejection (consume cfg Ip_scope (resolveRequestIp (ea_request args)) now2 st))
            in case truthy_text (map_option trim (ea_companyKey args)) of
                 None \<Rightarrow> caller st
               | Some companyKey \<Rightarrow>
                   (case consume cfg Company_scope companyKey now1 st of
                      (Refused s k cap wait, st1) \<Rightarrow> (Some (Refused s k cap wait), st1)
                    | (Admitted _ _ _ _, st1) \<Rightarrow> caller st1)))"

definition applyRateLimit ::
  "rate_config \<Rightarrow> http_request \<Rightarrow> string \<Rightarrow> string option \<Rightarrow> int \<Rightarrow> int \<Rightarrow> limiter \<Rightarrow> rate_decision option \<times> limiter" where
  "applyRateLimit cfg rq pathname userId now1 now2 st =
     enforceRateLimit cfg \<lparr>ea_request = rq, ea_pathname = pathname, ea_userId = userId,
       ea_companyKey = resolveCompanyKey rq\<rparr> now1 now2 st"

datatype portal_kind = Portal_get | Portal_post

definition enforcePortalTokenRateLimit ::
  "rate_config \<Rightarrow> string \<Rightarrow> portal_kind \<Rightarrow> int \<Rightarrow> limiter \<Rightarrow> rate_decision option \<times> limiter" where
  "enforcePortalTokenRateLimit cfg token kind now st =
     (if trim token = [] then (None, st)
      else apfst rejection (consume cfg (case kind of Portal_post \<Rightarrow> Portal_write | Portal_get \<Rightarrow> Portal_read) (trim token) now st))"

section \<open>One refill\<close>

text \<open>
  The hypotheses of the bound: whole capacities and windows as the configuration has them, clock readings that
  are dates.
\<close>

definition sane :: "rate_config \<Rightarrow> rate_scope \<Rightarrow> int \<Rightarrow> bool" where
  "sane cfg scope c \<longleftrightarrow> capacityFor cfg scope = num_of_int c \<and> 1 \<le> c \<and> c \<le> 2 ^ 50 \<and> 1 \<le> windowMs cfg \<and> windowMs cfg \<le> 2 ^ 50"

definition bucket_ok :: "int \<Rightarrow> int \<Rightarrow> bucket \<Rightarrow> bool" where
  "bucket_ok c now b \<longleftrightarrow> (\<exists>q. bk_tokens b = Finite False q \<and> representable q \<and> q \<le> of_int c) \<and> bk_updatedAt b \<le> now
     \<and> 0 \<le> bk_updatedAt b"

fun rat_of :: "double \<Rightarrow> rat" where
  "rat_of (Finite s q) = signed s q" | "rat_of _ = 0"

text \<open>What a key may be admitted at once at a time, were the arithmetic exact.\<close>

definition level :: "rate_config \<Rightarrow> int \<Rightarrow> int \<Rightarrow> bucket option \<Rightarrow> rat" where
  "level cfg c now bo = (case bo of None \<Rightarrow> of_int c
     | Some b \<Rightarrow> min (of_int c) (rat_of (bk_tokens b) + of_int (now - bk_updatedAt b) * of_int c / of_int (windowMs cfg)))"

lemma num_int_pos: "0 \<le> i \<Longrightarrow> i \<le> 2 ^ 53 \<Longrightarrow> num_of_int i = Finite False (of_int i)"
  using num_of_int_exact [of i] by simp

lemma representable_int: "0 \<le> i \<Longrightarrow> i \<le> 2 ^ 53 \<Longrightarrow> representable (of_int i)"
  by (rule representable_of_int)

lemma refill_rate:
  assumes "1 \<le> c" "c \<le> 2 ^ 50" "1 \<le> w" "w \<le> 2 ^ 50"
  obtains rate where "num_div (num_of_int c) (num_of_int w) = Finite False rate" "0 \<le> rate" "rate \<le> of_int c"
    "rate \<le> of_int c / of_int w + of_int c / of_int w / 2 ^ 53 + 2 powi (- 1075)"
proof -
  have "of_int c / of_int w \<le> (of_int c :: rat)" using assms by (simp add: divide_le_eq)
  then obtain rate where rate: "round_double False (of_int c / of_int w) = Finite False rate" "0 \<le> rate" "rate \<le> of_int c"
    using round_le [of "of_int c / of_int w" "of_int c" False] representable_int [of c] assms by auto
  have "(0 :: rat) \<le> of_int c / of_int w" using assms by simp
  from rate(1) round_upper [OF this rate(1)] rate(2,3) show ?thesis
    using that [of rate] assms by (simp add: num_int_pos)
qed

lemma num_add_pos:
  "0 \<le> a \<Longrightarrow> 0 \<le> b \<Longrightarrow> num_add (Finite False a) (Finite False b) = round_double False (a + b)"
  by (auto simp: signed_def Let_def round_double_def add_nonneg_eq_0_iff)

lemma math_min_pos:
  "math_min [Finite False a, Finite False b] = Finite False (min a b)"
  by (auto simp: math_min_def num_min_def num_before_def signed_def)

lemma representable_two_powi: "-1074 \<le> e \<Longrightarrow> e \<le> 971 \<Longrightarrow> representable (2 powi e)"
  by (rule representableI [of 1 e]) simp_all

lemma rat_le_mono: "i \<le> j \<Longrightarrow> (of_int i :: rat) \<le> of_int j"
  by simp

lemma refill_bound:
  assumes c: "1 \<le> c" "c \<le> 2 ^ 50" and w: "1 \<le> windowMs cfg" "windowMs cfg \<le> 2 ^ 50"
    and b: "bucket_ok c now b" and now: "now \<le> 2 ^ 53"
  obtains q where "refill cfg (num_of_int c) now b = Finite False q" "representable q" "q \<le> of_int c"
    "q \<le> level cfg c now (Some b) + 8 * of_int c / 2 ^ 53"
proof -
  define w where "w = windowMs cfg"
  define e where "e = now - bk_updatedAt b"
  define C W E :: rat where "C = of_int c" and "W = of_int w" and "E = of_int e"
  define h :: rat where "h = 2 powi (- 1075)"
  obtain t where t: "bk_tokens b = Finite False t" "representable t" "t \<le> C" and e: "0 \<le> e" "e \<le> 2 ^ 53"
    using b now by (auto simp: bucket_ok_def e_def C_def)
  then have t0: "0 \<le> t" by (blast intro: representable_nonneg)
  have CW: "1 \<le> C" "C \<le> 2 ^ 50" "1 \<le> W" "0 \<le> E" "E \<le> 2 ^ 53"
    using c(1) assms(3) e(1) rat_le_mono [OF c(2)] rat_le_mono [OF e(2)] by (simp_all add: C_def W_def E_def w_def)
  obtain r where r: "num_div (num_of_int c) (num_of_int w) = Finite False r" "0 \<le> r" "r \<le> C"
      "r \<le> C / W + C / W / 2 ^ 53 + h"
    using refill_rate [OF c, of w] assms(3,4) unfolding C_def W_def h_def w_def by blast
  have "E * r \<le> 2 ^ 53 * 2 ^ 50" using CW r(2,3) by (intro mult_mono) auto
  also have "\<dots> = 2 powi 103" by (simp flip: power_add)
  finally obtain p where p: "round_double False (E * r) = Finite False p" "0 \<le> p" "p \<le> 2 powi 103"
    using round_le [of "E * r" "2 powi 103" False] representable_two_powi [of 103] by auto
  have "t + p \<le> 2 ^ 50 + 2 powi 103" using t(3) CW p(3) by linarith
  also have "\<dots> \<le> 2 powi 104" by simp
  finally obtain s where s: "round_double False (t + p) = Finite False s" "0 \<le> s"
    using round_le [of "t + p" "2 powi 104" False] representable_two_powi [of 104] by auto
  have refill: "refill cfg (num_of_int c) now b = Finite False (min C s)"
    using num_int_pos [OF e] e(1) r(1) p s t0 num_int_pos [of c] c math_min_pos
    by (simp add: refill_def Let_def t(1) num_add_pos E_def [symmetric] C_def [symmetric] max_def
        del: num_add.simps flip: w_def e_def)
  have repr: "representable (min C s)"
    using number_ok_round [of False "t + p"] s representable_int [of c] c by (simp add: C_def min_def)
  have "min C s \<le> level cfg c now (Some b) + 8 * C / 2 ^ 53"
  proof (cases "W \<le> E")
    case True
    then have "C \<le> E * C / W" using CW by (simp add: pos_le_divide_eq mult.commute)
    then have "level cfg c now (Some b) = C"
      using t0 by (simp add: level_def t(1) C_def E_def W_def w_def e_def signed_def)
    then show ?thesis using CW by simp
  next
    case False
    define X where "X = E * C / W"
    have X: "0 \<le> X" "X \<le> C" using CW False by (simp_all add: X_def divide_le_eq mult.commute [of C] mult_right_mono)
    have h: "0 < h" "2 ^ 50 * h \<le> 1 / 2 ^ 60" "h \<le> 1 / 2 ^ 60"
    proof -
      have "h \<le> 2 powi (- 110)" unfolding h_def by (rule power_int_increasing) simp_all
      also have "\<dots> = 1 / 2 ^ 110" by (simp only: power_int_minus power_int_numeral inverse_eq_divide)
      finally show "2 ^ 50 * h \<le> 1 / 2 ^ 60" "h \<le> 1 / 2 ^ 60" by simp_all
    qed (simp add: h_def)
    have "E * r \<le> E * (C / W + C / W / 2 ^ 53 + h)" using r(4) CW by (intro mult_left_mono)
    also have "\<dots> = X + X / 2 ^ 53 + E * h" by (simp add: X_def algebra_simps)
    also have "\<dots> \<le> X + X / 2 ^ 53 + 2 ^ 50 * h"
    proof -
      have "W \<le> 2 ^ 50" using rat_le_mono [OF assms(4)] by (simp add: W_def w_def)
      then have "E * h \<le> 2 ^ 50 * h" using False h(1) by (intro mult_right_mono) auto
      then show ?thesis by simp
    qed
    finally have Er: "E * r \<le> X + X / 2 ^ 53 + 2 ^ 50 * h" .
    have "p \<le> E * r + E * r / 2 ^ 53 + h"
      using round_upper [OF _ p(1)] CW r(2) by (simp add: h_def)
    moreover have "s \<le> (t + p) + (t + p) / 2 ^ 53 + h"
      using round_upper [OF _ s(1)] t0 p(2) by (simp add: h_def)
    ultimately have "s \<le> t + X + 8 * C / 2 ^ 53" using Er X t(3) h CW by (simp add: field_simps)
    then have "min C s \<le> min C (t + X) + 8 * C / 2 ^ 53" using CW by (auto simp: min_def)
    then show ?thesis by (simp add: level_def t(1) C_def X_def E_def W_def w_def e_def signed_def)
  qed
  then show ?thesis using refill repr by (intro that [of "min C s"]) (auto simp: C_def)
qed

section \<open>A run of calls\<close>

type_synonym rate_call = "rate_scope \<times> string \<times> int"

fun consume_all :: "rate_config \<Rightarrow> rate_call list \<Rightarrow> limiter \<Rightarrow> rate_decision list \<times> limiter" where
  "consume_all cfg [] st = ([], st)"
| "consume_all cfg ((scope, key, now) # calls) st =
     (let (d, st1) = consume cfg scope key now st; (ds, st2) = consume_all cfg calls st1 in (d # ds, st2))"

definition admits :: "rate_scope \<Rightarrow> string \<Rightarrow> rate_decision \<Rightarrow> bool" where
  "admits scope key d \<longleftrightarrow> (case d of Admitted s k _ _ \<Rightarrow> s = scope \<and> k = key | Refused _ _ _ _ \<Rightarrow> False)"

definition admitted :: "rate_scope \<Rightarrow> string \<Rightarrow> rate_decision list \<Rightarrow> nat" where
  "admitted scope key ds = length (filter (admits scope key) ds)"

text \<open>The clock does not go backwards.\<close>

fun times_ok :: "int \<Rightarrow> rate_call list \<Rightarrow> bool" where
  "times_ok t [] \<longleftrightarrow> True"
| "times_ok t ((_, _, now) # calls) \<longleftrightarrow> t \<le> now \<and> now \<le> 2 ^ 53 \<and> times_ok now calls"

fun last_time :: "int \<Rightarrow> rate_call list \<Rightarrow> int" where
  "last_time t [] = t"
| "last_time t ((_, _, now) # calls) = last_time now calls"

lemma bucket_key_inject [simp]: "bucket_key s k = bucket_key s' k' \<longleftrightarrow> s = s' \<and> k = k'"
  by (cases s; cases s') (auto simp: bucket_key_def)

definition key_ok :: "int \<Rightarrow> int \<Rightarrow> bucket option \<Rightarrow> bool" where
  "key_ok c now bo \<longleftrightarrow> (case bo of None \<Rightarrow> True | Some b \<Rightarrow> bucket_ok c now b)"

lemma key_ok_later: "key_ok c t bo \<Longrightarrow> t \<le> now \<Longrightarrow> key_ok c now bo"
  by (auto simp: key_ok_def bucket_ok_def split: option.splits)

lemma level_le: "level cfg c t bo \<le> of_int c"
  by (simp add: level_def split: option.splits)

lemma level_nonneg:
  assumes "key_ok c t bo" "1 \<le> c" "1 \<le> windowMs cfg"
  shows "0 \<le> level cfg c t bo"
proof (cases bo)
  case (Some b)
  then obtain q where "bk_tokens b = Finite False q" "0 \<le> q" "bk_updatedAt b \<le> t"
    using assms(1) by (auto simp: key_ok_def bucket_ok_def intro: representable_nonneg)
  then show ?thesis using Some assms(2,3) by (simp add: level_def signed_def)
qed (use assms in \<open>simp add: level_def\<close>)

lemma level_later:
  assumes "t \<le> now" "1 \<le> c" "1 \<le> windowMs cfg"
  shows "level cfg c now bo \<le> level cfg c t bo + of_int (now - t) * of_int c / of_int (windowMs cfg)"
proof (cases bo)
  case None
  then show ?thesis using assms by (simp add: level_def)
next
  case (Some b)
  let ?r = "of_int c / of_int (windowMs cfg) :: rat"
  have "of_int (now - bk_updatedAt b) * ?r = of_int (t - bk_updatedAt b) * ?r + of_int (now - t) * ?r"
    unfolding distrib_right [symmetric] of_int_add [symmetric] by simp
  moreover have "0 \<le> of_int (now - t) * ?r" using assms by simp
  ultimately show ?thesis by (auto simp: level_def Some min_def)
qed

lemma sweep_level:
  assumes "key_ok c now (lm_buckets st k)" "1 \<le> c" "1 \<le> windowMs cfg"
  shows "key_ok c now (lm_buckets (sweep cfg now st) k)"
    "level cfg c now (lm_buckets (sweep cfg now st) k) = level cfg c now (lm_buckets st k)"
proof -
  have full: "level cfg c now (Some b) = of_int c"
    if b: "bucket_ok c now b" "windowMs cfg \<le> now - bk_updatedAt b" for b
  proof -
    obtain q where q: "bk_tokens b = Finite False q" "0 \<le> q" using b by (auto simp: bucket_ok_def intro: representable_nonneg)
    have "of_int (windowMs cfg) \<le> (of_int (now - bk_updatedAt b) :: rat)" using b(2) by (rule rat_le_mono)
    then have "of_int c \<le> (of_int (now - bk_updatedAt b) * of_int c / of_int (windowMs cfg) :: rat)"
      using assms(2,3) by (simp add: pos_le_divide_eq mult.commute [of "of_int c"] mult_right_mono)
    then show ?thesis using q by (simp add: level_def signed_def)
  qed
  show "key_ok c now (lm_buckets (sweep cfg now st) k)"
    using assms(1) by (auto simp: sweep_def key_ok_def split: option.splits)
  show "level cfg c now (lm_buckets (sweep cfg now st) k) = level cfg c now (lm_buckets st k)"
    using assms(1) full by (auto simp: sweep_def key_ok_def level_def [of _ _ _ None] split: option.splits)
qed

lemma consume_other:
  assumes "(scope', key') \<noteq> (scope, key)" "consume cfg scope' key' now st = (d, st')"
  shows "lm_buckets st' (bucket_key scope key) = lm_buckets (sweep cfg now st) (bucket_key scope key)" "\<not> admits scope key d"
  using assms by (auto simp: consume_def Let_def admits_def split: if_splits)

lemma consume_own:
  assumes sane: "sane cfg scope c" and ok: "key_ok c now (lm_buckets st (bucket_key scope key))"
    and now: "0 \<le> now" "now \<le> 2 ^ 53" and run: "consume cfg scope key now st = (d, st')"
  shows "key_ok c now (lm_buckets st' (bucket_key scope key))"
    "level cfg c now (lm_buckets st' (bucket_key scope key)) + (if admits scope key d then 1 else 0)
      \<le> level cfg c now (lm_buckets st (bucket_key scope key)) + 8 * of_int c / 2 ^ 53"
proof -
  have c: "1 \<le> c" "c \<le> 2 ^ 50" and w: "1 \<le> windowMs cfg" "windowMs cfg \<le> 2 ^ 50"
    and cap: "capacityFor cfg scope = num_of_int c" using sane by (simp_all add: sane_def)
  let ?st = "sweep cfg now st"
  define b where "b = (case lm_buckets ?st (bucket_key scope key) of Some b \<Rightarrow> b
     | None \<Rightarrow> \<lparr>bk_tokens = num_of_int c, bk_updatedAt = now\<rparr>)"
  note swept = sweep_level [OF ok c(1) w(1)]
  have b: "bucket_ok c now b" "level cfg c now (Some b) = level cfg c now (lm_buckets st (bucket_key scope key))"
    using swept num_int_pos [of c] c now representable_int [of c]
    by (auto simp: b_def key_ok_def bucket_ok_def level_def signed_def split: option.splits)
  obtain q where q: "refill cfg (num_of_int c) now b = Finite False q" "representable q" "q \<le> of_int c"
      "q \<le> level cfg c now (Some b) + 8 * of_int c / 2 ^ 53"
    using refill_bound [OF c w b(1) now(2)] by blast
  have q0: "0 \<le> q" using q(2) by (rule representable_nonneg)
  define t where "t = (if q < 1 then q else q - 1)"
  have big: "of_int c \<le> (2 ^ 53 :: rat)" using rat_le_mono [OF c(2)] by simp
  have less: "num_less (Finite False q) (num_of_int 1) \<longleftrightarrow> q < 1"
    by (simp add: num_int_pos signed_def)
  have tokens: "(if q < 1 then Finite False q else num_sub (Finite False q) (num_of_int 1)) = Finite False t"
    using num_sub_one [OF q(2)] q(3) big by (auto simp: t_def)
  have run: "lm_buckets st' (bucket_key scope key) = Some \<lparr>bk_tokens = Finite False t, bk_updatedAt = now\<rparr>"
    "admits scope key d \<longleftrightarrow> \<not> q < 1"
    using run tokens less unfolding consume_def Let_def cap b_def [symmetric] q(1)
    by (auto simp: admits_def split: if_splits)
  have t: "representable t" "0 \<le> t" "t \<le> of_int c" "t + (if admits scope key d then 1 else 0) = q"
    using q(2,3) q0 representable_minus_one [OF q(2)] big run(2) by (auto simp: t_def)
  show "key_ok c now (lm_buckets st' (bucket_key scope key))"
    using t now by (auto simp: run key_ok_def bucket_ok_def)
  show "level cfg c now (lm_buckets st' (bucket_key scope key)) + (if admits scope key d then 1 else 0)
      \<le> level cfg c now (lm_buckets st (bucket_key scope key)) + 8 * of_int c / 2 ^ 53"
    using t(3,4) q(4) b(2) by (simp add: run(1) level_def [of _ _ _ "Some _"] signed_def min_def split: if_splits)
qed

lemma consume_step:
  assumes sane: "sane cfg scope c" and ok: "key_ok c t (lm_buckets st (bucket_key scope key))"
    and now: "0 \<le> t" "t \<le> now" "now \<le> 2 ^ 53" and run: "consume cfg scope' key' now st = (d, st')"
  shows "key_ok c now (lm_buckets st' (bucket_key scope key))"
    "level cfg c now (lm_buckets st' (bucket_key scope key)) + (if admits scope key d then 1 else 0)
      \<le> level cfg c t (lm_buckets st (bucket_key scope key)) + of_int (now - t) * of_int c / of_int (windowMs cfg)
        + 8 * of_int c / 2 ^ 53"
proof -
  have c: "1 \<le> c" and w: "1 \<le> windowMs cfg" using sane by (simp_all add: sane_def)
  note ok = key_ok_later [OF ok now(2)]
  have pos: "(0 :: rat) \<le> 8 * of_int c / 2 ^ 53" using c by simp
  have "key_ok c now (lm_buckets st' (bucket_key scope key)) \<and>
      level cfg c now (lm_buckets st' (bucket_key scope key)) + (if admits scope key d then 1 else 0)
        \<le> level cfg c now (lm_buckets st (bucket_key scope key)) + 8 * of_int c / 2 ^ 53"
  proof (cases "(scope', key') = (scope, key)")
    case True
    then show ?thesis using consume_own [OF sane ok _ now(3)] run now by simp
  next
    case False
    then show ?thesis using consume_other [OF False run] sweep_level [OF ok c w] pos by simp
  qed
  then show "key_ok c now (lm_buckets st' (bucket_key scope key))"
    "level cfg c now (lm_buckets st' (bucket_key scope key)) + (if admits scope key d then 1 else 0)
      \<le> level cfg c t (lm_buckets st (bucket_key scope key)) + of_int (now - t) * of_int c / of_int (windowMs cfg)
        + 8 * of_int c / 2 ^ 53"
    using level_later [OF now(2) c w, of "lm_buckets st (bucket_key scope key)"] by linarith+
qed

lemma run_bound:
  assumes "sane cfg scope c" "0 \<le> t" "times_ok t calls" "key_ok c t (lm_buckets st (bucket_key scope key))"
    "consume_all cfg calls st = (ds, st')"
  shows "key_ok c (last_time t calls) (lm_buckets st' (bucket_key scope key)) \<and> t \<le> last_time t calls \<and>
    level cfg c (last_time t calls) (lm_buckets st' (bucket_key scope key)) + of_nat (admitted scope key ds)
      \<le> level cfg c t (lm_buckets st (bucket_key scope key)) + of_int (last_time t calls - t) * of_int c / of_int (windowMs cfg)
        + of_nat (length calls) * (8 * of_int c / 2 ^ 53)"
  using assms
proof (induction calls arbitrary: t st ds)
  case Nil
  then show ?case by (simp add: admitted_def)
next
  case (Cons call calls)
  obtain scope' key' now where call: "call = (scope', key', now)" by (cases call)
  obtain d st1 ds1 where run: "consume cfg scope' key' now st = (d, st1)" "consume_all cfg calls st1 = (ds1, st')" "ds = d # ds1"
    using Cons.prems(5) by (auto simp: call split: prod.splits)
  have now: "t \<le> now" "now \<le> 2 ^ 53" "times_ok now calls" using Cons.prems(3) by (simp_all add: call)
  note step = consume_step [OF Cons.prems(1,4,2) now(1,2) run(1)]
  note rest = Cons.IH [OF Cons.prems(1) _ now(3) step(1) run(2)]
  let ?r = "of_int c / of_int (windowMs cfg) :: rat"
  have "of_int (last_time now calls - t) * ?r = of_int (last_time now calls - now) * ?r + of_int (now - t) * ?r"
    unfolding distrib_right [symmetric] of_int_add [symmetric] by simp
  moreover have "of_nat (admitted scope key ds) = of_nat (admitted scope key ds1) + (if admits scope key d then 1 else 0 :: rat)"
    by (simp add: run(3) admitted_def)
  moreover have "of_nat (length (call # calls)) * x = of_nat (length calls) * x + x" for x :: rat
    by (simp add: algebra_simps)
  ultimately show ?case using rest Cons.prems(2) now(1) step(2) by (simp add: call add_divide_distrib)
qed

lemma times_ok_append: "times_ok t (xs @ ys) \<longleftrightarrow> times_ok t xs \<and> times_ok (last_time t xs) ys"
  by (induction xs arbitrary: t) auto

lemma last_time_in: "calls \<noteq> [] \<Longrightarrow> \<exists>scope key. (scope, key, last_time t calls) \<in> set calls"
proof (induction calls arbitrary: t)
  case (Cons call calls)
  obtain a b c where call: "call = (a, b, c)" by (cases call)
  show ?case
  proof (cases "calls = []")
    case False
    then show ?thesis using Cons.IH [of c] by (auto simp: call)
  qed (simp add: call)
qed simp

lemma stretch_bound:
  assumes sane: "sane cfg scope c" and t0: "0 \<le> t0" and times: "times_ok t0 (before @ calls)"
    and before: "consume_all cfg before (createRateLimiter t0) = (ds0, st)" and run: "consume_all cfg calls st = (ds, st')"
    and span: "list_all (\<lambda>(_, _, now). t1 \<le> now \<and> now \<le> t2) calls" "t1 \<le> t2"
  shows "of_nat (admitted scope key ds) \<le> of_int c + of_int (t2 - t1) * of_int c / of_int (windowMs cfg)
      + of_nat (length calls) * of_int c / (2 ^ 50 :: rat)"
proof -
  have c: "1 \<le> c" and w: "1 \<le> windowMs cfg" using sane by (simp_all add: sane_def)
  let ?b = "bucket_key scope key" and ?s = "last_time t0 before"
  have ok: "key_ok c ?s (lm_buckets st ?b)" "t0 \<le> ?s" "times_ok ?s calls"
    using run_bound [OF sane t0 _ _ before] times by (simp_all add: times_ok_append createRateLimiter_def key_ok_def)
  show ?thesis
  proof (cases calls)
    case Nil
    then show ?thesis using run c w span(2) by (simp add: admitted_def)
  next
    case (Cons call rest)
    obtain a k f where call: "call = (a, k, f)" by (cases call)
    have f: "?s \<le> f" "t1 \<le> f" "times_ok f calls" "last_time f calls = last_time ?s calls"
      using ok(3) span(1) by (simp_all add: Cons call)
    obtain a' k' where "(a', k', last_time f calls) \<in> set calls" using last_time_in [of calls f] Cons by auto
    then have last: "last_time f calls \<le> t2" using span(1) by (fastforce simp: list_all_iff)
    have fok: "key_ok c f (lm_buckets st ?b)" by (rule key_ok_later [OF ok(1) f(1)])
    have f0: "0 \<le> f" using t0 ok(2) f(1) by simp
    note bound = run_bound [OF sane f0 f(3) fok run]
    have "0 \<le> level cfg c (last_time f calls) (lm_buckets st' ?b)" using bound c w by (auto intro: level_nonneg)
    moreover have "of_int (last_time f calls - f) * of_int c / of_int (windowMs cfg)
        \<le> (of_int (t2 - t1) * of_int c / of_int (windowMs cfg) :: rat)"
      using last f(2) c w by (intro divide_right_mono mult_right_mono) simp_all
    moreover have "of_nat (length calls) * (8 * of_int c / 2 ^ 53) = (of_nat (length calls) * of_int c / 2 ^ 50 :: rat)"
      by simp
    ultimately show ?thesis using bound level_le [of cfg c f "lm_buckets st ?b"] by linarith
  qed
qed

text \<open>
  C11: What one key is admitted in a stretch of time, after any history of calls of any keys and however
  the sweep falls: at most the capacity, and the capacity once more per window, up to the rounding of the
  doubles.  In particular a window admits at most twice the capacity, as long as the number of calls times the
  capacity stays below \<open>2 ^ 50\<close>.
\<close>

theorem rate_limit_bound:
  assumes "sane cfg scope c" "0 \<le> t0" "times_ok t0 (before @ calls)"
    and "consume_all cfg before (createRateLimiter t0) = (ds0, st)" "consume_all cfg calls st = (ds, st')"
    and "list_all (\<lambda>(_, _, now). t1 \<le> now \<and> now \<le> t2) calls" "t1 \<le> t2"
  shows "of_nat (admitted scope key ds) \<le> of_int c + of_int (t2 - t1) * of_int c / of_int (windowMs cfg)
      + of_nat (length calls) * of_int c / (2 ^ 50 :: rat) \<and>
    (t2 - t1 \<le> windowMs cfg \<longrightarrow> int (length calls) * c < 2 ^ 50 \<longrightarrow> int (admitted scope key ds) \<le> 2 * c)"
proof -
  note bound = stretch_bound [OF assms, of key]
  have c: "1 \<le> c" and w: "1 \<le> windowMs cfg" using assms(1) by (simp_all add: sane_def)
  have "int (admitted scope key ds) \<le> 2 * c" if D: "t2 - t1 \<le> windowMs cfg" and n: "int (length calls) * c < 2 ^ 50"
  proof -
    have "of_int (t2 - t1) \<le> (of_int (windowMs cfg) :: rat)" using D by (rule rat_le_mono)
    then have "of_int (t2 - t1) * of_int c / of_int (windowMs cfg) \<le> (of_int c :: rat)"
      using c w by (simp add: pos_divide_le_eq mult.commute [of "of_int c"] mult_right_mono)
    moreover have "of_int (int (length calls) * c) < (of_int (2 ^ 50) :: rat)" using n by (simp only: of_int_less_iff)
    then have "of_nat (length calls) * of_int c / (2 ^ 50 :: rat) < 1" by simp
    ultimately have "of_nat (admitted scope key ds) < (of_int (2 * c + 1) :: rat)" using bound by simp
    then have "of_int (int (admitted scope key ds)) < (of_int (2 * c + 1) :: rat)" by simp
    then show ?thesis unfolding of_int_less_iff by simp
  qed
  then show ?thesis using bound by blast
qed

lemma rate_limit_bound_witness:
  "int (admitted User_scope ''u'' (fst (consume_all DEFAULT_RATE_LIMIT_CONFIG [(User_scope, ''u'', 1000), (Company_scope, ''co'', 1500),
     (User_scope, ''u'', 2000)] (createRateLimiter 1000)))) \<le> 2 * 100"
proof -
  let ?calls = "[(User_scope, ''u'', 1000), (Company_scope, ''co'', 1500), (User_scope, ''u'', 2000 :: int)]"
  obtain ds st where run: "consume_all DEFAULT_RATE_LIMIT_CONFIG ?calls (createRateLimiter 1000) = (ds, st)" by fastforce
  show ?thesis
    using rate_limit_bound [of DEFAULT_RATE_LIMIT_CONFIG User_scope 100 1000 "[]" ?calls "[]" "createRateLimiter 1000" ds st 1000 2000 "''u''"]
      run by (simp add: sane_def DEFAULT_RATE_LIMIT_CONFIG_def)
qed

section \<open>The cap of a company is shared with everyone who names it\<close>

fun enforce_all :: "rate_config \<Rightarrow> enforce_args list \<Rightarrow> int \<Rightarrow> limiter \<Rightarrow> rate_decision option list \<times> limiter" where
  "enforce_all cfg [] now st = ([], st)"
| "enforce_all cfg (args # rest) now st =
     (let (r, st1) = enforceRateLimit cfg args now now st; (rs, st2) = enforce_all cfg rest now st1 in (r # rs, st2))"

definition holds_tokens :: "limiter \<Rightarrow> rate_scope \<Rightarrow> string \<Rightarrow> int \<Rightarrow> int \<Rightarrow> bool" where
  "holds_tokens st scope key now j \<longleftrightarrow>
     lm_buckets st (bucket_key scope key) = Some \<lparr>bk_tokens = Finite False (of_int j), bk_updatedAt = now\<rparr>"

lemma refill_now:
  assumes "1 \<le> c" "c \<le> 2 ^ 50" "1 \<le> windowMs cfg" "windowMs cfg \<le> 2 ^ 50" "0 \<le> j" "j \<le> c"
  shows "refill cfg (num_of_int c) now \<lparr>bk_tokens = Finite False (of_int j), bk_updatedAt = now\<rparr> = Finite False (of_int j)"
proof -
  obtain rate where rate: "num_div (num_of_int c) (num_of_int (windowMs cfg)) = Finite False rate" "0 \<le> rate"
    using refill_rate [OF assms(1-4)] by blast
  have "round_double False (of_int j) = Finite False (of_int j)"
    using assms by (intro round_representable representable_int) simp_all
  then have "num_add (Finite False (of_int j)) (Finite False 0) = Finite False (of_int j)"
    using assms(5) num_add_pos [of "of_int j" 0] by simp
  then show ?thesis
    using assms rate num_int_pos [of c] num_int_pos [of 0] math_min_pos [of "of_int c" "of_int j"]
    by (simp add: refill_def Let_def round_double_def min_def del: num_add.simps)
qed

lemma sweep_now: "1 \<le> windowMs cfg \<Longrightarrow> lm_buckets st k = Some b \<Longrightarrow> bk_updatedAt b = now \<Longrightarrow>
    lm_buckets (sweep cfg now st) k = Some b"
  by (simp add: sweep_def)

lemma sweep_none: "lm_buckets st k = None \<Longrightarrow> lm_buckets (sweep cfg now st) k = None"
  by (simp add: sweep_def)

lemma consume_now:
  assumes sane: "sane cfg scope c" and j: "0 \<le> j" "j \<le> c"
    and st: "holds_tokens st scope key now j \<or> j = c \<and> lm_buckets st (bucket_key scope key) = None"
    and run: "consume cfg scope key now st = (d, st')"
  shows "if j = 0 then (\<exists>cap wait. d = Refused scope key cap wait) \<and> holds_tokens st' scope key now 0
    else (\<exists>cap left. d = Admitted scope key cap left) \<and> holds_tokens st' scope key now (j - 1)"
proof -
  have c: "1 \<le> c" "c \<le> 2 ^ 50" and w: "1 \<le> windowMs cfg" "windowMs cfg \<le> 2 ^ 50"
    and cap: "capacityFor cfg scope = num_of_int c" using sane by (simp_all add: sane_def)
  define b where "b = (case lm_buckets (sweep cfg now st) (bucket_key scope key) of Some b \<Rightarrow> b
     | None \<Rightarrow> \<lparr>bk_tokens = num_of_int c, bk_updatedAt = now\<rparr>)"
  have b: "b = \<lparr>bk_tokens = Finite False (of_int j), bk_updatedAt = now\<rparr>"
    using st sweep_now [OF w(1), of st "bucket_key scope key" _ now] sweep_none [of st "bucket_key scope key" cfg now] c
    by (auto simp: b_def holds_tokens_def num_int_pos)
  have q: "refill cfg (num_of_int c) now b = Finite False (of_int j)" unfolding b by (rule refill_now [OF c w j])
  have less: "num_less (Finite False (of_int j)) (num_of_int 1) \<longleftrightarrow> j = 0"
    using j by (auto simp: num_int_pos signed_def)
  have "num_sub (Finite False (of_int j)) (num_of_int 1) = Finite False (of_int j - 1)" if "j \<noteq> 0"
    using that j c rat_le_mono [OF j(2)] rat_le_mono [OF c(2)]
    by (intro num_sub_one representable_int) (simp_all add: order_trans)
  then show ?thesis
    using run less unfolding consume_def Let_def cap b_def [symmetric] q
    by (auto simp: holds_tokens_def split: if_splits)
qed

lemma consume_now_other:
  assumes "(scope', key') \<noteq> (scope, key)" "1 \<le> windowMs cfg" "holds_tokens st scope key now j"
    and "consume cfg scope' key' now st = (d, st')"
  shows "holds_tokens st' scope key now j"
  using assms consume_other(1) [OF assms(1,4)] sweep_now [OF assms(2)] by (simp add: holds_tokens_def)

lemma drain_company:
  assumes company: "sane cfg Company_scope c" and user: "sane cfg User_scope u"
    and attack: "\<not> isRateLimitExempt (ea_pathname args)" "ea_userId args = Some attacker" "attacker \<noteq> []"
      "truthy_text (map_option trim (ea_companyKey args)) = Some victim"
    and st: "holds_tokens st User_scope attacker now 0"
      "holds_tokens st Company_scope victim now (int n) \<or> int n = c \<and> lm_buckets st (bucket_key Company_scope victim) = None"
      "int n \<le> c"
    and run: "enforce_all cfg (replicate n args) now st = (rs, st')"
  shows "list_all (\<lambda>r. \<exists>cap wait. r = Some (Refused User_scope attacker cap wait)) rs \<and>
    (holds_tokens st' Company_scope victim now 0 \<or> n = 0)"
  using st run
proof (induction n arbitrary: st rs)
  case (Suc n)
  have w: "1 \<le> windowMs cfg" using company by (simp add: sane_def)
  have attacker: "truthy_text (Some attacker) = Some attacker" using attack(3) by simp
  obtain d st1 where company_call: "consume cfg Company_scope victim now st = (d, st1)" by fastforce
  have d: "\<exists>cap left. d = Admitted Company_scope victim cap left" "holds_tokens st1 Company_scope victim now (int n)"
    using consume_now [OF company _ Suc.prems(3,2) company_call] by simp_all
  have user1: "holds_tokens st1 User_scope attacker now 0"
    using consume_now_other [OF _ w Suc.prems(1) company_call] by simp
  obtain e st2 where user_call: "consume cfg User_scope attacker now st1 = (e, st2)" by fastforce
  have e: "\<exists>cap wait. e = Refused User_scope attacker cap wait" "holds_tokens st2 User_scope attacker now 0"
    using consume_now [OF user _ _ _ user_call, of 0] user1 user by (simp_all add: sane_def)
  have company2: "holds_tokens st2 Company_scope victim now (int n)"
    using consume_now_other [OF _ w d(2) user_call] by simp
  obtain rs2 st3 where rest: "enforce_all cfg (replicate n args) now st2 = (rs2, st3)" by fastforce
  have "enforceRateLimit cfg args now now st = (Some e, st2)"
    using attack(1,2,4) company_call user_call d(1) e(1) attacker
    by (auto simp: enforceRateLimit_def rejection_def simp del: truthy_text_Some)
  then have rs: "rs = Some e # rs2" "st' = st3" using Suc.prems(4) rest by simp_all
  have "int n \<le> c" using Suc.prems(3) by simp
  from Suc.IH [OF e(2) _ this rest [folded rs(2)]] company2
  show ?case using rs e(1) rest by (cases n) auto
qed simp

text \<open>
  C25: A caller who is over its own limit still uses up the bucket of whatever company it names: its requests are
  all refused, and then every caller of that company is refused too, however little it has sent.
\<close>

theorem tenant_starved:
  assumes "sane cfg Company_scope c" "sane cfg User_scope u"
    and "\<not> isRateLimitExempt (ea_pathname args)" "ea_userId args = Some attacker" "attacker \<noteq> []"
    and "truthy_text (map_option trim (ea_companyKey args)) = Some victim"
    and "holds_tokens st User_scope attacker now 0" "lm_buckets st (bucket_key Company_scope victim) = None"
    and "enforce_all cfg (replicate (nat c) args) now st = (rs, st')"
  shows "list_all (\<lambda>r. \<exists>cap wait. r = Some (Refused User_scope attacker cap wait)) rs \<and>
    (\<forall>other. \<not> isRateLimitExempt (ea_pathname other) \<longrightarrow> truthy_text (map_option trim (ea_companyKey other)) = Some victim \<longrightarrow>
      (\<exists>cap wait. fst (enforceRateLimit cfg other now now st') = Some (Refused Company_scope victim cap wait)))"
proof -
  have c: "1 \<le> c" using assms(1) by (simp add: sane_def)
  have drained: "list_all (\<lambda>r. \<exists>cap wait. r = Some (Refused User_scope attacker cap wait)) rs"
    "holds_tokens st' Company_scope victim now 0"
    using drain_company [OF assms(1-7) _ _ assms(9)] assms(8) c by simp_all
  have "\<exists>cap wait. fst (enforceRateLimit cfg other now now st') = Some (Refused Company_scope victim cap wait)"
    if "\<not> isRateLimitExempt (ea_pathname other)" "truthy_text (map_option trim (ea_companyKey other)) = Some victim" for other
  proof -
    obtain d st1 where run: "consume cfg Company_scope victim now st' = (d, st1)" by fastforce
    have "\<exists>cap wait. d = Refused Company_scope victim cap wait"
      using consume_now [OF assms(1) _ _ _ run, of 0] drained(2) c by simp
    then show ?thesis using that run by (auto simp: enforceRateLimit_def simp del: truthy_text_Some)
  qed
  then show ?thesis using drained(1) by blast
qed

definition sample_request :: http_request where
  "sample_request = \<lparr>rq_method = ''GET'', rq_pathname = ''/api/projects'', rq_headers = Map.empty, rq_remote_address = None, rq_body = []\<rparr>"

definition sample_args :: "string \<Rightarrow> enforce_args" where
  "sample_args user = \<lparr>ea_request = sample_request, ea_pathname = ''/api/projects'', ea_userId = Some user,
     ea_companyKey = Some ''acme''\<rparr>"

lemma tenant_starved_witness:
  "\<exists>cap wait. fst (enforceRateLimit DEFAULT_RATE_LIMIT_CONFIG (sample_args ''owner'') 5000 5000
      (snd (enforce_all DEFAULT_RATE_LIMIT_CONFIG (replicate 1000 (sample_args ''mallory'')) 5000
        \<lparr>lm_buckets = [bucket_key User_scope ''mallory'' \<mapsto> \<lparr>bk_tokens = Finite False 0, bk_updatedAt = 5000\<rparr>], lm_lastSweep = 0\<rparr>)))
    = Some (Refused Company_scope ''acme'' cap wait)"
proof -
  let ?st = "\<lparr>lm_buckets = [bucket_key User_scope ''mallory'' \<mapsto> \<lparr>bk_tokens = Finite False 0, bk_updatedAt = 5000\<rparr>],
    lm_lastSweep = 0\<rparr>"
  obtain rs st' where run: "enforce_all DEFAULT_RATE_LIMIT_CONFIG (replicate (nat 1000) (sample_args ''mallory'')) 5000 ?st = (rs, st')"
    by fastforce
  have key: "truthy_text (map_option trim (ea_companyKey (sample_args user))) = Some ''acme''" for user
    by (simp add: sample_args_def trim_def is_space_def)
  have path: "\<not> isRateLimitExempt (ea_pathname (sample_args user))" for user
    by (simp add: sample_args_def isRateLimitExempt_def starts_with_def segments_def)
  have "sane DEFAULT_RATE_LIMIT_CONFIG Company_scope 1000" "sane DEFAULT_RATE_LIMIT_CONFIG User_scope 100"
    by (simp_all add: sane_def DEFAULT_RATE_LIMIT_CONFIG_def)
  from tenant_starved [OF this path _ _ key _ _ run, of "''mallory''"]
  have "\<exists>cap wait. fst (enforceRateLimit DEFAULT_RATE_LIMIT_CONFIG (sample_args ''owner'') 5000 5000 st')
      = Some (Refused Company_scope ''acme'' cap wait)"
    using key path by (simp add: sample_args_def holds_tokens_def)
  then show ?thesis using run by (simp del: enforce_all.simps)
qed

end
