(* ===== verification/Idempotency.thy ===== *)
theory Idempotency
  imports Http_Request
begin

text \<open>
  The cache of responses behind the \<open>Idempotency-Key\<close> header (\<open>apps/api/src/idempotency.ts\<close>): the cache with its
  eviction, the check of the header, and the paths that take part.
\<close>

section \<open>The cache\<close>

record reply =
  rp_status :: int
  rp_body :: string

record cache_entry =
  ce_expiresAt :: int
  ce_response :: reply

text \<open>A \<open>Map\<close>: distinct keys in insertion order.\<close>

type_synonym idempotency_cache = "(string \<times> cache_entry) list"

definition DEFAULT_TTL_MS :: int where
  "DEFAULT_TTL_MS = 15 * 60 * 1000"

definition compositeKey :: "string \<Rightarrow> string \<Rightarrow> string" where
  "compositeKey companyId key = companyId @ '':'' @ key"

definition map_delete :: "string \<Rightarrow> idempotency_cache \<Rightarrow> idempotency_cache" where
  "map_delete k entries = filter (\<lambda>e. fst e \<noteq> k) entries"

definition map_store :: "string \<Rightarrow> cache_entry \<Rightarrow> idempotency_cache \<Rightarrow> idempotency_cache" where
  "map_store k v entries = (if k \<in> fst ` set entries then map (\<lambda>e. if fst e = k then (k, v) else e) entries
     else entries @ [(k, v)])"

definition evictExpired :: "int \<Rightarrow> idempotency_cache \<Rightarrow> idempotency_cache" where
  "evictExpired now entries = filter (\<lambda>(_, entry). \<not> ce_expiresAt entry \<le> now) entries"

definition cache_get :: "int \<Rightarrow> string \<Rightarrow> string \<Rightarrow> idempotency_cache \<Rightarrow> reply option \<times> idempotency_cache" where
  "cache_get now companyId key entries =
     (let composite = compositeKey companyId key in
      case map_of entries composite of None \<Rightarrow> (None, entries)
      | Some entry \<Rightarrow> if ce_expiresAt entry \<le> now then (None, map_delete composite entries)
          else (Some (ce_response entry), entries))"

definition cache_set :: "int \<Rightarrow> int \<Rightarrow> string \<Rightarrow> string \<Rightarrow> reply \<Rightarrow> idempotency_cache \<Rightarrow> idempotency_cache" where
  "cache_set ttl now companyId key response entries =
     map_store (compositeKey companyId key) \<lparr>ce_expiresAt = now + ttl, ce_response = response\<rparr>
       (if 1000 < length entries then evictExpired now entries else entries)"

section \<open>The header\<close>

definition MAX_KEY_LENGTH :: nat where
  "MAX_KEY_LENGTH = 255"

text \<open>\<open>Inl\<close> is the error text.\<close>

definition validateIdempotencyKey :: "header_value option \<Rightarrow> string + string" where
  "validateIdempotencyKey raw =
     (case raw of None \<Rightarrow> Inl ''missing''
      | Some (Many_values _) \<Rightarrow> Inl ''Idempotency-Key header must not be repeated''
      | Some (One_value s) \<Rightarrow>
          if trim s = [] then Inl ''Idempotency-Key header must not be empty''
          else if MAX_KEY_LENGTH < length (trim s) then Inl ''Idempotency-Key header must be 255 characters or fewer''
          else Inr (trim s))"

section \<open>The paths\<close>

definition exactCreates :: "string list" where
  "exactCreates = [''/api/companies'', ''/api/customers'', ''/api/workers'', ''/api/projects'', ''/api/pricing-profiles'',
     ''/api/bonus-rules'', ''/api/service-items'', ''/api/divisions'', ''/api/labor-entries'', ''/api/material-bills'',
     ''/api/inventory-items'', ''/api/inventory-locations'', ''/api/inventory-movements'', ''/api/rentals'',
     ''/api/rental-contracts'', ''/api/job-rental-lines'', ''/api/rental-billing-runs'', ''/api/scaffold-tags'',
     ''/api/damage-charges'', ''/api/shipments'', ''/api/notification-preferences'', ''/api/push-subscriptions'',
     ''/api/integrations/qbo/mappings'', ''/api/integrations/qbo/custom-fields'', ''/api/qbo-custom-fields'',
     ''/api/companycam/links'', ''/api/customer-portal-links'', ''/api/ai-insights'', ''/api/audit-events'',
     ''/api/notifications'', ''/api/assemblies'', ''/api/takeoff-tags'', ''/api/takeoff-drafts'', ''/api/blueprint-pages'',
     ''/api/scaffold-ops'', ''/api/companies//memberships'']"

definition project_creators :: "string list list" where
  "project_creators = [[''blueprints''], [''takeoff-drafts''], [''material-bills''], [''rental-contracts''], [''brief''],
     [''briefs''], [''daily-logs''], [''assignments''], [''takeoff'', ''measurement''], [''takeoff'', ''measurements''],
     [''estimate'', ''share'']]"

text \<open>\<open>[^/]+\<close> is a segment that is not empty.\<close>

definition isIdempotentPostPath :: "string \<Rightarrow> bool" where
  "isIdempotentPostPath pathname \<longleftrightarrow>
     (case segments pathname of parts \<Rightarrow>
        \<not> (2 \<le> length parts \<and> last parts = ''events'')
        \<and> \<not> starts_with ''/api/webhooks/'' pathname
        \<and> (pathname \<in> set exactCreates
           \<or> (\<exists>i \<in> set parts. i \<noteq> [] \<and> parts = [[], ''api'', ''companies'', i, ''memberships''])
           \<or> (\<exists>i \<in> set parts. i \<noteq> [] \<and> take 4 parts = [[], ''api'', ''projects'', i] \<and> drop 4 parts \<in> set project_creators)
           \<or> (\<exists>i \<in> set parts. i \<noteq> [] \<and> parts = [[], ''api'', ''blueprints'', i, ''versions''])))"

section \<open>What the cache remembers\<close>

lemma map_of_filter_keep: "map_of xs k = Some v \<Longrightarrow> distinct (map fst xs) \<Longrightarrow> P (k, v) \<Longrightarrow> map_of (filter P xs) k = Some v"
  by (induction xs) (auto simp: rev_image_eqI dest: map_of_SomeD)

lemma map_of_store [simp]: "map_of (map_store k v entries) j = (if j = k then Some v else map_of entries j)"
proof (cases "k \<in> fst ` set entries")
  case True
  have "map_of (map (\<lambda>e. if fst e = k then (k, v) else e) xs) j
      = (case map_of xs j of None \<Rightarrow> None | Some w \<Rightarrow> Some (if j = k then v else w))" for xs
    by (induction xs) auto
  moreover obtain w where "map_of entries k = Some w" using True by (metis map_of_eq_None_iff not_None_eq)
  ultimately show ?thesis using True by (auto simp: map_store_def split: option.splits)
next
  case False
  then have "map_of entries k = None" by (simp add: map_of_eq_None_iff)
  then show ?thesis using False by (auto simp: map_store_def map_add_def split: option.splits)
qed

lemma distinct_store [simp]: "distinct (map fst (map_store k v entries)) \<longleftrightarrow> distinct (map fst entries)"
proof (cases "k \<in> fst ` set entries")
  case True
  have "map fst (map (\<lambda>e. if fst e = k then (k, v) else e) xs) = map fst xs" for xs
    by (induction xs) auto
  then show ?thesis using True by (simp add: map_store_def del: map_map)
qed (auto simp: map_store_def)

lemma distinct_filter_keys: "distinct (map fst xs) \<Longrightarrow> distinct (map fst (filter P xs))"
  by (induction xs) (auto simp: image_iff)

text \<open>A response that is remembered until a time.\<close>

definition remembers :: "string \<Rightarrow> string \<Rightarrow> reply \<Rightarrow> int \<Rightarrow> idempotency_cache \<Rightarrow> bool" where
  "remembers companyId key response until entries \<longleftrightarrow> distinct (map fst entries) \<and>
     map_of entries (compositeKey companyId key) = Some \<lparr>ce_expiresAt = until, ce_response = response\<rparr>"

lemma cache_set_remembers:
  "distinct (map fst entries) \<Longrightarrow> remembers companyId key response (now + ttl) (cache_set ttl now companyId key response entries)"
  by (auto simp: remembers_def cache_set_def evictExpired_def intro: distinct_filter_keys)

lemma cache_get_remembered:
  "remembers companyId key response until entries \<Longrightarrow> now < until \<Longrightarrow> cache_get now companyId key entries = (Some response, entries)"
  by (simp add: remembers_def cache_get_def)

lemma cache_get_other:
  assumes "remembers companyId key response until entries" "now < until" "cache_get now c k entries = (r, entries')"
  shows "remembers companyId key response until entries'"
proof (cases "compositeKey c k = compositeKey companyId key")
  case True
  then show ?thesis using assms by (auto simp: remembers_def cache_get_def)
next
  case False
  then show ?thesis using assms
    by (auto simp: remembers_def cache_get_def Let_def map_delete_def distinct_filter_keys intro!: map_of_filter_keep
        split: option.splits if_splits)
qed

lemma cache_set_other:
  assumes "remembers companyId key response until entries" "now < until" "compositeKey c k \<noteq> compositeKey companyId key"
  shows "remembers companyId key response until (cache_set ttl now c k r entries)"
  using assms
  by (auto simp: remembers_def cache_set_def evictExpired_def distinct_filter_keys intro!: map_of_filter_keep)

lemma cache_miss_again: "cache_get now c k entries = (None, entries') \<Longrightarrow> cache_get now c k entries' = (None, entries')"
proof -
  have "map_of (map_delete j entries) j = None" for j by (induction entries) (auto simp: map_delete_def)
  then show "cache_get now c k entries = (None, entries') \<Longrightarrow> cache_get now c k entries' = (None, entries')"
    by (auto simp: cache_get_def Let_def split: option.splits if_splits)
qed

end
