(* ===== verification/Role_Admin.thy ===== *)
theory Role_Admin
  imports Capabilities Ledger_Calls
begin

text \<open>
  The custom roles of a company: the authority \<open>getCompany\<close> of \<open>apps/api/src/server.ts\<close> gives a caller, and the
  transactions and routes of \<open>apps/api/src/routes/company-roles.ts\<close> that edit roles, assign them to memberships
  and grant capabilities.  The check of an assignment locks no role, so it is a step of its own beside the
  write.  The lemmas show what an administrator of one company can and cannot reach, and where
  the result differs from what the comments promise.
\<close>

section \<open>Tables\<close>

record membership_row =
  mm_id :: string
  mm_company_id :: string
  mm_clerk_user_id :: string
  mm_role :: string
  mm_custom_role_id :: "string option"

record custom_role_row =
  cr_id :: string
  cr_company_id :: string
  cr_name :: string
  cr_inherit_from :: builtin_role
  cr_created_by :: string
  cr_deleted :: bool

record grant_row =
  gr_custom_role_id :: string
  gr_company_id :: string
  gr_action :: string
  gr_constraints :: "(string \<times> constraint_value) list option"

record role_db =
  rb_memberships :: "membership_row list"
  rb_roles :: "custom_role_row list"
  rb_grants :: "grant_row list"
  rb_audit :: "audit_call list"

text \<open>The row of a role that is live in the company.\<close>

definition live_role :: "string \<Rightarrow> string \<Rightarrow> role_db \<Rightarrow> custom_role_row option" where
  "live_role companyId roleId db =
     find (\<lambda>r. cr_id r = roleId \<and> cr_company_id r = companyId \<and> \<not> cr_deleted r) (rb_roles db)"

definition role_grants :: "string \<Rightarrow> string \<Rightarrow> role_db \<Rightarrow> grant_row list" where
  "role_grants companyId roleId db =
     filter (\<lambda>g. gr_custom_role_id g = roleId \<and> gr_company_id g = companyId) (rb_grants db)"

section \<open>The authority of a caller\<close>

definition loadCustomRole :: "string \<Rightarrow> string \<Rightarrow> role_db \<Rightarrow> custom_role_authority option" where
  "loadCustomRole companyId customRoleId db =
     map_option (\<lambda>r. \<lparr>cu_effectiveBuiltin = cr_inherit_from r,
         cu_grants = map (\<lambda>g. \<lparr>pg_action = gr_action g, pg_constraints = normalizeGrantConstraints (gr_constraints g)\<rparr>)
           (role_grants companyId customRoleId db)\<rparr>)
       (live_role companyId customRoleId db)"

definition membership_authority :: "membership_row \<Rightarrow> role_db \<Rightarrow> company_role_authority" where
  "membership_authority m db =
     resolveCompanyRoleAuthority (normalizeCompanyRole (mm_role m))
       (case some_text (mm_custom_role_id m) of None \<Rightarrow> None
        | Some roleId \<Rightarrow> loadCustomRole (mm_company_id m) roleId db)"

text \<open>The part of \<open>getCompany\<close> after the company is found: \<open>None\<close> is a caller without membership.\<close>

definition caller_authority :: "string \<Rightarrow> string \<Rightarrow> role_db \<Rightarrow> company_role_authority option" where
  "caller_authority companyId userId db =
     map_option (\<lambda>m. membership_authority m db)
       (find (\<lambda>m. mm_company_id m = companyId \<and> mm_clerk_user_id m = userId) (rb_memberships db))"

text \<open>The capability check the dispatcher makes for a membership.\<close>

definition enforced_capability :: "membership_row \<Rightarrow> role_db \<Rightarrow> field_request_capability \<Rightarrow> bool" where
  "enforced_capability m db c \<longleftrightarrow>
     (let auth = membership_authority m db
      in companyCapabilityGranted (au_effectiveRole auth) (map pg_action (au_grants auth)) (Field_request c))"

section \<open>Validation\<close>

definition is_integer :: "double \<Rightarrow> bool" where
  "is_integer x \<longleftrightarrow> (case x of Finite s q \<Rightarrow> of_int \<lfloor>q\<rfloor> = q | _ \<Rightarrow> False)"

fun check_constraints :: "permission_action \<Rightarrow> string \<Rightarrow> constraints \<Rightarrow> js_error option" where
  "check_constraints action expectedKey [] = None"
| "check_constraints action expectedKey ((key, value) # rest) =
     (if key \<noteq> expectedKey then Some (HttpError 400 (''action '' @ action_text action @ '' only accepts the constraint key ''
        @ expectedKey @ '', got '' @ key))
      else if \<not> is_integer value then Some (HttpError 400 (''constraint '' @ key @ '' must be an integer, got ''
        @ show_number value))
      else if num_less value (num_of_int 0) then Some (HttpError 400 (''constraint '' @ key
        @ '' must be non-negative, got '' @ show_number value))
      else check_constraints action expectedKey rest)"

record parsed_grant =
  gp_action :: permission_action
  gp_constraints :: "constraints option"

definition validateGrant :: "parsed_grant \<Rightarrow> parsed_grant result" where
  "validateGrant grant =
     (case capped (gp_constraints grant) of None \<Rightarrow> Inr (grant\<lparr>gp_constraints := None\<rparr>)
      | Some raw \<Rightarrow>
          (case CONSTRAINABLE_ACTIONS (gp_action grant) of
             None \<Rightarrow> Inl (HttpError 400 (''action '' @ action_text (gp_action grant)
               @ '' is not constrainable '' @ [CHR 0xE2, CHR 0x80, CHR 0x94] @ '' remove its constraints''))
           | Some expectedKey \<Rightarrow>
               (case check_constraints (gp_action grant) expectedKey raw of Some e \<Rightarrow> Inl e
                | None \<Rightarrow> Inr (grant\<lparr>gp_constraints := Some raw\<rparr>))))"

fun validate_loop :: "permission_action list \<Rightarrow> parsed_grant list \<Rightarrow> parsed_grant list result" where
  "validate_loop seen [] = Inr []"
| "validate_loop seen (grant # rest) =
     (if gp_action grant \<in> set seen
      then Inl (HttpError 400 (''duplicate grant for action '' @ action_text (gp_action grant)))
      else case validateGrant grant of Inl e \<Rightarrow> Inl e
        | Inr g \<Rightarrow> map_result (Cons g) (validate_loop (gp_action grant # seen) rest))"

definition validateGrants :: "parsed_grant list \<Rightarrow> parsed_grant list result" where
  "validateGrants = validate_loop []"

section \<open>Transactions\<close>

definition audit :: "string \<Rightarrow> string \<Rightarrow> string \<Rightarrow> string \<Rightarrow> string \<Rightarrow> role_db \<Rightarrow> role_db" where
  "audit companyId actor entityType entityId action db = db\<lparr>rb_audit := rb_audit db @
     [\<lparr>ac_company_id = companyId, ac_actor_user_id = actor, ac_entity_type = entityType, ac_entity_id = entityId,
       ac_action = action\<rparr>]\<rparr>"

text \<open>\<open>unique (company_id, lower(name)) where deleted_at is null\<close> and \<open>unique (custom_role_id, action)\<close>\<close>

definition name_taken :: "string \<Rightarrow> string \<Rightarrow> string option \<Rightarrow> role_db \<Rightarrow> bool" where
  "name_taken companyId name except db \<longleftrightarrow>
     list_ex (\<lambda>r. cr_company_id r = companyId \<and> to_lower (cr_name r) = to_lower name \<and> \<not> cr_deleted r
       \<and> Some (cr_id r) \<noteq> except) (rb_roles db)"

definition has_grant :: "string \<Rightarrow> string \<Rightarrow> role_db \<Rightarrow> bool" where
  "has_grant roleId action db \<longleftrightarrow> list_ex (\<lambda>g. gr_custom_role_id g = roleId \<and> gr_action g = action) (rb_grants db)"

definition insert_role :: "string \<Rightarrow> string \<Rightarrow> string \<Rightarrow> builtin_role \<Rightarrow> string \<Rightarrow> role_db \<Rightarrow> role_db" where
  "insert_role uuid companyId name inheritFrom actor db = db\<lparr>rb_roles := rb_roles db @
     [\<lparr>cr_id = uuid, cr_company_id = companyId, cr_name = name, cr_inherit_from = inheritFrom, cr_created_by = actor,
       cr_deleted = False\<rparr>]\<rparr>"

fun insertGrants :: "string \<Rightarrow> string \<Rightarrow> parsed_grant list \<Rightarrow> role_db \<Rightarrow> role_db result" where
  "insertGrants companyId roleId [] db = Inr db"
| "insertGrants companyId roleId (g # rest) db =
     (if has_grant roleId (action_text (gp_action g)) db
      then Inl (Error ''duplicate key value violates unique constraint'')
      else insertGrants companyId roleId rest (db\<lparr>rb_grants := rb_grants db @
        [\<lparr>gr_custom_role_id = roleId, gr_company_id = companyId, gr_action = action_text (gp_action g),
          gr_constraints = map_option (map (\<lambda>(k, v). (k, Amount (Numeric v)))) (gp_constraints g)\<rparr>]\<rparr>))"

definition createCustomRoleTx ::
  "string \<Rightarrow> string \<Rightarrow> string \<Rightarrow> builtin_role \<Rightarrow> parsed_grant list \<Rightarrow> string \<Rightarrow> role_db \<Rightarrow> role_db result" where
  "createCustomRoleTx uuid companyId name inheritFrom grants actor db =
     (if name_taken companyId name None db then Inl (HttpError 409 ''a role with that name already exists'')
      else map_result (audit companyId actor ''company_role'' uuid ''create'')
        (insertGrants companyId uuid grants (insert_role uuid companyId name inheritFrom actor db)))"

definition rename_role :: "string \<Rightarrow> string \<Rightarrow> string \<Rightarrow> role_db \<Rightarrow> role_db" where
  "rename_role companyId roleId name db = db\<lparr>rb_roles := map (\<lambda>r. if cr_id r = roleId \<and> cr_company_id r = companyId
     then r\<lparr>cr_name := name\<rparr> else r) (rb_roles db)\<rparr>"

definition patchCustomRoleTx ::
  "string \<Rightarrow> string \<Rightarrow> string option \<Rightarrow> parsed_grant list option \<Rightarrow> string \<Rightarrow> role_db \<Rightarrow> role_db result" where
  "patchCustomRoleTx companyId roleId name grants actor db =
     (case live_role companyId roleId db of None \<Rightarrow> Inl (HttpError 404 ''custom role not found'')
      | Some existing \<Rightarrow>
          (case (case name of None \<Rightarrow> Inr db
             | Some n \<Rightarrow> if n = cr_name existing then Inr db
                 else if name_taken companyId n (Some roleId) db
                 then Inl (HttpError 409 ''a role with that name already exists'')
                 else Inr (rename_role companyId roleId n db)) of
             Inl e \<Rightarrow> Inl e
           | Inr db1 \<Rightarrow>
               map_result (audit companyId actor ''company_role'' roleId ''update'')
                 (case grants of None \<Rightarrow> Inr db1
                  | Some gs \<Rightarrow> insertGrants companyId roleId gs (db1\<lparr>rb_grants := filter (\<lambda>g. \<not> (gr_custom_role_id g = roleId
                      \<and> gr_company_id g = companyId)) (rb_grants db1)\<rparr>))))"

definition deleteCustomRoleTx :: "string \<Rightarrow> string \<Rightarrow> string \<Rightarrow> role_db \<Rightarrow> role_db result" where
  "deleteCustomRoleTx companyId roleId actor db =
     (case live_role companyId roleId db of None \<Rightarrow> Inl (HttpError 404 ''custom role not found'')
      | Some _ \<Rightarrow> Inr (audit companyId actor ''company_role'' roleId ''delete'' (db\<lparr>
          rb_roles := map (\<lambda>r. if cr_id r = roleId \<and> cr_company_id r = companyId \<and> \<not> cr_deleted r
            then r\<lparr>cr_deleted := True\<rparr> else r) (rb_roles db),
          rb_memberships := map (\<lambda>m. if mm_company_id m = companyId \<and> mm_custom_role_id m = Some roleId
            then m\<lparr>mm_custom_role_id := None\<rparr> else m) (rb_memberships db)\<rparr>)))"

definition loadMembership :: "string \<Rightarrow> string \<Rightarrow> role_db \<Rightarrow> membership_row option" where
  "loadMembership companyId membershipId db =
     find (\<lambda>m. mm_id m = membershipId \<and> mm_company_id m = companyId) (rb_memberships db)"

definition set_membership :: "string \<Rightarrow> string \<Rightarrow> (membership_row \<Rightarrow> membership_row) \<Rightarrow> role_db \<Rightarrow> role_db" where
  "set_membership companyId membershipId f db = db\<lparr>rb_memberships :=
     map (\<lambda>m. if mm_id m = membershipId \<and> mm_company_id m = companyId then f m else m) (rb_memberships db)\<rparr>"

text \<open>
  \<open>assignMembershipRoleTx\<close> holds the row lock of the membership; the role it links is read before the write, and
  without a lock.  What it decides to write and the write are two definitions, as a deletion of the role can
  commit between them.
\<close>

definition check_assignment ::
  "string \<Rightarrow> string \<Rightarrow> string option \<Rightarrow> builtin_role option \<Rightarrow> role_db \<Rightarrow> (string \<times> string option) result" where
  "check_assignment companyId membershipId customRoleId builtinRole db =
     (case loadMembership companyId membershipId db of None \<Rightarrow> Inl (HttpError 404 ''membership not found'')
      | Some m \<Rightarrow>
          (case builtinRole of
             Some b \<Rightarrow> Inr (role_text (builtinToCompanyRole b), None)
           | None \<Rightarrow> (case some_text customRoleId of
                 None \<Rightarrow> Inr (mm_role m, None)
               | Some roleId \<Rightarrow> (case live_role companyId roleId db of
                     None \<Rightarrow> Inl (HttpError 404 ''custom role not found'')
                   | Some _ \<Rightarrow> Inr (mm_role m, Some roleId)))))"

definition write_assignment :: "string \<Rightarrow> string \<Rightarrow> string \<times> string option \<Rightarrow> string \<Rightarrow> role_db \<Rightarrow> role_db" where
  "write_assignment companyId membershipId next actor db =
     audit companyId actor ''company_membership'' membershipId ''assign_role''
       (set_membership companyId membershipId
          (\<lambda>m. m\<lparr>mm_role := fst next, mm_custom_role_id := snd next\<rparr>) db)"

definition assignMembershipRoleTx ::
  "string \<Rightarrow> string \<Rightarrow> string option \<Rightarrow> builtin_role option \<Rightarrow> string \<Rightarrow> role_db \<Rightarrow> role_db result" where
  "assignMembershipRoleTx companyId membershipId customRoleId builtinRole actor db =
     map_result (\<lambda>next. write_assignment companyId membershipId next actor db)
       (check_assignment companyId membershipId customRoleId builtinRole db)"

lemmas assign_defs = assignMembershipRoleTx_def check_assignment_def write_assignment_def

text \<open>
  \<open>ensureMembershipCustomRole\<close>.  When the name is taken the insert fails inside the transaction, and the
  lookup that is to recover from it fails too, as Postgres refuses every statement of an aborted transaction.
\<close>

definition caps_role_name :: "string \<Rightarrow> string" where
  "caps_role_name membershipId = ''caps:'' @ membershipId"

definition ensureMembershipCustomRole ::
  "string \<Rightarrow> string \<Rightarrow> membership_row \<Rightarrow> string \<Rightarrow> role_db \<Rightarrow> (string \<times> role_db) result" where
  "ensureMembershipCustomRole uuid companyId m actor db =
     (case some_text (mm_custom_role_id m) of Some roleId \<Rightarrow> Inr (roleId, db)
      | None \<Rightarrow>
          if name_taken companyId (caps_role_name (mm_id m)) None db
          then Inl (Error ''current transaction is aborted, commands ignored until end of transaction block'')
          else Inr (uuid, set_membership companyId (mm_id m) (\<lambda>m. m\<lparr>mm_custom_role_id := Some uuid\<rparr>)
            (insert_role uuid companyId (caps_role_name (mm_id m))
              (companyRoleToBuiltin (normalizeCompanyRole (mm_role m))) actor db)))"

record capabilities_view =
  cv_membership_id :: string
  cv_role :: company_role
  cv_role_default :: "field_request_capability list"
  cv_granted :: "field_request_capability list"
  cv_effective :: "field_request_capability list"

definition sortCaps :: "field_request_capability list \<Rightarrow> field_request_capability list" where
  "sortCaps caps = filter (\<lambda>c. c \<in> set caps) FIELD_REQUEST_CAPABILITIES"

definition selectFieldRequestGrants :: "string \<Rightarrow> string option \<Rightarrow> role_db \<Rightarrow> field_request_capability list" where
  "selectFieldRequestGrants companyId customRoleId db =
     (case some_text customRoleId of None \<Rightarrow> []
      | Some roleId \<Rightarrow> sortCaps (List.map_filter field_request_of (map gr_action (role_grants companyId roleId db))))"

definition membershipCapabilitiesView :: "membership_row \<Rightarrow> field_request_capability list \<Rightarrow> capabilities_view" where
  "membershipCapabilitiesView m granted =
     (let role = normalizeCompanyRole (mm_role m)
      in \<lparr>cv_membership_id = mm_id m, cv_role = role, cv_role_default = sortCaps (DEFAULT_COMPANY_CAPABILITIES role),
          cv_granted = sortCaps granted,
          cv_effective = sortCaps (mergeCompanyCapabilities role (map field_request_text granted))\<rparr>)"

definition readMembershipCapabilitiesTx :: "string \<Rightarrow> string \<Rightarrow> role_db \<Rightarrow> capabilities_view result" where
  "readMembershipCapabilitiesTx companyId membershipId db =
     (case loadMembership companyId membershipId db of None \<Rightarrow> Inl (HttpError 404 ''membership not found'')
      | Some m \<Rightarrow> Inr (membershipCapabilitiesView m (selectFieldRequestGrants companyId (mm_custom_role_id m) db)))"

definition grantMembershipCapabilityTx ::
  "string \<Rightarrow> string \<Rightarrow> string \<Rightarrow> field_request_capability \<Rightarrow> string \<Rightarrow> role_db \<Rightarrow> (capabilities_view \<times> role_db) result" where
  "grantMembershipCapabilityTx uuid companyId membershipId capability actor db =
     (case loadMembership companyId membershipId db of None \<Rightarrow> Inl (HttpError 404 ''membership not found'')
      | Some m \<Rightarrow>
          if capability \<in> set (DEFAULT_COMPANY_CAPABILITIES (normalizeCompanyRole (mm_role m)))
          then Inr (membershipCapabilitiesView m (selectFieldRequestGrants companyId (mm_custom_role_id m) db), db)
          else (case ensureMembershipCustomRole uuid companyId m actor db of Inl e \<Rightarrow> Inl e
            | Inr (roleId, db1) \<Rightarrow>
                (let db2 = (if has_grant roleId (field_request_text capability) db1 then db1
                     else db1\<lparr>rb_grants := rb_grants db1 @ [\<lparr>gr_custom_role_id = roleId, gr_company_id = companyId,
                       gr_action = field_request_text capability, gr_constraints = None\<rparr>]\<rparr>);
                     db3 = audit companyId actor ''company_membership'' membershipId ''grant_capability'' db2
                 in Inr (membershipCapabilitiesView m (selectFieldRequestGrants companyId (Some roleId) db3), db3))))"

definition revokeMembershipCapabilityTx ::
  "string \<Rightarrow> string \<Rightarrow> field_request_capability \<Rightarrow> string \<Rightarrow> role_db \<Rightarrow> (capabilities_view \<times> role_db) result" where
  "revokeMembershipCapabilityTx companyId membershipId capability actor db =
     (case loadMembership companyId membershipId db of None \<Rightarrow> Inl (HttpError 404 ''membership not found'')
      | Some m \<Rightarrow>
          (let hit = (\<lambda>g. Some (gr_custom_role_id g) = some_text (mm_custom_role_id m) \<and> gr_company_id g = companyId
                 \<and> gr_action g = field_request_text capability);
               db1 = (if list_ex hit (rb_grants db)
                 then audit companyId actor ''company_membership'' membershipId ''revoke_capability''
                   (db\<lparr>rb_grants := filter (\<lambda>g. \<not> hit g) (rb_grants db)\<rparr>) else db)
           in Inr (membershipCapabilitiesView m (selectFieldRequestGrants companyId (mm_custom_role_id m) db1), db1)))"

section \<open>Routes\<close>

text \<open>The requests after their bodies were parsed; ids the database makes come with the request.\<close>

datatype role_request =
    Create_role string string builtin_role "parsed_grant list"
  | Patch_role string "string option" "parsed_grant list option"
  | Delete_role string
  | Assign_role string "string option" "builtin_role option"
  | Grant_capability string string field_request_capability
  | Revoke_capability string field_request_capability

definition not_admin :: "string \<Rightarrow> string \<Rightarrow> role_db \<Rightarrow> bool" where
  "not_admin companyId userId db \<longleftrightarrow>
     (case find (\<lambda>m. mm_company_id m = companyId \<and> mm_clerk_user_id m = userId) (rb_memberships db) of
        None \<Rightarrow> True | Some m \<Rightarrow> normalizeCompanyRole (mm_role m) \<noteq> Admin)"

definition role_tx :: "string \<Rightarrow> string \<Rightarrow> role_request \<Rightarrow> role_db \<Rightarrow> role_db result" where
  "role_tx companyId userId request db =
     (case request of
        Create_role uuid name inheritFrom grants \<Rightarrow>
          (case validateGrants grants of Inl e \<Rightarrow> Inl e
           | Inr gs \<Rightarrow> createCustomRoleTx uuid companyId name inheritFrom gs userId db)
      | Patch_role roleId name grants \<Rightarrow>
          (case (case grants of None \<Rightarrow> Inr None | Some gs \<Rightarrow> map_result Some (validateGrants gs)) of Inl e \<Rightarrow> Inl e
           | Inr gs \<Rightarrow> patchCustomRoleTx companyId roleId name gs userId db)
      | Delete_role roleId \<Rightarrow> deleteCustomRoleTx companyId roleId userId db
      | Assign_role membershipId customRoleId builtinRole \<Rightarrow>
          if builtinRole \<noteq> None \<and> some_text customRoleId \<noteq> None
          then Inl (HttpError 400 ''supply either custom_role_id or builtin_role, not both'')
          else assignMembershipRoleTx companyId membershipId customRoleId builtinRole userId db
      | Grant_capability uuid membershipId capability \<Rightarrow>
          map_result snd (grantMembershipCapabilityTx uuid companyId membershipId capability userId db)
      | Revoke_capability membershipId capability \<Rightarrow>
          map_result snd (revokeMembershipCapabilityTx companyId membershipId capability userId db))"

definition handleCompanyRoleRoutes :: "string \<Rightarrow> string \<Rightarrow> role_request \<Rightarrow> role_db \<Rightarrow> role_db result" where
  "handleCompanyRoleRoutes companyId userId request db =
     (if not_admin companyId userId db then Inl (HttpError 403 ''admin role required'')
      else role_tx companyId userId request db)"

text \<open>Requests of any company and user one after the other; a refused one is rolled back.\<close>

type_synonym role_call = "string \<times> string \<times> role_request"

definition role_call :: "role_call \<Rightarrow> role_db \<Rightarrow> role_db" where
  "role_call c db = (case c of (companyId, userId, request) \<Rightarrow>
     (case handleCompanyRoleRoutes companyId userId request db of Inl _ \<Rightarrow> db | Inr db' \<Rightarrow> db'))"

definition role_calls :: "role_call list \<Rightarrow> role_db \<Rightarrow> role_db" where
  "role_calls calls db = fold role_call calls db"

text \<open>A company with an administrator and two members of one custom role.\<close>

definition sample_member :: "string \<Rightarrow> string \<Rightarrow> string \<Rightarrow> string option \<Rightarrow> membership_row" where
  "sample_member i user role customRole = \<lparr>mm_id = i, mm_company_id = ''co'', mm_clerk_user_id = user, mm_role = role,
     mm_custom_role_id = customRole\<rparr>"

definition sample_roles :: role_db where
  "sample_roles = \<lparr>rb_memberships = [sample_member ''m1'' ''ann'' ''admin'' None, sample_member ''m2'' ''bo'' ''member'' (Some ''r''),
       sample_member ''m3'' ''cy'' ''member'' (Some ''r''), sample_member ''m4'' ''dee'' ''member'' None,
       sample_member ''m5'' ''eve'' ''admin'' (Some ''r'')],
     rb_roles = [\<lparr>cr_id = ''r'', cr_company_id = ''co'', cr_name = ''Helpers'', cr_inherit_from = Crew,
       cr_created_by = ''ann'', cr_deleted = False\<rparr>],
     rb_grants = [], rb_audit = []\<rparr>"

lemma not_isl: "\<not> isl r \<Longrightarrow> \<exists>x. r = Inr x"
  by (cases r) auto

section \<open>What one company's administrators reach\<close>

definition of_company :: "string \<Rightarrow> role_db \<Rightarrow> role_db" where
  "of_company c db = \<lparr>rb_memberships = filter (\<lambda>m. mm_company_id m = c) (rb_memberships db),
     rb_roles = filter (\<lambda>r. cr_company_id r = c) (rb_roles db),
     rb_grants = filter (\<lambda>g. gr_company_id g = c) (rb_grants db),
     rb_audit = filter (\<lambda>a. ac_company_id a = c) (rb_audit db)\<rparr>"

lemma filter_map_other:
  "(\<And>x. x \<in> set xs \<Longrightarrow> P (f x) \<longleftrightarrow> P x) \<Longrightarrow> (\<And>x. x \<in> set xs \<Longrightarrow> P x \<Longrightarrow> f x = x) \<Longrightarrow> filter P (map f xs) = filter P xs"
  by (induction xs) auto

lemma of_company_steps:
  assumes "c \<noteq> companyId"
  shows "of_company c (audit companyId u t i a db) = of_company c db"
    and "of_company c (insert_role uuid companyId n b u db) = of_company c db"
    and "of_company c (rename_role companyId r n db) = of_company c db"
    and "(\<And>m. mm_company_id (f m) = mm_company_id m) \<Longrightarrow> of_company c (set_membership companyId i f db) = of_company c db"
    and "insertGrants companyId r gs db = Inr db' \<Longrightarrow> of_company c db' = of_company c db"
proof -
  show "of_company c (audit companyId u t i a db) = of_company c db"
    "of_company c (insert_role uuid companyId n b u db) = of_company c db"
    using assms by (simp_all add: of_company_def audit_def insert_role_def)
  show "of_company c (rename_role companyId r n db) = of_company c db"
    using assms by (auto simp: of_company_def rename_role_def intro!: filter_map_other)
  show "(\<And>m. mm_company_id (f m) = mm_company_id m) \<Longrightarrow> of_company c (set_membership companyId i f db) = of_company c db"
    using assms by (auto simp: of_company_def set_membership_def intro!: filter_map_other)
  show "insertGrants companyId r gs db = Inr db' \<Longrightarrow> of_company c db' = of_company c db"
    using assms by (induction gs arbitrary: db) (auto simp: of_company_def split: if_splits)
qed

lemma of_company_grants:
  "c \<noteq> companyId \<Longrightarrow> (\<And>g. \<not> P g \<Longrightarrow> gr_company_id g = companyId) \<Longrightarrow>
    of_company c (db\<lparr>rb_grants := filter P (rb_grants db)\<rparr>) = of_company c db"
  by (auto simp: of_company_def intro!: filter_cong)

lemma of_company_clear:
  "c \<noteq> companyId \<Longrightarrow>
    of_company c (db\<lparr>rb_grants := filter (\<lambda>g. gr_custom_role_id g = r \<longrightarrow> gr_company_id g \<noteq> companyId) (rb_grants db)\<rparr>)
      = of_company c db"
  by (rule of_company_grants) auto

lemma of_company_grant:
  "c \<noteq> gr_company_id g \<Longrightarrow> of_company c (db\<lparr>rb_grants := rb_grants db @ [g]\<rparr>) = of_company c db"
  by (simp add: of_company_def)

lemma map_result_eq_Inr: "map_result f r = Inr y \<longleftrightarrow> (\<exists>x. r = Inr x \<and> y = f x)"
  by (cases r) (auto simp: map_result_def)

lemma create_other_company:
  "c \<noteq> companyId \<Longrightarrow> createCustomRoleTx uuid companyId n b gs u db = Inr db' \<Longrightarrow> of_company c db' = of_company c db"
  by (auto simp: createCustomRoleTx_def map_result_eq_Inr of_company_steps split: if_splits)

lemma patch_other_company:
  "c \<noteq> companyId \<Longrightarrow> patchCustomRoleTx companyId r n gs u db = Inr db' \<Longrightarrow> of_company c db' = of_company c db"
  by (auto simp: patchCustomRoleTx_def map_result_eq_Inr of_company_steps of_company_clear split: if_splits option.splits)

lemma delete_other_company:
  assumes "c \<noteq> companyId" "deleteCustomRoleTx companyId r u db = Inr db'"
  shows "of_company c db' = of_company c db"
  using assms by (auto simp: deleteCustomRoleTx_def of_company_steps split: option.splits)
    (auto simp: of_company_def intro!: filter_map_other)

lemma assign_other_company:
  "c \<noteq> companyId \<Longrightarrow> assignMembershipRoleTx companyId i r b u db = Inr db' \<Longrightarrow> of_company c db' = of_company c db"
  by (auto simp: assign_defs map_result_eq_Inr of_company_steps split: option.splits)

lemma ensure_other_company:
  "c \<noteq> companyId \<Longrightarrow> ensureMembershipCustomRole uuid companyId m u db = Inr (r, db') \<Longrightarrow> of_company c db' = of_company c db"
  by (auto simp: ensureMembershipCustomRole_def of_company_steps split: option.splits if_splits)

lemma grant_other_company:
  "c \<noteq> companyId \<Longrightarrow> grantMembershipCapabilityTx uuid companyId i cap u db = Inr (v, db') \<Longrightarrow> of_company c db' = of_company c db"
  using ensure_other_company [of c companyId uuid]
  by (auto simp: grantMembershipCapabilityTx_def Let_def of_company_steps of_company_grant
      split: option.splits if_splits sum.splits)

lemma revoke_other_company:
  "c \<noteq> companyId \<Longrightarrow> revokeMembershipCapabilityTx companyId i cap u db = Inr (v, db') \<Longrightarrow> of_company c db' = of_company c db"
  by (auto simp: revokeMembershipCapabilityTx_def Let_def of_company_steps split: option.splits if_splits
      intro!: of_company_grants)

lemma route_other_company:
  assumes "c \<noteq> companyId" "handleCompanyRoleRoutes companyId u request db = Inr db'"
  shows "of_company c db' = of_company c db"
  using assms
  by (auto simp: handleCompanyRoleRoutes_def role_tx_def map_result_eq_Inr split: if_splits role_request.splits sum.splits
      intro: create_other_company patch_other_company delete_other_company assign_other_company grant_other_company
        revoke_other_company)

lemma find_in_filter: "(\<And>x. P x \<Longrightarrow> Q x) \<Longrightarrow> find P (filter Q xs) = find P xs"
  by (induction xs) auto

lemma live_role_of_company [simp]: "live_role c r (of_company c db) = live_role c r db"
  unfolding live_role_def of_company_def role_db.simps by (rule find_in_filter) simp

lemma role_grants_of_company [simp]: "role_grants c r (of_company c db) = role_grants c r db"
  by (auto simp: role_grants_def of_company_def intro!: filter_cong)

lemma caller_authority_of_company: "caller_authority c user (of_company c db) = caller_authority c user db"
proof -
  have "membership_authority m (of_company c db) = membership_authority m db" if "mm_company_id m = c" for m
    using that by (auto simp: membership_authority_def loadCustomRole_def split: option.splits)
  moreover have "find (\<lambda>m. mm_company_id m = c \<and> mm_clerk_user_id m = user) (rb_memberships (of_company c db)) =
      find (\<lambda>m. mm_company_id m = c \<and> mm_clerk_user_id m = user) (rb_memberships db)"
    unfolding of_company_def role_db.simps by (rule find_in_filter) simp
  moreover have "find (\<lambda>m. mm_company_id m = c \<and> mm_clerk_user_id m = user) (rb_memberships db) = Some m \<Longrightarrow>
      mm_company_id m = c" for m by (auto simp: find_Some_iff)
  ultimately show ?thesis
    unfolding caller_authority_def by (cases "find (\<lambda>m. mm_company_id m = c \<and> mm_clerk_user_id m = user) (rb_memberships db)") simp_all
qed

text \<open>
  C16: Whatever the administrators of other companies do to their roles, memberships and grants, the rows of a
  company stay as they are, and so does the authority of each of its members.
\<close>

theorem role_requests_isolated:
  assumes "list_all (\<lambda>(companyId, _, _). companyId \<noteq> c) calls"
  shows "of_company c (role_calls calls db) = of_company c db \<and>
    caller_authority c user (role_calls calls db) = caller_authority c user db"
proof -
  have "of_company c (role_calls calls db) = of_company c db"
    using assms
  proof (induction calls arbitrary: db)
    case (Cons call calls)
    then have "of_company c (role_call call db) = of_company c db"
      using route_other_company [OF not_sym] by (auto simp: role_call_def split: prod.splits sum.splits)
    then show ?case using Cons by (simp add: role_calls_def)
  qed (simp add: role_calls_def)
  then show ?thesis using caller_authority_of_company by metis
qed

lemma role_requests_isolated_witness:
  "of_company ''co'' (role_calls [(''other'', ''zed'', Delete_role ''r''), (''other'', ''ann'', Assign_role ''m2'' None (Some Owner))]
     sample_roles) = of_company ''co'' sample_roles"
  using role_requests_isolated [of "''co''" "[(''other'', ''zed'', Delete_role ''r''),
    (''other'', ''ann'', Assign_role ''m2'' None (Some Owner))]" sample_roles] by simp

section \<open>Links to live roles\<close>

text \<open>
  Transactions overlap.  Each is one step, at its commit, but for an assignment: it reads whether the role is
  live and writes the link later, and no lock keeps the role from being deleted in between.  A role of which
  that happens is noted.  Nothing is said about who may make a request, so every request may come.
\<close>

record pending_assignment =
  pd_company :: string
  pd_membership :: string
  pd_next :: "string \<times> string option"
  pd_actor :: string

record role_state =
  rs_db :: role_db
  rs_pending :: "pending_assignment list"
  rs_raced :: "(string \<times> string) list"

datatype role_event =
    Commit string string role_request
  | Check_role string string "string option" "builtin_role option" string
  | Write_role nat

definition raced_by :: "string \<Rightarrow> role_request \<Rightarrow> pending_assignment list \<Rightarrow> (string \<times> string) list" where
  "raced_by c request pending = (case request of
     Delete_role r \<Rightarrow> if list_ex (\<lambda>p. pd_company p = c \<and> snd (pd_next p) = Some r) pending then [(c, r)] else []
   | _ \<Rightarrow> [])"

fun role_step :: "role_event \<Rightarrow> role_state \<Rightarrow> role_state" where
  "role_step (Commit c u request) st = (case role_tx c u request (rs_db st) of Inl _ \<Rightarrow> st
     | Inr db \<Rightarrow> st\<lparr>rs_db := db, rs_raced := rs_raced st @ raced_by c request (rs_pending st)\<rparr>)"
| "role_step (Check_role c i customRoleId builtinRole u) st =
     (case check_assignment c i customRoleId builtinRole (rs_db st) of Inl _ \<Rightarrow> st
      | Inr next \<Rightarrow> st\<lparr>rs_pending := rs_pending st @ [\<lparr>pd_company = c, pd_membership = i, pd_next = next, pd_actor = u\<rparr>]\<rparr>)"
| "role_step (Write_role n) st =
     (if n < length (rs_pending st)
      then (let p = rs_pending st ! n
            in st\<lparr>rs_db := write_assignment (pd_company p) (pd_membership p) (pd_next p) (pd_actor p) (rs_db st),
              rs_pending := take n (rs_pending st) @ drop (Suc n) (rs_pending st)\<rparr>)
      else st)"

definition role_history :: "role_event list \<Rightarrow> role_db \<Rightarrow> role_state" where
  "role_history steps db = fold role_step steps \<lparr>rs_db = db, rs_pending = [], rs_raced = []\<rparr>"

text \<open>A role that exists in the company, and is live or among the roles \<open>R\<close>.\<close>

definition role_row :: "string \<Rightarrow> string \<Rightarrow> role_db \<Rightarrow> bool" where
  "role_row c r db \<longleftrightarrow> list_ex (\<lambda>x. cr_id x = r \<and> cr_company_id x = c) (rb_roles db)"

definition role_ok :: "(string \<times> string) list \<Rightarrow> role_db \<Rightarrow> string \<Rightarrow> string \<Rightarrow> bool" where
  "role_ok R db c r \<longleftrightarrow> role_row c r db \<and> (live_role c r db \<noteq> None \<or> (c, r) \<in> set R)"

definition links_ok :: "(string \<times> string) list \<Rightarrow> role_db \<Rightarrow> bool" where
  "links_ok R db \<longleftrightarrow> list_all (\<lambda>m. case mm_custom_role_id m of None \<Rightarrow> True
     | Some r \<Rightarrow> role_ok R db (mm_company_id m) r) (rb_memberships db)"

text \<open>Every membership with a custom role names a live role of its own company.\<close>

definition links_live :: "role_db \<Rightarrow> bool" where
  "links_live db \<longleftrightarrow> links_ok [] db"

definition roles_kept :: "role_db \<Rightarrow> role_db \<Rightarrow> bool" where
  "roles_kept db db' \<longleftrightarrow> (\<forall>c r. role_row c r db \<longrightarrow> role_row c r db')
     \<and> (\<forall>c r. live_role c r db \<noteq> None \<longrightarrow> live_role c r db' \<noteq> None)"

lemma roles_kept_ok: "roles_kept db db' \<Longrightarrow> role_ok R db c r \<Longrightarrow> role_ok R db' c r"
  by (auto simp: roles_kept_def role_ok_def)

lemma roles_kept_trans: "roles_kept db1 db2 \<Longrightarrow> roles_kept db2 db3 \<Longrightarrow> roles_kept db1 db3"
  by (simp add: roles_kept_def)

lemma live_role_None: "live_role c r db = None \<longleftrightarrow>
    (\<forall>x\<in>set (rb_roles db). cr_id x = r \<longrightarrow> cr_company_id x = c \<longrightarrow> cr_deleted x)"
  by (auto simp: live_role_def find_None_iff)

lemma live_role_row: "live_role c r db \<noteq> None \<Longrightarrow> role_row c r db"
  by (auto simp: live_role_None role_row_def list_ex_iff)

lemma roles_kept_frame:
  "rb_roles db' = rb_roles db \<Longrightarrow> roles_kept db db'"
  by (simp add: roles_kept_def role_row_def live_role_def)

lemma roles_frame [simp]:
  "rb_roles (audit a b d e i db) = rb_roles db"
  "rb_roles (set_membership a b f db) = rb_roles db"
  "rb_roles (write_assignment a b n u db) = rb_roles db"
  by (simp_all add: audit_def set_membership_def write_assignment_def)

lemma memberships_frame [simp]:
  "rb_memberships (audit a b d e f db) = rb_memberships db"
  "rb_memberships (insert_role i a n b' u db) = rb_memberships db"
  "rb_memberships (rename_role a i n db) = rb_memberships db"
  by (simp_all add: audit_def insert_role_def rename_role_def)

lemma role_ok_frame [simp]:
  "role_ok R (audit a b d e i db) = role_ok R db"
  "role_ok R (set_membership a b f db) = role_ok R db"
  "role_ok R (db\<lparr>rb_grants := gs\<rparr>) = role_ok R db"
  "role_ok R (db\<lparr>rb_memberships := ms\<rparr>) = role_ok R db"
  by (simp_all add: fun_eq_iff role_ok_def role_row_def live_role_def)

lemma links_ok_frame [simp]:
  "links_ok R (audit a b d e f db) = links_ok R db"
  "links_ok R (db\<lparr>rb_grants := gs\<rparr>) = links_ok R db"
  by (simp_all add: links_ok_def cong: option.case_cong)

lemma links_okD: "links_ok R db \<Longrightarrow> m \<in> set (rb_memberships db) \<Longrightarrow> mm_custom_role_id m = Some r \<Longrightarrow>
    role_ok R db (mm_company_id m) r"
  by (auto simp: links_ok_def list_all_iff split: option.splits)

lemma links_okI:
  "(\<And>m r. m \<in> set (rb_memberships db) \<Longrightarrow> mm_custom_role_id m = Some r \<Longrightarrow> role_ok R db (mm_company_id m) r) \<Longrightarrow>
    links_ok R db"
  by (auto simp: links_ok_def list_all_iff split: option.splits)

lemma links_ok_kept: "links_ok R db \<Longrightarrow> rb_memberships db' = rb_memberships db \<Longrightarrow> roles_kept db db' \<Longrightarrow> links_ok R db'"
  by (rule links_okI) (auto intro: roles_kept_ok dest: links_okD)

lemma insert_role_kept: "roles_kept db (insert_role i a n b u db)"
  by (auto simp: roles_kept_def role_row_def live_role_None insert_role_def)

lemma insert_role_live: "role_ok R (insert_role i a n b u db) a i"
  unfolding role_ok_def by (auto simp: live_role_None role_row_def insert_role_def)

lemma role_row_map:
  assumes "rb_roles db' = map f (rb_roles db)" "\<And>x. cr_id (f x) = cr_id x" "\<And>x. cr_company_id (f x) = cr_company_id x"
  shows "role_row c r db' = role_row c r db"
    "(\<And>x. cr_id x = r \<Longrightarrow> cr_company_id x = c \<Longrightarrow> cr_deleted (f x) \<longleftrightarrow> cr_deleted x) \<Longrightarrow>
      live_role c r db' = None \<longleftrightarrow> live_role c r db = None"
  using assms by (auto simp: role_row_def list_ex_iff live_role_None)

lemma rename_role_kept: "roles_kept db (rename_role a i n db)"
  unfolding roles_kept_def rename_role_def
  by (subst role_row_map [of _ "\<lambda>r. if cr_id r = i \<and> cr_company_id r = a then r\<lparr>cr_name := n\<rparr> else r" db]; simp)+

lemma insertGrants_kept:
  "insertGrants c r gs db = Inr db' \<Longrightarrow> rb_roles db' = rb_roles db \<and> rb_memberships db' = rb_memberships db"
  by (induction gs arbitrary: db) (auto split: if_splits)

lemma set_membership_links_ok:
  assumes "links_ok R db" "\<And>m. mm_company_id (f m) = mm_company_id m"
    "\<And>m r. mm_company_id m = c \<Longrightarrow> mm_custom_role_id (f m) = Some r \<Longrightarrow> role_ok R db c r"
  shows "links_ok R (set_membership c i f db)"
proof (rule links_okI)
  fix m r
  assume "m \<in> set (rb_memberships (set_membership c i f db))" and link: "mm_custom_role_id m = Some r"
  then obtain m0 where m0: "m0 \<in> set (rb_memberships db)" "m = (if mm_id m0 = i \<and> mm_company_id m0 = c then f m0 else m0)"
    by (auto simp: set_membership_def)
  then have "role_ok R db (mm_company_id m) r"
    using link assms(2,3) links_okD [OF assms(1) m0(1)] by (auto split: if_splits)
  then show "role_ok R (set_membership c i f db) (mm_company_id m) r" by simp
qed

lemma write_links_ok:
  "links_ok R db \<Longrightarrow> (\<And>r. snd next = Some r \<Longrightarrow> role_ok R db c r) \<Longrightarrow> links_ok R (write_assignment c i next u db)"
  by (auto simp: write_assignment_def intro!: set_membership_links_ok)

text \<open>What each transaction keeps: roles, except that a deletion ends one, and links.\<close>

lemma create_kept:
  assumes "createCustomRoleTx uuid c n b gs u db = Inr db'"
  shows "roles_kept db db'" "links_ok R db \<Longrightarrow> links_ok R db'"
proof -
  obtain db1 where 1: "insertGrants c uuid gs (insert_role uuid c n b u db) = Inr db1"
    "db' = audit c u ''company_role'' uuid ''create'' db1"
    using assms by (auto simp: createCustomRoleTx_def map_result_eq_Inr split: if_splits)
  have same: "rb_roles db' = rb_roles (insert_role uuid c n b u db)" "rb_memberships db' = rb_memberships db"
    using 1 insertGrants_kept by auto
  show kept: "roles_kept db db'"
    using roles_kept_trans [OF insert_role_kept roles_kept_frame [OF same(1)]] .
  show "links_ok R db \<Longrightarrow> links_ok R db'" by (rule links_ok_kept [OF _ same(2) kept])
qed

lemma patch_kept:
  assumes "patchCustomRoleTx c r n gs u db = Inr db'"
  shows "roles_kept db db'" "links_ok R db \<Longrightarrow> links_ok R db'"
proof -
  obtain db1 db2 where 1: "db1 = db \<or> (\<exists>m. db1 = rename_role c r m db)"
    and 2: "db2 = db1 \<or> (\<exists>xs g. insertGrants c r xs (db1\<lparr>rb_grants := g\<rparr>) = Inr db2)"
    and 3: "db' = audit c u ''company_role'' r ''update'' db2"
    using assms by (auto simp: patchCustomRoleTx_def map_result_eq_Inr split: option.splits if_splits)
  have "roles_kept db db1" using 1 rename_role_kept by (auto simp: roles_kept_frame)
  moreover have "rb_roles db' = rb_roles db1" using 2 3 insertGrants_kept by fastforce
  ultimately show kept: "roles_kept db db'" using roles_kept_trans roles_kept_frame by blast
  have "rb_memberships db' = rb_memberships db" using 1 2 3 insertGrants_kept by fastforce
  then show "links_ok R db \<Longrightarrow> links_ok R db'" using kept links_ok_kept by blast
qed

lemma delete_role_rows:
  assumes "deleteCustomRoleTx c r u db = Inr db'"
  shows "rb_roles db' = map (\<lambda>x. if cr_id x = r \<and> cr_company_id x = c \<and> \<not> cr_deleted x then x\<lparr>cr_deleted := True\<rparr> else x)
      (rb_roles db)"
    "rb_memberships db' = map (\<lambda>m. if mm_company_id m = c \<and> mm_custom_role_id m = Some r
      then m\<lparr>mm_custom_role_id := None\<rparr> else m) (rb_memberships db)"
  using assms by (auto simp: deleteCustomRoleTx_def split: option.splits)

lemma delete_kept:
  assumes "deleteCustomRoleTx c r u db = Inr db'" "role_ok R db a b"
  shows "(a, b) \<noteq> (c, r) \<or> (a, b) \<in> set R \<Longrightarrow> role_ok R db' a b"
proof -
  note rows = role_row_map [OF delete_role_rows(1) [OF assms(1)]]
  have "role_row a b db'"
    using assms(2) rows(1) [of a b] by (simp add: role_ok_def)
  moreover have "live_role a b db' \<noteq> None" if "live_role a b db \<noteq> None" "(a, b) \<noteq> (c, r)"
    using that rows(2) [of b a] by auto
  ultimately show "(a, b) \<noteq> (c, r) \<or> (a, b) \<in> set R \<Longrightarrow> role_ok R db' a b"
    using assms(2) by (auto simp: role_ok_def)
qed

lemma delete_links_ok:
  assumes "links_ok R db" "deleteCustomRoleTx c r u db = Inr db'"
  shows "links_ok R db'"
proof (rule links_okI)
  fix m b
  assume "m \<in> set (rb_memberships db')" and link: "mm_custom_role_id m = Some b"
  then obtain m0 where m0: "m0 \<in> set (rb_memberships db)" "\<not> (mm_company_id m0 = c \<and> mm_custom_role_id m0 = Some r)" "m = m0"
    by (auto simp: delete_role_rows [OF assms(2)] split: if_splits)
  then show "role_ok R db' (mm_company_id m) b"
    using link delete_kept [OF assms(2) links_okD [OF assms(1) m0(1)]] by auto
qed

lemma ensure_kept:
  assumes "ensureMembershipCustomRole uuid c m u db = Inr (r, db')"
  shows "roles_kept db db'" "links_ok R db \<Longrightarrow> links_ok R db'"
  using assms insert_role_kept insert_role_live
  by (auto simp: ensureMembershipCustomRole_def roles_kept_frame split: option.splits if_splits
      intro: roles_kept_trans [OF insert_role_kept roles_kept_frame] links_ok_kept [OF _ _ insert_role_kept]
      intro!: set_membership_links_ok)

lemma grant_kept:
  assumes "grantMembershipCapabilityTx uuid c i cap u db = Inr (v, db')"
  shows "roles_kept db db'" "links_ok R db \<Longrightarrow> links_ok R db'"
proof -
  obtain m where m: "loadMembership c i db = Some m"
    using assms by (auto simp: grantMembershipCapabilityTx_def split: option.splits)
  obtain db1 where 1: "db1 = db \<or> (\<exists>r. ensureMembershipCustomRole uuid c m u db = Inr (r, db1))"
    and 2: "rb_roles db' = rb_roles db1" "rb_memberships db' = rb_memberships db1"
  proof (cases "cap \<in> set (DEFAULT_COMPANY_CAPABILITIES (normalizeCompanyRole (mm_role m)))")
    case True
    then show ?thesis using assms m that [of db] by (simp add: grantMembershipCapabilityTx_def)
  next
    case False
    then obtain r db1 where "ensureMembershipCustomRole uuid c m u db = Inr (r, db1)"
      using assms m by (auto simp: grantMembershipCapabilityTx_def split: sum.splits)
    then show ?thesis using assms m False that [of db1] by (auto simp: grantMembershipCapabilityTx_def Let_def)
  qed
  have "roles_kept db db1" using 1 ensure_kept(1) by (auto simp: roles_kept_frame)
  then show "roles_kept db db'" using 2 roles_kept_trans roles_kept_frame by blast
  show "links_ok R db \<Longrightarrow> links_ok R db'"
    using 1 ensure_kept(2) links_ok_kept [OF _ 2(2) roles_kept_frame [OF 2(1)]] by blast
qed

lemma revoke_kept:
  assumes "revokeMembershipCapabilityTx c i cap u db = Inr (v, db')"
  shows "roles_kept db db'" "links_ok R db \<Longrightarrow> links_ok R db'"
  using assms by (auto simp: revokeMembershipCapabilityTx_def Let_def roles_kept_frame split: option.splits if_splits)

lemma check_assignment_ok:
  "check_assignment c i custom b db = Inr next \<Longrightarrow> snd next = Some r \<Longrightarrow> role_ok R db c r"
  using live_role_row [of c r db]
  by (auto simp: check_assignment_def role_ok_def some_text_def split: option.splits if_splits)

lemma assign_kept:
  assumes "assignMembershipRoleTx c i custom b u db = Inr db'"
  shows "roles_kept db db'" "links_ok R db \<Longrightarrow> links_ok R db'"
  using assms check_assignment_ok
  by (auto simp: assignMembershipRoleTx_def map_result_eq_Inr roles_kept_frame intro!: write_links_ok)

lemma role_tx_kept:
  assumes "role_tx c u request db = Inr db'"
  shows "(\<And>r. request \<noteq> Delete_role r) \<Longrightarrow> roles_kept db db'" "links_ok R db \<Longrightarrow> links_ok R db'"
  using assms
  by (auto simp: role_tx_def map_result_eq_Inr split: if_splits role_request.splits sum.splits
      intro: create_kept patch_kept delete_links_ok assign_kept grant_kept revoke_kept)

definition role_inv :: "role_state \<Rightarrow> bool" where
  "role_inv st \<longleftrightarrow> links_ok (rs_raced st) (rs_db st)
     \<and> (\<forall>p\<in>set (rs_pending st). \<forall>r. snd (pd_next p) = Some r \<longrightarrow> role_ok (rs_raced st) (rs_db st) (pd_company p) r)"

lemma role_ok_mono: "role_ok R db c r \<Longrightarrow> set R \<subseteq> set R' \<Longrightarrow> role_ok R' db c r"
  by (auto simp: role_ok_def)

lemma links_ok_mono: "links_ok R db \<Longrightarrow> set R \<subseteq> set R' \<Longrightarrow> links_ok R' db"
  by (rule links_okI) (blast intro: role_ok_mono dest: links_okD)

lemma commit_pending:
  assumes "role_tx c u request db = Inr db'" "role_ok R db (pd_company p) r"
    and "snd (pd_next p) = Some r" "p \<in> set pending"
  shows "role_ok (R @ raced_by c request pending) db' (pd_company p) r"
proof (cases "\<exists>r0. request = Delete_role r0")
  case True
  then obtain r0 where request: "request = Delete_role r0" by blast
  then have del: "deleteCustomRoleTx c r0 u db = Inr db'" using assms(1) by (simp add: role_tx_def)
  have "role_ok (R @ raced_by c request pending) db (pd_company p) r"
    using assms(2) by (rule role_ok_mono) simp
  moreover have "(pd_company p, r) \<noteq> (c, r0) \<or> (pd_company p, r) \<in> set (R @ raced_by c request pending)"
    using assms(3,4) by (auto simp: request raced_by_def list_ex_iff)
  ultimately show ?thesis using delete_kept [OF del] by blast
next
  case False
  then have "roles_kept db db'" using role_tx_kept(1) [OF assms(1)] by blast
  then show ?thesis using roles_kept_ok assms(2) role_ok_mono [of R db' _ _ "R @ raced_by c request pending"] by simp
qed

lemma role_inv_step: "role_inv st \<Longrightarrow> role_inv (role_step step st)"
proof (induction step st rule: role_step.induct)
  case (1 c u request st)
  show ?case
  proof (cases "role_tx c u request (rs_db st)")
    case (Inr db)
    have "links_ok (rs_raced st @ raced_by c request (rs_pending st)) db"
      by (rule links_ok_mono [OF role_tx_kept(2) [OF Inr, of "rs_raced st"]]) (use 1 in \<open>auto simp: role_inv_def\<close>)
    then show ?thesis using 1 commit_pending [OF Inr] by (simp add: role_inv_def Inr)
  qed (use 1 in simp)
next
  case (2 c i custom b u st)
  then show ?case
    by (auto simp: role_inv_def split: sum.splits intro: check_assignment_ok)
next
  case (3 n st)
  show ?case
  proof (cases "n < length (rs_pending st)")
    case True
    then have "rs_pending st ! n \<in> set (rs_pending st)" by simp
    moreover have "role_ok R (write_assignment c i next u db) = role_ok R db" for R c i "next" u db
      by (simp add: write_assignment_def)
    ultimately show ?thesis using 3 True
      by (auto simp: role_inv_def Let_def intro!: write_links_ok dest: in_set_takeD in_set_dropD)
  qed (use 3 in simp)
qed

lemma role_inv_history: "role_inv st \<Longrightarrow> role_inv (fold role_step steps st)"
  by (induction steps arbitrary: st) (simp_all add: role_inv_step)

lemma dead_role_authority:
  "mm_custom_role_id m = Some r \<Longrightarrow> live_role (mm_company_id m) r db = None \<Longrightarrow>
    membership_authority m db = resolveCompanyRoleAuthority (normalizeCompanyRole (mm_role m)) None"
  by (simp add: membership_authority_def some_text_def loadCustomRole_def)

text \<open>
  C17: However role transactions overlap, a membership with a custom role names a role of its own company,
  never one that is missing or of another company.  The role is live, unless it was deleted after an
  assignment had found it live and before the assignment was written; then the link stays on the deleted role, and
  the member has the authority of its company role alone.
\<close>

theorem role_links_live:
  assumes "links_live db" "st = role_history steps db"
    and "m \<in> set (rb_memberships (rs_db st))" "mm_custom_role_id m = Some r"
  shows "role_row (mm_company_id m) r (rs_db st) \<and>
    (live_role (mm_company_id m) r (rs_db st) \<noteq> None \<or>
     (mm_company_id m, r) \<in> set (rs_raced st) \<and>
     membership_authority m (rs_db st) = resolveCompanyRoleAuthority (normalizeCompanyRole (mm_role m)) None)"
proof -
  have "role_inv \<lparr>rs_db = db, rs_pending = [], rs_raced = []\<rparr>"
    using assms(1) by (simp add: role_inv_def links_live_def)
  then have "role_inv st" unfolding assms(2) role_history_def by (rule role_inv_history)
  then have "role_ok (rs_raced st) (rs_db st) (mm_company_id m) r"
    using assms(3,4) by (auto simp: role_inv_def dest: links_okD)
  then show ?thesis using dead_role_authority [OF assms(4)] by (auto simp: role_ok_def)
qed

text \<open>The race: a role is deleted, members unlinked and all, while it is being assigned.\<close>

definition racing_steps :: "role_event list" where
  "racing_steps = [Check_role ''co'' ''m4'' (Some ''r'') None ''ann'', Commit ''co'' ''ann'' (Delete_role ''r''), Write_role 0]"

lemma racing_result:
  "live_role ''co'' ''r'' (rs_db (role_history racing_steps sample_roles)) = None"
  "sample_member ''m4'' ''dee'' ''member'' (Some ''r'') \<in> set (rb_memberships (rs_db (role_history racing_steps sample_roles)))"
  by code_simp+

lemma role_links_live_witness:
  "(''co'', ''r'') \<in> set (rs_raced (role_history racing_steps sample_roles)) \<and>
   membership_authority (sample_member ''m4'' ''dee'' ''member'' (Some ''r'')) (rs_db (role_history racing_steps sample_roles))
     = resolveCompanyRoleAuthority (normalizeCompanyRole ''member'') None"
proof -
  have "links_live sample_roles" by code_simp
  from role_links_live [OF this refl racing_result(2), of "''r''"] racing_result(1)
  show ?thesis by (simp add: sample_member_def)
qed

section \<open>What goes wrong\<close>

lemma find_map_keep: "(\<And>x. P (f x) \<longleftrightarrow> P x) \<Longrightarrow> find P (map f xs) = map_option f (find P xs)"
  by (induction xs) auto

text \<open>A membership as \<open>Assign_role\<close> with a built-in role leaves it.\<close>

definition rebased :: "string \<Rightarrow> string \<Rightarrow> builtin_role \<Rightarrow> membership_row \<Rightarrow> membership_row" where
  "rebased c i b m = (if mm_id m = i \<and> mm_company_id m = c
     then m\<lparr>mm_role := role_text (builtinToCompanyRole b), mm_custom_role_id := None\<rparr> else m)"

lemma rebased_keys [simp]:
  "mm_id (rebased c i b m) = mm_id m" "mm_company_id (rebased c i b m) = mm_company_id m"
  "mm_clerk_user_id (rebased c i b m) = mm_clerk_user_id m"
  by (simp_all add: rebased_def)

lemma assign_builtin:
  assumes "handleCompanyRoleRoutes c admin (Assign_role i None (Some b)) db = Inr db'"
  shows "rb_memberships db' = map (rebased c i b) (rb_memberships db)" "rb_roles db' = rb_roles db"
    "loadMembership c i db \<noteq> None"
  using assms by (auto simp: handleCompanyRoleRoutes_def role_tx_def assign_defs map_result_eq_Inr audit_def set_membership_def
      rebased_def split: if_splits option.splits)

lemma assign_builtin_succeeds:
  "\<not> not_admin c admin db \<Longrightarrow> loadMembership c i db \<noteq> None \<Longrightarrow>
    \<exists>db'. handleCompanyRoleRoutes c admin (Assign_role i None (Some b)) db = Inr db'"
  by (auto simp: handleCompanyRoleRoutes_def role_tx_def assign_defs)

lemma mergeCompany_enforced:
  "enforced_capability m db c \<longleftrightarrow> c \<in> set (DEFAULT_COMPANY_CAPABILITIES (au_effectiveRole (membership_authority m db)))
     \<or> field_request_text c \<in> pg_action ` set (au_grants (membership_authority m db))"
  by (auto simp: enforced_capability_def Let_def companyCapabilityGranted_def set_mergeCompanyCapabilities)

lemma granted_row_enforced:
  assumes "mm_custom_role_id m = Some r" "r \<noteq> []" "live_role (mm_company_id m) r db \<noteq> None"
    "g \<in> set (rb_grants db)" "gr_custom_role_id g = r" "gr_company_id g = mm_company_id m"
    "gr_action g = field_request_text c"
  shows "enforced_capability m db c"
  using assms
  by (force simp: mergeCompany_enforced membership_authority_def some_text_def loadCustomRole_def role_grants_def
      resolveCompanyRoleAuthority_def)

text \<open>
  C18: A capability granted to one membership is written to the custom role the membership is linked to, so
  every other member of that role holds it from then on.
\<close>

theorem capability_grant_spills:
  assumes "handleCompanyRoleRoutes c admin (Grant_capability uuid (mm_id m) cap) db = Inr db'"
    and "loadMembership c (mm_id m) db = Some m" "m2 \<in> set (rb_memberships db)" "mm_company_id m2 = c"
    and "mm_custom_role_id m = Some r" "mm_custom_role_id m2 = Some r" "r \<noteq> []" "live_role c r db \<noteq> None"
    and "cap \<notin> set (DEFAULT_COMPANY_CAPABILITIES (normalizeCompanyRole (mm_role m)))"
    and "\<And>g. g \<in> set (rb_grants db) \<Longrightarrow> gr_custom_role_id g = r \<Longrightarrow> gr_company_id g = c"
  shows "m2 \<in> set (rb_memberships db') \<and> enforced_capability m2 db' cap"
proof -
  obtain v where "grantMembershipCapabilityTx uuid c (mm_id m) cap admin db = Inr (v, db')"
    using assms(1) by (auto simp: handleCompanyRoleRoutes_def role_tx_def map_result_eq_Inr split: if_splits)
  then have db': "rb_memberships db' = rb_memberships db" "live_role c r db' = live_role c r db"
    "\<exists>g\<in>set (rb_grants db'). gr_custom_role_id g = r \<and> gr_company_id g = c \<and> gr_action g = field_request_text cap"
    using assms(2,5,7,9,10)
    by (auto simp: grantMembershipCapabilityTx_def ensureMembershipCustomRole_def some_text_def Let_def has_grant_def
        list_ex_iff audit_def live_role_def split: if_splits)
  then show ?thesis using assms(3,4,6,7,8) granted_row_enforced [of m2 r db'] by auto
qed

lemma capability_grant_spills_witness:
  "\<exists>db'. handleCompanyRoleRoutes ''co'' ''ann'' (Grant_capability ''new'' ''m2'' Triage_requests) sample_roles = Inr db' \<and>
     enforced_capability (sample_member ''m3'' ''cy'' ''member'' (Some ''r'')) db' Triage_requests"
proof -
  have "\<not> isl (handleCompanyRoleRoutes ''co'' ''ann'' (Grant_capability ''new'' ''m2'' Triage_requests) sample_roles)" by code_simp
  then obtain db' where db': "handleCompanyRoleRoutes ''co'' ''ann'' (Grant_capability ''new'' ''m2'' Triage_requests) sample_roles = Inr db'"
    by (blast dest: not_isl)
  then show ?thesis
    using capability_grant_spills [of "''co''" "''ann''" "''new''" "sample_member ''m2'' ''bo'' ''member'' (Some ''r'')" Triage_requests sample_roles db'
        "sample_member ''m3'' ''cy'' ''member'' (Some ''r'')" "''r''"]
    by (simp add: sample_roles_def sample_member_def loadMembership_def live_role_def normalizeCompanyRole_def COMPANY_ROLES_def)
qed

text \<open>
  C19: Assigning the built-in estimator to a membership stores the company role office, which reads back as
  admin: the member is admitted wherever an admin is, holds every action without a cap, and may administer
  roles.
\<close>

theorem estimator_becomes_owner:
  assumes "handleCompanyRoleRoutes c admin (Assign_role membershipId None (Some Estimator)) db = Inr db'"
    and "m \<in> set (rb_memberships db')" "mm_id m = membershipId" "mm_company_id m = c"
  shows "au_effectiveRole (membership_authority m db') = Admin \<and>
    (\<forall>action amountCents otHours. requirePermission (membership_authority m db') action amountCents otHours = None)"
proof -
  obtain m0 where m0: "m0 \<in> set (rb_memberships db)" "m = rebased c membershipId Estimator m0"
    using assms(2) unfolding assign_builtin(1) [OF assms(1)] by fastforce
  have key: "mm_id m0 = membershipId" "mm_company_id m0 = c"
    using assms(3,4) m0(2) by (metis rebased_keys(1), metis rebased_keys(2))
  have "mm_role m = ''office'' \<and> mm_custom_role_id m = None"
    by (simp add: m0(2) rebased_def key)
  then have auth: "membership_authority m db' = \<lparr>au_effectiveRole = Admin, au_effectiveBuiltin = Owner, au_grants = []\<rparr>"
    by (simp add: membership_authority_def some_text_def normalizeCompanyRole_def resolveCompanyRoleAuthority_def)
  have "permitted Owner [] action a h" for action a h
    by (cases action) (auto simp: permitted_def holds_action_def PERMISSION_ACTIONS_def split: option.splits)
  then have "permissionDecision Owner [] action a h = Allowed None" for action a h
    using permission_decision(1) [of "[]" Owner action a h] by simp
  then show ?thesis by (simp add: auth requirePermission_def)
qed

lemma estimator_becomes_owner_witness:
  "\<exists>db' m. handleCompanyRoleRoutes ''co'' ''ann'' (Assign_role ''m4'' None (Some Estimator)) sample_roles = Inr db' \<and>
     m \<in> set (rb_memberships db') \<and> mm_id m = ''m4'' \<and> au_effectiveRole (membership_authority m db') = Admin"
proof -
  have "\<not> isl (handleCompanyRoleRoutes ''co'' ''ann'' (Assign_role ''m4'' None (Some Estimator)) sample_roles)" by code_simp
  then obtain db' where db': "handleCompanyRoleRoutes ''co'' ''ann'' (Assign_role ''m4'' None (Some Estimator)) sample_roles = Inr db'"
    by (blast dest: not_isl)
  define m where "m = rebased ''co'' ''m4'' Estimator (sample_member ''m4'' ''dee'' ''member'' None)"
  have "m \<in> set (rb_memberships db')"
    unfolding assign_builtin(1) [OF db'] by (simp add: m_def sample_roles_def)
  then show ?thesis using db' estimator_becomes_owner [OF db', of m] by (auto simp: m_def sample_member_def)
qed

text \<open>
  A custom role does not bound who may administer roles: a member whose company role is admin or office,
  restricted to any custom role, can reset its own membership to owner.
\<close>

lemma demoted_admin_restores_itself:
  assumes "find (\<lambda>m. mm_company_id m = c \<and> mm_clerk_user_id m = user) (rb_memberships db) = Some m"
    and "mm_role m \<in> {''admin'', ''office''}"
  shows "\<exists>db'. handleCompanyRoleRoutes c user (Assign_role (mm_id m) None (Some Owner)) db = Inr db' \<and>
    map_option au_effectiveBuiltin (caller_authority c user db') = Some Owner"
proof -
  have member: "m \<in> set (rb_memberships db)" "mm_company_id m = c" "mm_clerk_user_id m = user"
    using assms(1) by (auto simp: find_Some_iff)
  have "normalizeCompanyRole (mm_role m) = Admin"
    using assms(2) by (auto simp: normalizeCompanyRole_def COMPANY_ROLES_def)
  then have admin: "\<not> not_admin c user db" using assms(1) by (simp add: not_admin_def)
  have "loadMembership c (mm_id m) db \<noteq> None"
    using member by (auto simp: loadMembership_def find_None_iff)
  then obtain db' where db': "handleCompanyRoleRoutes c user (Assign_role (mm_id m) None (Some Owner)) db = Inr db'"
    using admin assign_builtin_succeeds by blast
  have "caller_authority c user db' = Some (membership_authority (rebased c (mm_id m) Owner m) db')"
    using assms(1) by (simp add: caller_authority_def assign_builtin(1) [OF db'] find_map_keep)
  then show ?thesis using db' member
    by (auto simp: rebased_def membership_authority_def some_text_def normalizeCompanyRole_def COMPANY_ROLES_def
        resolveCompanyRoleAuthority_def)
qed

text \<open>
  The capabilities reported for a membership, and the test whether a grant is needed, go by its company
  role, enforcement by its custom role: when the custom role is the weaker one, granting a capability answers
  with success and reports it as held, changes nothing, and the member is still refused.
\<close>

lemma capability_view_overstates:
  assumes "\<not> not_admin c admin db" "loadMembership c membershipId db = Some m"
    and "cap \<in> set (DEFAULT_COMPANY_CAPABILITIES (normalizeCompanyRole (mm_role m)))" "\<not> enforced_capability m db cap"
  shows "\<exists>view. readMembershipCapabilitiesTx c membershipId db = Inr view \<and> cap \<in> set (cv_effective view) \<and>
    grantMembershipCapabilityTx uuid c membershipId cap admin db = Inr (view, db)"
proof -
  have "x \<in> set FIELD_REQUEST_CAPABILITIES" for x by (cases x) (simp_all add: FIELD_REQUEST_CAPABILITIES_def)
  then have "cap \<in> set (cv_effective (membershipCapabilitiesView m gs))" for gs
    using assms(3) by (auto simp: membershipCapabilitiesView_def Let_def sortCaps_def set_mergeCompanyCapabilities)
  then show ?thesis using assms(2,3)
    by (auto simp: readMembershipCapabilitiesTx_def grantMembershipCapabilityTx_def)
qed

text \<open>
  A grant to a member without a custom role makes a role named after the membership.  Once the member is
  assigned a built-in role, which unlinks that role but leaves it, no capability can be granted to it any more:
  the name is taken and the transaction is aborted.
\<close>

lemma regrant_fails:
  assumes "handleCompanyRoleRoutes c admin (Grant_capability uuid i cap) db = Inr db1"
    and "loadMembership c i db = Some m" "some_text (mm_custom_role_id m) = None"
    and "cap \<notin> set (DEFAULT_COMPANY_CAPABILITIES (normalizeCompanyRole (mm_role m)))"
    and "handleCompanyRoleRoutes c admin (Assign_role i None (Some b)) db1 = Inr db2" "\<not> not_admin c admin db2"
    and "cap' \<notin> set (DEFAULT_COMPANY_CAPABILITIES (normalizeCompanyRole (role_text (builtinToCompanyRole b))))"
  shows "\<exists>message. handleCompanyRoleRoutes c admin (Grant_capability uuid' i cap') db2 = Inl (Error message)"
proof -
  have m: "mm_id m = i" "mm_company_id m = c" using assms(2) by (auto simp: loadMembership_def find_Some_iff)
  have taken1: "name_taken c (caps_role_name i) None db1"
    using assms(1-4) m(1)
    by (auto simp: handleCompanyRoleRoutes_def role_tx_def map_result_eq_Inr grantMembershipCapabilityTx_def Let_def
        ensureMembershipCustomRole_def name_taken_def audit_def set_membership_def insert_role_def
        split: if_splits)
  note db2 = assign_builtin [OF assms(5)]
  obtain m1 where m1: "loadMembership c i db1 = Some m1" using db2(3) by blast
  then have m2: "loadMembership c i db2 = Some (rebased c i b m1)"
    by (simp add: loadMembership_def db2(1) find_map_keep)
  have "mm_id m1 = i" "mm_company_id m1 = c" using m1 by (auto simp: loadMembership_def find_Some_iff)
  then have "mm_role (rebased c i b m1) = role_text (builtinToCompanyRole b)" "mm_custom_role_id (rebased c i b m1) = None"
    "mm_id (rebased c i b m1) = i"
    by (simp_all add: rebased_def)
  moreover have "name_taken c (caps_role_name i) None db2" using taken1 by (simp add: name_taken_def db2(2))
  ultimately show ?thesis using assms(6,7) m2
    by (auto simp: handleCompanyRoleRoutes_def role_tx_def grantMembershipCapabilityTx_def ensureMembershipCustomRole_def
        some_text_def map_result_def)
qed

end
