(* ===== verification/Request_Gate.thy ===== *)
theory Request_Gate
  imports Authentication Rate_Limit Idempotency Role_Admin
begin

text \<open>
  The gate every request passes before a route sees it, in the order of \<open>apps/api/src/server.ts\<close>: identity, rate
  limit, the early routers, which answer some paths at once, company and authority (\<open>getCompany\<close>, with
  \<open>auto-onboard.ts\<close>), the cached response of a repeated \<open>Idempotency-Key\<close>, and then the routes.  What the early
  routers and the routes do is an argument; which requests the early routers take is not.  A request is two steps,
  since the routes await the database: \<open>gate_enter\<close> up to the routes, \<open>gate_finish\<close> from there, and the steps of
  many requests come in any order, with changes of the database by others in between.  The requests are those that
  no public path takes (the callbacks, the demo and the portal routes); header ids are well-formed, as Postgres refuses others.
\<close>

section \<open>The state of the server\<close>

record company_row =
  co_id :: string
  co_slug :: string

record 'a app =
  ap_companies :: "company_row list"
  ap_roles :: role_db
  ap_data :: 'a

record 'a server =
  sv_limiter :: limiter
  sv_cache :: idempotency_cache
  sv_app :: "'a app"

record settings =
  se_rate :: rate_config
  se_auth :: auth_config
  se_tier :: string
  se_activeCompanySlug :: string
  se_activeUserId :: string
  se_ttl :: int

definition fresh_server :: "int \<Rightarrow> 'a app \<Rightarrow> 'a server" where
  "fresh_server now app = \<lparr>sv_limiter = createRateLimiter now, sv_cache = [], sv_app = app\<rparr>"

section \<open>The company\<close>

definition getCurrentCompanySlug :: "settings \<Rightarrow> http_request \<Rightarrow> string" where
  "getCurrentCompanySlug cfg rq = (case getHeaderValue rq ''x-sitelayer-company-slug'' of Some s \<Rightarrow> s
     | None \<Rightarrow> se_activeCompanySlug cfg)"

definition findCompany :: "settings \<Rightarrow> http_request \<Rightarrow> 'a app \<Rightarrow> company_row option" where
  "findCompany cfg rq app =
     (let requestedSlug = first_value (rq_headers rq ''x-sitelayer-company-slug'');
          requestedId = truthy_text (first_value (rq_headers rq ''x-sitelayer-company-id''));
          byId = (case requestedId of None \<Rightarrow> None | Some i \<Rightarrow> find (\<lambda>c. co_id c = i) (ap_companies app))
      in case byId of Some c \<Rightarrow> Some c
         | None \<Rightarrow>
             (let slug = (case truthy_text (map_option trim requestedSlug) of Some s \<Rightarrow> s | None \<Rightarrow> getCurrentCompanySlug cfg rq)
              in find (\<lambda>c. co_slug c = slug) (ap_companies app)))"

definition getCompany ::
  "settings \<Rightarrow> http_request \<Rightarrow> identity \<Rightarrow> 'a app \<Rightarrow> (company_row \<times> company_role_authority) option" where
  "getCompany cfg rq idn app =
     (case findCompany cfg rq app of None \<Rightarrow> None
      | Some company \<Rightarrow>
          map_option (Pair company) (caller_authority (co_id company)
            (getCurrentUserId rq (se_tier cfg) idn (se_activeUserId cfg)) (ap_roles app)))"

definition autoOnboardFirstAdmin :: "string \<Rightarrow> string \<Rightarrow> string \<Rightarrow> 'a app \<Rightarrow> 'a app" where
  "autoOnboardFirstAdmin uuid resolvedCompanySlug userId app =
     (let slug = trim resolvedCompanySlug; user = trim userId in
      if slug = [] \<or> user = [] then app
      else case find (\<lambda>c. co_slug c = slug) (ap_companies app) of None \<Rightarrow> app
        | Some company \<Rightarrow>
            if list_ex (\<lambda>m. mm_company_id m = co_id company) (rb_memberships (ap_roles app)) then app
            else app\<lparr>ap_roles := (ap_roles app)\<lparr>rb_memberships := rb_memberships (ap_roles app) @
              [\<lparr>mm_id = uuid, mm_company_id = co_id company, mm_clerk_user_id = user, mm_role = ''admin'',
                mm_custom_role_id = None\<rparr>]\<rparr>\<rparr>)"

definition resolve_company ::
  "settings \<Rightarrow> string \<Rightarrow> http_request \<Rightarrow> identity \<Rightarrow> 'a app \<Rightarrow> (company_row \<times> company_role_authority) option \<times> 'a app" where
  "resolve_company cfg uuid rq idn app =
     (case getCompany cfg rq idn app of Some c \<Rightarrow> (Some c, app)
      | None \<Rightarrow>
          if au_allowFirstUserAdmin (se_auth cfg) \<and> getCurrentCompanySlug cfg rq \<noteq> [] \<and> id_userId idn \<noteq> []
          then (let app1 = autoOnboardFirstAdmin uuid (getCurrentCompanySlug cfg rq) (id_userId idn) app
                in (getCompany cfg rq idn app1, app1))
          else (None, app))"

section \<open>The gate\<close>

record gate_pass =
  gp_request :: http_request
  gp_identity :: identity
  gp_company :: company_row
  gp_authority :: company_role_authority
  gp_key :: "string option"

datatype gate_result = Answered reply | Go gate_pass

definition error_reply :: "int \<Rightarrow> string \<Rightarrow> gate_result" where
  "error_reply status message = Answered \<lparr>rp_status = status, rp_body = message\<rparr>"

text \<open>The idempotency key of a request that takes part.\<close>

definition request_key :: "http_request \<Rightarrow> (string + string) option" where
  "request_key rq =
     (if rq_method rq = ''POST'' \<and> isIdempotentPostPath (rq_pathname rq) \<and> rq_headers rq ''idempotency-key'' \<noteq> None
      then Some (validateIdempotencyKey (rq_headers rq ''idempotency-key'')) else None)"

definition check_replay :: "int \<Rightarrow> gate_pass \<Rightarrow> idempotency_cache \<Rightarrow> gate_result \<times> idempotency_cache" where
  "check_replay now pass cache =
     (case request_key (gp_request pass) of None \<Rightarrow> (Go (pass\<lparr>gp_key := None\<rparr>), cache)
      | Some (Inl e) \<Rightarrow> (error_reply 400 e, cache)
      | Some (Inr key) \<Rightarrow>
          (case cache_get now (co_id (gp_company pass)) key cache of
             (Some cached, cache1) \<Rightarrow> (Answered cached, cache1)
           | (None, cache1) \<Rightarrow> (Go (pass\<lparr>gp_key := Some key\<rparr>), cache1)))"

text \<open>
  The requests that the routers in front of the company lookup take, by method and path: the administration of the
  platform, the companies, the invitations to them and the feedback invitations.
\<close>

definition handleAdminRoutes_takes :: "http_request \<Rightarrow> bool" where
  "handleAdminRoutes_takes rq \<longleftrightarrow> rq_pathname rq = ''/api/admin'' \<or> starts_with ''/api/admin/'' (rq_pathname rq)"

definition company_resources :: "(string \<times> string) list" where
  "company_resources = [(''GET'', ''modules''), (''PATCH'', ''modules''), (''GET'', ''settings''), (''PATCH'', ''settings''),
     (''GET'', ''profile''), (''PATCH'', ''profile''), (''GET'', ''working-hours''), (''PUT'', ''working-hours''), (''GET'', ''usage''),
     (''POST'', ''memberships'')]"

definition handleCompanyRoutes_takes :: "http_request \<Rightarrow> bool" where
  "handleCompanyRoutes_takes rq \<longleftrightarrow>
     rq_method rq = ''GET'' \<and> rq_pathname rq \<in> {''/api/companies'', ''/api/me/memberships''}
     \<or> rq_method rq = ''POST'' \<and> rq_pathname rq = ''/api/companies''
     \<or> (case segments (rq_pathname rq) of
          [start, api, companies, i, resource] \<Rightarrow> start = [] \<and> api = ''api'' \<and> companies = ''companies'' \<and> i \<noteq> []
            \<and> (rq_method rq, resource) \<in> set company_resources
        | _ \<Rightarrow> False)"

definition handleInviteRoutes_takes :: "http_request \<Rightarrow> bool" where
  "handleInviteRoutes_takes rq \<longleftrightarrow>
     (case segments (rq_pathname rq) of
        [start, api, a, i, b] \<Rightarrow> start = [] \<and> api = ''api'' \<and> i \<noteq> []
          \<and> (a = ''companies'' \<and> b = ''invites'' \<and> rq_method rq \<in> {''POST'', ''GET''}
             \<or> (a = ''memberships'' \<and> b = ''first-run-complete'' \<or> a = ''invites'' \<and> b = ''accept'') \<and> rq_method rq = ''POST'')
      | [start, api, a, i] \<Rightarrow> start = [] \<and> api = ''api'' \<and> i \<noteq> [] \<and> a = ''invites'' \<and> rq_method rq = ''GET''
      | [start, api, a, i, b, j, c] \<Rightarrow> start = [] \<and> api = ''api'' \<and> i \<noteq> [] \<and> j \<noteq> []
          \<and> a = ''companies'' \<and> b = ''invites'' \<and> c = ''revoke'' \<and> rq_method rq = ''POST''
      | _ \<Rightarrow> False)"

definition handleFeedbackInviteRoutes_takes :: "http_request \<Rightarrow> bool" where
  "handleFeedbackInviteRoutes_takes rq \<longleftrightarrow>
     (case segments (rq_pathname rq) of
        [start, api, a, i, b] \<Rightarrow> start = [] \<and> api = ''api'' \<and> i \<noteq> []
          \<and> a = ''companies'' \<and> b = ''feedback-invites'' \<and> rq_method rq \<in> {''POST'', ''GET''}
      | [start, api, a, i, b, j, c] \<Rightarrow> start = [] \<and> api = ''api'' \<and> i \<noteq> [] \<and> j \<noteq> []
          \<and> a = ''companies'' \<and> b = ''feedback-invites'' \<and> c = ''revoke'' \<and> rq_method rq = ''POST''
      | _ \<Rightarrow> False)"

definition early_route :: "http_request \<Rightarrow> bool" where
  "early_route rq \<longleftrightarrow> handleAdminRoutes_takes rq \<or> handleCompanyRoutes_takes rq \<or> handleInviteRoutes_takes rq
     \<or> handleFeedbackInviteRoutes_takes rq"

text \<open>What the early routers do with a request they take.\<close>

type_synonym 'a early_routers = "http_request \<Rightarrow> identity \<Rightarrow> 'a app \<Rightarrow> reply \<times> 'a app"

definition rate_user :: "identity \<Rightarrow> string option" where
  "rate_user idn = (if id_source idn = Default_identity then None else Some (id_userId idn))"

definition gate_enter ::
  "'k crypto_lib \<Rightarrow> 'a early_routers \<Rightarrow> settings \<Rightarrow> string \<Rightarrow> int \<Rightarrow> http_request \<Rightarrow> 'a server \<Rightarrow> gate_result \<times> 'a server" where
  "gate_enter lib early cfg uuid now rq st =
     (case resolveIdentity lib now rq (se_auth cfg) of
        Inl (AuthError status message) \<Rightarrow> (error_reply status message, st)
      | Inr idn \<Rightarrow>
          (case applyRateLimit (se_rate cfg) rq (rq_pathname rq) (rate_user idn) now now (sv_limiter st) of
             (Some _, limiter) \<Rightarrow> (error_reply 429 ''rate limit exceeded'', st\<lparr>sv_limiter := limiter\<rparr>)
           | (None, limiter) \<Rightarrow>
               if early_route rq
               then (case early rq idn (sv_app st) of (r, app) \<Rightarrow> (Answered r, st\<lparr>sv_limiter := limiter, sv_app := app\<rparr>))
               else (case resolve_company cfg uuid rq idn (sv_app st) of
                  (None, app) \<Rightarrow> (error_reply 404 (''company slug '' @ getCurrentCompanySlug cfg rq @ '' not found''),
                    st\<lparr>sv_limiter := limiter, sv_app := app\<rparr>)
                | (Some (company, authority), app) \<Rightarrow>
                    (let (r, cache) = check_replay now \<lparr>gp_request = rq, gp_identity = idn, gp_company = company,
                           gp_authority = authority, gp_key = None\<rparr> (sv_cache st)
                     in (r, st\<lparr>sv_limiter := limiter, sv_app := app, sv_cache := cache\<rparr>)))))"

text \<open>
  The routes answer through the context, whose \<open>sendJson\<close> fills the cache, or on the response itself (role checks,
  thrown errors), or not at all.
\<close>

datatype outcome = Through_ctx reply | Direct reply | Not_handled

type_synonym 'a dispatcher = "gate_pass \<Rightarrow> 'a app \<Rightarrow> outcome \<times> 'a app"

definition gate_finish :: "'a dispatcher \<Rightarrow> settings \<Rightarrow> int \<Rightarrow> gate_pass \<Rightarrow> 'a server \<Rightarrow> reply \<times> 'a server" where
  "gate_finish dispatch cfg now pass st =
     (case dispatch pass (sv_app st) of (out, app) \<Rightarrow>
        (case out of
           Through_ctx r \<Rightarrow> (r, st\<lparr>sv_app := app, sv_cache := (case gp_key pass of None \<Rightarrow> sv_cache st
             | Some key \<Rightarrow> cache_set (se_ttl cfg) now (co_id (gp_company pass)) key r (sv_cache st))\<rparr>)
         | Direct r \<Rightarrow> (r, st\<lparr>sv_app := app\<rparr>)
         | Not_handled \<Rightarrow> (\<lparr>rp_status = 404, rp_body = ''not found''\<rparr>, st\<lparr>sv_app := app\<rparr>)))"

text \<open>
  The requests of a server: which are with the routes, and what happens next.  The database may be changed by
  others at any time.
\<close>

record 'a traffic =
  tr_server :: "'a server"
  tr_passes :: "gate_pass list"

datatype 'a traffic_event =
    Enter http_request string int
  | Finish nat int
  | Database "'a app"

fun traffic_step ::
  "'k crypto_lib \<Rightarrow> 'a early_routers \<Rightarrow> 'a dispatcher \<Rightarrow> settings \<Rightarrow> 'a traffic_event \<Rightarrow> 'a traffic \<Rightarrow> 'a traffic" where
  "traffic_step lib early dispatch cfg (Enter rq uuid now) tr =
     (case gate_enter lib early cfg uuid now rq (tr_server tr) of
        (Answered r, st) \<Rightarrow> tr\<lparr>tr_server := st\<rparr>
      | (Go pass, st) \<Rightarrow> \<lparr>tr_server = st, tr_passes = tr_passes tr @ [pass]\<rparr>)"
| "traffic_step lib early dispatch cfg (Finish i now) tr =
     (if i < length (tr_passes tr)
      then \<lparr>tr_server = snd (gate_finish dispatch cfg now (tr_passes tr ! i) (tr_server tr)),
            tr_passes = take i (tr_passes tr) @ drop (Suc i) (tr_passes tr)\<rparr>
      else tr)"
| "traffic_step lib early dispatch cfg (Database app) tr = tr\<lparr>tr_server := (tr_server tr)\<lparr>sv_app := app\<rparr>\<rparr>"

definition traffic_run ::
  "'k crypto_lib \<Rightarrow> 'a early_routers \<Rightarrow> 'a dispatcher \<Rightarrow> settings \<Rightarrow> 'a traffic_event list \<Rightarrow> 'a traffic \<Rightarrow> 'a traffic" where
  "traffic_run lib early dispatch cfg events tr = fold (traffic_step lib early dispatch cfg) events tr"

fun event_time_before :: "int \<Rightarrow> 'a traffic_event \<Rightarrow> bool" where
  "event_time_before until (Enter rq uuid now) \<longleftrightarrow> now < until"
| "event_time_before until (Finish i now) \<longleftrightarrow> now < until"
| "event_time_before until (Database app) \<longleftrightarrow> True"

text \<open>The key under which a request in flight will be remembered.\<close>

definition pass_key :: "gate_pass \<Rightarrow> string option" where
  "pass_key pass = map_option (compositeKey (co_id (gp_company pass))) (gp_key pass)"

section \<open>Repeated keys\<close>

lemma cache_get_distinct:
  "cache_get now c k entries = (r, entries') \<Longrightarrow> distinct (map fst entries) \<Longrightarrow> distinct (map fst entries')"
  by (auto simp: cache_get_def Let_def map_delete_def distinct_filter_keys split: option.splits if_splits)

lemma cache_set_distinct: "distinct (map fst entries) \<Longrightarrow> distinct (map fst (cache_set ttl now c k r entries))"
  by (simp add: cache_set_def evictExpired_def distinct_filter_keys)

lemma check_replay_cases:
  assumes "check_replay now pass cache = (r, cache')"
  shows "cache' = cache \<or> (\<exists>key found. request_key (gp_request pass) = Some (Inr key) \<and>
    cache_get now (co_id (gp_company pass)) key cache = (found, cache'))"
  using assms by (auto simp: check_replay_def split: option.splits sum.splits prod.splits)

lemma gate_enter_cache:
  assumes "gate_enter lib early cfg uuid now rq st = (r, st')"
  shows "sv_cache st' = sv_cache st \<or>
    (\<exists>pass. check_replay now pass (sv_cache st) = (r, sv_cache st'))"
  using assms
  by (auto simp: gate_enter_def Let_def split: sum.splits auth_error.splits prod.splits option.splits if_splits)

lemma gate_enter_distinct:
  assumes "gate_enter lib early cfg uuid now rq st = (r, st')" "distinct (map fst (sv_cache st))"
  shows "distinct (map fst (sv_cache st'))"
  using gate_enter_cache [OF assms(1)] assms(2) check_replay_cases cache_get_distinct by metis

lemma gate_finish_distinct:
  "distinct (map fst (sv_cache st)) \<Longrightarrow> distinct (map fst (sv_cache (snd (gate_finish dispatch cfg now pass st))))"
  using cache_set_distinct by (auto simp: gate_finish_def split: prod.splits outcome.splits option.splits)

lemma traffic_step_distinct:
  assumes "distinct (map fst (sv_cache (tr_server tr)))"
  shows "distinct (map fst (sv_cache (tr_server (traffic_step lib early dispatch cfg e tr))))"
  using assms gate_finish_distinct
  by (cases e) (auto split: prod.splits gate_result.splits dest: gate_enter_distinct)

lemma traffic_run_distinct:
  "distinct (map fst (sv_cache (tr_server tr))) \<Longrightarrow> distinct (map fst (sv_cache (tr_server (traffic_run lib early dispatch cfg es tr))))"
proof (induction es arbitrary: tr)
  case (Cons e es)
  then show ?case using traffic_step_distinct [OF Cons.prems, of lib early dispatch cfg e] by (simp add: traffic_run_def)
qed (simp add: traffic_run_def)

text \<open>A miss for the key of a remembered response would be a miss for another text.\<close>

lemma check_replay_remembers:
  assumes "remembers c k response until cache" "now < until" "check_replay now pass cache = (r, cache')"
  shows "remembers c k response until cache'"
    "r = Go pass' \<Longrightarrow> gp_key pass' = Some key \<Longrightarrow> compositeKey (co_id (gp_company pass')) key \<noteq> compositeKey c k"
proof -
  show "remembers c k response until cache'"
    using check_replay_cases [OF assms(3)] cache_get_other [OF assms(1,2)] assms(1) by auto
  show "compositeKey (co_id (gp_company pass')) key \<noteq> compositeKey c k" if "r = Go pass'" "gp_key pass' = Some key"
  proof
    assume "compositeKey (co_id (gp_company pass')) key = compositeKey c k"
    then have hit: "cache_get now (co_id (gp_company pass')) key cache = (Some response, cache)"
      using cache_get_remembered [OF assms(1,2)] by (simp add: cache_get_def)
    then show False using that assms(3)
      by (auto simp: check_replay_def error_reply_def split: option.splits sum.splits prod.splits)
  qed
qed

lemma gate_enter_Go:
  assumes "gate_enter lib early cfg uuid now rq st = (Go pass, st')"
  shows "\<exists>pass0. check_replay now pass0 (sv_cache st) = (Go pass, sv_cache st')"
  using assms
  by (auto simp: gate_enter_def Let_def error_reply_def split: sum.splits auth_error.splits prod.splits option.splits if_splits)

text \<open>
  A remembered answer stays, and no request in flight holds its key: such a request would have to have entered
  before the answer was given.
\<close>

definition answer_kept :: "string \<Rightarrow> string \<Rightarrow> reply \<Rightarrow> int \<Rightarrow> 'a traffic \<Rightarrow> bool" where
  "answer_kept c k response until tr \<longleftrightarrow> remembers c k response until (sv_cache (tr_server tr))
     \<and> (\<forall>p \<in> set (tr_passes tr). pass_key p \<noteq> Some (compositeKey c k))"

lemma enter_keeps:
  assumes "gate_enter lib early cfg uuid now rq st = (r, st')" "remembers c k response until (sv_cache st)" "now < until"
  shows "remembers c k response until (sv_cache st')" "r = Go pass \<Longrightarrow> pass_key pass \<noteq> Some (compositeKey c k)"
proof -
  show "remembers c k response until (sv_cache st')"
    using gate_enter_cache [OF assms(1)] check_replay_remembers(1) [OF assms(2,3)] assms(2) by auto
  show "pass_key pass \<noteq> Some (compositeKey c k)" if "r = Go pass"
    using gate_enter_Go assms(1) check_replay_remembers(2) [OF assms(2,3)] unfolding that pass_key_def by blast
qed

lemma finish_keeps:
  assumes "remembers c k response until (sv_cache st)" "now < until" "pass_key pass \<noteq> Some (compositeKey c k)"
  shows "remembers c k response until (sv_cache (snd (gate_finish dispatch cfg now pass st)))"
  using assms cache_set_other [OF assms(1,2)]
  by (auto simp: gate_finish_def pass_key_def split: prod.splits outcome.splits option.splits)

lemma answer_kept_step:
  assumes "answer_kept c k response until tr" "event_time_before until e"
  shows "answer_kept c k response until (traffic_step lib early dispatch cfg e tr)"
proof (cases e)
  case (Enter rq uuid now)
  obtain r st where enter: "gate_enter lib early cfg uuid now rq (tr_server tr) = (r, st)" by fastforce
  then show ?thesis using assms enter_keeps [OF enter]
    by (auto simp: Enter answer_kept_def split: gate_result.splits)
next
  case (Finish i now)
  show ?thesis
  proof (cases "i < length (tr_passes tr)")
    case True
    then have "pass_key (tr_passes tr ! i) \<noteq> Some (compositeKey c k)" using assms(1) by (simp add: answer_kept_def)
    then have "remembers c k response until (sv_cache (snd (gate_finish dispatch cfg now (tr_passes tr ! i) (tr_server tr))))"
      using assms by (intro finish_keeps) (simp_all add: Finish answer_kept_def)
    then show ?thesis using assms True
      by (auto simp: Finish answer_kept_def dest: in_set_takeD in_set_dropD)
  qed (use assms(1) in \<open>simp add: Finish\<close>)
qed (use assms(1) in \<open>simp add: answer_kept_def\<close>)

lemma answer_kept_run:
  "answer_kept c k response until tr \<Longrightarrow> list_all (event_time_before until) es \<Longrightarrow>
    answer_kept c k response until (traffic_run lib early dispatch cfg es tr)"
proof (induction es arbitrary: tr)
  case (Cons e es)
  then show ?case using answer_kept_step [OF Cons.prems(1), of e lib early dispatch cfg] by (simp add: traffic_run_def)
qed (simp add: traffic_run_def)

lemma finish_remembers:
  assumes "distinct (map fst (sv_cache st))" "gp_key pass = Some key" "dispatch pass (sv_app st) = (Through_ctx response, app)"
  shows "gate_finish dispatch cfg now pass st = (response, snd (gate_finish dispatch cfg now pass st))"
    "remembers (co_id (gp_company pass)) key response (now + se_ttl cfg) (sv_cache (snd (gate_finish dispatch cfg now pass st)))"
  using assms cache_set_remembers by (simp_all add: gate_finish_def)

lemma finish_answer_kept:
  assumes "distinct (map fst (sv_cache (tr_server tr)))" "i < length (tr_passes tr)" "gp_key (tr_passes tr ! i) = Some key"
    and "fst (dispatch (tr_passes tr ! i) (sv_app (tr_server tr))) = Through_ctx response"
    and "\<forall>j < length (tr_passes tr). j \<noteq> i \<longrightarrow> pass_key (tr_passes tr ! j) \<noteq> pass_key (tr_passes tr ! i)"
  shows "fst (gate_finish dispatch cfg now (tr_passes tr ! i) (tr_server tr)) = response"
    "answer_kept (co_id (gp_company (tr_passes tr ! i))) key response (now + se_ttl cfg)
       (traffic_step lib early dispatch cfg (Finish i now) tr)"
proof -
  let ?pass = "tr_passes tr ! i"
  obtain app where run: "dispatch ?pass (sv_app (tr_server tr)) = (Through_ctx response, app)" using assms(4) by (metis prod.collapse)
  note finish = finish_remembers [where st = "tr_server tr" and pass = ?pass and dispatch = dispatch and cfg = cfg and now = now,
      OF assms(1,3) run]
  show "fst (gate_finish dispatch cfg now ?pass (tr_server tr)) = response" using finish(1) by (metis fst_conv)
  have mine: "pass_key ?pass = Some (compositeKey (co_id (gp_company ?pass)) key)" by (simp add: pass_key_def assms(3))
  have "pass_key p \<noteq> pass_key ?pass" if "p \<in> set (take i (tr_passes tr) @ drop (Suc i) (tr_passes tr))" for p
  proof -
    from that consider j where "j < i" "p = tr_passes tr ! j" | j where "Suc i + j < length (tr_passes tr)" "p = tr_passes tr ! (Suc i + j)"
      by (auto simp: in_set_conv_nth less_diff_conv add.commute [of _ i])
    then show ?thesis using assms(2,5) by cases auto
  qed
  then show "answer_kept (co_id (gp_company ?pass)) key response (now + se_ttl cfg)
      (traffic_step lib early dispatch cfg (Finish i now) tr)"
    using finish(2) assms(2) by (simp add: answer_kept_def mine)
qed

text \<open>
  C9: When the routes answer a request with an idempotency key, and no other request of that company and key is
  with the routes at that moment, then until the time runs out every request of the company with that key that
  reaches the check gets the same status and body and its routes are not run, however many other requests
  enter and finish in between and overlap.  The check is reached by a request with a valid identity, within the rate limit, on a
  path that takes part and that no early router takes, for a company of the caller.  The key alone decides: the
  path, the body, the user and the role of the later request do not matter, nor does it whether the answer was a success.
\<close>

theorem retry_is_replayed:
  assumes "tr = traffic_run lib early dispatch cfg before \<lparr>tr_server = fresh_server t app0, tr_passes = []\<rparr>"
    and "i < length (tr_passes tr)" "pass = tr_passes tr ! i" "gp_key pass = Some key"
    and "fst (dispatch pass (sv_app (tr_server tr))) = Through_ctx response"
    and "\<forall>j < length (tr_passes tr). j \<noteq> i \<longrightarrow> pass_key (tr_passes tr ! j) \<noteq> pass_key pass"
    and "list_all (event_time_before (t1 + se_ttl cfg)) between"
    and "st = tr_server (traffic_run lib early dispatch cfg (Finish i t1 # between) tr)"
    and "t2 < t1 + se_ttl cfg" "request_key rq2 = Some (Inr key)" "\<not> early_route rq2"
    and "resolveIdentity lib t2 rq2 (se_auth cfg) = Inr idn"
    and "fst (applyRateLimit (se_rate cfg) rq2 (rq_pathname rq2) (rate_user idn) t2 t2 (sv_limiter st)) = None"
    and "resolve_company cfg uuid2 rq2 idn (sv_app st) = (Some (company, authority), app2)"
    and "co_id company = co_id (gp_company pass)"
  shows "fst (gate_finish dispatch cfg t1 pass (tr_server tr)) = response \<and>
    fst (gate_enter lib early cfg uuid2 t2 rq2 st) = Answered response \<and> sv_app (snd (gate_enter lib early cfg uuid2 t2 rq2 st)) = app2"
proof -
  have "distinct (map fst (sv_cache (tr_server tr)))"
    unfolding assms(1) by (rule traffic_run_distinct) (simp add: fresh_server_def)
  note finish = finish_answer_kept [of tr i key dispatch response, folded assms(3), OF this assms(2,4,5,6)]
  have "answer_kept (co_id (gp_company pass)) key response (t1 + se_ttl cfg)
      (traffic_run lib early dispatch cfg between (traffic_step lib early dispatch cfg (Finish i t1) tr))"
    by (rule answer_kept_run [OF finish(2) assms(7)])
  then have "remembers (co_id (gp_company pass)) key response (t1 + se_ttl cfg) (sv_cache st)"
    by (simp add: assms(8) answer_kept_def traffic_run_def)
  then have hit: "cache_get t2 (co_id company) key (sv_cache st) = (Some response, sv_cache st)"
    using cache_get_remembered assms(9,15) by simp
  obtain lim where lim: "applyRateLimit (se_rate cfg) rq2 (rq_pathname rq2) (rate_user idn) t2 t2 (sv_limiter st) = (None, lim)"
    using assms(13) by (metis prod.collapse)
  have "fst (gate_enter lib early cfg uuid2 t2 rq2 st) = Answered response"
    "sv_app (snd (gate_enter lib early cfg uuid2 t2 rq2 st)) = app2"
    by (simp_all add: gate_enter_def assms(11,12,14) lim check_replay_def assms(10) hit)
  then show ?thesis using finish(1) by simp
qed

text \<open>
  The list of paths that take part names the creation of companies and memberships, which an early router answers:
  such a request runs again each time, whatever its key.
\<close>

lemma company_creation_runs_again:
  assumes "rq_method rq = ''POST''" "rq_pathname rq = ''/api/companies''" "rq_headers rq ''idempotency-key'' = Some header"
    and "resolveIdentity lib now rq (se_auth cfg) = Inr idn"
    and "applyRateLimit (se_rate cfg) rq (rq_pathname rq) (rate_user idn) now now (sv_limiter st) = (None, limiter)"
  shows "request_key rq = Some (validateIdempotencyKey (Some header))"
    "gate_enter lib early cfg uuid now rq st
      = (Answered (fst (early rq idn (sv_app st))), st\<lparr>sv_limiter := limiter, sv_app := snd (early rq idn (sv_app st))\<rparr>)"
proof -
  show "request_key rq = Some (validateIdempotencyKey (Some header))"
    by (simp add: request_key_def assms(1-3) isIdempotentPostPath_def exactCreates_def segments_def starts_with_def)
  have "early_route rq" by (simp add: early_route_def handleCompanyRoutes_takes_def assms(1,2))
  then show "gate_enter lib early cfg uuid now rq st
      = (Answered (fst (early rq idn (sv_app st))), st\<lparr>sv_limiter := limiter, sv_app := snd (early rq idn (sv_app st))\<rparr>)"
    by (simp add: gate_enter_def assms(4,5) split: prod.splits)
qed

lemma getCompany_onboarded:
  "resolve_company cfg uuid rq idn app = (Some c, app1) \<Longrightarrow> resolve_company cfg uuid' rq idn app1 = (Some c, app1)"
  by (auto simp: resolve_company_def Let_def split: option.splits if_splits)

lemma gate_enter_parts:
  assumes "gate_enter lib early cfg uuid now rq st = (Go pass, st1)"
  obtains idn limiter authority where "\<not> early_route rq"
    "resolveIdentity lib now rq (se_auth cfg) = Inr idn"
    "applyRateLimit (se_rate cfg) rq (rq_pathname rq) (rate_user idn) now now (sv_limiter st) = (None, limiter)"
    "resolve_company cfg uuid rq idn (sv_app st) = (Some (gp_company pass, authority), sv_app st1)"
    "check_replay now \<lparr>gp_request = rq, gp_identity = idn, gp_company = gp_company pass, gp_authority = authority, gp_key = None\<rparr>
       (sv_cache st) = (Go pass, sv_cache st1)"
    "sv_limiter st1 = limiter"
proof -
  obtain idn limiter company authority app where parts: "\<not> early_route rq"
    "resolveIdentity lib now rq (se_auth cfg) = Inr idn"
    "applyRateLimit (se_rate cfg) rq (rq_pathname rq) (rate_user idn) now now (sv_limiter st) = (None, limiter)"
    "resolve_company cfg uuid rq idn (sv_app st) = (Some (company, authority), app)"
    "check_replay now \<lparr>gp_request = rq, gp_identity = idn, gp_company = company, gp_authority = authority, gp_key = None\<rparr>
       (sv_cache st) = (Go pass, sv_cache st1)" "sv_app st1 = app" "sv_limiter st1 = limiter"
    using assms by (auto simp: gate_enter_def Let_def error_reply_def split: sum.splits auth_error.splits prod.splits option.splits if_splits)
  then have "gp_company pass = company"
    by (auto simp: check_replay_def error_reply_def split: option.splits sum.splits prod.splits)
  then show ?thesis using that parts by simp
qed

lemma check_replay_Go:
  assumes "check_replay now p cache = (Go pass, cache')"
  shows "request_key (gp_request p) = None \<and> pass = p\<lparr>gp_key := None\<rparr> \<or>
    (\<exists>key. request_key (gp_request p) = Some (Inr key) \<and> pass = p\<lparr>gp_key := Some key\<rparr> \<and>
      cache_get now (co_id (gp_company p)) key cache = (None, cache'))"
  using assms by (auto simp: check_replay_def error_reply_def split: option.splits sum.splits prod.splits)

text \<open>
  C24: The cache is only filled when the routes are done.  A repetition that arrives while the first request is
  still with the routes is let through with the same key, and both are carried out, one after the other.
\<close>

theorem concurrent_duplicates_both_run:
  assumes "gate_enter lib early cfg uuid now rq st = (Go pass, st1)" "gp_key pass = Some key"
    and "fst (applyRateLimit (se_rate cfg) rq (rq_pathname rq) (rate_user (gp_identity pass)) now now (sv_limiter st1)) = None"
  shows "\<exists>st2. gate_enter lib early cfg uuid' now rq st1 = (Go pass, st2) \<and>
    (\<forall>t t'. sv_app (snd (gate_finish dispatch cfg t' pass (snd (gate_finish dispatch cfg t pass st2))))
      = snd (dispatch pass (snd (dispatch pass (sv_app st1)))))"
proof -
  obtain idn limiter authority where late: "\<not> early_route rq" and enter: "resolveIdentity lib now rq (se_auth cfg) = Inr idn"
      "resolve_company cfg uuid rq idn (sv_app st) = (Some (gp_company pass, authority), sv_app st1)"
    and replay: "check_replay now \<lparr>gp_request = rq, gp_identity = idn, gp_company = gp_company pass, gp_authority = authority,
       gp_key = None\<rparr> (sv_cache st) = (Go pass, sv_cache st1)"
    using gate_enter_parts [OF assms(1)] by metis
  define company where "company = gp_company pass"
  note replay = replay [folded company_def]
  obtain key' where key': "request_key rq = Some (Inr key')" "cache_get now (co_id company) key' (sv_cache st) = (None, sv_cache st1)"
    "pass = \<lparr>gp_request = rq, gp_identity = idn, gp_company = company, gp_authority = authority, gp_key = Some key'\<rparr>"
    using check_replay_Go [OF replay] assms(2) by auto
  have "key' = key" using assms(2) by (simp add: key'(3))
  note key = key' [unfolded this]
  have "gp_identity pass = idn" by (simp add: key(3))
  then obtain lim where lim: "applyRateLimit (se_rate cfg) rq (rq_pathname rq) (rate_user idn) now now (sv_limiter st1) = (None, lim)"
    using assms(3) by (metis prod.collapse)
  have miss: "cache_get now (co_id company) key (sv_cache st1) = (None, sv_cache st1)"
    by (rule cache_miss_again [OF key(2)])
  have "check_replay now \<lparr>gp_request = rq, gp_identity = idn, gp_company = company, gp_authority = authority,
      gp_key = None\<rparr> (sv_cache st1) = (Go pass, sv_cache st1)"
    using key miss by (simp add: check_replay_def)
  then obtain st2 where st2: "gate_enter lib early cfg uuid' now rq st1 = (Go pass, st2)" "sv_app st2 = sv_app st1"
    using late enter(1) lim getCompany_onboarded [OF enter(2)] by (simp add: gate_enter_def company_def)
  have run: "sv_app (snd (gate_finish dispatch cfg t pass s)) = snd (dispatch pass (sv_app s))" for t s
    by (simp add: gate_finish_def split: prod.splits outcome.splits)
  then show ?thesis using st2 by auto
qed

section \<open>Companies\<close>

lemma consume_company_frame:
  assumes "scope \<noteq> Company_scope" "consume cfg scope key now st = (d, st')"
  shows "lm_buckets st' (bucket_key Company_scope company) \<in> {lm_buckets st (bucket_key Company_scope company), None}"
  using consume_other(1) [of scope key Company_scope company, OF _ assms(2)] assms(1)
  by (auto simp: sweep_def split: option.splits if_splits)

text \<open>
  The cap of a company is counted by the slug header alone, while the company may as well be named by
  the id header: such a request reaches its company and is charged to no company at all.
\<close>

lemma company_cap_evaded:
  assumes "rq_headers rq ''x-sitelayer-company-slug'' = None" "rq_headers rq ''x-sitelayer-company-id'' = Some (One_value (co_id company))"
    and "co_id company \<noteq> []" "find (\<lambda>c. co_id c = co_id company) (ap_companies app) = Some company"
    and "caller_authority (co_id company) (getCurrentUserId rq (se_tier cfg) idn (se_activeUserId cfg)) (ap_roles app) = Some authority"
    and "applyRateLimit (se_rate cfg) rq (rq_pathname rq) user now now st = (r, st')"
  shows "getCompany cfg rq idn app = Some (company, authority) \<and>
    (\<forall>key. lm_buckets st' (bucket_key Company_scope key) \<in> {lm_buckets st (bucket_key Company_scope key), None})"
proof -
  have "findCompany cfg rq app = Some company"
    using assms(2-4) by (simp add: findCompany_def first_value_def truthy_text_def)
  then have "getCompany cfg rq idn app = Some (company, authority)" by (simp add: getCompany_def assms(5))
  moreover have "resolveCompanyKey rq = None"
    by (simp add: resolveCompanyKey_def assms(1) first_value_def truthy_text_def)
  then have "st' = st \<or> (\<exists>scope key d. scope \<noteq> Company_scope \<and> consume (se_rate cfg) scope key now st = (d, st'))"
    using assms(6) by (auto simp: applyRateLimit_def enforceRateLimit_def Let_def truthy_text_def apfst_def map_prod_def
        split: if_splits option.splits prod.splits)
  then have "lm_buckets st' (bucket_key Company_scope key) \<in> {lm_buckets st (bucket_key Company_scope key), None}" for key
    using consume_company_frame [of _ "se_rate cfg" _ now st _ st'] by fast
  ultimately show ?thesis by blast
qed

text \<open>
  C26: Where the first user of a company may claim it, a request that names another company by its id, of which
  the caller is no member, makes the caller administrator of the default company if that has no members yet, and
  is then answered with 404.
\<close>

theorem onboard_wrong_tenant:
  assumes "au_allowFirstUserAdmin (se_auth cfg)" "rq_headers rq ''x-sitelayer-company-slug'' = None"
    and "findCompany cfg rq app = Some other" "getCompany cfg rq idn app = None"
    and "find (\<lambda>c. co_slug c = se_activeCompanySlug cfg) (ap_companies app) = Some fallback" "co_id fallback \<noteq> co_id other"
    and "trim (se_activeCompanySlug cfg) = se_activeCompanySlug cfg" "se_activeCompanySlug cfg \<noteq> []"
    and "trim (id_userId idn) = id_userId idn" "id_userId idn \<noteq> []"
    and "\<not> list_ex (\<lambda>m. mm_company_id m = co_id fallback) (rb_memberships (ap_roles app))"
  shows "\<exists>app'. resolve_company cfg uuid rq idn app = (None, app') \<and>
    map_option au_effectiveRole (caller_authority (co_id fallback) (id_userId idn) (ap_roles app')) = Some Admin"
proof -
  have slug: "getCurrentCompanySlug cfg rq = se_activeCompanySlug cfg"
    by (simp add: getCurrentCompanySlug_def getHeaderValue_def assms(2))
  define m where "m = \<lparr>mm_id = uuid, mm_company_id = co_id fallback, mm_clerk_user_id = id_userId idn, mm_role = ''admin'',
    mm_custom_role_id = None\<rparr>"
  define app' where "app' = app\<lparr>ap_roles := (ap_roles app)\<lparr>rb_memberships := rb_memberships (ap_roles app) @ [m]\<rparr>\<rparr>"
  have onboard: "autoOnboardFirstAdmin uuid (se_activeCompanySlug cfg) (id_userId idn) app = app'"
    using assms(5,7-11) by (simp add: autoOnboardFirstAdmin_def Let_def app'_def m_def)
  have companies: "ap_companies app' = ap_companies app" by (simp add: app'_def)
  have same: "findCompany cfg rq app' = Some other"
    using assms(3) by (simp only: findCompany_def companies)
  have members: "rb_memberships (ap_roles app') = rb_memberships (ap_roles app) @ [m]" by (simp add: app'_def)
  have found: "find P (xs @ [m]) = (case find P xs of None \<Rightarrow> if P m then Some m else None | Some x \<Rightarrow> Some x)" for P xs
    by (induction xs) auto
  have none: "find (\<lambda>x. mm_company_id x = co_id fallback \<and> mm_clerk_user_id x = id_userId idn) (rb_memberships (ap_roles app)) = None"
    using assms(11) by (auto simp: find_None_iff list_ex_iff)
  have "getCompany cfg rq idn app' = None"
    using assms(3,4,6) by (auto simp: getCompany_def same caller_authority_def members found split: option.splits) (simp add: m_def)
  then have "resolve_company cfg uuid rq idn app = (None, app')"
    using assms(1,4,8,10) by (simp add: resolve_company_def slug onboard)
  moreover have "caller_authority (co_id fallback) (id_userId idn) (ap_roles app') = Some (membership_authority m (ap_roles app'))"
    by (simp add: caller_authority_def members found none) (simp add: m_def)
  moreover have "au_effectiveRole (membership_authority m (ap_roles app')) = Admin"
    by (simp add: membership_authority_def m_def some_text_def normalizeCompanyRole_def COMPANY_ROLES_def resolveCompanyRoleAuthority_def)
  ultimately show ?thesis by simp
qed

section \<open>A concrete server\<close>

definition gate_settings :: settings where
  "gate_settings = \<lparr>se_rate = DEFAULT_RATE_LIMIT_CONFIG,
     se_auth = \<lparr>au_clerkJwtKey = None, au_clerkIssuer = None, au_clerkAuthorizedParties = None, au_internalAuthToken = None,
       au_defaultUserId = ''demo-user'', au_allowHeaderFallback = True, au_allowFirstUserAdmin = True\<rparr>,
     se_tier = ''dev'', se_activeCompanySlug = ''main'', se_activeUserId = ''demo-user'', se_ttl = DEFAULT_TTL_MS\<rparr>"

definition post_request :: "string \<Rightarrow> string \<Rightarrow> http_request" where
  "post_request path user = \<lparr>rq_method = ''POST'', rq_pathname = path,
     rq_headers = [''idempotency-key'' \<mapsto> One_value ''k1'', ''x-sitelayer-user-id'' \<mapsto> One_value user,
       ''x-sitelayer-company-id'' \<mapsto> One_value ''co''], rq_remote_address = None, rq_body = []\<rparr>"

definition gate_app :: "nat app" where
  "gate_app = \<lparr>ap_companies = [\<lparr>co_id = ''co'', co_slug = ''acme''\<rparr>, \<lparr>co_id = ''def'', co_slug = ''main''\<rparr>],
     ap_roles = sample_roles, ap_data = 0\<rparr>"

definition count_dispatch :: "nat dispatcher" where
  "count_dispatch pass app = (Through_ctx \<lparr>rp_status = 201, rp_body = ''created''\<rparr>, app\<lparr>ap_data := ap_data app + 1\<rparr>)"

definition sample_early :: "nat early_routers" where
  "sample_early rq idn app = (\<lparr>rp_status = 200, rp_body = ''early''\<rparr>, app)"

definition header_identity :: "string \<Rightarrow> identity" where
  "header_identity user = \<lparr>id_userId = user, id_source = Header, id_actorUserId = None, id_mode = None\<rparr>"

lemma post_identity:
  "user \<in> {''ann'', ''bo''} \<Longrightarrow> resolveIdentity lib now (post_request path user) (se_auth gate_settings) = Inr (header_identity user)"
  by (auto simp: resolveIdentity_def readBearer_def readHeader_def first_value_def truthy_text_def post_request_def gate_settings_def
      header_identity_def trim_def is_space_def)

lemma post_company:
  assumes "user \<in> {''ann'', ''bo''}" "ap_companies app = ap_companies gate_app" "ap_roles app = sample_roles"
  shows "\<exists>authority. resolve_company cfg uuid (post_request path user) (header_identity user) app
    = (Some (\<lparr>co_id = ''co'', co_slug = ''acme''\<rparr>, authority), app)"
proof -
  have acting: "getCurrentUserId (post_request path user) tier (header_identity user) active = user" for tier active
    using assms(1) by (auto simp: getCurrentUserId_def resolveActAsOverride_def readHeader_def first_value_def truthy_text_def
        post_request_def header_identity_def)
  have "findCompany cfg (post_request path user) app = Some \<lparr>co_id = ''co'', co_slug = ''acme''\<rparr>"
    by (simp add: findCompany_def post_request_def first_value_def truthy_text_def assms(2) gate_app_def)
  then show ?thesis
    using assms(1,3) by (auto simp: resolve_company_def getCompany_def acting caller_authority_def sample_roles_def sample_member_def)
qed

lemma post_limit:
  assumes "user \<in> {''ann'', ''bo''}" "path \<in> {''/api/customers'', ''/api/workers''}"
    and "holds_tokens limiter User_scope user 1000 99 \<or> lm_buckets limiter (bucket_key User_scope user) = None"
  shows "\<exists>limiter'. applyRateLimit DEFAULT_RATE_LIMIT_CONFIG (post_request path user) path (rate_user (header_identity user)) 1000 1000 limiter
    = (None, limiter')"
proof -
  obtain d limiter' where run: "consume DEFAULT_RATE_LIMIT_CONFIG User_scope user 1000 limiter = (d, limiter')" by fastforce
  have sane: "sane DEFAULT_RATE_LIMIT_CONFIG User_scope 100" by (simp add: sane_def DEFAULT_RATE_LIMIT_CONFIG_def)
  have "\<exists>cap left. d = Admitted User_scope user cap left"
    using assms(3) consume_now [OF sane _ _ _ run, of 99] consume_now [OF sane _ _ _ run, of 100] by auto
  moreover have "\<not> isRateLimitExempt path"
    using assms(2) by (auto simp: isRateLimitExempt_def starts_with_def segments_def)
  ultimately show ?thesis
    using run assms(1)
    by (auto simp: applyRateLimit_def enforceRateLimit_def resolveCompanyKey_def first_value_def truthy_text_def post_request_def
        rate_user_def header_identity_def rejection_def)
qed

lemma post_key:
  "path \<in> {''/api/customers'', ''/api/workers''} \<Longrightarrow> request_key (post_request path user) = Some (Inr ''k1'')"
  by (auto simp: request_key_def post_request_def validateIdempotencyKey_def trim_def is_space_def MAX_KEY_LENGTH_def
      isIdempotentPostPath_def segments_def starts_with_def exactCreates_def)

lemma post_late: "path \<in> {''/api/customers'', ''/api/workers''} \<Longrightarrow> \<not> early_route (post_request path user)"
  by (auto simp: early_route_def handleAdminRoutes_takes_def handleCompanyRoutes_takes_def handleInviteRoutes_takes_def
      handleFeedbackInviteRoutes_takes_def post_request_def segments_def starts_with_def)

lemma first_post:
  obtains pass st1 where
    "gate_enter lib early gate_settings uuid 1000 (post_request ''/api/customers'' ''ann'') (fresh_server 1000 gate_app) = (Go pass, st1)"
    "gp_key pass = Some ''k1''" "gp_company pass = \<lparr>co_id = ''co'', co_slug = ''acme''\<rparr>" "gp_identity pass = header_identity ''ann''"
    "sv_app st1 = gate_app" "lm_buckets (sv_limiter st1) (bucket_key User_scope ''bo'') = None"
    "holds_tokens (sv_limiter st1) User_scope ''ann'' 1000 99"
proof -
  let ?rq = "post_request ''/api/customers'' ''ann''"
  obtain limiter where lim: "applyRateLimit (se_rate gate_settings) ?rq (rq_pathname ?rq) (rate_user (header_identity ''ann'')) 1000 1000
      (createRateLimiter 1000) = (None, limiter)"
    using post_limit [of "''ann''" "''/api/customers''" "createRateLimiter 1000"]
    by (auto simp: gate_settings_def createRateLimiter_def post_request_def)
  obtain d limiter' where run: "consume DEFAULT_RATE_LIMIT_CONFIG User_scope ''ann'' 1000 (createRateLimiter 1000) = (d, limiter')" by fastforce
  have sane: "sane DEFAULT_RATE_LIMIT_CONFIG User_scope 100" by (simp add: sane_def DEFAULT_RATE_LIMIT_CONFIG_def)
  have limiter: "limiter' = limiter"
    using lim run by (auto simp: applyRateLimit_def enforceRateLimit_def resolveCompanyKey_def first_value_def truthy_text_def
        post_request_def rate_user_def header_identity_def gate_settings_def isRateLimitExempt_def starts_with_def segments_def)
  have ann: "holds_tokens limiter User_scope ''ann'' 1000 99"
    using consume_now [OF sane _ _ _ run, of 100] by (simp add: createRateLimiter_def limiter)
  have bo: "lm_buckets limiter (bucket_key User_scope ''bo'') = None"
    using consume_other(1) [of User_scope "''ann''" User_scope "''bo''", OF _ run]
    by (simp add: createRateLimiter_def sweep_def limiter)
  obtain authority where company: "resolve_company gate_settings uuid ?rq (header_identity ''ann'') gate_app
      = (Some (\<lparr>co_id = ''co'', co_slug = ''acme''\<rparr>, authority), gate_app)"
    using post_company [of "''ann''" gate_app gate_settings uuid "''/api/customers''"] by (auto simp: gate_app_def)
  define pass where "pass = \<lparr>gp_request = ?rq, gp_identity = header_identity ''ann'',
    gp_company = \<lparr>co_id = ''co'', co_slug = ''acme''\<rparr>, gp_authority = authority, gp_key = Some ''k1''\<rparr>"
  have "gate_enter lib early gate_settings uuid 1000 ?rq (fresh_server 1000 gate_app)
      = (Go pass, \<lparr>sv_limiter = limiter, sv_cache = [], sv_app = gate_app\<rparr>)"
    by (simp add: gate_enter_def fresh_server_def post_late post_identity lim company check_replay_def post_key cache_get_def pass_def)
  then show ?thesis by (rule that) (simp_all add: pass_def ann bo)
qed


lemma count_dispatch_run:
  "count_dispatch pass app = (Through_ctx \<lparr>rp_status = 201, rp_body = ''created''\<rparr>, app\<lparr>ap_data := ap_data app + 1\<rparr>)"
  "ap_data (snd (count_dispatch pass app)) = ap_data app + 1"
  by (simp_all add: count_dispatch_def)

lemma concurrent_duplicates_both_run_witness:
  "\<exists>pass st1 st2. gate_enter sample_lib sample_early gate_settings ''m1'' 1000 (post_request ''/api/customers'' ''ann'') (fresh_server 1000 gate_app)
      = (Go pass, st1) \<and>
    gate_enter sample_lib sample_early gate_settings ''m2'' 1000 (post_request ''/api/customers'' ''ann'') st1 = (Go pass, st2) \<and>
    ap_data (sv_app (snd (gate_finish count_dispatch gate_settings 1002 pass
      (snd (gate_finish count_dispatch gate_settings 1001 pass st2))))) = 2"
proof -
  obtain pass st1 where first: "gate_enter sample_lib sample_early gate_settings ''m1'' 1000 (post_request ''/api/customers'' ''ann'')
      (fresh_server 1000 gate_app) = (Go pass, st1)" "gp_key pass = Some ''k1''" "gp_identity pass = header_identity ''ann''"
    "sv_app st1 = gate_app" "holds_tokens (sv_limiter st1) User_scope ''ann'' 1000 99"
    using first_post by metis
  have "fst (applyRateLimit (se_rate gate_settings) (post_request ''/api/customers'' ''ann'')
      (rq_pathname (post_request ''/api/customers'' ''ann'')) (rate_user (gp_identity pass)) 1000 1000 (sv_limiter st1)) = None"
    using post_limit [of "''ann''" "''/api/customers''" "sv_limiter st1"] first(3,5)
    by (auto simp: gate_settings_def post_request_def)
  from concurrent_duplicates_both_run [OF first(1,2) this, of "''m2''" count_dispatch]
  obtain st2 where "gate_enter sample_lib sample_early gate_settings ''m2'' 1000 (post_request ''/api/customers'' ''ann'') st1 = (Go pass, st2)"
    "sv_app (snd (gate_finish count_dispatch gate_settings 1002 pass (snd (gate_finish count_dispatch gate_settings 1001 pass st2))))
      = snd (count_dispatch pass (snd (count_dispatch pass gate_app)))"
    by (auto simp: first(4))
  moreover have "ap_data (snd (count_dispatch pass (snd (count_dispatch pass gate_app)))) = 2"
    by (simp add: count_dispatch_run gate_app_def)
  ultimately show ?thesis using first(1) by metis
qed

text \<open>The post of ann is with the routes; it is answered, others change the data, and bo posts elsewhere with the same key.\<close>

definition ann_enters :: "nat traffic" where
  "ann_enters = traffic_run sample_lib sample_early count_dispatch gate_settings
     [Enter (post_request ''/api/customers'' ''ann'') ''m1'' 1000] \<lparr>tr_server = fresh_server 1000 gate_app, tr_passes = []\<rparr>"

lemma retry_is_replayed_witness:
  "fst (gate_enter sample_lib sample_early gate_settings ''m2'' 1000 (post_request ''/api/workers'' ''bo'')
      (tr_server (traffic_run sample_lib sample_early count_dispatch gate_settings
        [Finish 0 1000, Database (gate_app\<lparr>ap_data := 7\<rparr>)] ann_enters)))
    = Answered \<lparr>rp_status = 201, rp_body = ''created''\<rparr>"
proof -
  let ?rq2 = "post_request ''/api/workers'' ''bo''"
  obtain pass st1 where first: "gate_enter sample_lib sample_early gate_settings ''m1'' 1000 (post_request ''/api/customers'' ''ann'')
      (fresh_server 1000 gate_app) = (Go pass, st1)" "gp_key pass = Some ''k1''" "gp_company pass = \<lparr>co_id = ''co'', co_slug = ''acme''\<rparr>"
    "sv_app st1 = gate_app" "lm_buckets (sv_limiter st1) (bucket_key User_scope ''bo'') = None"
    using first_post by metis
  have tr: "ann_enters = \<lparr>tr_server = st1, tr_passes = [pass]\<rparr>"
    by (simp add: ann_enters_def traffic_run_def first(1))
  define st where "st = tr_server (traffic_run sample_lib sample_early count_dispatch gate_settings
      [Finish 0 1000, Database (gate_app\<lparr>ap_data := 7\<rparr>)] ann_enters)"
  have st: "sv_app st = gate_app\<lparr>ap_data := 7\<rparr>" "sv_limiter st = sv_limiter st1"
    by (simp_all add: st_def traffic_run_def tr gate_finish_def count_dispatch_def)
  have limit: "fst (applyRateLimit (se_rate gate_settings) ?rq2 (rq_pathname ?rq2) (rate_user (header_identity ''bo'')) 1000 1000
      (sv_limiter st)) = None"
    using post_limit [of "''bo''" "''/api/workers''" "sv_limiter st"] first(5) st(2)
    by (auto simp: gate_settings_def post_request_def)
  obtain authority where company: "resolve_company gate_settings ''m2'' ?rq2 (header_identity ''bo'') (sv_app st)
      = (Some (\<lparr>co_id = ''co'', co_slug = ''acme''\<rparr>, authority), sv_app st)"
    using post_company [of "''bo''" "sv_app st" gate_settings "''m2''" "''/api/workers''"] by (auto simp: st gate_app_def)
  have "(1000::int) < 1000 + se_ttl gate_settings" by (simp add: gate_settings_def DEFAULT_TTL_MS_def)
  from retry_is_replayed [OF ann_enters_def _ refl _ _ _ _ _ this post_key post_late post_identity _ company, of 0]
  have "fst (gate_enter sample_lib sample_early gate_settings ''m2'' 1000 ?rq2 st) = Answered \<lparr>rp_status = 201, rp_body = ''created''\<rparr>"
    using limit by (simp add: tr first(2,3) count_dispatch_run st_def)
  then show ?thesis by (simp add: st_def)
qed

lemma onboard_wrong_tenant_witness:
  "\<exists>app'. resolve_company gate_settings ''m1'' (post_request ''/api/workers'' ''zed'') (header_identity ''zed'') gate_app = (None, app') \<and>
    map_option au_effectiveRole (caller_authority ''def'' ''zed'' (ap_roles app')) = Some Admin"
proof -
  let ?rq = "post_request ''/api/workers'' ''zed''"
  have acting: "getCurrentUserId ?rq (se_tier gate_settings) (header_identity ''zed'') (se_activeUserId gate_settings) = ''zed''"
    by (simp add: getCurrentUserId_def resolveActAsOverride_def readHeader_def first_value_def truthy_text_def
        post_request_def header_identity_def)
  have other: "findCompany gate_settings ?rq gate_app = Some \<lparr>co_id = ''co'', co_slug = ''acme''\<rparr>"
    by (simp add: findCompany_def post_request_def first_value_def truthy_text_def gate_app_def)
  have roles: "ap_roles gate_app = sample_roles" by (simp add: gate_app_def)
  have outsider: "getCompany gate_settings ?rq (header_identity ''zed'') gate_app = None"
    by (simp add: getCompany_def other acting roles caller_authority_def sample_roles_def sample_member_def)
  have main: "find (\<lambda>c. co_slug c = se_activeCompanySlug gate_settings) (ap_companies gate_app) = Some \<lparr>co_id = ''def'', co_slug = ''main''\<rparr>"
    by (simp add: gate_settings_def gate_app_def)
  have "trim ''main'' = ''main''" "trim ''zed'' = ''zed''" by (simp_all add: trim_def is_space_def)
  with onboard_wrong_tenant [OF _ _ other outsider main, of "''m1''"] show ?thesis
    by (simp add: gate_settings_def post_request_def header_identity_def gate_app_def sample_roles_def sample_member_def)
qed

end
