(* ===== verification/Crew_Schedule.thy ===== *)
theory Crew_Schedule
  imports Workflow_Core
begin

text \<open>
  The crew schedule workflow (\<open>packages/workflows/src/crew-schedule.ts\<close>): its states, events and
  snapshot, the reducer, the offered events and the descriptor.  \<open>CREATE\<close> is guarded by the version
  beside the state, so the contract is proved directly rather than through a transition table;
  the lemmas show that it can only open a history.
\<close>

section \<open>States, events, snapshot\<close>

datatype crew_schedule_state = Draft | Confirmed | Declined

fun crew_schedule_state_name :: "crew_schedule_state \<Rightarrow> string" where
  "crew_schedule_state_name Draft = ''draft''"
| "crew_schedule_state_name Confirmed = ''confirmed''"
| "crew_schedule_state_name Declined = ''declined''"

definition crew_schedule_all_states :: "crew_schedule_state list" where
  "crew_schedule_all_states = [Draft, Confirmed, Declined]"

definition crew_schedule_terminal_states :: "crew_schedule_state list" where
  "crew_schedule_terminal_states = [Confirmed]"

definition crew_schedule_event_types :: "string list" where
  "crew_schedule_event_types = [
     ''CREATE'',
     ''CONFIRM'',
     ''DECLINE'',
     ''REASSIGN'']"

text \<open>
  Constructor arguments, in order:
  \<^item> \<open>CREATE\<close>: \<open>created_by\<close> (optional)
  \<^item> \<open>CONFIRM\<close>: \<open>confirmed_at\<close>, \<open>confirmed_by\<close>
  \<^item> \<open>DECLINE\<close>: \<open>declined_at\<close>, \<open>declined_by\<close>, \<open>reason\<close>
\<close>

datatype crew_schedule_event =
    CREATE "string field"
  | CONFIRM string string
  | DECLINE string string string
  | REASSIGN

fun crew_schedule_event_type :: "crew_schedule_event \<Rightarrow> string" where
  "crew_schedule_event_type (CREATE _) = ''CREATE''"
| "crew_schedule_event_type (CONFIRM _ _) = ''CONFIRM''"
| "crew_schedule_event_type (DECLINE _ _ _) = ''DECLINE''"
| "crew_schedule_event_type REASSIGN = ''REASSIGN''"

record crew_schedule_snapshot = "crew_schedule_state workflow_snapshot" +
  confirmed_at :: "string field"
  confirmed_by :: "string field"
  created_by :: "string field"
  declined_at :: "string field"
  declined_by :: "string field"
  decline_reason :: "string field"

text \<open>The objects these values are at the JSON boundary.\<close>

definition crew_schedule_snapshot_js :: "crew_schedule_snapshot \<Rightarrow> js" where
  "crew_schedule_snapshot_js snap = JObj [
     (''state'', JStr (crew_schedule_state_name (state snap))),
     (''state_version'', JNum (state_version snap)),
     (''confirmed_at'', field_js JStr (confirmed_at snap)),
     (''confirmed_by'', field_js JStr (confirmed_by snap)),
     (''created_by'', field_js JStr (created_by snap)),
     (''declined_at'', field_js JStr (declined_at snap)),
     (''declined_by'', field_js JStr (declined_by snap)),
     (''decline_reason'', field_js JStr (decline_reason snap))]"

fun crew_schedule_event_js :: "crew_schedule_event \<Rightarrow> js" where
  "crew_schedule_event_js (CREATE ev_created_by) = JObj [
       (''type'', JStr ''CREATE''),
       (''created_by'', field_js JStr ev_created_by)]"
| "crew_schedule_event_js (CONFIRM ev_confirmed_at ev_confirmed_by) = JObj [
       (''type'', JStr ''CONFIRM''),
       (''confirmed_at'', JStr ev_confirmed_at),
       (''confirmed_by'', JStr ev_confirmed_by)]"
| "crew_schedule_event_js (DECLINE ev_declined_at ev_declined_by ev_reason) = JObj [
       (''type'', JStr ''DECLINE''),
       (''declined_at'', JStr ev_declined_at),
       (''declined_by'', JStr ev_declined_by),
       (''reason'', JStr ev_reason)]"
| "crew_schedule_event_js REASSIGN = JObj [
       (''type'', JStr ''REASSIGN'')]"

section \<open>The reducer\<close>

definition assertCrewScheduleTransition ::
  "crew_schedule_state \<Rightarrow> crew_schedule_state list \<Rightarrow> string \<Rightarrow> unit result" where
  "assertCrewScheduleTransition st allowed eventType = assert_in allowed st
     (''event '' @ eventType @ '' is not allowed from crew schedule state '' @ crew_schedule_state_name st)"

fun transitionCrewScheduleWorkflow ::
  "crew_schedule_snapshot \<Rightarrow> crew_schedule_event \<Rightarrow> crew_schedule_snapshot result" where
  "transitionCrewScheduleWorkflow snap (CREATE ev_created_by) =
     (if state snap \<noteq> Draft \<or> state_version snap \<noteq> 0
      then Inl (Error ''event CREATE is only legal on a genesis snapshot (draft @ state_version 0)'')
      else Inr (snap\<lparr>state := Draft,
        state_version := state_version snap + 1,
        created_by := coalesce ev_created_by Null\<rparr>))"
| "transitionCrewScheduleWorkflow snap (CONFIRM ev_confirmed_at ev_confirmed_by) =
     then_return (assertCrewScheduleTransition (state snap) [Draft] ''CONFIRM'')
      (snap\<lparr>state := Confirmed,
        state_version := state_version snap + 1,
        confirmed_at := Val ev_confirmed_at,
        confirmed_by := Val ev_confirmed_by\<rparr>)"
| "transitionCrewScheduleWorkflow snap (DECLINE ev_declined_at ev_declined_by ev_reason) =
     then_return (assertCrewScheduleTransition (state snap) [Draft] ''DECLINE'')
      (snap\<lparr>state := Declined,
        state_version := state_version snap + 1,
        declined_at := Val ev_declined_at,
        declined_by := Val ev_declined_by,
        decline_reason := Val ev_reason\<rparr>)"
| "transitionCrewScheduleWorkflow snap REASSIGN =
     then_return (assertCrewScheduleTransition (state snap) [Declined] ''REASSIGN'')
      (snap\<lparr>state := Draft,
        state_version := state_version snap + 1,
        declined_at := Null,
        declined_by := Null,
        decline_reason := Null\<rparr>)"

section \<open>Offered events and the descriptor\<close>

fun nextCrewScheduleEvents :: "crew_schedule_state \<Rightarrow> next_event list" where
  "nextCrewScheduleEvents Draft = [
       offer ''CONFIRM'' ''Confirm crew schedule'',
       offer ''DECLINE'' ''Decline assignment'']"
| "nextCrewScheduleEvents Confirmed = []"
| "nextCrewScheduleEvents Declined = [
       offer ''REASSIGN'' ''Re-assign'']"

definition isHumanCrewScheduleEvent :: "string \<Rightarrow> bool" where
  "isHumanCrewScheduleEvent eventType \<longleftrightarrow>
     eventType = ''CONFIRM'' \<or>
     eventType = ''DECLINE'' \<or>
     eventType = ''REASSIGN''"

definition crewScheduleWorkflow ::
  "(crew_schedule_state, crew_schedule_event, crew_schedule_snapshot) workflow_definition" where
  "crewScheduleWorkflow = \<lparr>
     wf_name = ''crew_schedule'',
     schemaVersion = 1,
     initialState = Draft,
     terminalStates = crew_schedule_terminal_states,
     allStates = crew_schedule_all_states,
     allEventTypes = crew_schedule_event_types,
     reduce = transitionCrewScheduleWorkflow,
     nextEvents = nextCrewScheduleEvents,
     isHumanEvent = isHumanCrewScheduleEvent,
     sideEffectTypes = [''materialize_labor_entries'', ''notify_foreman_decline'']\<rparr>"

section \<open>The workflow contract\<close>

lemmas crew_schedule_defs = crewScheduleWorkflow_def assertCrewScheduleTransition_def
  crew_schedule_all_states_def crew_schedule_terminal_states_def crew_schedule_event_types_def
  isHumanCrewScheduleEvent_def

interpretation crew_schedule_wf: workflow crewScheduleWorkflow crew_schedule_event_type
proof
  show "state_version s' = state_version s + 1"
    if "reduce crewScheduleWorkflow s e = Inr s'" for s e s'
    using that by (cases e) (auto simp: crew_schedule_defs split: if_splits)
  show "state s' \<in> set (allStates crewScheduleWorkflow)"
    if "reduce crewScheduleWorkflow s e = Inr s'" for s e s'
    by (cases "state s'") (simp_all add: crew_schedule_defs)
  show "crew_schedule_event_type e \<in> set (allEventTypes crewScheduleWorkflow)" for e
    by (cases e) (simp_all add: crew_schedule_defs)
  show "\<exists>e. crew_schedule_event_type e = t"
    if "t \<in> set (allEventTypes crewScheduleWorkflow)" for t
    using that by (auto simp: crew_schedule_defs intro: crew_schedule_event_type.simps)
  show "\<not> is_ok (reduce crewScheduleWorkflow s e)"
    if "state s \<in> set (terminalStates crewScheduleWorkflow)" for s e
    using that by (cases e) (auto simp: crew_schedule_defs)
  show "isHumanEvent crewScheduleWorkflow (ne_type n)"
    if "n \<in> set (nextEvents crewScheduleWorkflow st)" for n st
    using that by (cases st) (auto simp: crew_schedule_defs)
  show "is_ok (reduce crewScheduleWorkflow s e)"
    if "crew_schedule_event_type e \<in> ne_type ` set (nextEvents crewScheduleWorkflow (state s))" for s e
    using that by (cases e; cases "state s") (auto simp: crew_schedule_defs)
qed (auto simp: crew_schedule_defs)

section \<open>Genesis and decline trail\<close>

fun_cases crew_schedule_step: "transitionCrewScheduleWorkflow s e = Inr s'"

definition is_create :: "crew_schedule_event \<Rightarrow> bool" where
  "is_create e \<longleftrightarrow> crew_schedule_event_type e = ''CREATE''"

lemma crew_schedule_create_step:
  "transitionCrewScheduleWorkflow s e = Inr s' \<Longrightarrow> is_create e \<Longrightarrow>
   state s = Draft \<and> state_version s = 0 \<and> state_version s' = 1"
  by (cases e) (auto simp: is_create_def crew_schedule_defs split: if_splits)

lemma crew_schedule_no_create_later:
  "run_events transitionCrewScheduleWorkflow s es = Inr t \<Longrightarrow> state_version s > 0 \<Longrightarrow>
   \<not> list_ex is_create es"
proof (induction es arbitrary: s)
  case Nil
  then show ?case by simp
next
  case (Cons e es)
  then obtain s' where step: "transitionCrewScheduleWorkflow s e = Inr s'"
    and run: "run_events transitionCrewScheduleWorkflow s' es = Inr t"
    by (auto split: sum.splits)
  have "state_version s' = state_version s + 1"
    using crew_schedule_wf.version_step [of s e s'] step by (simp add: crewScheduleWorkflow_def)
  with Cons.IH [OF run] crew_schedule_create_step [OF step] Cons.prems(2) show ?case by auto
qed

definition crew_schedule_inv :: "crew_schedule_snapshot \<Rightarrow> bool" where
  "crew_schedule_inv s \<longleftrightarrow>
     (present (declined_at s) \<longleftrightarrow> state s = Declined) \<and>
     (present (declined_by s) \<longleftrightarrow> state s = Declined) \<and>
     (present (decline_reason s) \<longleftrightarrow> state s = Declined) \<and>
     (present (confirmed_at s) \<longleftrightarrow> state s = Confirmed)"

lemma crew_schedule_inv_step:
  "crew_schedule_inv s \<Longrightarrow> transitionCrewScheduleWorkflow s e = Inr s' \<Longrightarrow> crew_schedule_inv s'"
  by (cases e) (auto simp: crew_schedule_inv_def crew_schedule_defs split: if_splits)

text \<open>
  In any history that starts at the pre-seed origin (\<open>draft\<close> at
  version 0), \<open>CREATE\<close> can only be the very first event, so its log row has version 0 and never
  collides with a human transition's; and the decline trail is present exactly while the
  assignment is declined, the confirmation exactly once it is confirmed.
\<close>

lemma crew_schedule_created_first:
  assumes "state_version s0 = 0" and "crew_schedule_inv s0"
    and "run_events transitionCrewScheduleWorkflow s0 (e # es) = Inr s"
  shows "\<not> list_ex is_create es \<and> crew_schedule_inv s \<and>
    versions_before transitionCrewScheduleWorkflow s0 (e # es) = map int [0..<length (e # es)]"
proof (intro conjI)
  obtain s' where step: "transitionCrewScheduleWorkflow s0 e = Inr s'"
    and run: "run_events transitionCrewScheduleWorkflow s' es = Inr s"
    using assms(3) by (auto split: sum.splits)
  have "state_version s' = 1"
    using crew_schedule_wf.version_step [of s0 e s'] step assms(1)
    by (simp add: crewScheduleWorkflow_def)
  with crew_schedule_no_create_later [OF run] show "\<not> list_ex is_create es" by simp
  show "crew_schedule_inv s"
    using assms(3)
  proof (rule run_events_invariant)
    show "crew_schedule_inv s0" by (rule assms(2))
  qed (rule crew_schedule_inv_step)
  have "versions_before transitionCrewScheduleWorkflow s0 (e # es) =
      map (\<lambda>i. state_version s0 + int i) [0..<length (e # es)]"
    using crew_schedule_wf.versions_before_eq [of s0 "e # es" s] assms(3)
    by (simp only: crewScheduleWorkflow_def workflow_definition.simps)
  with assms(1) show "versions_before transitionCrewScheduleWorkflow s0 (e # es) =
      map int [0..<length (e # es)]" by (simp add: comp_def del: upt_Suc)
qed

definition crew_schedule_origin :: crew_schedule_snapshot where
  "crew_schedule_origin = \<lparr>state = Draft, state_version = 0, confirmed_at = Null,
     confirmed_by = Null, created_by = Null, declined_at = Null, declined_by = Null,
     decline_reason = Null\<rparr>"

end
