(* ===== verification/Project_Closeout.thy ===== *)
theory Project_Closeout
  imports Workflow_Core
begin

text \<open>
  The project closeout workflow (\<open>packages/workflows/src/project-closeout.ts\<close>): its states, events and snapshot,
  the reducer, the offered events and the descriptor, and its refinement of the transition table
  that makes it an instance of the workflow contract.  Also the projection
  \<open>projectStatusToCloseoutState\<close> of the stored columns and its round trip.
\<close>

section \<open>States, events, snapshot\<close>

datatype project_closeout_state = Active | Completed | Post_mortem

fun project_closeout_state_name :: "project_closeout_state \<Rightarrow> string" where
  "project_closeout_state_name Active = ''active''"
| "project_closeout_state_name Completed = ''completed''"
| "project_closeout_state_name Post_mortem = ''post_mortem''"

definition project_closeout_all_states :: "project_closeout_state list" where
  "project_closeout_all_states = [Active, Completed, Post_mortem]"

definition project_closeout_terminal_states :: "project_closeout_state list" where
  "project_closeout_terminal_states = [Post_mortem]"

definition project_closeout_event_types :: "string list" where
  "project_closeout_event_types = [
     ''CLOSEOUT'',
     ''ACKNOWLEDGE_POST_MORTEM'']"

text \<open>
  Constructor arguments, in order:
  \<^item> \<open>CLOSEOUT\<close>: \<open>closed_at\<close>, \<open>closed_by\<close>
  \<^item> \<open>ACKNOWLEDGE_POST_MORTEM\<close>: \<open>acknowledged_at\<close>, \<open>acknowledged_by\<close>
\<close>

datatype project_closeout_event =
    CLOSEOUT string string
  | ACKNOWLEDGE_POST_MORTEM string string

fun project_closeout_event_type :: "project_closeout_event \<Rightarrow> string" where
  "project_closeout_event_type (CLOSEOUT _ _) = ''CLOSEOUT''"
| "project_closeout_event_type (ACKNOWLEDGE_POST_MORTEM _ _) = ''ACKNOWLEDGE_POST_MORTEM''"

record project_closeout_snapshot = "project_closeout_state workflow_snapshot" +
  closed_at :: "string field"
  closed_by :: "string field"
  summary_locked_at :: "string field"
  post_mortem_acknowledged_at :: "string field"
  post_mortem_acknowledged_by :: "string field"

text \<open>The objects these values are at the JSON boundary.\<close>

definition project_closeout_snapshot_js :: "project_closeout_snapshot \<Rightarrow> js" where
  "project_closeout_snapshot_js snap = JObj [
     (''state'', JStr (project_closeout_state_name (state snap))),
     (''state_version'', JNum (state_version snap)),
     (''closed_at'', field_js JStr (closed_at snap)),
     (''closed_by'', field_js JStr (closed_by snap)),
     (''summary_locked_at'', field_js JStr (summary_locked_at snap)),
     (''post_mortem_acknowledged_at'', field_js JStr (post_mortem_acknowledged_at snap)),
     (''post_mortem_acknowledged_by'', field_js JStr (post_mortem_acknowledged_by snap))]"

fun project_closeout_event_js :: "project_closeout_event \<Rightarrow> js" where
  "project_closeout_event_js (CLOSEOUT ev_closed_at ev_closed_by) = JObj [
       (''type'', JStr ''CLOSEOUT''),
       (''closed_at'', JStr ev_closed_at),
       (''closed_by'', JStr ev_closed_by)]"
| "project_closeout_event_js (ACKNOWLEDGE_POST_MORTEM ev_acknowledged_at ev_acknowledged_by) = JObj [
       (''type'', JStr ''ACKNOWLEDGE_POST_MORTEM''),
       (''acknowledged_at'', JStr ev_acknowledged_at),
       (''acknowledged_by'', JStr ev_acknowledged_by)]"

section \<open>The reducer\<close>

definition assertProjectCloseoutTransition ::
  "project_closeout_state \<Rightarrow> project_closeout_state list \<Rightarrow> string \<Rightarrow> unit result" where
  "assertProjectCloseoutTransition st allowed eventType = assert_in allowed st
     (''event '' @ eventType @ '' is not allowed from project closeout state '' @ project_closeout_state_name st)"

fun transitionProjectCloseoutWorkflow ::
  "project_closeout_snapshot \<Rightarrow> project_closeout_event \<Rightarrow> project_closeout_snapshot result" where
  "transitionProjectCloseoutWorkflow snap (CLOSEOUT ev_closed_at ev_closed_by) =
     then_return (assertProjectCloseoutTransition (state snap) [Active] ''CLOSEOUT'')
      (snap\<lparr>state := Completed,
        state_version := state_version snap + 1,
        closed_at := Val ev_closed_at,
        closed_by := Val ev_closed_by,
        summary_locked_at := coalesce (summary_locked_at snap) (Val ev_closed_at)\<rparr>)"
| "transitionProjectCloseoutWorkflow snap (ACKNOWLEDGE_POST_MORTEM ev_acknowledged_at ev_acknowledged_by) =
     then_return (assertProjectCloseoutTransition (state snap) [Completed] ''ACKNOWLEDGE_POST_MORTEM'')
      (snap\<lparr>state := Post_mortem,
        state_version := state_version snap + 1,
        post_mortem_acknowledged_at := coalesce (post_mortem_acknowledged_at snap) (Val ev_acknowledged_at),
        post_mortem_acknowledged_by := coalesce (post_mortem_acknowledged_by snap) (Val ev_acknowledged_by)\<rparr>)"

section \<open>Offered events and the descriptor\<close>

fun nextProjectCloseoutEvents :: "project_closeout_state \<Rightarrow> next_event list" where
  "nextProjectCloseoutEvents Active = [
       offer ''CLOSEOUT'' ''Mark project complete'']"
| "nextProjectCloseoutEvents Completed = [
       offer ''ACKNOWLEDGE_POST_MORTEM'' ''Open post-mortem'']"
| "nextProjectCloseoutEvents Post_mortem = []"

definition isHumanProjectCloseoutEvent :: "string \<Rightarrow> bool" where
  "isHumanProjectCloseoutEvent eventType \<longleftrightarrow>
     eventType = ''CLOSEOUT'' \<or>
     eventType = ''ACKNOWLEDGE_POST_MORTEM''"

definition projectCloseoutWorkflow ::
  "(project_closeout_state, project_closeout_event, project_closeout_snapshot) workflow_definition" where
  "projectCloseoutWorkflow = \<lparr>
     wf_name = ''project_closeout'',
     schemaVersion = 1,
     initialState = Active,
     terminalStates = project_closeout_terminal_states,
     allStates = project_closeout_all_states,
     allEventTypes = project_closeout_event_types,
     reduce = transitionProjectCloseoutWorkflow,
     nextEvents = nextProjectCloseoutEvents,
     isHumanEvent = isHumanProjectCloseoutEvent,
     sideEffectTypes = []\<rparr>"

section \<open>Refinement of the transition table\<close>

definition project_closeout_edges :: "project_closeout_state edge list" where
  "project_closeout_edges = [
     (Active, ''CLOSEOUT'', Completed),
     (Completed, ''ACKNOWLEDGE_POST_MORTEM'', Post_mortem)]"

lemmas project_closeout_defs = projectCloseoutWorkflow_def assertProjectCloseoutTransition_def
  project_closeout_all_states_def project_closeout_terminal_states_def project_closeout_event_types_def
  isHumanProjectCloseoutEvent_def project_closeout_edges_def

interpretation project_closeout_wf: table_workflow projectCloseoutWorkflow project_closeout_event_type project_closeout_edges
proof
  show "state_version s' = state_version s + 1 \<and>
      (state s, project_closeout_event_type e, state s') \<in> set project_closeout_edges"
    if "reduce projectCloseoutWorkflow s e = Inr s'" for s e s'
    using that by (cases e) (auto simp: project_closeout_defs)
  show "is_ok (reduce projectCloseoutWorkflow s e)"
    if "(state s, project_closeout_event_type e, b) \<in> set project_closeout_edges" for s e b
    using that by (cases e) (auto simp: project_closeout_defs)
  show "st \<in> set (allStates projectCloseoutWorkflow)" for st
    by (cases st) (simp_all add: project_closeout_defs)
  show "project_closeout_event_type e \<in> set (allEventTypes projectCloseoutWorkflow)" for e
    by (cases e) (simp_all add: project_closeout_defs)
  show "\<exists>e. project_closeout_event_type e = t" if "t \<in> set (allEventTypes projectCloseoutWorkflow)" for t
    using that by (auto simp: project_closeout_defs intro: project_closeout_event_type.simps)
qed (auto simp: project_closeout_defs table_ok_def has_edge_def)

interpretation project_closeout_live: live_workflow projectCloseoutWorkflow project_closeout_event_type
  by (rule project_closeout_wf.live_if_table_live) (simp add: table_live_def project_closeout_defs)

section \<open>The status projection\<close>

definition projectStatusToCloseoutState :: "string \<Rightarrow> string field \<Rightarrow> project_closeout_state" where
  "projectStatusToCloseoutState status postMortemAcknowledgedAt =
     (if status = ''completed''
      then (if present postMortemAcknowledgedAt then Post_mortem else Completed)
      else Active)"

text \<open>
  The \<open>projects.status\<close> column a state is written to (the documented projection: both
  \<open>completed\<close> and \<open>post_mortem\<close> are stored as \<open>completed\<close>).
\<close>

definition closeout_status_column :: "project_closeout_state \<Rightarrow> string" where
  "closeout_status_column st = (if st = Active then ''active'' else ''completed'')"

definition project_closeout_inv :: "project_closeout_snapshot \<Rightarrow> bool" where
  "project_closeout_inv s \<longleftrightarrow>
     (present (post_mortem_acknowledged_at s) \<longleftrightarrow> state s = Post_mortem) \<and>
     (state s \<noteq> Active \<longrightarrow> present (closed_at s) \<and> present (closed_by s) \<and>
        present (summary_locked_at s))"

fun_cases project_closeout_step: "transitionProjectCloseoutWorkflow s e = Inr s'"

lemma project_closeout_inv_step:
  "project_closeout_inv s \<Longrightarrow> transitionProjectCloseoutWorkflow s e = Inr s' \<Longrightarrow>
   project_closeout_inv s'"
  by (cases e) (auto simp: project_closeout_inv_def project_closeout_defs)

lemma summary_lock_step:
  "transitionProjectCloseoutWorkflow s e = Inr s' \<Longrightarrow> present (summary_locked_at s) \<Longrightarrow>
   summary_locked_at s' = summary_locked_at s"
  by (cases e) (auto simp: project_closeout_defs present_iff)

text \<open>
  Reading a project's stored \<open>status\<close> column and acknowledgement
  timestamp back with \<open>projectStatusToCloseoutState\<close> recovers the reducer's state, in every
  snapshot reachable from an active project; and once the summary is locked no later event
  moves the lock.
\<close>

lemma project_closeout_status_roundtrip:
  assumes "state s0 = Active" and "\<not> present (post_mortem_acknowledged_at s0)"
    and "run_events transitionProjectCloseoutWorkflow s0 es = Inr s"
  shows "projectStatusToCloseoutState (closeout_status_column (state s))
      (post_mortem_acknowledged_at s) = state s \<and>
    (present (summary_locked_at s0) \<longrightarrow> summary_locked_at s = summary_locked_at s0)"
proof -
  have "project_closeout_inv s"
    using assms(3)
  proof (rule run_events_invariant)
    show "project_closeout_inv s0"
      using assms by (simp add: project_closeout_inv_def)
  qed (rule project_closeout_inv_step)
  then have "projectStatusToCloseoutState (closeout_status_column (state s))
      (post_mortem_acknowledged_at s) = state s"
    by (cases "state s")
      (simp_all add: project_closeout_inv_def projectStatusToCloseoutState_def closeout_status_column_def)
  moreover have "summary_locked_at s = summary_locked_at s0" if "present (summary_locked_at s0)"
    using assms(3) by (rule run_events_invariant) (use that summary_lock_step in auto)
  ultimately show ?thesis by blast
qed

definition project_closeout_example :: project_closeout_snapshot where
  "project_closeout_example = \<lparr>state = Active, state_version = 4, closed_at = Null,
     closed_by = Null, summary_locked_at = Val ''t0'', post_mortem_acknowledged_at = Null,
     post_mortem_acknowledged_by = Null\<rparr>"

end
