(* ===== verification/Estimate_Push.thy ===== *)
theory Estimate_Push
  imports Workflow_Core
begin

text \<open>
  The estimate push workflow (\<open>packages/workflows/src/estimate-push.ts\<close>): its states, events and snapshot,
  the reducer, the offered events and the descriptor, and its refinement of the transition table
  that makes it an instance of the workflow contract.  Also the row mapper \<open>estimatePushRowToSnapshot\<close>
  and the order of review, approval and posting in the stamps.
\<close>

section \<open>States, events, snapshot\<close>

datatype estimate_push_state = Drafted | Reviewed | Approved | Posting | Posted | Failed | Voided

fun estimate_push_state_name :: "estimate_push_state \<Rightarrow> string" where
  "estimate_push_state_name Drafted = ''drafted''"
| "estimate_push_state_name Reviewed = ''reviewed''"
| "estimate_push_state_name Approved = ''approved''"
| "estimate_push_state_name Posting = ''posting''"
| "estimate_push_state_name Posted = ''posted''"
| "estimate_push_state_name Failed = ''failed''"
| "estimate_push_state_name Voided = ''voided''"

definition estimate_push_all_states :: "estimate_push_state list" where
  "estimate_push_all_states = [Drafted, Reviewed, Approved, Posting, Posted, Failed, Voided]"

definition estimate_push_terminal_states :: "estimate_push_state list" where
  "estimate_push_terminal_states = [Posted, Voided]"

definition estimate_push_event_types :: "string list" where
  "estimate_push_event_types = [
     ''REVIEW'',
     ''APPROVE'',
     ''POST_REQUESTED'',
     ''POST_SUCCEEDED'',
     ''POST_FAILED'',
     ''RETRY_POST'',
     ''VOID'']"

text \<open>
  Constructor arguments, in order:
  \<^item> \<open>REVIEW\<close>: \<open>reviewed_at\<close>, \<open>reviewed_by\<close>
  \<^item> \<open>APPROVE\<close>: \<open>approved_at\<close>, \<open>approved_by\<close>
  \<^item> \<open>POST_SUCCEEDED\<close>: \<open>posted_at\<close>, \<open>qbo_estimate_id\<close>
  \<^item> \<open>POST_FAILED\<close>: \<open>failed_at\<close>, \<open>error\<close>
\<close>

datatype estimate_push_event =
    REVIEW string string
  | APPROVE string string
  | POST_REQUESTED
  | POST_SUCCEEDED string string
  | POST_FAILED string string
  | RETRY_POST
  | VOID

fun estimate_push_event_type :: "estimate_push_event \<Rightarrow> string" where
  "estimate_push_event_type (REVIEW _ _) = ''REVIEW''"
| "estimate_push_event_type (APPROVE _ _) = ''APPROVE''"
| "estimate_push_event_type POST_REQUESTED = ''POST_REQUESTED''"
| "estimate_push_event_type (POST_SUCCEEDED _ _) = ''POST_SUCCEEDED''"
| "estimate_push_event_type (POST_FAILED _ _) = ''POST_FAILED''"
| "estimate_push_event_type RETRY_POST = ''RETRY_POST''"
| "estimate_push_event_type VOID = ''VOID''"

record estimate_push_snapshot = "estimate_push_state workflow_snapshot" +
  reviewed_at :: "string field"
  reviewed_by :: "string field"
  approved_at :: "string field"
  approved_by :: "string field"
  posted_at :: "string field"
  failed_at :: "string field"
  error :: "string field"
  qbo_estimate_id :: "string field"

text \<open>The objects these values are at the JSON boundary.\<close>

definition estimate_push_snapshot_js :: "estimate_push_snapshot \<Rightarrow> js" where
  "estimate_push_snapshot_js snap = JObj [
     (''state'', JStr (estimate_push_state_name (state snap))),
     (''state_version'', JNum (state_version snap)),
     (''reviewed_at'', field_js JStr (reviewed_at snap)),
     (''reviewed_by'', field_js JStr (reviewed_by snap)),
     (''approved_at'', field_js JStr (approved_at snap)),
     (''approved_by'', field_js JStr (approved_by snap)),
     (''posted_at'', field_js JStr (posted_at snap)),
     (''failed_at'', field_js JStr (failed_at snap)),
     (''error'', field_js JStr (error snap)),
     (''qbo_estimate_id'', field_js JStr (qbo_estimate_id snap))]"

fun estimate_push_event_js :: "estimate_push_event \<Rightarrow> js" where
  "estimate_push_event_js (REVIEW ev_reviewed_at ev_reviewed_by) = JObj [
       (''type'', JStr ''REVIEW''),
       (''reviewed_at'', JStr ev_reviewed_at),
       (''reviewed_by'', JStr ev_reviewed_by)]"
| "estimate_push_event_js (APPROVE ev_approved_at ev_approved_by) = JObj [
       (''type'', JStr ''APPROVE''),
       (''approved_at'', JStr ev_approved_at),
       (''approved_by'', JStr ev_approved_by)]"
| "estimate_push_event_js POST_REQUESTED = JObj [
       (''type'', JStr ''POST_REQUESTED'')]"
| "estimate_push_event_js (POST_SUCCEEDED ev_posted_at ev_qbo_estimate_id) = JObj [
       (''type'', JStr ''POST_SUCCEEDED''),
       (''posted_at'', JStr ev_posted_at),
       (''qbo_estimate_id'', JStr ev_qbo_estimate_id)]"
| "estimate_push_event_js (POST_FAILED ev_failed_at ev_error) = JObj [
       (''type'', JStr ''POST_FAILED''),
       (''failed_at'', JStr ev_failed_at),
       (''error'', JStr ev_error)]"
| "estimate_push_event_js RETRY_POST = JObj [
       (''type'', JStr ''RETRY_POST'')]"
| "estimate_push_event_js VOID = JObj [
       (''type'', JStr ''VOID'')]"

section \<open>The reducer\<close>

definition assertEstimatePushTransition ::
  "estimate_push_state \<Rightarrow> estimate_push_state list \<Rightarrow> string \<Rightarrow> unit result" where
  "assertEstimatePushTransition st allowed eventType = assert_in allowed st
     (''event '' @ eventType @ '' is not allowed from estimate push state '' @ estimate_push_state_name st)"

fun transitionEstimatePushWorkflow ::
  "estimate_push_snapshot \<Rightarrow> estimate_push_event \<Rightarrow> estimate_push_snapshot result" where
  "transitionEstimatePushWorkflow snap (REVIEW ev_reviewed_at ev_reviewed_by) =
     then_return (assertEstimatePushTransition (state snap) [Drafted] ''REVIEW'')
      (snap\<lparr>state := Reviewed,
        state_version := state_version snap + 1,
        reviewed_at := Val ev_reviewed_at,
        reviewed_by := Val ev_reviewed_by\<rparr>)"
| "transitionEstimatePushWorkflow snap (APPROVE ev_approved_at ev_approved_by) =
     then_return (assertEstimatePushTransition (state snap) [Reviewed] ''APPROVE'')
      (snap\<lparr>state := Approved,
        state_version := state_version snap + 1,
        approved_at := Val ev_approved_at,
        approved_by := Val ev_approved_by,
        error := Null,
        failed_at := Null\<rparr>)"
| "transitionEstimatePushWorkflow snap POST_REQUESTED =
     then_return (assertEstimatePushTransition (state snap) [Approved, Failed] ''POST_REQUESTED'')
      (snap\<lparr>state := Posting,
        state_version := state_version snap + 1,
        error := Null,
        failed_at := Null\<rparr>)"
| "transitionEstimatePushWorkflow snap (POST_SUCCEEDED ev_posted_at ev_qbo_estimate_id) =
     then_return (assertEstimatePushTransition (state snap) [Posting] ''POST_SUCCEEDED'')
      (snap\<lparr>state := Posted,
        state_version := state_version snap + 1,
        posted_at := Val ev_posted_at,
        qbo_estimate_id := Val ev_qbo_estimate_id,
        error := Null,
        failed_at := Null\<rparr>)"
| "transitionEstimatePushWorkflow snap (POST_FAILED ev_failed_at ev_error) =
     then_return (assertEstimatePushTransition (state snap) [Posting] ''POST_FAILED'')
      (snap\<lparr>state := Failed,
        state_version := state_version snap + 1,
        failed_at := Val ev_failed_at,
        error := Val ev_error\<rparr>)"
| "transitionEstimatePushWorkflow snap RETRY_POST =
     then_return (assertEstimatePushTransition (state snap) [Failed] ''RETRY_POST'')
      (snap\<lparr>state := Approved,
        state_version := state_version snap + 1,
        error := Null,
        failed_at := Null\<rparr>)"
| "transitionEstimatePushWorkflow snap VOID =
     then_return (assertEstimatePushTransition (state snap) [Drafted, Reviewed, Approved, Failed] ''VOID'')
      (snap\<lparr>state := Voided,
        state_version := state_version snap + 1\<rparr>)"

section \<open>Offered events and the descriptor\<close>

fun nextEstimatePushEvents :: "estimate_push_state \<Rightarrow> next_event list" where
  "nextEstimatePushEvents Drafted = [
       offer ''REVIEW'' ''Mark reviewed'',
       offer ''VOID'' ''Void'']"
| "nextEstimatePushEvents Reviewed = [
       offer ''APPROVE'' ''Approve estimate'',
       offer ''VOID'' ''Void'']"
| "nextEstimatePushEvents Approved = [
       offer ''POST_REQUESTED'' ''Push estimate to QuickBooks'',
       offer ''VOID'' ''Void'']"
| "nextEstimatePushEvents Posting = []"
| "nextEstimatePushEvents Posted = []"
| "nextEstimatePushEvents Failed = [
       offer ''RETRY_POST'' ''Retry QuickBooks push'',
       offer ''VOID'' ''Void'']"
| "nextEstimatePushEvents Voided = []"

definition isHumanEstimatePushEvent :: "string \<Rightarrow> bool" where
  "isHumanEstimatePushEvent eventType \<longleftrightarrow>
     eventType = ''REVIEW'' \<or>
     eventType = ''APPROVE'' \<or>
     eventType = ''POST_REQUESTED'' \<or>
     eventType = ''RETRY_POST'' \<or>
     eventType = ''VOID''"

definition estimatePushWorkflow ::
  "(estimate_push_state, estimate_push_event, estimate_push_snapshot) workflow_definition" where
  "estimatePushWorkflow = \<lparr>
     wf_name = ''estimate_push'',
     schemaVersion = 1,
     initialState = Drafted,
     terminalStates = estimate_push_terminal_states,
     allStates = estimate_push_all_states,
     allEventTypes = estimate_push_event_types,
     reduce = transitionEstimatePushWorkflow,
     nextEvents = nextEstimatePushEvents,
     isHumanEvent = isHumanEstimatePushEvent,
     sideEffectTypes = [''post_qbo_estimate'']\<rparr>"

section \<open>Refinement of the transition table\<close>

definition estimate_push_edges :: "estimate_push_state edge list" where
  "estimate_push_edges = [
     (Drafted, ''REVIEW'', Reviewed),
     (Reviewed, ''APPROVE'', Approved),
     (Approved, ''POST_REQUESTED'', Posting),
     (Failed, ''POST_REQUESTED'', Posting),
     (Posting, ''POST_SUCCEEDED'', Posted),
     (Posting, ''POST_FAILED'', Failed),
     (Failed, ''RETRY_POST'', Approved),
     (Drafted, ''VOID'', Voided),
     (Reviewed, ''VOID'', Voided),
     (Approved, ''VOID'', Voided),
     (Failed, ''VOID'', Voided)]"

lemmas estimate_push_defs = estimatePushWorkflow_def assertEstimatePushTransition_def
  estimate_push_all_states_def estimate_push_terminal_states_def estimate_push_event_types_def
  isHumanEstimatePushEvent_def estimate_push_edges_def

interpretation estimate_push_wf: table_workflow estimatePushWorkflow estimate_push_event_type estimate_push_edges
proof
  show "state_version s' = state_version s + 1 \<and>
      (state s, estimate_push_event_type e, state s') \<in> set estimate_push_edges"
    if "reduce estimatePushWorkflow s e = Inr s'" for s e s'
    using that by (cases e) (auto simp: estimate_push_defs)
  show "is_ok (reduce estimatePushWorkflow s e)"
    if "(state s, estimate_push_event_type e, b) \<in> set estimate_push_edges" for s e b
    using that by (cases e) (auto simp: estimate_push_defs)
  show "st \<in> set (allStates estimatePushWorkflow)" for st
    by (cases st) (simp_all add: estimate_push_defs)
  show "estimate_push_event_type e \<in> set (allEventTypes estimatePushWorkflow)" for e
    by (cases e) (simp_all add: estimate_push_defs)
  show "\<exists>e. estimate_push_event_type e = t" if "t \<in> set (allEventTypes estimatePushWorkflow)" for t
    using that by (auto simp: estimate_push_defs intro: estimate_push_event_type.simps)
qed (auto simp: estimate_push_defs table_ok_def has_edge_def)

interpretation estimate_push_live: live_workflow estimatePushWorkflow estimate_push_event_type
  by (rule estimate_push_wf.live_if_table_live) (simp add: table_live_def estimate_push_defs)

section \<open>Persisted rows\<close>

text \<open>\<open>estimatePushRowToSnapshot\<close>; the unchecked cast of \<open>row.status\<close> as in \<open>Rental_Billing\<close>.\<close>

record estimate_push_row =
  row_status :: string
  row_state_version :: int
  row_reviewed_at :: "string field"
  row_reviewed_by :: "string field"
  row_approved_at :: "string field"
  row_approved_by :: "string field"
  row_posted_at :: "string field"
  row_failed_at :: "string field"
  row_error :: "string field"
  row_qbo_estimate_id :: "string field"

definition estimate_push_state_of_name :: "string \<Rightarrow> estimate_push_state option" where
  "estimate_push_state_of_name n =
     find (\<lambda>st. estimate_push_state_name st = n) estimate_push_all_states"

definition estimatePushRowToSnapshot :: "estimate_push_row \<Rightarrow> estimate_push_snapshot option" where
  "estimatePushRowToSnapshot row =
     map_option (\<lambda>st. \<lparr>state = st,
       state_version = row_state_version row,
       reviewed_at = coalesce (row_reviewed_at row) Null,
       reviewed_by = coalesce (row_reviewed_by row) Null,
       approved_at = coalesce (row_approved_at row) Null,
       approved_by = coalesce (row_approved_by row) Null,
       posted_at = coalesce (row_posted_at row) Null,
       failed_at = coalesce (row_failed_at row) Null,
       error = coalesce (row_error row) Null,
       qbo_estimate_id = coalesce (row_qbo_estimate_id row) Null\<rparr>)
     (estimate_push_state_of_name (row_status row))"

section \<open>Nothing is pushed before it is reviewed and approved\<close>

fun_cases estimate_push_step: "transitionEstimatePushWorkflow s e = Inr s'"

definition estimate_push_fresh :: "estimate_push_snapshot \<Rightarrow> bool" where
  "estimate_push_fresh s \<longleftrightarrow> state s = Drafted \<and> \<not> present (posted_at s) \<and>
     \<not> present (approved_at s) \<and> \<not> present (error s) \<and> \<not> present (qbo_estimate_id s)"

definition estimate_push_inv :: "estimate_push_snapshot \<Rightarrow> bool" where
  "estimate_push_inv s \<longleftrightarrow>
     (state s \<in> {Reviewed, Approved, Posting, Posted, Failed} \<longrightarrow>
        present (reviewed_at s) \<and> present (reviewed_by s)) \<and>
     (state s \<in> {Approved, Posting, Posted, Failed} \<longrightarrow>
        present (approved_at s) \<and> present (approved_by s)) \<and>
     (state s \<in> {Drafted, Reviewed} \<longrightarrow> \<not> present (approved_at s)) \<and>
     (present (qbo_estimate_id s) \<longleftrightarrow> state s = Posted) \<and>
     (present (posted_at s) \<longleftrightarrow> state s = Posted) \<and>
     (present (error s) \<longrightarrow> state s \<in> {Failed, Voided})"

lemma estimate_push_inv_step:
  "estimate_push_inv s \<Longrightarrow> transitionEstimatePushWorkflow s e = Inr s' \<Longrightarrow> estimate_push_inv s'"
  by (cases e) (auto simp: estimate_push_inv_def estimate_push_defs)

text \<open>
  An estimate that reached QuickBooks was reviewed and then approved:
  in every snapshot reachable from a fresh draft the review stamps are set from \<open>reviewed\<close> on,
  the approval stamps from \<open>approved\<close> on (and never earlier), and the QuickBooks estimate id
  exactly in \<open>posted\<close>.
\<close>

lemma estimate_push_reviewed_first:
  assumes "estimate_push_fresh s0" and "reachable transitionEstimatePushWorkflow s0 s"
  shows "estimate_push_inv s"
  using assms(2)
proof (rule reachable_invariant)
  show "estimate_push_inv s0"
    using assms(1) by (simp add: estimate_push_fresh_def estimate_push_inv_def)
qed (rule estimate_push_inv_step)

definition estimate_push_example :: estimate_push_snapshot where
  "estimate_push_example = \<lparr>state = Drafted, state_version = 1, reviewed_at = Null,
     reviewed_by = Null, approved_at = Null, approved_by = Null, posted_at = Null,
     failed_at = Null, error = Null, qbo_estimate_id = Null\<rparr>"

end
