(* ===== verification/Estimate_Share.thy ===== *)
theory Estimate_Share
  imports Workflow_Core
begin

text \<open>
  The estimate share workflow (\<open>packages/workflows/src/estimate-share.ts\<close>): its states, events and snapshot,
  the reducer, the offered events and the descriptor, and its refinement of the transition table
  that makes it an instance of the workflow contract.  Its own lemmas are about the view counter.
\<close>

section \<open>States, events, snapshot\<close>

datatype estimate_share_state = Sent | Viewed | Accepted | Declined | Expired | Revoked

fun estimate_share_state_name :: "estimate_share_state \<Rightarrow> string" where
  "estimate_share_state_name Sent = ''sent''"
| "estimate_share_state_name Viewed = ''viewed''"
| "estimate_share_state_name Accepted = ''accepted''"
| "estimate_share_state_name Declined = ''declined''"
| "estimate_share_state_name Expired = ''expired''"
| "estimate_share_state_name Revoked = ''revoked''"

definition estimate_share_all_states :: "estimate_share_state list" where
  "estimate_share_all_states = [Sent, Viewed, Accepted, Declined, Expired, Revoked]"

definition estimate_share_terminal_states :: "estimate_share_state list" where
  "estimate_share_terminal_states = [Accepted, Declined, Expired, Revoked]"

definition estimate_share_event_types :: "string list" where
  "estimate_share_event_types = [
     ''VIEW'',
     ''ACCEPT'',
     ''DECLINE'',
     ''EXPIRE'',
     ''REVOKE'']"

text \<open>
  Constructor arguments, in order:
  \<^item> \<open>VIEW\<close>: \<open>viewed_at\<close>
  \<^item> \<open>ACCEPT\<close>: \<open>accepted_at\<close>, \<open>signer_name\<close>, \<open>signature_data_url\<close> (optional), \<open>signer_ip\<close> (optional)
  \<^item> \<open>DECLINE\<close>: \<open>declined_at\<close>, \<open>decline_reason\<close> (optional)
  \<^item> \<open>EXPIRE\<close>: \<open>expired_at\<close>
  \<^item> \<open>REVOKE\<close>: \<open>revoked_at\<close>, \<open>revoked_by\<close>
\<close>

datatype estimate_share_event =
    VIEW string
  | ACCEPT string string "string field" "string field"
  | DECLINE string "string field"
  | EXPIRE string
  | REVOKE string string

fun estimate_share_event_type :: "estimate_share_event \<Rightarrow> string" where
  "estimate_share_event_type (VIEW _) = ''VIEW''"
| "estimate_share_event_type (ACCEPT _ _ _ _) = ''ACCEPT''"
| "estimate_share_event_type (DECLINE _ _) = ''DECLINE''"
| "estimate_share_event_type (EXPIRE _) = ''EXPIRE''"
| "estimate_share_event_type (REVOKE _ _) = ''REVOKE''"

record estimate_share_snapshot = "estimate_share_state workflow_snapshot" +
  recipient_email :: "string field"
  recipient_name :: "string field"
  message :: "string field"
  include_signed_link :: "bool field"
  sent_at :: "string field"
  expires_at :: "string field"
  viewed_at :: "string field"
  view_count :: "int field"
  accepted_at :: "string field"
  signer_name :: "string field"
  declined_at :: "string field"
  decline_reason :: "string field"
  revoked_at :: "string field"

text \<open>The objects these values are at the JSON boundary.\<close>

definition estimate_share_snapshot_js :: "estimate_share_snapshot \<Rightarrow> js" where
  "estimate_share_snapshot_js snap = JObj [
     (''state'', JStr (estimate_share_state_name (state snap))),
     (''state_version'', JNum (state_version snap)),
     (''recipient_email'', field_js JStr (recipient_email snap)),
     (''recipient_name'', field_js JStr (recipient_name snap)),
     (''message'', field_js JStr (message snap)),
     (''include_signed_link'', field_js JBool (include_signed_link snap)),
     (''sent_at'', field_js JStr (sent_at snap)),
     (''expires_at'', field_js JStr (expires_at snap)),
     (''viewed_at'', field_js JStr (viewed_at snap)),
     (''view_count'', field_js JNum (view_count snap)),
     (''accepted_at'', field_js JStr (accepted_at snap)),
     (''signer_name'', field_js JStr (signer_name snap)),
     (''declined_at'', field_js JStr (declined_at snap)),
     (''decline_reason'', field_js JStr (decline_reason snap)),
     (''revoked_at'', field_js JStr (revoked_at snap))]"

fun estimate_share_event_js :: "estimate_share_event \<Rightarrow> js" where
  "estimate_share_event_js (VIEW ev_viewed_at) = JObj [
       (''type'', JStr ''VIEW''),
       (''viewed_at'', JStr ev_viewed_at)]"
| "estimate_share_event_js (ACCEPT ev_accepted_at ev_signer_name ev_signature_data_url ev_signer_ip) = JObj [
       (''type'', JStr ''ACCEPT''),
       (''accepted_at'', JStr ev_accepted_at),
       (''signer_name'', JStr ev_signer_name),
       (''signature_data_url'', field_js JStr ev_signature_data_url),
       (''signer_ip'', field_js JStr ev_signer_ip)]"
| "estimate_share_event_js (DECLINE ev_declined_at ev_decline_reason) = JObj [
       (''type'', JStr ''DECLINE''),
       (''declined_at'', JStr ev_declined_at),
       (''decline_reason'', field_js JStr ev_decline_reason)]"
| "estimate_share_event_js (EXPIRE ev_expired_at) = JObj [
       (''type'', JStr ''EXPIRE''),
       (''expired_at'', JStr ev_expired_at)]"
| "estimate_share_event_js (REVOKE ev_revoked_at ev_revoked_by) = JObj [
       (''type'', JStr ''REVOKE''),
       (''revoked_at'', JStr ev_revoked_at),
       (''revoked_by'', JStr ev_revoked_by)]"

section \<open>The reducer\<close>

definition assertEstimateShareTransition ::
  "estimate_share_state \<Rightarrow> estimate_share_state list \<Rightarrow> string \<Rightarrow> unit result" where
  "assertEstimateShareTransition st allowed eventType = assert_in allowed st
     (''event '' @ eventType @ '' is not allowed from estimate share state '' @ estimate_share_state_name st)"

fun transitionEstimateShareWorkflow ::
  "estimate_share_snapshot \<Rightarrow> estimate_share_event \<Rightarrow> estimate_share_snapshot result" where
  "transitionEstimateShareWorkflow snap (VIEW ev_viewed_at) =
     then_return (assertEstimateShareTransition (state snap) [Sent, Viewed] ''VIEW'')
      (snap\<lparr>state := Viewed,
        state_version := state_version snap + 1,
        viewed_at := coalesce (viewed_at snap) (Val ev_viewed_at),
        view_count := Val (value_or (view_count snap) 0 + 1)\<rparr>)"
| "transitionEstimateShareWorkflow snap (ACCEPT ev_accepted_at ev_signer_name _ _) =
     then_return (assertEstimateShareTransition (state snap) [Sent, Viewed] ''ACCEPT'')
      (snap\<lparr>state := Accepted,
        state_version := state_version snap + 1,
        accepted_at := Val ev_accepted_at,
        signer_name := Val ev_signer_name\<rparr>)"
| "transitionEstimateShareWorkflow snap (DECLINE ev_declined_at ev_decline_reason) =
     then_return (assertEstimateShareTransition (state snap) [Sent, Viewed] ''DECLINE'')
      (snap\<lparr>state := Declined,
        state_version := state_version snap + 1,
        declined_at := Val ev_declined_at,
        decline_reason := coalesce ev_decline_reason Null\<rparr>)"
| "transitionEstimateShareWorkflow snap (EXPIRE _) =
     then_return (assertEstimateShareTransition (state snap) [Sent, Viewed] ''EXPIRE'')
      (snap\<lparr>state := Expired,
        state_version := state_version snap + 1\<rparr>)"
| "transitionEstimateShareWorkflow snap (REVOKE ev_revoked_at _) =
     then_return (assertEstimateShareTransition (state snap) [Sent, Viewed] ''REVOKE'')
      (snap\<lparr>state := Revoked,
        state_version := state_version snap + 1,
        revoked_at := Val ev_revoked_at\<rparr>)"

section \<open>Offered events and the descriptor\<close>

fun nextEstimateShareEvents :: "estimate_share_state \<Rightarrow> next_event list" where
  "nextEstimateShareEvents Sent = [
       offer ''REVOKE'' ''Revoke share'']"
| "nextEstimateShareEvents Viewed = [
       offer ''REVOKE'' ''Revoke share'']"
| "nextEstimateShareEvents Accepted = []"
| "nextEstimateShareEvents Declined = []"
| "nextEstimateShareEvents Expired = []"
| "nextEstimateShareEvents Revoked = []"

definition isHumanEstimateShareEvent :: "string \<Rightarrow> bool" where
  "isHumanEstimateShareEvent eventType \<longleftrightarrow>
     eventType = ''REVOKE''"

definition estimateShareWorkflow ::
  "(estimate_share_state, estimate_share_event, estimate_share_snapshot) workflow_definition" where
  "estimateShareWorkflow = \<lparr>
     wf_name = ''estimate_share'',
     schemaVersion = 1,
     initialState = Sent,
     terminalStates = estimate_share_terminal_states,
     allStates = estimate_share_all_states,
     allEventTypes = estimate_share_event_types,
     reduce = transitionEstimateShareWorkflow,
     nextEvents = nextEstimateShareEvents,
     isHumanEvent = isHumanEstimateShareEvent,
     sideEffectTypes = [''send_estimate_share'']\<rparr>"

section \<open>Refinement of the transition table\<close>

definition estimate_share_edges :: "estimate_share_state edge list" where
  "estimate_share_edges = [
     (Sent, ''VIEW'', Viewed),
     (Viewed, ''VIEW'', Viewed),
     (Sent, ''ACCEPT'', Accepted),
     (Viewed, ''ACCEPT'', Accepted),
     (Sent, ''DECLINE'', Declined),
     (Viewed, ''DECLINE'', Declined),
     (Sent, ''EXPIRE'', Expired),
     (Viewed, ''EXPIRE'', Expired),
     (Sent, ''REVOKE'', Revoked),
     (Viewed, ''REVOKE'', Revoked)]"

lemmas estimate_share_defs = estimateShareWorkflow_def assertEstimateShareTransition_def
  estimate_share_all_states_def estimate_share_terminal_states_def estimate_share_event_types_def
  isHumanEstimateShareEvent_def estimate_share_edges_def

interpretation estimate_share_wf: table_workflow estimateShareWorkflow estimate_share_event_type estimate_share_edges
proof
  show "state_version s' = state_version s + 1 \<and>
      (state s, estimate_share_event_type e, state s') \<in> set estimate_share_edges"
    if "reduce estimateShareWorkflow s e = Inr s'" for s e s'
    using that by (cases e) (auto simp: estimate_share_defs)
  show "is_ok (reduce estimateShareWorkflow s e)"
    if "(state s, estimate_share_event_type e, b) \<in> set estimate_share_edges" for s e b
    using that by (cases e) (auto simp: estimate_share_defs)
  show "st \<in> set (allStates estimateShareWorkflow)" for st
    by (cases st) (simp_all add: estimate_share_defs)
  show "estimate_share_event_type e \<in> set (allEventTypes estimateShareWorkflow)" for e
    by (cases e) (simp_all add: estimate_share_defs)
  show "\<exists>e. estimate_share_event_type e = t" if "t \<in> set (allEventTypes estimateShareWorkflow)" for t
    using that by (auto simp: estimate_share_defs intro: estimate_share_event_type.simps)
qed (auto simp: estimate_share_defs table_ok_def has_edge_def)

interpretation estimate_share_live: live_workflow estimateShareWorkflow estimate_share_event_type
  by (rule estimate_share_wf.live_if_table_live) (simp add: table_live_def estimate_share_defs)

section \<open>What the client did is on the share\<close>

fun_cases estimate_share_step: "transitionEstimateShareWorkflow s e = Inr s'"

definition is_view :: "estimate_share_event \<Rightarrow> bool" where
  "is_view e \<longleftrightarrow> estimate_share_event_type e = ''VIEW''"

lemma estimate_share_view_step:
  "transitionEstimateShareWorkflow s e = Inr s' \<Longrightarrow>
   value_or (view_count s') 0 = value_or (view_count s) 0 + (if is_view e then 1 else 0) \<and>
   viewed_at s' = (case e of VIEW at \<Rightarrow> coalesce (viewed_at s) (Val at) | _ \<Rightarrow> viewed_at s)"
  by (cases e) (auto simp: is_view_def estimate_share_defs)

text \<open>
  The share's \<open>view_count\<close> grows by exactly the number of \<open>VIEW\<close> events of
  a run, and once a first view is stamped no later event changes \<open>viewed_at\<close>.
\<close>

lemma estimate_share_views_counted:
  assumes "run_events transitionEstimateShareWorkflow s es = Inr t"
  shows "value_or (view_count t) 0 = value_or (view_count s) 0 + int (length (filter is_view es)) \<and>
    (present (viewed_at s) \<longrightarrow> viewed_at t = viewed_at s)"
  using assms
proof (induction es arbitrary: s)
  case Nil
  then show ?case by simp
next
  case (Cons e es)
  then obtain s' where step: "transitionEstimateShareWorkflow s e = Inr s'"
    and run: "run_events transitionEstimateShareWorkflow s' es = Inr t"
    by (auto split: sum.splits)
  have "viewed_at s' = viewed_at s" if "present (viewed_at s)"
    using estimate_share_view_step [OF step] that by (cases e) (auto simp: present_iff)
  with Cons.IH [OF run] estimate_share_view_step [OF step] show ?case
    by auto
qed

definition estimate_share_example :: estimate_share_snapshot where
  "estimate_share_example = \<lparr>state = Sent, state_version = 1,
     recipient_email = Val ''pat@site.example'', recipient_name = Null, message = Null,
     include_signed_link = Val True, sent_at = Val ''t0'', expires_at = Null, viewed_at = Null,
     view_count = Null, accepted_at = Null, signer_name = Null, declined_at = Null,
     decline_reason = Null, revoked_at = Null\<rparr>"

end
