(* ===== verification/Time_Review.thy ===== *)
theory Time_Review
  imports Workflow_Core
begin

text \<open>
  The time review workflow (\<open>packages/workflows/src/time-review.ts\<close>): its states, events and snapshot,
  the reducer, the offered events and the descriptor, and its refinement of the transition table
  that makes it an instance of the workflow contract.  Its own lemma relates the reducer to the database's
  decision constraint.
\<close>

section \<open>States, events, snapshot\<close>

datatype time_review_state = Pending | Approved | Rejected

fun time_review_state_name :: "time_review_state \<Rightarrow> string" where
  "time_review_state_name Pending = ''pending''"
| "time_review_state_name Approved = ''approved''"
| "time_review_state_name Rejected = ''rejected''"

definition time_review_all_states :: "time_review_state list" where
  "time_review_all_states = [Pending, Approved, Rejected]"

definition time_review_terminal_states :: "time_review_state list" where
  "time_review_terminal_states = []"

definition time_review_event_types :: "string list" where
  "time_review_event_types = [
     ''APPROVE'',
     ''REJECT'',
     ''REOPEN'']"

text \<open>
  Constructor arguments, in order:
  \<^item> \<open>APPROVE\<close>: \<open>approved_at\<close>, \<open>reviewer_user_id\<close>
  \<^item> \<open>REJECT\<close>: \<open>rejected_at\<close>, \<open>reviewer_user_id\<close>, \<open>reason\<close>
  \<^item> \<open>REOPEN\<close>: \<open>reopened_at\<close>, \<open>reviewer_user_id\<close>, \<open>reason\<close>
\<close>

datatype time_review_event =
    APPROVE string string
  | REJECT string string string
  | REOPEN string string string

fun time_review_event_type :: "time_review_event \<Rightarrow> string" where
  "time_review_event_type (APPROVE _ _) = ''APPROVE''"
| "time_review_event_type (REJECT _ _ _) = ''REJECT''"
| "time_review_event_type (REOPEN _ _ _) = ''REOPEN''"

record time_review_snapshot = "time_review_state workflow_snapshot" +
  reviewer_user_id :: "string field"
  approved_at :: "string field"
  rejected_at :: "string field"
  rejection_reason :: "string field"
  reopened_at :: "string field"

text \<open>The objects these values are at the JSON boundary.\<close>

definition time_review_snapshot_js :: "time_review_snapshot \<Rightarrow> js" where
  "time_review_snapshot_js snap = JObj [
     (''state'', JStr (time_review_state_name (state snap))),
     (''state_version'', JNum (state_version snap)),
     (''reviewer_user_id'', field_js JStr (reviewer_user_id snap)),
     (''approved_at'', field_js JStr (approved_at snap)),
     (''rejected_at'', field_js JStr (rejected_at snap)),
     (''rejection_reason'', field_js JStr (rejection_reason snap)),
     (''reopened_at'', field_js JStr (reopened_at snap))]"

fun time_review_event_js :: "time_review_event \<Rightarrow> js" where
  "time_review_event_js (APPROVE ev_approved_at ev_reviewer_user_id) = JObj [
       (''type'', JStr ''APPROVE''),
       (''approved_at'', JStr ev_approved_at),
       (''reviewer_user_id'', JStr ev_reviewer_user_id)]"
| "time_review_event_js (REJECT ev_rejected_at ev_reviewer_user_id ev_reason) = JObj [
       (''type'', JStr ''REJECT''),
       (''rejected_at'', JStr ev_rejected_at),
       (''reviewer_user_id'', JStr ev_reviewer_user_id),
       (''reason'', JStr ev_reason)]"
| "time_review_event_js (REOPEN ev_reopened_at ev_reviewer_user_id ev_reason) = JObj [
       (''type'', JStr ''REOPEN''),
       (''reopened_at'', JStr ev_reopened_at),
       (''reviewer_user_id'', JStr ev_reviewer_user_id),
       (''reason'', JStr ev_reason)]"

section \<open>The reducer\<close>

definition assertTimeReviewTransition ::
  "time_review_state \<Rightarrow> time_review_state list \<Rightarrow> string \<Rightarrow> unit result" where
  "assertTimeReviewTransition st allowed eventType = assert_in allowed st
     (''event '' @ eventType @ '' is not allowed from time review state '' @ time_review_state_name st)"

fun transitionTimeReviewWorkflow ::
  "time_review_snapshot \<Rightarrow> time_review_event \<Rightarrow> time_review_snapshot result" where
  "transitionTimeReviewWorkflow snap (APPROVE ev_approved_at ev_reviewer_user_id) =
     then_return (assertTimeReviewTransition (state snap) [Pending] ''APPROVE'')
      (snap\<lparr>state := Approved,
        state_version := state_version snap + 1,
        approved_at := Val ev_approved_at,
        reviewer_user_id := Val ev_reviewer_user_id,
        rejected_at := Null,
        rejection_reason := Null\<rparr>)"
| "transitionTimeReviewWorkflow snap (REJECT ev_rejected_at ev_reviewer_user_id ev_reason) =
     then_return (assertTimeReviewTransition (state snap) [Pending] ''REJECT'')
      (snap\<lparr>state := Rejected,
        state_version := state_version snap + 1,
        rejected_at := Val ev_rejected_at,
        rejection_reason := Val ev_reason,
        reviewer_user_id := Val ev_reviewer_user_id,
        approved_at := Null\<rparr>)"
| "transitionTimeReviewWorkflow snap (REOPEN ev_reopened_at ev_reviewer_user_id _) =
     then_return (assertTimeReviewTransition (state snap) [Approved, Rejected] ''REOPEN'')
      (snap\<lparr>state := Pending,
        state_version := state_version snap + 1,
        reopened_at := Val ev_reopened_at,
        reviewer_user_id := Val ev_reviewer_user_id,
        approved_at := Null,
        rejected_at := Null,
        rejection_reason := Null\<rparr>)"

section \<open>Offered events and the descriptor\<close>

fun nextTimeReviewEvents :: "time_review_state \<Rightarrow> next_event list" where
  "nextTimeReviewEvents Pending = [
       offer ''APPROVE'' ''Approve run'',
       offer ''REJECT'' (''Reject '' @ [CHR 0xE2, CHR 0x80, CHR 0x94] @ '' needs corrections'')]"
| "nextTimeReviewEvents Approved = [
       offer ''REOPEN'' ''Reopen for correction'']"
| "nextTimeReviewEvents Rejected = [
       offer ''REOPEN'' ''Reopen'']"

definition isHumanTimeReviewEvent :: "string \<Rightarrow> bool" where
  "isHumanTimeReviewEvent eventType \<longleftrightarrow>
     eventType = ''APPROVE'' \<or>
     eventType = ''REJECT'' \<or>
     eventType = ''REOPEN''"

definition timeReviewWorkflow ::
  "(time_review_state, time_review_event, time_review_snapshot) workflow_definition" where
  "timeReviewWorkflow = \<lparr>
     wf_name = ''time_review_run'',
     schemaVersion = 1,
     initialState = Pending,
     terminalStates = time_review_terminal_states,
     allStates = time_review_all_states,
     allEventTypes = time_review_event_types,
     reduce = transitionTimeReviewWorkflow,
     nextEvents = nextTimeReviewEvents,
     isHumanEvent = isHumanTimeReviewEvent,
     sideEffectTypes = [''lock_labor_entries'']\<rparr>"

section \<open>Refinement of the transition table\<close>

definition time_review_edges :: "time_review_state edge list" where
  "time_review_edges = [
     (Pending, ''APPROVE'', Approved),
     (Pending, ''REJECT'', Rejected),
     (Approved, ''REOPEN'', Pending),
     (Rejected, ''REOPEN'', Pending)]"

lemmas time_review_defs = timeReviewWorkflow_def assertTimeReviewTransition_def
  time_review_all_states_def time_review_terminal_states_def time_review_event_types_def
  isHumanTimeReviewEvent_def time_review_edges_def

interpretation time_review_wf: table_workflow timeReviewWorkflow time_review_event_type time_review_edges
proof
  show "state_version s' = state_version s + 1 \<and>
      (state s, time_review_event_type e, state s') \<in> set time_review_edges"
    if "reduce timeReviewWorkflow s e = Inr s'" for s e s'
    using that by (cases e) (auto simp: time_review_defs)
  show "is_ok (reduce timeReviewWorkflow s e)"
    if "(state s, time_review_event_type e, b) \<in> set time_review_edges" for s e b
    using that by (cases e) (auto simp: time_review_defs)
  show "st \<in> set (allStates timeReviewWorkflow)" for st
    by (cases st) (simp_all add: time_review_defs)
  show "time_review_event_type e \<in> set (allEventTypes timeReviewWorkflow)" for e
    by (cases e) (simp_all add: time_review_defs)
  show "\<exists>e. time_review_event_type e = t" if "t \<in> set (allEventTypes timeReviewWorkflow)" for t
    using that by (auto simp: time_review_defs intro: time_review_event_type.simps)
qed (auto simp: time_review_defs table_ok_def has_edge_def)

interpretation time_review_live: live_workflow timeReviewWorkflow time_review_event_type
  by (rule time_review_wf.live_if_table_live) (simp add: table_live_def time_review_defs)

section \<open>The table's decision constraint\<close>

text \<open>
  Constraint \<open>time_review_runs_decision_chk\<close> of \<open>docker/postgres/init/000_baseline.sql\<close>, over the
  columns a snapshot is written to.
\<close>

definition time_review_runs_decision_chk :: "time_review_snapshot \<Rightarrow> bool" where
  "time_review_runs_decision_chk s \<longleftrightarrow>
     (state s = Pending \<and> \<not> present (approved_at s) \<and> \<not> present (rejected_at s)) \<or>
     (state s = Approved \<and> present (approved_at s) \<and> \<not> present (rejected_at s)) \<or>
     (state s = Rejected \<and> present (rejected_at s) \<and> \<not> present (approved_at s))"

text \<open>
  No transition of a time review run can make the row update violate
  the database's decision constraint: whatever the row held before, the columns the reducer
  produces satisfy it; and a rejection reason is stored exactly while the run is rejected.
\<close>

lemma time_review_satisfies_decision_chk:
  assumes "transitionTimeReviewWorkflow s e = Inr s'"
  shows "time_review_runs_decision_chk s' \<and>
    (present (rejection_reason s') \<longleftrightarrow> state s' = Rejected) \<and>
    present (reviewer_user_id s')"
  using assms by (cases e) (auto simp: time_review_runs_decision_chk_def time_review_defs)

end
