(* ===== verification/Project_Lifecycle.thy ===== *)
theory Project_Lifecycle
  imports Workflow_Core
begin

text \<open>
  The project lifecycle workflow (\<open>packages/workflows/src/project-lifecycle.ts\<close>): its states, events and snapshot,
  the reducer, the offered events and the descriptor, and its refinement of the transition table
  that makes it an instance of the workflow contract.  Also the reader \<open>projectStatusToLifecycleState\<close> of
  the stored state, the stamps of a project's row, and what remains possible after a decline.
\<close>

section \<open>States, events, snapshot\<close>

datatype project_lifecycle_state = Draft | Estimating | Sent | Accepted | Declined | In_progress | Done | Archived

fun project_lifecycle_state_name :: "project_lifecycle_state \<Rightarrow> string" where
  "project_lifecycle_state_name Draft = ''draft''"
| "project_lifecycle_state_name Estimating = ''estimating''"
| "project_lifecycle_state_name Sent = ''sent''"
| "project_lifecycle_state_name Accepted = ''accepted''"
| "project_lifecycle_state_name Declined = ''declined''"
| "project_lifecycle_state_name In_progress = ''in_progress''"
| "project_lifecycle_state_name Done = ''done''"
| "project_lifecycle_state_name Archived = ''archived''"

definition project_lifecycle_all_states :: "project_lifecycle_state list" where
  "project_lifecycle_all_states = [Draft, Estimating, Sent, Accepted, Declined, In_progress, Done, Archived]"

definition project_lifecycle_terminal_states :: "project_lifecycle_state list" where
  "project_lifecycle_terminal_states = []"

definition project_lifecycle_event_types :: "string list" where
  "project_lifecycle_event_types = [
     ''START_ESTIMATING'',
     ''SEND'',
     ''ACCEPT'',
     ''DECLINE'',
     ''START_WORK'',
     ''COMPLETE'',
     ''ARCHIVE'',
     ''REOPEN'']"

text \<open>
  Constructor arguments, in order:
  \<^item> \<open>START_ESTIMATING\<close>: \<open>actor_user_id\<close>, \<open>occurred_at\<close>
  \<^item> \<open>SEND\<close>: \<open>actor_user_id\<close>, \<open>occurred_at\<close>
  \<^item> \<open>ACCEPT\<close>: \<open>actor_user_id\<close>, \<open>occurred_at\<close>
  \<^item> \<open>DECLINE\<close>: \<open>actor_user_id\<close>, \<open>occurred_at\<close>, \<open>reason\<close> (optional)
  \<^item> \<open>START_WORK\<close>: \<open>actor_user_id\<close>, \<open>occurred_at\<close>
  \<^item> \<open>COMPLETE\<close>: \<open>actor_user_id\<close>, \<open>occurred_at\<close>
  \<^item> \<open>ARCHIVE\<close>: \<open>actor_user_id\<close>, \<open>occurred_at\<close>
  \<^item> \<open>REOPEN\<close>: \<open>actor_user_id\<close>, \<open>occurred_at\<close>
\<close>

datatype project_lifecycle_event =
    START_ESTIMATING string string
  | SEND string string
  | ACCEPT string string
  | DECLINE string string "string field"
  | START_WORK string string
  | COMPLETE string string
  | ARCHIVE string string
  | REOPEN string string

fun project_lifecycle_event_type :: "project_lifecycle_event \<Rightarrow> string" where
  "project_lifecycle_event_type (START_ESTIMATING _ _) = ''START_ESTIMATING''"
| "project_lifecycle_event_type (SEND _ _) = ''SEND''"
| "project_lifecycle_event_type (ACCEPT _ _) = ''ACCEPT''"
| "project_lifecycle_event_type (DECLINE _ _ _) = ''DECLINE''"
| "project_lifecycle_event_type (START_WORK _ _) = ''START_WORK''"
| "project_lifecycle_event_type (COMPLETE _ _) = ''COMPLETE''"
| "project_lifecycle_event_type (ARCHIVE _ _) = ''ARCHIVE''"
| "project_lifecycle_event_type (REOPEN _ _) = ''REOPEN''"

record project_lifecycle_snapshot = "project_lifecycle_state workflow_snapshot" +
  sent_at :: "string field"
  accepted_at :: "string field"
  declined_at :: "string field"
  decline_reason :: "string field"
  started_at :: "string field"
  completed_at :: "string field"
  archived_at :: "string field"

text \<open>The objects these values are at the JSON boundary.\<close>

definition project_lifecycle_snapshot_js :: "project_lifecycle_snapshot \<Rightarrow> js" where
  "project_lifecycle_snapshot_js snap = JObj [
     (''state'', JStr (project_lifecycle_state_name (state snap))),
     (''state_version'', JNum (state_version snap)),
     (''sent_at'', field_js JStr (sent_at snap)),
     (''accepted_at'', field_js JStr (accepted_at snap)),
     (''declined_at'', field_js JStr (declined_at snap)),
     (''decline_reason'', field_js JStr (decline_reason snap)),
     (''started_at'', field_js JStr (started_at snap)),
     (''completed_at'', field_js JStr (completed_at snap)),
     (''archived_at'', field_js JStr (archived_at snap))]"

fun project_lifecycle_event_js :: "project_lifecycle_event \<Rightarrow> js" where
  "project_lifecycle_event_js (START_ESTIMATING ev_actor_user_id ev_occurred_at) = JObj [
       (''type'', JStr ''START_ESTIMATING''),
       (''actor_user_id'', JStr ev_actor_user_id),
       (''occurred_at'', JStr ev_occurred_at)]"
| "project_lifecycle_event_js (SEND ev_actor_user_id ev_occurred_at) = JObj [
       (''type'', JStr ''SEND''),
       (''actor_user_id'', JStr ev_actor_user_id),
       (''occurred_at'', JStr ev_occurred_at)]"
| "project_lifecycle_event_js (ACCEPT ev_actor_user_id ev_occurred_at) = JObj [
       (''type'', JStr ''ACCEPT''),
       (''actor_user_id'', JStr ev_actor_user_id),
       (''occurred_at'', JStr ev_occurred_at)]"
| "project_lifecycle_event_js (DECLINE ev_actor_user_id ev_occurred_at ev_reason) = JObj [
       (''type'', JStr ''DECLINE''),
       (''actor_user_id'', JStr ev_actor_user_id),
       (''occurred_at'', JStr ev_occurred_at),
       (''reason'', field_js JStr ev_reason)]"
| "project_lifecycle_event_js (START_WORK ev_actor_user_id ev_occurred_at) = JObj [
       (''type'', JStr ''START_WORK''),
       (''actor_user_id'', JStr ev_actor_user_id),
       (''occurred_at'', JStr ev_occurred_at)]"
| "project_lifecycle_event_js (COMPLETE ev_actor_user_id ev_occurred_at) = JObj [
       (''type'', JStr ''COMPLETE''),
       (''actor_user_id'', JStr ev_actor_user_id),
       (''occurred_at'', JStr ev_occurred_at)]"
| "project_lifecycle_event_js (ARCHIVE ev_actor_user_id ev_occurred_at) = JObj [
       (''type'', JStr ''ARCHIVE''),
       (''actor_user_id'', JStr ev_actor_user_id),
       (''occurred_at'', JStr ev_occurred_at)]"
| "project_lifecycle_event_js (REOPEN ev_actor_user_id ev_occurred_at) = JObj [
       (''type'', JStr ''REOPEN''),
       (''actor_user_id'', JStr ev_actor_user_id),
       (''occurred_at'', JStr ev_occurred_at)]"

section \<open>The reducer\<close>

definition assertProjectLifecycleTransition ::
  "project_lifecycle_state \<Rightarrow> project_lifecycle_state list \<Rightarrow> string \<Rightarrow> unit result" where
  "assertProjectLifecycleTransition st allowed eventType = assert_in allowed st
     (''event '' @ eventType @ '' is not allowed from project lifecycle state '' @ project_lifecycle_state_name st)"

fun transitionProjectLifecycleWorkflow ::
  "project_lifecycle_snapshot \<Rightarrow> project_lifecycle_event \<Rightarrow> project_lifecycle_snapshot result" where
  "transitionProjectLifecycleWorkflow snap (START_ESTIMATING _ _) =
     then_return (assertProjectLifecycleTransition (state snap) [Draft] ''START_ESTIMATING'')
      (snap\<lparr>state := Estimating,
        state_version := state_version snap + 1\<rparr>)"
| "transitionProjectLifecycleWorkflow snap (SEND _ ev_occurred_at) =
     then_return (assertProjectLifecycleTransition (state snap) [Estimating] ''SEND'')
      (snap\<lparr>state := Sent,
        state_version := state_version snap + 1,
        sent_at := Val ev_occurred_at\<rparr>)"
| "transitionProjectLifecycleWorkflow snap (ACCEPT _ ev_occurred_at) =
     then_return (assertProjectLifecycleTransition (state snap) [Sent] ''ACCEPT'')
      (snap\<lparr>state := Accepted,
        state_version := state_version snap + 1,
        accepted_at := Val ev_occurred_at,
        declined_at := Null,
        decline_reason := Null\<rparr>)"
| "transitionProjectLifecycleWorkflow snap (DECLINE _ ev_occurred_at ev_reason) =
     then_return (assertProjectLifecycleTransition (state snap) [Sent] ''DECLINE'')
      (snap\<lparr>state := Declined,
        state_version := state_version snap + 1,
        declined_at := Val ev_occurred_at,
        decline_reason := coalesce ev_reason Null\<rparr>)"
| "transitionProjectLifecycleWorkflow snap (START_WORK _ ev_occurred_at) =
     then_return (assertProjectLifecycleTransition (state snap) [Accepted] ''START_WORK'')
      (snap\<lparr>state := In_progress,
        state_version := state_version snap + 1,
        started_at := Val ev_occurred_at\<rparr>)"
| "transitionProjectLifecycleWorkflow snap (COMPLETE _ ev_occurred_at) =
     then_return (assertProjectLifecycleTransition (state snap) [In_progress] ''COMPLETE'')
      (snap\<lparr>state := Done,
        state_version := state_version snap + 1,
        completed_at := Val ev_occurred_at\<rparr>)"
| "transitionProjectLifecycleWorkflow snap (ARCHIVE _ ev_occurred_at) =
     then_return (assertProjectLifecycleTransition (state snap) [Done, Declined] ''ARCHIVE'')
      (snap\<lparr>state := Archived,
        state_version := state_version snap + 1,
        archived_at := Val ev_occurred_at\<rparr>)"
| "transitionProjectLifecycleWorkflow snap (REOPEN _ _) =
     then_return (assertProjectLifecycleTransition (state snap) [Done, Archived] ''REOPEN'')
      (snap\<lparr>state := In_progress,
        state_version := state_version snap + 1,
        completed_at := Null,
        archived_at := Null\<rparr>)"

section \<open>Offered events and the descriptor\<close>

fun nextProjectLifecycleEvents :: "project_lifecycle_state \<Rightarrow> next_event list" where
  "nextProjectLifecycleEvents Draft = [
       offer ''START_ESTIMATING'' ''Start estimating'']"
| "nextProjectLifecycleEvents Estimating = [
       offer ''SEND'' ''Send to customer'']"
| "nextProjectLifecycleEvents Sent = [
       offer ''ACCEPT'' ''Mark accepted'',
       offer ''DECLINE'' ''Mark declined'']"
| "nextProjectLifecycleEvents Accepted = [
       offer ''START_WORK'' ''Start work'']"
| "nextProjectLifecycleEvents Declined = [
       offer ''ARCHIVE'' ''Archive project'']"
| "nextProjectLifecycleEvents In_progress = [
       offer ''COMPLETE'' ''Mark complete'']"
| "nextProjectLifecycleEvents Done = [
       offer ''ARCHIVE'' ''Archive project'',
       offer ''REOPEN'' ''Reopen project'']"
| "nextProjectLifecycleEvents Archived = [
       offer ''REOPEN'' ''Reopen project'']"

definition isHumanProjectLifecycleEvent :: "string \<Rightarrow> bool" where
  "isHumanProjectLifecycleEvent eventType \<longleftrightarrow>
     eventType = ''START_ESTIMATING'' \<or>
     eventType = ''SEND'' \<or>
     eventType = ''ACCEPT'' \<or>
     eventType = ''DECLINE'' \<or>
     eventType = ''START_WORK'' \<or>
     eventType = ''COMPLETE'' \<or>
     eventType = ''ARCHIVE'' \<or>
     eventType = ''REOPEN''"

definition projectLifecycleWorkflow ::
  "(project_lifecycle_state, project_lifecycle_event, project_lifecycle_snapshot) workflow_definition" where
  "projectLifecycleWorkflow = \<lparr>
     wf_name = ''project_lifecycle'',
     schemaVersion = 1,
     initialState = Draft,
     terminalStates = project_lifecycle_terminal_states,
     allStates = project_lifecycle_all_states,
     allEventTypes = project_lifecycle_event_types,
     reduce = transitionProjectLifecycleWorkflow,
     nextEvents = nextProjectLifecycleEvents,
     isHumanEvent = isHumanProjectLifecycleEvent,
     sideEffectTypes = [''notify_foreman_assignment'']\<rparr>"

section \<open>Refinement of the transition table\<close>

definition project_lifecycle_edges :: "project_lifecycle_state edge list" where
  "project_lifecycle_edges = [
     (Draft, ''START_ESTIMATING'', Estimating),
     (Estimating, ''SEND'', Sent),
     (Sent, ''ACCEPT'', Accepted),
     (Sent, ''DECLINE'', Declined),
     (Accepted, ''START_WORK'', In_progress),
     (In_progress, ''COMPLETE'', Done),
     (Done, ''ARCHIVE'', Archived),
     (Declined, ''ARCHIVE'', Archived),
     (Done, ''REOPEN'', In_progress),
     (Archived, ''REOPEN'', In_progress)]"

lemmas project_lifecycle_defs = projectLifecycleWorkflow_def assertProjectLifecycleTransition_def
  project_lifecycle_all_states_def project_lifecycle_terminal_states_def project_lifecycle_event_types_def
  isHumanProjectLifecycleEvent_def project_lifecycle_edges_def

interpretation project_lifecycle_wf: table_workflow projectLifecycleWorkflow project_lifecycle_event_type project_lifecycle_edges
proof
  show "state_version s' = state_version s + 1 \<and>
      (state s, project_lifecycle_event_type e, state s') \<in> set project_lifecycle_edges"
    if "reduce projectLifecycleWorkflow s e = Inr s'" for s e s'
    using that by (cases e) (auto simp: project_lifecycle_defs)
  show "is_ok (reduce projectLifecycleWorkflow s e)"
    if "(state s, project_lifecycle_event_type e, b) \<in> set project_lifecycle_edges" for s e b
    using that by (cases e) (auto simp: project_lifecycle_defs)
  show "st \<in> set (allStates projectLifecycleWorkflow)" for st
    by (cases st) (simp_all add: project_lifecycle_defs)
  show "project_lifecycle_event_type e \<in> set (allEventTypes projectLifecycleWorkflow)" for e
    by (cases e) (simp_all add: project_lifecycle_defs)
  show "\<exists>e. project_lifecycle_event_type e = t" if "t \<in> set (allEventTypes projectLifecycleWorkflow)" for t
    using that by (auto simp: project_lifecycle_defs intro: project_lifecycle_event_type.simps)
qed (auto simp: project_lifecycle_defs table_ok_def has_edge_def)

interpretation project_lifecycle_live: live_workflow projectLifecycleWorkflow project_lifecycle_event_type
  by (rule project_lifecycle_wf.live_if_table_live) (simp add: table_live_def project_lifecycle_defs)

section \<open>The stored state\<close>

definition project_lifecycle_state_of_name :: "string \<Rightarrow> project_lifecycle_state option" where
  "project_lifecycle_state_of_name n =
     find (\<lambda>st. project_lifecycle_state_name st = n) project_lifecycle_all_states"

text \<open>\<open>projectStatusToLifecycleState\<close>: an unknown stored value reads as \<open>draft\<close>.\<close>

definition projectStatusToLifecycleState :: "string \<Rightarrow> project_lifecycle_state" where
  "projectStatusToLifecycleState v =
     (if v \<in> set (map project_lifecycle_state_name project_lifecycle_all_states)
      then the (project_lifecycle_state_of_name v) else Draft)"

lemma projectStatusToLifecycleState_name:
  "projectStatusToLifecycleState (project_lifecycle_state_name st) = st"
  by (cases st) (simp_all add: projectStatusToLifecycleState_def project_lifecycle_state_of_name_def
      project_lifecycle_all_states_def)

section \<open>Current-pass stamps\<close>

fun_cases project_lifecycle_step: "transitionProjectLifecycleWorkflow s e = Inr s'"

text \<open>
  \<open>completed_at\<close> and \<open>archived_at\<close> mean ``in the current pass'': they are set in \<open>done\<close> and
  \<open>archived\<close> and never in a state before them.
\<close>

definition project_lifecycle_inv :: "project_lifecycle_snapshot \<Rightarrow> bool" where
  "project_lifecycle_inv s \<longleftrightarrow>
     (present (archived_at s) \<longleftrightarrow> state s = Archived) \<and>
     (state s = Done \<longrightarrow> present (completed_at s)) \<and>
     (present (completed_at s) \<longrightarrow> state s \<in> {Done, Archived}) \<and>
     (present (sent_at s) \<longleftrightarrow> state s \<notin> {Draft, Estimating}) \<and>
     (present (accepted_at s) \<longrightarrow> \<not> present (declined_at s)) \<and>
     (state s = Accepted \<longrightarrow> present (accepted_at s)) \<and>
     (state s = Declined \<longrightarrow> present (declined_at s)) \<and>
     (state s \<in> {In_progress, Done, Archived} \<longrightarrow>
        present (accepted_at s) \<or> present (declined_at s)) \<and>
     (state s \<in> {Draft, Estimating, Sent} \<longrightarrow>
        \<not> present (accepted_at s) \<and> \<not> present (declined_at s))"

definition project_lifecycle_fresh :: "project_lifecycle_snapshot \<Rightarrow> bool" where
  "project_lifecycle_fresh s \<longleftrightarrow> state s = Draft \<and> \<not> present (sent_at s) \<and>
     \<not> present (accepted_at s) \<and> \<not> present (declined_at s) \<and> \<not> present (completed_at s) \<and>
     \<not> present (archived_at s)"

lemma project_lifecycle_inv_step:
  "project_lifecycle_inv s \<Longrightarrow> transitionProjectLifecycleWorkflow s e = Inr s' \<Longrightarrow>
   project_lifecycle_inv s'"
  by (cases e) (auto simp: project_lifecycle_inv_def project_lifecycle_defs)

text \<open>
  A project row never lies about where the project is: in every snapshot
  reachable from a fresh draft, reading the stored state back recovers it, \<open>archived_at\<close> is set
  exactly while the project is archived, \<open>completed_at\<close> only while it is done or archived, a
  project carries an acceptance or a decline but never both, and none before it was sent.
\<close>

lemma project_lifecycle_row_is_live:
  assumes "project_lifecycle_fresh s0"
    and "reachable transitionProjectLifecycleWorkflow s0 s"
  shows "project_lifecycle_inv s \<and>
    projectStatusToLifecycleState (project_lifecycle_state_name (state s)) = state s"
proof
  show "project_lifecycle_inv s"
    using assms(2)
  proof (rule reachable_invariant)
    show "project_lifecycle_inv s0"
      using assms(1) by (simp add: project_lifecycle_fresh_def project_lifecycle_inv_def)
  qed (rule project_lifecycle_inv_step)
qed (rule projectStatusToLifecycleState_name)

definition project_lifecycle_example :: project_lifecycle_snapshot where
  "project_lifecycle_example = \<lparr>state = Draft, state_version = 1, sent_at = Null,
     accepted_at = Null, declined_at = Null, decline_reason = Null, started_at = Null,
     completed_at = Null, archived_at = Null\<rparr>"

definition project_lifecycle_example_run :: "project_lifecycle_event list" where
  "project_lifecycle_example_run = [START_ESTIMATING ''ann'' ''t1'', SEND ''ann'' ''t2'',
     ACCEPT ''pat'' ''t3'', START_WORK ''ann'' ''t4'', COMPLETE ''ann'' ''t5'',
     REOPEN ''ann'' ''t6'']"

lemma project_lifecycle_example_run_ok:
  "\<exists>s. run_events transitionProjectLifecycleWorkflow project_lifecycle_example
     project_lifecycle_example_run = Inr s \<and> state s = In_progress \<and> completed_at s = Null"
  by (simp add: project_lifecycle_example_def project_lifecycle_example_run_def
      assertProjectLifecycleTransition_def wf_simps)

section \<open>After a decline\<close>

text \<open>The states a declined project can still reach; no edge leaves them.\<close>

definition after_decline :: "project_lifecycle_state set" where
  "after_decline = {Declined, Archived, In_progress, Done}"

lemma after_decline_closed:
  "list_all (\<lambda>(a, t, b). a \<in> after_decline \<longrightarrow> b \<in> after_decline) project_lifecycle_edges"
  by (simp add: after_decline_def project_lifecycle_edges_def)

lemma after_decline_step:
  "state s \<in> after_decline \<Longrightarrow> transitionProjectLifecycleWorkflow s e = Inr s' \<Longrightarrow>
   state s' \<in> after_decline \<and> accepted_at s' = accepted_at s \<and> declined_at s' = declined_at s \<and>
   decline_reason s' = decline_reason s"
  by (cases e) (auto simp: after_decline_def project_lifecycle_defs)

text \<open>
  A decline is final as a decision: whatever happens afterwards, the
  project is never estimated, sent or accepted again and its decline trail stays.  It is not
  final as a state: archiving and reopening the declined project puts it \<open>in_progress\<close>
  without any \<open>ACCEPT\<close>.
\<close>

lemma project_lifecycle_declined_final:
  assumes "state s = Declined"
  shows "(\<forall>es t. run_events transitionProjectLifecycleWorkflow s es = Inr t \<longrightarrow>
      state t \<notin> {Draft, Estimating, Sent, Accepted} \<and> accepted_at t = accepted_at s \<and>
      declined_at t = declined_at s \<and> decline_reason t = decline_reason s) \<and>
    (\<exists>t. run_events transitionProjectLifecycleWorkflow s
      [ARCHIVE actor at, REOPEN actor' at'] = Inr t \<and> state t = In_progress)"
proof (intro conjI allI impI)
  fix es t
  assume run: "run_events transitionProjectLifecycleWorkflow s es = Inr t"
  let ?P = "\<lambda>u. state u \<in> after_decline \<and> accepted_at u = accepted_at s \<and>
    declined_at u = declined_at s \<and> decline_reason u = decline_reason s"
  have "?P t" using run
  proof (rule run_events_invariant)
    show "?P s" using assms by (simp add: after_decline_def)
    show "?P v" if "?P u" and "transitionProjectLifecycleWorkflow u e = Inr v" for u e v
      using that(1) after_decline_step [OF _ that(2)] by simp
  qed
  then show "state t \<notin> {Draft, Estimating, Sent, Accepted}" "accepted_at t = accepted_at s"
      "declined_at t = declined_at s" "decline_reason t = decline_reason s"
    by (auto simp: after_decline_def)
next
  show "\<exists>t. run_events transitionProjectLifecycleWorkflow s
      [ARCHIVE actor at, REOPEN actor' at'] = Inr t \<and> state t = In_progress"
    using assms by (simp add: assertProjectLifecycleTransition_def wf_simps)
qed

end
