(* ===== verification/Field_Event.thy ===== *)
theory Field_Event
  imports Workflow_Core
begin

text \<open>
  The field event workflow (\<open>packages/workflows/src/field-event.ts\<close>): its states, events and snapshot,
  the reducer, the offered events and the descriptor, and its refinement of the transition table
  that makes it an instance of the workflow contract.  Its own lemmas show which columns a ticket's row
  keeps in which state.
\<close>

section \<open>States, events, snapshot\<close>

datatype field_event_state = Open | Resolved | Escalated | Dismissed

fun field_event_state_name :: "field_event_state \<Rightarrow> string" where
  "field_event_state_name Open = ''open''"
| "field_event_state_name Resolved = ''resolved''"
| "field_event_state_name Escalated = ''escalated''"
| "field_event_state_name Dismissed = ''dismissed''"

definition field_event_all_states :: "field_event_state list" where
  "field_event_all_states = [Open, Resolved, Escalated, Dismissed]"

definition field_event_terminal_states :: "field_event_state list" where
  "field_event_terminal_states = []"

definition field_event_event_types :: "string list" where
  "field_event_event_types = [
     ''RESOLVE'',
     ''ESCALATE'',
     ''DISMISS'',
     ''REOPEN'']"

datatype field_event_resolution_action =
    Order_more | Bring_from_site | Use_what_we_have | Park | Change_order

fun field_event_action_name :: "field_event_resolution_action \<Rightarrow> string" where
  "field_event_action_name Order_more = ''order_more''"
| "field_event_action_name Bring_from_site = ''bring_from_site''"
| "field_event_action_name Use_what_we_have = ''use_what_we_have''"
| "field_event_action_name Park = ''park''"
| "field_event_action_name Change_order = ''change_order''"

text \<open>
  Constructor arguments, in order:
  \<^item> \<open>RESOLVE\<close>: \<open>resolved_at\<close>, \<open>resolved_by_user_id\<close>, \<open>action\<close>, \<open>message_to_worker\<close>
  \<^item> \<open>ESCALATE\<close>: \<open>escalated_at\<close>, \<open>escalator_user_id\<close>, \<open>reason\<close>
  \<^item> \<open>DISMISS\<close>: \<open>dismissed_at\<close>, \<open>dismissed_by_user_id\<close>
  \<^item> \<open>REOPEN\<close>: \<open>reopened_at\<close>, \<open>reopener_user_id\<close>
\<close>

datatype field_event_event =
    RESOLVE string string field_event_resolution_action string
  | ESCALATE string string string
  | DISMISS string string
  | REOPEN string string

fun field_event_event_type :: "field_event_event \<Rightarrow> string" where
  "field_event_event_type (RESOLVE _ _ _ _) = ''RESOLVE''"
| "field_event_event_type (ESCALATE _ _ _) = ''ESCALATE''"
| "field_event_event_type (DISMISS _ _) = ''DISMISS''"
| "field_event_event_type (REOPEN _ _) = ''REOPEN''"

record field_event_snapshot = "field_event_state workflow_snapshot" +
  last_actor_user_id :: "string field"
  resolved_at :: "string field"
  resolved_by_user_id :: "string field"
  resolved_action :: "field_event_resolution_action field"
  resolution_message :: "string field"
  escalated_to_estimator_at :: "string field"
  escalation_reason :: "string field"
  dismissed_at :: "string field"
  dismissed_by_user_id :: "string field"
  reopened_at :: "string field"

text \<open>The objects these values are at the JSON boundary.\<close>

definition field_event_snapshot_js :: "field_event_snapshot \<Rightarrow> js" where
  "field_event_snapshot_js snap = JObj [
     (''state'', JStr (field_event_state_name (state snap))),
     (''state_version'', JNum (state_version snap)),
     (''last_actor_user_id'', field_js JStr (last_actor_user_id snap)),
     (''resolved_at'', field_js JStr (resolved_at snap)),
     (''resolved_by_user_id'', field_js JStr (resolved_by_user_id snap)),
     (''resolved_action'', field_js (JStr \<circ> field_event_action_name) (resolved_action snap)),
     (''resolution_message'', field_js JStr (resolution_message snap)),
     (''escalated_to_estimator_at'', field_js JStr (escalated_to_estimator_at snap)),
     (''escalation_reason'', field_js JStr (escalation_reason snap)),
     (''dismissed_at'', field_js JStr (dismissed_at snap)),
     (''dismissed_by_user_id'', field_js JStr (dismissed_by_user_id snap)),
     (''reopened_at'', field_js JStr (reopened_at snap))]"

fun field_event_event_js :: "field_event_event \<Rightarrow> js" where
  "field_event_event_js (RESOLVE ev_resolved_at ev_resolved_by_user_id ev_action ev_message_to_worker) = JObj [
       (''type'', JStr ''RESOLVE''),
       (''resolved_at'', JStr ev_resolved_at),
       (''resolved_by_user_id'', JStr ev_resolved_by_user_id),
       (''action'', (JStr \<circ> field_event_action_name) ev_action),
       (''message_to_worker'', JStr ev_message_to_worker)]"
| "field_event_event_js (ESCALATE ev_escalated_at ev_escalator_user_id ev_reason) = JObj [
       (''type'', JStr ''ESCALATE''),
       (''escalated_at'', JStr ev_escalated_at),
       (''escalator_user_id'', JStr ev_escalator_user_id),
       (''reason'', JStr ev_reason)]"
| "field_event_event_js (DISMISS ev_dismissed_at ev_dismissed_by_user_id) = JObj [
       (''type'', JStr ''DISMISS''),
       (''dismissed_at'', JStr ev_dismissed_at),
       (''dismissed_by_user_id'', JStr ev_dismissed_by_user_id)]"
| "field_event_event_js (REOPEN ev_reopened_at ev_reopener_user_id) = JObj [
       (''type'', JStr ''REOPEN''),
       (''reopened_at'', JStr ev_reopened_at),
       (''reopener_user_id'', JStr ev_reopener_user_id)]"

section \<open>The reducer\<close>

definition assertFieldEventTransition ::
  "field_event_state \<Rightarrow> field_event_state list \<Rightarrow> string \<Rightarrow> unit result" where
  "assertFieldEventTransition st allowed eventType = assert_in allowed st
     (''event '' @ eventType @ '' is not allowed from field event state '' @ field_event_state_name st)"

fun transitionFieldEventWorkflow ::
  "field_event_snapshot \<Rightarrow> field_event_event \<Rightarrow> field_event_snapshot result" where
  "transitionFieldEventWorkflow snap (RESOLVE ev_resolved_at ev_resolved_by_user_id ev_action ev_message_to_worker) =
     then_return (assertFieldEventTransition (state snap) [Open] ''RESOLVE'')
      (snap\<lparr>state := Resolved,
        state_version := state_version snap + 1,
        last_actor_user_id := Val ev_resolved_by_user_id,
        resolved_at := Val ev_resolved_at,
        resolved_by_user_id := Val ev_resolved_by_user_id,
        resolved_action := Val ev_action,
        resolution_message := Val ev_message_to_worker,
        escalated_to_estimator_at := Null,
        escalation_reason := Null,
        dismissed_at := Null,
        dismissed_by_user_id := Null\<rparr>)"
| "transitionFieldEventWorkflow snap (ESCALATE ev_escalated_at ev_escalator_user_id ev_reason) =
     then_return (assertFieldEventTransition (state snap) [Open] ''ESCALATE'')
      (snap\<lparr>state := Escalated,
        state_version := state_version snap + 1,
        last_actor_user_id := Val ev_escalator_user_id,
        escalated_to_estimator_at := Val ev_escalated_at,
        escalation_reason := Val ev_reason,
        resolved_at := Null,
        resolved_by_user_id := Null,
        resolved_action := Null,
        resolution_message := Null,
        dismissed_at := Null,
        dismissed_by_user_id := Null\<rparr>)"
| "transitionFieldEventWorkflow snap (DISMISS ev_dismissed_at ev_dismissed_by_user_id) =
     then_return (assertFieldEventTransition (state snap) [Open] ''DISMISS'')
      (snap\<lparr>state := Dismissed,
        state_version := state_version snap + 1,
        last_actor_user_id := Val ev_dismissed_by_user_id,
        dismissed_at := Val ev_dismissed_at,
        dismissed_by_user_id := Val ev_dismissed_by_user_id,
        resolved_at := Null,
        resolved_by_user_id := Null,
        resolved_action := Null,
        resolution_message := Null,
        escalated_to_estimator_at := Null,
        escalation_reason := Null\<rparr>)"
| "transitionFieldEventWorkflow snap (REOPEN ev_reopened_at ev_reopener_user_id) =
     then_return (assertFieldEventTransition (state snap) [Resolved, Escalated, Dismissed] ''REOPEN'')
      (snap\<lparr>state := Open,
        state_version := state_version snap + 1,
        last_actor_user_id := Val ev_reopener_user_id,
        reopened_at := Val ev_reopened_at,
        resolved_at := Null,
        resolved_by_user_id := Null,
        resolved_action := Null,
        resolution_message := Null,
        escalated_to_estimator_at := Null,
        escalation_reason := Null,
        dismissed_at := Null,
        dismissed_by_user_id := Null\<rparr>)"

section \<open>Offered events and the descriptor\<close>

fun nextFieldEventEvents :: "field_event_state \<Rightarrow> next_event list" where
  "nextFieldEventEvents Open = [
       offer ''RESOLVE'' ''Resolve and reply to worker'',
       offer ''ESCALATE'' ''Escalate to estimator'',
       offer ''DISMISS'' ''Dismiss'']"
| "nextFieldEventEvents Resolved = [
       offer ''REOPEN'' ''Reopen'']"
| "nextFieldEventEvents Escalated = [
       offer ''REOPEN'' ''Reopen'']"
| "nextFieldEventEvents Dismissed = [
       offer ''REOPEN'' ''Reopen'']"

definition isHumanFieldEventEvent :: "string \<Rightarrow> bool" where
  "isHumanFieldEventEvent eventType \<longleftrightarrow>
     eventType = ''RESOLVE'' \<or>
     eventType = ''ESCALATE'' \<or>
     eventType = ''DISMISS'' \<or>
     eventType = ''REOPEN''"

definition fieldEventWorkflow ::
  "(field_event_state, field_event_event, field_event_snapshot) workflow_definition" where
  "fieldEventWorkflow = \<lparr>
     wf_name = ''field_event'',
     schemaVersion = 1,
     initialState = Open,
     terminalStates = field_event_terminal_states,
     allStates = field_event_all_states,
     allEventTypes = field_event_event_types,
     reduce = transitionFieldEventWorkflow,
     nextEvents = nextFieldEventEvents,
     isHumanEvent = isHumanFieldEventEvent,
     sideEffectTypes = [''notify_worker_resolution'', ''notify_estimator_escalation'']\<rparr>"

section \<open>Refinement of the transition table\<close>

definition field_event_edges :: "field_event_state edge list" where
  "field_event_edges = [
     (Open, ''RESOLVE'', Resolved),
     (Open, ''ESCALATE'', Escalated),
     (Open, ''DISMISS'', Dismissed),
     (Resolved, ''REOPEN'', Open),
     (Escalated, ''REOPEN'', Open),
     (Dismissed, ''REOPEN'', Open)]"

lemmas field_event_defs = fieldEventWorkflow_def assertFieldEventTransition_def
  field_event_all_states_def field_event_terminal_states_def field_event_event_types_def
  isHumanFieldEventEvent_def field_event_edges_def

interpretation field_event_wf: table_workflow fieldEventWorkflow field_event_event_type field_event_edges
proof
  show "state_version s' = state_version s + 1 \<and>
      (state s, field_event_event_type e, state s') \<in> set field_event_edges"
    if "reduce fieldEventWorkflow s e = Inr s'" for s e s'
    using that by (cases e) (auto simp: field_event_defs)
  show "is_ok (reduce fieldEventWorkflow s e)"
    if "(state s, field_event_event_type e, b) \<in> set field_event_edges" for s e b
    using that by (cases e) (auto simp: field_event_defs)
  show "st \<in> set (allStates fieldEventWorkflow)" for st
    by (cases st) (simp_all add: field_event_defs)
  show "field_event_event_type e \<in> set (allEventTypes fieldEventWorkflow)" for e
    by (cases e) (simp_all add: field_event_defs)
  show "\<exists>e. field_event_event_type e = t" if "t \<in> set (allEventTypes fieldEventWorkflow)" for t
    using that by (auto simp: field_event_defs intro: field_event_event_type.simps)
qed (auto simp: field_event_defs table_ok_def has_edge_def)

interpretation field_event_live: live_workflow fieldEventWorkflow field_event_event_type
  by (rule field_event_wf.live_if_table_live) (simp add: table_live_def field_event_defs)

section \<open>Ticket columns\<close>

fun_cases field_event_step: "transitionFieldEventWorkflow s e = Inr s'"

definition resolution_columns :: "field_event_snapshot \<Rightarrow> bool" where
  "resolution_columns s \<longleftrightarrow> present (resolved_at s) \<and> present (resolved_by_user_id s) \<and>
     present (resolved_action s) \<and> present (resolution_message s)"

definition no_resolution_columns :: "field_event_snapshot \<Rightarrow> bool" where
  "no_resolution_columns s \<longleftrightarrow> \<not> present (resolved_at s) \<and> \<not> present (resolved_by_user_id s) \<and>
     \<not> present (resolved_action s) \<and> \<not> present (resolution_message s)"

definition field_event_columns_ok :: "field_event_snapshot \<Rightarrow> bool" where
  "field_event_columns_ok s \<longleftrightarrow>
     (if state s = Resolved then resolution_columns s else no_resolution_columns s) \<and>
     (present (escalated_to_estimator_at s) \<longleftrightarrow> state s = Escalated) \<and>
     (present (escalation_reason s) \<longleftrightarrow> state s = Escalated) \<and>
     (present (dismissed_at s) \<longleftrightarrow> state s = Dismissed) \<and>
     (present (dismissed_by_user_id s) \<longleftrightarrow> state s = Dismissed)"

lemma field_event_columns_step:
  "transitionFieldEventWorkflow s e = Inr s' \<Longrightarrow> field_event_columns_ok s'"
  by (cases e) (auto simp: field_event_columns_ok_def resolution_columns_def
      no_resolution_columns_def field_event_defs)

lemma field_event_actor_step:
  "transitionFieldEventWorkflow s e = Inr s' \<Longrightarrow> present (last_actor_user_id s')"
  by (cases e) (auto simp: field_event_defs)

text \<open>
  After any transition, whatever stale columns the row carried before,
  exactly the columns of the ticket's current state are set: the resolution columns all in
  \<open>resolved\<close> and none elsewhere, likewise for escalation and dismissal, and the last actor is
  recorded.  In particular a reopened ticket carries none of them.
\<close>

lemma field_event_columns_consistent:
  assumes "run_events transitionFieldEventWorkflow s (es @ [e]) = Inr t"
  shows "field_event_columns_ok t \<and> present (last_actor_user_id t) \<and>
    (field_event_event_type e = ''REOPEN'' \<longrightarrow> state t = Open \<and> no_resolution_columns t)"
proof -
  obtain u where u: "transitionFieldEventWorkflow u e = Inr t"
    using assms by (auto simp: run_events_snoc_Inr)
  have "state t = Open" if "field_event_event_type e = ''REOPEN''"
    using u that by (cases e) (auto simp: field_event_defs)
  with field_event_columns_step [OF u] field_event_actor_step [OF u] show ?thesis
    by (auto simp: field_event_columns_ok_def)
qed

definition field_event_stale_example :: field_event_snapshot where
  "field_event_stale_example = \<lparr>state = Open, state_version = 4, last_actor_user_id = Null,
     resolved_at = Null, resolved_by_user_id = Null, resolved_action = Null,
     resolution_message = Null, escalated_to_estimator_at = Val ''stale'',
     escalation_reason = Val ''stale'', dismissed_at = Null, dismissed_by_user_id = Null,
     reopened_at = Null\<rparr>"

end
