(* ===== verification/Shipment.thy ===== *)
theory Shipment
  imports Workflow_Core
begin

text \<open>
  The shipment workflow (\<open>packages/workflows/src/shipment.ts\<close>): its states, events and snapshot,
  the reducer, the offered events and the descriptor, and its refinement of the transition table
  that makes it an instance of the workflow contract.  Its own lemmas bound a shipment's life and keep its
  delivery trail.
\<close>

section \<open>States, events, snapshot\<close>

datatype shipment_state = Planned | Picking | Shipped | Delivered | Returning | Closed | Voided

fun shipment_state_name :: "shipment_state \<Rightarrow> string" where
  "shipment_state_name Planned = ''planned''"
| "shipment_state_name Picking = ''picking''"
| "shipment_state_name Shipped = ''shipped''"
| "shipment_state_name Delivered = ''delivered''"
| "shipment_state_name Returning = ''returning''"
| "shipment_state_name Closed = ''closed''"
| "shipment_state_name Voided = ''voided''"

definition shipment_all_states :: "shipment_state list" where
  "shipment_all_states = [Planned, Picking, Shipped, Delivered, Returning, Closed, Voided]"

definition shipment_terminal_states :: "shipment_state list" where
  "shipment_terminal_states = [Closed, Voided]"

definition shipment_event_types :: "string list" where
  "shipment_event_types = [
     ''START_PICKING'',
     ''SHIP'',
     ''CONFIRM_DELIVERY'',
     ''OPEN_RETURN'',
     ''CLOSE'',
     ''VOID'']"

text \<open>
  Constructor arguments, in order:
  \<^item> \<open>SHIP\<close>: \<open>shipped_at\<close>, \<open>driver\<close> (optional), \<open>ticket_number\<close> (optional)
  \<^item> \<open>CONFIRM_DELIVERY\<close>: \<open>delivered_at\<close>, \<open>confirmed_by\<close>
  \<^item> \<open>CLOSE\<close>: \<open>confirmed_by\<close>
\<close>

datatype shipment_event =
    START_PICKING
  | SHIP string "string field" "string field"
  | CONFIRM_DELIVERY string string
  | OPEN_RETURN
  | CLOSE string
  | VOID

fun shipment_event_type :: "shipment_event \<Rightarrow> string" where
  "shipment_event_type START_PICKING = ''START_PICKING''"
| "shipment_event_type (SHIP _ _ _) = ''SHIP''"
| "shipment_event_type (CONFIRM_DELIVERY _ _) = ''CONFIRM_DELIVERY''"
| "shipment_event_type OPEN_RETURN = ''OPEN_RETURN''"
| "shipment_event_type (CLOSE _) = ''CLOSE''"
| "shipment_event_type VOID = ''VOID''"

record shipment_snapshot = "shipment_state workflow_snapshot" +
  scheduled_for :: "string field"
  shipped_at :: "string field"
  delivered_at :: "string field"
  confirmed_by :: "string field"
  driver :: "string field"
  ticket_number :: "string field"

text \<open>The objects these values are at the JSON boundary.\<close>

definition shipment_snapshot_js :: "shipment_snapshot \<Rightarrow> js" where
  "shipment_snapshot_js snap = JObj [
     (''state'', JStr (shipment_state_name (state snap))),
     (''state_version'', JNum (state_version snap)),
     (''scheduled_for'', field_js JStr (scheduled_for snap)),
     (''shipped_at'', field_js JStr (shipped_at snap)),
     (''delivered_at'', field_js JStr (delivered_at snap)),
     (''confirmed_by'', field_js JStr (confirmed_by snap)),
     (''driver'', field_js JStr (driver snap)),
     (''ticket_number'', field_js JStr (ticket_number snap))]"

fun shipment_event_js :: "shipment_event \<Rightarrow> js" where
  "shipment_event_js START_PICKING = JObj [
       (''type'', JStr ''START_PICKING'')]"
| "shipment_event_js (SHIP ev_shipped_at ev_driver ev_ticket_number) = JObj [
       (''type'', JStr ''SHIP''),
       (''shipped_at'', JStr ev_shipped_at),
       (''driver'', field_js JStr ev_driver),
       (''ticket_number'', field_js JStr ev_ticket_number)]"
| "shipment_event_js (CONFIRM_DELIVERY ev_delivered_at ev_confirmed_by) = JObj [
       (''type'', JStr ''CONFIRM_DELIVERY''),
       (''delivered_at'', JStr ev_delivered_at),
       (''confirmed_by'', JStr ev_confirmed_by)]"
| "shipment_event_js OPEN_RETURN = JObj [
       (''type'', JStr ''OPEN_RETURN'')]"
| "shipment_event_js (CLOSE ev_confirmed_by) = JObj [
       (''type'', JStr ''CLOSE''),
       (''confirmed_by'', JStr ev_confirmed_by)]"
| "shipment_event_js VOID = JObj [
       (''type'', JStr ''VOID'')]"

section \<open>The reducer\<close>

definition assertShipmentTransition ::
  "shipment_state \<Rightarrow> shipment_state list \<Rightarrow> string \<Rightarrow> unit result" where
  "assertShipmentTransition st allowed eventType = assert_in allowed st
     (''shipment: illegal transition from '' @ shipment_state_name st @ '' on '' @ eventType)"

fun transitionShipmentWorkflow ::
  "shipment_snapshot \<Rightarrow> shipment_event \<Rightarrow> shipment_snapshot result" where
  "transitionShipmentWorkflow snap START_PICKING =
     then_return (assertShipmentTransition (state snap) [Planned] ''START_PICKING'')
      (snap\<lparr>state := Picking,
        state_version := state_version snap + 1\<rparr>)"
| "transitionShipmentWorkflow snap (SHIP ev_shipped_at ev_driver ev_ticket_number) =
     then_return (assertShipmentTransition (state snap) [Picking, Planned] ''SHIP'')
      (snap\<lparr>state := Shipped,
        state_version := state_version snap + 1,
        shipped_at := Val ev_shipped_at,
        driver := coalesce ev_driver (coalesce (driver snap) Null),
        ticket_number := coalesce ev_ticket_number (coalesce (ticket_number snap) Null)\<rparr>)"
| "transitionShipmentWorkflow snap (CONFIRM_DELIVERY ev_delivered_at ev_confirmed_by) =
     then_return (assertShipmentTransition (state snap) [Shipped] ''CONFIRM_DELIVERY'')
      (snap\<lparr>state := Delivered,
        state_version := state_version snap + 1,
        delivered_at := Val ev_delivered_at,
        confirmed_by := Val ev_confirmed_by\<rparr>)"
| "transitionShipmentWorkflow snap OPEN_RETURN =
     then_return (assertShipmentTransition (state snap) [Delivered] ''OPEN_RETURN'')
      (snap\<lparr>state := Returning,
        state_version := state_version snap + 1\<rparr>)"
| "transitionShipmentWorkflow snap (CLOSE ev_confirmed_by) =
     then_return (assertShipmentTransition (state snap) [Delivered, Returning] ''CLOSE'')
      (snap\<lparr>state := Closed,
        state_version := state_version snap + 1,
        confirmed_by := coalesce (Val ev_confirmed_by) (coalesce (confirmed_by snap) Null)\<rparr>)"
| "transitionShipmentWorkflow snap VOID =
     then_return (assertShipmentTransition (state snap) [Planned, Picking, Shipped, Delivered, Returning] ''VOID'')
      (snap\<lparr>state := Voided,
        state_version := state_version snap + 1\<rparr>)"

section \<open>Offered events and the descriptor\<close>

fun nextShipmentEvents :: "shipment_state \<Rightarrow> next_event list" where
  "nextShipmentEvents Planned = [
       offer ''START_PICKING'' ''Start picking'',
       offer ''SHIP'' ''Mark shipped'',
       offer ''VOID'' ''Void shipment'']"
| "nextShipmentEvents Picking = [
       offer ''SHIP'' ''Mark shipped'',
       offer ''VOID'' ''Void shipment'']"
| "nextShipmentEvents Shipped = [
       offer ''CONFIRM_DELIVERY'' ''Confirm delivery'',
       offer ''VOID'' ''Void shipment'']"
| "nextShipmentEvents Delivered = [
       offer ''OPEN_RETURN'' ''Open return'',
       offer ''CLOSE'' ''Close shipment'',
       offer ''VOID'' ''Void shipment'']"
| "nextShipmentEvents Returning = [
       offer ''CLOSE'' ''Close shipment'',
       offer ''VOID'' ''Void shipment'']"
| "nextShipmentEvents Closed = []"
| "nextShipmentEvents Voided = []"

definition isHumanShipmentEvent :: "string \<Rightarrow> bool" where
  "isHumanShipmentEvent eventType \<longleftrightarrow> eventType \<in> set shipment_event_types"

definition shipmentWorkflow ::
  "(shipment_state, shipment_event, shipment_snapshot) workflow_definition" where
  "shipmentWorkflow = \<lparr>
     wf_name = ''shipment'',
     schemaVersion = 1,
     initialState = Planned,
     terminalStates = shipment_terminal_states,
     allStates = shipment_all_states,
     allEventTypes = shipment_event_types,
     reduce = transitionShipmentWorkflow,
     nextEvents = nextShipmentEvents,
     isHumanEvent = isHumanShipmentEvent,
     sideEffectTypes = []\<rparr>"

section \<open>Refinement of the transition table\<close>

definition shipment_edges :: "shipment_state edge list" where
  "shipment_edges = [
     (Planned, ''START_PICKING'', Picking),
     (Picking, ''SHIP'', Shipped),
     (Planned, ''SHIP'', Shipped),
     (Shipped, ''CONFIRM_DELIVERY'', Delivered),
     (Delivered, ''OPEN_RETURN'', Returning),
     (Delivered, ''CLOSE'', Closed),
     (Returning, ''CLOSE'', Closed),
     (Planned, ''VOID'', Voided),
     (Picking, ''VOID'', Voided),
     (Shipped, ''VOID'', Voided),
     (Delivered, ''VOID'', Voided),
     (Returning, ''VOID'', Voided)]"

lemmas shipment_defs = shipmentWorkflow_def assertShipmentTransition_def
  shipment_all_states_def shipment_terminal_states_def shipment_event_types_def
  isHumanShipmentEvent_def shipment_edges_def

interpretation shipment_wf: table_workflow shipmentWorkflow shipment_event_type shipment_edges
proof
  show "state_version s' = state_version s + 1 \<and>
      (state s, shipment_event_type e, state s') \<in> set shipment_edges"
    if "reduce shipmentWorkflow s e = Inr s'" for s e s'
    using that by (cases e) (auto simp: shipment_defs)
  show "is_ok (reduce shipmentWorkflow s e)"
    if "(state s, shipment_event_type e, b) \<in> set shipment_edges" for s e b
    using that by (cases e) (auto simp: shipment_defs)
  show "st \<in> set (allStates shipmentWorkflow)" for st
    by (cases st) (simp_all add: shipment_defs)
  show "shipment_event_type e \<in> set (allEventTypes shipmentWorkflow)" for e
    by (cases e) (simp_all add: shipment_defs)
  show "\<exists>e. shipment_event_type e = t" if "t \<in> set (allEventTypes shipmentWorkflow)" for t
    using that by (auto simp: shipment_defs intro: shipment_event_type.simps)
qed (auto simp: shipment_defs table_ok_def has_edge_def)

interpretation shipment_live: live_workflow shipmentWorkflow shipment_event_type
  by (rule shipment_wf.live_if_table_live) (simp add: table_live_def shipment_defs)

section \<open>The delivery trail\<close>

fun_cases shipment_step: "transitionShipmentWorkflow s e = Inr s'"

fun shipment_rank :: "shipment_state \<Rightarrow> nat" where
  "shipment_rank Planned = 5"
| "shipment_rank Picking = 4"
| "shipment_rank Shipped = 3"
| "shipment_rank Delivered = 2"
| "shipment_rank Returning = 1"
| "shipment_rank _ = 0"

lemma shipment_ranked: "table_ranked shipment_rank shipment_edges"
  by (simp add: table_ranked_def shipment_edges_def)

definition shipment_fresh :: "shipment_snapshot \<Rightarrow> bool" where
  "shipment_fresh s \<longleftrightarrow> state s = Planned \<and> \<not> present (shipped_at s) \<and>
     \<not> present (delivered_at s) \<and> \<not> present (confirmed_by s)"

definition shipment_inv :: "shipment_snapshot \<Rightarrow> bool" where
  "shipment_inv s \<longleftrightarrow>
     (state s \<in> {Planned, Picking} \<longrightarrow> \<not> present (shipped_at s)) \<and>
     (state s \<in> {Shipped, Delivered, Returning, Closed} \<longrightarrow> present (shipped_at s)) \<and>
     (state s \<in> {Delivered, Returning, Closed} \<longrightarrow> present (delivered_at s)) \<and>
     (present (delivered_at s) \<longrightarrow> present (shipped_at s) \<and> present (confirmed_by s) \<and>
        state s \<in> {Delivered, Returning, Closed, Voided})"

lemma shipment_inv_step:
  "shipment_inv s \<Longrightarrow> transitionShipmentWorkflow s e = Inr s' \<Longrightarrow> shipment_inv s'"
  by (cases e) (auto simp: shipment_inv_def shipment_defs)

text \<open>The ticket number and driver a shipment carries are never lost once set.\<close>

lemma shipment_paper_step:
  "transitionShipmentWorkflow s e = Inr s' \<Longrightarrow>
   (present (driver s) \<longrightarrow> present (driver s')) \<and>
   (present (ticket_number s) \<longrightarrow> present (ticket_number s'))"
  by (cases e) (auto simp: shipment_defs)

text \<open>
  A shipment moves forward only, in at most five transitions: a closed one
  was shipped and delivered with somebody's confirmation, one not yet shipped carries no
  shipping stamp, and a driver or ticket number once recorded is never erased.
\<close>

lemma shipment_delivery_trail:
  assumes "shipment_fresh s0" and "run_events transitionShipmentWorkflow s0 es = Inr s"
  shows "shipment_inv s \<and> length es + shipment_rank (state s) \<le> 5 \<and>
    (present (driver s0) \<longrightarrow> present (driver s)) \<and>
    (present (ticket_number s0) \<longrightarrow> present (ticket_number s))"
proof (intro conjI)
  show "shipment_inv s"
    using assms(2)
  proof (rule run_events_invariant)
    show "shipment_inv s0"
      using assms by (simp add: shipment_fresh_def shipment_inv_def)
  qed (rule shipment_inv_step)
  show "length es + shipment_rank (state s) \<le> 5"
    using shipment_wf.run_length_ranked [OF shipment_ranked, of s0 es s] assms
    by (simp add: shipment_fresh_def shipmentWorkflow_def)
  show "present (driver s0) \<longrightarrow> present (driver s)"
    using assms(2) by (rule run_events_invariant) (use shipment_paper_step in blast)+
  show "present (ticket_number s0) \<longrightarrow> present (ticket_number s)"
    using assms(2) by (rule run_events_invariant) (use shipment_paper_step in blast)+
qed

definition shipment_example :: shipment_snapshot where
  "shipment_example = \<lparr>state = Planned, state_version = 1, scheduled_for = Null, shipped_at = Null,
     delivered_at = Null, confirmed_by = Null, driver = Val ''dee'', ticket_number = Null\<rparr>"

end
