(* ===== verification/Damage_Charge_Settlement.thy ===== *)
theory Damage_Charge_Settlement
  imports Workflow_Core
begin

text \<open>
  The damage charge settlement workflow (\<open>packages/workflows/src/damage-charge-settlement.ts\<close>): its states, events and snapshot,
  the reducer, the offered events and the descriptor, and its refinement of the transition table
  that makes it an instance of the workflow contract.  Its own lemma shows that a
  charge has one outcome.
\<close>

section \<open>States, events, snapshot\<close>

datatype damage_charge_settlement_state = Open | Invoiced | Waived

fun damage_charge_settlement_state_name :: "damage_charge_settlement_state \<Rightarrow> string" where
  "damage_charge_settlement_state_name Open = ''open''"
| "damage_charge_settlement_state_name Invoiced = ''invoiced''"
| "damage_charge_settlement_state_name Waived = ''waived''"

definition damage_charge_settlement_all_states :: "damage_charge_settlement_state list" where
  "damage_charge_settlement_all_states = [Open, Invoiced, Waived]"

definition damage_charge_settlement_terminal_states :: "damage_charge_settlement_state list" where
  "damage_charge_settlement_terminal_states = [Invoiced, Waived]"

definition damage_charge_settlement_event_types :: "string list" where
  "damage_charge_settlement_event_types = [
     ''INVOICE'',
     ''WAIVE'']"

text \<open>
  Constructor arguments, in order:
  \<^item> \<open>INVOICE\<close>: \<open>invoiced_at\<close>, \<open>invoiced_by\<close>
  \<^item> \<open>WAIVE\<close>: \<open>waived_at\<close>, \<open>waived_by\<close>, \<open>waive_reason\<close> (optional)
\<close>

datatype damage_charge_settlement_event =
    INVOICE string string
  | WAIVE string string "string field"

fun damage_charge_settlement_event_type :: "damage_charge_settlement_event \<Rightarrow> string" where
  "damage_charge_settlement_event_type (INVOICE _ _) = ''INVOICE''"
| "damage_charge_settlement_event_type (WAIVE _ _ _) = ''WAIVE''"

record damage_charge_settlement_snapshot = "damage_charge_settlement_state workflow_snapshot" +
  invoiced_at :: "string field"
  invoiced_by :: "string field"
  waived_at :: "string field"
  waived_by :: "string field"
  waive_reason :: "string field"

text \<open>The objects these values are at the JSON boundary.\<close>

definition damage_charge_settlement_snapshot_js :: "damage_charge_settlement_snapshot \<Rightarrow> js" where
  "damage_charge_settlement_snapshot_js snap = JObj [
     (''state'', JStr (damage_charge_settlement_state_name (state snap))),
     (''state_version'', JNum (state_version snap)),
     (''invoiced_at'', field_js JStr (invoiced_at snap)),
     (''invoiced_by'', field_js JStr (invoiced_by snap)),
     (''waived_at'', field_js JStr (waived_at snap)),
     (''waived_by'', field_js JStr (waived_by snap)),
     (''waive_reason'', field_js JStr (waive_reason snap))]"

fun damage_charge_settlement_event_js :: "damage_charge_settlement_event \<Rightarrow> js" where
  "damage_charge_settlement_event_js (INVOICE ev_invoiced_at ev_invoiced_by) = JObj [
       (''type'', JStr ''INVOICE''),
       (''invoiced_at'', JStr ev_invoiced_at),
       (''invoiced_by'', JStr ev_invoiced_by)]"
| "damage_charge_settlement_event_js (WAIVE ev_waived_at ev_waived_by ev_waive_reason) = JObj [
       (''type'', JStr ''WAIVE''),
       (''waived_at'', JStr ev_waived_at),
       (''waived_by'', JStr ev_waived_by),
       (''waive_reason'', field_js JStr ev_waive_reason)]"

section \<open>The reducer\<close>

definition assertDamageChargeSettlementTransition ::
  "damage_charge_settlement_state \<Rightarrow> damage_charge_settlement_state list \<Rightarrow> string \<Rightarrow> unit result" where
  "assertDamageChargeSettlementTransition st allowed eventType = assert_in allowed st
     (''damage_charge_settlement: illegal transition from '' @ damage_charge_settlement_state_name st @ '' on '' @ eventType)"

fun transitionDamageChargeSettlementWorkflow ::
  "damage_charge_settlement_snapshot \<Rightarrow> damage_charge_settlement_event \<Rightarrow> damage_charge_settlement_snapshot result" where
  "transitionDamageChargeSettlementWorkflow snap (INVOICE ev_invoiced_at ev_invoiced_by) =
     then_return (assertDamageChargeSettlementTransition (state snap) [Open] ''INVOICE'')
      (snap\<lparr>state := Invoiced,
        state_version := state_version snap + 1,
        invoiced_at := Val ev_invoiced_at,
        invoiced_by := Val ev_invoiced_by\<rparr>)"
| "transitionDamageChargeSettlementWorkflow snap (WAIVE ev_waived_at ev_waived_by ev_waive_reason) =
     then_return (assertDamageChargeSettlementTransition (state snap) [Open] ''WAIVE'')
      (snap\<lparr>state := Waived,
        state_version := state_version snap + 1,
        waived_at := Val ev_waived_at,
        waived_by := Val ev_waived_by,
        waive_reason := coalesce ev_waive_reason Null\<rparr>)"

section \<open>Offered events and the descriptor\<close>

fun nextDamageChargeSettlementEvents :: "damage_charge_settlement_state \<Rightarrow> next_event list" where
  "nextDamageChargeSettlementEvents Open = [
       offer ''INVOICE'' ''Invoice charge'',
       offer ''WAIVE'' ''Waive charge'']"
| "nextDamageChargeSettlementEvents Invoiced = []"
| "nextDamageChargeSettlementEvents Waived = []"

definition isHumanDamageChargeSettlementEvent :: "string \<Rightarrow> bool" where
  "isHumanDamageChargeSettlementEvent eventType \<longleftrightarrow>
     eventType = ''INVOICE'' \<or>
     eventType = ''WAIVE''"

definition damageChargeSettlementWorkflow ::
  "(damage_charge_settlement_state, damage_charge_settlement_event, damage_charge_settlement_snapshot) workflow_definition" where
  "damageChargeSettlementWorkflow = \<lparr>
     wf_name = ''damage_charge_settlement'',
     schemaVersion = 1,
     initialState = Open,
     terminalStates = damage_charge_settlement_terminal_states,
     allStates = damage_charge_settlement_all_states,
     allEventTypes = damage_charge_settlement_event_types,
     reduce = transitionDamageChargeSettlementWorkflow,
     nextEvents = nextDamageChargeSettlementEvents,
     isHumanEvent = isHumanDamageChargeSettlementEvent,
     sideEffectTypes = []\<rparr>"

section \<open>Refinement of the transition table\<close>

definition damage_charge_settlement_edges :: "damage_charge_settlement_state edge list" where
  "damage_charge_settlement_edges = [
     (Open, ''INVOICE'', Invoiced),
     (Open, ''WAIVE'', Waived)]"

lemmas damage_charge_settlement_defs = damageChargeSettlementWorkflow_def assertDamageChargeSettlementTransition_def
  damage_charge_settlement_all_states_def damage_charge_settlement_terminal_states_def damage_charge_settlement_event_types_def
  isHumanDamageChargeSettlementEvent_def damage_charge_settlement_edges_def

interpretation damage_charge_settlement_wf: table_workflow damageChargeSettlementWorkflow damage_charge_settlement_event_type damage_charge_settlement_edges
proof
  show "state_version s' = state_version s + 1 \<and>
      (state s, damage_charge_settlement_event_type e, state s') \<in> set damage_charge_settlement_edges"
    if "reduce damageChargeSettlementWorkflow s e = Inr s'" for s e s'
    using that by (cases e) (auto simp: damage_charge_settlement_defs)
  show "is_ok (reduce damageChargeSettlementWorkflow s e)"
    if "(state s, damage_charge_settlement_event_type e, b) \<in> set damage_charge_settlement_edges" for s e b
    using that by (cases e) (auto simp: damage_charge_settlement_defs)
  show "st \<in> set (allStates damageChargeSettlementWorkflow)" for st
    by (cases st) (simp_all add: damage_charge_settlement_defs)
  show "damage_charge_settlement_event_type e \<in> set (allEventTypes damageChargeSettlementWorkflow)" for e
    by (cases e) (simp_all add: damage_charge_settlement_defs)
  show "\<exists>e. damage_charge_settlement_event_type e = t" if "t \<in> set (allEventTypes damageChargeSettlementWorkflow)" for t
    using that by (auto simp: damage_charge_settlement_defs intro: damage_charge_settlement_event_type.simps)
qed (auto simp: damage_charge_settlement_defs table_ok_def has_edge_def)

interpretation damage_charge_settlement_live: live_workflow damageChargeSettlementWorkflow damage_charge_settlement_event_type
  by (rule damage_charge_settlement_wf.live_if_table_live) (simp add: table_live_def damage_charge_settlement_defs)

section \<open>One outcome per charge\<close>

fun_cases damage_charge_settlement_step: "transitionDamageChargeSettlementWorkflow s e = Inr s'"

text \<open>The event an accepted settlement is recorded with.\<close>

definition settled_by ::
  "damage_charge_settlement_snapshot \<Rightarrow> damage_charge_settlement_event \<Rightarrow>
   damage_charge_settlement_snapshot \<Rightarrow> bool" where
  "settled_by s e t \<longleftrightarrow> (case e of
     INVOICE at who \<Rightarrow> state t = Invoiced \<and> invoiced_at t = Val at \<and> invoiced_by t = Val who \<and>
       waived_at t = waived_at s
   | WAIVE at who why \<Rightarrow> state t = Waived \<and> waived_at t = Val at \<and> waived_by t = Val who \<and>
       waive_reason t = coalesce why Null \<and> invoiced_at t = invoiced_at s)"

text \<open>
  A damage charge is settled once and one way: every legal run of an open
  charge has at most one event, which decides between invoicing and waiving and leaves the other
  outcome's stamps untouched; afterwards every event is refused, so a waived charge is never
  invoiced.
\<close>

lemma damage_charge_settled_once:
  assumes "run_events transitionDamageChargeSettlementWorkflow s es = Inr t"
  shows "es = [] \<and> t = s \<or>
    (\<exists>e. es = [e] \<and> state s = Open \<and> settled_by s e t \<and>
      (\<forall>f. \<not> is_ok (transitionDamageChargeSettlementWorkflow t f)))"
proof (cases es)
  case Nil
  with assms show ?thesis by simp
next
  case (Cons e fs)
  with assms obtain u where step: "transitionDamageChargeSettlementWorkflow s e = Inr u"
    and run: "run_events transitionDamageChargeSettlementWorkflow u fs = Inr t"
    by (auto split: sum.splits)
  have u: "state s = Open" "settled_by s e u" "state u \<in> {Invoiced, Waived}"
    using step by (cases e; auto simp: settled_by_def damage_charge_settlement_defs)+
  with damage_charge_settlement_wf.terminal_run [of u fs t] run
    damage_charge_settlement_wf.terminal_final [of u]
  show ?thesis using Cons by (auto simp: damageChargeSettlementWorkflow_def
      damage_charge_settlement_terminal_states_def)
qed

end
