(* ===== verification/Asset_Deployment.thy ===== *)
theory Asset_Deployment
  imports Workflow_Core
begin

text \<open>
  The asset deployment workflow (\<open>packages/workflows/src/asset-deployment.ts\<close>): its states, events and snapshot,
  the reducer, the offered events and the descriptor, and its refinement of the transition table
  that makes it an instance of the workflow contract.  Its own lemmas are about the overdue stamp and
  about returns.
\<close>

section \<open>States, events, snapshot\<close>

datatype asset_deployment_state = Staged | Out | Overdue | Returning | Returned | Written_off

fun asset_deployment_state_name :: "asset_deployment_state \<Rightarrow> string" where
  "asset_deployment_state_name Staged = ''staged''"
| "asset_deployment_state_name Out = ''out''"
| "asset_deployment_state_name Overdue = ''overdue''"
| "asset_deployment_state_name Returning = ''returning''"
| "asset_deployment_state_name Returned = ''returned''"
| "asset_deployment_state_name Written_off = ''written_off''"

definition asset_deployment_all_states :: "asset_deployment_state list" where
  "asset_deployment_all_states = [Staged, Out, Overdue, Returning, Returned, Written_off]"

definition asset_deployment_terminal_states :: "asset_deployment_state list" where
  "asset_deployment_terminal_states = [Returned, Written_off]"

definition asset_deployment_event_types :: "string list" where
  "asset_deployment_event_types = [
     ''DISPATCH'',
     ''CONFIRM_HANDOFF'',
     ''MARK_OVERDUE'',
     ''EXTEND'',
     ''BEGIN_RETURN'',
     ''COMPLETE_RETURN'',
     ''WRITE_OFF'']"

text \<open>
  Constructor arguments, in order:
  \<^item> \<open>DISPATCH\<close>: \<open>dispatched_at\<close>, \<open>project_id\<close> (optional), \<open>from_location_id\<close> (optional), \<open>handoff_worker_id\<close> (optional), \<open>estimated_return_on\<close> (optional), \<open>day_rate_cents\<close> (optional), \<open>bill_mode\<close> (optional)
  \<^item> \<open>CONFIRM_HANDOFF\<close>: \<open>handoff_confirmed_at\<close>, \<open>handoff_confirmed_by\<close>
  \<^item> \<open>MARK_OVERDUE\<close>: \<open>overdue_since\<close>
  \<^item> \<open>EXTEND\<close>: \<open>estimated_return_on\<close>, \<open>extension_reason\<close> (optional)
  \<^item> \<open>BEGIN_RETURN\<close>: \<open>return_started_at\<close>
  \<^item> \<open>COMPLETE_RETURN\<close>: \<open>returned_at\<close>, \<open>returned_by\<close>, \<open>condition_grade\<close> (optional)
  \<^item> \<open>WRITE_OFF\<close>: \<open>written_off_at\<close>, \<open>written_off_by\<close>, \<open>write_off_reason\<close> (optional)
\<close>

datatype asset_deployment_event =
    DISPATCH string "string field" "string field" "string field" "string field" "int field" "string field"
  | CONFIRM_HANDOFF string string
  | MARK_OVERDUE string
  | EXTEND string "string field"
  | BEGIN_RETURN string
  | COMPLETE_RETURN string string "string field"
  | WRITE_OFF string string "string field"

fun asset_deployment_event_type :: "asset_deployment_event \<Rightarrow> string" where
  "asset_deployment_event_type (DISPATCH _ _ _ _ _ _ _) = ''DISPATCH''"
| "asset_deployment_event_type (CONFIRM_HANDOFF _ _) = ''CONFIRM_HANDOFF''"
| "asset_deployment_event_type (MARK_OVERDUE _) = ''MARK_OVERDUE''"
| "asset_deployment_event_type (EXTEND _ _) = ''EXTEND''"
| "asset_deployment_event_type (BEGIN_RETURN _) = ''BEGIN_RETURN''"
| "asset_deployment_event_type (COMPLETE_RETURN _ _ _) = ''COMPLETE_RETURN''"
| "asset_deployment_event_type (WRITE_OFF _ _ _) = ''WRITE_OFF''"

record asset_deployment_snapshot = "asset_deployment_state workflow_snapshot" +
  inventory_item_id :: "string field"
  inventory_movement_id :: "string field"
  project_id :: "string field"
  from_location_id :: "string field"
  handoff_worker_id :: "string field"
  handoff_confirmed_at :: "string field"
  handoff_confirmed_by :: "string field"
  dispatched_at :: "string field"
  estimated_return_on :: "string field"
  overdue_since :: "string field"
  return_started_at :: "string field"
  returned_at :: "string field"
  returned_by :: "string field"
  condition_grade :: "string field"
  day_rate_cents :: "int field"
  bill_mode :: "string field"
  extension_reason :: "string field"
  write_off_reason :: "string field"

text \<open>The objects these values are at the JSON boundary.\<close>

definition asset_deployment_snapshot_js :: "asset_deployment_snapshot \<Rightarrow> js" where
  "asset_deployment_snapshot_js snap = JObj [
     (''state'', JStr (asset_deployment_state_name (state snap))),
     (''state_version'', JNum (state_version snap)),
     (''inventory_item_id'', field_js JStr (inventory_item_id snap)),
     (''inventory_movement_id'', field_js JStr (inventory_movement_id snap)),
     (''project_id'', field_js JStr (project_id snap)),
     (''from_location_id'', field_js JStr (from_location_id snap)),
     (''handoff_worker_id'', field_js JStr (handoff_worker_id snap)),
     (''handoff_confirmed_at'', field_js JStr (handoff_confirmed_at snap)),
     (''handoff_confirmed_by'', field_js JStr (handoff_confirmed_by snap)),
     (''dispatched_at'', field_js JStr (dispatched_at snap)),
     (''estimated_return_on'', field_js JStr (estimated_return_on snap)),
     (''overdue_since'', field_js JStr (overdue_since snap)),
     (''return_started_at'', field_js JStr (return_started_at snap)),
     (''returned_at'', field_js JStr (returned_at snap)),
     (''returned_by'', field_js JStr (returned_by snap)),
     (''condition_grade'', field_js JStr (condition_grade snap)),
     (''day_rate_cents'', field_js JNum (day_rate_cents snap)),
     (''bill_mode'', field_js JStr (bill_mode snap)),
     (''extension_reason'', field_js JStr (extension_reason snap)),
     (''write_off_reason'', field_js JStr (write_off_reason snap))]"

fun asset_deployment_event_js :: "asset_deployment_event \<Rightarrow> js" where
  "asset_deployment_event_js (DISPATCH ev_dispatched_at ev_project_id ev_from_location_id ev_handoff_worker_id ev_estimated_return_on ev_day_rate_cents ev_bill_mode) = JObj [
       (''type'', JStr ''DISPATCH''),
       (''dispatched_at'', JStr ev_dispatched_at),
       (''project_id'', field_js JStr ev_project_id),
       (''from_location_id'', field_js JStr ev_from_location_id),
       (''handoff_worker_id'', field_js JStr ev_handoff_worker_id),
       (''estimated_return_on'', field_js JStr ev_estimated_return_on),
       (''day_rate_cents'', field_js JNum ev_day_rate_cents),
       (''bill_mode'', field_js JStr ev_bill_mode)]"
| "asset_deployment_event_js (CONFIRM_HANDOFF ev_handoff_confirmed_at ev_handoff_confirmed_by) = JObj [
       (''type'', JStr ''CONFIRM_HANDOFF''),
       (''handoff_confirmed_at'', JStr ev_handoff_confirmed_at),
       (''handoff_confirmed_by'', JStr ev_handoff_confirmed_by)]"
| "asset_deployment_event_js (MARK_OVERDUE ev_overdue_since) = JObj [
       (''type'', JStr ''MARK_OVERDUE''),
       (''overdue_since'', JStr ev_overdue_since)]"
| "asset_deployment_event_js (EXTEND ev_estimated_return_on ev_extension_reason) = JObj [
       (''type'', JStr ''EXTEND''),
       (''estimated_return_on'', JStr ev_estimated_return_on),
       (''extension_reason'', field_js JStr ev_extension_reason)]"
| "asset_deployment_event_js (BEGIN_RETURN ev_return_started_at) = JObj [
       (''type'', JStr ''BEGIN_RETURN''),
       (''return_started_at'', JStr ev_return_started_at)]"
| "asset_deployment_event_js (COMPLETE_RETURN ev_returned_at ev_returned_by ev_condition_grade) = JObj [
       (''type'', JStr ''COMPLETE_RETURN''),
       (''returned_at'', JStr ev_returned_at),
       (''returned_by'', JStr ev_returned_by),
       (''condition_grade'', field_js JStr ev_condition_grade)]"
| "asset_deployment_event_js (WRITE_OFF ev_written_off_at ev_written_off_by ev_write_off_reason) = JObj [
       (''type'', JStr ''WRITE_OFF''),
       (''written_off_at'', JStr ev_written_off_at),
       (''written_off_by'', JStr ev_written_off_by),
       (''write_off_reason'', field_js JStr ev_write_off_reason)]"

section \<open>The reducer\<close>

definition assertAssetDeploymentTransition ::
  "asset_deployment_state \<Rightarrow> asset_deployment_state list \<Rightarrow> string \<Rightarrow> unit result" where
  "assertAssetDeploymentTransition st allowed eventType = assert_in allowed st
     (''asset_deployment: illegal transition from '' @ asset_deployment_state_name st @ '' on '' @ eventType)"

fun transitionAssetDeploymentWorkflow ::
  "asset_deployment_snapshot \<Rightarrow> asset_deployment_event \<Rightarrow> asset_deployment_snapshot result" where
  "transitionAssetDeploymentWorkflow snap (DISPATCH ev_dispatched_at ev_project_id ev_from_location_id ev_handoff_worker_id ev_estimated_return_on ev_day_rate_cents ev_bill_mode) =
     then_return (assertAssetDeploymentTransition (state snap) [Staged] ''DISPATCH'')
      (snap\<lparr>state := Out,
        state_version := state_version snap + 1,
        dispatched_at := Val ev_dispatched_at,
        project_id := coalesce ev_project_id (coalesce (project_id snap) Null),
        from_location_id := coalesce ev_from_location_id (coalesce (from_location_id snap) Null),
        handoff_worker_id := coalesce ev_handoff_worker_id (coalesce (handoff_worker_id snap) Null),
        estimated_return_on := coalesce ev_estimated_return_on (coalesce (estimated_return_on snap) Null),
        day_rate_cents := coalesce ev_day_rate_cents (coalesce (day_rate_cents snap) Null),
        bill_mode := coalesce ev_bill_mode (coalesce (bill_mode snap) Null)\<rparr>)"
| "transitionAssetDeploymentWorkflow snap (CONFIRM_HANDOFF ev_handoff_confirmed_at ev_handoff_confirmed_by) =
     then_return (assertAssetDeploymentTransition (state snap) [Out] ''CONFIRM_HANDOFF'')
      (snap\<lparr>state := Out,
        state_version := state_version snap + 1,
        handoff_confirmed_at := Val ev_handoff_confirmed_at,
        handoff_confirmed_by := Val ev_handoff_confirmed_by\<rparr>)"
| "transitionAssetDeploymentWorkflow snap (MARK_OVERDUE ev_overdue_since) =
     then_return (assertAssetDeploymentTransition (state snap) [Out] ''MARK_OVERDUE'')
      (snap\<lparr>state := Overdue,
        state_version := state_version snap + 1,
        overdue_since := Val ev_overdue_since\<rparr>)"
| "transitionAssetDeploymentWorkflow snap (EXTEND ev_estimated_return_on ev_extension_reason) =
     then_return (assertAssetDeploymentTransition (state snap) [Out, Overdue] ''EXTEND'')
      (snap\<lparr>state := Out,
        state_version := state_version snap + 1,
        estimated_return_on := Val ev_estimated_return_on,
        overdue_since := Null,
        extension_reason := coalesce ev_extension_reason Null\<rparr>)"
| "transitionAssetDeploymentWorkflow snap (BEGIN_RETURN ev_return_started_at) =
     then_return (assertAssetDeploymentTransition (state snap) [Out, Overdue] ''BEGIN_RETURN'')
      (snap\<lparr>state := Returning,
        state_version := state_version snap + 1,
        return_started_at := Val ev_return_started_at\<rparr>)"
| "transitionAssetDeploymentWorkflow snap (COMPLETE_RETURN ev_returned_at ev_returned_by ev_condition_grade) =
     then_return (assertAssetDeploymentTransition (state snap) [Returning, Out, Overdue] ''COMPLETE_RETURN'')
      (snap\<lparr>state := Returned,
        state_version := state_version snap + 1,
        returned_at := Val ev_returned_at,
        returned_by := Val ev_returned_by,
        condition_grade := coalesce ev_condition_grade (coalesce (condition_grade snap) Null)\<rparr>)"
| "transitionAssetDeploymentWorkflow snap (WRITE_OFF _ _ ev_write_off_reason) =
     then_return (assertAssetDeploymentTransition (state snap) [Out, Overdue, Returning] ''WRITE_OFF'')
      (snap\<lparr>state := Written_off,
        state_version := state_version snap + 1,
        write_off_reason := coalesce ev_write_off_reason Null\<rparr>)"

section \<open>Offered events and the descriptor\<close>

fun nextAssetDeploymentEvents :: "asset_deployment_state \<Rightarrow> next_event list" where
  "nextAssetDeploymentEvents Staged = [
       offer ''DISPATCH'' ''Dispatch asset'']"
| "nextAssetDeploymentEvents Out = [
       offer ''CONFIRM_HANDOFF'' ''Confirm handoff'',
       offer ''EXTEND'' ''Extend return'',
       offer ''BEGIN_RETURN'' ''Start return'',
       offer ''WRITE_OFF'' ''Write off'']"
| "nextAssetDeploymentEvents Overdue = [
       offer ''EXTEND'' ''Extend return'',
       offer ''BEGIN_RETURN'' ''Start return'',
       offer ''WRITE_OFF'' ''Write off'']"
| "nextAssetDeploymentEvents Returning = [
       offer ''COMPLETE_RETURN'' ''Complete return'',
       offer ''WRITE_OFF'' ''Write off'']"
| "nextAssetDeploymentEvents Returned = []"
| "nextAssetDeploymentEvents Written_off = []"

definition isHumanAssetDeploymentEvent :: "string \<Rightarrow> bool" where
  "isHumanAssetDeploymentEvent eventType \<longleftrightarrow> eventType \<in> set asset_deployment_event_types \<and> eventType \<noteq> ''MARK_OVERDUE''"

definition assetDeploymentWorkflow ::
  "(asset_deployment_state, asset_deployment_event, asset_deployment_snapshot) workflow_definition" where
  "assetDeploymentWorkflow = \<lparr>
     wf_name = ''asset_deployment'',
     schemaVersion = 1,
     initialState = Staged,
     terminalStates = asset_deployment_terminal_states,
     allStates = asset_deployment_all_states,
     allEventTypes = asset_deployment_event_types,
     reduce = transitionAssetDeploymentWorkflow,
     nextEvents = nextAssetDeploymentEvents,
     isHumanEvent = isHumanAssetDeploymentEvent,
     sideEffectTypes = [''notify_handoff_assignment'']\<rparr>"

section \<open>Refinement of the transition table\<close>

definition asset_deployment_edges :: "asset_deployment_state edge list" where
  "asset_deployment_edges = [
     (Staged, ''DISPATCH'', Out),
     (Out, ''CONFIRM_HANDOFF'', Out),
     (Out, ''MARK_OVERDUE'', Overdue),
     (Out, ''EXTEND'', Out),
     (Overdue, ''EXTEND'', Out),
     (Out, ''BEGIN_RETURN'', Returning),
     (Overdue, ''BEGIN_RETURN'', Returning),
     (Returning, ''COMPLETE_RETURN'', Returned),
     (Out, ''COMPLETE_RETURN'', Returned),
     (Overdue, ''COMPLETE_RETURN'', Returned),
     (Out, ''WRITE_OFF'', Written_off),
     (Overdue, ''WRITE_OFF'', Written_off),
     (Returning, ''WRITE_OFF'', Written_off)]"

lemmas asset_deployment_defs = assetDeploymentWorkflow_def assertAssetDeploymentTransition_def
  asset_deployment_all_states_def asset_deployment_terminal_states_def asset_deployment_event_types_def
  isHumanAssetDeploymentEvent_def asset_deployment_edges_def

interpretation asset_deployment_wf: table_workflow assetDeploymentWorkflow asset_deployment_event_type asset_deployment_edges
proof
  show "state_version s' = state_version s + 1 \<and>
      (state s, asset_deployment_event_type e, state s') \<in> set asset_deployment_edges"
    if "reduce assetDeploymentWorkflow s e = Inr s'" for s e s'
    using that by (cases e) (auto simp: asset_deployment_defs)
  show "is_ok (reduce assetDeploymentWorkflow s e)"
    if "(state s, asset_deployment_event_type e, b) \<in> set asset_deployment_edges" for s e b
    using that by (cases e) (auto simp: asset_deployment_defs)
  show "st \<in> set (allStates assetDeploymentWorkflow)" for st
    by (cases st) (simp_all add: asset_deployment_defs)
  show "asset_deployment_event_type e \<in> set (allEventTypes assetDeploymentWorkflow)" for e
    by (cases e) (simp_all add: asset_deployment_defs)
  show "\<exists>e. asset_deployment_event_type e = t" if "t \<in> set (allEventTypes assetDeploymentWorkflow)" for t
    using that by (auto simp: asset_deployment_defs intro: asset_deployment_event_type.simps)
qed (auto simp: asset_deployment_defs table_ok_def has_edge_def)

interpretation asset_deployment_live: live_workflow assetDeploymentWorkflow asset_deployment_event_type
  by (rule asset_deployment_wf.live_if_table_live) (simp add: table_live_def asset_deployment_defs)

section \<open>Overdue, extension, return\<close>

fun_cases asset_deployment_step: "transitionAssetDeploymentWorkflow s e = Inr s'"

definition asset_deployment_inv :: "asset_deployment_snapshot \<Rightarrow> bool" where
  "asset_deployment_inv s \<longleftrightarrow>
     (state s = Overdue \<longrightarrow> present (overdue_since s)) \<and>
     (state s \<in> {Staged, Out} \<longrightarrow> \<not> present (overdue_since s)) \<and>
     (state s \<noteq> Staged \<longrightarrow> present (dispatched_at s)) \<and>
     (present (returned_at s) \<longleftrightarrow> state s = Returned) \<and>
     (state s = Returned \<longrightarrow> present (returned_by s)) \<and>
     (state s = Returning \<longrightarrow> present (return_started_at s)) \<and>
     (present (write_off_reason s) \<longrightarrow> state s = Written_off)"

lemma asset_deployment_inv_step:
  "asset_deployment_inv s \<Longrightarrow> transitionAssetDeploymentWorkflow s e = Inr s' \<Longrightarrow>
   asset_deployment_inv s'"
  by (cases e) (auto simp: asset_deployment_inv_def asset_deployment_defs)

definition asset_deployment_fresh :: "asset_deployment_snapshot \<Rightarrow> bool" where
  "asset_deployment_fresh s \<longleftrightarrow> state s = Staged \<and> \<not> present (overdue_since s) \<and>
     \<not> present (returned_at s) \<and> \<not> present (write_off_reason s)"

text \<open>
  The overdue stamp is live: in every snapshot reachable from a staged deployment
  it is set while the asset is \<open>overdue\<close> and gone while it is \<open>out\<close>, so extending an overdue
  deployment clears it; a return stamp means the asset is back, and nothing but a staged asset
  lacks its dispatch stamp.
\<close>

lemma asset_overdue_is_live:
  assumes "asset_deployment_fresh s0" and "reachable transitionAssetDeploymentWorkflow s0 s"
  shows "asset_deployment_inv s \<and>
    (state s = Overdue \<longrightarrow>
      (\<exists>t. transitionAssetDeploymentWorkflow s (EXTEND due why) = Inr t \<and> state t = Out \<and>
        overdue_since t = Null \<and> estimated_return_on t = Val due))"
proof
  show "asset_deployment_inv s"
    using assms(2)
  proof (rule reachable_invariant)
    show "asset_deployment_inv s0"
      using assms(1) by (simp add: asset_deployment_fresh_def asset_deployment_inv_def)
  qed (rule asset_deployment_inv_step)
qed (simp add: asset_deployment_defs)

definition asset_deployment_example :: asset_deployment_snapshot where
  "asset_deployment_example = \<lparr>state = Staged, state_version = 1, inventory_item_id = Val ''item-1'',
     inventory_movement_id = Val ''mv-1'', project_id = Null, from_location_id = Null,
     handoff_worker_id = Null, handoff_confirmed_at = Null, handoff_confirmed_by = Null,
     dispatched_at = Null, estimated_return_on = Null, overdue_since = Null,
     return_started_at = Null, returned_at = Null, returned_by = Null, condition_grade = Null,
     day_rate_cents = Null, bill_mode = Null, extension_reason = Null, write_off_reason = Null\<rparr>"

lemma asset_deployment_example_overdue:
  "\<exists>s. run_events transitionAssetDeploymentWorkflow asset_deployment_example
     [DISPATCH ''t1'' (Val ''p-1'') Undefined (Val ''w-1'') (Val ''d-9'') (Val 2500) Null,
      MARK_OVERDUE ''t9''] = Inr s \<and> state s = Overdue"
  by (simp add: asset_deployment_example_def assertAssetDeploymentTransition_def wf_simps)

text \<open>
  A return can be completed without having been started: the reducer
  accepts \<open>COMPLETE_RETURN\<close> from \<open>out\<close> and \<open>overdue\<close> as well as from \<open>returning\<close>, although
  the interface offers it, among the states, only in \<open>returning\<close>.
\<close>

lemma asset_return_skips_grading_step:
  "(is_ok (transitionAssetDeploymentWorkflow s (COMPLETE_RETURN at who grade)) \<longleftrightarrow>
      state s \<in> {Out, Overdue, Returning}) \<and>
   (''COMPLETE_RETURN'' \<in> ne_type ` set (nextAssetDeploymentEvents st) \<longleftrightarrow> st = Returning)"
proof
  show "is_ok (transitionAssetDeploymentWorkflow s (COMPLETE_RETURN at who grade)) \<longleftrightarrow>
      state s \<in> {Out, Overdue, Returning}"
    by (auto simp: asset_deployment_defs)
  show "''COMPLETE_RETURN'' \<in> ne_type ` set (nextAssetDeploymentEvents st) \<longleftrightarrow> st = Returning"
    by (cases st) simp_all
qed

end
