(* ===== verification/Rental_Request_Approval.thy ===== *)
theory Rental_Request_Approval
  imports Workflow_Core
begin

text \<open>
  The rental request approval workflow (\<open>packages/workflows/src/rental-request-approval.ts\<close>): its states, events and snapshot,
  the reducer, the offered events and the descriptor, and its refinement of the transition table
  that makes it an instance of the workflow contract.  Its own lemmas show that a
  request is answered once.
\<close>

section \<open>States, events, snapshot\<close>

datatype rental_request_approval_state = Pending | Approved | Declined

fun rental_request_approval_state_name :: "rental_request_approval_state \<Rightarrow> string" where
  "rental_request_approval_state_name Pending = ''pending''"
| "rental_request_approval_state_name Approved = ''approved''"
| "rental_request_approval_state_name Declined = ''declined''"

definition rental_request_approval_all_states :: "rental_request_approval_state list" where
  "rental_request_approval_all_states = [Pending, Approved, Declined]"

definition rental_request_approval_terminal_states :: "rental_request_approval_state list" where
  "rental_request_approval_terminal_states = [Approved, Declined]"

definition rental_request_approval_event_types :: "string list" where
  "rental_request_approval_event_types = [
     ''APPROVE'',
     ''DECLINE'']"

text \<open>
  Constructor arguments, in order:
  \<^item> \<open>APPROVE\<close>: \<open>approved_at\<close>, \<open>approved_by\<close>
  \<^item> \<open>DECLINE\<close>: \<open>declined_at\<close>, \<open>declined_by\<close>, \<open>decline_reason\<close> (optional)
\<close>

datatype rental_request_approval_event =
    APPROVE string string
  | DECLINE string string "string field"

fun rental_request_approval_event_type :: "rental_request_approval_event \<Rightarrow> string" where
  "rental_request_approval_event_type (APPROVE _ _) = ''APPROVE''"
| "rental_request_approval_event_type (DECLINE _ _ _) = ''DECLINE''"

record rental_request_approval_snapshot = "rental_request_approval_state workflow_snapshot" +
  approved_at :: "string field"
  approved_by :: "string field"
  declined_at :: "string field"
  declined_by :: "string field"
  decline_reason :: "string field"

text \<open>The objects these values are at the JSON boundary.\<close>

definition rental_request_approval_snapshot_js :: "rental_request_approval_snapshot \<Rightarrow> js" where
  "rental_request_approval_snapshot_js snap = JObj [
     (''state'', JStr (rental_request_approval_state_name (state snap))),
     (''state_version'', JNum (state_version snap)),
     (''approved_at'', field_js JStr (approved_at snap)),
     (''approved_by'', field_js JStr (approved_by snap)),
     (''declined_at'', field_js JStr (declined_at snap)),
     (''declined_by'', field_js JStr (declined_by snap)),
     (''decline_reason'', field_js JStr (decline_reason snap))]"

fun rental_request_approval_event_js :: "rental_request_approval_event \<Rightarrow> js" where
  "rental_request_approval_event_js (APPROVE ev_approved_at ev_approved_by) = JObj [
       (''type'', JStr ''APPROVE''),
       (''approved_at'', JStr ev_approved_at),
       (''approved_by'', JStr ev_approved_by)]"
| "rental_request_approval_event_js (DECLINE ev_declined_at ev_declined_by ev_decline_reason) = JObj [
       (''type'', JStr ''DECLINE''),
       (''declined_at'', JStr ev_declined_at),
       (''declined_by'', JStr ev_declined_by),
       (''decline_reason'', field_js JStr ev_decline_reason)]"

section \<open>The reducer\<close>

definition assertRentalRequestApprovalTransition ::
  "rental_request_approval_state \<Rightarrow> rental_request_approval_state list \<Rightarrow> string \<Rightarrow> unit result" where
  "assertRentalRequestApprovalTransition st allowed eventType = assert_in allowed st
     (''rental_request_approval: illegal transition from '' @ rental_request_approval_state_name st @ '' on '' @ eventType)"

fun transitionRentalRequestApprovalWorkflow ::
  "rental_request_approval_snapshot \<Rightarrow> rental_request_approval_event \<Rightarrow> rental_request_approval_snapshot result" where
  "transitionRentalRequestApprovalWorkflow snap (APPROVE ev_approved_at ev_approved_by) =
     then_return (assertRentalRequestApprovalTransition (state snap) [Pending] ''APPROVE'')
      (snap\<lparr>state := Approved,
        state_version := state_version snap + 1,
        approved_at := Val ev_approved_at,
        approved_by := Val ev_approved_by\<rparr>)"
| "transitionRentalRequestApprovalWorkflow snap (DECLINE ev_declined_at ev_declined_by ev_decline_reason) =
     then_return (assertRentalRequestApprovalTransition (state snap) [Pending] ''DECLINE'')
      (snap\<lparr>state := Declined,
        state_version := state_version snap + 1,
        declined_at := Val ev_declined_at,
        declined_by := Val ev_declined_by,
        decline_reason := coalesce ev_decline_reason Null\<rparr>)"

section \<open>Offered events and the descriptor\<close>

fun nextRentalRequestApprovalEvents :: "rental_request_approval_state \<Rightarrow> next_event list" where
  "nextRentalRequestApprovalEvents Pending = [
       offer ''APPROVE'' ''Approve request'',
       offer ''DECLINE'' ''Decline request'']"
| "nextRentalRequestApprovalEvents Approved = []"
| "nextRentalRequestApprovalEvents Declined = []"

definition isHumanRentalRequestApprovalEvent :: "string \<Rightarrow> bool" where
  "isHumanRentalRequestApprovalEvent eventType \<longleftrightarrow>
     eventType = ''APPROVE'' \<or>
     eventType = ''DECLINE''"

definition rentalRequestApprovalWorkflow ::
  "(rental_request_approval_state, rental_request_approval_event, rental_request_approval_snapshot) workflow_definition" where
  "rentalRequestApprovalWorkflow = \<lparr>
     wf_name = ''rental_request_approval'',
     schemaVersion = 1,
     initialState = Pending,
     terminalStates = rental_request_approval_terminal_states,
     allStates = rental_request_approval_all_states,
     allEventTypes = rental_request_approval_event_types,
     reduce = transitionRentalRequestApprovalWorkflow,
     nextEvents = nextRentalRequestApprovalEvents,
     isHumanEvent = isHumanRentalRequestApprovalEvent,
     sideEffectTypes = [''create_rental_from_request'']\<rparr>"

section \<open>Refinement of the transition table\<close>

definition rental_request_approval_edges :: "rental_request_approval_state edge list" where
  "rental_request_approval_edges = [
     (Pending, ''APPROVE'', Approved),
     (Pending, ''DECLINE'', Declined)]"

lemmas rental_request_approval_defs = rentalRequestApprovalWorkflow_def assertRentalRequestApprovalTransition_def
  rental_request_approval_all_states_def rental_request_approval_terminal_states_def rental_request_approval_event_types_def
  isHumanRentalRequestApprovalEvent_def rental_request_approval_edges_def

interpretation rental_request_approval_wf: table_workflow rentalRequestApprovalWorkflow rental_request_approval_event_type rental_request_approval_edges
proof
  show "state_version s' = state_version s + 1 \<and>
      (state s, rental_request_approval_event_type e, state s') \<in> set rental_request_approval_edges"
    if "reduce rentalRequestApprovalWorkflow s e = Inr s'" for s e s'
    using that by (cases e) (auto simp: rental_request_approval_defs)
  show "is_ok (reduce rentalRequestApprovalWorkflow s e)"
    if "(state s, rental_request_approval_event_type e, b) \<in> set rental_request_approval_edges" for s e b
    using that by (cases e) (auto simp: rental_request_approval_defs)
  show "st \<in> set (allStates rentalRequestApprovalWorkflow)" for st
    by (cases st) (simp_all add: rental_request_approval_defs)
  show "rental_request_approval_event_type e \<in> set (allEventTypes rentalRequestApprovalWorkflow)" for e
    by (cases e) (simp_all add: rental_request_approval_defs)
  show "\<exists>e. rental_request_approval_event_type e = t" if "t \<in> set (allEventTypes rentalRequestApprovalWorkflow)" for t
    using that by (auto simp: rental_request_approval_defs intro: rental_request_approval_event_type.simps)
qed (auto simp: rental_request_approval_defs table_ok_def has_edge_def)

interpretation rental_request_approval_live: live_workflow rentalRequestApprovalWorkflow rental_request_approval_event_type
  by (rule rental_request_approval_wf.live_if_table_live) (simp add: table_live_def rental_request_approval_defs)

section \<open>One decision per request\<close>

fun_cases rental_request_approval_step: "transitionRentalRequestApprovalWorkflow s e = Inr s'"

definition rental_request_approval_inv :: "rental_request_approval_snapshot \<Rightarrow> bool" where
  "rental_request_approval_inv s \<longleftrightarrow>
     (present (approved_at s) \<longleftrightarrow> state s = Approved) \<and>
     (present (approved_by s) \<longleftrightarrow> state s = Approved) \<and>
     (present (declined_at s) \<longleftrightarrow> state s = Declined) \<and>
     (present (declined_by s) \<longleftrightarrow> state s = Declined) \<and>
     (present (decline_reason s) \<longrightarrow> state s = Declined)"

lemma rental_request_approval_inv_step:
  "rental_request_approval_inv s \<Longrightarrow> transitionRentalRequestApprovalWorkflow s e = Inr s' \<Longrightarrow>
   rental_request_approval_inv s'"
  by (cases e) (auto simp: rental_request_approval_inv_def rental_request_approval_defs)

text \<open>
  A rental request is decided at most once, so its
  \<open>create_rental_from_request\<close> command is emitted at most once: of two decisions in one history
  the second is refused, and the decision stamps say exactly which one was taken.
\<close>

lemma rental_request_decided_once:
  assumes "rental_request_approval_inv s"
    and "run_events transitionRentalRequestApprovalWorkflow s (es @ [e]) = Inr t"
  shows "es = [] \<and> state s = Pending \<and> rental_request_approval_inv t \<and> state t \<noteq> Pending \<and>
    \<not> is_ok (transitionRentalRequestApprovalWorkflow t f)"
proof -
  obtain u where u: "run_events transitionRentalRequestApprovalWorkflow s es = Inr u"
    and step: "transitionRentalRequestApprovalWorkflow u e = Inr t"
    using assms(2) by (auto simp: run_events_snoc_Inr)
  have ut: "state u = Pending" "state t \<in> {Approved, Declined}"
    using step by (cases e; auto simp: rental_request_approval_defs)+
  have "es = []"
  proof (rule ccontr)
    assume "es \<noteq> []"
    then obtain fs g where "es = fs @ [g]" by (cases es rule: rev_cases) auto
    with u obtain v where "transitionRentalRequestApprovalWorkflow v g = Inr u"
      by (auto simp: run_events_snoc_Inr)
    with ut(1) show False by (cases g) (auto simp: rental_request_approval_defs)
  qed
  with u ut rental_request_approval_inv_step [OF _ step] assms(1)
    rental_request_approval_wf.terminal_final [of t f]
  show ?thesis by (auto simp: rental_request_approval_defs)
qed

end
