(* ===== verification/Tenant_Provision.thy ===== *)
theory Tenant_Provision
  imports Workflow_Core
begin

text \<open>
  The tenant provisioning workflow (\<open>packages/workflows/src/tenant-provision.ts\<close>): its states, events and snapshot,
  the reducer, the offered events and the descriptor, and its refinement of the transition table
  that makes it an instance of the workflow contract.  Its own lemmas are about the company id and the
  accumulated invitations.
\<close>

section \<open>States, events, snapshot\<close>

datatype tenant_provision_state = Company_pending | Company_created | Seeding | Partially_seeded | Provisioned | Failed | Abandoned

fun tenant_provision_state_name :: "tenant_provision_state \<Rightarrow> string" where
  "tenant_provision_state_name Company_pending = ''company_pending''"
| "tenant_provision_state_name Company_created = ''company_created''"
| "tenant_provision_state_name Seeding = ''seeding''"
| "tenant_provision_state_name Partially_seeded = ''partially_seeded''"
| "tenant_provision_state_name Provisioned = ''provisioned''"
| "tenant_provision_state_name Failed = ''failed''"
| "tenant_provision_state_name Abandoned = ''abandoned''"

definition tenant_provision_all_states :: "tenant_provision_state list" where
  "tenant_provision_all_states = [Company_pending, Company_created, Seeding, Partially_seeded, Provisioned, Failed, Abandoned]"

definition tenant_provision_terminal_states :: "tenant_provision_state list" where
  "tenant_provision_terminal_states = [Provisioned, Abandoned]"

definition tenant_provision_event_types :: "string list" where
  "tenant_provision_event_types = [
     ''CREATE_COMPANY'',
     ''COMPANY_CREATED'',
     ''COMPANY_REJECTED'',
     ''INVITE_MEMBER'',
     ''MEMBER_INVITED'',
     ''SEED_REQUESTED'',
     ''SEED_COMPLETED'',
     ''SEED_PARTIAL'',
     ''SKIP_SEED'',
     ''FINISH'',
     ''ABANDON'']"

definition tenant_provision_human_event_types :: "string list" where
  "tenant_provision_human_event_types = [
     ''CREATE_COMPANY'',
     ''INVITE_MEMBER'',
     ''SEED_REQUESTED'',
     ''SKIP_SEED'',
     ''FINISH'',
     ''ABANDON'']"

record tenant_provision_invite =
  clerk_user_id :: string
  role :: string

definition tenant_provision_invite_js :: "tenant_provision_invite \<Rightarrow> js" where
  "tenant_provision_invite_js invite = JObj [
     (''clerk_user_id'', JStr (clerk_user_id invite)),
     (''role'', JStr (role invite))]"

record tenant_provision_seed_request =
  customer_name :: "string field"
  worker_name :: "string field"
  yard_name :: "string field"

definition tenant_provision_seed_request_js :: "tenant_provision_seed_request \<Rightarrow> js" where
  "tenant_provision_seed_request_js req = JObj [
     (''customer_name'', field_js JStr (customer_name req)),
     (''worker_name'', field_js JStr (worker_name req)),
     (''yard_name'', field_js JStr (yard_name req))]"

text \<open>
  Constructor arguments, in order:
  \<^item> \<open>CREATE_COMPANY\<close>: \<open>slug\<close>, \<open>name\<close>
  \<^item> \<open>INVITE_MEMBER\<close>: \<open>clerk_user_id\<close>, \<open>role\<close>
  \<^item> \<open>SEED_REQUESTED\<close>: \<open>seed_request\<close>
  \<^item> \<open>COMPANY_CREATED\<close>: \<open>company_id\<close>
  \<^item> \<open>COMPANY_REJECTED\<close>: \<open>error\<close>, \<open>suggested_slug\<close> (optional)
  \<^item> \<open>MEMBER_INVITED\<close>: \<open>clerk_user_id\<close>
  \<^item> \<open>SEED_PARTIAL\<close>: \<open>failed_seeds\<close>
\<close>

datatype tenant_provision_event =
    CREATE_COMPANY string string
  | INVITE_MEMBER string string
  | SEED_REQUESTED tenant_provision_seed_request
  | SKIP_SEED
  | FINISH
  | ABANDON
  | COMPANY_CREATED string
  | COMPANY_REJECTED string "string field"
  | MEMBER_INVITED string
  | SEED_COMPLETED
  | SEED_PARTIAL "string list"

fun tenant_provision_event_type :: "tenant_provision_event \<Rightarrow> string" where
  "tenant_provision_event_type (CREATE_COMPANY _ _) = ''CREATE_COMPANY''"
| "tenant_provision_event_type (INVITE_MEMBER ev_clerk_user_id ev_role) = ''INVITE_MEMBER''"
| "tenant_provision_event_type (SEED_REQUESTED _) = ''SEED_REQUESTED''"
| "tenant_provision_event_type SKIP_SEED = ''SKIP_SEED''"
| "tenant_provision_event_type FINISH = ''FINISH''"
| "tenant_provision_event_type ABANDON = ''ABANDON''"
| "tenant_provision_event_type (COMPANY_CREATED _) = ''COMPANY_CREATED''"
| "tenant_provision_event_type (COMPANY_REJECTED _ _) = ''COMPANY_REJECTED''"
| "tenant_provision_event_type (MEMBER_INVITED _) = ''MEMBER_INVITED''"
| "tenant_provision_event_type SEED_COMPLETED = ''SEED_COMPLETED''"
| "tenant_provision_event_type (SEED_PARTIAL _) = ''SEED_PARTIAL''"

record tenant_provision_snapshot = "tenant_provision_state workflow_snapshot" +
  company_id :: "string field"
  slug :: "string field"
  name :: "string field"
  invited :: "(tenant_provision_invite list) field"
  seed_request :: "tenant_provision_seed_request field"
  failed_seeds :: "(string list) field"
  error :: "string field"
  suggested_slug :: "string field"

text \<open>The objects these values are at the JSON boundary.\<close>

definition tenant_provision_snapshot_js :: "tenant_provision_snapshot \<Rightarrow> js" where
  "tenant_provision_snapshot_js snap = JObj [
     (''state'', JStr (tenant_provision_state_name (state snap))),
     (''state_version'', JNum (state_version snap)),
     (''company_id'', field_js JStr (company_id snap)),
     (''slug'', field_js JStr (slug snap)),
     (''name'', field_js JStr (name snap)),
     (''invited'', field_js (\<lambda>xs. JArr (map tenant_provision_invite_js xs)) (invited snap)),
     (''seed_request'', field_js tenant_provision_seed_request_js (seed_request snap)),
     (''failed_seeds'', field_js (\<lambda>xs. JArr (map JStr xs)) (failed_seeds snap)),
     (''error'', field_js JStr (error snap)),
     (''suggested_slug'', field_js JStr (suggested_slug snap))]"

fun tenant_provision_event_js :: "tenant_provision_event \<Rightarrow> js" where
  "tenant_provision_event_js (CREATE_COMPANY ev_slug ev_name) = JObj [
       (''type'', JStr ''CREATE_COMPANY''),
       (''slug'', JStr ev_slug),
       (''name'', JStr ev_name)]"
| "tenant_provision_event_js (INVITE_MEMBER ev_clerk_user_id ev_role) = JObj [
       (''type'', JStr ''INVITE_MEMBER''),
       (''clerk_user_id'', JStr ev_clerk_user_id),
       (''role'', JStr ev_role)]"
| "tenant_provision_event_js (SEED_REQUESTED ev_seed_request) = JObj [
       (''type'', JStr ''SEED_REQUESTED''),
       (''seed_request'', tenant_provision_seed_request_js ev_seed_request)]"
| "tenant_provision_event_js SKIP_SEED = JObj [
       (''type'', JStr ''SKIP_SEED'')]"
| "tenant_provision_event_js FINISH = JObj [
       (''type'', JStr ''FINISH'')]"
| "tenant_provision_event_js ABANDON = JObj [
       (''type'', JStr ''ABANDON'')]"
| "tenant_provision_event_js (COMPANY_CREATED ev_company_id) = JObj [
       (''type'', JStr ''COMPANY_CREATED''),
       (''company_id'', JStr ev_company_id)]"
| "tenant_provision_event_js (COMPANY_REJECTED ev_error ev_suggested_slug) = JObj [
       (''type'', JStr ''COMPANY_REJECTED''),
       (''error'', JStr ev_error),
       (''suggested_slug'', field_js JStr ev_suggested_slug)]"
| "tenant_provision_event_js (MEMBER_INVITED ev_clerk_user_id) = JObj [
       (''type'', JStr ''MEMBER_INVITED''),
       (''clerk_user_id'', JStr ev_clerk_user_id)]"
| "tenant_provision_event_js SEED_COMPLETED = JObj [
       (''type'', JStr ''SEED_COMPLETED'')]"
| "tenant_provision_event_js (SEED_PARTIAL ev_failed_seeds) = JObj [
       (''type'', JStr ''SEED_PARTIAL''),
       (''failed_seeds'', (\<lambda>xs. JArr (map JStr xs)) ev_failed_seeds)]"

section \<open>The reducer\<close>

definition assertTenantProvisionTransition ::
  "tenant_provision_state \<Rightarrow> tenant_provision_state list \<Rightarrow> string \<Rightarrow> unit result" where
  "assertTenantProvisionTransition st allowed eventType = assert_in allowed st
     (''tenant_provision: illegal transition from '' @ tenant_provision_state_name st @ '' on '' @ eventType)"

fun transitionTenantProvisionWorkflow ::
  "tenant_provision_snapshot \<Rightarrow> tenant_provision_event \<Rightarrow> tenant_provision_snapshot result" where
  "transitionTenantProvisionWorkflow snap (CREATE_COMPANY ev_slug ev_name) =
     then_return (assertTenantProvisionTransition (state snap) [Company_pending, Failed] ''CREATE_COMPANY'')
      (snap\<lparr>state := Company_pending,
        state_version := state_version snap + 1,
        slug := Val ev_slug,
        name := Val ev_name,
        error := Null,
        suggested_slug := Null\<rparr>)"
| "transitionTenantProvisionWorkflow snap (INVITE_MEMBER ev_clerk_user_id ev_role) =
     then_return (assertTenantProvisionTransition (state snap) [Company_created] ''INVITE_MEMBER'')
      (snap\<lparr>state := Company_created,
        state_version := state_version snap + 1,
        invited := Val (value_or (invited snap) [] @
          [\<lparr>clerk_user_id = ev_clerk_user_id, role = ev_role\<rparr>])\<rparr>)"
| "transitionTenantProvisionWorkflow snap (SEED_REQUESTED ev_seed_request) =
     then_return (assertTenantProvisionTransition (state snap) [Company_created, Partially_seeded] ''SEED_REQUESTED'')
      (snap\<lparr>state := Seeding,
        state_version := state_version snap + 1,
        seed_request := Val ev_seed_request,
        failed_seeds := Val []\<rparr>)"
| "transitionTenantProvisionWorkflow snap SKIP_SEED =
     then_return (assertTenantProvisionTransition (state snap) [Company_created] ''SKIP_SEED'')
      (snap\<lparr>state := Provisioned,
        state_version := state_version snap + 1\<rparr>)"
| "transitionTenantProvisionWorkflow snap FINISH =
     then_return (assertTenantProvisionTransition (state snap) [Partially_seeded] ''FINISH'')
      (snap\<lparr>state := Provisioned,
        state_version := state_version snap + 1\<rparr>)"
| "transitionTenantProvisionWorkflow snap ABANDON =
     then_return (assertTenantProvisionTransition (state snap) [Company_created, Partially_seeded, Failed] ''ABANDON'')
      (snap\<lparr>state := Abandoned,
        state_version := state_version snap + 1\<rparr>)"
| "transitionTenantProvisionWorkflow snap (COMPANY_CREATED ev_company_id) =
     then_return (assertTenantProvisionTransition (state snap) [Company_pending] ''COMPANY_CREATED'')
      (snap\<lparr>state := Company_created,
        state_version := state_version snap + 1,
        company_id := Val ev_company_id,
        error := Null,
        suggested_slug := Null\<rparr>)"
| "transitionTenantProvisionWorkflow snap (COMPANY_REJECTED ev_error ev_suggested_slug) =
     then_return (assertTenantProvisionTransition (state snap) [Company_pending] ''COMPANY_REJECTED'')
      (snap\<lparr>state := Failed,
        state_version := state_version snap + 1,
        error := Val ev_error,
        suggested_slug := coalesce ev_suggested_slug Null\<rparr>)"
| "transitionTenantProvisionWorkflow snap (MEMBER_INVITED _) =
     then_return (assertTenantProvisionTransition (state snap) [Company_created] ''MEMBER_INVITED'')
      (snap\<lparr>state_version := state_version snap + 1\<rparr>)"
| "transitionTenantProvisionWorkflow snap SEED_COMPLETED =
     then_return (assertTenantProvisionTransition (state snap) [Seeding] ''SEED_COMPLETED'')
      (snap\<lparr>state := Provisioned,
        state_version := state_version snap + 1,
        failed_seeds := Val []\<rparr>)"
| "transitionTenantProvisionWorkflow snap (SEED_PARTIAL ev_failed_seeds) =
     then_return (assertTenantProvisionTransition (state snap) [Seeding] ''SEED_PARTIAL'')
      (snap\<lparr>state := Partially_seeded,
        state_version := state_version snap + 1,
        failed_seeds := Val ev_failed_seeds\<rparr>)"

section \<open>Offered events and the descriptor\<close>

fun nextTenantProvisionEvents :: "tenant_provision_state \<Rightarrow> next_event list" where
  "nextTenantProvisionEvents Company_pending = []"
| "nextTenantProvisionEvents Company_created = [
       offer ''INVITE_MEMBER'' ''Invite teammate'',
       offer ''SEED_REQUESTED'' ''Seed starter data'',
       offer ''SKIP_SEED'' ''Skip seeding'',
       offer ''ABANDON'' ''Finish later'']"
| "nextTenantProvisionEvents Seeding = []"
| "nextTenantProvisionEvents Partially_seeded = [
       offer ''SEED_REQUESTED'' ''Retry seeding'',
       offer ''FINISH'' ''Finish anyway'',
       offer ''ABANDON'' ''Finish later'']"
| "nextTenantProvisionEvents Provisioned = []"
| "nextTenantProvisionEvents Failed = [
       offer ''CREATE_COMPANY'' ''Try again'',
       offer ''ABANDON'' ''Finish later'']"
| "nextTenantProvisionEvents Abandoned = []"

definition isHumanTenantProvisionEvent :: "string \<Rightarrow> bool" where
  "isHumanTenantProvisionEvent eventType \<longleftrightarrow> eventType \<in> set tenant_provision_human_event_types"

definition tenantProvisionWorkflow ::
  "(tenant_provision_state, tenant_provision_event, tenant_provision_snapshot) workflow_definition" where
  "tenantProvisionWorkflow = \<lparr>
     wf_name = ''tenant_provision'',
     schemaVersion = 1,
     initialState = Company_pending,
     terminalStates = tenant_provision_terminal_states,
     allStates = tenant_provision_all_states,
     allEventTypes = tenant_provision_event_types,
     reduce = transitionTenantProvisionWorkflow,
     nextEvents = nextTenantProvisionEvents,
     isHumanEvent = isHumanTenantProvisionEvent,
     sideEffectTypes = [''create_company'', ''invite_member'', ''seed_tenant_defaults'']\<rparr>"

section \<open>Refinement of the transition table\<close>

definition tenant_provision_edges :: "tenant_provision_state edge list" where
  "tenant_provision_edges = [
     (Company_pending, ''CREATE_COMPANY'', Company_pending),
     (Failed, ''CREATE_COMPANY'', Company_pending),
     (Company_created, ''INVITE_MEMBER'', Company_created),
     (Company_created, ''SEED_REQUESTED'', Seeding),
     (Partially_seeded, ''SEED_REQUESTED'', Seeding),
     (Company_created, ''SKIP_SEED'', Provisioned),
     (Partially_seeded, ''FINISH'', Provisioned),
     (Company_created, ''ABANDON'', Abandoned),
     (Partially_seeded, ''ABANDON'', Abandoned),
     (Failed, ''ABANDON'', Abandoned),
     (Company_pending, ''COMPANY_CREATED'', Company_created),
     (Company_pending, ''COMPANY_REJECTED'', Failed),
     (Company_created, ''MEMBER_INVITED'', Company_created),
     (Seeding, ''SEED_COMPLETED'', Provisioned),
     (Seeding, ''SEED_PARTIAL'', Partially_seeded)]"

lemmas tenant_provision_defs = tenantProvisionWorkflow_def assertTenantProvisionTransition_def
  tenant_provision_all_states_def tenant_provision_terminal_states_def tenant_provision_event_types_def
  isHumanTenantProvisionEvent_def tenant_provision_human_event_types_def tenant_provision_edges_def

interpretation tenant_provision_wf: table_workflow tenantProvisionWorkflow tenant_provision_event_type tenant_provision_edges
proof
  show "state_version s' = state_version s + 1 \<and>
      (state s, tenant_provision_event_type e, state s') \<in> set tenant_provision_edges"
    if "reduce tenantProvisionWorkflow s e = Inr s'" for s e s'
    using that by (cases e) (auto simp: tenant_provision_defs)
  show "is_ok (reduce tenantProvisionWorkflow s e)"
    if "(state s, tenant_provision_event_type e, b) \<in> set tenant_provision_edges" for s e b
    using that by (cases e) (auto simp: tenant_provision_defs)
  show "st \<in> set (allStates tenantProvisionWorkflow)" for st
    by (cases st) (simp_all add: tenant_provision_defs)
  show "tenant_provision_event_type e \<in> set (allEventTypes tenantProvisionWorkflow)" for e
    by (cases e) (simp_all add: tenant_provision_defs)
  show "\<exists>e. tenant_provision_event_type e = t" if "t \<in> set (allEventTypes tenantProvisionWorkflow)" for t
    using that by (auto simp: tenant_provision_defs intro: tenant_provision_event_type.simps)
qed (auto simp: tenant_provision_defs table_ok_def has_edge_def)

interpretation tenant_provision_live: live_workflow tenantProvisionWorkflow tenant_provision_event_type
  by (rule tenant_provision_wf.live_if_table_live) (simp add: table_live_def tenant_provision_defs)

section \<open>A provisioned tenant has a company\<close>

fun_cases tenant_provision_step: "transitionTenantProvisionWorkflow s e = Inr s'"

definition tenant_provision_inv :: "tenant_provision_snapshot \<Rightarrow> bool" where
  "tenant_provision_inv s \<longleftrightarrow>
     (state s \<in> {Company_created, Seeding, Partially_seeded, Provisioned} \<longrightarrow>
        present (company_id s)) \<and>
     (state s \<in> {Company_pending, Failed} \<longrightarrow> \<not> present (company_id s)) \<and>
     (state s = Failed \<longrightarrow> present (error s)) \<and>
     (present (error s) \<longrightarrow> state s \<in> {Failed, Abandoned}) \<and>
     (state s \<in> {Seeding, Partially_seeded} \<longrightarrow> present (seed_request s)) \<and>
     (state s = Seeding \<longrightarrow> value_or (failed_seeds s) [] = [])"

lemma tenant_provision_inv_step:
  "tenant_provision_inv s \<Longrightarrow> transitionTenantProvisionWorkflow s e = Inr s' \<Longrightarrow>
   tenant_provision_inv s'"
  by (cases e) (auto simp: tenant_provision_inv_def tenant_provision_defs)

lemma company_id_step:
  "transitionTenantProvisionWorkflow s e = Inr s' \<Longrightarrow> tenant_provision_inv s \<Longrightarrow>
   present (company_id s) \<Longrightarrow> company_id s' = company_id s"
  by (cases e) (auto simp: tenant_provision_inv_def tenant_provision_defs)

text \<open>The invitations an event adds to the snapshot's list.\<close>

fun invites_of :: "tenant_provision_event list \<Rightarrow> tenant_provision_invite list" where
  "invites_of [] = []"
| "invites_of (INVITE_MEMBER who r # es) =
     \<lparr>clerk_user_id = who, role = r\<rparr> # invites_of es"
| "invites_of (_ # es) = invites_of es"

lemma invited_run:
  "run_events transitionTenantProvisionWorkflow s es = Inr t \<Longrightarrow>
   value_or (invited t) [] = value_or (invited s) [] @ invites_of es"
proof (induction es arbitrary: s)
  case Nil
  then show ?case by simp
next
  case (Cons e es)
  then obtain s' where step: "transitionTenantProvisionWorkflow s e = Inr s'"
    and run: "run_events transitionTenantProvisionWorkflow s' es = Inr t"
    by (auto split: sum.splits)
  show ?case
    using Cons.IH [OF run] step by (cases e) (auto simp: tenant_provision_defs)
qed

text \<open>
  In every snapshot a provisioning run reaches from a submitted form, a
  company exists exactly in the states that need one: a provisioned, seeding or partially
  seeded tenant always carries its company id and a pending or failed one never does; the
  invitation list is the accepted invitations in order, none lost by a seed failure or retry.
\<close>

lemma tenant_provisioned_has_company:
  assumes "state s0 = Company_pending" and "\<not> present (company_id s0)"
    and "\<not> present (error s0)"
    and "run_events transitionTenantProvisionWorkflow s0 es = Inr s"
  shows "tenant_provision_inv s \<and>
    value_or (invited s) [] = value_or (invited s0) [] @ invites_of es"
proof
  show "tenant_provision_inv s"
    using assms(4)
  proof (rule run_events_invariant)
    show "tenant_provision_inv s0"
      using assms(1-3) by (simp add: tenant_provision_inv_def)
  qed (rule tenant_provision_inv_step)
  show "value_or (invited s) [] = value_or (invited s0) [] @ invites_of es"
    by (rule invited_run [OF assms(4)])
qed

definition tenant_provision_example :: tenant_provision_snapshot where
  "tenant_provision_example = \<lparr>state = Company_pending, state_version = 1, company_id = Null,
     slug = Null, name = Null, invited = Undefined, seed_request = Null, failed_seeds = Undefined,
     error = Null, suggested_slug = Null\<rparr>"

definition tenant_provision_example_run :: "tenant_provision_event list" where
  "tenant_provision_example_run = [CREATE_COMPANY ''acme'' ''Acme'',
     COMPANY_REJECTED ''slug taken'' (Val ''acme-2''), CREATE_COMPANY ''acme-2'' ''Acme'',
     COMPANY_CREATED ''c-1'', INVITE_MEMBER ''u-2'' ''foreman'', MEMBER_INVITED ''u-2'',
     SEED_REQUESTED \<lparr>customer_name = Val ''First'', worker_name = Undefined, yard_name = Null\<rparr>,
     SEED_PARTIAL [''worker''], FINISH]"

end
