(* ===== verification/Qbo_Sync_Run.thy ===== *)
theory Qbo_Sync_Run
  imports Workflow_Core
begin

text \<open>
  The QuickBooks sync run workflow (\<open>packages/workflows/src/qbo-sync-run.ts\<close>): its states, events and snapshot,
  the reducer, the offered events and the descriptor, and its refinement of the transition table
  that makes it an instance of the workflow contract.  Its own lemmas count attempts and retries.
\<close>

section \<open>States, events, snapshot\<close>

datatype qbo_sync_run_state = Pending | Syncing | Succeeded | Failed | Retrying

fun qbo_sync_run_state_name :: "qbo_sync_run_state \<Rightarrow> string" where
  "qbo_sync_run_state_name Pending = ''pending''"
| "qbo_sync_run_state_name Syncing = ''syncing''"
| "qbo_sync_run_state_name Succeeded = ''succeeded''"
| "qbo_sync_run_state_name Failed = ''failed''"
| "qbo_sync_run_state_name Retrying = ''retrying''"

definition qbo_sync_run_all_states :: "qbo_sync_run_state list" where
  "qbo_sync_run_all_states = [Pending, Syncing, Succeeded, Failed, Retrying]"

definition qbo_sync_run_terminal_states :: "qbo_sync_run_state list" where
  "qbo_sync_run_terminal_states = [Succeeded]"

definition qbo_sync_run_event_types :: "string list" where
  "qbo_sync_run_event_types = [
     ''START_SYNC'',
     ''SYNC_SUCCEEDED'',
     ''SYNC_FAILED'',
     ''RETRY'']"

text \<open>
  Constructor arguments, in order:
  \<^item> \<open>START_SYNC\<close>: \<open>started_at\<close>, \<open>triggered_by\<close> (optional)
  \<^item> \<open>SYNC_SUCCEEDED\<close>: \<open>succeeded_at\<close>, \<open>snapshot\<close> (optional)
  \<^item> \<open>SYNC_FAILED\<close>: \<open>failed_at\<close>, \<open>error\<close>
  \<^item> \<open>RETRY\<close>: \<open>retried_at\<close>, \<open>triggered_by\<close> (optional)
\<close>

datatype qbo_sync_run_event =
    START_SYNC string "string field"
  | SYNC_SUCCEEDED string "js field"
  | SYNC_FAILED string string
  | RETRY string "string field"

fun qbo_sync_run_event_type :: "qbo_sync_run_event \<Rightarrow> string" where
  "qbo_sync_run_event_type (START_SYNC _ _) = ''START_SYNC''"
| "qbo_sync_run_event_type (SYNC_SUCCEEDED _ _) = ''SYNC_SUCCEEDED''"
| "qbo_sync_run_event_type (SYNC_FAILED _ _) = ''SYNC_FAILED''"
| "qbo_sync_run_event_type (RETRY _ _) = ''RETRY''"

record qbo_sync_run_snapshot = "qbo_sync_run_state workflow_snapshot" +
  started_at :: "string field"
  succeeded_at :: "string field"
  failed_at :: "string field"
  retried_at :: "string field"
  error :: "string field"
  snapshot :: "js field"
  triggered_by :: "string field"

text \<open>The objects these values are at the JSON boundary.\<close>

definition qbo_sync_run_snapshot_js :: "qbo_sync_run_snapshot \<Rightarrow> js" where
  "qbo_sync_run_snapshot_js snap = JObj [
     (''state'', JStr (qbo_sync_run_state_name (state snap))),
     (''state_version'', JNum (state_version snap)),
     (''started_at'', field_js JStr (started_at snap)),
     (''succeeded_at'', field_js JStr (succeeded_at snap)),
     (''failed_at'', field_js JStr (failed_at snap)),
     (''retried_at'', field_js JStr (retried_at snap)),
     (''error'', field_js JStr (error snap)),
     (''snapshot'', field_js (\<lambda>v. v) (snapshot snap)),
     (''triggered_by'', field_js JStr (triggered_by snap))]"

fun qbo_sync_run_event_js :: "qbo_sync_run_event \<Rightarrow> js" where
  "qbo_sync_run_event_js (START_SYNC ev_started_at ev_triggered_by) = JObj [
       (''type'', JStr ''START_SYNC''),
       (''started_at'', JStr ev_started_at),
       (''triggered_by'', field_js JStr ev_triggered_by)]"
| "qbo_sync_run_event_js (SYNC_SUCCEEDED ev_succeeded_at ev_snapshot) = JObj [
       (''type'', JStr ''SYNC_SUCCEEDED''),
       (''succeeded_at'', JStr ev_succeeded_at),
       (''snapshot'', field_js (\<lambda>v. v) ev_snapshot)]"
| "qbo_sync_run_event_js (SYNC_FAILED ev_failed_at ev_error) = JObj [
       (''type'', JStr ''SYNC_FAILED''),
       (''failed_at'', JStr ev_failed_at),
       (''error'', JStr ev_error)]"
| "qbo_sync_run_event_js (RETRY ev_retried_at ev_triggered_by) = JObj [
       (''type'', JStr ''RETRY''),
       (''retried_at'', JStr ev_retried_at),
       (''triggered_by'', field_js JStr ev_triggered_by)]"

section \<open>The reducer\<close>

definition assertQboSyncRunTransition ::
  "qbo_sync_run_state \<Rightarrow> qbo_sync_run_state list \<Rightarrow> string \<Rightarrow> unit result" where
  "assertQboSyncRunTransition st allowed eventType = assert_in allowed st
     (''qbo_sync_run: illegal transition from '' @ qbo_sync_run_state_name st @ '' on '' @ eventType)"

fun transitionQboSyncRunWorkflow ::
  "qbo_sync_run_snapshot \<Rightarrow> qbo_sync_run_event \<Rightarrow> qbo_sync_run_snapshot result" where
  "transitionQboSyncRunWorkflow snap (START_SYNC ev_started_at ev_triggered_by) =
     then_return (assertQboSyncRunTransition (state snap) [Pending, Retrying] ''START_SYNC'')
      (snap\<lparr>state := Syncing,
        state_version := state_version snap + 1,
        started_at := Val ev_started_at,
        triggered_by := coalesce ev_triggered_by (coalesce (triggered_by snap) Null),
        error := Null\<rparr>)"
| "transitionQboSyncRunWorkflow snap (SYNC_SUCCEEDED ev_succeeded_at ev_snapshot) =
     then_return (assertQboSyncRunTransition (state snap) [Syncing] ''SYNC_SUCCEEDED'')
      (snap\<lparr>state := Succeeded,
        state_version := state_version snap + 1,
        succeeded_at := Val ev_succeeded_at,
        snapshot := coalesce ev_snapshot (coalesce (snapshot snap) Null),
        error := Null\<rparr>)"
| "transitionQboSyncRunWorkflow snap (SYNC_FAILED ev_failed_at ev_error) =
     then_return (assertQboSyncRunTransition (state snap) [Syncing] ''SYNC_FAILED'')
      (snap\<lparr>state := Failed,
        state_version := state_version snap + 1,
        failed_at := Val ev_failed_at,
        error := Val ev_error\<rparr>)"
| "transitionQboSyncRunWorkflow snap (RETRY ev_retried_at ev_triggered_by) =
     then_return (assertQboSyncRunTransition (state snap) [Failed] ''RETRY'')
      (snap\<lparr>state := Retrying,
        state_version := state_version snap + 1,
        retried_at := Val ev_retried_at,
        triggered_by := coalesce ev_triggered_by (coalesce (triggered_by snap) Null)\<rparr>)"

section \<open>Offered events and the descriptor\<close>

fun nextQboSyncRunEvents :: "qbo_sync_run_state \<Rightarrow> next_event list" where
  "nextQboSyncRunEvents Pending = [
       offer ''START_SYNC'' ''Start sync'']"
| "nextQboSyncRunEvents Syncing = []"
| "nextQboSyncRunEvents Succeeded = []"
| "nextQboSyncRunEvents Failed = [
       offer ''RETRY'' ''Retry sync'']"
| "nextQboSyncRunEvents Retrying = [
       offer ''START_SYNC'' ''Start sync'']"

definition isHumanQboSyncRunEvent :: "string \<Rightarrow> bool" where
  "isHumanQboSyncRunEvent eventType \<longleftrightarrow>
     eventType = ''START_SYNC'' \<or>
     eventType = ''RETRY''"

definition qboSyncRunWorkflow ::
  "(qbo_sync_run_state, qbo_sync_run_event, qbo_sync_run_snapshot) workflow_definition" where
  "qboSyncRunWorkflow = \<lparr>
     wf_name = ''qbo_sync_run'',
     schemaVersion = 1,
     initialState = Pending,
     terminalStates = qbo_sync_run_terminal_states,
     allStates = qbo_sync_run_all_states,
     allEventTypes = qbo_sync_run_event_types,
     reduce = transitionQboSyncRunWorkflow,
     nextEvents = nextQboSyncRunEvents,
     isHumanEvent = isHumanQboSyncRunEvent,
     sideEffectTypes = [''run_qbo_sync'']\<rparr>"

section \<open>Refinement of the transition table\<close>

definition qbo_sync_run_edges :: "qbo_sync_run_state edge list" where
  "qbo_sync_run_edges = [
     (Pending, ''START_SYNC'', Syncing),
     (Retrying, ''START_SYNC'', Syncing),
     (Syncing, ''SYNC_SUCCEEDED'', Succeeded),
     (Syncing, ''SYNC_FAILED'', Failed),
     (Failed, ''RETRY'', Retrying)]"

lemmas qbo_sync_run_defs = qboSyncRunWorkflow_def assertQboSyncRunTransition_def
  qbo_sync_run_all_states_def qbo_sync_run_terminal_states_def qbo_sync_run_event_types_def
  isHumanQboSyncRunEvent_def qbo_sync_run_edges_def

interpretation qbo_sync_run_wf: table_workflow qboSyncRunWorkflow qbo_sync_run_event_type qbo_sync_run_edges
proof
  show "state_version s' = state_version s + 1 \<and>
      (state s, qbo_sync_run_event_type e, state s') \<in> set qbo_sync_run_edges"
    if "reduce qboSyncRunWorkflow s e = Inr s'" for s e s'
    using that by (cases e) (auto simp: qbo_sync_run_defs)
  show "is_ok (reduce qboSyncRunWorkflow s e)"
    if "(state s, qbo_sync_run_event_type e, b) \<in> set qbo_sync_run_edges" for s e b
    using that by (cases e) (auto simp: qbo_sync_run_defs)
  show "st \<in> set (allStates qboSyncRunWorkflow)" for st
    by (cases st) (simp_all add: qbo_sync_run_defs)
  show "qbo_sync_run_event_type e \<in> set (allEventTypes qboSyncRunWorkflow)" for e
    by (cases e) (simp_all add: qbo_sync_run_defs)
  show "\<exists>e. qbo_sync_run_event_type e = t" if "t \<in> set (allEventTypes qboSyncRunWorkflow)" for t
    using that by (auto simp: qbo_sync_run_defs intro: qbo_sync_run_event_type.simps)
qed (auto simp: qbo_sync_run_defs table_ok_def has_edge_def)

interpretation qbo_sync_run_live: live_workflow qboSyncRunWorkflow qbo_sync_run_event_type
  by (rule qbo_sync_run_wf.live_if_table_live) (simp add: table_live_def qbo_sync_run_defs)

section \<open>Attempts and errors\<close>

fun_cases qbo_sync_run_step: "transitionQboSyncRunWorkflow s e = Inr s'"

definition qbo_count :: "string \<Rightarrow> qbo_sync_run_event list \<Rightarrow> nat" where
  "qbo_count t es = length (filter (\<lambda>e. qbo_sync_run_event_type e = t) es)"

lemma qbo_count_simps [simp]:
  "qbo_count t [] = 0"
  "qbo_count t (e # es) = (if qbo_sync_run_event_type e = t then 1 else 0) + qbo_count t es"
  by (simp_all add: qbo_count_def)

text \<open>
  The outbox commands owed: one \<open>START_SYNC\<close> is accepted per attempt, and every attempt but the
  first follows a \<open>RETRY\<close>.  The offset counts the attempt that the state still allows.
\<close>

fun attempts_left :: "qbo_sync_run_state \<Rightarrow> nat" where
  "attempts_left Pending = 1"
| "attempts_left Retrying = 1"
| "attempts_left _ = 0"

lemma qbo_attempts:
  "run_events transitionQboSyncRunWorkflow s es = Inr t \<Longrightarrow>
   qbo_count ''START_SYNC'' es + attempts_left (state t) =
     qbo_count ''RETRY'' es + attempts_left (state s)"
proof (induction es arbitrary: s)
  case Nil
  then show ?case by simp
next
  case (Cons e es)
  then obtain s' where step: "transitionQboSyncRunWorkflow s e = Inr s'"
    and run: "run_events transitionQboSyncRunWorkflow s' es = Inr t"
    by (auto split: sum.splits)
  with Cons.IH [OF run] show ?case
    by (cases e) (auto simp: qbo_sync_run_defs)
qed

definition qbo_sync_run_inv :: "qbo_sync_run_snapshot \<Rightarrow> bool" where
  "qbo_sync_run_inv s \<longleftrightarrow>
     (state s = Failed \<longrightarrow> present (error s) \<and> present (failed_at s)) \<and>
     (present (error s) \<longrightarrow> state s \<in> {Failed, Retrying}) \<and>
     (present (succeeded_at s) \<longleftrightarrow> state s = Succeeded) \<and>
     (state s \<in> {Syncing, Succeeded, Failed, Retrying} \<longrightarrow> present (started_at s))"

lemma qbo_sync_run_inv_step:
  "qbo_sync_run_inv s \<Longrightarrow> transitionQboSyncRunWorkflow s e = Inr s' \<Longrightarrow> qbo_sync_run_inv s'"
  by (cases e) (auto simp: qbo_sync_run_inv_def qbo_sync_run_defs)

text \<open>
  A sync run starts exactly once more than it was retried as soon as it left
  \<open>pending\<close> and \<open>retrying\<close>, and its error column is about the latest attempt: it is set
  whenever the run is \<open>failed\<close>, never while it is syncing or has succeeded, and
  \<open>succeeded_at\<close> is set exactly on success.
\<close>

lemma qbo_sync_attempts:
  assumes "state s0 = Pending" and "\<not> present (error s0)" and "\<not> present (succeeded_at s0)"
    and "run_events transitionQboSyncRunWorkflow s0 es = Inr s"
  shows "qbo_sync_run_inv s \<and>
    qbo_count ''START_SYNC'' es =
      qbo_count ''RETRY'' es + (if state s \<in> {Pending, Retrying} then 0 else 1)"
proof
  show "qbo_sync_run_inv s"
    using assms(4)
  proof (rule run_events_invariant)
    show "qbo_sync_run_inv s0"
      using assms by (simp add: qbo_sync_run_inv_def)
  qed (rule qbo_sync_run_inv_step)
  show "qbo_count ''START_SYNC'' es =
      qbo_count ''RETRY'' es + (if state s \<in> {Pending, Retrying} then 0 else 1)"
    using qbo_attempts [OF assms(4)] assms(1) by (cases "state s") auto
qed

end
