(* ===== verification/Scaffold_Ops_Approval.thy ===== *)
theory Scaffold_Ops_Approval
  imports Workflow_Core
begin

text \<open>
  The scaffold operations approval workflow (\<open>packages/workflows/src/scaffold-ops-approval.ts\<close>): its states, events and snapshot,
  the reducer, the offered events and the descriptor, and its refinement of the transition table
  that makes it an instance of the workflow contract.  Its own lemmas are about the
  approval trail of a superseded bill of materials.
\<close>

section \<open>States, events, snapshot\<close>

datatype scaffold_ops_approval_state = Draft | Approved | Superseded

fun scaffold_ops_approval_state_name :: "scaffold_ops_approval_state \<Rightarrow> string" where
  "scaffold_ops_approval_state_name Draft = ''draft''"
| "scaffold_ops_approval_state_name Approved = ''approved''"
| "scaffold_ops_approval_state_name Superseded = ''superseded''"

definition scaffold_ops_approval_all_states :: "scaffold_ops_approval_state list" where
  "scaffold_ops_approval_all_states = [Draft, Approved, Superseded]"

definition scaffold_ops_approval_terminal_states :: "scaffold_ops_approval_state list" where
  "scaffold_ops_approval_terminal_states = [Superseded]"

definition scaffold_ops_approval_event_types :: "string list" where
  "scaffold_ops_approval_event_types = [
     ''APPROVE'',
     ''SUPERSEDE'']"

text \<open>
  Constructor arguments, in order:
  \<^item> \<open>APPROVE\<close>: \<open>approved_at\<close>, \<open>approved_by\<close>
  \<^item> \<open>SUPERSEDE\<close>: \<open>superseded_at\<close>, \<open>superseded_by\<close>, \<open>superseded_by_bom_id\<close> (optional)
\<close>

datatype scaffold_ops_approval_event =
    APPROVE string string
  | SUPERSEDE string string "string field"

fun scaffold_ops_approval_event_type :: "scaffold_ops_approval_event \<Rightarrow> string" where
  "scaffold_ops_approval_event_type (APPROVE _ _) = ''APPROVE''"
| "scaffold_ops_approval_event_type (SUPERSEDE _ _ _) = ''SUPERSEDE''"

record scaffold_ops_approval_snapshot = "scaffold_ops_approval_state workflow_snapshot" +
  approved_at :: "string field"
  approved_by :: "string field"
  superseded_at :: "string field"
  superseded_by :: "string field"
  superseded_by_bom_id :: "string field"

text \<open>The objects these values are at the JSON boundary.\<close>

definition scaffold_ops_approval_snapshot_js :: "scaffold_ops_approval_snapshot \<Rightarrow> js" where
  "scaffold_ops_approval_snapshot_js snap = JObj [
     (''state'', JStr (scaffold_ops_approval_state_name (state snap))),
     (''state_version'', JNum (state_version snap)),
     (''approved_at'', field_js JStr (approved_at snap)),
     (''approved_by'', field_js JStr (approved_by snap)),
     (''superseded_at'', field_js JStr (superseded_at snap)),
     (''superseded_by'', field_js JStr (superseded_by snap)),
     (''superseded_by_bom_id'', field_js JStr (superseded_by_bom_id snap))]"

fun scaffold_ops_approval_event_js :: "scaffold_ops_approval_event \<Rightarrow> js" where
  "scaffold_ops_approval_event_js (APPROVE ev_approved_at ev_approved_by) = JObj [
       (''type'', JStr ''APPROVE''),
       (''approved_at'', JStr ev_approved_at),
       (''approved_by'', JStr ev_approved_by)]"
| "scaffold_ops_approval_event_js (SUPERSEDE ev_superseded_at ev_superseded_by ev_superseded_by_bom_id) = JObj [
       (''type'', JStr ''SUPERSEDE''),
       (''superseded_at'', JStr ev_superseded_at),
       (''superseded_by'', JStr ev_superseded_by),
       (''superseded_by_bom_id'', field_js JStr ev_superseded_by_bom_id)]"

section \<open>The reducer\<close>

definition assertScaffoldOpsApprovalTransition ::
  "scaffold_ops_approval_state \<Rightarrow> scaffold_ops_approval_state list \<Rightarrow> string \<Rightarrow> unit result" where
  "assertScaffoldOpsApprovalTransition st allowed eventType = assert_in allowed st
     (''scaffold_ops_approval: illegal transition from '' @ scaffold_ops_approval_state_name st @ '' on '' @ eventType)"

fun transitionScaffoldOpsApprovalWorkflow ::
  "scaffold_ops_approval_snapshot \<Rightarrow> scaffold_ops_approval_event \<Rightarrow> scaffold_ops_approval_snapshot result" where
  "transitionScaffoldOpsApprovalWorkflow snap (APPROVE ev_approved_at ev_approved_by) =
     then_return (assertScaffoldOpsApprovalTransition (state snap) [Draft] ''APPROVE'')
      (snap\<lparr>state := Approved,
        state_version := state_version snap + 1,
        approved_at := Val ev_approved_at,
        approved_by := Val ev_approved_by\<rparr>)"
| "transitionScaffoldOpsApprovalWorkflow snap (SUPERSEDE ev_superseded_at ev_superseded_by ev_superseded_by_bom_id) =
     then_return (assertScaffoldOpsApprovalTransition (state snap) [Draft, Approved] ''SUPERSEDE'')
      (snap\<lparr>state := Superseded,
        state_version := state_version snap + 1,
        superseded_at := Val ev_superseded_at,
        superseded_by := Val ev_superseded_by,
        superseded_by_bom_id := coalesce ev_superseded_by_bom_id Null\<rparr>)"

section \<open>Offered events and the descriptor\<close>

fun nextScaffoldOpsApprovalEvents :: "scaffold_ops_approval_state \<Rightarrow> next_event list" where
  "nextScaffoldOpsApprovalEvents Draft = [
       offer ''APPROVE'' ''Approve BOM'',
       offer ''SUPERSEDE'' ''Supersede BOM'']"
| "nextScaffoldOpsApprovalEvents Approved = [
       offer ''SUPERSEDE'' ''Supersede BOM'']"
| "nextScaffoldOpsApprovalEvents Superseded = []"

definition isHumanScaffoldOpsApprovalEvent :: "string \<Rightarrow> bool" where
  "isHumanScaffoldOpsApprovalEvent eventType \<longleftrightarrow>
     eventType = ''APPROVE'' \<or>
     eventType = ''SUPERSEDE''"

definition scaffoldOpsApprovalWorkflow ::
  "(scaffold_ops_approval_state, scaffold_ops_approval_event, scaffold_ops_approval_snapshot) workflow_definition" where
  "scaffoldOpsApprovalWorkflow = \<lparr>
     wf_name = ''scaffold_ops_approval'',
     schemaVersion = 1,
     initialState = Draft,
     terminalStates = scaffold_ops_approval_terminal_states,
     allStates = scaffold_ops_approval_all_states,
     allEventTypes = scaffold_ops_approval_event_types,
     reduce = transitionScaffoldOpsApprovalWorkflow,
     nextEvents = nextScaffoldOpsApprovalEvents,
     isHumanEvent = isHumanScaffoldOpsApprovalEvent,
     sideEffectTypes = []\<rparr>"

section \<open>Refinement of the transition table\<close>

definition scaffold_ops_approval_edges :: "scaffold_ops_approval_state edge list" where
  "scaffold_ops_approval_edges = [
     (Draft, ''APPROVE'', Approved),
     (Draft, ''SUPERSEDE'', Superseded),
     (Approved, ''SUPERSEDE'', Superseded)]"

lemmas scaffold_ops_approval_defs = scaffoldOpsApprovalWorkflow_def assertScaffoldOpsApprovalTransition_def
  scaffold_ops_approval_all_states_def scaffold_ops_approval_terminal_states_def scaffold_ops_approval_event_types_def
  isHumanScaffoldOpsApprovalEvent_def scaffold_ops_approval_edges_def

interpretation scaffold_ops_approval_wf: table_workflow scaffoldOpsApprovalWorkflow scaffold_ops_approval_event_type scaffold_ops_approval_edges
proof
  show "state_version s' = state_version s + 1 \<and>
      (state s, scaffold_ops_approval_event_type e, state s') \<in> set scaffold_ops_approval_edges"
    if "reduce scaffoldOpsApprovalWorkflow s e = Inr s'" for s e s'
    using that by (cases e) (auto simp: scaffold_ops_approval_defs)
  show "is_ok (reduce scaffoldOpsApprovalWorkflow s e)"
    if "(state s, scaffold_ops_approval_event_type e, b) \<in> set scaffold_ops_approval_edges" for s e b
    using that by (cases e) (auto simp: scaffold_ops_approval_defs)
  show "st \<in> set (allStates scaffoldOpsApprovalWorkflow)" for st
    by (cases st) (simp_all add: scaffold_ops_approval_defs)
  show "scaffold_ops_approval_event_type e \<in> set (allEventTypes scaffoldOpsApprovalWorkflow)" for e
    by (cases e) (simp_all add: scaffold_ops_approval_defs)
  show "\<exists>e. scaffold_ops_approval_event_type e = t" if "t \<in> set (allEventTypes scaffoldOpsApprovalWorkflow)" for t
    using that by (auto simp: scaffold_ops_approval_defs intro: scaffold_ops_approval_event_type.simps)
qed (auto simp: scaffold_ops_approval_defs table_ok_def has_edge_def)

interpretation scaffold_ops_approval_live: live_workflow scaffoldOpsApprovalWorkflow scaffold_ops_approval_event_type
  by (rule scaffold_ops_approval_wf.live_if_table_live) (simp add: table_live_def scaffold_ops_approval_defs)

section \<open>Supersession\<close>

fun_cases scaffold_ops_approval_step: "transitionScaffoldOpsApprovalWorkflow s e = Inr s'"

definition scaffold_ops_approval_inv :: "scaffold_ops_approval_snapshot \<Rightarrow> bool" where
  "scaffold_ops_approval_inv s \<longleftrightarrow>
     (present (superseded_at s) \<longleftrightarrow> state s = Superseded) \<and>
     (present (superseded_by_bom_id s) \<longrightarrow> state s = Superseded) \<and>
     (state s = Draft \<longrightarrow> \<not> present (approved_at s)) \<and>
     (state s = Approved \<longrightarrow> present (approved_at s) \<and> present (approved_by s))"

lemma scaffold_ops_approval_inv_step:
  "scaffold_ops_approval_inv s \<Longrightarrow> transitionScaffoldOpsApprovalWorkflow s e = Inr s' \<Longrightarrow>
   scaffold_ops_approval_inv s'"
  by (cases e) (auto simp: scaffold_ops_approval_inv_def scaffold_ops_approval_defs)

text \<open>
  Superseding a bill of materials is final and records its successor,
  and it keeps the approval trail: the approval stamps of the superseded row are those it had
  before, set if and only if the row had been approved.
\<close>

lemma scaffold_superseded_keeps_approval:
  assumes "scaffold_ops_approval_inv s"
    and "transitionScaffoldOpsApprovalWorkflow s (SUPERSEDE at who succ_id) = Inr t"
  shows "scaffold_ops_approval_inv t \<and> state t = Superseded \<and>
    superseded_by_bom_id t = coalesce succ_id Null \<and> approved_at t = approved_at s \<and>
    approved_by t = approved_by s \<and> (present (approved_at t) \<longleftrightarrow> state s = Approved) \<and>
    (\<forall>e. \<not> is_ok (transitionScaffoldOpsApprovalWorkflow t e))"
proof -
  have t: "state t = Superseded" "superseded_by_bom_id t = coalesce succ_id Null"
    "approved_at t = approved_at s" "approved_by t = approved_by s"
    "state s \<in> {Draft, Approved}"
    using assms(2) by (auto simp: scaffold_ops_approval_defs)
  moreover have "\<not> is_ok (transitionScaffoldOpsApprovalWorkflow t e)" for e
    using scaffold_ops_approval_wf.terminal_final [of t e] t(1)
    by (simp add: scaffold_ops_approval_defs wf_simps)
  ultimately show ?thesis
    using assms(1) scaffold_ops_approval_inv_step [OF assms]
    by (auto simp: scaffold_ops_approval_inv_def)
qed

end
