(* ===== verification/Daily_Log.thy ===== *)
theory Daily_Log
  imports Workflow_Core
begin

text \<open>
  The daily log workflow (\<open>packages/workflows/src/daily-log.ts\<close>): its states, events and snapshot,
  the reducer, the offered events and the descriptor, and its refinement of the transition table
  that makes it an instance of the workflow contract.  Also the reader \<open>dailyLogStatusToWorkflowState\<close> of the stored
  status.
\<close>

section \<open>States, events, snapshot\<close>

datatype daily_log_state = Draft | Submitted

fun daily_log_state_name :: "daily_log_state \<Rightarrow> string" where
  "daily_log_state_name Draft = ''draft''"
| "daily_log_state_name Submitted = ''submitted''"

definition daily_log_all_states :: "daily_log_state list" where
  "daily_log_all_states = [Draft, Submitted]"

definition daily_log_terminal_states :: "daily_log_state list" where
  "daily_log_terminal_states = [Submitted]"

definition daily_log_event_types :: "string list" where
  "daily_log_event_types = [
     ''SUBMIT'']"

text \<open>
  Constructor arguments, in order:
  \<^item> \<open>SUBMIT\<close>: \<open>submitted_at\<close>, \<open>submitted_by\<close>
\<close>

datatype daily_log_event =
    SUBMIT string string

fun daily_log_event_type :: "daily_log_event \<Rightarrow> string" where
  "daily_log_event_type (SUBMIT _ _) = ''SUBMIT''"

record daily_log_snapshot = "daily_log_state workflow_snapshot" +
  submitted_at :: "string field"
  submitted_by :: "string field"

text \<open>The objects these values are at the JSON boundary.\<close>

definition daily_log_snapshot_js :: "daily_log_snapshot \<Rightarrow> js" where
  "daily_log_snapshot_js snap = JObj [
     (''state'', JStr (daily_log_state_name (state snap))),
     (''state_version'', JNum (state_version snap)),
     (''submitted_at'', field_js JStr (submitted_at snap)),
     (''submitted_by'', field_js JStr (submitted_by snap))]"

fun daily_log_event_js :: "daily_log_event \<Rightarrow> js" where
  "daily_log_event_js (SUBMIT ev_submitted_at ev_submitted_by) = JObj [
       (''type'', JStr ''SUBMIT''),
       (''submitted_at'', JStr ev_submitted_at),
       (''submitted_by'', JStr ev_submitted_by)]"

section \<open>The reducer\<close>

definition assertDailyLogTransition ::
  "daily_log_state \<Rightarrow> daily_log_state list \<Rightarrow> string \<Rightarrow> unit result" where
  "assertDailyLogTransition st allowed eventType = assert_in allowed st
     (''event '' @ eventType @ '' is not allowed from daily log state '' @ daily_log_state_name st)"

fun transitionDailyLogWorkflow ::
  "daily_log_snapshot \<Rightarrow> daily_log_event \<Rightarrow> daily_log_snapshot result" where
  "transitionDailyLogWorkflow snap (SUBMIT ev_submitted_at ev_submitted_by) =
     then_return (assertDailyLogTransition (state snap) [Draft] ''SUBMIT'')
      (snap\<lparr>state := Submitted,
        state_version := state_version snap + 1,
        submitted_at := Val ev_submitted_at,
        submitted_by := Val ev_submitted_by\<rparr>)"

section \<open>Offered events and the descriptor\<close>

fun nextDailyLogEvents :: "daily_log_state \<Rightarrow> next_event list" where
  "nextDailyLogEvents Draft = [
       offer ''SUBMIT'' ''Submit daily log'']"
| "nextDailyLogEvents Submitted = []"

definition isHumanDailyLogEvent :: "string \<Rightarrow> bool" where
  "isHumanDailyLogEvent eventType \<longleftrightarrow>
     eventType = ''SUBMIT''"

definition dailyLogWorkflow ::
  "(daily_log_state, daily_log_event, daily_log_snapshot) workflow_definition" where
  "dailyLogWorkflow = \<lparr>
     wf_name = ''daily_log'',
     schemaVersion = 1,
     initialState = Draft,
     terminalStates = daily_log_terminal_states,
     allStates = daily_log_all_states,
     allEventTypes = daily_log_event_types,
     reduce = transitionDailyLogWorkflow,
     nextEvents = nextDailyLogEvents,
     isHumanEvent = isHumanDailyLogEvent,
     sideEffectTypes = []\<rparr>"

section \<open>Refinement of the transition table\<close>

definition daily_log_edges :: "daily_log_state edge list" where
  "daily_log_edges = [
     (Draft, ''SUBMIT'', Submitted)]"

lemmas daily_log_defs = dailyLogWorkflow_def assertDailyLogTransition_def
  daily_log_all_states_def daily_log_terminal_states_def daily_log_event_types_def
  isHumanDailyLogEvent_def daily_log_edges_def

interpretation daily_log_wf: table_workflow dailyLogWorkflow daily_log_event_type daily_log_edges
proof
  show "state_version s' = state_version s + 1 \<and>
      (state s, daily_log_event_type e, state s') \<in> set daily_log_edges"
    if "reduce dailyLogWorkflow s e = Inr s'" for s e s'
    using that by (cases e) (auto simp: daily_log_defs)
  show "is_ok (reduce dailyLogWorkflow s e)"
    if "(state s, daily_log_event_type e, b) \<in> set daily_log_edges" for s e b
    using that by (cases e) (auto simp: daily_log_defs)
  show "st \<in> set (allStates dailyLogWorkflow)" for st
    by (cases st) (simp_all add: daily_log_defs)
  show "daily_log_event_type e \<in> set (allEventTypes dailyLogWorkflow)" for e
    by (cases e) (simp_all add: daily_log_defs)
  show "\<exists>e. daily_log_event_type e = t" if "t \<in> set (allEventTypes dailyLogWorkflow)" for t
    using that by (auto simp: daily_log_defs intro: daily_log_event_type.simps)
qed (auto simp: daily_log_defs table_ok_def has_edge_def)

interpretation daily_log_live: live_workflow dailyLogWorkflow daily_log_event_type
  by (rule daily_log_wf.live_if_table_live) (simp add: table_live_def daily_log_defs)

section \<open>Submission\<close>

text \<open>\<open>dailyLogStatusToWorkflowState\<close>: any stored status but \<open>submitted\<close> reads as \<open>draft\<close>.\<close>

definition dailyLogStatusToWorkflowState :: "string \<Rightarrow> daily_log_state" where
  "dailyLogStatusToWorkflowState status = (if status = ''submitted'' then Submitted else Draft)"

text \<open>
  A daily log is submitted at most once: a legal run from a stored row is
  empty or a single \<open>SUBMIT\<close> of a row whose status was not \<open>submitted\<close>, and then the stored
  status reads back as the reducer's state and the stamps are the submitter's.
\<close>

lemma daily_log_submitted_once:
  assumes "run_events transitionDailyLogWorkflow s es = Inr t"
    and "state s = dailyLogStatusToWorkflowState status"
  shows "(es = [] \<and> t = s) \<or>
    (\<exists>at who. es = [SUBMIT at who] \<and> status \<noteq> ''submitted'' \<and> submitted_at t = Val at \<and>
      submitted_by t = Val who \<and>
      dailyLogStatusToWorkflowState (daily_log_state_name (state t)) = state t)"
proof (cases es)
  case Nil
  with assms(1) show ?thesis by simp
next
  case (Cons e fs)
  with assms(1) obtain u where step: "transitionDailyLogWorkflow s e = Inr u"
    and run: "run_events transitionDailyLogWorkflow u fs = Inr t"
    by (auto split: sum.splits)
  obtain at who where e: "e = SUBMIT at who" by (cases e)
  with step have u: "state u = Submitted" "submitted_at u = Val at" "submitted_by u = Val who"
    and s: "state s = Draft"
    by (auto simp: daily_log_defs)
  from daily_log_wf.terminal_run [of u fs t] run u(1) have "fs = [] \<and> t = u"
    by (simp add: daily_log_defs wf_simps)
  moreover have "status \<noteq> ''submitted''"
    using s assms(2) by (auto simp: dailyLogStatusToWorkflowState_def)
  ultimately show ?thesis
    using Cons e u by (simp add: dailyLogStatusToWorkflowState_def)
qed

end
