(* ===== verification/Notification.thy ===== *)
theory Notification
  imports Workflow_Core
begin

text \<open>
  The notification workflow (\<open>packages/workflows/src/notification.ts\<close>): its states, events and snapshot,
  the reducer, the offered events and the descriptor, and its refinement of the transition table
  that makes it an instance of the workflow contract.  One event type, \<open>SEND_FAILED\<close>, has three targets, by
  the failure kind of its payload, so its table is not deterministic.  Also the collapse
  \<open>notificationStateToLegacyStatus\<close> to the stored status.
\<close>

section \<open>States, events, snapshot\<close>

datatype notification_state = Pending | Hydrating | Sending | Sent | Failed_clerk_not_found | Failed_clerk_unreachable | Failed_provider | Voided

fun notification_state_name :: "notification_state \<Rightarrow> string" where
  "notification_state_name Pending = ''pending''"
| "notification_state_name Hydrating = ''hydrating''"
| "notification_state_name Sending = ''sending''"
| "notification_state_name Sent = ''sent''"
| "notification_state_name Failed_clerk_not_found = ''failed_clerk_not_found''"
| "notification_state_name Failed_clerk_unreachable = ''failed_clerk_unreachable''"
| "notification_state_name Failed_provider = ''failed_provider''"
| "notification_state_name Voided = ''voided''"

definition notification_all_states :: "notification_state list" where
  "notification_all_states = [Pending, Hydrating, Sending, Sent, Failed_clerk_not_found, Failed_clerk_unreachable, Failed_provider, Voided]"

definition notification_terminal_states :: "notification_state list" where
  "notification_terminal_states = [Sent, Failed_clerk_not_found, Voided]"

definition notification_event_types :: "string list" where
  "notification_event_types = [
     ''HYDRATE'',
     ''SEND_REQUESTED'',
     ''SEND_SUCCEEDED'',
     ''SEND_FAILED'',
     ''RETRY'',
     ''VOID'']"

datatype notification_failure_kind = Clerk_not_found | Clerk_unreachable | Provider

fun notification_failure_kind_name :: "notification_failure_kind \<Rightarrow> string" where
  "notification_failure_kind_name Clerk_not_found = ''clerk_not_found''"
| "notification_failure_kind_name Clerk_unreachable = ''clerk_unreachable''"
| "notification_failure_kind_name Provider = ''provider''"

datatype notification_channel = Push | Sms | Email | Console | Broadcast

fun notification_channel_name :: "notification_channel \<Rightarrow> string" where
  "notification_channel_name Push = ''push''"
| "notification_channel_name Sms = ''sms''"
| "notification_channel_name Email = ''email''"
| "notification_channel_name Console = ''console''"
| "notification_channel_name Broadcast = ''broadcast''"

text \<open>
  Constructor arguments, in order:
  \<^item> \<open>HYDRATE\<close>: \<open>hydrated_at\<close>, \<open>recipient_email\<close>
  \<^item> \<open>SEND_REQUESTED\<close>: \<open>requested_at\<close>
  \<^item> \<open>SEND_SUCCEEDED\<close>: \<open>sent_at\<close>, \<open>channel\<close>
  \<^item> \<open>SEND_FAILED\<close>: \<open>failed_at\<close>, \<open>error\<close>, \<open>kind\<close>
  \<^item> \<open>RETRY\<close>: \<open>retried_at\<close>
  \<^item> \<open>VOID\<close>: \<open>voided_at\<close>, \<open>reason\<close> (optional)
\<close>

datatype notification_event =
    HYDRATE string string
  | SEND_REQUESTED string
  | SEND_SUCCEEDED string notification_channel
  | SEND_FAILED string string notification_failure_kind
  | RETRY string
  | VOID string "string field"

fun notification_event_type :: "notification_event \<Rightarrow> string" where
  "notification_event_type (HYDRATE _ _) = ''HYDRATE''"
| "notification_event_type (SEND_REQUESTED _) = ''SEND_REQUESTED''"
| "notification_event_type (SEND_SUCCEEDED _ _) = ''SEND_SUCCEEDED''"
| "notification_event_type (SEND_FAILED _ _ _) = ''SEND_FAILED''"
| "notification_event_type (RETRY _) = ''RETRY''"
| "notification_event_type (VOID _ _) = ''VOID''"

record notification_snapshot = "notification_state workflow_snapshot" +
  recipient_email :: "string field"
  hydrated_at :: "string field"
  requested_at :: "string field"
  sent_at :: "string field"
  failed_at :: "string field"
  retried_at :: "string field"
  voided_at :: "string field"
  channel :: "notification_channel field"
  error :: "string field"
  failure_kind :: "notification_failure_kind field"

text \<open>The objects these values are at the JSON boundary.\<close>

definition notification_snapshot_js :: "notification_snapshot \<Rightarrow> js" where
  "notification_snapshot_js snap = JObj [
     (''state'', JStr (notification_state_name (state snap))),
     (''state_version'', JNum (state_version snap)),
     (''recipient_email'', field_js JStr (recipient_email snap)),
     (''hydrated_at'', field_js JStr (hydrated_at snap)),
     (''requested_at'', field_js JStr (requested_at snap)),
     (''sent_at'', field_js JStr (sent_at snap)),
     (''failed_at'', field_js JStr (failed_at snap)),
     (''retried_at'', field_js JStr (retried_at snap)),
     (''voided_at'', field_js JStr (voided_at snap)),
     (''channel'', field_js (JStr \<circ> notification_channel_name) (channel snap)),
     (''error'', field_js JStr (error snap)),
     (''failure_kind'', field_js (JStr \<circ> notification_failure_kind_name) (failure_kind snap))]"

fun notification_event_js :: "notification_event \<Rightarrow> js" where
  "notification_event_js (HYDRATE ev_hydrated_at ev_recipient_email) = JObj [
       (''type'', JStr ''HYDRATE''),
       (''hydrated_at'', JStr ev_hydrated_at),
       (''recipient_email'', JStr ev_recipient_email)]"
| "notification_event_js (SEND_REQUESTED ev_requested_at) = JObj [
       (''type'', JStr ''SEND_REQUESTED''),
       (''requested_at'', JStr ev_requested_at)]"
| "notification_event_js (SEND_SUCCEEDED ev_sent_at ev_channel) = JObj [
       (''type'', JStr ''SEND_SUCCEEDED''),
       (''sent_at'', JStr ev_sent_at),
       (''channel'', (JStr \<circ> notification_channel_name) ev_channel)]"
| "notification_event_js (SEND_FAILED ev_failed_at ev_error ev_kind) = JObj [
       (''type'', JStr ''SEND_FAILED''),
       (''failed_at'', JStr ev_failed_at),
       (''error'', JStr ev_error),
       (''kind'', (JStr \<circ> notification_failure_kind_name) ev_kind)]"
| "notification_event_js (RETRY ev_retried_at) = JObj [
       (''type'', JStr ''RETRY''),
       (''retried_at'', JStr ev_retried_at)]"
| "notification_event_js (VOID ev_voided_at ev_reason) = JObj [
       (''type'', JStr ''VOID''),
       (''voided_at'', JStr ev_voided_at),
       (''reason'', field_js JStr ev_reason)]"

section \<open>The reducer\<close>

definition assertNotificationTransition ::
  "notification_state \<Rightarrow> notification_state list \<Rightarrow> string \<Rightarrow> unit result" where
  "assertNotificationTransition st allowed eventType = assert_in allowed st
     (''event '' @ eventType @ '' is not allowed from notification state '' @ notification_state_name st)"

fun transitionNotificationWorkflow ::
  "notification_snapshot \<Rightarrow> notification_event \<Rightarrow> notification_snapshot result" where
  "transitionNotificationWorkflow snap (HYDRATE ev_hydrated_at ev_recipient_email) =
     then_return (assertNotificationTransition (state snap) [Pending] ''HYDRATE'')
      (snap\<lparr>state := Hydrating,
        state_version := state_version snap + 1,
        hydrated_at := Val ev_hydrated_at,
        recipient_email := Val ev_recipient_email,
        error := Null,
        failure_kind := Null\<rparr>)"
| "transitionNotificationWorkflow snap (SEND_REQUESTED ev_requested_at) =
     then_return (assertNotificationTransition (state snap) [Pending, Hydrating, Failed_provider, Failed_clerk_unreachable] ''SEND_REQUESTED'')
      (snap\<lparr>state := Sending,
        state_version := state_version snap + 1,
        requested_at := Val ev_requested_at,
        error := Null,
        failure_kind := Null\<rparr>)"
| "transitionNotificationWorkflow snap (SEND_SUCCEEDED ev_sent_at ev_channel) =
     then_return (assertNotificationTransition (state snap) [Sending] ''SEND_SUCCEEDED'')
      (snap\<lparr>state := Sent,
        state_version := state_version snap + 1,
        sent_at := Val ev_sent_at,
        channel := Val ev_channel,
        error := Null,
        failure_kind := Null\<rparr>)"
| "transitionNotificationWorkflow snap (SEND_FAILED ev_failed_at ev_error ev_kind) =
     then_return (assertNotificationTransition (state snap) [Pending, Sending, Hydrating] ''SEND_FAILED'')
      (snap\<lparr>state := (if ev_kind = Clerk_not_found then Failed_clerk_not_found
          else if ev_kind = Clerk_unreachable then Failed_clerk_unreachable
          else Failed_provider),
        state_version := state_version snap + 1,
        failed_at := Val ev_failed_at,
        error := Val ev_error,
        failure_kind := Val ev_kind\<rparr>)"
| "transitionNotificationWorkflow snap (RETRY ev_retried_at) =
     then_return (assertNotificationTransition (state snap) [Failed_provider, Failed_clerk_unreachable] ''RETRY'')
      (snap\<lparr>state := Pending,
        state_version := state_version snap + 1,
        retried_at := Val ev_retried_at,
        error := Null,
        failure_kind := Null\<rparr>)"
| "transitionNotificationWorkflow snap (VOID ev_voided_at ev_reason) =
     then_return (assertNotificationTransition (state snap) [Pending, Hydrating, Failed_provider, Failed_clerk_unreachable] ''VOID'')
      (snap\<lparr>state := Voided,
        state_version := state_version snap + 1,
        voided_at := Val ev_voided_at,
        error := coalesce ev_reason Null,
        failure_kind := Null\<rparr>)"

section \<open>Offered events and the descriptor\<close>

fun nextNotificationEvents :: "notification_state \<Rightarrow> next_event list" where
  "nextNotificationEvents Pending = [
       offer ''VOID'' ''Cancel notification'']"
| "nextNotificationEvents Hydrating = [
       offer ''VOID'' ''Cancel notification'']"
| "nextNotificationEvents Sending = []"
| "nextNotificationEvents Sent = []"
| "nextNotificationEvents Failed_clerk_not_found = []"
| "nextNotificationEvents Failed_clerk_unreachable = [
       offer ''RETRY'' ''Retry delivery'',
       offer ''VOID'' ''Cancel notification'']"
| "nextNotificationEvents Failed_provider = [
       offer ''RETRY'' ''Retry delivery'',
       offer ''VOID'' ''Cancel notification'']"
| "nextNotificationEvents Voided = []"

definition isHumanNotificationEvent :: "string \<Rightarrow> bool" where
  "isHumanNotificationEvent eventType \<longleftrightarrow>
     eventType = ''RETRY'' \<or>
     eventType = ''VOID''"

definition notificationWorkflow ::
  "(notification_state, notification_event, notification_snapshot) workflow_definition" where
  "notificationWorkflow = \<lparr>
     wf_name = ''notification'',
     schemaVersion = 1,
     initialState = Pending,
     terminalStates = notification_terminal_states,
     allStates = notification_all_states,
     allEventTypes = notification_event_types,
     reduce = transitionNotificationWorkflow,
     nextEvents = nextNotificationEvents,
     isHumanEvent = isHumanNotificationEvent,
     sideEffectTypes = []\<rparr>"

section \<open>Refinement of the transition table\<close>

definition notification_edges :: "notification_state edge list" where
  "notification_edges = [
     (Pending, ''HYDRATE'', Hydrating),
     (Pending, ''SEND_REQUESTED'', Sending),
     (Hydrating, ''SEND_REQUESTED'', Sending),
     (Failed_provider, ''SEND_REQUESTED'', Sending),
     (Failed_clerk_unreachable, ''SEND_REQUESTED'', Sending),
     (Sending, ''SEND_SUCCEEDED'', Sent),
     (Pending, ''SEND_FAILED'', Failed_clerk_not_found),
     (Pending, ''SEND_FAILED'', Failed_clerk_unreachable),
     (Pending, ''SEND_FAILED'', Failed_provider),
     (Sending, ''SEND_FAILED'', Failed_clerk_not_found),
     (Sending, ''SEND_FAILED'', Failed_clerk_unreachable),
     (Sending, ''SEND_FAILED'', Failed_provider),
     (Hydrating, ''SEND_FAILED'', Failed_clerk_not_found),
     (Hydrating, ''SEND_FAILED'', Failed_clerk_unreachable),
     (Hydrating, ''SEND_FAILED'', Failed_provider),
     (Failed_provider, ''RETRY'', Pending),
     (Failed_clerk_unreachable, ''RETRY'', Pending),
     (Pending, ''VOID'', Voided),
     (Hydrating, ''VOID'', Voided),
     (Failed_provider, ''VOID'', Voided),
     (Failed_clerk_unreachable, ''VOID'', Voided)]"

lemmas notification_defs = notificationWorkflow_def assertNotificationTransition_def
  notification_all_states_def notification_terminal_states_def notification_event_types_def
  isHumanNotificationEvent_def notification_edges_def

interpretation notification_wf: table_workflow notificationWorkflow notification_event_type notification_edges
proof
  show "state_version s' = state_version s + 1 \<and>
      (state s, notification_event_type e, state s') \<in> set notification_edges"
    if "reduce notificationWorkflow s e = Inr s'" for s e s'
    using that by (cases e) (auto simp: notification_defs)
  show "is_ok (reduce notificationWorkflow s e)"
    if "(state s, notification_event_type e, b) \<in> set notification_edges" for s e b
    using that by (cases e) (auto simp: notification_defs)
  show "st \<in> set (allStates notificationWorkflow)" for st
    by (cases st) (simp_all add: notification_defs)
  show "notification_event_type e \<in> set (allEventTypes notificationWorkflow)" for e
    by (cases e) (simp_all add: notification_defs)
  show "\<exists>e. notification_event_type e = t" if "t \<in> set (allEventTypes notificationWorkflow)" for t
    using that by (auto simp: notification_defs intro: notification_event_type.simps)
qed (auto simp: notification_defs table_ok_def has_edge_def)

interpretation notification_live: live_workflow notificationWorkflow notification_event_type
  by (rule notification_wf.live_if_table_live) (simp add: table_live_def notification_defs)

section \<open>Failure kinds and the legacy status\<close>

fun_cases notification_step: "transitionNotificationWorkflow s e = Inr s'"

fun notificationStateToLegacyStatus :: "notification_state \<Rightarrow> string" where
  "notificationStateToLegacyStatus Pending = ''pending''"
| "notificationStateToLegacyStatus Hydrating = ''pending''"
| "notificationStateToLegacyStatus Sending = ''sending''"
| "notificationStateToLegacyStatus Sent = ''sent''"
| "notificationStateToLegacyStatus Failed_clerk_not_found = ''failed''"
| "notificationStateToLegacyStatus Failed_clerk_unreachable = ''failed''"
| "notificationStateToLegacyStatus Failed_provider = ''failed''"
| "notificationStateToLegacyStatus Voided = ''voided''"

text \<open>The state a failure kind stands for.\<close>

fun failed_state :: "notification_failure_kind \<Rightarrow> notification_state" where
  "failed_state Clerk_not_found = Failed_clerk_not_found"
| "failed_state Clerk_unreachable = Failed_clerk_unreachable"
| "failed_state Provider = Failed_provider"

definition notification_inv :: "notification_snapshot \<Rightarrow> bool" where
  "notification_inv s \<longleftrightarrow>
     (case failure_kind s of
        Val k \<Rightarrow> state s = failed_state k \<and> present (failed_at s) \<and> present (error s)
      | _ \<Rightarrow> state s \<notin> range failed_state) \<and>
     (present (error s) \<longrightarrow> state s \<in> range failed_state \<or> state s = Voided) \<and>
     (present (channel s) \<longleftrightarrow> state s = Sent) \<and>
     (state s = Hydrating \<longrightarrow> present (recipient_email s))"

lemma range_failed_state:
  "range failed_state = {Failed_clerk_not_found, Failed_clerk_unreachable, Failed_provider}"
proof
  have "failed_state k \<in> {Failed_clerk_not_found, Failed_clerk_unreachable, Failed_provider}" for k
    by (cases k) simp_all
  then show "range failed_state \<subseteq>
      {Failed_clerk_not_found, Failed_clerk_unreachable, Failed_provider}"
    by blast
  show "{Failed_clerk_not_found, Failed_clerk_unreachable, Failed_provider} \<subseteq> range failed_state"
    by (auto intro: range_eqI [of _ _ Clerk_not_found] range_eqI [of _ _ Clerk_unreachable]
        range_eqI [of _ _ Provider])
qed

lemma notification_failed_state:
  "transitionNotificationWorkflow s (SEND_FAILED at err k) = Inr s' \<Longrightarrow>
   state s' = failed_state k \<and> failure_kind s' = Val k \<and> error s' = Val err \<and>
   failed_at s' = Val at \<and> state s \<in> {Pending, Sending, Hydrating} \<and> channel s' = channel s"
  by (cases k) (auto simp: notification_defs)

lemma notification_inv_step:
  assumes "notification_inv s" and "transitionNotificationWorkflow s e = Inr s'"
  shows "notification_inv s'"
proof (cases e)
  case (SEND_FAILED at err k)
  with notification_failed_state [of s at err k s'] assms show ?thesis
    by (cases k) (auto simp: notification_inv_def range_failed_state)
qed (use assms in \<open>auto simp: notification_inv_def range_failed_state notification_defs\<close>)

text \<open>
  In every snapshot reachable from a fresh notification the failure
  kind column names exactly the failed state the row is in (and is empty in every other state),
  so the collapsed \<open>notifications.status\<close> value \<open>failed\<close> loses nothing the column does not
  keep: status and failure kind together determine whether and how the row failed.
\<close>

lemma notification_failure_kind_matches:
  assumes "state s0 = Pending" and "\<not> present (failure_kind s0)" and "\<not> present (error s0)"
    and "\<not> present (channel s0)" and "reachable transitionNotificationWorkflow s0 s"
  shows "notification_inv s \<and>
    (notificationStateToLegacyStatus (state s) = ''failed'' \<longleftrightarrow>
      (\<exists>k. failure_kind s = Val k \<and> state s = failed_state k))"
proof -
  have inv: "notification_inv s"
    using assms(5)
  proof (rule reachable_invariant)
    show "notification_inv s0"
      using assms(1-4) by (auto simp: notification_inv_def range_failed_state split: field.splits)
  qed (rule notification_inv_step)
  have "notificationStateToLegacyStatus st = ''failed'' \<longleftrightarrow> st \<in> range failed_state" for st
    by (cases st) (simp_all add: range_failed_state)
  with inv show ?thesis
    by (cases "failure_kind s") (auto simp: notification_inv_def)
qed

definition notification_example :: notification_snapshot where
  "notification_example = \<lparr>state = Pending, state_version = 1, recipient_email = Null,
     hydrated_at = Null, requested_at = Null, sent_at = Null, failed_at = Null, retried_at = Null,
     voided_at = Null, channel = Null, error = Null, failure_kind = Null\<rparr>"

text \<open>
  A notification being dispatched cannot be voided from under the
  runner, nor can a delivered one be sent again; and voiding stores the operator's reason in
  the \<open>error\<close> column while it clears the failure kind.
\<close>

lemma notification_in_flight_not_voidable:
  "(is_ok (transitionNotificationWorkflow s (VOID at why)) \<longleftrightarrow>
      state s \<notin> {Sending, Sent, Failed_clerk_not_found, Voided}) \<and>
   (state s = Sent \<longrightarrow> \<not> is_ok (transitionNotificationWorkflow s e)) \<and>
   (transitionNotificationWorkflow s (VOID at why) = Inr t \<longrightarrow>
      state t = Voided \<and> error t = coalesce why Null \<and> failure_kind t = Null)"
proof (intro conjI)
  show "is_ok (transitionNotificationWorkflow s (VOID at why)) \<longleftrightarrow>
      state s \<notin> {Sending, Sent, Failed_clerk_not_found, Voided}"
    by (cases "state s") (simp_all add: notification_defs)
  show "state s = Sent \<longrightarrow> \<not> is_ok (transitionNotificationWorkflow s e)"
    using notification_wf.terminal_final [of s e] by (simp add: notification_defs)
  show "transitionNotificationWorkflow s (VOID at why) = Inr t \<longrightarrow>
      state t = Voided \<and> error t = coalesce why Null \<and> failure_kind t = Null"
    by (auto simp: notification_defs)
qed

end
