(* ===== verification/Change_Order.thy ===== *)
theory Change_Order
  imports Workflow_Core
begin

text \<open>
  The change order workflow (\<open>packages/workflows/src/change-order.ts\<close>): its states, events and snapshot,
  the reducer, the offered events and the descriptor, and its refinement of the transition table
  that makes it an instance of the workflow contract.  Its own lemmas bound its life and relate its stamps to
  its outcome.
\<close>

section \<open>States, events, snapshot\<close>

datatype change_order_state = Draft | Sent | Accepted | Rejected | Voided

fun change_order_state_name :: "change_order_state \<Rightarrow> string" where
  "change_order_state_name Draft = ''draft''"
| "change_order_state_name Sent = ''sent''"
| "change_order_state_name Accepted = ''accepted''"
| "change_order_state_name Rejected = ''rejected''"
| "change_order_state_name Voided = ''voided''"

definition change_order_all_states :: "change_order_state list" where
  "change_order_all_states = [Draft, Sent, Accepted, Rejected, Voided]"

definition change_order_terminal_states :: "change_order_state list" where
  "change_order_terminal_states = [Accepted, Rejected, Voided]"

definition change_order_event_types :: "string list" where
  "change_order_event_types = [
     ''SEND'',
     ''ACCEPT'',
     ''REJECT'',
     ''VOID'']"

text \<open>
  Constructor arguments, in order:
  \<^item> \<open>SEND\<close>: \<open>occurred_at\<close>, \<open>actor_user_id\<close> (optional)
  \<^item> \<open>ACCEPT\<close>: \<open>occurred_at\<close>, \<open>actor_user_id\<close> (optional)
  \<^item> \<open>REJECT\<close>: \<open>occurred_at\<close>, \<open>actor_user_id\<close> (optional), \<open>reason\<close> (optional)
  \<^item> \<open>VOID\<close>: \<open>occurred_at\<close>, \<open>actor_user_id\<close> (optional)
\<close>

datatype change_order_event =
    SEND string "string field"
  | ACCEPT string "string field"
  | REJECT string "string field" "string field"
  | VOID string "string field"

fun change_order_event_type :: "change_order_event \<Rightarrow> string" where
  "change_order_event_type (SEND _ _) = ''SEND''"
| "change_order_event_type (ACCEPT _ _) = ''ACCEPT''"
| "change_order_event_type (REJECT _ _ _) = ''REJECT''"
| "change_order_event_type (VOID _ _) = ''VOID''"

record change_order_snapshot = "change_order_state workflow_snapshot" +
  sent_at :: "string field"
  accepted_at :: "string field"
  rejected_at :: "string field"
  voided_at :: "string field"
  reject_reason :: "string field"
  approved_by :: "string field"

text \<open>The objects these values are at the JSON boundary.\<close>

definition change_order_snapshot_js :: "change_order_snapshot \<Rightarrow> js" where
  "change_order_snapshot_js snap = JObj [
     (''state'', JStr (change_order_state_name (state snap))),
     (''state_version'', JNum (state_version snap)),
     (''sent_at'', field_js JStr (sent_at snap)),
     (''accepted_at'', field_js JStr (accepted_at snap)),
     (''rejected_at'', field_js JStr (rejected_at snap)),
     (''voided_at'', field_js JStr (voided_at snap)),
     (''reject_reason'', field_js JStr (reject_reason snap)),
     (''approved_by'', field_js JStr (approved_by snap))]"

fun change_order_event_js :: "change_order_event \<Rightarrow> js" where
  "change_order_event_js (SEND ev_occurred_at ev_actor_user_id) = JObj [
       (''type'', JStr ''SEND''),
       (''occurred_at'', JStr ev_occurred_at),
       (''actor_user_id'', field_js JStr ev_actor_user_id)]"
| "change_order_event_js (ACCEPT ev_occurred_at ev_actor_user_id) = JObj [
       (''type'', JStr ''ACCEPT''),
       (''occurred_at'', JStr ev_occurred_at),
       (''actor_user_id'', field_js JStr ev_actor_user_id)]"
| "change_order_event_js (REJECT ev_occurred_at ev_actor_user_id ev_reason) = JObj [
       (''type'', JStr ''REJECT''),
       (''occurred_at'', JStr ev_occurred_at),
       (''actor_user_id'', field_js JStr ev_actor_user_id),
       (''reason'', field_js JStr ev_reason)]"
| "change_order_event_js (VOID ev_occurred_at ev_actor_user_id) = JObj [
       (''type'', JStr ''VOID''),
       (''occurred_at'', JStr ev_occurred_at),
       (''actor_user_id'', field_js JStr ev_actor_user_id)]"

section \<open>The reducer\<close>

definition assertChangeOrderTransition ::
  "change_order_state \<Rightarrow> change_order_state list \<Rightarrow> string \<Rightarrow> unit result" where
  "assertChangeOrderTransition st allowed eventType = assert_in allowed st
     (''change_order: illegal transition from '' @ change_order_state_name st @ '' on '' @ eventType)"

fun transitionChangeOrderWorkflow ::
  "change_order_snapshot \<Rightarrow> change_order_event \<Rightarrow> change_order_snapshot result" where
  "transitionChangeOrderWorkflow snap (SEND ev_occurred_at _) =
     then_return (assertChangeOrderTransition (state snap) [Draft] ''SEND'')
      (snap\<lparr>state := Sent,
        state_version := state_version snap + 1,
        sent_at := Val ev_occurred_at\<rparr>)"
| "transitionChangeOrderWorkflow snap (ACCEPT ev_occurred_at ev_actor_user_id) =
     then_return (assertChangeOrderTransition (state snap) [Sent] ''ACCEPT'')
      (snap\<lparr>state := Accepted,
        state_version := state_version snap + 1,
        accepted_at := Val ev_occurred_at,
        approved_by := coalesce ev_actor_user_id (coalesce (approved_by snap) Null)\<rparr>)"
| "transitionChangeOrderWorkflow snap (REJECT ev_occurred_at _ ev_reason) =
     then_return (assertChangeOrderTransition (state snap) [Sent] ''REJECT'')
      (snap\<lparr>state := Rejected,
        state_version := state_version snap + 1,
        rejected_at := Val ev_occurred_at,
        reject_reason := coalesce ev_reason (coalesce (reject_reason snap) Null)\<rparr>)"
| "transitionChangeOrderWorkflow snap (VOID ev_occurred_at _) =
     then_return (assertChangeOrderTransition (state snap) [Draft, Sent] ''VOID'')
      (snap\<lparr>state := Voided,
        state_version := state_version snap + 1,
        voided_at := Val ev_occurred_at\<rparr>)"

section \<open>Offered events and the descriptor\<close>

fun nextChangeOrderEvents :: "change_order_state \<Rightarrow> next_event list" where
  "nextChangeOrderEvents Draft = [
       offer ''SEND'' ''Send to client'',
       offer ''VOID'' ''Void'']"
| "nextChangeOrderEvents Sent = [
       offer ''ACCEPT'' ''Mark accepted'',
       offer ''REJECT'' ''Mark rejected'',
       offer ''VOID'' ''Void'']"
| "nextChangeOrderEvents Accepted = []"
| "nextChangeOrderEvents Rejected = []"
| "nextChangeOrderEvents Voided = []"

definition isHumanChangeOrderEvent :: "string \<Rightarrow> bool" where
  "isHumanChangeOrderEvent eventType \<longleftrightarrow>
     eventType = ''SEND'' \<or>
     eventType = ''ACCEPT'' \<or>
     eventType = ''REJECT'' \<or>
     eventType = ''VOID''"

definition changeOrderWorkflow ::
  "(change_order_state, change_order_event, change_order_snapshot) workflow_definition" where
  "changeOrderWorkflow = \<lparr>
     wf_name = ''change_order'',
     schemaVersion = 1,
     initialState = Draft,
     terminalStates = change_order_terminal_states,
     allStates = change_order_all_states,
     allEventTypes = change_order_event_types,
     reduce = transitionChangeOrderWorkflow,
     nextEvents = nextChangeOrderEvents,
     isHumanEvent = isHumanChangeOrderEvent,
     sideEffectTypes = []\<rparr>"

section \<open>Refinement of the transition table\<close>

definition change_order_edges :: "change_order_state edge list" where
  "change_order_edges = [
     (Draft, ''SEND'', Sent),
     (Sent, ''ACCEPT'', Accepted),
     (Sent, ''REJECT'', Rejected),
     (Draft, ''VOID'', Voided),
     (Sent, ''VOID'', Voided)]"

lemmas change_order_defs = changeOrderWorkflow_def assertChangeOrderTransition_def
  change_order_all_states_def change_order_terminal_states_def change_order_event_types_def
  isHumanChangeOrderEvent_def change_order_edges_def

interpretation change_order_wf: table_workflow changeOrderWorkflow change_order_event_type change_order_edges
proof
  show "state_version s' = state_version s + 1 \<and>
      (state s, change_order_event_type e, state s') \<in> set change_order_edges"
    if "reduce changeOrderWorkflow s e = Inr s'" for s e s'
    using that by (cases e) (auto simp: change_order_defs)
  show "is_ok (reduce changeOrderWorkflow s e)"
    if "(state s, change_order_event_type e, b) \<in> set change_order_edges" for s e b
    using that by (cases e) (auto simp: change_order_defs)
  show "st \<in> set (allStates changeOrderWorkflow)" for st
    by (cases st) (simp_all add: change_order_defs)
  show "change_order_event_type e \<in> set (allEventTypes changeOrderWorkflow)" for e
    by (cases e) (simp_all add: change_order_defs)
  show "\<exists>e. change_order_event_type e = t" if "t \<in> set (allEventTypes changeOrderWorkflow)" for t
    using that by (auto simp: change_order_defs intro: change_order_event_type.simps)
qed (auto simp: change_order_defs table_ok_def has_edge_def)

interpretation change_order_live: live_workflow changeOrderWorkflow change_order_event_type
  by (rule change_order_wf.live_if_table_live) (simp add: table_live_def change_order_defs)

section \<open>A change order is decided once\<close>

fun_cases change_order_step: "transitionChangeOrderWorkflow s e = Inr s'"

fun change_order_rank :: "change_order_state \<Rightarrow> nat" where
  "change_order_rank Draft = 2"
| "change_order_rank Sent = 1"
| "change_order_rank _ = 0"

lemma change_order_ranked: "table_ranked change_order_rank change_order_edges"
  by (simp add: table_ranked_def change_order_edges_def)

definition change_order_fresh :: "change_order_snapshot \<Rightarrow> bool" where
  "change_order_fresh s \<longleftrightarrow> state s = Draft \<and> \<not> present (sent_at s) \<and> \<not> present (accepted_at s) \<and>
     \<not> present (rejected_at s) \<and> \<not> present (voided_at s)"

definition change_order_inv :: "change_order_snapshot \<Rightarrow> bool" where
  "change_order_inv s \<longleftrightarrow>
     (present (accepted_at s) \<longleftrightarrow> state s = Accepted) \<and>
     (present (rejected_at s) \<longleftrightarrow> state s = Rejected) \<and>
     (present (voided_at s) \<longleftrightarrow> state s = Voided) \<and>
     (state s \<in> {Sent, Accepted, Rejected} \<longrightarrow> present (sent_at s)) \<and>
     (present (sent_at s) \<longrightarrow> state s \<noteq> Draft)"

lemma change_order_inv_step:
  "change_order_inv s \<Longrightarrow> transitionChangeOrderWorkflow s e = Inr s' \<Longrightarrow> change_order_inv s'"
  by (cases e) (auto simp: change_order_inv_def change_order_defs)

text \<open>
  A change order goes through at most two transitions in its life, and in
  every snapshot a run from a fresh draft reaches exactly the stamp of its outcome is set: a
  value rolled into the contract because \<open>accepted_at\<close> is set belongs to a signed, never
  voided or rejected, change order that was sent first.
\<close>

lemma change_order_decided_once:
  assumes "change_order_fresh s0" and "run_events transitionChangeOrderWorkflow s0 es = Inr s"
  shows "length es \<le> 2 \<and> change_order_inv s"
proof
  show "length es \<le> 2"
    using change_order_wf.run_length_ranked [OF change_order_ranked, of s0 es s] assms
    by (simp add: change_order_fresh_def changeOrderWorkflow_def)
  show "change_order_inv s"
    using assms(2)
  proof (rule run_events_invariant)
    show "change_order_inv s0"
      using assms by (simp add: change_order_fresh_def change_order_inv_def)
  qed (rule change_order_inv_step)
qed

definition change_order_example :: change_order_snapshot where
  "change_order_example = \<lparr>state = Draft, state_version = 1, sent_at = Null, accepted_at = Null,
     rejected_at = Null, voided_at = Null, reject_reason = Null, approved_by = Null\<rparr>"

end
