(* ===== verification/Spec2Isabelle.thy ===== *)
theory Spec2Isabelle
  imports Replay Billing_Circuit Event_Ref Escrow_Tick Formula_Results Payroll_Refines_Billing Rental_Cadence Job_Rental Request_Gate
    Crew_Schedule Project_Closeout Rental Estimate_Push Estimate_Share Time_Review Project_Lifecycle Field_Event Shipment Damage_Charge_Settlement Asset_Deployment Rental_Request_Approval Tenant_Provision Qbo_Sync_Run Scaffold_Ops_Approval Daily_Log Notification Change_Order
begin
text \<open>
Verification of the SiteLayer workflow core: the deterministic workflows of
  \<open>packages/workflows\<close>, the replay harness that checks their event logs, the dispatch primitive
  the API applies human events with, and, as the exemplar of the whole pipeline, rental
  billing from the HTTP event to the QuickBooks push worker.

  \<^bold>\<open>The program.\<close>  An entity (a billing run, a rental, a shipment, ...) is a row with a state and a
  version.  Every change of state is an event that a pure reducer applies to the row's
  snapshot; the API accepts human events (\<open>workflow-dispatch.ts\<close>), the queue worker emits the
  outcomes of external calls, and both append one row per transition to \<open>workflow_event_log\<close>,
  keyed by entity, workflow and the version before the transition.  The user interface shows
  only the events the reducer's \<open>next_events\<close> offers.  Replay tooling feeds the log back through
  the registered reducer and compares every snapshot.

  \<^bold>\<open>Theories, from the ground up.\<close>

  \<^item> \<open>Prelude\<close>: thrown errors as values (\<open>result\<close>), optional fields with the difference of
    \<open>undefined\<close> and \<open>null\<close> (\<open>field\<close>, \<open>coalesce\<close> for \<open>??\<close>), JSON values, decimal numbers.
  \<^item> \<open>Workflow_Core\<close> (\<open>index.ts\<close>, the types of \<open>registry.ts\<close>): snapshots, descriptors, runs of a
    reducer, reachable snapshots.  The interfaces are locales: \<open>versioned_workflow\<close> (each event
    bumps the version by one), \<open>workflow\<close> (states, event types, terminal states and offers agree
    with the reducer), \<open>live_workflow\<close>, and \<open>table_workflow\<close>, the refinement of a transition
    table, from which \<open>workflow\<close> follows by a sublocale and on which questions about states are
    decided by computation.
  \<^item> One theory per workflow, in the order of \<open>index.ts\<close>: \<open>Rental_Billing\<close>, \<open>Crew_Schedule\<close>,
    \<open>Project_Closeout\<close>, \<open>Rental\<close>, \<open>Estimate_Push\<close>, \<open>Estimate_Share\<close>, \<open>Time_Review\<close>,
    \<open>Project_Lifecycle\<close>, \<open>Field_Event\<close>, \<open>Labor_Payroll\<close>, \<open>Shipment\<close>, \<open>Damage_Charge_Settlement\<close>,
    \<open>Asset_Deployment\<close>, \<open>Rental_Request_Approval\<close>, \<open>Tenant_Provision\<close>, \<open>Qbo_Sync_Run\<close>,
    \<open>Scaffold_Ops_Approval\<close>, \<open>Daily_Log\<close>, \<open>Notification\<close>, \<open>Change_Order\<close>.  Each has the state
    datatype with the wire names, the event datatype (the payload fields are listed beside it),
    the snapshot record, the reducer with one equation per event, \<open>next...Events\<close>,
    \<open>isHuman...Event\<close>, the descriptor, and the interpretation of the contract; then the
    properties of that workflow's own columns and history.
  \<^item> \<open>Payroll_Refines_Billing\<close>: a simulation between \<open>labor-payroll.ts\<close> and \<open>rental-billing.ts\<close>.
  \<^item> \<open>Registry\<close> (\<open>registry.ts\<close>): registration and lookup by name and version, and their laws as
    the locale \<open>versioned_registry\<close>.
  \<^item> \<open>Js_Equality\<close> (\<open>snapshotsEqual\<close> of \<open>replay.ts\<close>): decided by what values denote.
  \<^item> \<open>Replay\<close> (\<open>applyEventLog\<close> of \<open>replay.ts\<close>, \<open>applyEventSequence\<close> of \<open>test-replay.ts\<close>): the
    harness, the writer of fixtures, and the table between them.
  \<^item> \<open>Event_Log_Insert\<close> (\<open>event-log-insert.ts\<close>, \<open>recordWorkflowEvent\<close>, \<open>appendWorkflowEvent\<close>): the
    insert statement and its two callers.
  \<^item> \<open>Dispatch\<close> (\<open>apps/api/src/workflow-dispatch.ts\<close>, \<open>withMutationTx\<close>): the primitive and its
    transaction.  The locale \<open>workflow_store\<close> states what a route's load and persist callbacks
    owe; optimistic concurrency and a log that replays follow from it.
  \<^item> \<open>Billing_Route\<close> (\<open>rental-billing-state.ts\<close>, the ledger of \<open>mutation-tx.ts\<close>) interprets
    \<open>workflow_store\<close>; \<open>Billing_Worker\<close> (\<open>pushers/rental-billing-invoice.ts\<close>) is the other writer;
    \<open>Billing_Pipeline\<close> puts both together under any interleaving of transactions.
  \<^item> \<open>Circuit_Breaker\<close> (\<open>packages/queue/src/circuit-breaker.ts\<close>): the breaker that guards calls to
    QuickBooks, refined to a two-mode machine per key; \<open>Billing_Circuit\<close>
    (\<open>runners/rental-billing-push.ts\<close>): what an open breaker does to a billing push.
  \<^item> \<open>Sha256\<close> and \<open>Event_Ref\<close> (\<open>workflow-event-ref.ts\<close>): the anchor string that names a transition
    on both sides of the wire, its digest on 32-bit words, its parser.
  \<^item> \<open>Canonical_Json\<close>, \<open>Audit_Escrow\<close> (\<open>packages/queue/src/audit-escrow.ts\<close>): the hash contract, and the
    chains of signed entries with their verification; \<open>Escrow_Tick\<close> (\<open>runners/audit-escrow-tick.ts\<close>):
    the worker that signs audit events into them, a window of time at a time, and ticks that overlap.
  \<^item> \<open>Js_Number\<close>: JavaScript numbers, doubles as exact rationals with their rounding, the operators, the
    exact functions of \<open>Math\<close>, \<open>Number(text)\<close> and \<open>String(number)\<close>.
  \<^item> \<open>Formula_Tokens\<close>, \<open>Formula_Parser\<close>, \<open>Formula_Eval\<close>, \<open>Formula_Results\<close>
    (\<open>packages/formula-evaluator\<close>): the quantity formulas of assemblies, from the text to the checked value:
    tokenizer, recursive-descent parser, evaluator and validator, and what their callers rely on.
  \<^item> \<open>Js_Date\<close> (\<open>packages/domain/src/index.ts\<close>): calendar days in UTC, parsing, printing, addition.
  \<^item> \<open>Rental_Cadence\<close> (\<open>calculateRentalInvoice\<close>, \<open>queue/src/rentals.ts\<close>, \<open>runners/rental-invoice.ts\<close>, the
    manual trigger of \<open>routes/rentals.ts\<close>): the recurring invoices of a rental with their reads and
    transactions as separate steps.  \<open>Job_Rental\<close> (\<open>calculateJobRentalBillingRun\<close>,
    \<open>routes/rental-contracts.ts\<close>): billing runs of rental contracts line by line.
  \<^item> \<open>Access\<close> (\<open>roles.ts\<close>, \<open>permissions.ts\<close>, \<open>permission-seam.ts\<close>), \<open>Capabilities\<close> (\<open>capabilities.ts\<close>,
    \<open>apps/api/src/capability.ts\<close>): what a role, its grants and a platform grant allow.  \<open>Role_Admin\<close>
    (\<open>routes/company-roles.ts\<close>, the membership lookup of \<open>server.ts\<close>): the edits of roles, links and grants,
    over tables of several companies.  \<open>Ledger_Calls\<close>: which ledger and audit calls such routes make.
  \<^item> \<open>Http_Request\<close>: what the gate reads of a request.  \<open>Js_Rounding\<close>: the error of the rounding of doubles.
    \<open>Rate_Limit\<close> (\<open>rate-limit.ts\<close>): the token buckets and their bound.  \<open>Authentication\<close> (\<open>auth.ts\<close>): from the
    environment and the token to the identity.  \<open>Idempotency\<close> (\<open>idempotency.ts\<close>): the cache of responses.
    \<open>Request_Gate\<close> (\<open>server.ts\<close>, \<open>auto-onboard.ts\<close>) composes them with the company lookup and the authority of
    \<open>Role_Admin\<close>, for requests that overlap; the routes are its argument.
  \<^item> This theory: the properties of the replay tooling and those that range over all workflows.

  \<^bold>\<open>Conventions.\<close>  A throw is \<open>Inl\<close>; \<open>Error\<close> carries the message, \<open>HttpError\<close> also the status.
  A database is a record of tables and a transaction a function on it that is undone by a
  throw; where the code locks the row it goes by, concurrent transactions are sequences of whole
  transactions.  Where it does not, its reads and its writes are separate steps in any order: the assignment of a role
  (\<open>Role_Admin\<close>), the runs of \<open>Job_Rental\<close>, the invoices of \<open>Rental_Cadence\<close>, the anchorings of \<open>Escrow_Tick\<close> and the
  requests of \<open>Request_Gate\<close>.  A property about calls one after the other says so.  Clock readings, the trace context, the
  QuickBooks push, the routes behind the gate and the early routers in front of it, the parsers and the cryptography of the engine (\<open>crypto_lib\<close>, \<open>node:crypto\<close>) and the storage of \<open>jsonb\<close> are arguments; what is
  needed of them is a named predicate (\<open>key_pair\<close>, \<open>jsonb_faithful\<close>) with a concrete instance.  Outside
  the formulas numbers are integers: versions, counters and schema versions stay far below \<open>2^53\<close>.  Formulas
  compute with doubles; the functions of \<open>Math\<close> whose results the language leaves to the engine are an
  argument (\<open>math_lib\<close>), of which only \<open>lib_ok\<close> is used, that results are doubles.
  One definition has fuel, the formula parser \<open>parse\<close>: \<open>parse_fuel\<close>, twenty per token and twenty, is proved never to be used
  up.  Every other loop runs over a list or is proved to terminate (\<open>snapshotsEqual\<close>, \<open>tokenize_from\<close>).

  \<^bold>\<open>Not modelled.\<close>  The request parsers (zod schemas), SQL beyond the statements' effect on the
  tables named, metrics calls, row level security; the role checks of the routes and their audit rows,
  but for those of \<open>Role_Admin\<close>; the public paths of the
  API, what the early routers of its gate do, the web client, the other routes, workers and packages.  Database constraints appear where a property is
  about them (\<open>Time_Review\<close>, the key of the event log).
\<close>
section \<open>Replay\<close>

text \<open>
  C3: What \<open>applyEventSequence\<close> writes, \<open>applyEventLog\<close> accepts: for any reducer
  that bumps the version by one, executing the statements of a successful sequence on a table
  with no row of the entity yields a log that replays from the same initial snapshot to the same
  final snapshot without an issue; the returned steps are the run's snapshots; and executing the
  statements a second time changes nothing.
\<close>

theorem event_sequence_replays:
  assumes latest: "getWorkflow reg (wf_name d) None = Some d"
    and asked: "registry_wf reg" "sq_workflowName args = wf_name d"
      "sq_schemaVersion args \<in> {None, Some (schemaVersion d)}"
    and step: "\<And>s e s'. reduce d s e = Inr s' \<Longrightarrow> state_version s' = state_version s + 1"
    and fresh: "entity_rows (wf_name d) (sq_entityId args) table = []"
    and seq: "applyEventSequence type_of to_js reg args s = (Inr (t, steps), stmts)"
  shows "applyEventLog type_of to_js reg s
      (entity_log (wf_name d) (sq_entityId args) (execute stmts table)) =
      \<lparr>replay_ok = True, finalSnapshot = Some t, issues = []\<rparr> \<and>
    map snapshotAfter steps = run_states (reduce d) s (sq_events args) \<and>
    execute stmts (execute stmts table) = execute stmts table"
proof -
  have versioned: "versioned_workflow d" by unfold_locales (rule step)
  have "getWorkflow reg (sq_workflowName args) (sq_schemaVersion args) = Some d"
    using asked latest getWorkflow_latest_in [OF asked(1) latest]
    by (auto simp del: getWorkflow.simps)
  with seq have loop: "sequence_loop type_of to_js d args s (sq_events args) = (Inr (t, steps), stmts)"
    by (simp add: applyEventSequence_def del: getWorkflow.simps)
  show ?thesis
    using versioned_workflow.records_run_replays
        [OF versioned versioned_workflow.sequence_records_run [OF versioned loop fresh] latest]
      sequence_loop_written(2) [OF loop refl]
    by (simp add: execute_idempotent del: getWorkflow.simps)
qed

theorem event_sequence_replays_witness:
  "\<exists>t steps stmts. applyEventSequence rental_billing_event_type rental_billing_snapshot_js
      (snd (registerWorkflow rentalBillingWorkflow []))
      \<lparr>sq_workflowName = ''rental_billing_run'', sq_schemaVersion = Some 1, sq_entityId = ''run-1'',
       sq_entityType = ''rental_billing_run'', sq_companyId = ''co-1'',
       sq_events = [Rental_Billing.APPROVE ''t1'' ''ann''], sq_actorUserId = Undefined,
       sq_appliedAt = Null\<rparr> rental_billing_example = (Inr (t, steps), stmts) \<and>
    applyEventLog rental_billing_event_type rental_billing_snapshot_js
      (snd (registerWorkflow rentalBillingWorkflow [])) rental_billing_example
      (entity_log ''rental_billing_run'' ''run-1'' (execute stmts [])) =
      \<lparr>replay_ok = True, finalSnapshot = Some t, issues = []\<rparr>"
proof -
  let ?reg = "snd (registerWorkflow rentalBillingWorkflow [])"
  let ?args = "\<lparr>sq_workflowName = ''rental_billing_run'', sq_schemaVersion = Some 1,
    sq_entityId = ''run-1'', sq_entityType = ''rental_billing_run'', sq_companyId = ''co-1'',
    sq_events = [Rental_Billing.APPROVE ''t1'' ''ann''], sq_actorUserId = Undefined,
    sq_appliedAt = Null\<rparr>"
  have name: "wf_name rentalBillingWorkflow = ''rental_billing_run''"
    and ver: "schemaVersion rentalBillingWorkflow = 1"
    by (simp_all add: rentalBillingWorkflow_def)
  have latest: "getWorkflow ?reg (wf_name rentalBillingWorkflow) None = Some rentalBillingWorkflow"
    by (simp add: registerWorkflow_def latest_step_def Let_def)
  obtain t steps stmts where seq: "applyEventSequence rental_billing_event_type
      rental_billing_snapshot_js ?reg ?args rental_billing_example = (Inr (t, steps), stmts)"
    by (simp add: applyEventSequence_def registerWorkflow_def Let_def name ver rental_billing_example_def
        rental_billing_defs wf_simps)
  have "applyEventLog rental_billing_event_type rental_billing_snapshot_js ?reg rental_billing_example
      (entity_log (wf_name rentalBillingWorkflow) (sq_entityId ?args) (execute stmts [])) =
      \<lparr>replay_ok = True, finalSnapshot = Some t, issues = []\<rparr>"
    using event_sequence_replays [OF latest _ _ _ rental_billing_wf.version_step _ seq, where table = "[]"]
    by (simp add: registry_wf_register registry_wf_empty name ver entity_rows_def
        del: getWorkflow.simps)
  with seq show ?thesis by (auto simp: name)
qed

text \<open>
  C4: What the replay harness accepts, exactly: a non-empty log replays iff the reducer
  currently registered under the first entry's name accepts the payloads in order, every entry
  carries that reducer's schema version, the recorded versions are the ones before each event
  (so no gap and no repetition), and each recorded snapshot is equal, up to null and missing, to
  the computed one.  A rejected log is reported by exactly one issue and without a snapshot.
  Nothing is asked of the later entries' \<open>workflow_name\<close> or of any \<open>entity_id\<close>.
\<close>

theorem replay_accepts_iff:
  assumes "entries \<noteq> []" and "getWorkflow reg (workflow_name (hd entries)) None = Some d"
  shows "(replay_ok (applyEventLog type_of to_js reg s entries) \<longleftrightarrow>
      is_ok (run_events (reduce d) s (map event_payload entries)) \<and>
      list_all (\<lambda>entry. schema_version entry = schemaVersion d) entries \<and>
      map entry_state_version entries = versions_before (reduce d) s (map event_payload entries) \<and>
      list_all2 (\<lambda>s' entry. denote (to_js s') = denote (snapshot_after entry))
        (run_states (reduce d) s (map event_payload entries)) entries) \<and>
    (\<not> replay_ok (applyEventLog type_of to_js reg s entries) \<longrightarrow>
      length (issues (applyEventLog type_of to_js reg s entries)) = 1 \<and>
      finalSnapshot (applyEventLog type_of to_js reg s entries) = None)"
  using replay_loop_shape [OF refl, of type_of to_js d s "state_version s" entries]
  by (auto simp: applyEventLog_nonempty [OF assms] replay_loop_accepts Let_def is_ok_iff
      list_all_iff snapshotsEqual_iff_denote)

definition approve_entry :: "string \<Rightarrow> rental_billing_event log_entry" where
  "approve_entry wn = \<lparr>workflow_name = wn, schema_version = 1, entity_id = ''run-1'',
     entry_state_version = 1, event_payload = Rental_Billing.APPROVE ''t1'' ''ann'',
     snapshot_after = JNull\<rparr>"

theorem replay_accepts_iff_witness:
  "\<not> replay_ok (applyEventLog rental_billing_event_type rental_billing_snapshot_js
      (snd (registerWorkflow rentalBillingWorkflow [])) rental_billing_example
      [approve_entry ''rental_billing_run'']) \<and>
   length (issues (applyEventLog rental_billing_event_type rental_billing_snapshot_js
      (snd (registerWorkflow rentalBillingWorkflow [])) rental_billing_example
      [approve_entry ''rental_billing_run''])) = 1"
proof -
  let ?reg = "snd (registerWorkflow rentalBillingWorkflow [])"
  let ?log = "[approve_entry ''rental_billing_run'']"
  have "getWorkflow ?reg (workflow_name (hd ?log)) None = Some rentalBillingWorkflow"
    by (simp add: registerWorkflow_def latest_step_def Let_def rentalBillingWorkflow_def
        approve_entry_def)
  note iff = replay_accepts_iff [OF _ this, of rental_billing_event_type
      rental_billing_snapshot_js rental_billing_example]
  have "\<not> list_all2 (\<lambda>s' entry. denote (rental_billing_snapshot_js s') = denote (snapshot_after entry))
      (run_states (reduce rentalBillingWorkflow) rental_billing_example (map event_payload ?log)) ?log"
    by (simp add: approve_entry_def rental_billing_example_def rental_billing_defs wf_simps
        rental_billing_snapshot_js_def)
  with iff show ?thesis by blast
qed

text \<open>
  C5: \<open>snapshotsEqual\<close> is equality of meaning: it terminates on every
  pair of values and decides whether they denote the same value once \<open>null\<close>, \<open>undefined\<close> and
  missing properties are one, whatever the property order; so it is an equivalence, and two
  objects are equal exactly when they agree on every property.
\<close>

theorem snapshots_equal_up_to_null:
  "(snapshotsEqual a b \<longleftrightarrow> denote a = denote b) \<and> equivp snapshotsEqual \<and>
   (snapshotsEqual (JObj x) (JObj y) \<longleftrightarrow> (\<forall>k. snapshotsEqual (js_get x k) (js_get y k)))"
proof (intro conjI)
  show "snapshotsEqual a b \<longleftrightarrow> denote a = denote b" by (rule snapshotsEqual_iff_denote)
  show "equivp snapshotsEqual"
    by (intro equivpI reflpI sympI transpI) (auto simp: snapshotsEqual_iff_denote)
  show "snapshotsEqual (JObj x) (JObj y) \<longleftrightarrow> (\<forall>k. snapshotsEqual (js_get x k) (js_get y k))"
    by (simp add: snapshotsEqual_iff_denote denote_JObj fun_eq_iff del: denote.simps)
qed

section \<open>Registering a new schema version\<close>

text \<open>
  Registering a higher version of a workflow makes it the current
  reducer of its name, keeps every registered version reachable under its exact
  \<open>(name, version)\<close>, and changes no other name's lookups; registering an existing
  \<open>(name, version)\<close> again changes nothing.
\<close>

lemma registry_serves_latest:
  fixes reg :: "('st, 'ev, 'sn) registry"
  assumes wf: "registry_wf reg"
    and higher: "\<And>v d'. getWorkflow reg (wf_name d) (Some v) = Some d' \<Longrightarrow> v < schemaVersion d"
  defines "upgraded \<equiv> snd (registerWorkflow d reg)"
  shows "getWorkflow upgraded (wf_name d) None = Some d \<and>
    (\<forall>n v d'. getWorkflow reg n (Some v) = Some d' \<longrightarrow> getWorkflow upgraded n (Some v) = Some d') \<and>
    (\<forall>n v. n \<noteq> wf_name d \<longrightarrow> getWorkflow upgraded n v = getWorkflow reg n v) \<and>
    registry_wf upgraded \<and> snd (registerWorkflow d upgraded) = upgraded"
  unfolding upgraded_def
proof (intro conjI allI impI)
  let ?up = "snd (registerWorkflow d reg)"
  show "getWorkflow ?up (wf_name d) None = Some d"
    by (rule workflow_registry.latest_upgrade [OF wf higher])
  show "getWorkflow ?up n (Some v) = Some d'" if "getWorkflow reg n (Some v) = Some d'" for n v d'
    by (rule workflow_registry.get_stable [OF wf that])
  show "getWorkflow ?up n v = getWorkflow reg n v" if "n \<noteq> wf_name d" for n v
    using that workflow_registry.latest_other [OF wf that] getWorkflow_register [OF wf, of d n]
    by (cases v) (auto simp del: getWorkflow.simps)
  show "registry_wf ?up" by (rule registry_wf_register [OF wf])
  have "getWorkflow reg (wf_name d) (Some (schemaVersion d)) = None"
    using higher by (cases "getWorkflow reg (wf_name d) (Some (schemaVersion d))") auto
  then show "snd (registerWorkflow d ?up) = ?up"
    by (intro register_duplicate) (simp add: getWorkflow_register [OF wf] del: getWorkflow.simps)
qed

text \<open>
  The replay harness does not pick the reducer by the entry's
  schema version: once a higher version of the workflow is registered, every log recorded under
  the old one is rejected as a schema mismatch, although the reducer that wrote it is still
  registered under its exact version and the same log replayed before the upgrade.
\<close>

lemma replay_after_upgrade_rejects:
  assumes "registry_wf reg" and "getWorkflow reg (wf_name d2) None = Some d1"
    and "schemaVersion d1 < schemaVersion d2"
    and "workflow_name entry = wf_name d2" and "schema_version entry = schemaVersion d1"
  shows "issues (applyEventLog type_of to_js (snd (registerWorkflow d2 reg)) s (entry # entries)) =
      [entry_issue type_of entry Schema_version_mismatch
        (''entry schema='' @ show_int (schemaVersion d1) @
         '' reducer schema='' @ show_int (schemaVersion d2))] \<and>
    getWorkflow (snd (registerWorkflow d2 reg)) (workflow_name entry)
      (Some (schema_version entry)) = Some d1"
proof -
  have higher: "v < schemaVersion d2" if "getWorkflow reg (wf_name d2) (Some v) = Some d'" for v d'
    using workflow_registry.latest_max [OF assms(1,2) that] assms(3) by simp
  have "getWorkflow (snd (registerWorkflow d2 reg)) (workflow_name entry) None = Some d2"
    unfolding assms(4) by (rule workflow_registry.latest_upgrade [OF assms(1) higher])
  moreover have "getWorkflow (snd (registerWorkflow d2 reg)) (workflow_name entry)
      (Some (schema_version entry)) = Some d1"
    unfolding assms(4,5)
    by (rule workflow_registry.get_stable [OF assms(1) getWorkflow_latest_in [OF assms(1,2)]])
  ultimately show ?thesis
    using assms(3,5) by (simp add: replay_failure_def del: getWorkflow.simps)
qed

section \<open>One-shot decisions\<close>

text \<open>
  An approval workflow decides once: a run has at most one event, and after it nothing is accepted.
\<close>

definition decides_once ::
  "('st, 'ev, ('st, 'x) workflow_snapshot_scheme) workflow_definition \<Rightarrow> bool" where
  "decides_once wd \<longleftrightarrow> (\<forall>s es t. run_events (reduce wd) s es = Inr t \<longrightarrow> es \<noteq> [] \<longrightarrow>
     length es = 1 \<and> state s = initialState wd \<and> state t \<in> set (terminalStates wd) \<and>
     (\<forall>e. \<not> is_ok (reduce wd t e)))"

lemma decides_onceI:
  assumes "workflow wd event_type"
    and step: "\<And>s e t. reduce wd s e = Inr t \<Longrightarrow>
      state s = initialState wd \<and> state t \<in> set (terminalStates wd)"
  shows "decides_once wd"
  unfolding decides_once_def
proof (intro allI impI)
  fix s es t
  assume run: "run_events (reduce wd) s es = Inr t" and "es \<noteq> []"
  then obtain e fs u where es: "es = e # fs" and u: "reduce wd s e = Inr u"
    and rest: "run_events (reduce wd) u fs = Inr t"
    by (cases es) (auto split: sum.splits)
  from step [OF u] workflow.terminal_run [OF assms(1) rest]
  have "fs = []" "t = u" by blast+
  with es step [OF u] workflow.terminal_final [OF assms(1)]
  show "length es = 1 \<and> state s = initialState wd \<and> state t \<in> set (terminalStates wd) \<and>
      (\<forall>e. \<not> is_ok (reduce wd t e))" by simp
qed

text \<open>
  Submitting a daily log, settling a damage charge and answering a rental request
  are decisions taken at most once: every legal history of one of these rows, whatever its columns,
  has at most one event, it starts from the undecided state, and no later event (a second
  answer, a waiver after the invoice) is accepted.
\<close>

lemma decisions_are_final:
  "decides_once dailyLogWorkflow \<and> decides_once damageChargeSettlementWorkflow \<and>
   decides_once rentalRequestApprovalWorkflow"
proof (intro conjI)
  show "decides_once dailyLogWorkflow"
  proof (rule decides_onceI [OF daily_log_wf.workflow_axioms])
    show "state s = initialState dailyLogWorkflow \<and> state t \<in> set (terminalStates dailyLogWorkflow)"
      if "reduce dailyLogWorkflow s e = Inr t" for s e t
      using that by (cases e) (auto simp: daily_log_defs)
  qed
  show "decides_once damageChargeSettlementWorkflow"
  proof (rule decides_onceI [OF damage_charge_settlement_wf.workflow_axioms])
    show "state s = initialState damageChargeSettlementWorkflow \<and>
        state t \<in> set (terminalStates damageChargeSettlementWorkflow)"
      if "reduce damageChargeSettlementWorkflow s e = Inr t" for s e t
      using that by (cases e) (auto simp: damage_charge_settlement_defs)
  qed
  show "decides_once rentalRequestApprovalWorkflow"
  proof (rule decides_onceI [OF rental_request_approval_wf.workflow_axioms])
    show "state s = initialState rentalRequestApprovalWorkflow \<and>
        state t \<in> set (terminalStates rentalRequestApprovalWorkflow)"
      if "reduce rentalRequestApprovalWorkflow s e = Inr t" for s e t
      using that by (cases e) (auto simp: rental_request_approval_defs)
  qed
qed

section \<open>Every registered workflow\<close>

text \<open>
  What the interface relies on for one workflow: an event of a type offered in a snapshot's state
  is accepted there, and a terminal snapshot accepts nothing and offers nothing.
\<close>

definition offers_never_refused ::
  "('st, 'ev, ('st, 'x) workflow_snapshot_scheme) workflow_definition \<Rightarrow> ('ev \<Rightarrow> string) \<Rightarrow> bool" where
  "offers_never_refused wd event_type \<longleftrightarrow>
     (\<forall>s e. (event_type e \<in> ne_type ` set (nextEvents wd (state s)) \<longrightarrow>
        isHumanEvent wd (event_type e) \<and> is_ok (reduce wd s e)) \<and>
      (state s \<in> set (terminalStates wd) \<longrightarrow> \<not> is_ok (reduce wd s e) \<and> nextEvents wd (state s) = []))"

lemma offers_never_refusedI: "workflow wd event_type \<Longrightarrow> offers_never_refused wd event_type"
  by (auto simp: offers_never_refused_def workflow.offers_legal workflow.terminal_offers_nothing
      workflow.terminal_final dest: workflow.offers_human)

text \<open>
  C22: In every workflow of the package, whatever a snapshot's columns hold, each event
  offered to a human in its state is a human event the reducer accepts, and a terminal snapshot
  offers nothing and accepts nothing.
\<close>

theorem no_offer_is_refused:
  "offers_never_refused rentalBillingWorkflow rental_billing_event_type \<and>
   offers_never_refused crewScheduleWorkflow crew_schedule_event_type \<and>
   offers_never_refused projectCloseoutWorkflow project_closeout_event_type \<and>
   offers_never_refused rentalWorkflow rental_event_type \<and>
   offers_never_refused estimatePushWorkflow estimate_push_event_type \<and>
   offers_never_refused estimateShareWorkflow estimate_share_event_type \<and>
   offers_never_refused timeReviewWorkflow time_review_event_type \<and>
   offers_never_refused projectLifecycleWorkflow project_lifecycle_event_type \<and>
   offers_never_refused fieldEventWorkflow field_event_event_type \<and>
   offers_never_refused laborPayrollWorkflow labor_payroll_event_type \<and>
   offers_never_refused shipmentWorkflow shipment_event_type \<and>
   offers_never_refused damageChargeSettlementWorkflow damage_charge_settlement_event_type \<and>
   offers_never_refused assetDeploymentWorkflow asset_deployment_event_type \<and>
   offers_never_refused rentalRequestApprovalWorkflow rental_request_approval_event_type \<and>
   offers_never_refused tenantProvisionWorkflow tenant_provision_event_type \<and>
   offers_never_refused qboSyncRunWorkflow qbo_sync_run_event_type \<and>
   offers_never_refused scaffoldOpsApprovalWorkflow scaffold_ops_approval_event_type \<and>
   offers_never_refused dailyLogWorkflow daily_log_event_type \<and>
   offers_never_refused notificationWorkflow notification_event_type \<and>
   offers_never_refused changeOrderWorkflow change_order_event_type"
  by (intro conjI offers_never_refusedI)
    (rule rental_billing_wf.workflow_axioms
      crew_schedule_wf.workflow_axioms
      project_closeout_wf.workflow_axioms
      rental_wf.workflow_axioms
      estimate_push_wf.workflow_axioms
      estimate_share_wf.workflow_axioms
      time_review_wf.workflow_axioms
      project_lifecycle_wf.workflow_axioms
      field_event_wf.workflow_axioms
      labor_payroll_wf.workflow_axioms
      shipment_wf.workflow_axioms
      damage_charge_settlement_wf.workflow_axioms
      asset_deployment_wf.workflow_axioms
      rental_request_approval_wf.workflow_axioms
      tenant_provision_wf.workflow_axioms
      qbo_sync_run_wf.workflow_axioms
      scaffold_ops_approval_wf.workflow_axioms
      daily_log_wf.workflow_axioms
      notification_wf.workflow_axioms
      change_order_wf.workflow_axioms)+

section \<open>Every declared state is reachable\<close>

definition reaches_every_state ::
  "('st, 'ev, ('st, 'x) workflow_snapshot_scheme) workflow_definition \<Rightarrow> bool" where
  "reaches_every_state wd \<longleftrightarrow> (\<forall>s st. state s = initialState wd \<longrightarrow> st \<in> set (allStates wd) \<longrightarrow>
     (\<exists>es t. run_events (reduce wd) s es = Inr t \<and> state t = st))"

lemma rental_billing_reaches: "reaches_every_state rentalBillingWorkflow"
proof -
  have "table_deterministic rental_billing_edges" "\<forall>st \<in> set rental_billing_all_states.
      st \<in> set (reach_within rental_billing_edges 6 [initialState rentalBillingWorkflow])"
    by (simp_all add: table_deterministic_def rental_billing_defs successors_def numeral_eq_Suc)
  then show ?thesis
    using rental_billing_wf.table_reachable
    by (fastforce simp: reaches_every_state_def rentalBillingWorkflow_def)
qed

lemma crew_schedule_reaches: "reaches_every_state crewScheduleWorkflow"
  unfolding reaches_every_state_def
proof (intro allI impI)
  fix s :: crew_schedule_snapshot and st
  assume s: "state s = initialState crewScheduleWorkflow"
  define es where "es = (case st of Crew_Schedule.Draft \<Rightarrow> []
    | Crew_Schedule.Confirmed \<Rightarrow> [Crew_Schedule.CONFIRM ''t'' ''u'']
    | Crew_Schedule.Declined \<Rightarrow> [Crew_Schedule.DECLINE ''t'' ''u'' ''r''])"
  have "\<exists>t. run_events (reduce crewScheduleWorkflow) s es = Inr t \<and> state t = st"
    using s by (cases st) (simp_all add: es_def crew_schedule_defs wf_simps)
  then show "\<exists>es t. run_events (reduce crewScheduleWorkflow) s es = Inr t \<and> state t = st" by blast
qed

lemma project_closeout_reaches: "reaches_every_state projectCloseoutWorkflow"
proof -
  have "table_deterministic project_closeout_edges" "\<forall>st \<in> set project_closeout_all_states.
      st \<in> set (reach_within project_closeout_edges 6 [initialState projectCloseoutWorkflow])"
    by (simp_all add: table_deterministic_def project_closeout_defs successors_def numeral_eq_Suc)
  then show ?thesis
    using project_closeout_wf.table_reachable
    by (fastforce simp: reaches_every_state_def projectCloseoutWorkflow_def)
qed

lemma rental_reaches: "reaches_every_state rentalWorkflow"
proof -
  have "table_deterministic rental_edges" "\<forall>st \<in> set rental_all_states.
      st \<in> set (reach_within rental_edges 6 [initialState rentalWorkflow])"
    by (simp_all add: table_deterministic_def rental_defs successors_def numeral_eq_Suc)
  then show ?thesis
    using rental_wf.table_reachable
    by (fastforce simp: reaches_every_state_def rentalWorkflow_def)
qed

lemma estimate_push_reaches: "reaches_every_state estimatePushWorkflow"
proof -
  have "table_deterministic estimate_push_edges" "\<forall>st \<in> set estimate_push_all_states.
      st \<in> set (reach_within estimate_push_edges 6 [initialState estimatePushWorkflow])"
    by (simp_all add: table_deterministic_def estimate_push_defs successors_def numeral_eq_Suc)
  then show ?thesis
    using estimate_push_wf.table_reachable
    by (fastforce simp: reaches_every_state_def estimatePushWorkflow_def)
qed

lemma estimate_share_reaches: "reaches_every_state estimateShareWorkflow"
proof -
  have "table_deterministic estimate_share_edges" "\<forall>st \<in> set estimate_share_all_states.
      st \<in> set (reach_within estimate_share_edges 6 [initialState estimateShareWorkflow])"
    by (simp_all add: table_deterministic_def estimate_share_defs successors_def numeral_eq_Suc)
  then show ?thesis
    using estimate_share_wf.table_reachable
    by (fastforce simp: reaches_every_state_def estimateShareWorkflow_def)
qed

lemma time_review_reaches: "reaches_every_state timeReviewWorkflow"
proof -
  have "table_deterministic time_review_edges" "\<forall>st \<in> set time_review_all_states.
      st \<in> set (reach_within time_review_edges 6 [initialState timeReviewWorkflow])"
    by (simp_all add: table_deterministic_def time_review_defs successors_def numeral_eq_Suc)
  then show ?thesis
    using time_review_wf.table_reachable
    by (fastforce simp: reaches_every_state_def timeReviewWorkflow_def)
qed

lemma project_lifecycle_reaches: "reaches_every_state projectLifecycleWorkflow"
proof -
  have "table_deterministic project_lifecycle_edges" "\<forall>st \<in> set project_lifecycle_all_states.
      st \<in> set (reach_within project_lifecycle_edges 6 [initialState projectLifecycleWorkflow])"
    by (simp_all add: table_deterministic_def project_lifecycle_defs successors_def numeral_eq_Suc)
  then show ?thesis
    using project_lifecycle_wf.table_reachable
    by (fastforce simp: reaches_every_state_def projectLifecycleWorkflow_def)
qed

lemma field_event_reaches: "reaches_every_state fieldEventWorkflow"
proof -
  have "table_deterministic field_event_edges" "\<forall>st \<in> set field_event_all_states.
      st \<in> set (reach_within field_event_edges 6 [initialState fieldEventWorkflow])"
    by (simp_all add: table_deterministic_def field_event_defs successors_def numeral_eq_Suc)
  then show ?thesis
    using field_event_wf.table_reachable
    by (fastforce simp: reaches_every_state_def fieldEventWorkflow_def)
qed

lemma labor_payroll_reaches: "reaches_every_state laborPayrollWorkflow"
proof -
  have "table_deterministic labor_payroll_edges" "\<forall>st \<in> set labor_payroll_all_states.
      st \<in> set (reach_within labor_payroll_edges 6 [initialState laborPayrollWorkflow])"
    by (simp_all add: table_deterministic_def labor_payroll_defs successors_def numeral_eq_Suc)
  then show ?thesis
    using labor_payroll_wf.table_reachable
    by (fastforce simp: reaches_every_state_def laborPayrollWorkflow_def)
qed

lemma shipment_reaches: "reaches_every_state shipmentWorkflow"
proof -
  have "table_deterministic shipment_edges" "\<forall>st \<in> set shipment_all_states.
      st \<in> set (reach_within shipment_edges 6 [initialState shipmentWorkflow])"
    by (simp_all add: table_deterministic_def shipment_defs successors_def numeral_eq_Suc)
  then show ?thesis
    using shipment_wf.table_reachable
    by (fastforce simp: reaches_every_state_def shipmentWorkflow_def)
qed

lemma damage_charge_settlement_reaches: "reaches_every_state damageChargeSettlementWorkflow"
proof -
  have "table_deterministic damage_charge_settlement_edges" "\<forall>st \<in> set damage_charge_settlement_all_states.
      st \<in> set (reach_within damage_charge_settlement_edges 6 [initialState damageChargeSettlementWorkflow])"
    by (simp_all add: table_deterministic_def damage_charge_settlement_defs successors_def numeral_eq_Suc)
  then show ?thesis
    using damage_charge_settlement_wf.table_reachable
    by (fastforce simp: reaches_every_state_def damageChargeSettlementWorkflow_def)
qed

lemma asset_deployment_reaches: "reaches_every_state assetDeploymentWorkflow"
proof -
  have "table_deterministic asset_deployment_edges" "\<forall>st \<in> set asset_deployment_all_states.
      st \<in> set (reach_within asset_deployment_edges 6 [initialState assetDeploymentWorkflow])"
    by (simp_all add: table_deterministic_def asset_deployment_defs successors_def numeral_eq_Suc)
  then show ?thesis
    using asset_deployment_wf.table_reachable
    by (fastforce simp: reaches_every_state_def assetDeploymentWorkflow_def)
qed

lemma rental_request_approval_reaches: "reaches_every_state rentalRequestApprovalWorkflow"
proof -
  have "table_deterministic rental_request_approval_edges" "\<forall>st \<in> set rental_request_approval_all_states.
      st \<in> set (reach_within rental_request_approval_edges 6 [initialState rentalRequestApprovalWorkflow])"
    by (simp_all add: table_deterministic_def rental_request_approval_defs successors_def numeral_eq_Suc)
  then show ?thesis
    using rental_request_approval_wf.table_reachable
    by (fastforce simp: reaches_every_state_def rentalRequestApprovalWorkflow_def)
qed

lemma tenant_provision_reaches: "reaches_every_state tenantProvisionWorkflow"
proof -
  have "table_deterministic tenant_provision_edges" "\<forall>st \<in> set tenant_provision_all_states.
      st \<in> set (reach_within tenant_provision_edges 6 [initialState tenantProvisionWorkflow])"
    by (simp_all add: table_deterministic_def tenant_provision_defs successors_def numeral_eq_Suc)
  then show ?thesis
    using tenant_provision_wf.table_reachable
    by (fastforce simp: reaches_every_state_def tenantProvisionWorkflow_def)
qed

lemma qbo_sync_run_reaches: "reaches_every_state qboSyncRunWorkflow"
proof -
  have "table_deterministic qbo_sync_run_edges" "\<forall>st \<in> set qbo_sync_run_all_states.
      st \<in> set (reach_within qbo_sync_run_edges 6 [initialState qboSyncRunWorkflow])"
    by (simp_all add: table_deterministic_def qbo_sync_run_defs successors_def numeral_eq_Suc)
  then show ?thesis
    using qbo_sync_run_wf.table_reachable
    by (fastforce simp: reaches_every_state_def qboSyncRunWorkflow_def)
qed

lemma scaffold_ops_approval_reaches: "reaches_every_state scaffoldOpsApprovalWorkflow"
proof -
  have "table_deterministic scaffold_ops_approval_edges" "\<forall>st \<in> set scaffold_ops_approval_all_states.
      st \<in> set (reach_within scaffold_ops_approval_edges 6 [initialState scaffoldOpsApprovalWorkflow])"
    by (simp_all add: table_deterministic_def scaffold_ops_approval_defs successors_def numeral_eq_Suc)
  then show ?thesis
    using scaffold_ops_approval_wf.table_reachable
    by (fastforce simp: reaches_every_state_def scaffoldOpsApprovalWorkflow_def)
qed

lemma daily_log_reaches: "reaches_every_state dailyLogWorkflow"
proof -
  have "table_deterministic daily_log_edges" "\<forall>st \<in> set daily_log_all_states.
      st \<in> set (reach_within daily_log_edges 6 [initialState dailyLogWorkflow])"
    by (simp_all add: table_deterministic_def daily_log_defs successors_def numeral_eq_Suc)
  then show ?thesis
    using daily_log_wf.table_reachable
    by (fastforce simp: reaches_every_state_def dailyLogWorkflow_def)
qed

lemma notification_reaches: "reaches_every_state notificationWorkflow"
  unfolding reaches_every_state_def
proof (intro allI impI)
  fix s :: notification_snapshot and st
  assume s: "state s = initialState notificationWorkflow"
  define es where "es = (case st of Notification.Pending \<Rightarrow> []
    | Notification.Hydrating \<Rightarrow> [Notification.HYDRATE ''t'' ''m'']
    | Notification.Sending \<Rightarrow> [Notification.SEND_REQUESTED ''t'']
    | Notification.Sent \<Rightarrow> [Notification.SEND_REQUESTED ''t'', Notification.SEND_SUCCEEDED ''t'' Push]
    | Notification.Failed_clerk_not_found \<Rightarrow> [Notification.SEND_FAILED ''t'' ''x'' Clerk_not_found]
    | Notification.Failed_clerk_unreachable \<Rightarrow> [Notification.SEND_FAILED ''t'' ''x'' Clerk_unreachable]
    | Notification.Failed_provider \<Rightarrow> [Notification.SEND_FAILED ''t'' ''x'' Provider]
    | Notification.Voided \<Rightarrow> [Notification.VOID ''t'' Undefined])"
  have "\<exists>t. run_events (reduce notificationWorkflow) s es = Inr t \<and> state t = st"
    using s by (cases st) (simp_all add: es_def notification_defs wf_simps)
  then show "\<exists>es t. run_events (reduce notificationWorkflow) s es = Inr t \<and> state t = st" by blast
qed

lemma change_order_reaches: "reaches_every_state changeOrderWorkflow"
proof -
  have "table_deterministic change_order_edges" "\<forall>st \<in> set change_order_all_states.
      st \<in> set (reach_within change_order_edges 6 [initialState changeOrderWorkflow])"
    by (simp_all add: table_deterministic_def change_order_defs successors_def numeral_eq_Suc)
  then show ?thesis
    using change_order_wf.table_reachable
    by (fastforce simp: reaches_every_state_def changeOrderWorkflow_def)
qed

text \<open>
  C23: No declared state of any workflow is dead code: from every snapshot in the
  initial state, whatever its columns hold, some sequence of accepted events leads to each state
  listed in \<open>allStates\<close>.
\<close>

theorem every_declared_state_is_reachable:
  "reaches_every_state rentalBillingWorkflow \<and>
   reaches_every_state crewScheduleWorkflow \<and>
   reaches_every_state projectCloseoutWorkflow \<and>
   reaches_every_state rentalWorkflow \<and>
   reaches_every_state estimatePushWorkflow \<and>
   reaches_every_state estimateShareWorkflow \<and>
   reaches_every_state timeReviewWorkflow \<and>
   reaches_every_state projectLifecycleWorkflow \<and>
   reaches_every_state fieldEventWorkflow \<and>
   reaches_every_state laborPayrollWorkflow \<and>
   reaches_every_state shipmentWorkflow \<and>
   reaches_every_state damageChargeSettlementWorkflow \<and>
   reaches_every_state assetDeploymentWorkflow \<and>
   reaches_every_state rentalRequestApprovalWorkflow \<and>
   reaches_every_state tenantProvisionWorkflow \<and>
   reaches_every_state qboSyncRunWorkflow \<and>
   reaches_every_state scaffoldOpsApprovalWorkflow \<and>
   reaches_every_state dailyLogWorkflow \<and>
   reaches_every_state notificationWorkflow \<and>
   reaches_every_state changeOrderWorkflow"
  by (intro conjI)
    (rule rental_billing_reaches
      crew_schedule_reaches
      project_closeout_reaches
      rental_reaches
      estimate_push_reaches
      estimate_share_reaches
      time_review_reaches
      project_lifecycle_reaches
      field_event_reaches
      labor_payroll_reaches
      shipment_reaches
      damage_charge_settlement_reaches
      asset_deployment_reaches
      rental_request_approval_reaches
      tenant_provision_reaches
      qbo_sync_run_reaches
      scaffold_ops_approval_reaches
      daily_log_reaches
      notification_reaches
      change_order_reaches)+

end
